(* ===== verification/Prelude.thy ===== *)
theory Prelude
  imports Complex_Main "HOL-Library.Word" "HOL-Library.AList"
begin

text \<open>
  The shared base of the development: JavaScript strings as lists of UTF-16 code units,
  JavaScript \<open>Map\<close> and \<open>Set\<close> objects as insertion-ordered lists, and the generic
  facts about lists, options and association lists that the components use.
  The named collections declared here are extended by the component theories.
\<close>

named_theorems map_ops \<open>what a lookup returns after an operation on an ordered map\<close>
named_theorems frame \<open>fields an operation leaves as they were\<close>

section \<open>Strings\<close>

text \<open>
  A JavaScript string is a sequence of 16-bit code units; \<open>length\<close>, \<open>slice\<close>,
  \<open>charCodeAt\<close> and \<open>indexOf\<close> all count code units. A source literal is written
  \<open>js ''literal''\<close>.
\<close>

type_synonym js_unit = "16 word"
type_synonym js_string = "js_unit list"

definition js :: "string \<Rightarrow> js_string" where
  "js s = map (\<lambda>c. word_of_nat (of_char c)) s"

lemma js_simps [simp]:
  "js [] = []"
  "js (c # cs) = word_of_nat (of_char c) # js cs"
  by (simp_all add: js_def)

lemma js_append: "js (s @ t) = js s @ js t"
  by (simp add: js_def)

lemma length_js [simp]: "length (js s) = length s"
  by (simp add: js_def)

text \<open>
  The white space of \<open>String.prototype.trim\<close> and of the class \<open>\s\<close> of a regular
  expression: the ECMAScript WhiteSpace and LineTerminator productions.
\<close>

definition is_js_space :: "js_unit \<Rightarrow> bool" where
  "is_js_space u \<longleftrightarrow>
     (let c = unat u in
      (9 \<le> c \<and> c \<le> 13) \<or> c = 32 \<or> c = 160 \<or> c = 5760 \<or> (8192 \<le> c \<and> c \<le> 8202) \<or>
      c = 8232 \<or> c = 8233 \<or> c = 8239 \<or> c = 8287 \<or> c = 12288 \<or> c = 65279)"

definition js_trimStart :: "js_string \<Rightarrow> js_string" where
  "js_trimStart s = dropWhile is_js_space s"

definition js_trimEnd :: "js_string \<Rightarrow> js_string" where
  "js_trimEnd s = rev (dropWhile is_js_space (rev s))"

definition js_trim :: "js_string \<Rightarrow> js_string" where
  "js_trim s = js_trimEnd (js_trimStart s)"

definition js_startsWith :: "js_string \<Rightarrow> js_string \<Rightarrow> bool" where
  "js_startsWith s p \<longleftrightarrow> take (length p) s = p"

text \<open>\<open>indexOf\<close> of a single code unit from an offset: \<open>None\<close> is the source's \<open>-1\<close>.\<close>

fun js_indexOf_unit :: "js_unit \<Rightarrow> js_string \<Rightarrow> nat option" where
  "js_indexOf_unit u [] = None"
| "js_indexOf_unit u (c # cs) =
     (if c = u then Some 0 else map_option Suc (js_indexOf_unit u cs))"

definition js_indexOf_from :: "js_unit \<Rightarrow> js_string \<Rightarrow> nat \<Rightarrow> nat option" where
  "js_indexOf_from u s from = map_option (\<lambda>i. from + i) (js_indexOf_unit u (drop from s))"

text \<open>\<open>slice\<close> with two non-negative bounds.\<close>

definition js_slice :: "js_string \<Rightarrow> nat \<Rightarrow> nat \<Rightarrow> js_string" where
  "js_slice s from to = take (to - from) (drop from s)"

text \<open>\<open>replace(/\s+/gu, " ")\<close>: every maximal run of white space becomes one space.\<close>

fun js_collapse_space :: "js_string \<Rightarrow> js_string" where
  "js_collapse_space [] = []"
| "js_collapse_space [c] = (if is_js_space c then [32] else [c])"
| "js_collapse_space (c # d # cs) =
     (if is_js_space c
      then (if is_js_space d then js_collapse_space (d # cs)
            else 32 # js_collapse_space (d # cs))
      else c # js_collapse_space (d # cs))"

lemma js_indexOf_unit_None: "js_indexOf_unit u s = None \<longleftrightarrow> u \<notin> set s"
  by (induction s) auto

lemma js_indexOf_unit_Some:
  "js_indexOf_unit u s = Some i \<Longrightarrow> i < length s \<and> s ! i = u \<and> u \<notin> set (take i s)"
proof (induction s arbitrary: i)
  case Nil
  then show ?case by simp
next
  case (Cons c cs)
  then show ?case by (cases i) (auto split: if_splits)
qed

lemma js_indexOf_unit_append_hit:
  "u \<notin> set a \<Longrightarrow> js_indexOf_unit u (a @ u # b) = Some (length a)"
  by (induction a) auto

lemma js_indexOf_unit_SomeE:
  assumes "js_indexOf_unit u s = Some i"
  obtains a b where "s = a @ u # b" and "length a = i" and "u \<notin> set a"
proof
  from js_indexOf_unit_Some [OF assms]
  show "s = take i s @ u # drop (Suc i) s" and "length (take i s) = i" and "u \<notin> set (take i s)"
    by (auto simp: id_take_nth_drop)
qed

section \<open>Numbers\<close>

text \<open>
  The integers the source counts with are JavaScript numbers; the model uses \<open>int\<close>
  (or \<open>nat\<close> for lengths and indices) and keeps \<open>Number.isSafeInteger\<close> as a guard.
\<close>

definition max_safe_integer :: int where
  "max_safe_integer = 9007199254740991"

definition isSafeInteger :: "int \<Rightarrow> bool" where
  "isSafeInteger n \<longleftrightarrow> \<bar>n\<bar> \<le> max_safe_integer"

section \<open>Options\<close>

text \<open>\<open>a ?? b\<close> where both sides may be absent.\<close>

fun coalesce :: "'a option \<Rightarrow> 'a option \<Rightarrow> 'a option" where
  "coalesce (Some a) _ = Some a"
| "coalesce None b = b"

lemma coalesce_None [simp]: "coalesce a None = a"
  by (cases a) simp_all

lemma coalesce_eq_None [simp]: "coalesce a b = None \<longleftrightarrow> a = None \<and> b = None"
  by (cases a) simp_all

lemma coalesce_cases: "coalesce a b = a \<or> a = None \<and> coalesce a b = b"
  by (cases a) simp_all

section \<open>Arrays\<close>

text \<open>\<open>xs[i] ?? null\<close>, absent out of range.\<close>

definition nth_opt :: "'a list \<Rightarrow> nat \<Rightarrow> 'a option" where
  "nth_opt xs i = (if i < length xs then Some (xs ! i) else None)"

lemma nth_opt_simps [simp]:
  "nth_opt [] i = None"
  "nth_opt (x # xs) 0 = Some x"
  "nth_opt (x # xs) (Suc i) = nth_opt xs i"
  by (simp_all add: nth_opt_def)

section \<open>Ordered maps and sets\<close>

text \<open>
  A JavaScript \<open>Map\<close> keeps its keys in insertion order, and setting a key that is
  present keeps its place. That is \<open>AList.update\<close> on an association list;
  \<open>AList.delete\<close> is \<open>Map.delete\<close>, \<open>map_of\<close> is \<open>Map.get\<close>. A \<open>Set\<close> is a list
  without duplicates that grows at its end.
\<close>

type_synonym ('k, 'v) js_map = "('k \<times> 'v) list"
type_synonym 'a js_set = "'a list"

definition map_wf :: "('k, 'v) js_map \<Rightarrow> bool" where
  "map_wf m \<longleftrightarrow> distinct (map fst m)"

definition map_values :: "('k, 'v) js_map \<Rightarrow> 'v list" where
  "map_values m = map snd m"

definition set_add :: "'a \<Rightarrow> 'a js_set \<Rightarrow> 'a js_set" where
  "set_add x xs = (if x \<in> set xs then xs else xs @ [x])"

definition set_delete :: "'a \<Rightarrow> 'a js_set \<Rightarrow> 'a js_set" where
  "set_delete x xs = filter (\<lambda>y. y \<noteq> x) xs"

lemma set_set_add [simp]: "set (set_add x xs) = insert x (set xs)"
  by (auto simp: set_add_def)

lemma distinct_set_add [simp]: "distinct (set_add x xs) = distinct xs"
  by (auto simp: set_add_def)

lemma set_set_delete [simp]: "set (set_delete x xs) = set xs - {x}"
  by (auto simp: set_delete_def)

lemma distinct_set_delete [simp]: "distinct xs \<Longrightarrow> distinct (set_delete x xs)"
  by (simp add: set_delete_def)

lemma map_wf_Nil [simp]: "map_wf []"
  by (simp add: map_wf_def)

lemma map_wf_update [simp]: "map_wf m \<Longrightarrow> map_wf (AList.update k v m)"
  by (simp add: map_wf_def distinct_update)

lemma map_wf_delete [simp]: "map_wf m \<Longrightarrow> map_wf (AList.delete k m)"
  by (simp add: map_wf_def distinct_delete)

lemma map_get_set [simp, map_ops]:
  "map_of (AList.update k v m) = (map_of m)(k \<mapsto> v)"
  by (simp add: update_conv')

lemma map_get_delete [simp, map_ops]: "map_of (AList.delete k m) = (map_of m)(k := None)"
  by (simp add: delete_conv')

lemma length_update_present:
  "map_of m k \<noteq> None \<Longrightarrow> length (AList.update k v m) = length m"
  by (induction m) auto

lemma length_update_absent:
  "map_of m k = None \<Longrightarrow> length (AList.update k v m) = Suc (length m)"
  by (induction m) (auto split: if_splits)

lemma length_update_le: "length (AList.update k v m) \<le> Suc (length m)"
  by (induction m) auto

lemma length_map_delete_le: "length (AList.delete k m) \<le> length m"
  by (simp add: AList.delete_eq)

lemma length_map_wf: "map_wf m \<Longrightarrow> length m = card (dom (map_of m))"
  by (metis map_wf_def dom_map_of_conv_image_fst distinct_card length_map list.set_map)

end
