(* ===== verification/Utf8.thy ===== *)
theory Utf8
  imports Prelude
begin

text \<open>
  Bounded UTF-8 text: \<open>packages/agent-events/src/agentOutput/utf8Text.ts\<close> and the two
  platform services it rests on, \<open>TextEncoder\<close> and \<open>TextDecoder("utf-8")\<close>.
  A byte is a natural number below 256. The encoder replaces an unpaired surrogate by
  U+FFFD; the decoder follows the WHATWG rules (maximal invalid subparts become U+FFFD, and
  a leading byte order mark is dropped).
\<close>

unbundle bit_operations_syntax

section \<open>Code units and scalar values\<close>

definition HIGH_SURROGATE_START :: nat where "HIGH_SURROGATE_START = 55296"
definition HIGH_SURROGATE_END :: nat where "HIGH_SURROGATE_END = 56319"
definition LOW_SURROGATE_START :: nat where "LOW_SURROGATE_START = 56320"
definition LOW_SURROGATE_END :: nat where "LOW_SURROGATE_END = 57343"

lemmas surrogate_defs =
  HIGH_SURROGATE_START_def HIGH_SURROGATE_END_def LOW_SURROGATE_START_def LOW_SURROGATE_END_def

definition is_high :: "js_unit \<Rightarrow> bool" where
  "is_high u \<longleftrightarrow> HIGH_SURROGATE_START \<le> unat u \<and> unat u \<le> HIGH_SURROGATE_END"

definition is_low :: "js_unit \<Rightarrow> bool" where
  "is_low u \<longleftrightarrow> LOW_SURROGATE_START \<le> unat u \<and> unat u \<le> LOW_SURROGATE_END"

definition isLowSurrogateAt :: "js_string \<Rightarrow> nat \<Rightarrow> bool" where
  "isLowSurrogateAt text index \<longleftrightarrow> index < length text \<and> is_low (text ! index)"

lemma isLowSurrogateAt_simps [simp]:
  "isLowSurrogateAt [] i = False"
  "isLowSurrogateAt (u # us) 0 = is_low u"
  by (simp_all add: isLowSurrogateAt_def)

lemma is_low_not_high: "is_low u \<Longrightarrow> \<not> is_high u"
  by (simp add: is_low_def is_high_def surrogate_defs)

text \<open>
  The loop of \<open>utf8ByteLength\<close>: the argument is the text from the loop's index on.
\<close>

fun utf8ByteLength :: "js_string \<Rightarrow> nat" where
  "utf8ByteLength [] = 0"
| "utf8ByteLength (code # rest) =
     (if unat code < 128 then 1 + utf8ByteLength rest
      else if unat code < 2048 then 2 + utf8ByteLength rest
      else if is_high code \<and> isLowSurrogateAt rest 0 then 4 + utf8ByteLength (tl rest)
      else 3 + utf8ByteLength rest)"

text \<open>
  String iteration (\<open>[...text]\<close>): a surrogate pair is one element, any other code unit
  is one element.
\<close>

fun js_points :: "js_string \<Rightarrow> js_string list" where
  "js_points [] = []"
| "js_points (u # us) =
     (if is_high u \<and> isLowSurrogateAt us 0 then [u, hd us] # js_points (tl us)
      else [u] # js_points us)"

lemma concat_js_points [simp]: "concat (js_points s) = s"
proof (induction s rule: js_points.induct)
  case (2 u us)
  then show ?case by (cases us) auto
qed simp

text \<open>The scalar value of an element; an unpaired surrogate counts as U+FFFD.\<close>

fun point_scalar :: "js_string \<Rightarrow> nat" where
  "point_scalar [] = 65533"
| "point_scalar [u] = (if is_high u \<or> is_low u then 65533 else unat u)"
| "point_scalar (h # l # r) =
     65536 + (unat h - HIGH_SURROGATE_START) * 1024 + (unat l - LOW_SURROGATE_START)"

definition scalars :: "js_string \<Rightarrow> nat list" where
  "scalars s = map point_scalar (js_points s)"

definition is_scalar :: "nat \<Rightarrow> bool" where
  "is_scalar c \<longleftrightarrow> c < 1114112 \<and> \<not> (HIGH_SURROGATE_START \<le> c \<and> c \<le> LOW_SURROGATE_END)"

lemma scalars_Nil [simp]: "scalars [] = []"
  by (simp add: scalars_def)

lemma unit_bound: "unat (u :: js_unit) < 65536"
  using unsigned_less [of u] by simp

lemma point_scalar_single: "is_scalar (point_scalar [u])"
  using unit_bound [of u] by (auto simp: is_scalar_def is_high_def is_low_def surrogate_defs)

lemma point_scalar_pair:
  assumes "is_high h" and "is_low l"
  shows "is_scalar (point_scalar [h, l])" and "65536 \<le> point_scalar [h, l]"
  using assms by (auto simp: is_scalar_def is_high_def is_low_def surrogate_defs)

lemma scalars_valid: "\<forall>c \<in> set (scalars s). is_scalar c"
proof (induction s rule: js_points.induct)
  case (2 u us)
  show ?case
  proof (cases "is_high u \<and> isLowSurrogateAt us 0")
    case True
    then obtain l r where "us = l # r" and "is_low l" by (cases us) auto
    with True 2 show ?thesis by (simp add: scalars_def point_scalar_pair del: point_scalar.simps)
  next
    case False
    with 2 show ?thesis by (auto simp: scalars_def point_scalar_single simp del: point_scalar.simps)
  qed
qed simp

section \<open>The encoder\<close>

fun utf8_scalar :: "nat \<Rightarrow> nat list" where
  "utf8_scalar c =
     (if c < 128 then [c]
      else if c < 2048 then [192 + c div 64, 128 + c mod 64]
      else if c < 65536 then [224 + c div 4096, 128 + c div 64 mod 64, 128 + c mod 64]
      else [240 + c div 262144, 128 + c div 4096 mod 64, 128 + c div 64 mod 64, 128 + c mod 64])"

declare utf8_scalar.simps [simp del]

definition utf8_encode_scalars :: "nat list \<Rightarrow> nat list" where
  "utf8_encode_scalars cs = concat (map utf8_scalar cs)"

definition utf8_encode :: "js_string \<Rightarrow> nat list" where
  "utf8_encode s = utf8_encode_scalars (scalars s)"

lemma utf8_encode_scalars_simps [simp]:
  "utf8_encode_scalars [] = []"
  "utf8_encode_scalars (c # cs) = utf8_scalar c @ utf8_encode_scalars cs"
  "utf8_encode_scalars (as @ bs) = utf8_encode_scalars as @ utf8_encode_scalars bs"
  by (simp_all add: utf8_encode_scalars_def)

text \<open>The counter agrees with the encoder: no encoding is built to count bytes.\<close>

lemma length_utf8_encode: "length (utf8_encode s) = utf8ByteLength s"
proof (induction s rule: utf8ByteLength.induct)
  case 1
  show ?case by (simp add: utf8_encode_def)
next
  case (2 u us)
  show ?case
  proof (cases "is_high u \<and> isLowSurrogateAt us 0")
    case True
    then obtain l r where us: "us = l # r" and l: "is_low l" by (cases us) auto
    have "\<not> unat u < 2048" using True by (simp add: is_high_def surrogate_defs)
    with 2 us l True point_scalar_pair [of u l] show ?thesis
      by (simp add: utf8_encode_def scalars_def utf8_scalar.simps del: point_scalar.simps)
  next
    case False
    have "length (utf8_scalar (point_scalar [u])) =
        (if unat u < 128 then 1 else if unat u < 2048 then 2 else 3)"
      using unit_bound [of u] by (auto simp: utf8_scalar.simps is_high_def is_low_def surrogate_defs)
    with False 2 show ?thesis
      by (auto simp: utf8_encode_def scalars_def simp del: point_scalar.simps)
  qed
qed

section \<open>The decoder\<close>

definition UTF8_CONTINUATION_MASK :: nat where "UTF8_CONTINUATION_MASK = 192"
definition UTF8_CONTINUATION_MARKER :: nat where "UTF8_CONTINUATION_MARKER = 128"

definition isContinuation :: "nat option \<Rightarrow> bool" where
  "isContinuation byte = (case byte of None \<Rightarrow> False
     | Some b \<Rightarrow> b AND UTF8_CONTINUATION_MASK = UTF8_CONTINUATION_MARKER)"

definition trail :: "nat \<Rightarrow> bool" where
  "trail b \<longleftrightarrow> 128 \<le> b \<and> b \<le> 191"

text \<open>The second byte a lead byte admits: overlong forms and surrogates are refused.\<close>

definition second_ok :: "nat \<Rightarrow> nat \<Rightarrow> bool" where
  "second_ok b c \<longleftrightarrow>
     (if b = 224 then 160 \<le> c \<and> c \<le> 191
      else if b = 237 then 128 \<le> c \<and> c \<le> 159
      else if b = 240 then 144 \<le> c \<and> c \<le> 191
      else if b = 244 then 128 \<le> c \<and> c \<le> 143
      else trail c)"

fun utf8_decode_scalars :: "nat list \<Rightarrow> nat list" where
  "utf8_decode_scalars [] = []"
| "utf8_decode_scalars (b # bs) =
     (if b < 128 then b # utf8_decode_scalars bs
      else if 194 \<le> b \<and> b \<le> 223 then
        (case bs of [] \<Rightarrow> [65533]
         | c # cs \<Rightarrow>
             if trail c then ((b - 192) * 64 + (c - 128)) # utf8_decode_scalars cs
             else 65533 # utf8_decode_scalars bs)
      else if 224 \<le> b \<and> b \<le> 239 then
        (case bs of [] \<Rightarrow> [65533]
         | c # cs \<Rightarrow>
             if \<not> second_ok b c then 65533 # utf8_decode_scalars bs
             else (case cs of [] \<Rightarrow> [65533]
               | d # ds \<Rightarrow>
                   if trail d
                   then ((b - 224) * 4096 + (c - 128) * 64 + (d - 128)) # utf8_decode_scalars ds
                   else 65533 # utf8_decode_scalars cs))
      else if 240 \<le> b \<and> b \<le> 244 then
        (case bs of [] \<Rightarrow> [65533]
         | c # cs \<Rightarrow>
             if \<not> second_ok b c then 65533 # utf8_decode_scalars bs
             else (case cs of [] \<Rightarrow> [65533]
               | d # ds \<Rightarrow>
                   if \<not> trail d then 65533 # utf8_decode_scalars cs
                   else (case ds of [] \<Rightarrow> [65533]
                     | e # es \<Rightarrow>
                         if trail e
                         then ((b - 240) * 262144 + (c - 128) * 4096 + (d - 128) * 64
                                + (e - 128)) # utf8_decode_scalars es
                         else 65533 # utf8_decode_scalars ds)))
      else 65533 # utf8_decode_scalars bs)"

declare utf8_decode_scalars.simps(2) [simp del]

definition scalar_units :: "nat \<Rightarrow> js_string" where
  "scalar_units c =
     (if c < 65536 then [word_of_nat c]
      else [word_of_nat (HIGH_SURROGATE_START + (c - 65536) div 1024),
            word_of_nat (LOW_SURROGATE_START + (c - 65536) mod 1024)])"

definition units_of_scalars :: "nat list \<Rightarrow> js_string" where
  "units_of_scalars cs = concat (map scalar_units cs)"

definition drop_bom :: "nat list \<Rightarrow> nat list" where
  "drop_bom cs = (case cs of [] \<Rightarrow> [] | c # r \<Rightarrow> if c = 65279 then r else cs)"

definition utf8_decode :: "nat list \<Rightarrow> js_string" where
  "utf8_decode bytes = units_of_scalars (drop_bom (utf8_decode_scalars bytes))"


section \<open>Continuation bytes and boundaries\<close>

lemma and_double: "b AND (2 * n) = 2 * ((b div 2) AND n)" for b n :: nat
  by (subst and_nat_unfold) auto

lemma and_192: "b AND 192 = 64 * ((b div 64) AND 3)" for b :: nat
  using and_double [of b 96] and_double [of "b div 2" 48] and_double [of "b div 4" 24]
    and_double [of "b div 8" 12] and_double [of "b div 16" 6] and_double [of "b div 32" 3]
  by (simp flip: div_mult2_eq)

lemma isContinuation_byte:
  assumes "b < 256"
  shows "isContinuation (Some b) \<longleftrightarrow> trail b"
proof -
  have "b div 64 < 4" using assms by linarith
  then consider "b div 64 = 0" | "b div 64 = 1" | "b div 64 = 2" | "b div 64 = 3" by linarith
  then show ?thesis
    by cases (simp add: isContinuation_def trail_def UTF8_CONTINUATION_MASK_def
        UTF8_CONTINUATION_MARKER_def and_192; linarith)+
qed

lemma utf8_scalar_nonempty [simp]: "utf8_scalar c \<noteq> []"
  by (simp add: utf8_scalar.simps)

lemma utf8_scalar_bytes:
  assumes "is_scalar c"
  shows "\<forall>b \<in> set (utf8_scalar c). b < 256" and "\<not> trail (hd (utf8_scalar c))"
    and "\<forall>b \<in> set (tl (utf8_scalar c)). trail b"
  using assms by (auto simp: utf8_scalar.simps is_scalar_def trail_def)

text \<open>Decoding an encoded scalar value gives it back, whatever follows.\<close>

lemma mod_64_le: "n mod 64 \<le> 63" for n :: nat
  using mod_less_divisor [of 64 n] by linarith

lemma split_4096: "(c div 4096) * 4096 + (c div 64 mod 64) * 64 + c mod 64 = c" for c :: nat
proof -
  have "c div 4096 = c div 64 div 64" by (simp flip: div_mult2_eq)
  moreover have "c div 64 div 64 * 64 + c div 64 mod 64 = c div 64" by (rule div_mult_mod_eq)
  moreover have "c div 64 * 64 + c mod 64 = c" by (rule div_mult_mod_eq)
  ultimately show ?thesis by linarith
qed

lemma split_262144:
  "(c div 262144) * 262144 + (c div 4096 mod 64) * 4096 + (c div 64 mod 64) * 64 + c mod 64 = c"
  for c :: nat
proof -
  have "c div 262144 = c div 4096 div 64" by (simp flip: div_mult2_eq)
  moreover have "c div 4096 div 64 * 64 + c div 4096 mod 64 = c div 4096" by (rule div_mult_mod_eq)
  ultimately show ?thesis using split_4096 [of c] by linarith
qed

lemma second_ok_three:
  fixes c :: nat
  assumes "2048 \<le> c" and "c < 65536" and "\<not> (55296 \<le> c \<and> c \<le> 57343)"
  shows "second_ok (224 + c div 4096) (128 + c div 64 mod 64)" and "c div 4096 \<le> 15"
proof -
  define q r where "q = c div 4096" and "r = c div 64 mod 64"
  have d: "c div 64 = 64 * q + r"
    using split_4096 [of c] div_mult_mod_eq [of c 64] unfolding q_def r_def by linarith
  have r: "r < 64" by (simp add: r_def)
  have low: "64 * (64 * q + r) \<le> c" "c < 64 * (64 * q + r) + 64"
    using d div_mult_mod_eq [of c 64] mod_less_divisor [of 64 c] by simp_all
  have q: "q \<le> 15" using assms(2) less_mult_imp_div_less [of c 16 4096] by (simp add: q_def)
  then show "c div 4096 \<le> 15" by (simp add: q_def)
  have "32 \<le> r" if "q = 0" using that assms(1) low by simp
  moreover have "r < 32" if "q = 13" using that assms(3) low r by simp
  ultimately have "second_ok (224 + q) (128 + r)"
    using r q by (auto simp: second_ok_def trail_def)
  then show "second_ok (224 + c div 4096) (128 + c div 64 mod 64)" by (simp add: q_def r_def)
qed

lemma second_ok_four:
  fixes c :: nat
  assumes "65536 \<le> c" and "c < 1114112"
  shows "second_ok (240 + c div 262144) (128 + c div 4096 mod 64)" and "c div 262144 \<le> 4"
proof -
  define q r where "q = c div 262144" and "r = c div 4096 mod 64"
  have d: "c div 4096 = 64 * q + r"
    using split_262144 [of c] split_4096 [of c] unfolding q_def r_def by linarith
  have r: "r < 64" by (simp add: r_def)
  have low: "4096 * (64 * q + r) \<le> c" "c < 4096 * (64 * q + r) + 4096"
    using d div_mult_mod_eq [of c 4096] mod_less_divisor [of 4096 c] by simp_all
  have q: "q \<le> 4" using assms(2) less_mult_imp_div_less [of c 5 262144] by (simp add: q_def)
  then show "c div 262144 \<le> 4" by (simp add: q_def)
  have "16 \<le> r" if "q = 0" using that assms(1) low by simp
  moreover have "r < 16" if "q = 4" using that assms(2) low r by simp
  ultimately have "second_ok (240 + q) (128 + r)"
    using r q by (auto simp: second_ok_def trail_def)
  then show "second_ok (240 + c div 262144) (128 + c div 4096 mod 64)" by (simp add: q_def r_def)
qed

lemma decode_utf8_scalar:
  assumes "is_scalar c"
  shows "utf8_decode_scalars (utf8_scalar c @ bs) = c # utf8_decode_scalars bs"
proof -
  consider "c < 128" | "128 \<le> c" "c < 2048" | "2048 \<le> c" "c < 65536" | "65536 \<le> c" by linarith
  then show ?thesis
  proof cases
    case 1
    then show ?thesis by (simp add: utf8_scalar.simps utf8_decode_scalars.simps(2))
  next
    case 2
    define q r where "q = c div 64" and "r = c mod 64"
    have c: "c = q * 64 + r" and r: "r \<le> 63"
      using mod_less_divisor [of 64 c] by (simp_all add: q_def r_def)
    with 2 have q: "2 \<le> q" "q \<le> 31" by linarith+
    have "utf8_scalar c = [192 + q, 128 + r]" using 2 by (simp add: utf8_scalar.simps q_def r_def)
    with c r q show ?thesis by (simp add: utf8_decode_scalars.simps(2) trail_def)
  next
    case 3
    have "\<not> (55296 \<le> c \<and> c \<le> 57343)"
      using assms by (simp add: is_scalar_def surrogate_defs)
    with 3 second_ok_three [of c] show ?thesis using split_4096 [of c]
      by (simp add: utf8_scalar.simps utf8_decode_scalars.simps(2) trail_def mod_64_le)
  next
    case 4
    have "c < 1114112" using assms by (simp add: is_scalar_def)
    with 4 second_ok_four [of c] show ?thesis using split_262144 [of c]
      by (simp add: utf8_scalar.simps utf8_decode_scalars.simps(2) trail_def mod_64_le)
  qed
qed

lemma decode_encode_scalars:
  "\<forall>c \<in> set cs. is_scalar c \<Longrightarrow> utf8_decode_scalars (utf8_encode_scalars cs) = cs"
  by (induction cs) (simp_all add: decode_utf8_scalar)


section \<open>Truncation at a scalar boundary\<close>

text \<open>
  The loop \<open>while (end > 0 && (bytes[end] & 0xc0) === 0x80) end -= 1\<close> that
  \<open>boundUtf8Text\<close>, \<open>floorBoundary\<close> and the lifecycle's \<open>clip\<close> share.
\<close>

fun back_to_boundary :: "nat list \<Rightarrow> nat \<Rightarrow> nat" where
  "back_to_boundary bytes 0 = 0"
| "back_to_boundary bytes (Suc end) =
     (if isContinuation (nth_opt bytes (Suc end)) then back_to_boundary bytes end else Suc end)"

definition stripNulls :: "js_string \<Rightarrow> js_string" where
  "stripNulls text = (if 0 \<notin> set text then text else filter (\<lambda>u. u \<noteq> 0) text)"

record BoundedUtf8Text =
  bounded_text :: js_string
  bounded_clipped :: bool

definition boundUtf8Text :: "js_string \<Rightarrow> nat \<Rightarrow> BoundedUtf8Text" where
  "boundUtf8Text text maxBytes =
     (let safe = stripNulls text in
      if utf8ByteLength safe \<le> maxBytes
      then \<lparr>bounded_text = safe, bounded_clipped = False\<rparr>
      else
        let bytes = utf8_encode safe;
            end = back_to_boundary bytes maxBytes
        in \<lparr>bounded_text = utf8_decode (take end bytes), bounded_clipped = True\<rparr>)"

definition boundedUtf8Text :: "js_string \<Rightarrow> nat \<Rightarrow> js_string" where
  "boundedUtf8Text text maxBytes = bounded_text (boundUtf8Text text maxBytes)"

lemma back_to_boundary_le: "back_to_boundary bytes e \<le> e"
  by (induction e) auto

lemma back_to_boundary_append:
  assumes "bs \<noteq> []" and "\<not> isContinuation (Some (hd bs))"
  shows "back_to_boundary (as @ bs) (length as + e) = length as + back_to_boundary bs e"
proof (induction e)
  case 0
  show ?case
  proof (cases as)
    case (Cons a as')
    have "nth_opt (as @ bs) (length as) = Some (hd bs)"
      using assms(1) by (simp add: nth_opt_def nth_append hd_conv_nth)
    with Cons assms(2) show ?thesis by simp
  qed simp
next
  case (Suc e)
  have "nth_opt (as @ bs) (Suc (length as + e)) = nth_opt bs (Suc e)"
    by (simp add: nth_opt_def nth_append)
  with Suc show ?case by simp
qed

lemma back_to_boundary_inside:
  assumes "e < length as" and "\<forall>b \<in> set (tl as). isContinuation (Some b)"
  shows "back_to_boundary (as @ bs) e = 0"
  using assms(1)
proof (induction e)
  case (Suc e)
  then have "as ! Suc e \<in> set (tl as)" by (cases as) auto
  then have "isContinuation (nth_opt (as @ bs) (Suc e))"
    using Suc.prems assms(2) by (simp add: nth_opt_def nth_append)
  with Suc show ?case by simp
qed simp

lemma utf8_scalar_continuations:
  assumes "is_scalar c"
  shows "\<not> isContinuation (Some (hd (utf8_scalar c)))"
    and "\<forall>b \<in> set (tl (utf8_scalar c)). isContinuation (Some b)"
proof -
  have "hd (utf8_scalar c) \<in> set (utf8_scalar c)" by simp
  with utf8_scalar_bytes [OF assms] show "\<not> isContinuation (Some (hd (utf8_scalar c)))"
    by (simp add: isContinuation_byte)
  have "\<forall>b \<in> set (tl (utf8_scalar c)). b < 256"
    using utf8_scalar_bytes(1) [OF assms] by (meson list.set_sel(2) utf8_scalar_nonempty)
  with utf8_scalar_bytes(3) [OF assms]
  show "\<forall>b \<in> set (tl (utf8_scalar c)). isContinuation (Some b)"
    by (simp add: isContinuation_byte)
qed

lemma hd_encode_not_continuation:
  "\<forall>c \<in> set cs. is_scalar c \<Longrightarrow> cs \<noteq> [] \<Longrightarrow> \<not> isContinuation (Some (hd (utf8_encode_scalars cs)))"
  by (cases cs) (simp_all add: utf8_scalar_continuations hd_append)

text \<open>
  Stepping back from any byte of an encoding stops between two scalar values, and at the
  last such place: one scalar value more would pass the byte.
\<close>

lemma back_to_boundary_prefix:
  assumes "\<forall>c \<in> set cs. is_scalar c" and "e < length (utf8_encode_scalars cs)"
  shows "\<exists>k < length cs.
    back_to_boundary (utf8_encode_scalars cs) e = length (utf8_encode_scalars (take k cs)) \<and>
    e < length (utf8_encode_scalars (take (Suc k) cs))"
  using assms
proof (induction cs arbitrary: e)
  case (Cons c cs)
  show ?case
  proof (cases "e < length (utf8_scalar c)")
    case True
    have "is_scalar c" using Cons.prems(1) by simp
    from back_to_boundary_inside [OF True utf8_scalar_continuations(2) [OF this]]
    have "back_to_boundary (utf8_encode_scalars (c # cs)) e = 0" by simp
    with True show ?thesis by (intro exI [of _ 0]) simp
  next
    case False
    define d where "d = e - length (utf8_scalar c)"
    have e: "e = length (utf8_scalar c) + d" using False by (simp add: d_def)
    have d: "d < length (utf8_encode_scalars cs)" using Cons.prems(2) e by simp
    then have "cs \<noteq> []" and "utf8_encode_scalars cs \<noteq> []" by auto
    then have "back_to_boundary (utf8_encode_scalars (c # cs)) e =
        length (utf8_scalar c) + back_to_boundary (utf8_encode_scalars cs) d"
      using Cons.prems(1) unfolding e
      by (simp add: back_to_boundary_append hd_encode_not_continuation)
    moreover obtain k where "k < length cs"
      and "back_to_boundary (utf8_encode_scalars cs) d = length (utf8_encode_scalars (take k cs))"
      and "d < length (utf8_encode_scalars (take (Suc k) cs))"
      using Cons.IH [OF _ d] Cons.prems(1) by auto
    ultimately show ?thesis by (intro exI [of _ "Suc k"]) (simp add: e)
  qed
qed simp

lemma take_encode_prefix:
  "take (length (utf8_encode_scalars (take k cs))) (utf8_encode_scalars cs) =
     utf8_encode_scalars (take k cs)"
  by (metis append_eq_conv_conj append_take_drop_id utf8_encode_scalars_simps(3))

text \<open>
  The shape of every clip: the bytes kept are the encoding of a prefix of the scalar values.
\<close>

lemma clip_is_scalar_prefix:
  assumes "maxBytes < utf8ByteLength s"
  obtains k where "k < length (scalars s)"
    and "take (back_to_boundary (utf8_encode s) maxBytes) (utf8_encode s) =
      utf8_encode_scalars (take k (scalars s))"
    and "length (utf8_encode_scalars (take k (scalars s))) \<le> maxBytes"
    and "maxBytes < length (utf8_encode_scalars (take (Suc k) (scalars s)))"
proof -
  have len: "maxBytes < length (utf8_encode_scalars (scalars s))"
    using assms length_utf8_encode [of s] by (simp add: utf8_encode_def)
  obtain k where k: "k < length (scalars s)"
    "back_to_boundary (utf8_encode_scalars (scalars s)) maxBytes =
      length (utf8_encode_scalars (take k (scalars s)))"
    "maxBytes < length (utf8_encode_scalars (take (Suc k) (scalars s)))"
    using back_to_boundary_prefix [OF scalars_valid len] by blast
  show ?thesis
  proof
    show "take (back_to_boundary (utf8_encode s) maxBytes) (utf8_encode s) =
        utf8_encode_scalars (take k (scalars s))"
      by (simp add: utf8_encode_def k take_encode_prefix)
    show "length (utf8_encode_scalars (take k (scalars s))) \<le> maxBytes"
      using back_to_boundary_le [of "utf8_encode_scalars (scalars s)" maxBytes] k by simp
  qed (use k in auto)
qed

section \<open>Decoded text\<close>

lemma js_points_scalar_units:
  assumes "is_scalar c"
  shows "js_points (scalar_units c @ s) = scalar_units c # js_points s"
    and "point_scalar (scalar_units c) = c"
proof -
  have "js_points (scalar_units c @ s) = scalar_units c # js_points s \<and>
      point_scalar (scalar_units c) = c"
  proof (cases "c < 65536")
    case True
    then have u: "unat (word_of_nat c :: js_unit) = c" by (simp add: unat_of_nat)
    with assms True show ?thesis
      by (auto simp: scalar_units_def is_high_def is_low_def is_scalar_def surrogate_defs)
  next
    case False
    define h l where "h = 55296 + (c - 65536) div 1024" and "l = 56320 + (c - 65536) mod 1024"
    have c: "c - 65536 < 1024 * 1024" using assms False unfolding is_scalar_def by linarith
    then have h: "55296 \<le> h" "h \<le> 56319"
      using less_mult_imp_div_less [of "c - 65536" 1024 1024] by (simp_all add: h_def)
    have l: "56320 \<le> l" "l \<le> 57343"
      using mod_less_divisor [of 1024 "c - 65536"] by (simp_all add: l_def)
    have u: "unat (word_of_nat h :: js_unit) = h" "unat (word_of_nat l :: js_unit) = l"
      using h l by (simp_all add: unat_of_nat)
    have "(h - 55296) * 1024 + (l - 56320) = c - 65536" by (simp add: h_def l_def)
    then have "65536 + (h - 55296) * 1024 + (l - 56320) = c" using False by simp
    moreover have "scalar_units c = [word_of_nat h, word_of_nat l]"
      using False by (simp add: scalar_units_def h_def l_def surrogate_defs)
    ultimately show ?thesis using h l u by (simp add: is_high_def is_low_def surrogate_defs)
  qed
  then show "js_points (scalar_units c @ s) = scalar_units c # js_points s"
    and "point_scalar (scalar_units c) = c" by simp_all
qed

lemma scalars_units [simp]:
  "\<forall>c \<in> set cs. is_scalar c \<Longrightarrow> scalars (units_of_scalars cs) = cs"
  by (induction cs) (simp_all add: units_of_scalars_def scalars_def js_points_scalar_units)

lemma utf8ByteLength_units:
  "\<forall>c \<in> set cs. is_scalar c \<Longrightarrow>
     utf8ByteLength (units_of_scalars cs) = length (utf8_encode_scalars cs)"
  by (simp flip: length_utf8_encode add: utf8_encode_def)

lemma drop_bom_cases: "drop_bom cs = cs \<or> cs = 65279 # drop_bom cs"
  by (cases cs) (auto simp: drop_bom_def)

lemma take_valid: "\<forall>c \<in> set cs. is_scalar c \<Longrightarrow> \<forall>c \<in> set (take k cs). is_scalar c"
  by (meson in_set_takeD)

lemma utf8_decode_encode_scalars:
  assumes "\<forall>c \<in> set cs. is_scalar c"
  shows "utf8_decode (utf8_encode_scalars cs) = units_of_scalars (drop_bom cs)"
  using assms by (simp add: utf8_decode_def decode_encode_scalars)

lemma utf8ByteLength_decode_encode_scalars:
  assumes "\<forall>c \<in> set cs. is_scalar c"
  shows "utf8ByteLength (utf8_decode (utf8_encode_scalars cs)) \<le> length (utf8_encode_scalars cs)"
proof -
  have "\<forall>c \<in> set (drop_bom cs). is_scalar c"
    using assms drop_bom_cases [of cs] by (metis list.set_intros(2))
  moreover have "length (utf8_encode_scalars (drop_bom cs)) \<le> length (utf8_encode_scalars cs)"
    using drop_bom_cases [of cs]
    by (metis le_add2 length_append order_refl utf8_encode_scalars_simps(2))
  ultimately show ?thesis using assms by (simp add: utf8_decode_encode_scalars utf8ByteLength_units)
qed

text \<open>What every clip of the package guarantees.\<close>

lemma utf8ByteLength_clip:
  assumes "maxBytes < utf8ByteLength s"
  shows "utf8ByteLength (utf8_decode (take (back_to_boundary (utf8_encode s) maxBytes) (utf8_encode s)))
    \<le> maxBytes"
proof -
  from assms obtain k where
    "take (back_to_boundary (utf8_encode s) maxBytes) (utf8_encode s) =
      utf8_encode_scalars (take k (scalars s))"
    "length (utf8_encode_scalars (take k (scalars s))) \<le> maxBytes"
    by (rule clip_is_scalar_prefix)
  then show ?thesis
    using utf8ByteLength_decode_encode_scalars [OF take_valid [OF scalars_valid], of k s] by simp
qed

text \<open>
  Bounding a text yields text that encodes to at most the requested number of bytes.
\<close>

theorem boundUtf8Text_bounded: "utf8ByteLength (bounded_text (boundUtf8Text text maxBytes)) \<le> maxBytes"
  using utf8ByteLength_clip [of maxBytes "stripNulls text"]
  by (simp add: boundUtf8Text_def Let_def not_le)

text \<open>Text without unpaired surrogates: decoding its scalar values gives it back.\<close>

definition well_formed_text :: "js_string \<Rightarrow> bool" where
  "well_formed_text s \<longleftrightarrow> (\<forall>p \<in> set (js_points s). length p = 1 \<longrightarrow> \<not> is_high (hd p) \<and> \<not> is_low (hd p))"

lemma units_point_scalar:
  assumes "p \<in> set (js_points s)" and "well_formed_text s"
  shows "scalar_units (point_scalar p) = p"
proof -
  have shape: "(\<exists>u. p = [u]) \<or> (\<exists>h l. p = [h, l] \<and> is_high h \<and> is_low l)" if "p \<in> set (js_points t)" for t
    using that
  proof (induction t rule: js_points.induct)
    case (2 u us)
    then show ?case by (cases us) (auto split: if_splits)
  qed simp
  then consider (one) u where "p = [u]" | (two) h l where "p = [h, l]" "is_high h" "is_low l"
    using assms(1) by blast
  then show ?thesis
  proof cases
    case one
    with assms have "\<not> is_high u" "\<not> is_low u" by (auto simp: well_formed_text_def)
    then show ?thesis using one unit_bound [of u] by (simp add: scalar_units_def)
  next
    case two
    define a b where "a = unat h - 55296" and "b = unat l - 56320"
    define x where "x = a * 1024 + b"
    have "b < 1024" using two(3) unfolding b_def is_low_def surrogate_defs by linarith
    then have x: "x div 1024 = unat h - 55296" "x mod 1024 = unat l - 56320"
      by (simp_all add: x_def flip: a_def b_def)
    have "point_scalar p = 65536 + x" using two by (simp add: x_def a_def b_def surrogate_defs)
    moreover have "55296 + x div 1024 = unat h" "56320 + x mod 1024 = unat l"
      using two x by (simp_all add: is_high_def is_low_def surrogate_defs)
    ultimately show ?thesis using two by (simp add: scalar_units_def surrogate_defs)
  qed
qed

lemma units_take_scalars:
  assumes "well_formed_text s"
  shows "units_of_scalars (take k (scalars s)) = concat (take k (js_points s))"
proof -
  have "map (scalar_units \<circ> point_scalar) (take k (js_points s)) = take k (js_points s)"
    using units_point_scalar [OF _ assms] by (intro map_idI) (auto dest: in_set_takeD)
  then show ?thesis by (simp add: units_of_scalars_def scalars_def take_map)
qed

lemma units_scalars: "well_formed_text s \<Longrightarrow> units_of_scalars (scalars s) = s"
  using units_take_scalars [of s "length (scalars s)"] by (simp add: scalars_def)

lemma utf8ByteLength_take_points:
  "well_formed_text s \<Longrightarrow> utf8ByteLength (concat (take k (js_points s))) =
     length (utf8_encode_scalars (take k (scalars s)))"
  by (metis units_take_scalars utf8ByteLength_units take_valid scalars_valid)

lemma drop_bom_take_scalars:
  assumes "well_formed_text s" and "s = [] \<or> hd s \<noteq> 65279"
  shows "drop_bom (take k (scalars s)) = take k (scalars s)"
proof (rule ccontr)
  assume "drop_bom (take k (scalars s)) \<noteq> take k (scalars s)"
  then obtain r where "take k (scalars s) = 65279 # r"
    using drop_bom_cases [of "take k (scalars s)"] by metis
  then obtain r' where r': "scalars s = 65279 # r'" by (cases k; cases "scalars s") auto
  then have "s = scalar_units 65279 @ units_of_scalars r'"
    using units_scalars [OF assms(1)] by (simp add: units_of_scalars_def)
  with assms(2) show False by (simp add: scalar_units_def)
qed

text \<open>
  Clipping well-formed text (that does not begin with a byte order mark) keeps the
  longest prefix of whole characters that fits: no surrogate pair is cut, and one more
  character would pass the limit.
\<close>

theorem boundUtf8Text_longest_prefix:
  assumes "well_formed_text (stripNulls text)"
    and "stripNulls text = [] \<or> hd (stripNulls text) \<noteq> 65279"
    and "bounded_clipped (boundUtf8Text text maxBytes)"
  shows "\<exists>k < length (js_points (stripNulls text)).
    bounded_text (boundUtf8Text text maxBytes) = concat (take k (js_points (stripNulls text))) \<and>
    maxBytes < utf8ByteLength (concat (take (Suc k) (js_points (stripNulls text))))"
proof -
  let ?s = "stripNulls text"
  have "maxBytes < utf8ByteLength ?s"
    using assms(3) by (simp add: boundUtf8Text_def Let_def split: if_splits)
  then obtain k where k: "k < length (scalars ?s)"
    "take (back_to_boundary (utf8_encode ?s) maxBytes) (utf8_encode ?s) =
      utf8_encode_scalars (take k (scalars ?s))"
    "maxBytes < length (utf8_encode_scalars (take (Suc k) (scalars ?s)))"
    by (rule clip_is_scalar_prefix)
  have "bounded_text (boundUtf8Text text maxBytes) = concat (take k (js_points ?s))"
    using \<open>maxBytes < utf8ByteLength ?s\<close> k(2) assms(1,2)
    by (simp add: boundUtf8Text_def Let_def utf8_decode_encode_scalars [OF take_valid [OF scalars_valid]]
        drop_bom_take_scalars units_take_scalars)
  with k assms(1) show ?thesis
    by (intro exI [of _ k]) (simp add: utf8ByteLength_take_points scalars_def)
qed

theorem boundUtf8Text_longest_prefix_witness:
  "\<exists>k < length (js_points (stripNulls (js ''ab'' @ [55357, 56832]))).
    bounded_text (boundUtf8Text (js ''ab'' @ [55357, 56832]) 4) =
      concat (take k (js_points (stripNulls (js ''ab'' @ [55357, 56832])))) \<and>
    4 < utf8ByteLength (concat (take (Suc k) (js_points (stripNulls (js ''ab'' @ [55357, 56832])))))"
  by (rule boundUtf8Text_longest_prefix)
    (simp_all add: well_formed_text_def stripNulls_def boundUtf8Text_def is_high_def is_low_def
      surrogate_defs isLowSurrogateAt_def Let_def)

section \<open>Concatenation\<close>

text \<open>
  Byte lengths add up, except that a pair split between two texts counts three and three
  bytes apart and four together.
\<close>

definition endsWithHighSurrogate :: "js_string \<Rightarrow> bool" where
  "endsWithHighSurrogate text \<longleftrightarrow> (if length text = 0 then False else is_high (text ! (length text - 1)))"

definition startsWithLowSurrogate :: "js_string \<Rightarrow> bool" where
  "startsWithLowSurrogate text \<longleftrightarrow> (if length text = 0 then False else is_low (text ! 0))"

lemma utf8ByteLength_append:
  "utf8ByteLength (a @ b) + (if endsWithHighSurrogate a \<and> startsWithLowSurrogate b then 2 else 0) =
     utf8ByteLength a + utf8ByteLength b"
proof (induction a rule: utf8ByteLength.induct)
  case 1
  show ?case by (simp add: endsWithHighSurrogate_def)
next
  case (2 u us)
  consider (nil) "us = []" | (pair) l r where "us = l # r" "is_high u" "is_low l"
    | (other) "us \<noteq> []" "\<not> (is_high u \<and> isLowSurrogateAt us 0)"
    by (cases us) (auto simp: isLowSurrogateAt_def)
  then show ?case
  proof cases
    case nil
    then show ?thesis
      by (cases b) (auto simp: endsWithHighSurrogate_def startsWithLowSurrogate_def is_high_def
          is_low_def surrogate_defs)
  next
    case pair
    have big: "\<not> unat u < 128" "\<not> unat u < 2048"
      using pair(2) by (simp_all add: is_high_def surrogate_defs)
    have "endsWithHighSurrogate (u # us) = endsWithHighSurrogate r"
      using pair is_low_not_high [OF pair(3)] by (cases r) (auto simp: endsWithHighSurrogate_def)
    then show ?thesis using 2(3) big pair by simp
  next
    case other
    have ends: "endsWithHighSurrogate (u # us) = endsWithHighSurrogate us"
      using other(1) by (cases us) (auto simp: endsWithHighSurrogate_def)
    have "\<not> (is_high u \<and> isLowSurrogateAt (us @ b) 0)"
      using other by (cases us) auto
    then show ?thesis using 2 other ends
      by (cases "unat u < 128"; cases "unat u < 2048") auto
  qed
qed

lemma utf8ByteLength_append_le:
  "utf8ByteLength (a @ b) \<le> utf8ByteLength a + utf8ByteLength b"
  using utf8ByteLength_append [of a b] by linarith

lemma utf8ByteLength_append_ascii:
  "unat c < 128 \<Longrightarrow> utf8ByteLength (a @ c # b) = utf8ByteLength a + 1 + utf8ByteLength b"
  using utf8ByteLength_append [of a "c # b"]
  by (auto simp: startsWithLowSurrogate_def is_low_def surrogate_defs)

end
