(* ===== verification/TurnEvent.thy ===== *)
theory TurnEvent
  imports Utf8
begin

text \<open>
  The event vocabulary of an agent turn:
  \<open>packages/agent-events/src/agentTurnEvent.ts\<close>, \<open>agentAttachment.ts\<close>,
  \<open>agentSubagentSpawn.ts\<close>, \<open>agentProvider.ts\<close> and \<open>agentTurnEventLimits.ts\<close>.
  An optional or nullable field is an \<open>option\<close>; a discriminated union is a
  \<open>datatype\<close> with one constructor for each \<open>kind\<close>. Token counts and durations are
  integers, a cost is rational. The event inside \<open>SubagentEvent\<close> ranges over all events,
  which is more than the content kinds the source's type admits.
\<close>

section \<open>Limits\<close>

definition MAX_AGENT_EVENT_TEXT_BYTES :: nat where "MAX_AGENT_EVENT_TEXT_BYTES = 16 * 1024"
definition MAX_AGENT_EVENTS_PER_TURN :: nat where "MAX_AGENT_EVENTS_PER_TURN = 1024"
definition MAX_SUBAGENT_THREADS_PER_TURN :: nat where "MAX_SUBAGENT_THREADS_PER_TURN = 32"
definition MAX_AGENT_EVENT_BYTES_PER_TURN :: nat where
  "MAX_AGENT_EVENT_BYTES_PER_TURN = 2 * 1024 * 1024"

section \<open>Attachments\<close>

datatype image_mime = ImagePng | ImageJpeg | ImageGif | ImageWebp

datatype attachment_location =
    StoredPath js_string
  | RemoteAttachment (remote_serverId: js_string) (remote_attachmentId: js_string)

datatype agent_attachment =
    ImageAttachment (att_id: js_string) (att_name: js_string) (att_mime: image_mime)
      (att_bytes: int) (att_width: int) (att_height: int) (att_location: attachment_location)
  | FileAttachment (att_id: js_string) (att_name: js_string) (att_bytes: int)
      (att_location: attachment_location)
  | ReferenceAttachment (att_name: js_string) (att_path: js_string) (att_bytes: int)

section \<open>Usage\<close>

record token_breakdown =
  tb_inputTokens :: int
  tb_cachedInputTokens :: int
  tb_cacheWriteInputTokens :: int
  tb_outputTokens :: int
  tb_reasoningOutputTokens :: int
  tb_totalTokens :: int

record app_server_usage =
  asu_last :: token_breakdown
  asu_total :: token_breakdown
  asu_contextWindow :: "int option"

record agent_turn_usage =
  us_threadScope :: bool
  us_appServerUsage :: "app_server_usage option"
  us_cachedInputTokens :: "int option option"
  us_reasoningOutputTokens :: "int option option"
  us_inputTokens :: int
  us_outputTokens :: int
  us_costUsd :: "rat option option"
  us_contextTokens :: "int option"

section \<open>Events\<close>

datatype output_stream = Stdout | Stderr

datatype background_status = BgStarting | BgRunning | BgCompleted | BgFailed | BgStopped
datatype background_type = BgMonitor | BgShell | BgAgent | BgOther

record background_task =
  bt_taskId :: js_string
  bt_status :: background_status
  bt_taskType :: background_type
  bt_description :: "js_string option"

datatype subagent_activity = Started | Interacted | Interrupted | Completed

datatype spawn_status = SpawnInProgress | SpawnCompleted | SpawnFailed | SpawnInterrupted
datatype spawn_effort = EffortNone | EffortMinimal | EffortLow | EffortMedium | EffortHigh | EffortXhigh

record subagent_spawn =
  ss_callId :: js_string
  ss_status :: spawn_status
  ss_taskTitle :: "js_string option"
  ss_model :: "js_string option"
  ss_reasoningEffort :: "spawn_effort option"
  ss_agentThreadIds :: "js_string list"

record user_message =
  um_remoteMessageId :: "js_string option"
  um_text :: js_string
  um_attachments :: "agent_attachment list option"

record tool_call =
  tc_toolId :: js_string
  tc_name :: js_string
  tc_inputSummary :: js_string
  tc_description :: "js_string option"
  tc_parentToolId :: "js_string option"

record tool_result =
  tr_toolId :: js_string
  tr_outputSummary :: js_string
  tr_isError :: bool
  tr_parentToolId :: "js_string option"

datatype subagent_status = SubStarting | SubRunning | SubCompleted | SubFailed

record subagent_event =
  sub_status :: subagent_status
  sub_toolId :: "js_string option"
  sub_taskId :: "js_string option"
  sub_subagentType :: "js_string option"
  sub_description :: "js_string option"
  sub_durationMs :: "int option"
  sub_totalTokens :: "int option"
  sub_toolUses :: "int option"
  sub_lastToolName :: "js_string option"

record result_event =
  res_durationMs :: "int option option"
  res_text :: js_string
  res_isError :: bool
  res_usage :: "agent_turn_usage option"

datatype compaction_status = Compacting | CompactionIdle | CompactionFailed

record context_usage =
  cu_observedAtEpochMs :: "int option"
  cu_model :: js_string
  cu_inputTokens :: "int option"
  cu_contextWindow :: "int option"

datatype agent_turn_event =
    BackgroundTask background_task
  | SubagentActivity js_string js_string subagent_activity
  | SubagentEvent js_string agent_turn_event
  | SubagentSpawn subagent_spawn
  | SubagentUsage js_string agent_turn_usage
  | SubagentTurnDone js_string "int option" bool
  | Queued js_string "js_string option"
  | AssistantText js_string "js_string option"
  | Reasoning js_string "js_string option"
  | UserMessage user_message
  | ToolCall tool_call
  | ToolResult tool_result
  | Subagent subagent_event
  | Result result_event
  | ContextCompaction "int option" "int option"
  | ContextCompactionStatus compaction_status "js_string option"
  | ContextUsage context_usage
  | ErrorEvent js_string
  | UnknownLine output_stream js_string bool

text \<open>
  \<open>event.kind === "userMessage"\<close>, and the \<open>agentThreadId\<close> property of the kinds
  that have one (\<open>"agentThreadId" in event\<close>).
\<close>

fun is_user_message :: "agent_turn_event \<Rightarrow> bool" where
  "is_user_message (UserMessage _) = True"
| "is_user_message _ = False"

fun event_agentThreadId :: "agent_turn_event \<Rightarrow> js_string option" where
  "event_agentThreadId (SubagentActivity t _ _) = Some t"
| "event_agentThreadId (SubagentEvent t _) = Some t"
| "event_agentThreadId (SubagentUsage t _) = Some t"
| "event_agentThreadId (SubagentTurnDone t _ _) = Some t"
| "event_agentThreadId _ = None"

lemma user_message_no_thread: "is_user_message e \<Longrightarrow> event_agentThreadId e = None"
  by (cases e) simp_all

end
