(* ===== verification/Supersession.thy ===== *)
theory Supersession
  imports TurnEvent
begin

text \<open>
  When a later event makes an earlier one redundant:
  \<open>packages/agent-events/src/agentTurnEventSupersession.ts\<close>. A snapshot event names a
  target it stands for, a barrier ends the targets it names, anything else is content.
  \<open>subagentIdentity\<close> is the pair of the two optional ids; the source compares its JSON
  text, which tells two pairs apart exactly when they differ.
\<close>

datatype keyed_scope = BackgroundTaskScope | SubagentUsageScope | ContextUsageScope

datatype snapshot_scope = KeyedScope keyed_scope | SubagentScope

record subagent_ids =
  ids_toolId :: "js_string option"
  ids_taskId :: "js_string option"

datatype snapshot_target =
    IdentityTarget keyed_scope js_string
  | SubagentIdsTarget subagent_ids

datatype barrier_target =
    SnapshotBarrier snapshot_target
  | ScopeBarrier snapshot_scope

datatype supersession =
    Snapshot snapshot_target
  | Barrier "barrier_target list"
  | Content

definition SUBAGENT_SCOPE :: barrier_target where
  "SUBAGENT_SCOPE = ScopeBarrier SubagentScope"

definition CONTEXT_BARRIER :: supersession where
  "CONTEXT_BARRIER = Barrier [ScopeBarrier (KeyedScope ContextUsageScope)]"

definition subagentUsageTarget :: "js_string \<Rightarrow> snapshot_target" where
  "subagentUsageTarget agentThreadId = IdentityTarget SubagentUsageScope agentThreadId"

definition subagentIds :: "subagent_event \<Rightarrow> subagent_ids" where
  "subagentIds event = \<lparr>ids_toolId = sub_toolId event, ids_taskId = sub_taskId event\<rparr>"

definition subagentIdentity :: "subagent_event \<Rightarrow> js_string option \<times> js_string option" where
  "subagentIdentity event = (sub_toolId event, sub_taskId event)"

definition validCount :: "int option \<Rightarrow> int \<Rightarrow> bool" where
  "validCount value minimum =
     (case value of None \<Rightarrow> False | Some n \<Rightarrow> isSafeInteger n \<and> n \<ge> minimum)"

definition contextUsageIdentity :: "context_usage \<Rightarrow> js_string option" where
  "contextUsageIdentity event =
     (if cu_contextWindow event = None \<and> validCount (cu_inputTokens event) 0
      then Some (js ''occupancy'')
      else if cu_inputTokens event = None \<and> validCount (cu_contextWindow event) 1
      then Some (js ''capacity:'' @ cu_model event)
      else None)"

definition backgroundTaskSupersession :: "background_task \<Rightarrow> supersession" where
  "backgroundTaskSupersession event =
     (let task = IdentityTarget BackgroundTaskScope (bt_taskId event) in
      if bt_status event = BgRunning then Snapshot task
      else Barrier [SnapshotBarrier task,
        SnapshotBarrier
          (SubagentIdsTarget \<lparr>ids_toolId = None, ids_taskId = Some (bt_taskId event)\<rparr>)])"

definition subagentSupersession :: "subagent_event \<Rightarrow> supersession" where
  "subagentSupersession event =
     (let target = SubagentIdsTarget (subagentIds event) in
      if sub_status event \<noteq> SubRunning then Barrier [SnapshotBarrier target]
      else if sub_toolId event = None \<and> sub_taskId event = None then Content
      else Snapshot target)"

definition subagentActivitySupersession :: "js_string \<Rightarrow> subagent_activity \<Rightarrow> supersession" where
  "subagentActivitySupersession agentThreadId activity =
     (if activity = Interacted then Barrier [SUBAGENT_SCOPE]
      else Barrier [SUBAGENT_SCOPE, SnapshotBarrier (subagentUsageTarget agentThreadId)])"

definition toolSupersession :: "js_string \<Rightarrow> js_string option \<Rightarrow> supersession" where
  "toolSupersession toolId parentToolId =
     (if parentToolId \<noteq> None then Content
      else Barrier [SnapshotBarrier
        (SubagentIdsTarget \<lparr>ids_toolId = Some toolId, ids_taskId = None\<rparr>)])"

definition contextUsageSupersession :: "context_usage \<Rightarrow> supersession" where
  "contextUsageSupersession event =
     (case contextUsageIdentity event of
        None \<Rightarrow> CONTEXT_BARRIER
      | Some identity \<Rightarrow> Snapshot (IdentityTarget ContextUsageScope identity))"

fun agentTurnEventSupersession :: "agent_turn_event \<Rightarrow> supersession" where
  "agentTurnEventSupersession (BackgroundTask event) = backgroundTaskSupersession event"
| "agentTurnEventSupersession (Subagent event) = subagentSupersession event"
| "agentTurnEventSupersession (SubagentUsage thread usage) = Snapshot (subagentUsageTarget thread)"
| "agentTurnEventSupersession (ContextUsage event) = contextUsageSupersession event"
| "agentTurnEventSupersession (ContextCompaction before after) = CONTEXT_BARRIER"
| "agentTurnEventSupersession (ErrorEvent message) = CONTEXT_BARRIER"
| "agentTurnEventSupersession (Result event) =
     (if res_isError event then CONTEXT_BARRIER else Content)"
| "agentTurnEventSupersession (ContextCompactionStatus status message) =
     (if status = CompactionIdle then Content else CONTEXT_BARRIER)"
| "agentTurnEventSupersession (SubagentActivity thread path activity) =
     subagentActivitySupersession thread activity"
| "agentTurnEventSupersession (SubagentSpawn event) = Barrier [SUBAGENT_SCOPE]"
| "agentTurnEventSupersession (SubagentTurnDone thread duration isError) =
     Barrier [SUBAGENT_SCOPE, SnapshotBarrier (subagentUsageTarget thread)]"
| "agentTurnEventSupersession (ToolCall event) =
     toolSupersession (tc_toolId event) (tc_parentToolId event)"
| "agentTurnEventSupersession (ToolResult event) =
     toolSupersession (tr_toolId event) (tr_parentToolId event)"
| "agentTurnEventSupersession (SubagentEvent thread event) = Content"
| "agentTurnEventSupersession (Queued thread message) = Content"
| "agentTurnEventSupersession (AssistantText text parent) = Content"
| "agentTurnEventSupersession (Reasoning text parent) = Content"
| "agentTurnEventSupersession (UserMessage event) = Content"
| "agentTurnEventSupersession (UnknownLine stream raw clipped) = Content"

definition isAgentTurnSnapshotEvent :: "agent_turn_event \<Rightarrow> bool" where
  "isAgentTurnSnapshotEvent event =
     (case agentTurnEventSupersession event of Snapshot _ \<Rightarrow> True | _ \<Rightarrow> False)"

fun isAgentTurnCoalescibleTextEvent :: "agent_turn_event \<Rightarrow> bool" where
  "isAgentTurnCoalescibleTextEvent (AssistantText _ _) = True"
| "isAgentTurnCoalescibleTextEvent (Reasoning _ _) = True"
| "isAgentTurnCoalescibleTextEvent (SubagentEvent _ _) = True"
| "isAgentTurnCoalescibleTextEvent _ = False"

text \<open>The pair of ids of a subagent event that has both.\<close>

fun agentTurnSubagentAlias :: "agent_turn_event \<Rightarrow> (js_string \<times> js_string) option" where
  "agentTurnSubagentAlias (Subagent event) =
     (case (sub_toolId event, sub_taskId event) of
        (Some toolId, Some taskId) \<Rightarrow> Some (toolId, taskId)
      | _ \<Rightarrow> None)"
| "agentTurnSubagentAlias _ = None"

fun withAgentTurnSubagentIds :: "agent_turn_event \<Rightarrow> subagent_ids \<Rightarrow> agent_turn_event" where
  "withAgentTurnSubagentIds (Subagent event) ids =
     Subagent (event\<lparr>sub_toolId := coalesce (sub_toolId event) (ids_toolId ids),
                     sub_taskId := coalesce (sub_taskId event) (ids_taskId ids)\<rparr>)"
| "withAgentTurnSubagentIds event ids = event"

definition mergeBackgroundTask ::
  "background_task \<Rightarrow> background_task \<Rightarrow> background_task option" where
  "mergeBackgroundTask previous next =
     (if bt_status previous \<noteq> BgRunning \<or> bt_status next \<noteq> BgRunning then None
      else if bt_taskId previous \<noteq> bt_taskId next then None
      else Some
        \<lparr>bt_taskId = bt_taskId next,
         bt_status = BgRunning,
         bt_taskType = (if bt_taskType next = BgOther then bt_taskType previous else bt_taskType next),
         bt_description = coalesce (bt_description next) (bt_description previous)\<rparr>)"

definition conflicting :: "js_string option \<Rightarrow> js_string option \<Rightarrow> bool" where
  "conflicting previous next \<longleftrightarrow> previous \<noteq> None \<and> next \<noteq> None \<and> previous \<noteq> next"

definition mergeSubagent :: "subagent_event \<Rightarrow> subagent_event \<Rightarrow> subagent_event option" where
  "mergeSubagent previous next =
     (if sub_status previous \<noteq> SubRunning \<or> sub_status next \<noteq> SubRunning then None
      else if subagentIdentity previous \<noteq> subagentIdentity next then None
      else if conflicting (sub_description previous) (sub_description next) then None
      else Some
        \<lparr>sub_status = SubRunning,
         sub_toolId = sub_toolId next,
         sub_taskId = sub_taskId next,
         sub_subagentType = coalesce (sub_subagentType next) (sub_subagentType previous),
         sub_description = coalesce (sub_description previous) (sub_description next),
         sub_durationMs = coalesce (sub_durationMs next) (sub_durationMs previous),
         sub_totalTokens = coalesce (sub_totalTokens next) (sub_totalTokens previous),
         sub_toolUses = coalesce (sub_toolUses next) (sub_toolUses previous),
         sub_lastToolName = coalesce (sub_lastToolName next) (sub_lastToolName previous)\<rparr>)"

definition mergeSupersededAgentTurnEvent ::
  "agent_turn_event \<Rightarrow> agent_turn_event \<Rightarrow> agent_turn_event option" where
  "mergeSupersededAgentTurnEvent previous next =
     (case previous of
        BackgroundTask p \<Rightarrow>
          (case next of BackgroundTask n \<Rightarrow> map_option BackgroundTask (mergeBackgroundTask p n)
           | _ \<Rightarrow> None)
      | Subagent p \<Rightarrow>
          (case next of Subagent n \<Rightarrow> map_option Subagent (mergeSubagent p n) | _ \<Rightarrow> None)
      | SubagentUsage thread usage \<Rightarrow>
          (case next of SubagentUsage thread' usage' \<Rightarrow>
             if thread = thread' then Some next else None
           | _ \<Rightarrow> None)
      | ContextUsage p \<Rightarrow>
          (case next of ContextUsage n \<Rightarrow>
             if contextUsageIdentity p = contextUsageIdentity n then Some next else None
           | _ \<Rightarrow> None)
      | _ \<Rightarrow> None)"

section \<open>Facts\<close>

lemma merge_SomeE:
  assumes "mergeSupersededAgentTurnEvent previous next = Some merged"
  obtains p n q where "previous = BackgroundTask p" and "next = BackgroundTask n"
      and "mergeBackgroundTask p n = Some q" and "merged = BackgroundTask q"
    | p n q where "previous = Subagent p" and "next = Subagent n"
      and "mergeSubagent p n = Some q" and "merged = Subagent q"
    | thread u u' where "previous = SubagentUsage thread u"
      and "next = SubagentUsage thread u'" and "merged = next"
    | p n where "previous = ContextUsage p" and "next = ContextUsage n"
      and "contextUsageIdentity p = contextUsageIdentity n" and "merged = next"
  using assms
  by (cases previous; cases "next")
    (auto simp: mergeSupersededAgentTurnEvent_def split: if_splits)

lemmas supersession_defs =
  backgroundTaskSupersession_def subagentSupersession_def subagentActivitySupersession_def
  toolSupersession_def contextUsageSupersession_def CONTEXT_BARRIER_def subagentUsageTarget_def
  SUBAGENT_SCOPE_def

lemma merge_keeps_thread:
  "mergeSupersededAgentTurnEvent previous next = Some merged \<Longrightarrow>
     event_agentThreadId merged = event_agentThreadId previous \<and>
     event_agentThreadId merged = event_agentThreadId next"
  by (elim merge_SomeE) (auto split: if_splits)

lemma merge_no_user_message:
  "mergeSupersededAgentTurnEvent previous next = Some merged \<Longrightarrow>
     \<not> is_user_message previous \<and> \<not> is_user_message next \<and> \<not> is_user_message merged"
  by (elim merge_SomeE) (auto split: if_splits)

lemma mergeSubagent_SomeD:
  assumes "mergeSubagent previous next = Some merged"
  shows "sub_toolId previous = sub_toolId next" and "sub_taskId previous = sub_taskId next"
    and "sub_toolId merged = sub_toolId next" and "sub_taskId merged = sub_taskId next"
    and "sub_status merged = SubRunning" and "sub_status next = SubRunning"
    and "sub_status previous = SubRunning"
  using assms by (auto simp: mergeSubagent_def subagentIdentity_def split: if_splits)

lemma mergeBackgroundTask_SomeD:
  assumes "mergeBackgroundTask previous next = Some merged"
  shows "bt_taskId previous = bt_taskId next" and "bt_taskId merged = bt_taskId next"
    and "bt_status merged = BgRunning" and "bt_status next = BgRunning"
    and "bt_status previous = BgRunning"
  using assms by (auto simp: mergeBackgroundTask_def split: if_splits)

text \<open>
  An event is merged into an earlier one only when both stand for the same target, and
  the merged event stands for that target too; whatever slot the snapshot index offers, a
  snapshot never overwrites another target's row.
\<close>

theorem merge_same_supersession:
  assumes "mergeSupersededAgentTurnEvent previous next = Some merged"
  shows "agentTurnEventSupersession previous = agentTurnEventSupersession next \<and>
    agentTurnEventSupersession merged = agentTurnEventSupersession next"
  using assms
  by (elim merge_SomeE)
    (auto simp: supersession_defs subagentIds_def Let_def split: if_splits
      dest: mergeSubagent_SomeD mergeBackgroundTask_SomeD)

theorem merge_same_supersession_witness:
  "agentTurnEventSupersession (BackgroundTask \<lparr>bt_taskId = js ''t'', bt_status = BgRunning,
       bt_taskType = BgShell, bt_description = None\<rparr>) =
     agentTurnEventSupersession (BackgroundTask \<lparr>bt_taskId = js ''t'', bt_status = BgRunning,
       bt_taskType = BgOther, bt_description = Some (js ''d'')\<rparr>) \<and>
   agentTurnEventSupersession (BackgroundTask \<lparr>bt_taskId = js ''t'', bt_status = BgRunning,
       bt_taskType = BgShell, bt_description = Some (js ''d'')\<rparr>) =
     agentTurnEventSupersession (BackgroundTask \<lparr>bt_taskId = js ''t'', bt_status = BgRunning,
       bt_taskType = BgOther, bt_description = Some (js ''d'')\<rparr>)"
  by (rule merge_same_supersession) (simp add: mergeSupersededAgentTurnEvent_def mergeBackgroundTask_def)

end
