(* ===== verification/Aliases.thy ===== *)
theory Aliases
  imports Supersession
begin

text \<open>
  The alias index of subagents, \<open>packages/agent-events/src/agentTurnSubagentAliases.ts\<close>:
  which task ids were seen with a tool ident and back, each pair with the number of retained
  events that carry it. An ident resolves to its partner when the link is one to one.
\<close>

type_synonym partners = "(js_string, int) js_map"

record alias_index =
  tasksByTool :: "(js_string, partners) js_map"
  toolsByTask :: "(js_string, partners) js_map"

record alias_resolution =
  res_ids :: subagent_ids
  res_canonical :: bool

definition UNRESOLVED :: alias_resolution where
  "UNRESOLVED = \<lparr>res_ids = \<lparr>ids_toolId = None, ids_taskId = None\<rparr>, res_canonical = False\<rparr>"

definition createAgentTurnSubagentAliasIndex :: alias_index where
  "createAgentTurnSubagentAliasIndex = \<lparr>tasksByTool = [], toolsByTask = []\<rparr>"

definition onlyPartner :: "partners option \<Rightarrow> js_string \<Rightarrow> bool" where
  "onlyPartner partners expected =
     (case partners of None \<Rightarrow> True
      | Some ps \<Rightarrow> if length ps = 0 then True
                   else length ps = 1 \<and> map_of ps expected \<noteq> None)"

definition solePartner :: "partners \<Rightarrow> js_string option" where
  "solePartner partners =
     (if length partners \<noteq> 1 then None
      else case partners of [] \<Rightarrow> None | (first, _) # _ \<Rightarrow> Some first)"

definition countPartner ::
  "(js_string, partners) js_map \<Rightarrow> js_string \<Rightarrow> js_string \<Rightarrow> int \<Rightarrow> (js_string, partners) js_map" where
  "countPartner links ident partner delta =
     (let partners = (case map_of links ident of None \<Rightarrow> [] | Some ps \<Rightarrow> ps);
          count = (case map_of partners partner of None \<Rightarrow> 0 | Some n \<Rightarrow> n) + delta
      in if count > 0 then AList.update ident (AList.update partner count partners) links
         else
           let partners' = AList.delete partner partners in
           if length partners' = 0 then AList.delete ident links
           else AList.update ident partners' links)"

definition retainAgentTurnSubagentAlias ::
  "alias_index \<Rightarrow> js_string \<times> js_string \<Rightarrow> int \<Rightarrow> alias_index" where
  "retainAgentTurnSubagentAlias index alias delta =
     (case alias of (toolId, taskId) \<Rightarrow>
        \<lparr>tasksByTool = countPartner (tasksByTool index) toolId taskId delta,
         toolsByTask = countPartner (toolsByTask index) taskId toolId delta\<rparr>)"

definition resolvePair :: "alias_index \<Rightarrow> js_string \<Rightarrow> js_string \<Rightarrow> alias_resolution" where
  "resolvePair index toolId taskId =
     \<lparr>res_ids = \<lparr>ids_toolId = Some toolId, ids_taskId = Some taskId\<rparr>,
      res_canonical =
        onlyPartner (map_of (tasksByTool index) toolId) taskId \<and>
        onlyPartner (map_of (toolsByTask index) taskId) toolId\<rparr>"

definition resolveTool :: "alias_index \<Rightarrow> js_string \<Rightarrow> alias_resolution" where
  "resolveTool index toolId =
     (let alone = (\<lambda>canonical.
            \<lparr>res_ids = \<lparr>ids_toolId = Some toolId, ids_taskId = None\<rparr>, res_canonical = canonical\<rparr>) in
      case map_of (tasksByTool index) toolId of
        None \<Rightarrow> alone True
      | Some tasks \<Rightarrow>
          if length tasks = 0 then alone True
          else case solePartner tasks of
            None \<Rightarrow> alone False
          | Some taskId \<Rightarrow>
              if \<not> onlyPartner (map_of (toolsByTask index) taskId) toolId then alone False
              else \<lparr>res_ids = \<lparr>ids_toolId = Some toolId, ids_taskId = Some taskId\<rparr>,
                    res_canonical = True\<rparr>)"

definition resolveTask :: "alias_index \<Rightarrow> js_string \<Rightarrow> alias_resolution" where
  "resolveTask index taskId =
     (let alone = (\<lambda>canonical.
            \<lparr>res_ids = \<lparr>ids_toolId = None, ids_taskId = Some taskId\<rparr>, res_canonical = canonical\<rparr>) in
      case map_of (toolsByTask index) taskId of
        None \<Rightarrow> alone True
      | Some tools \<Rightarrow>
          if length tools = 0 then alone True
          else case solePartner tools of
            None \<Rightarrow> alone False
          | Some toolId \<Rightarrow>
              if \<not> onlyPartner (map_of (tasksByTool index) toolId) taskId then alone False
              else \<lparr>res_ids = \<lparr>ids_toolId = Some toolId, ids_taskId = Some taskId\<rparr>,
                    res_canonical = True\<rparr>)"

definition resolveAgentTurnSubagentIds :: "alias_index \<Rightarrow> subagent_ids \<Rightarrow> alias_resolution" where
  "resolveAgentTurnSubagentIds index ids =
     (case (ids_toolId ids, ids_taskId ids) of
        (Some toolId, Some taskId) \<Rightarrow> resolvePair index toolId taskId
      | (Some toolId, None) \<Rightarrow> resolveTool index toolId
      | (None, Some taskId) \<Rightarrow> resolveTask index taskId
      | (None, None) \<Rightarrow> UNRESOLVED)"

section \<open>Abstract contents\<close>

text \<open>
  The abstract contents of a link table: how many retained events carry a pair. A table is
  well formed when keys are unique, no inner table is empty and every count is positive.
\<close>

definition link_count :: "(js_string, partners) js_map \<Rightarrow> js_string \<Rightarrow> js_string \<Rightarrow> int" where
  "link_count links ident partner =
     (case map_of links ident of None \<Rightarrow> 0
      | Some ps \<Rightarrow> (case map_of ps partner of None \<Rightarrow> 0 | Some n \<Rightarrow> n))"

definition links_wf :: "(js_string, partners) js_map \<Rightarrow> bool" where
  "links_wf links \<longleftrightarrow> map_wf links \<and>
     (\<forall>ident ps. map_of links ident = Some ps \<longrightarrow>
        map_wf ps \<and> ps \<noteq> [] \<and> (\<forall>p n. map_of ps p = Some n \<longrightarrow> 0 < n))"

text \<open>The index as a function: the number of retained events that carry each pair.\<close>

definition alias_count :: "alias_index \<Rightarrow> js_string \<Rightarrow> js_string \<Rightarrow> int" where
  "alias_count index toolId taskId = link_count (tasksByTool index) toolId taskId"

definition alias_wf :: "alias_index \<Rightarrow> bool" where
  "alias_wf index \<longleftrightarrow> links_wf (tasksByTool index) \<and> links_wf (toolsByTask index) \<and>
     (\<forall>tool task. link_count (toolsByTask index) task tool = link_count (tasksByTool index) tool task)"

lemma link_count_nonneg: "links_wf links \<Longrightarrow> 0 \<le> link_count links ident p"
  by (auto simp: link_count_def links_wf_def split: option.splits intro: less_imp_le)

lemma AList_delete_eq_Nil: "AList.delete k m = [] \<longleftrightarrow> (\<forall>k'. k' \<noteq> k \<longrightarrow> map_of m k' = None)"
proof -
  have "AList.delete k m = [] \<longleftrightarrow> (\<forall>k'. map_of (AList.delete k m) k' = None)"
    by (metis map_of_eq_empty_iff ext)
  then show ?thesis by simp
qed

lemma links_wf_countPartner:
  assumes "links_wf links"
  shows "links_wf (countPartner links ident partner delta)"
proof -
  have [simp]: "AList.update k v (m :: (js_string, int) js_map) \<noteq> []" for k v m
    by (cases m) auto
  show ?thesis
    using assms
    by (auto simp: links_wf_def countPartner_def Let_def split: option.splits if_splits)
qed

lemma link_count_countPartner:
  assumes "links_wf links"
  shows "link_count (countPartner links ident partner delta) i p =
    (if i = ident \<and> p = partner then max 0 (link_count links ident partner + delta)
     else link_count links i p)"
proof (cases "map_of links ident")
  case None
  then show ?thesis
    by (auto simp: link_count_def countPartner_def Let_def AList_delete_eq_Nil split: option.splits)
next
  case (Some ps)
  then show ?thesis
    by (auto simp: link_count_def countPartner_def Let_def AList_delete_eq_Nil split: option.splits)
qed

lemma alias_wf_create: "alias_wf createAgentTurnSubagentAliasIndex"
  by (simp add: alias_wf_def createAgentTurnSubagentAliasIndex_def links_wf_def link_count_def)

lemma alias_wf_retain:
  "alias_wf index \<Longrightarrow> alias_wf (retainAgentTurnSubagentAlias index alias delta)"
  by (cases "alias")
    (auto simp: alias_wf_def retainAgentTurnSubagentAlias_def links_wf_countPartner
      link_count_countPartner)

lemma alias_count_retain:
  "alias_wf index \<Longrightarrow>
     alias_count (retainAgentTurnSubagentAlias index (tool, task) delta) t k =
       (if t = tool \<and> k = task then max 0 (alias_count index tool task + delta)
        else alias_count index t k)"
  by (auto simp: alias_count_def retainAgentTurnSubagentAlias_def alias_wf_def link_count_countPartner)

section \<open>What a resolution means\<close>

definition linked :: "(js_string, partners) js_map \<Rightarrow> js_string \<Rightarrow> js_string \<Rightarrow> bool" where
  "linked links ident partner \<longleftrightarrow> 0 < link_count links ident partner"

lemma linked_iff:
  "links_wf links \<Longrightarrow> linked links ident p \<longleftrightarrow>
     (\<exists>ps n. map_of links ident = Some ps \<and> map_of ps p = Some n)"
  by (auto simp: linked_def link_count_def links_wf_def split: option.splits)

lemma links_wf_unlinked:
  assumes "links_wf links"
  shows "map_of links ident = None \<longleftrightarrow> (\<forall>p. \<not> linked links ident p)"
proof
  assume none: "\<forall>p. \<not> linked links ident p"
  show "map_of links ident = None"
  proof (rule ccontr)
    assume "map_of links ident \<noteq> None"
    then obtain ps where ps: "map_of links ident = Some ps" by blast
    with assms have "ps \<noteq> []" by (auto simp: links_wf_def)
    then obtain p n ps' where "ps = (p, n) # ps'" by (cases ps) auto
    with ps assms have "linked links ident p" by (auto simp: linked_iff)
    with none show False by blast
  qed
qed (simp add: linked_def link_count_def)

lemma map_wf_single:
  assumes "map_wf ps" and "map_of ps p \<noteq> None"
  shows "length ps = 1 \<longleftrightarrow> (\<forall>p'. map_of ps p' \<noteq> None \<longrightarrow> p' = p)"
proof -
  have "length ps = card (dom (map_of ps))" using assms(1) by (rule length_map_wf)
  moreover have "p \<in> dom (map_of ps)" using assms(2) by auto
  ultimately have "length ps = 1 \<longleftrightarrow> dom (map_of ps) = {p}"
    by (metis One_nat_def card_1_singletonE card.empty card.insert empty_iff finite.emptyI singletonD)
  also have "\<dots> \<longleftrightarrow> (\<forall>p'. map_of ps p' \<noteq> None \<longrightarrow> p' = p)" using \<open>p \<in> dom (map_of ps)\<close> by auto
  finally show ?thesis .
qed

lemma onlyPartner_iff:
  assumes "links_wf links"
  shows "onlyPartner (map_of links ident) p \<longleftrightarrow> (\<forall>p'. linked links ident p' \<longrightarrow> p' = p)"
proof (cases "map_of links ident")
  case None
  then show ?thesis by (simp add: onlyPartner_def linked_def link_count_def)
next
  case (Some ps)
  with assms have wf: "map_wf ps" and ne: "ps \<noteq> []" by (auto simp: links_wf_def)
  have linked: "linked links ident p' \<longleftrightarrow> map_of ps p' \<noteq> None" for p'
    using Some by (auto simp: linked_iff [OF assms])
  obtain q m ps' where q: "ps = (q, m) # ps'" using ne by (cases ps) auto
  show ?thesis
  proof (cases "map_of ps p = None")
    case True
    moreover have "map_of ps q \<noteq> None" using q by simp
    ultimately show ?thesis using Some ne linked by (auto simp: onlyPartner_def)
  next
    case False
    then show ?thesis using Some ne linked map_wf_single [OF wf False]
      by (auto simp: onlyPartner_def)
  qed
qed

lemma solePartner_iff:
  assumes "links_wf links" and "map_of links ident = Some ps"
  shows "solePartner ps = Some p \<longleftrightarrow> (\<forall>p'. linked links ident p' \<longleftrightarrow> p' = p)"
proof -
  from assms have wf: "map_wf ps" and ne: "ps \<noteq> []" by (auto simp: links_wf_def)
  have linked: "linked links ident p' \<longleftrightarrow> map_of ps p' \<noteq> None" for p'
    using assms(2) by (auto simp: linked_iff [OF assms(1)])
  obtain q m ps' where q: "ps = (q, m) # ps'" using ne by (cases ps) auto
  have "map_of ps q \<noteq> None" using q by simp
  note single = map_wf_single [OF wf this]
  show ?thesis
  proof
    assume "solePartner ps = Some p"
    then have "length ps = 1" and "q = p" using q by (auto simp: solePartner_def split: if_splits)
    with single \<open>map_of ps q \<noteq> None\<close> linked show "\<forall>p'. linked links ident p' \<longleftrightarrow> p' = p" by blast
  next
    assume all: "\<forall>p'. linked links ident p' \<longleftrightarrow> p' = p"
    then have "q = p" using \<open>map_of ps q \<noteq> None\<close> linked by blast
    with all linked have "\<forall>p'. map_of ps p' \<noteq> None \<longrightarrow> p' = q" by blast
    with single have "length ps = 1" by blast
    with q \<open>q = p\<close> show "solePartner ps = Some p" by (simp add: solePartner_def)
  qed
qed

text \<open>The pair of ids is linked to each other and to nothing else.\<close>

definition one_to_one :: "alias_index \<Rightarrow> js_string \<Rightarrow> js_string \<Rightarrow> bool" where
  "one_to_one index toolId taskId \<longleftrightarrow>
     (\<forall>k. 0 < alias_count index toolId k \<longleftrightarrow> k = taskId) \<and>
     (\<forall>t. 0 < alias_count index t taskId \<longleftrightarrow> t = toolId)"

lemma alias_linked:
  assumes "alias_wf index"
  shows "linked (tasksByTool index) t k \<longleftrightarrow> 0 < alias_count index t k"
    and "linked (toolsByTask index) k t \<longleftrightarrow> 0 < alias_count index t k"
  using assms by (auto simp: linked_def alias_count_def alias_wf_def)

lemma resolveTool_spec:
  assumes "alias_wf index"
  shows "resolveTool index t =
    (if \<forall>k. \<not> 0 < alias_count index t k
     then \<lparr>res_ids = \<lparr>ids_toolId = Some t, ids_taskId = None\<rparr>, res_canonical = True\<rparr>
     else if \<exists>k. one_to_one index t k
     then \<lparr>res_ids = \<lparr>ids_toolId = Some t, ids_taskId = Some (THE k. one_to_one index t k)\<rparr>,
           res_canonical = True\<rparr>
     else \<lparr>res_ids = \<lparr>ids_toolId = Some t, ids_taskId = None\<rparr>, res_canonical = False\<rparr>)"
proof -
  have wf: "links_wf (tasksByTool index)" "links_wf (toolsByTask index)"
    using assms by (auto simp: alias_wf_def)
  note linked = alias_linked [OF assms]
  show ?thesis
  proof (cases "map_of (tasksByTool index) t")
    case None
    then have "\<forall>k. \<not> 0 < alias_count index t k"
      using links_wf_unlinked [OF wf(1), of t] linked(1) by simp
    with None show ?thesis by (simp add: resolveTool_def)
  next
    case (Some tasks)
    note tasks = Some
    then have some: "\<not> (\<forall>k. \<not> 0 < alias_count index t k)"
      using links_wf_unlinked [OF wf(1), of t] linked(1) by simp
    have ne: "tasks \<noteq> []" using tasks wf(1) by (auto simp: links_wf_def)
    show ?thesis
    proof (cases "solePartner tasks")
      case None
      then have "\<not> (\<exists>k. one_to_one index t k)"
        using solePartner_iff [OF wf(1) tasks] linked(1) by (auto simp: one_to_one_def)
      with None tasks some ne show ?thesis by (simp add: resolveTool_def)
    next
      case (Some k)
      then have k: "\<forall>k'. 0 < alias_count index t k' \<longleftrightarrow> k' = k"
        using solePartner_iff [OF wf(1) tasks, of k] linked(1) by simp
      then have "one_to_one index t k' \<longleftrightarrow> k' = k \<and> onlyPartner (map_of (toolsByTask index) k) t" for k'
        using onlyPartner_iff [OF wf(2), of k t] linked(2) unfolding one_to_one_def by metis
      then have "one_to_one index t = (\<lambda>k'. k' = k \<and> onlyPartner (map_of (toolsByTask index) k) t)"
        by (intro ext)
      with Some tasks some ne show ?thesis by (simp add: resolveTool_def)
    qed
  qed
qed

text \<open>The two directions are each other's mirror image.\<close>

definition swap_index :: "alias_index \<Rightarrow> alias_index" where
  "swap_index index = \<lparr>tasksByTool = toolsByTask index, toolsByTask = tasksByTool index\<rparr>"

definition swap_resolution :: "alias_resolution \<Rightarrow> alias_resolution" where
  "swap_resolution r =
     \<lparr>res_ids = \<lparr>ids_toolId = ids_taskId (res_ids r), ids_taskId = ids_toolId (res_ids r)\<rparr>,
      res_canonical = res_canonical r\<rparr>"

lemma resolveTask_swap: "resolveTask index k = swap_resolution (resolveTool (swap_index index) k)"
  by (simp add: resolveTask_def resolveTool_def swap_index_def swap_resolution_def Let_def
      split: option.split)

lemma alias_wf_swap: "alias_wf index \<Longrightarrow> alias_wf (swap_index index)"
  by (simp add: alias_wf_def swap_index_def)

lemma alias_count_swap: "alias_wf index \<Longrightarrow> alias_count (swap_index index) k t = alias_count index t k"
  by (simp add: alias_count_def alias_wf_def swap_index_def)

lemma one_to_one_swap: "alias_wf index \<Longrightarrow> one_to_one (swap_index index) k t = one_to_one index t k"
  by (auto simp: one_to_one_def alias_count_swap)

lemma resolveTool_one_to_one:
  assumes "alias_wf index" and "ids_taskId (res_ids (resolveTool index t)) = Some k"
  shows "one_to_one index t k" and "ids_toolId (res_ids (resolveTool index t)) = Some t"
proof -
  have ex: "\<exists>k. one_to_one index t k" and k: "k = (THE k. one_to_one index t k)"
    using assms by (auto simp: resolveTool_spec split: if_splits)
  from ex have "\<exists>!k. one_to_one index t k" by (metis one_to_one_def)
  then show "one_to_one index t k" unfolding k by (rule theI')
  show "ids_toolId (res_ids (resolveTool index t)) = Some t"
    using assms(1) by (simp add: resolveTool_spec)
qed

lemma resolveTask_one_to_one:
  assumes "alias_wf index" and "ids_toolId (res_ids (resolveTask index k)) = Some t"
  shows "one_to_one index t k" and "ids_taskId (res_ids (resolveTask index k)) = Some k"
  using resolveTool_one_to_one [OF alias_wf_swap [OF assms(1)], of k t] assms
  by (simp_all add: resolveTask_swap swap_resolution_def one_to_one_swap)

lemma resolvePair_canonical:
  assumes "alias_wf index"
  shows "res_canonical (resolvePair index t k) \<longleftrightarrow>
    (\<forall>k'. 0 < alias_count index t k' \<longrightarrow> k' = k) \<and> (\<forall>t'. 0 < alias_count index t' k \<longrightarrow> t' = t)"
proof -
  have "links_wf (tasksByTool index)" "links_wf (toolsByTask index)"
    using assms by (auto simp: alias_wf_def)
  then show ?thesis
    by (simp add: resolvePair_def onlyPartner_iff alias_linked [OF assms])
qed

lemma resolvePair_of_one_to_one:
  "alias_wf index \<Longrightarrow> one_to_one index t k \<Longrightarrow>
     resolvePair index t k =
       \<lparr>res_ids = \<lparr>ids_toolId = Some t, ids_taskId = Some k\<rparr>, res_canonical = True\<rparr>"
  using resolvePair_canonical [of index t k] by (simp add: resolvePair_def one_to_one_def)


definition one_alias :: alias_index where
  "one_alias = retainAgentTurnSubagentAlias createAgentTurnSubagentAliasIndex (js ''t'', js ''k'') 1"

lemma one_alias_wf: "alias_wf one_alias"
  unfolding one_alias_def by (intro alias_wf_retain alias_wf_create)


lemma resolveTool_stable:
  assumes "alias_wf index" and "res_canonical (resolveTool index t)"
  shows "resolveAgentTurnSubagentIds index (res_ids (resolveTool index t)) = resolveTool index t"
proof (cases "ids_taskId (res_ids (resolveTool index t))")
  case None
  have "ids_toolId (res_ids (resolveTool index t)) = Some t"
    using assms(1) by (simp add: resolveTool_spec)
  with None show ?thesis by (simp add: resolveAgentTurnSubagentIds_def)
next
  case (Some k)
  from resolveTool_one_to_one [OF assms(1) Some] assms Some resolvePair_of_one_to_one [OF assms(1)]
  show ?thesis by (simp add: resolveAgentTurnSubagentIds_def)
qed

lemma resolveTask_stable:
  assumes "alias_wf index" and "res_canonical (resolveTask index k)"
  shows "resolveAgentTurnSubagentIds index (res_ids (resolveTask index k)) = resolveTask index k"
proof (cases "ids_toolId (res_ids (resolveTask index k))")
  case None
  have "ids_taskId (res_ids (resolveTask index k)) = Some k"
    using alias_wf_swap [OF assms(1)] by (simp add: resolveTask_swap swap_resolution_def resolveTool_spec)
  with None show ?thesis by (simp add: resolveAgentTurnSubagentIds_def)
next
  case (Some t)
  from resolveTask_one_to_one [OF assms(1) Some] assms Some resolvePair_of_one_to_one [OF assms(1)]
  show ?thesis by (simp add: resolveAgentTurnSubagentIds_def)
qed

text \<open>
  A canonical resolution is a fixed point: resolving its ids again changes nothing.
\<close>

lemma resolve_stable:
  assumes "alias_wf index" and "res_canonical (resolveAgentTurnSubagentIds index ids)"
  shows "resolveAgentTurnSubagentIds index (res_ids (resolveAgentTurnSubagentIds index ids)) =
    resolveAgentTurnSubagentIds index ids"
proof (cases "ids_toolId ids"; cases "ids_taskId ids")
  fix t k assume "ids_toolId ids = Some t" "ids_taskId ids = Some k"
  then show ?thesis by (simp add: resolveAgentTurnSubagentIds_def resolvePair_def)
next
  fix t assume "ids_toolId ids = Some t" "ids_taskId ids = None"
  then have "resolveAgentTurnSubagentIds index ids = resolveTool index t"
    by (simp add: resolveAgentTurnSubagentIds_def)
  with assms show ?thesis by (simp add: resolveTool_stable)
next
  fix k assume "ids_toolId ids = None" "ids_taskId ids = Some k"
  then have "resolveAgentTurnSubagentIds index ids = resolveTask index k"
    by (simp add: resolveAgentTurnSubagentIds_def)
  with assms show ?thesis by (simp add: resolveTask_stable)
qed (use assms in \<open>simp add: resolveAgentTurnSubagentIds_def UNRESOLVED_def\<close>)

lemma resolve_partial_ids:
  assumes "alias_wf index" and "one_to_one index t k"
  shows "resolveTool index t =
      \<lparr>res_ids = \<lparr>ids_toolId = Some t, ids_taskId = Some k\<rparr>, res_canonical = True\<rparr>"
    and "resolveTask index k =
      \<lparr>res_ids = \<lparr>ids_toolId = Some t, ids_taskId = Some k\<rparr>, res_canonical = True\<rparr>"
proof -
  have tool: "resolveTool i a =
      \<lparr>res_ids = \<lparr>ids_toolId = Some a, ids_taskId = Some b\<rparr>, res_canonical = True\<rparr>"
    if "alias_wf i" and one: "one_to_one i a b" for i a b
  proof -
    have "\<not> (\<forall>k. \<not> 0 < alias_count i a k)" using one by (auto simp: one_to_one_def)
    moreover have "(THE k. one_to_one i a k) = b"
      using one by (intro the_equality) (auto simp: one_to_one_def)
    ultimately show ?thesis using that by (auto simp: resolveTool_spec)
  qed
  show "resolveTool index t =
      \<lparr>res_ids = \<lparr>ids_toolId = Some t, ids_taskId = Some k\<rparr>, res_canonical = True\<rparr>"
    using assms by (rule tool)
  show "resolveTask index k =
      \<lparr>res_ids = \<lparr>ids_toolId = Some t, ids_taskId = Some k\<rparr>, res_canonical = True\<rparr>"
    using tool [OF alias_wf_swap, of index k t] assms
    by (simp add: resolveTask_swap swap_resolution_def one_to_one_swap)
qed

end
