(* ===== verification/SnapshotIndex.thy ===== *)
theory SnapshotIndex
  imports Aliases
begin

text \<open>
  The index of live snapshot rows, \<open>packages/agent-events/src/agentTurnSnapshotIndex.ts\<close>:
  for each target the slot of the row that currently stands for it. \<open>Indexed\<close> is the
  object of \<open>createAgentTurnSnapshotIndex\<close>, \<open>Inert\<close> is
  \<open>INERT_AGENT_TURN_SNAPSHOT_INDEX\<close>; the three operations dispatch on it. The
  \<open>step\<close> callback only counts work for a test probe and is left out.
\<close>

record placement =
  placed_event :: agent_turn_event
  placed_slot :: "nat option"

datatype live_slot_kind = KeyedSlot keyed_scope | SubagentToolSlot | SubagentTaskSlot

record index_state =
  live :: "live_slot_kind \<Rightarrow> (js_string, nat) js_map"
  aliases :: alias_index

datatype snapshot_index = Inert | Indexed index_state

definition createAgentTurnSnapshotIndex :: snapshot_index where
  "createAgentTurnSnapshotIndex =
     Indexed \<lparr>live = (\<lambda>_. []), aliases = createAgentTurnSubagentAliasIndex\<rparr>"

definition sharedSubagentSlot :: "index_state \<Rightarrow> subagent_ids \<Rightarrow> nat option" where
  "sharedSubagentSlot state ids =
     (let tool = (case ids_toolId ids of None \<Rightarrow> None
                  | Some t \<Rightarrow> map_of (live state SubagentToolSlot) t);
          task = (case ids_taskId ids of None \<Rightarrow> None
                  | Some k \<Rightarrow> map_of (live state SubagentTaskSlot) k)
      in if ids_toolId ids \<noteq> None \<and> tool = None then None
         else if ids_taskId ids \<noteq> None \<and> task = None then None
         else if tool \<noteq> None \<and> task \<noteq> None \<and> tool \<noteq> task then None
         else coalesce tool task)"

definition placeEvent_ix :: "index_state \<Rightarrow> agent_turn_event \<Rightarrow> placement" where
  "placeEvent_ix state event =
     (case agentTurnEventSupersession event of
        Snapshot target \<Rightarrow>
          (case target of
             IdentityTarget scope identity \<Rightarrow>
               \<lparr>placed_event = event,
                placed_slot = map_of (live state (KeyedSlot scope)) identity\<rparr>
           | SubagentIdsTarget ids \<Rightarrow>
               let resolution = resolveAgentTurnSubagentIds (aliases state) ids in
               if \<not> res_canonical resolution then \<lparr>placed_event = event, placed_slot = None\<rparr>
               else \<lparr>placed_event = withAgentTurnSubagentIds event (res_ids resolution),
                     placed_slot = sharedSubagentSlot state (res_ids resolution)\<rparr>)
      | _ \<Rightarrow> \<lparr>placed_event = event, placed_slot = None\<rparr>)"

definition countAlias :: "index_state \<Rightarrow> agent_turn_event \<Rightarrow> int \<Rightarrow> index_state" where
  "countAlias state event delta =
     (case agentTurnSubagentAlias event of
        None \<Rightarrow> state
      | Some pair \<Rightarrow>
          state\<lparr>aliases := retainAgentTurnSubagentAlias (aliases state) pair delta\<rparr>)"

definition set_live :: "index_state \<Rightarrow> live_slot_kind \<Rightarrow> js_string \<Rightarrow> nat \<Rightarrow> index_state" where
  "set_live state kind key slot =
     state\<lparr>live := (live state)(kind := AList.update key slot (live state kind))\<rparr>"

definition delete_live :: "index_state \<Rightarrow> live_slot_kind \<Rightarrow> js_string \<Rightarrow> index_state" where
  "delete_live state kind key =
     state\<lparr>live := (live state)(kind := AList.delete key (live state kind))\<rparr>"

definition releaseLiveSlots :: "index_state \<Rightarrow> live_slot_kind \<Rightarrow> index_state" where
  "releaseLiveSlots state kind = state\<lparr>live := (live state)(kind := [])\<rparr>"

fun releaseScope :: "index_state \<Rightarrow> snapshot_scope \<Rightarrow> index_state" where
  "releaseScope state (KeyedScope scope) = releaseLiveSlots state (KeyedSlot scope)"
| "releaseScope state SubagentScope =
     releaseLiveSlots (releaseLiveSlots state SubagentToolSlot) SubagentTaskSlot"

definition releaseSubagentIds :: "index_state \<Rightarrow> subagent_ids \<Rightarrow> index_state" where
  "releaseSubagentIds state ids =
     (let state1 = (case ids_toolId ids of None \<Rightarrow> state
                    | Some t \<Rightarrow> delete_live state SubagentToolSlot t)
      in case ids_taskId ids of None \<Rightarrow> state1
         | Some k \<Rightarrow> delete_live state1 SubagentTaskSlot k)"

definition releaseIfOwned ::
  "index_state \<Rightarrow> live_slot_kind \<Rightarrow> js_string \<Rightarrow> nat \<Rightarrow> index_state" where
  "releaseIfOwned state kind key slot =
     (if map_of (live state kind) key = Some slot then delete_live state kind key else state)"

fun releaseTarget :: "index_state \<Rightarrow> barrier_target \<Rightarrow> index_state" where
  "releaseTarget state (ScopeBarrier scope) = releaseScope state scope"
| "releaseTarget state (SnapshotBarrier (IdentityTarget scope identity)) =
     delete_live state (KeyedSlot scope) identity"
| "releaseTarget state (SnapshotBarrier (SubagentIdsTarget ids)) =
     (if length (live state SubagentToolSlot) = 0 \<and> length (live state SubagentTaskSlot) = 0
      then state
      else releaseSubagentIds state (res_ids (resolveAgentTurnSubagentIds (aliases state) ids)))"

fun releaseTargets :: "index_state \<Rightarrow> barrier_target list \<Rightarrow> index_state" where
  "releaseTargets state [] = state"
| "releaseTargets state (target # targets) = releaseTargets (releaseTarget state target) targets"

fun claimTarget :: "index_state \<Rightarrow> snapshot_target \<Rightarrow> nat \<Rightarrow> index_state" where
  "claimTarget state (IdentityTarget scope identity) slot =
     set_live state (KeyedSlot scope) identity slot"
| "claimTarget state (SubagentIdsTarget ids) slot =
     (let resolution = resolveAgentTurnSubagentIds (aliases state) ids in
      if \<not> res_canonical resolution then releaseSubagentIds state (res_ids resolution)
      else
        let state1 = (case ids_toolId (res_ids resolution) of None \<Rightarrow> state
                      | Some t \<Rightarrow> set_live state SubagentToolSlot t slot)
        in case ids_taskId (res_ids resolution) of None \<Rightarrow> state1
           | Some k \<Rightarrow> set_live state1 SubagentTaskSlot k slot)"

definition adoptEvent :: "index_state \<Rightarrow> agent_turn_event \<Rightarrow> nat \<Rightarrow> index_state" where
  "adoptEvent state event slot =
     (let counted = countAlias state event 1 in
      case agentTurnEventSupersession event of
        Content \<Rightarrow> counted
      | Barrier targets \<Rightarrow> releaseTargets counted targets
      | Snapshot target \<Rightarrow> claimTarget counted target slot)"

definition evictEvent :: "index_state \<Rightarrow> agent_turn_event \<Rightarrow> nat \<Rightarrow> index_state" where
  "evictEvent state event slot =
     (let counted = countAlias state event (- 1) in
      case agentTurnEventSupersession event of
        Snapshot (IdentityTarget scope identity) \<Rightarrow>
          releaseIfOwned counted (KeyedSlot scope) identity slot
      | Snapshot (SubagentIdsTarget ids) \<Rightarrow>
          (let state1 = (case ids_toolId ids of None \<Rightarrow> counted
                         | Some t \<Rightarrow> releaseIfOwned counted SubagentToolSlot t slot)
           in case ids_taskId ids of None \<Rightarrow> state1
              | Some k \<Rightarrow> releaseIfOwned state1 SubagentTaskSlot k slot)
      | _ \<Rightarrow> counted)"

text \<open>The interface the retention and the turn window call.\<close>

fun index_place :: "snapshot_index \<Rightarrow> agent_turn_event \<Rightarrow> placement" where
  "index_place Inert event = \<lparr>placed_event = event, placed_slot = None\<rparr>"
| "index_place (Indexed state) event = placeEvent_ix state event"

fun index_adopt :: "snapshot_index \<Rightarrow> agent_turn_event \<Rightarrow> nat \<Rightarrow> snapshot_index" where
  "index_adopt Inert event slot = Inert"
| "index_adopt (Indexed state) event slot = Indexed (adoptEvent state event slot)"

fun index_evict :: "snapshot_index \<Rightarrow> agent_turn_event \<Rightarrow> nat \<Rightarrow> snapshot_index" where
  "index_evict Inert event slot = Inert"
| "index_evict (Indexed state) event slot = Indexed (evictEvent state event slot)"

section \<open>The contract of a placement\<close>

text \<open>
  What a client of the index relies on: a placement may fill in the ids of a subagent event
  and nothing else, and offers a slot for snapshot events only.
\<close>

lemma user_message_not_snapshot: "is_user_message event \<Longrightarrow> \<not> isAgentTurnSnapshotEvent event"
  by (cases event) (simp_all add: isAgentTurnSnapshotEvent_def)

locale snapshot_placement =
  fixes place :: "'ix \<Rightarrow> agent_turn_event \<Rightarrow> placement"
  assumes place_ids: "\<exists>ids. placed_event (place ix event) = withAgentTurnSubagentIds event ids"
    and place_offers: "placed_slot (place ix event) \<noteq> None \<Longrightarrow> isAgentTurnSnapshotEvent event"
begin

lemma place_thread: "event_agentThreadId (placed_event (place ix event)) = event_agentThreadId event"
  using place_ids [of ix event] by (cases event) auto

lemma place_user: "is_user_message (placed_event (place ix event)) = is_user_message event"
  using place_ids [of ix event] by (cases event) auto

lemma place_user_slot: "is_user_message event \<Longrightarrow> placed_slot (place ix event) = None"
  using place_offers [of ix event] user_message_not_snapshot [of event] by blast

lemma place_user_same: "is_user_message event \<Longrightarrow> placed_event (place ix event) = event"
  using place_ids [of ix event] by (cases event) auto

end

lemma withAgentTurnSubagentIds_none:
  "withAgentTurnSubagentIds event \<lparr>ids_toolId = None, ids_taskId = None\<rparr> = event"
  by (cases event) auto

lemma placeEvent_ix_event: "\<exists>ids. placed_event (placeEvent_ix state event) = withAgentTurnSubagentIds event ids"
proof -
  have "\<exists>ids. event = withAgentTurnSubagentIds event ids"
    using withAgentTurnSubagentIds_none by metis
  then show ?thesis
    by (auto simp: placeEvent_ix_def Let_def split: supersession.split snapshot_target.split)
qed

lemma placeEvent_ix_slot:
  "placed_slot (placeEvent_ix state event) \<noteq> None \<Longrightarrow> isAgentTurnSnapshotEvent event"
  by (auto simp: placeEvent_ix_def isAgentTurnSnapshotEvent_def split: supersession.splits)

interpretation ix: snapshot_placement index_place
proof
  fix ix event
  show "\<exists>ids. placed_event (index_place ix event) = withAgentTurnSubagentIds event ids"
    using withAgentTurnSubagentIds_none by (cases ix) (auto intro: placeEvent_ix_event, metis)
  show "placed_slot (index_place ix event) \<noteq> None \<Longrightarrow> isAgentTurnSnapshotEvent event"
    using placeEvent_ix_slot by (cases ix) auto
qed

section \<open>Lookups after claims and barriers\<close>

lemma live_set_live [simp]:
  "live (set_live state kind key slot) kind' =
     (if kind' = kind then AList.update key slot (live state kind) else live state kind')"
  by (simp add: set_live_def)

lemma live_delete_live [simp]:
  "live (delete_live state kind key) kind' =
     (if kind' = kind then AList.delete key (live state kind) else live state kind')"
  by (simp add: delete_live_def)

lemma live_releaseLiveSlots [simp]:
  "live (releaseLiveSlots state kind) kind' = (if kind' = kind then [] else live state kind')"
  by (simp add: releaseLiveSlots_def)

lemma aliases_frame [simp, frame]:
  "aliases (set_live state kind key slot) = aliases state"
  "aliases (delete_live state kind key) = aliases state"
  "aliases (releaseLiveSlots state kind) = aliases state"
  "aliases (releaseIfOwned state kind key slot) = aliases state"
  "aliases (releaseSubagentIds state ids) = aliases state"
  by (simp_all add: set_live_def delete_live_def releaseLiveSlots_def releaseIfOwned_def
      releaseSubagentIds_def Let_def split: option.split)

lemma aliases_releaseTarget [simp, frame]: "aliases (releaseTarget state target) = aliases state"
proof (induction state target rule: releaseTarget.induct)
  case (1 state scope)
  show ?case by (cases scope) simp_all
qed simp_all

lemma aliases_releaseTargets [simp, frame]: "aliases (releaseTargets state targets) = aliases state"
  by (induction state targets rule: releaseTargets.induct) simp_all

lemma aliases_claimTarget [simp, frame]: "aliases (claimTarget state target slot) = aliases state"
  by (cases target) (simp_all add: Let_def split: option.split)

lemma live_countAlias [simp, frame]: "live (countAlias state event delta) = live state"
  by (simp add: countAlias_def split: option.split)

definition index_wf :: "snapshot_index \<Rightarrow> bool" where
  "index_wf ix \<longleftrightarrow> (case ix of Inert \<Rightarrow> True | Indexed state \<Rightarrow> alias_wf (aliases state))"

lemma alias_wf_countAlias: "alias_wf (aliases state) \<Longrightarrow> alias_wf (aliases (countAlias state event delta))"
  by (simp add: countAlias_def alias_wf_retain split: option.split)

lemma aliases_adoptEvent: "aliases (adoptEvent state event slot) = aliases (countAlias state event 1)"
  by (simp add: adoptEvent_def Let_def split: supersession.split)

lemma aliases_evictEvent: "aliases (evictEvent state event slot) = aliases (countAlias state event (- 1))"
  by (simp add: evictEvent_def Let_def split: supersession.split snapshot_target.split option.split)

lemma index_wf_create: "index_wf createAgentTurnSnapshotIndex"
  by (simp add: index_wf_def createAgentTurnSnapshotIndex_def alias_wf_create)

lemma index_wf_adopt: "index_wf ix \<Longrightarrow> index_wf (index_adopt ix event slot)"
  by (cases ix) (simp_all add: index_wf_def aliases_adoptEvent alias_wf_countAlias)

lemma index_wf_evict: "index_wf ix \<Longrightarrow> index_wf (index_evict ix event slot)"
  by (cases ix) (simp_all add: index_wf_def aliases_evictEvent alias_wf_countAlias)

text \<open>
  After a snapshot with a keyed identity is adopted at a slot, every later event for the
  same target is offered exactly that slot.
\<close>

theorem adopt_then_place_identity:
  assumes "agentTurnEventSupersession event = Snapshot (IdentityTarget scope identity)"
    and "agentTurnEventSupersession later = agentTurnEventSupersession event"
  shows "index_place (index_adopt (Indexed state) event slot) later =
    \<lparr>placed_event = later, placed_slot = Some slot\<rparr>"
  using assms by (simp add: adoptEvent_def placeEvent_ix_def Let_def)

theorem adopt_then_place_identity_witness:
  "index_place
     (index_adopt (Indexed \<lparr>live = (\<lambda>_. []), aliases = createAgentTurnSubagentAliasIndex\<rparr>)
       (BackgroundTask \<lparr>bt_taskId = js ''k'', bt_status = BgRunning, bt_taskType = BgShell,
         bt_description = None\<rparr>) 4)
     (BackgroundTask \<lparr>bt_taskId = js ''k'', bt_status = BgRunning, bt_taskType = BgOther,
       bt_description = None\<rparr>) =
   \<lparr>placed_event = BackgroundTask \<lparr>bt_taskId = js ''k'', bt_status = BgRunning,
       bt_taskType = BgOther, bt_description = None\<rparr>, placed_slot = Some 4\<rparr>"
  by (rule adopt_then_place_identity [where scope = BackgroundTaskScope and identity = "js ''k''"])
    (simp_all add: backgroundTaskSupersession_def Let_def)

text \<open>
  What a barrier ends: whatever the live tables held, no slot is left for a target it names.
\<close>

lemma map_of_delete_live_mono:
  "map_of (live (delete_live state kind key) kind') k = Some n \<Longrightarrow>
     map_of (live state kind') k = Some n"
  by (auto split: if_splits)

lemma releaseTarget_mono:
  "map_of (live (releaseTarget state target) kind) key = Some n \<Longrightarrow>
     map_of (live state kind) key = Some n"
proof (induction state target rule: releaseTarget.induct)
  case (1 state scope)
  then show ?case by (cases scope) (auto split: if_splits)
next
  case (2 state scope identity)
  then show ?case by (auto split: if_splits)
next
  case (3 state ids)
  then show ?case
    by (auto simp: releaseSubagentIds_def Let_def split: if_splits option.splits)
qed

lemma releaseTargets_mono:
  "map_of (live (releaseTargets state targets) kind) key = Some n \<Longrightarrow>
     map_of (live state kind) key = Some n"
  by (induction state targets rule: releaseTargets.induct) (auto dest: releaseTarget_mono)

lemma releaseTargets_identity:
  "SnapshotBarrier (IdentityTarget scope identity) \<in> set targets \<Longrightarrow>
     map_of (live (releaseTargets state targets) (KeyedSlot scope)) identity = None"
proof (induction state targets rule: releaseTargets.induct)
  case (2 state target targets)
  show ?case
  proof (cases "target = SnapshotBarrier (IdentityTarget scope identity)")
    case True
    then show ?thesis
      using releaseTargets_mono [of "releaseTarget state target" targets "KeyedSlot scope" identity]
      by (cases "map_of (live (releaseTargets (releaseTarget state target) targets)
          (KeyedSlot scope)) identity") auto
  next
    case False
    with 2 show ?thesis by simp
  qed
qed simp

lemma releaseTargets_scope:
  "ScopeBarrier (KeyedScope scope) \<in> set targets \<Longrightarrow>
     map_of (live (releaseTargets state targets) (KeyedSlot scope)) identity = None"
proof (induction state targets rule: releaseTargets.induct)
  case (2 state target targets)
  show ?case
  proof (cases "target = ScopeBarrier (KeyedScope scope)")
    case True
    then show ?thesis
      using releaseTargets_mono [of "releaseTarget state target" targets "KeyedSlot scope" identity]
      by (cases "map_of (live (releaseTargets (releaseTarget state target) targets)
          (KeyedSlot scope)) identity") auto
  next
    case False
    with 2 show ?thesis by simp
  qed
qed simp



lemma placed_partial_ids:
  assumes wf: "alias_wf (aliases state)"
    and running: "sub_status event = SubRunning" "sub_toolId event = Some t" "sub_taskId event = Some k"
    and canonical: "res_canonical (resolvePair (aliases (countAlias state (Subagent event) 1)) t k)"
    and later: "sub_status later = SubRunning"
      "(sub_toolId later, sub_taskId later) \<in> {(Some t, None), (None, Some k), (Some t, Some k)}"
  shows "placeEvent_ix (adoptEvent state (Subagent event) slot) (Subagent later) =
    \<lparr>placed_event = Subagent (later\<lparr>sub_toolId := Some t, sub_taskId := Some k\<rparr>),
     placed_slot = Some slot\<rparr>"
proof -
  let ?counted = "countAlias state (Subagent event) 1"
  let ?adopted = "adoptEvent state (Subagent event) slot"
  have wf': "alias_wf (aliases ?counted)" by (rule alias_wf_countAlias [OF wf])
  have aliases: "aliases ?adopted = aliases ?counted" by (rule aliases_adoptEvent)
  have "0 < alias_count (aliases ?counted) t k"
    using running link_count_nonneg [of "tasksByTool (aliases state)" t k] wf
    by (simp add: countAlias_def alias_count_retain) (simp add: alias_count_def alias_wf_def)
  with canonical have one: "one_to_one (aliases ?counted) t k"
    unfolding resolvePair_canonical [OF wf'] one_to_one_def by blast
  have pair: "resolveAgentTurnSubagentIds (aliases ?counted) (subagentIds event) =
      \<lparr>res_ids = \<lparr>ids_toolId = Some t, ids_taskId = Some k\<rparr>, res_canonical = True\<rparr>"
    using running resolvePair_of_one_to_one [OF wf' one]
    by (simp add: resolveAgentTurnSubagentIds_def subagentIds_def)
  have ids: "resolveAgentTurnSubagentIds (aliases ?counted) (subagentIds later) =
      \<lparr>res_ids = \<lparr>ids_toolId = Some t, ids_taskId = Some k\<rparr>, res_canonical = True\<rparr>"
    using later(2) resolve_partial_ids [OF wf' one]
    by (auto simp: resolveAgentTurnSubagentIds_def subagentIds_def resolvePair_of_one_to_one [OF wf' one])
  have "map_of (live ?adopted SubagentToolSlot) t = Some slot"
    and "map_of (live ?adopted SubagentTaskSlot) k = Some slot"
    using running pair by (simp_all add: adoptEvent_def subagentSupersession_def Let_def)
  moreover have "agentTurnEventSupersession (Subagent later) =
      Snapshot (SubagentIdsTarget (subagentIds later))"
    using later by (auto simp: subagentSupersession_def Let_def)
  ultimately show ?thesis using later(2)
    by (auto simp: placeEvent_ix_def sharedSubagentSlot_def aliases ids Let_def)
qed

text \<open>
  After a running subagent update that carries both ids is adopted, and provided the two
  ids are linked to nothing else, an update that knows only the tool id, or only the task
  id, is completed with the other one and offered the same row.
\<close>

theorem adopt_then_place_partial_ids:
  assumes "index_wf (Indexed state)"
    and "sub_status event = SubRunning" and "sub_toolId event = Some t" and "sub_taskId event = Some k"
    and "res_canonical (resolvePair (aliases (countAlias state (Subagent event) 1)) t k)"
    and "sub_status later = SubRunning"
    and "(sub_toolId later, sub_taskId later) \<in> {(Some t, None), (None, Some k), (Some t, Some k)}"
  shows "index_place (index_adopt (Indexed state) (Subagent event) slot) (Subagent later) =
    \<lparr>placed_event = Subagent (later\<lparr>sub_toolId := Some t, sub_taskId := Some k\<rparr>),
     placed_slot = Some slot\<rparr>"
  using assms placed_partial_ids by (simp add: index_wf_def)

text \<open>A running update with the given ids and no other data, for the examples.\<close>

definition running_update :: "js_string option \<Rightarrow> js_string option \<Rightarrow> subagent_event" where
  "running_update tool task =
     \<lparr>sub_status = SubRunning, sub_toolId = tool, sub_taskId = task, sub_subagentType = None,
      sub_description = None, sub_durationMs = None, sub_totalTokens = None, sub_toolUses = None,
      sub_lastToolName = None\<rparr>"

theorem adopt_then_place_partial_ids_witness:
  "index_place
     (index_adopt (Indexed \<lparr>live = (\<lambda>_. []), aliases = createAgentTurnSubagentAliasIndex\<rparr>)
       (Subagent (running_update (Some (js ''t'')) (Some (js ''k'')))) 4)
     (Subagent (running_update None (Some (js ''k'')))) =
   \<lparr>placed_event = Subagent ((running_update None (Some (js ''k'')))
        \<lparr>sub_toolId := Some (js ''t''), sub_taskId := Some (js ''k'')\<rparr>),
    placed_slot = Some 4\<rparr>"
  by (rule adopt_then_place_partial_ids)
    (simp_all add: index_wf_def alias_wf_create running_update_def resolvePair_def onlyPartner_def
      countAlias_def retainAgentTurnSubagentAlias_def createAgentTurnSubagentAliasIndex_def
      countPartner_def Let_def alias_wf_create [unfolded createAgentTurnSubagentAliasIndex_def])

end
