(* ===== verification/Retention.thy ===== *)
theory Retention
  imports SnapshotIndex "HOL-Library.Sublist"
begin

text \<open>
  The bounded window of a turn's events,
  \<open>packages/agent-events/src/agentTurnEventRetention.ts\<close>: existing events are adopted,
  each incoming event is coalesced into the tail, merged into its live row or appended, and
  the oldest events that are not user messages are evicted until the three limits hold.
  Slots of evicted events stay as \<open>None\<close> until they reach the tail. The eviction loop
  is a \<open>partial_function\<close>: \<open>None\<close> is a loop that never returns. The \<open>probe\<close> of the
  policy only counts work for a test and is left out.
\<close>

record retention_policy =
  maxEvents :: int
  maxBytes :: int
  maxSubagentThreads :: int
  eventBytes :: "agent_turn_event \<Rightarrow> nat"
  coalesceText :: "agent_turn_event option \<Rightarrow> agent_turn_event \<Rightarrow> agent_turn_event option"

record retention_result =
  retained_events :: "agent_turn_event list"
  retained_truncated :: bool

record retention_state =
  slots :: "agent_turn_event option list"
  snapshots :: snapshot_index
  subagentThreads :: "(js_string, int) js_map"
  liveCount :: int
  retainedBytes :: int
  evictionCursor :: nat
  truncated :: bool

definition slot_at :: "agent_turn_event option list \<Rightarrow> nat \<Rightarrow> agent_turn_event option" where
  "slot_at xs i = (if i < length xs then xs ! i else None)"

fun snapshotIndexFor :: "agent_turn_event list \<Rightarrow> snapshot_index" where
  "snapshotIndexFor [] = Inert"
| "snapshotIndexFor (event # incoming) =
     (if isAgentTurnSnapshotEvent event then createAgentTurnSnapshotIndex
      else snapshotIndexFor incoming)"

definition replaceSlot ::
  "retention_policy \<Rightarrow> retention_state \<Rightarrow> nat \<Rightarrow> agent_turn_event \<Rightarrow> agent_turn_event \<Rightarrow> retention_state" where
  "replaceSlot policy state slot previous event =
     state\<lparr>retainedBytes :=
             retainedBytes state + (int (eventBytes policy event) - int (eventBytes policy previous)),
           slots := (slots state)[slot := Some event]\<rparr>"

definition countSubagentThread ::
  "retention_state \<Rightarrow> agent_turn_event \<Rightarrow> int \<Rightarrow> retention_state" where
  "countSubagentThread state event delta =
     (case event_agentThreadId event of
        None \<Rightarrow> state
      | Some thread \<Rightarrow>
          (let count = (case map_of (subagentThreads state) thread of None \<Rightarrow> 0 | Some n \<Rightarrow> n) + delta
           in if count > 0
              then state\<lparr>subagentThreads := AList.update thread count (subagentThreads state)\<rparr>
              else state\<lparr>subagentThreads := AList.delete thread (subagentThreads state)\<rparr>))"

definition adoptSlot ::
  "retention_policy \<Rightarrow> retention_state \<Rightarrow> agent_turn_event \<Rightarrow> nat \<Rightarrow> retention_state" where
  "adoptSlot policy state event slot =
     (let counted = countSubagentThread
            (state\<lparr>liveCount := liveCount state + 1,
                   retainedBytes := retainedBytes state + int (eventBytes policy event)\<rparr>) event 1
      in counted\<lparr>snapshots := index_adopt (snapshots counted) event slot\<rparr>)"

definition tailIsCoalescibleText :: "retention_state \<Rightarrow> bool" where
  "tailIsCoalescibleText state =
     (case slots state of [] \<Rightarrow> False
      | _ \<Rightarrow> (case last (slots state) of None \<Rightarrow> False
              | Some tail \<Rightarrow> isAgentTurnCoalescibleTextEvent tail))"

definition supersedeInPlace ::
  "retention_policy \<Rightarrow> retention_state \<Rightarrow> placement \<Rightarrow> retention_state option" where
  "supersedeInPlace policy state placement =
     (case placed_slot placement of
        None \<Rightarrow> None
      | Some liveSlot \<Rightarrow>
          if tailIsCoalescibleText state then None
          else case slot_at (slots state) liveSlot of
            None \<Rightarrow> None
          | Some previous \<Rightarrow>
              (case mergeSupersededAgentTurnEvent previous (placed_event placement) of
                 None \<Rightarrow> None
               | Some merged \<Rightarrow> Some (replaceSlot policy state liveSlot previous merged)))"

definition placeEvent_ret ::
  "retention_policy \<Rightarrow> retention_state \<Rightarrow> placement \<Rightarrow> retention_state" where
  "placeEvent_ret policy state placement =
     (case supersedeInPlace policy state placement of
        Some state' \<Rightarrow> state'
      | None \<Rightarrow>
          adoptSlot policy (state\<lparr>slots := slots state @ [Some (placed_event placement)]\<rparr>)
            (placed_event placement) (length (slots state)))"

definition coalesceIntoTail ::
  "retention_policy \<Rightarrow> retention_state \<Rightarrow> agent_turn_event \<Rightarrow> retention_state option" where
  "coalesceIntoTail policy state event =
     (case slots state of [] \<Rightarrow> None
      | _ \<Rightarrow> (case last (slots state) of None \<Rightarrow> None
          | Some tail \<Rightarrow>
              (case coalesceText policy (Some tail) event of None \<Rightarrow> None
               | Some coalesced \<Rightarrow>
                   Some (replaceSlot policy state (length (slots state) - 1) tail coalesced))))"

definition exceedsLimits :: "retention_policy \<Rightarrow> retention_state \<Rightarrow> bool" where
  "exceedsLimits policy state \<longleftrightarrow>
     liveCount state > maxEvents policy \<or>
     retainedBytes state > maxBytes policy \<or>
     int (length (subagentThreads state)) > maxSubagentThreads policy"

definition isPinned :: "retention_state \<Rightarrow> nat \<Rightarrow> bool" where
  "isPinned state slot =
     (case slot_at (slots state) slot of None \<Rightarrow> True | Some event \<Rightarrow> is_user_message event)"

text \<open>The loop that moves the cursor over pinned slots.\<close>

function skipPinned :: "retention_state \<Rightarrow> retention_state" where
  "skipPinned state =
     (if evictionCursor state < length (slots state) \<and> isPinned state (evictionCursor state)
      then skipPinned (state\<lparr>evictionCursor := evictionCursor state + 1\<rparr>)
      else state)"
  by pat_completeness auto
termination
  by (relation "measure (\<lambda>state. length (slots state) - evictionCursor state)") auto

declare skipPinned.simps [simp del]

definition nextVictimSlot :: "retention_state \<Rightarrow> retention_state \<times> nat option" where
  "nextVictimSlot state =
     (let state' = skipPinned state in
      if evictionCursor state' < length (slots state') then (state', Some (evictionCursor state'))
      else if length (slots state') = 0 then (state', None)
      else (state', Some (length (slots state') - 1)))"

text \<open>The loop that pops empty slots off the tail.\<close>

fun popEmptyTail :: "agent_turn_event option list \<Rightarrow> agent_turn_event option list" where
  "popEmptyTail xs = (if xs \<noteq> [] \<and> last xs = None then popEmptyTail (butlast xs) else xs)"

declare popEmptyTail.simps [simp del]

definition trimTail :: "retention_state \<Rightarrow> retention_state" where
  "trimTail state =
     (let slots' = popEmptyTail (slots state) in
      state\<lparr>slots := slots', evictionCursor := min (evictionCursor state) (length slots')\<rparr>)"

definition evictSlot :: "retention_policy \<Rightarrow> retention_state \<Rightarrow> nat \<Rightarrow> retention_state" where
  "evictSlot policy state slot =
     (case slot_at (slots state) slot of
        None \<Rightarrow> state
      | Some event \<Rightarrow>
          (let cleared = state\<lparr>slots := (slots state)[slot := None],
                 liveCount := liveCount state - 1,
                 retainedBytes := retainedBytes state - int (eventBytes policy event),
                 truncated := True\<rparr>;
               counted = countSubagentThread cleared event (- 1)
           in trimTail (counted\<lparr>snapshots := index_evict (snapshots counted) event slot\<rparr>)))"

partial_function (option) enforceLimits ::
  "retention_policy \<Rightarrow> retention_state \<Rightarrow> retention_state option" where
  "enforceLimits policy state =
     (if exceedsLimits policy state
      then (case nextVictimSlot state of
              (state', None) \<Rightarrow> Some state'
            | (state', Some victim) \<Rightarrow> enforceLimits policy (evictSlot policy state' victim))
      else Some state)"

definition acceptEvent ::
  "retention_policy \<Rightarrow> retention_state \<Rightarrow> agent_turn_event \<Rightarrow> retention_state option" where
  "acceptEvent policy state event =
     (if int (eventBytes policy event) > maxBytes policy
      then Some (state\<lparr>truncated := True\<rparr>)
      else
        let placed = (case coalesceIntoTail policy state event of
              Some state' \<Rightarrow> state'
            | None \<Rightarrow> placeEvent_ret policy state (index_place (snapshots state) event))
        in enforceLimits policy placed)"

fun adoptSlots ::
  "retention_policy \<Rightarrow> retention_state \<Rightarrow> agent_turn_event list \<Rightarrow> nat \<Rightarrow> retention_state" where
  "adoptSlots policy state [] slot = state"
| "adoptSlots policy state (event # events) slot =
     adoptSlots policy (adoptSlot policy state event slot) events (Suc slot)"

fun acceptEvents ::
  "retention_policy \<Rightarrow> retention_state \<Rightarrow> agent_turn_event list \<Rightarrow> retention_state option" where
  "acceptEvents policy state [] = Some state"
| "acceptEvents policy state (event # events) =
     (case acceptEvent policy state event of
        None \<Rightarrow> None
      | Some state' \<Rightarrow> acceptEvents policy state' events)"

fun live_of :: "agent_turn_event option list \<Rightarrow> agent_turn_event list" where
  "live_of [] = []"
| "live_of (None # xs) = live_of xs"
| "live_of (Some event # xs) = event # live_of xs"

definition liveEvents :: "retention_state \<Rightarrow> agent_turn_event list" where
  "liveEvents state = live_of (slots state)"

definition initial_state :: "agent_turn_event list \<Rightarrow> snapshot_index \<Rightarrow> retention_state" where
  "initial_state existing ix =
     \<lparr>slots = map Some existing, snapshots = ix, subagentThreads = [], liveCount = 0,
      retainedBytes = 0, evictionCursor = 0, truncated = False\<rparr>"

definition retain ::
  "retention_policy \<Rightarrow> agent_turn_event list \<Rightarrow> agent_turn_event list \<Rightarrow> snapshot_index \<Rightarrow>
     retention_result option" where
  "retain policy existing incoming ix =
     (if incoming = [] then Some \<lparr>retained_events = existing, retained_truncated = False\<rparr>
      else
        let adopted = adoptSlots policy (initial_state existing ix) existing 0 in
        map_option
          (\<lambda>state. \<lparr>retained_events = liveEvents state, retained_truncated = truncated state\<rparr>)
          (acceptEvents policy adopted incoming))"

definition retainAgentTurnEvents ::
  "retention_policy \<Rightarrow> agent_turn_event list \<Rightarrow> agent_turn_event list \<Rightarrow> retention_result option" where
  "retainAgentTurnEvents policy existing incoming =
     retain policy existing incoming (snapshotIndexFor incoming)"

definition capAgentTurnEvents ::
  "retention_policy \<Rightarrow> agent_turn_event list \<Rightarrow> retention_result option" where
  "capAgentTurnEvents policy events = retain policy [] events Inert"

section \<open>Accounts\<close>

text \<open>
  What the counters of the state mean: the number of live events, their bytes, and for every
  subagent thread the number of live events that belong to it.
\<close>

definition thread_count :: "agent_turn_event list \<Rightarrow> js_string \<Rightarrow> nat" where
  "thread_count es t = length (filter (\<lambda>e. event_agentThreadId e = Some t) es)"

definition threads_of :: "agent_turn_event list \<Rightarrow> js_string set" where
  "threads_of es = {t. \<exists>e \<in> set es. event_agentThreadId e = Some t}"

definition total_bytes :: "retention_policy \<Rightarrow> agent_turn_event list \<Rightarrow> int" where
  "total_bytes policy es = (\<Sum>e\<leftarrow>es. int (eventBytes policy e))"

definition thread_table :: "(js_string, int) js_map \<Rightarrow> agent_turn_event list \<Rightarrow> bool" where
  "thread_table table es \<longleftrightarrow> map_wf table \<and>
     (\<forall>t. map_of table t = (if thread_count es t = 0 then None else Some (int (thread_count es t))))"

definition accounts :: "retention_policy \<Rightarrow> retention_state \<Rightarrow> agent_turn_event list \<Rightarrow> bool" where
  "accounts policy state es \<longleftrightarrow>
     liveCount state = int (length es) \<and> retainedBytes state = total_bytes policy es \<and>
     thread_table (subagentThreads state) es"

lemma thread_count_simps [simp]:
  "thread_count [] t = 0"
  "thread_count (e # es) t = (if event_agentThreadId e = Some t then 1 else 0) + thread_count es t"
  "thread_count (as @ bs) t = thread_count as t + thread_count bs t"
  by (simp_all add: thread_count_def)

lemma total_bytes_simps [simp]:
  "total_bytes policy [] = 0"
  "total_bytes policy (e # es) = int (eventBytes policy e) + total_bytes policy es"
  "total_bytes policy (as @ bs) = total_bytes policy as + total_bytes policy bs"
  by (simp_all add: total_bytes_def)

lemma thread_count_pos: "0 < thread_count es t \<longleftrightarrow> t \<in> threads_of es"
  by (induction es) (auto simp: threads_of_def)

lemma thread_table_size:
  assumes "thread_table table es"
  shows "length table = card (threads_of es)"
proof -
  have "dom (map_of table) = threads_of es"
    using assms by (auto simp: thread_table_def simp flip: thread_count_pos split: if_splits)
  with assms show ?thesis by (simp add: thread_table_def length_map_wf)
qed

lemma thread_table_insert:
  assumes "thread_table (subagentThreads state) (as @ bs)"
  shows "thread_table (subagentThreads (countSubagentThread state e 1)) (as @ e # bs)"
  using assms
  by (auto simp: countSubagentThread_def thread_table_def Let_def split: option.split)

lemma thread_table_remove:
  assumes "thread_table (subagentThreads state) (as @ e # bs)"
  shows "thread_table (subagentThreads (countSubagentThread state e (- 1))) (as @ bs)"
  using assms
  by (auto simp: countSubagentThread_def thread_table_def Let_def split: option.split)

lemma countSubagentThread_frame [simp, frame]:
  "slots (countSubagentThread state e d) = slots state"
  "snapshots (countSubagentThread state e d) = snapshots state"
  "liveCount (countSubagentThread state e d) = liveCount state"
  "retainedBytes (countSubagentThread state e d) = retainedBytes state"
  "evictionCursor (countSubagentThread state e d) = evictionCursor state"
  "truncated (countSubagentThread state e d) = truncated state"
  by (simp_all add: countSubagentThread_def Let_def split: option.split)

lemma subagentThreads_cong:
  "subagentThreads state = subagentThreads state' \<Longrightarrow>
     subagentThreads (countSubagentThread state e d) = subagentThreads (countSubagentThread state' e d)"
  by (simp add: countSubagentThread_def Let_def split: option.split)

lemma adoptSlot_frame [simp, frame]:
  "slots (adoptSlot policy state e i) = slots state"
  "evictionCursor (adoptSlot policy state e i) = evictionCursor state"
  "truncated (adoptSlot policy state e i) = truncated state"
  by (simp_all add: adoptSlot_def Let_def)

lemma accounts_adoptSlot:
  assumes "accounts policy state (as @ bs)"
  shows "accounts policy (adoptSlot policy state e i) (as @ e # bs)"
proof -
  have "thread_table (subagentThreads (countSubagentThread
      (state\<lparr>liveCount := liveCount state + 1,
             retainedBytes := retainedBytes state + int (eventBytes policy e)\<rparr>) e 1)) (as @ e # bs)"
    by (rule thread_table_insert) (use assms in \<open>simp add: accounts_def\<close>)
  then show ?thesis using assms by (simp add: accounts_def adoptSlot_def Let_def)
qed

lemma accounts_replaceSlot:
  assumes "accounts policy state (as @ e # bs)" and "event_agentThreadId e' = event_agentThreadId e"
  shows "accounts policy (replaceSlot policy state i e e') (as @ e' # bs)"
  using assms by (auto simp: accounts_def replaceSlot_def thread_table_def)

lemma accounts_cong:
  "liveCount s' = liveCount s \<Longrightarrow> retainedBytes s' = retainedBytes s \<Longrightarrow>
     subagentThreads s' = subagentThreads s \<Longrightarrow> accounts policy s' es = accounts policy s es"
  by (simp add: accounts_def)

section \<open>Slots\<close>

lemma live_of_append [simp]: "live_of (xs @ ys) = live_of xs @ live_of ys"
  by (induction xs rule: live_of.induct) simp_all

lemma live_of_map_Some [simp]: "live_of (map Some es) = es"
  by (induction es) simp_all

lemma set_live_of: "e \<in> set (live_of xs) \<longleftrightarrow> Some e \<in> set xs"
  by (induction xs rule: live_of.induct) auto

lemma slot_split:
  assumes "slot_at xs i = Some e"
  obtains as bs where "xs = as @ Some e # bs" and "length as = i"
proof
  have "i < length xs" and "xs ! i = Some e" using assms by (auto simp: slot_at_def split: if_splits)
  then show "xs = take i xs @ Some e # drop (Suc i) xs" by (metis id_take_nth_drop)
  show "length (take i xs) = i" using \<open>i < length xs\<close> by simp
qed

lemma live_of_popEmptyTail [simp]: "live_of (popEmptyTail xs) = live_of xs"
proof (induction xs rule: popEmptyTail.induct)
  case (1 xs)
  have step: "live_of (butlast xs) = live_of xs" if "xs \<noteq> []" "last xs = None"
  proof -
    have "xs = butlast xs @ [None]" using that append_butlast_last_id [of xs] by simp
    then have "live_of xs = live_of (butlast xs @ [None])" by simp
    then show ?thesis by simp
  qed
  show ?case
    by (subst popEmptyTail.simps) (use 1 step in auto)
qed

lemma popEmptyTail_last: "popEmptyTail xs = [] \<or> last (popEmptyTail xs) \<noteq> None"
proof (induction xs rule: popEmptyTail.induct)
  case (1 xs)
  then show ?case by (subst (1 2) popEmptyTail.simps) auto
qed

lemma popEmptyTail_prefix: "\<exists>k. popEmptyTail xs = take k xs"
proof (induction xs rule: popEmptyTail.induct)
  case (1 xs)
  show ?case
  proof (cases "xs \<noteq> [] \<and> last xs = None")
    case True
    with 1 obtain k where "popEmptyTail (butlast xs) = take k (butlast xs)" by blast
    then have "popEmptyTail xs = take (min k (length xs - 1)) xs"
      using True by (subst popEmptyTail.simps) (simp add: butlast_conv_take)
    then show ?thesis by blast
  next
    case False
    then have "popEmptyTail xs = take (length xs) xs" by (subst popEmptyTail.simps) auto
    then show ?thesis by blast
  qed
qed

section \<open>The invariant\<close>

definition tail_live :: "agent_turn_event option list \<Rightarrow> bool" where
  "tail_live xs \<longleftrightarrow> xs = [] \<or> last xs \<noteq> None"

definition cursor_ok :: "retention_state \<Rightarrow> bool" where
  "cursor_ok state \<longleftrightarrow> evictionCursor state \<le> length (slots state) \<and>
     (\<forall>i < evictionCursor state. isPinned state i)"

definition retention_inv :: "retention_policy \<Rightarrow> retention_state \<Rightarrow> bool" where
  "retention_inv policy state \<longleftrightarrow>
     accounts policy state (liveEvents state) \<and> tail_live (slots state) \<and> cursor_ok state"

lemma isPinned_cong: "slots s = slots s' \<Longrightarrow> isPinned s i = isPinned s' i"
  by (simp add: isPinned_def)

lemma skipPinned_spec:
  assumes "cursor_ok state"
  shows "cursor_ok (skipPinned state)"
    and "skipPinned state = state\<lparr>evictionCursor := evictionCursor (skipPinned state)\<rparr>"
    and "evictionCursor (skipPinned state) < length (slots state) \<Longrightarrow>
      \<not> isPinned state (evictionCursor (skipPinned state))"
proof -
  have "cursor_ok (skipPinned state) \<and>
    skipPinned state = state\<lparr>evictionCursor := evictionCursor (skipPinned state)\<rparr> \<and>
    (evictionCursor (skipPinned state) < length (slots state) \<longrightarrow>
      \<not> isPinned state (evictionCursor (skipPinned state)))"
    using assms
  proof (induction state rule: skipPinned.induct)
    case (1 state)
    let ?next = "state\<lparr>evictionCursor := evictionCursor state + 1\<rparr>"
    show ?case
    proof (cases "evictionCursor state < length (slots state) \<and> isPinned state (evictionCursor state)")
      case True
      then have "cursor_ok ?next"
        using "1.prems" by (auto simp: cursor_ok_def isPinned_def less_Suc_eq)
      from "1.IH" [OF True this] have IH: "cursor_ok (skipPinned ?next) \<and>
        skipPinned ?next = ?next\<lparr>evictionCursor := evictionCursor (skipPinned ?next)\<rparr> \<and>
        (evictionCursor (skipPinned ?next) < length (slots ?next) \<longrightarrow>
          \<not> isPinned ?next (evictionCursor (skipPinned ?next)))" .
      have "skipPinned state = skipPinned ?next" using True by (subst skipPinned.simps) simp
      with IH show ?thesis by (simp add: isPinned_def)
    next
      case False
      then have "skipPinned state = state" by (subst skipPinned.simps) (simp only: False if_False)
      with "1.prems" False show ?thesis by simp
    qed
  qed
  then show "cursor_ok (skipPinned state)"
    and "skipPinned state = state\<lparr>evictionCursor := evictionCursor (skipPinned state)\<rparr>"
    and "evictionCursor (skipPinned state) < length (slots state) \<Longrightarrow>
      \<not> isPinned state (evictionCursor (skipPinned state))" by blast+
qed

lemma nextVictimSlot_spec:
  assumes "cursor_ok state" and "nextVictimSlot state = (state', victim)"
  shows "cursor_ok state'"
    and "state' = state\<lparr>evictionCursor := evictionCursor state'\<rparr>"
    and "victim = None \<Longrightarrow> slots state = []"
    and "victim = Some v \<Longrightarrow> v < length (slots state) \<and>
      (\<not> isPinned state v \<or> (v = length (slots state) - 1 \<and> (\<forall>i < length (slots state). isPinned state i)))"
proof -
  have state': "state' = skipPinned state"
    using assms(2) by (auto simp: nextVictimSlot_def Let_def split: if_splits)
  note skip = skipPinned_spec [OF assms(1)]
  show c: "cursor_ok state'" and upd: "state' = state\<lparr>evictionCursor := evictionCursor state'\<rparr>"
    unfolding state' by (rule skip(1)) (rule skip(2))
  have slots: "slots state' = slots state" by (subst upd) simp
  have pinned: "isPinned state' i = isPinned state i" for i by (rule isPinned_cong [OF slots])
  show "slots state = []" if "victim = None"
    using assms(2) that slots by (auto simp: nextVictimSlot_def Let_def state' split: if_splits)
  show "v < length (slots state) \<and>
      (\<not> isPinned state v \<or> (v = length (slots state) - 1 \<and> (\<forall>i < length (slots state). isPinned state i)))"
    if "victim = Some v"
  proof (cases "evictionCursor state' < length (slots state)")
    case True
    then have "v = evictionCursor state'"
      using assms(2) that slots by (auto simp: nextVictimSlot_def Let_def state')
    with True skip(3) show ?thesis by (simp add: state')
  next
    case False
    then have "v = length (slots state) - 1" and "slots state \<noteq> []"
      using assms(2) that slots by (auto simp: nextVictimSlot_def Let_def state' split: if_splits)
    with False c pinned show ?thesis by (auto simp: cursor_ok_def slots)
  qed
qed

lemma evictSlot_spec:
  assumes "accounts policy state (liveEvents state)" and "cursor_ok state"
    and e: "slots state = as @ Some e # bs"
  shows "retention_inv policy (evictSlot policy state (length as))"
    and "liveEvents (evictSlot policy state (length as)) = live_of as @ live_of bs"
    and "truncated (evictSlot policy state (length as))"
proof -
  define cleared where "cleared = state\<lparr>slots := as @ None # bs, liveCount := liveCount state - 1,
    retainedBytes := retainedBytes state - int (eventBytes policy e), truncated := True\<rparr>"
  define counted where "counted = countSubagentThread cleared e (- 1)"
  define evicted where "evicted = counted\<lparr>snapshots := index_evict (snapshots counted) e (length as)\<rparr>"
  have evict: "evictSlot policy state (length as) = trimTail evicted"
    by (simp add: evictSlot_def e slot_at_def evicted_def counted_def cleared_def Let_def
        list_update_append)
  have "accounts policy evicted (live_of as @ live_of bs)"
  proof -
    have "thread_table (subagentThreads cleared) (live_of as @ e # live_of bs)"
      using assms(1) by (simp add: accounts_def cleared_def liveEvents_def e)
    then have "thread_table (subagentThreads counted) (live_of as @ live_of bs)"
      unfolding counted_def by (rule thread_table_remove)
    then show ?thesis
      using assms(1) by (simp add: accounts_def evicted_def counted_def cleared_def liveEvents_def e)
  qed
  moreover have slots: "slots (trimTail evicted) = popEmptyTail (as @ None # bs)"
    by (simp add: trimTail_def Let_def evicted_def counted_def cleared_def)
  moreover show live: "liveEvents (evictSlot policy state (length as)) = live_of as @ live_of bs"
    by (simp add: evict liveEvents_def slots)
  ultimately have acc: "accounts policy (trimTail evicted) (liveEvents (trimTail evicted))"
    by (simp add: evict trimTail_def Let_def accounts_cong [of "evicted\<lparr>slots := _, evictionCursor := _\<rparr>" evicted])
  have "cursor_ok (trimTail evicted)"
  proof -
    obtain k where k: "popEmptyTail (as @ None # bs) = take k (as @ None # bs)"
      using popEmptyTail_prefix by blast
    have nth: "slots (trimTail evicted) ! i = (as @ None # bs) ! i"
      if "i < length (slots (trimTail evicted))" for i
      using that unfolding slots k by (simp only: nth_take length_take min_less_iff_conj)
    have "isPinned (trimTail evicted) i" if "i < evictionCursor state" "i < length (slots (trimTail evicted))" for i
    proof (cases "i = length as")
      case True
      with that nth [of i] show ?thesis by (simp add: isPinned_def slot_at_def)
    next
      case False
      have "slots (trimTail evicted) ! i = slots state ! i"
        using nth [OF that(2)] False by (simp add: e nth_append nth_Cons')
      moreover have "isPinned state i" and "i < length (slots state)"
        using assms(2) that by (auto simp: cursor_ok_def)
      ultimately show ?thesis using that(2) by (simp add: isPinned_def slot_at_def)
    qed
    then show ?thesis
      by (simp add: cursor_ok_def trimTail_def Let_def evicted_def counted_def cleared_def isPinned_def)
  qed
  moreover have "tail_live (slots (trimTail evicted))"
    using popEmptyTail_last by (auto simp: tail_live_def slots)
  ultimately show "retention_inv policy (evictSlot policy state (length as))"
    using acc by (simp add: retention_inv_def evict)
  show "truncated (evictSlot policy state (length as))"
    by (simp add: evict trimTail_def Let_def evicted_def counted_def cleared_def)
qed

section \<open>The contract of a policy\<close>

definition within_limits :: "retention_policy \<Rightarrow> agent_turn_event list \<Rightarrow> bool" where
  "within_limits policy es \<longleftrightarrow> int (length es) \<le> maxEvents policy \<and>
     total_bytes policy es \<le> maxBytes policy \<and> int (card (threads_of es)) \<le> maxSubagentThreads policy"

abbreviation user_messages :: "agent_turn_event list \<Rightarrow> agent_turn_event list" where
  "user_messages \<equiv> filter is_user_message"

lemma exceedsLimits_iff:
  "accounts policy state es \<Longrightarrow> exceedsLimits policy state \<longleftrightarrow> \<not> within_limits policy es"
  by (auto simp: accounts_def exceedsLimits_def within_limits_def thread_table_size)

lemma threads_of_append [simp]: "threads_of (as @ bs) = threads_of as \<union> threads_of bs"
  by (auto simp: threads_of_def)

lemma threads_of_users: "\<forall>e \<in> set es. is_user_message e \<Longrightarrow> threads_of es = {}"
  by (auto simp: threads_of_def user_message_no_thread)

text \<open>
  The kinds that are never merged with another event: everything but coalescible text and the
  four kinds of state snapshots. A settled event leaves the window only by eviction.
\<close>

definition is_settled :: "agent_turn_event \<Rightarrow> bool" where
  "is_settled event \<longleftrightarrow> \<not> isAgentTurnCoalescibleTextEvent event \<and>
     (case event of
        BackgroundTask _ \<Rightarrow> False | Subagent _ \<Rightarrow> False | SubagentUsage _ _ \<Rightarrow> False
      | ContextUsage _ \<Rightarrow> False | _ \<Rightarrow> True)"

lemma user_message_settled: "is_user_message e \<Longrightarrow> is_settled e"
  by (cases e) (simp_all add: is_settled_def)

lemma merge_not_settled:
  "mergeSupersededAgentTurnEvent previous event = Some merged \<Longrightarrow>
     \<not> is_settled previous \<and> \<not> is_settled merged"
  by (elim merge_SomeE) (auto simp: is_settled_def split: if_splits)

lemma merge_not_settled_next:
  "mergeSupersededAgentTurnEvent previous event = Some merged \<Longrightarrow> \<not> is_settled event"
  by (elim merge_SomeE) (auto simp: is_settled_def split: if_splits)

lemma withIds_settled:
  "is_settled (withAgentTurnSubagentIds event ids) = is_settled event"
  "is_settled event \<Longrightarrow> withAgentTurnSubagentIds event ids = event"
  by (cases event; simp add: is_settled_def)+

lemma place_settled:
  "is_settled (placed_event (index_place ix event)) = is_settled event"
  "is_settled event \<Longrightarrow> placed_event (index_place ix event) = event"
  using ix.place_ids [of ix event] withIds_settled by metis+

text \<open>One accepted event, before the limits are enforced.\<close>

definition settles :: "(agent_turn_event \<Rightarrow> bool) \<Rightarrow> bool" where
  "settles K \<longleftrightarrow> (\<forall>e. K e \<longrightarrow> is_settled e)"

lemma replaceSlot_spec:
  assumes inv: "retention_inv policy state" and e: "slot_at (slots state) i = Some e"
    and thread: "event_agentThreadId e' = event_agentThreadId e"
    and settled: "\<not> is_settled e" "\<not> is_settled e'" and K: "settles K"
  shows "retention_inv policy (replaceSlot policy state i e e')"
    and "filter K (liveEvents (replaceSlot policy state i e e')) = filter K (liveEvents state)"
    and "truncated (replaceSlot policy state i e e') = truncated state"
    and "length (liveEvents (replaceSlot policy state i e e')) = length (liveEvents state)"
proof -
  obtain as bs where split: "slots state = as @ Some e # bs" "length as = i"
    using e by (rule slot_split)
  let ?state' = "replaceSlot policy state i e e'"
  have slots: "slots ?state' = as @ Some e' # bs"
    using split by (auto simp: replaceSlot_def list_update_append)
  have cursor: "evictionCursor ?state' = evictionCursor state" by (simp add: replaceSlot_def)
  have "\<not> is_user_message e" using settled(1) user_message_settled by blast
  then have "\<not> isPinned state i" using e by (simp add: isPinned_def)
  then have other: "j \<noteq> i" if "j < evictionCursor state" for j
    using inv that by (auto simp: retention_inv_def cursor_ok_def)
  have "cursor_ok ?state'"
  proof -
    have "isPinned ?state' j" if "j < evictionCursor state" for j
    proof -
      have "isPinned state j" using inv that by (simp add: retention_inv_def cursor_ok_def)
      moreover have "slot_at (slots ?state') j = slot_at (slots state) j"
        using other [OF that] split slots by (auto simp: slot_at_def nth_append nth_Cons')
      ultimately show ?thesis by (simp add: isPinned_def)
    qed
    then show ?thesis
      using inv split slots cursor by (simp add: cursor_ok_def retention_inv_def)
  qed
  moreover have "tail_live (slots ?state')"
    using inv split slots by (cases bs) (simp_all add: tail_live_def retention_inv_def)
  moreover have "accounts policy ?state' (live_of as @ e' # live_of bs)"
    by (rule accounts_replaceSlot [OF _ thread])
      (use inv split in \<open>simp add: retention_inv_def liveEvents_def\<close>)
  ultimately show "retention_inv policy ?state'"
    using slots by (simp add: retention_inv_def liveEvents_def)
  show "filter K (liveEvents ?state') = filter K (liveEvents state)"
    using settled K slots split by (auto simp: liveEvents_def settles_def)
  show "truncated ?state' = truncated state" by (simp add: replaceSlot_def)
  show "length (liveEvents ?state') = length (liveEvents state)"
    using slots split by (simp add: liveEvents_def)
qed

lemma append_spec:
  fixes e
  assumes inv: "retention_inv policy state"
  defines "state' \<equiv> adoptSlot policy (state\<lparr>slots := slots state @ [Some e]\<rparr>) e (length (slots state))"
  shows "retention_inv policy state'" and "liveEvents state' = liveEvents state @ [e]"
    and "truncated state' = truncated state"
proof -
  show live: "liveEvents state' = liveEvents state @ [e]"
    by (simp add: state'_def liveEvents_def)
  have "accounts policy (state\<lparr>slots := slots state @ [Some e]\<rparr>) (liveEvents state @ [])"
    using inv by (simp add: retention_inv_def accounts_def)
  then have "accounts policy state' (liveEvents state')"
    unfolding live unfolding state'_def by (rule accounts_adoptSlot)
  moreover have "cursor_ok state'"
    using inv
    by (auto simp: state'_def cursor_ok_def retention_inv_def isPinned_def slot_at_def nth_append)
  ultimately show "retention_inv policy state'"
    by (simp add: retention_inv_def tail_live_def) (simp add: state'_def)
  show "truncated state' = truncated state" by (simp add: state'_def)
qed

lemma last_slot: "xs \<noteq> [] \<Longrightarrow> last xs = Some e \<Longrightarrow> slot_at xs (length xs - 1) = Some e"
  by (simp add: slot_at_def last_conv_nth)

lemma coalesceIntoTail_SomeE:
  assumes "coalesceIntoTail policy state event = Some state'"
  obtains tail c where "slot_at (slots state) (length (slots state) - 1) = Some tail"
    and "coalesceText policy (Some tail) event = Some c"
    and "state' = replaceSlot policy state (length (slots state) - 1) tail c"
proof -
  from assms obtain tail c where "slots state \<noteq> []" and "last (slots state) = Some tail"
    and "coalesceText policy (Some tail) event = Some c"
    and "state' = replaceSlot policy state (length (slots state) - 1) tail c"
    by (auto simp: coalesceIntoTail_def split: list.splits option.splits if_splits)
  with that last_slot show ?thesis by blast
qed

lemma supersedeInPlace_SomeE:
  assumes "supersedeInPlace policy state placement = Some state'"
  obtains i previous merged where "slot_at (slots state) i = Some previous"
    and "mergeSupersededAgentTurnEvent previous (placed_event placement) = Some merged"
    and "state' = replaceSlot policy state i previous merged"
  using assms by (auto simp: supersedeInPlace_def split: option.splits if_splits)

definition entered ::
  "retention_policy \<Rightarrow> retention_state \<Rightarrow> agent_turn_event \<Rightarrow> retention_state" where
  "entered policy state event =
     (case coalesceIntoTail policy state event of
        Some state' \<Rightarrow> state'
      | None \<Rightarrow> placeEvent_ret policy state (index_place (snapshots state) event))"

text \<open>
  What the retention relies on in a policy: the limits are not negative, and coalescing joins
  text events of one subagent thread into one.
\<close>

locale retention_laws =
  fixes policy :: retention_policy
  assumes limits: "0 \<le> maxEvents policy" "0 \<le> maxBytes policy" "0 \<le> maxSubagentThreads policy"
    and coalesce_thread: "coalesceText policy (Some l) n = Some c \<Longrightarrow>
      event_agentThreadId c = event_agentThreadId l"
    and coalesce_text: "coalesceText policy (Some l) n = Some c \<Longrightarrow>
      isAgentTurnCoalescibleTextEvent l \<and> isAgentTurnCoalescibleTextEvent n \<and>
      isAgentTurnCoalescibleTextEvent c"
begin

lemma coalesce_not_settled:
  "coalesceText policy (Some l) n = Some c \<Longrightarrow> \<not> is_settled l \<and> \<not> is_settled n \<and> \<not> is_settled c"
  using coalesce_text by (auto simp: is_settled_def)

lemma within_limits_Nil: "within_limits policy []"
  using limits by (simp add: within_limits_def threads_of_def)

text \<open>One eviction: a user message is the victim only when nothing else is live.\<close>

lemma evict_step:
  assumes inv: "retention_inv policy state" and victim: "nextVictimSlot state = (state', Some v)"
  shows "retention_inv policy (evictSlot policy state' v)"
    and "truncated (evictSlot policy state' v)"
    and "\<exists>as e bs. liveEvents state = as @ e # bs \<and>
      liveEvents (evictSlot policy state' v) = as @ bs \<and>
      (is_user_message e \<longrightarrow> (\<forall>x \<in> set (liveEvents state). is_user_message x))"
proof -
  have cursor: "cursor_ok state" using inv by (simp add: retention_inv_def)
  note next_victim = nextVictimSlot_spec [OF cursor victim]
  have slots: "slots state' = slots state" by (subst next_victim(2)) simp
  have acc: "accounts policy state' (liveEvents state')"
    using inv slots by (subst next_victim(2)) (simp add: retention_inv_def accounts_def liveEvents_def)
  have v: "v < length (slots state)" and
    pin: "\<not> isPinned state v \<or> (v = length (slots state) - 1 \<and> (\<forall>i < length (slots state). isPinned state i))"
    using next_victim(4) by auto
  have "slot_at (slots state) v \<noteq> None"
  proof (cases "isPinned state v")
    case True
    then have "v = length (slots state) - 1" using pin by blast
    moreover have "slots state \<noteq> []" using v by auto
    moreover have "tail_live (slots state)" using inv by (simp add: retention_inv_def)
    ultimately show ?thesis by (simp add: slot_at_def tail_live_def last_conv_nth)
  qed (auto simp: isPinned_def split: option.splits)
  then obtain e where e: "slot_at (slots state) v = Some e" by blast
  then obtain as bs where split: "slots state = as @ Some e # bs" "length as = v" by (rule slot_split)
  have split': "slots state' = as @ Some e # bs" using split slots by simp
  note evict = evictSlot_spec [OF acc next_victim(1) split', unfolded split(2)]
  show "retention_inv policy (evictSlot policy state' v)" and "truncated (evictSlot policy state' v)"
    by (rule evict(1)) (rule evict(3))
  have "is_user_message e \<longrightarrow> (\<forall>x \<in> set (liveEvents state). is_user_message x)"
  proof
    assume "is_user_message e"
    then have "isPinned state v" using e by (simp add: isPinned_def)
    then have pinned: "\<forall>i < length (slots state). isPinned state i" using pin by blast
    show "\<forall>x \<in> set (liveEvents state). is_user_message x"
    proof
      fix x assume "x \<in> set (liveEvents state)"
      then have "Some x \<in> set (slots state)" by (simp add: liveEvents_def set_live_of)
      then obtain i where "i < length (slots state)" "slots state ! i = Some x"
        by (auto simp: in_set_conv_nth)
      with pinned show "is_user_message x" by (auto simp: isPinned_def slot_at_def)
    qed
  qed
  with evict(2) split show "\<exists>as e bs. liveEvents state = as @ e # bs \<and>
      liveEvents (evictSlot policy state' v) = as @ bs \<and>
      (is_user_message e \<longrightarrow> (\<forall>x \<in> set (liveEvents state). is_user_message x))"
    by (intro exI [of _ "live_of as"] exI [of _ e] exI [of _ "live_of bs"]) (simp add: liveEvents_def)
qed

text \<open>
  The eviction loop always returns, within the limits, and keeps the order of what is left.
\<close>

lemma enforceLimits_spec:
  assumes "retention_inv policy state"
  shows "\<exists>state'. enforceLimits policy state = Some state' \<and> retention_inv policy state' \<and>
    within_limits policy (liveEvents state') \<and>
    subseq (liveEvents state') (liveEvents state) \<and>
    (truncated state \<longrightarrow> truncated state') \<and>
    (liveEvents state' = liveEvents state \<or> truncated state') \<and>
    (within_limits policy (user_messages (liveEvents state)) \<longrightarrow>
       user_messages (liveEvents state') = user_messages (liveEvents state))"
  using assms
proof (induction "length (liveEvents state)" arbitrary: state rule: less_induct)
  case less
  have acc: "accounts policy state (liveEvents state)" using less.prems by (simp add: retention_inv_def)
  show ?case
  proof (cases "exceedsLimits policy state")
    case False
    then have "enforceLimits policy state = Some state" by (subst enforceLimits.simps) simp
    with False less.prems exceedsLimits_iff [OF acc] show ?thesis by auto
  next
    case True
    obtain state1 victim where nv: "nextVictimSlot state = (state1, victim)" by force
    have cursor: "cursor_ok state" using less.prems by (simp add: retention_inv_def)
    have "victim \<noteq> None"
    proof
      assume "victim = None"
      then have "slots state = []" by (rule nextVictimSlot_spec(3) [OF cursor nv])
      with True exceedsLimits_iff [OF acc] within_limits_Nil show False by (simp add: liveEvents_def)
    qed
    then obtain v where v: "victim = Some v" by blast
    let ?evicted = "evictSlot policy state1 v"
    note step = evict_step [OF less.prems nv [unfolded v]]
    obtain as e bs where live: "liveEvents state = as @ e # bs" "liveEvents ?evicted = as @ bs"
      and user: "is_user_message e \<longrightarrow> (\<forall>x \<in> set (liveEvents state). is_user_message x)"
      using step(3) by blast
    have "length (liveEvents ?evicted) < length (liveEvents state)" using live by simp
    from less.hyps [OF this step(1)] obtain state' where IH:
      "enforceLimits policy ?evicted = Some state'" "retention_inv policy state'"
      "within_limits policy (liveEvents state')" "subseq (liveEvents state') (as @ bs)"
      "truncated state'"
      "within_limits policy (user_messages (as @ bs)) \<longrightarrow>
         user_messages (liveEvents state') = user_messages (as @ bs)"
      using step(2) live by auto
    have "enforceLimits policy state = Some state'"
      using True IH(1) by (subst enforceLimits.simps) (simp add: nv v)
    moreover have "subseq (liveEvents state') (liveEvents state)"
      using IH(4) live(1) by (metis list_emb_append_mono subseq_Cons' subseq_order.order_refl
          subseq_order.order_trans subseq_order.refl)
    moreover have "user_messages (liveEvents state') = user_messages (liveEvents state)"
      if within: "within_limits policy (user_messages (liveEvents state))"
    proof -
      have "\<not> is_user_message e"
      proof
        assume "is_user_message e"
        with user have "user_messages (liveEvents state) = liveEvents state"
          by (simp add: filter_id_conv)
        with within True exceedsLimits_iff [OF acc] show False by simp
      qed
      with within IH(6) live show ?thesis by simp
    qed
    ultimately show ?thesis using IH by blast
  qed
qed

lemma entered_spec:
  assumes inv: "retention_inv policy state" and K: "settles K"
  shows "retention_inv policy (entered policy state event)"
    and "filter K (liveEvents (entered policy state event)) = filter K (liveEvents state @ [event])"
    and "truncated (entered policy state event) = truncated state"
proof -
  let ?place = "index_place (snapshots state) event"
  have "retention_inv policy (entered policy state event) \<and>
    filter K (liveEvents (entered policy state event)) = filter K (liveEvents state @ [event]) \<and>
    truncated (entered policy state event) = truncated state"
  proof (cases "coalesceIntoTail policy state event")
    case (Some state')
    then obtain tail c where tail: "slot_at (slots state) (length (slots state) - 1) = Some tail"
      and c: "coalesceText policy (Some tail) event = Some c"
      and state': "state' = replaceSlot policy state (length (slots state) - 1) tail c"
      by (rule coalesceIntoTail_SomeE)
    have ns: "\<not> is_settled tail" "\<not> is_settled event" "\<not> is_settled c"
      using coalesce_not_settled [OF c] by blast+
    note replaceSlot_spec [OF inv tail coalesce_thread [OF c] ns(1,3) K]
    with ns(2) K Some show ?thesis by (auto simp: entered_def state' settles_def)
  next
    case no_text: None
    show ?thesis
    proof (cases "supersedeInPlace policy state ?place")
      case (Some state')
      then obtain i previous merged where previous: "slot_at (slots state) i = Some previous"
        and merged: "mergeSupersededAgentTurnEvent previous (placed_event ?place) = Some merged"
        and state': "state' = replaceSlot policy state i previous merged"
        by (rule supersedeInPlace_SomeE)
      have ns: "\<not> is_settled previous" "\<not> is_settled merged" "\<not> is_settled event"
        using merge_not_settled [OF merged] merge_not_settled_next [OF merged]
        by (simp_all add: place_settled)
      note replaceSlot_spec [OF inv previous merge_keeps_thread [OF merged, THEN conjunct1] ns(1,2) K]
      with ns(3) K Some no_text show ?thesis
        by (auto simp: entered_def placeEvent_ret_def state' settles_def)
    next
      case None
      have "filter K [placed_event ?place] = filter K [event]"
        using place_settled(1) [of "snapshots state" event]
          place_settled(2) [of event "snapshots state"] K by (auto simp: settles_def)
      with append_spec [OF inv, of "placed_event ?place"] None no_text show ?thesis
        by (simp add: entered_def placeEvent_ret_def)
    qed
  qed
  then show "retention_inv policy (entered policy state event)"
    and "filter K (liveEvents (entered policy state event)) = filter K (liveEvents state @ [event])"
    and "truncated (entered policy state event) = truncated state" by blast+
qed

lemma acceptEvent_entered:
  "acceptEvent policy state event =
     (if int (eventBytes policy event) > maxBytes policy then Some (state\<lparr>truncated := True\<rparr>)
      else enforceLimits policy (entered policy state event))"
  by (simp add: acceptEvent_def entered_def Let_def)

lemma retention_inv_truncated:
  "retention_inv policy state \<Longrightarrow> retention_inv policy (state\<lparr>truncated := True\<rparr>)"
  by (simp add: retention_inv_def accounts_def liveEvents_def cursor_ok_def isPinned_def)

definition fits :: "agent_turn_event \<Rightarrow> bool" where
  "fits event \<longleftrightarrow> int (eventBytes policy event) \<le> maxBytes policy"

text \<open>One accepted event, with the limits enforced.\<close>

lemma acceptEvent_spec:
  assumes inv: "retention_inv policy state"
  shows "\<exists>state'. acceptEvent policy state event = Some state' \<and> retention_inv policy state' \<and>
    (within_limits policy (liveEvents state) \<or> fits event \<longrightarrow>
       within_limits policy (liveEvents state')) \<and>
    (truncated state \<or> \<not> fits event \<longrightarrow> truncated state') \<and>
    (\<not> truncated state' \<longrightarrow>
       filter is_settled (liveEvents state') = filter is_settled (liveEvents state @ [event])) \<and>
    (within_limits policy (user_messages (liveEvents state @ filter fits [event])) \<longrightarrow>
       user_messages (liveEvents state') = user_messages (liveEvents state @ filter fits [event]))"
proof (cases "fits event")
  case False
  then have "acceptEvent policy state event = Some (state\<lparr>truncated := True\<rparr>)"
    by (simp add: acceptEvent_entered fits_def)
  with False retention_inv_truncated [OF inv] show ?thesis by (simp add: liveEvents_def)
next
  case True
  have K: "settles is_settled" "settles is_user_message"
    using user_message_settled by (auto simp: settles_def)
  note settled = entered_spec [OF inv K(1), of event] and user = entered_spec [OF inv K(2), of event]
  obtain state' where state': "enforceLimits policy (entered policy state event) = Some state'"
    and e: "retention_inv policy state'" "within_limits policy (liveEvents state')"
    "truncated (entered policy state event) \<longrightarrow> truncated state'"
    "liveEvents state' = liveEvents (entered policy state event) \<or> truncated state'"
    "within_limits policy (user_messages (liveEvents (entered policy state event))) \<longrightarrow>
       user_messages (liveEvents state') = user_messages (liveEvents (entered policy state event))"
    using enforceLimits_spec [OF settled(1)] by blast
  have "acceptEvent policy state event = Some state'"
    using True state' by (simp add: acceptEvent_entered fits_def)
  with e settled user True show ?thesis by auto
qed

lemma within_users_append:
  assumes "within_limits policy (user_messages (as @ bs))"
  shows "within_limits policy (user_messages as)"
proof -
  have threads: "threads_of (user_messages es) = {}" for es by (rule threads_of_users) simp
  have "0 \<le> total_bytes policy es" for es by (induction es) simp_all
  from this [of "user_messages bs"] assms threads show ?thesis
    by (auto simp: within_limits_def)
qed

text \<open>The loop over the incoming events.\<close>

lemma acceptEvents_spec:
  assumes "retention_inv policy state"
  shows "\<exists>state'. acceptEvents policy state incoming = Some state' \<and> retention_inv policy state' \<and>
    (within_limits policy (liveEvents state) \<or> (\<exists>e \<in> set incoming. fits e) \<longrightarrow>
       within_limits policy (liveEvents state')) \<and>
    (truncated state \<or> (\<exists>e \<in> set incoming. \<not> fits e) \<longrightarrow> truncated state') \<and>
    (\<not> truncated state' \<longrightarrow>
       filter is_settled (liveEvents state') = filter is_settled (liveEvents state @ incoming)) \<and>
    (within_limits policy (user_messages (liveEvents state @ filter fits incoming)) \<longrightarrow>
       user_messages (liveEvents state') = user_messages (liveEvents state @ filter fits incoming))"
  using assms
proof (induction incoming arbitrary: state)
  case Nil
  then show ?case by auto
next
  case (Cons event incoming)
  obtain mid where mid: "acceptEvent policy state event = Some mid" "retention_inv policy mid"
    and m: "within_limits policy (liveEvents state) \<or> fits event \<longrightarrow> within_limits policy (liveEvents mid)"
    "truncated state \<or> \<not> fits event \<longrightarrow> truncated mid"
    "\<not> truncated mid \<longrightarrow> filter is_settled (liveEvents mid) = filter is_settled (liveEvents state @ [event])"
    "within_limits policy (user_messages (liveEvents state @ filter fits [event])) \<longrightarrow>
       user_messages (liveEvents mid) = user_messages (liveEvents state @ filter fits [event])"
    using acceptEvent_spec [OF Cons.prems] by blast
  obtain state' where state': "acceptEvents policy mid incoming = Some state'"
    "retention_inv policy state'"
    and s: "within_limits policy (liveEvents mid) \<or> (\<exists>e \<in> set incoming. fits e) \<longrightarrow>
      within_limits policy (liveEvents state')"
    "truncated mid \<or> (\<exists>e \<in> set incoming. \<not> fits e) \<longrightarrow> truncated state'"
    "\<not> truncated state' \<longrightarrow>
       filter is_settled (liveEvents state') = filter is_settled (liveEvents mid @ incoming)"
    "within_limits policy (user_messages (liveEvents mid @ filter fits incoming)) \<longrightarrow>
       user_messages (liveEvents state') = user_messages (liveEvents mid @ filter fits incoming)"
    using Cons.IH [OF mid(2)] by blast
  have "acceptEvents policy state (event # incoming) = Some state'"
    using mid(1) state'(1) by simp
  moreover have "user_messages (liveEvents state') =
      user_messages (liveEvents state @ filter fits (event # incoming))"
    if within: "within_limits policy (user_messages (liveEvents state @ filter fits (event # incoming)))"
  proof -
    have split: "filter fits (event # incoming) = filter fits [event] @ filter fits incoming" by simp
    have "user_messages (liveEvents mid) = user_messages (liveEvents state @ filter fits [event])"
      by (rule m(4) [rule_format],
          rule within_users_append [of _ "filter fits incoming"])
        (use within in \<open>simp only: split append_assoc\<close>)
    then have "user_messages (liveEvents mid @ filter fits incoming) =
        user_messages (liveEvents state @ filter fits (event # incoming))"
      unfolding split by simp
    with s(4) within show ?thesis by simp
  qed
  moreover have "filter is_settled (liveEvents state') =
      filter is_settled (liveEvents state @ event # incoming)" if "\<not> truncated state'"
  proof -
    have "\<not> truncated mid" using that s(2) by blast
    with that m(3) s(3) show ?thesis by simp
  qed
  ultimately show ?case using state'(2) m(1,2) s(1,2) by (intro exI [of _ state']) auto
qed

lemma adoptSlots_frame [simp]:
  "slots (adoptSlots policy state es i) = slots state"
  "evictionCursor (adoptSlots policy state es i) = evictionCursor state"
  "truncated (adoptSlots policy state es i) = truncated state"
  by (induction es arbitrary: state i) simp_all

lemma accounts_adoptSlots:
  "accounts policy state as \<Longrightarrow> accounts policy (adoptSlots policy state es i) (as @ es)"
proof (induction es arbitrary: state as i)
  case Nil
  then show ?case by simp
next
  case (Cons e es)
  then have "accounts policy (adoptSlot policy state e i) (as @ [e])"
    using accounts_adoptSlot [of policy state as "[]" e i] by simp
  from Cons.IH [OF this] show ?case by simp
qed

lemma adopted_inv:
  "retention_inv policy (adoptSlots policy (initial_state existing ix) existing 0)"
  "liveEvents (adoptSlots policy (initial_state existing ix) existing 0) = existing"
proof -
  have "accounts policy (initial_state existing ix) []"
    by (simp add: accounts_def initial_state_def thread_table_def)
  from accounts_adoptSlots [OF this]
  have "accounts policy (adoptSlots policy (initial_state existing ix) existing 0) existing" by simp
  then show "retention_inv policy (adoptSlots policy (initial_state existing ix) existing 0)"
    by (auto simp: retention_inv_def liveEvents_def cursor_ok_def tail_live_def initial_state_def last_map)
  show "liveEvents (adoptSlots policy (initial_state existing ix) existing 0) = existing"
    by (simp add: liveEvents_def initial_state_def)
qed

text \<open>
  The contract of the retention: it returns, within the limits, and it only loses settled
  events when it says so. User messages outlive every other event.
\<close>

lemma retain_spec:
  "\<exists>result. retain policy existing incoming ix = Some result \<and>
     (incoming = [] \<longrightarrow> retained_events result = existing \<and> \<not> retained_truncated result) \<and>
     (within_limits policy existing \<or> (\<exists>e \<in> set incoming. fits e) \<longrightarrow>
        within_limits policy (retained_events result)) \<and>
     ((\<exists>e \<in> set incoming. \<not> fits e) \<longrightarrow> retained_truncated result) \<and>
     (\<not> retained_truncated result \<longrightarrow>
        filter is_settled (retained_events result) = filter is_settled (existing @ incoming)) \<and>
     (within_limits policy (user_messages (existing @ filter fits incoming)) \<longrightarrow>
        user_messages (retained_events result) = user_messages (existing @ filter fits incoming))"
proof (cases "incoming = []")
  case True
  then show ?thesis by (simp add: retain_def)
next
  case False
  note adopted = adopted_inv [of existing ix]
  have "truncated (adoptSlots policy (initial_state existing ix) existing 0) = False"
    by (simp add: initial_state_def)
  with acceptEvents_spec [OF adopted(1), of incoming] adopted(2) False
  show ?thesis by (fastforce simp: retain_def Let_def)
qed

text \<open>
  A window that fits and has no pair of neighbours to coalesce is accepted as it is, when no
  snapshot is indexed.
\<close>

lemma within_limits_prefix:
  assumes "within_limits policy (as @ bs)"
  shows "within_limits policy as"
proof -
  have "0 \<le> total_bytes policy bs" by (induction bs) simp_all
  moreover have finite: "finite (threads_of es)" for es
  proof (rule finite_surj)
    show "threads_of es \<subseteq> (\<lambda>e. the (event_agentThreadId e)) ` set es"
      by (force simp: threads_of_def)
  qed simp
  moreover have "card (threads_of as) \<le> card (threads_of as \<union> threads_of bs)"
    by (intro card_mono) (simp_all add: finite)
  ultimately show ?thesis using assms by (auto simp: within_limits_def)
qed

lemma within_limits_fits: "within_limits policy es \<Longrightarrow> e \<in> set es \<Longrightarrow> fits e"
proof (induction es rule: rev_induct)
  case (snoc x xs)
  have "0 \<le> total_bytes policy xs" by (induction xs) simp_all
  then have "fits x" using snoc.prems(1) by (simp add: within_limits_def fits_def)
  with snoc.IH [OF within_limits_prefix [OF snoc.prems(1)]] snoc.prems(2) show ?case by auto
qed simp

definition settled_window :: "agent_turn_event list \<Rightarrow> bool" where
  "settled_window es \<longleftrightarrow> within_limits policy es \<and>
     successively (\<lambda>a b. coalesceText policy (Some a) b = None) es"

lemma settled_window_prefix: "settled_window (as @ bs) \<Longrightarrow> settled_window as"
  using within_limits_prefix by (auto simp: settled_window_def successively_append_iff)

lemma acceptEvent_settled:
  assumes inv: "retention_inv policy state" and slots: "slots state = map Some as"
    and inert: "snapshots state = Inert" and window: "settled_window (as @ [e])"
  obtains state' where "acceptEvent policy state e = Some state'" and "retention_inv policy state'"
    and "slots state' = map Some (as @ [e])" and "snapshots state' = Inert"
    and "truncated state' = truncated state"
proof
  let ?state' = "adoptSlot policy (state\<lparr>slots := slots state @ [Some e]\<rparr>) e (length (slots state))"
  have "coalesceIntoTail policy state e = None"
  proof (cases as rule: rev_cases)
    case Nil
    then show ?thesis by (simp add: coalesceIntoTail_def slots)
  next
    case (snoc ys y)
    then have "slots state \<noteq> []" and "last (slots state) = Some y"
      and "coalesceText policy (Some y) e = None"
      using window by (simp_all add: slots settled_window_def successively_append_iff)
    then show ?thesis by (auto simp: coalesceIntoTail_def neq_Nil_conv)
  qed
  then have entered: "entered policy state e = ?state'"
    by (simp add: entered_def placeEvent_ret_def inert supersedeInPlace_def)
  note append = append_spec [OF inv, of e]
  have live: "liveEvents ?state' = as @ [e]" using append(2) by (simp add: liveEvents_def slots)
  have "\<not> exceedsLimits policy ?state'"
    using append(1) exceedsLimits_iff [of policy ?state' "as @ [e]"] window live
    by (simp add: retention_inv_def settled_window_def)
  then have "enforceLimits policy ?state' = Some ?state'" by (subst enforceLimits.simps) simp
  moreover have "fits e"
    by (rule within_limits_fits [of "as @ [e]"]) (use window in \<open>simp_all add: settled_window_def\<close>)
  ultimately show "acceptEvent policy state e = Some ?state'"
    by (simp add: acceptEvent_entered entered fits_def)
  show "retention_inv policy ?state'" and "truncated ?state' = truncated state" by (rule append)+
  show "slots ?state' = map Some (as @ [e])" by (simp add: slots)
  show "snapshots ?state' = Inert" by (simp add: adoptSlot_def Let_def inert)
qed

lemma acceptEvents_settled:
  assumes "retention_inv policy state" and "slots state = map Some as"
    and "snapshots state = Inert" and "settled_window (as @ bs)"
  shows "\<exists>state'. acceptEvents policy state bs = Some state' \<and> liveEvents state' = as @ bs \<and>
    truncated state' = truncated state"
  using assms
proof (induction bs arbitrary: state as)
  case Nil
  then show ?case by (simp add: liveEvents_def)
next
  case (Cons b bs)
  have window: "settled_window (as @ [b])"
    using Cons.prems(4) settled_window_prefix [of "as @ [b]" bs] by simp
  obtain mid where mid: "acceptEvent policy state b = Some mid" "retention_inv policy mid"
    "slots mid = map Some (as @ [b])" "snapshots mid = Inert" "truncated mid = truncated state"
    using acceptEvent_settled [OF Cons.prems(1-3) window] by metis
  from Cons.IH [OF mid(2-4)] Cons.prems(4) mid(1,5) show ?case by simp
qed

lemma adoptSlots_inert:
  "snapshots state = Inert \<Longrightarrow> snapshots (adoptSlots policy state es i) = Inert"
  by (induction es arbitrary: state i) (simp_all add: adoptSlot_def Let_def)

lemma retain_settled_window:
  assumes "settled_window (existing @ incoming)"
  shows "retain policy existing incoming Inert =
    Some \<lparr>retained_events = existing @ incoming, retained_truncated = False\<rparr>"
proof -
  let ?adopted = "adoptSlots policy (initial_state existing Inert) existing 0"
  have "slots ?adopted = map Some existing" and "snapshots ?adopted = Inert"
    by (simp_all add: initial_state_def adoptSlots_inert)
  from acceptEvents_settled [OF adopted_inv(1) this assms]
  show ?thesis by (auto simp: retain_def Let_def initial_state_def)
qed

end

end
