(* ===== verification/Merge.thy ===== *)
theory Merge
  imports Retention
begin

text \<open>
  The retention policy of a turn, \<open>packages/agent-events/src/agentTurnEventMerge.ts\<close>:
  the UTF-8 size of an event, the coalescing of streamed text, and the two entry points that
  instantiate the retention. The two \<open>WeakMap\<close> caches are modelled by the entry an
  event finds there (\<open>None\<close> when there is none); a lemma shows that an entry the code
  writes never changes an answer, so the entry points leave the caches out.
\<close>

section \<open>The strings of an event\<close>

fun spawn_status_string :: "spawn_status \<Rightarrow> js_string" where
  "spawn_status_string SpawnInProgress = js ''inProgress''"
| "spawn_status_string SpawnCompleted = js ''completed''"
| "spawn_status_string SpawnFailed = js ''failed''"
| "spawn_status_string SpawnInterrupted = js ''interrupted''"

fun spawn_effort_string :: "spawn_effort \<Rightarrow> js_string" where
  "spawn_effort_string EffortNone = js ''none''"
| "spawn_effort_string EffortMinimal = js ''minimal''"
| "spawn_effort_string EffortLow = js ''low''"
| "spawn_effort_string EffortMedium = js ''medium''"
| "spawn_effort_string EffortHigh = js ''high''"
| "spawn_effort_string EffortXhigh = js ''xhigh''"

fun activity_string :: "subagent_activity \<Rightarrow> js_string" where
  "activity_string Started = js ''started''"
| "activity_string Interacted = js ''interacted''"
| "activity_string Interrupted = js ''interrupted''"
| "activity_string Completed = js ''completed''"

fun background_type_string :: "background_type \<Rightarrow> js_string" where
  "background_type_string BgMonitor = js ''monitor''"
| "background_type_string BgShell = js ''shell''"
| "background_type_string BgAgent = js ''agent''"
| "background_type_string BgOther = js ''other''"

fun definedStrings :: "js_string option list \<Rightarrow> js_string list" where
  "definedStrings [] = []"
| "definedStrings (None # values) = definedStrings values"
| "definedStrings (Some value # values) = value # definedStrings values"

text \<open>\<open>text ?? ""\<close>.\<close>

definition or_empty :: "js_string option \<Rightarrow> js_string" where
  "or_empty value = (case value of None \<Rightarrow> [] | Some text \<Rightarrow> text)"

fun location_storedPath :: "attachment_location \<Rightarrow> js_string option" where
  "location_storedPath (StoredPath path) = Some path"
| "location_storedPath (RemoteAttachment _ _) = None"

fun agentAttachmentStrings :: "agent_attachment \<Rightarrow> js_string list" where
  "agentAttachmentStrings (ImageAttachment _ name _ _ _ _ location) =
     definedStrings [Some name, location_storedPath location]"
| "agentAttachmentStrings (FileAttachment _ name _ location) =
     definedStrings [Some name, location_storedPath location]"
| "agentAttachmentStrings (ReferenceAttachment name path _) = definedStrings [Some name, Some path]"

fun agentTurnEventStrings :: "agent_turn_event \<Rightarrow> js_string list" where
  "agentTurnEventStrings (SubagentActivity thread path activity) =
     [thread, path, activity_string activity]"
| "agentTurnEventStrings (SubagentEvent thread event) = thread # agentTurnEventStrings event"
| "agentTurnEventStrings (SubagentUsage thread _) = [thread]"
| "agentTurnEventStrings (SubagentTurnDone thread _ _) = [thread]"
| "agentTurnEventStrings (SubagentSpawn event) =
     [ss_callId event, spawn_status_string (ss_status event), or_empty (ss_taskTitle event),
      or_empty (ss_model event),
      or_empty (map_option spawn_effort_string (ss_reasoningEffort event))] @
     ss_agentThreadIds event"
| "agentTurnEventStrings (Queued thread clientUserMessageId) = [thread, or_empty clientUserMessageId]"
| "agentTurnEventStrings (ToolCall event) =
     definedStrings [Some (tc_toolId event), Some (tc_name event), Some (tc_inputSummary event),
       tc_description event, tc_parentToolId event]"
| "agentTurnEventStrings (ToolResult event) =
     definedStrings [Some (tr_toolId event), Some (tr_outputSummary event), tr_parentToolId event]"
| "agentTurnEventStrings (BackgroundTask event) =
     definedStrings [Some (bt_taskId event), Some (background_type_string (bt_taskType event)),
       bt_description event]"
| "agentTurnEventStrings (Subagent event) =
     definedStrings [sub_toolId event, sub_taskId event, sub_subagentType event,
       sub_description event, sub_lastToolName event]"
| "agentTurnEventStrings (ErrorEvent message) = [message]"
| "agentTurnEventStrings (UnknownLine _ raw _) = [raw]"
| "agentTurnEventStrings (UserMessage event) =
     um_text event #
     concat (map agentAttachmentStrings
       (case um_attachments event of None \<Rightarrow> [] | Some attachments \<Rightarrow> attachments))"
| "agentTurnEventStrings (ContextUsage event) = [cu_model event]"
| "agentTurnEventStrings (ContextCompactionStatus _ message) =
     (case message of None \<Rightarrow> [] | Some text \<Rightarrow> [text])"
| "agentTurnEventStrings (ContextCompaction _ _) = []"
| "agentTurnEventStrings (AssistantText text parent) = definedStrings [Some text, parent]"
| "agentTurnEventStrings (Reasoning text parent) = definedStrings [Some text, parent]"
| "agentTurnEventStrings (Result event) = [res_text event]"

section \<open>Byte states\<close>

record agent_text_byte_state =
  byteLength :: int
  state_text :: js_string
  trailingHighSurrogate :: bool

record agent_event_byte_state =
  event_byteLength :: nat
  event_values :: "js_string list"

definition encoded_length :: "js_string \<Rightarrow> nat" where
  "encoded_length text = length (utf8_encode text)"

definition computed_text_state :: "js_string \<Rightarrow> agent_text_byte_state" where
  "computed_text_state text =
     \<lparr>byteLength = int (encoded_length text), state_text = text,
      trailingHighSurrogate = endsWithHighSurrogate text\<rparr>"

text \<open>The first argument is the entry of the cache for the event.\<close>

definition agentTextEventByteState ::
  "agent_text_byte_state option \<Rightarrow> js_string \<Rightarrow> agent_text_byte_state" where
  "agentTextEventByteState cached text =
     (case cached of
        Some state \<Rightarrow> if state_text state = text then state else computed_text_state text
      | None \<Rightarrow> computed_text_state text)"

fun sameStrings :: "js_string list \<Rightarrow> js_string list \<Rightarrow> bool" where
  "sameStrings [] [] = True"
| "sameStrings (x # xs) (y # ys) = (x = y \<and> sameStrings xs ys)"
| "sameStrings _ _ = False"

definition string_bytes :: "agent_event_byte_state option \<Rightarrow> js_string list \<Rightarrow> nat" where
  "string_bytes cached values =
     (let computed = foldl (\<lambda>total value. total + encoded_length value) 0 values
      in case cached of
           Some state \<Rightarrow>
             if sameStrings (event_values state) values then event_byteLength state else computed
         | None \<Rightarrow> computed)"

definition agentTurnEventUtf8Bytes_cached ::
  "agent_text_byte_state option \<Rightarrow> agent_event_byte_state option \<Rightarrow> agent_turn_event \<Rightarrow> nat" where
  "agentTurnEventUtf8Bytes_cached text_cache event_cache event =
     (case event of
        AssistantText text parent \<Rightarrow>
          nat (byteLength (agentTextEventByteState text_cache text)) +
          (case parent of None \<Rightarrow> 0 | Some tool \<Rightarrow> encoded_length tool)
      | Reasoning text parent \<Rightarrow>
          nat (byteLength (agentTextEventByteState text_cache text)) +
          (case parent of None \<Rightarrow> 0 | Some tool \<Rightarrow> encoded_length tool)
      | Result result \<Rightarrow> nat (byteLength (agentTextEventByteState text_cache (res_text result)))
      | _ \<Rightarrow> string_bytes event_cache (agentTurnEventStrings event))"

definition agentTurnEventUtf8Bytes :: "agent_turn_event \<Rightarrow> nat" where
  "agentTurnEventUtf8Bytes event = agentTurnEventUtf8Bytes_cached None None event"

section \<open>Coalescing\<close>

definition repairsSplitScalar :: "agent_text_byte_state \<Rightarrow> js_string \<Rightarrow> bool" where
  "repairsSplitScalar lastState text \<longleftrightarrow>
     trailingHighSurrogate lastState \<and> startsWithLowSurrogate text"

text \<open>The state the code caches for the coalesced event, when it is within the limit.\<close>

definition coalesced_state ::
  "agent_text_byte_state \<Rightarrow> agent_text_byte_state \<Rightarrow> js_string \<Rightarrow> js_string \<Rightarrow>
     agent_text_byte_state option" where
  "coalesced_state lastState nextState lastText nextText =
     (let byteLength = byteLength lastState + byteLength nextState -
            (if repairsSplitScalar lastState nextText then 2 else 0)
      in if byteLength > int MAX_AGENT_EVENT_TEXT_BYTES then None
         else Some \<lparr>byteLength = byteLength, state_text = lastText @ nextText,
           trailingHighSurrogate =
             (if length nextText = 0 then trailingHighSurrogate lastState
              else endsWithHighSurrogate nextText)\<rparr>)"

definition coalesced_text :: "js_string \<Rightarrow> js_string \<Rightarrow> js_string option" where
  "coalesced_text lastText nextText =
     map_option state_text
       (coalesced_state (agentTextEventByteState None lastText)
         (agentTextEventByteState None nextText) lastText nextText)"

fun coalesce_events :: "agent_turn_event \<Rightarrow> agent_turn_event \<Rightarrow> agent_turn_event option" where
  "coalesce_events (SubagentEvent lastThread lastEvent) next =
     (case next of
        SubagentEvent nextThread nextEvent \<Rightarrow>
          if lastThread \<noteq> nextThread then None
          else (case coalesce_events lastEvent nextEvent of
                  Some (AssistantText text parent) \<Rightarrow>
                    Some (SubagentEvent nextThread (AssistantText text parent))
                | Some (Reasoning text parent) \<Rightarrow>
                    Some (SubagentEvent nextThread (Reasoning text parent))
                | _ \<Rightarrow> None)
      | _ \<Rightarrow> None)"
| "coalesce_events (AssistantText lastText lastParent) next =
     (case next of
        AssistantText nextText nextParent \<Rightarrow>
          if lastParent \<noteq> nextParent then None
          else map_option (\<lambda>text. AssistantText text nextParent) (coalesced_text lastText nextText)
      | _ \<Rightarrow> None)"
| "coalesce_events (Reasoning lastText lastParent) next =
     (case next of
        Reasoning nextText nextParent \<Rightarrow>
          if lastParent \<noteq> nextParent then None
          else map_option (\<lambda>text. Reasoning text nextParent) (coalesced_text lastText nextText)
      | _ \<Rightarrow> None)"
| "coalesce_events _ next = None"

definition coalesceAgentTextEvents ::
  "agent_turn_event option \<Rightarrow> agent_turn_event \<Rightarrow> agent_turn_event option" where
  "coalesceAgentTextEvents tail next =
     (case tail of None \<Rightarrow> None | Some event \<Rightarrow> coalesce_events event next)"

section \<open>The entry points\<close>

definition turnEventRetentionPolicy :: retention_policy where
  "turnEventRetentionPolicy =
     \<lparr>maxEvents = int MAX_AGENT_EVENTS_PER_TURN, maxBytes = int MAX_AGENT_EVENT_BYTES_PER_TURN,
      maxSubagentThreads = int MAX_SUBAGENT_THREADS_PER_TURN,
      eventBytes = agentTurnEventUtf8Bytes, coalesceText = coalesceAgentTextEvents\<rparr>"

definition mergeTurnEvents ::
  "agent_turn_event list \<Rightarrow> agent_turn_event list \<Rightarrow> retention_result option" where
  "mergeTurnEvents existing incoming =
     retainAgentTurnEvents turnEventRetentionPolicy existing incoming"

definition capPersistedTurnEvents :: "agent_turn_event list \<Rightarrow> retention_result option" where
  "capPersistedTurnEvents events = capAgentTurnEvents turnEventRetentionPolicy events"

section \<open>The byte states are right\<close>

lemma encoded_length [simp]: "encoded_length text = utf8ByteLength text"
  by (simp add: encoded_length_def length_utf8_encode)

lemma sameStrings_iff [simp]: "sameStrings xs ys \<longleftrightarrow> xs = ys"
  by (induction xs ys rule: sameStrings.induct) auto

lemma endsWithHighSurrogate_append:
  "endsWithHighSurrogate (a @ b) = (if b = [] then endsWithHighSurrogate a else endsWithHighSurrogate b)"
  by (cases b rule: rev_cases) (simp_all add: endsWithHighSurrogate_def nth_append)

lemma coalesced_state_computed:
  "coalesced_state (computed_text_state a) (computed_text_state b) a b =
     (if utf8ByteLength (a @ b) \<le> MAX_AGENT_EVENT_TEXT_BYTES then Some (computed_text_state (a @ b))
      else None)"
  using utf8ByteLength_append [of a b]
  by (auto simp: coalesced_state_def computed_text_state_def repairsSplitScalar_def Let_def
      endsWithHighSurrogate_append split: if_splits)

lemma coalesced_text_eq:
  "coalesced_text a b =
     (if utf8ByteLength (a @ b) \<le> MAX_AGENT_EVENT_TEXT_BYTES then Some (a @ b) else None)"
  by (simp add: coalesced_text_def agentTextEventByteState_def coalesced_state_computed)
    (simp add: computed_text_state_def)

lemma foldl_sum: "foldl (\<lambda>total value. total + f value) k xs = k + (\<Sum>x\<leftarrow>xs. (f x :: nat))"
  by (induction xs arbitrary: k) simp_all

lemma string_bytes_sum: "string_bytes None values = (\<Sum>value\<leftarrow>values. utf8ByteLength value)"
  by (simp add: string_bytes_def Let_def foldl_sum)

text \<open>
  An entry is coherent when it is what the code computes for the text or the strings it names.
\<close>

definition text_entry_ok :: "agent_text_byte_state option \<Rightarrow> bool" where
  "text_entry_ok cached \<longleftrightarrow>
     (case cached of None \<Rightarrow> True | Some state \<Rightarrow> state = computed_text_state (state_text state))"

definition event_entry_ok :: "agent_event_byte_state option \<Rightarrow> bool" where
  "event_entry_ok cached \<longleftrightarrow>
     (case cached of None \<Rightarrow> True
      | Some state \<Rightarrow> event_byteLength state = string_bytes None (event_values state))"

lemma agentTextEventByteState_coherent:
  "text_entry_ok cached \<Longrightarrow> agentTextEventByteState cached text = computed_text_state text"
  by (auto simp: agentTextEventByteState_def text_entry_ok_def split: option.splits)

lemma string_bytes_coherent:
  "event_entry_ok cached \<Longrightarrow> string_bytes cached values = string_bytes None values"
  by (auto simp: string_bytes_def event_entry_ok_def Let_def split: option.splits)

text \<open>
  The byte caches are transparent. Whatever entries the code has cached for two texts, the
  state it caches for their concatenation is the one it would compute from scratch: the UTF-8
  length of the joined text (a surrogate pair split between the two halves is repaired and
  counted once), its trailing half pair, and nothing at all when the joined text is above
  16 KiB. And the size of an event does not depend on its cache entries.
\<close>

theorem byte_caches_transparent:
  assumes "text_entry_ok cachedLast" and "text_entry_ok cachedNext" and "event_entry_ok cachedEvent"
  shows "coalesced_state (agentTextEventByteState cachedLast lastText)
           (agentTextEventByteState cachedNext nextText) lastText nextText =
         (if utf8ByteLength (lastText @ nextText) \<le> 16384
          then Some (computed_text_state (lastText @ nextText)) else None) \<and>
     agentTurnEventUtf8Bytes_cached cachedLast cachedEvent event = agentTurnEventUtf8Bytes event"
proof
  show "coalesced_state (agentTextEventByteState cachedLast lastText)
      (agentTextEventByteState cachedNext nextText) lastText nextText =
    (if utf8ByteLength (lastText @ nextText) \<le> 16384
     then Some (computed_text_state (lastText @ nextText)) else None)"
    using assms
    by (simp add: agentTextEventByteState_coherent coalesced_state_computed MAX_AGENT_EVENT_TEXT_BYTES_def)
  have "text_entry_ok None" by (simp add: text_entry_ok_def)
  with assms show "agentTurnEventUtf8Bytes_cached cachedLast cachedEvent event =
      agentTurnEventUtf8Bytes event"
    by (cases event)
      (simp_all add: agentTurnEventUtf8Bytes_def agentTurnEventUtf8Bytes_cached_def
        agentTextEventByteState_coherent string_bytes_coherent [OF assms(3)])
qed

lemma byte_caches_transparent_witness:
  "coalesced_state (agentTextEventByteState None [65, 55357])
     (agentTextEventByteState (Some (computed_text_state [56832])) [56832]) [65, 55357] [56832] =
       Some (computed_text_state [65, 55357, 56832]) \<and>
   agentTurnEventUtf8Bytes_cached None None (AssistantText [65] None) =
     agentTurnEventUtf8Bytes (AssistantText [65] None)"
proof -
  have ok: "text_entry_ok None" "text_entry_ok (Some (computed_text_state [56832]))"
    "event_entry_ok None"
    by (simp_all add: text_entry_ok_def event_entry_ok_def computed_text_state_def)
  have "utf8ByteLength ([65, 55357] @ [56832]) \<le> 16384"
    by (simp add: is_high_def is_low_def surrogate_defs isLowSurrogateAt_def)
  with byte_caches_transparent [OF ok(1,2,3), of "[65, 55357]" "[56832]" "AssistantText [65] None"]
  show ?thesis by simp
qed

section \<open>Coalescing\<close>

fun event_text :: "agent_turn_event \<Rightarrow> js_string" where
  "event_text (AssistantText text _) = text"
| "event_text (Reasoning text _) = text"
| "event_text (SubagentEvent _ event) = event_text event"
| "event_text _ = []"

text \<open>What two events have to agree on: kind, parent tool and the threads around them.\<close>

fun same_stream :: "agent_turn_event \<Rightarrow> agent_turn_event \<Rightarrow> bool" where
  "same_stream (AssistantText _ p) event =
     (case event of AssistantText _ q \<Rightarrow> p = q | _ \<Rightarrow> False)"
| "same_stream (Reasoning _ p) event = (case event of Reasoning _ q \<Rightarrow> p = q | _ \<Rightarrow> False)"
| "same_stream (SubagentEvent t l) event =
     (case event of SubagentEvent u n \<Rightarrow> t = u \<and> same_stream l n \<and>
        (case n of SubagentEvent _ _ \<Rightarrow> False | _ \<Rightarrow> True)
      | _ \<Rightarrow> False)"
| "same_stream _ event = False"

fun with_text :: "agent_turn_event \<Rightarrow> js_string \<Rightarrow> agent_turn_event" where
  "with_text (AssistantText _ parent) text = AssistantText text parent"
| "with_text (Reasoning _ parent) text = Reasoning text parent"
| "with_text (SubagentEvent thread event) text = SubagentEvent thread (with_text event text)"
| "with_text event text = event"

lemma same_stream_kinds:
  "same_stream a b \<Longrightarrow> isAgentTurnCoalescibleTextEvent a \<and> isAgentTurnCoalescibleTextEvent b"
  by (cases a; cases b) simp_all

lemma coalesce_events_eq:
  "coalesce_events a b =
     (if same_stream a b \<and>
         utf8ByteLength (event_text a @ event_text b) \<le> MAX_AGENT_EVENT_TEXT_BYTES
      then Some (with_text b (event_text a @ event_text b)) else None)"
proof (induction a arbitrary: b)
  case (SubagentEvent thread a)
  show ?case
  proof (cases b)
    case (SubagentEvent thread' b')
    then show ?thesis
      using same_stream_kinds [of a b'] by (cases b') (auto simp: SubagentEvent.IH)
  qed simp_all
next
  case (AssistantText body parent)
  then show ?case by (cases b) (simp_all add: coalesced_text_eq)
next
  case (Reasoning body parent)
  then show ?case by (cases b) (simp_all add: coalesced_text_eq)
qed simp_all

lemma with_text_simps:
  "same_stream a b \<Longrightarrow> event_text (with_text b text) = text"
  "same_stream a b \<Longrightarrow> same_stream a (with_text b text)"
  "event_agentThreadId (with_text b text) = event_agentThreadId b"
  "isAgentTurnCoalescibleTextEvent (with_text b text) = isAgentTurnCoalescibleTextEvent b"
proof -
  show "event_text (with_text b text) = text" if "same_stream a b" using that
  proof (induction a arbitrary: b)
    case (SubagentEvent t a)
    then show ?case by (cases b) simp_all
  next
    case (AssistantText t p)
    then show ?case by (cases b) simp_all
  next
    case (Reasoning t p)
    then show ?case by (cases b) simp_all
  qed simp_all
  show "same_stream a (with_text b text)" if "same_stream a b" using that
  proof (induction a arbitrary: b)
    case (SubagentEvent t a)
    show ?case
    proof (cases b)
      case b: (SubagentEvent u n)
      with SubagentEvent.prems SubagentEvent.IH [of n] same_stream_kinds [of a n]
      show ?thesis by (cases n) simp_all
    qed (use SubagentEvent.prems in simp_all)
  next
    case (AssistantText t p)
    then show ?case by (cases b) simp_all
  next
    case (Reasoning t p)
    then show ?case by (cases b) simp_all
  qed simp_all
  show "event_agentThreadId (with_text b text) = event_agentThreadId b" by (cases b) simp_all
  show "isAgentTurnCoalescibleTextEvent (with_text b text) = isAgentTurnCoalescibleTextEvent b"
    by (cases b) simp_all
qed

lemma same_stream_thread: "same_stream a b \<Longrightarrow> event_agentThreadId a = event_agentThreadId b"
  by (cases a; cases b) simp_all

lemma coalesceAgentTextEvents_SomeD:
  assumes "coalesceAgentTextEvents (Some l) n = Some c"
  shows "same_stream l n" and "same_stream l c" and "event_text c = event_text l @ event_text n"
    and "utf8ByteLength (event_text c) \<le> MAX_AGENT_EVENT_TEXT_BYTES"
    and "event_agentThreadId c = event_agentThreadId l"
    and "isAgentTurnCoalescibleTextEvent l \<and> isAgentTurnCoalescibleTextEvent n \<and>
      isAgentTurnCoalescibleTextEvent c"
proof -
  have stream: "same_stream l n" and c: "c = with_text n (event_text l @ event_text n)"
    and bytes: "utf8ByteLength (event_text l @ event_text n) \<le> MAX_AGENT_EVENT_TEXT_BYTES"
    using assms by (auto simp: coalesceAgentTextEvents_def coalesce_events_eq split: if_splits)
  show "same_stream l n" by (rule stream)
  show "same_stream l c" and body: "event_text c = event_text l @ event_text n"
    and "event_agentThreadId c = event_agentThreadId l"
    using with_text_simps(1,2) [of l n] with_text_simps(3) stream same_stream_thread [OF stream] by (simp_all add: c)
  show "utf8ByteLength (event_text c) \<le> MAX_AGENT_EVENT_TEXT_BYTES" using bytes by (simp add: body)
  show "isAgentTurnCoalescibleTextEvent l \<and> isAgentTurnCoalescibleTextEvent n \<and>
      isAgentTurnCoalescibleTextEvent c"
    using same_stream_kinds [OF stream] with_text_simps(4) by (simp add: c)
qed

text \<open>
  Coalescing concatenates. Two neighbouring events join exactly when they belong to one
  stream (the same kind, parent tool and subagent thread) and the joined text has at most
  16 KiB of UTF-8; the joined event carries the two texts in order and stays in that stream.
\<close>

theorem coalesce_concatenates:
  "(coalesceAgentTextEvents (Some l) n = None \<longleftrightarrow>
      \<not> (same_stream l n \<and> utf8ByteLength (event_text l @ event_text n) \<le> 16384)) \<and>
   (\<forall>c. coalesceAgentTextEvents (Some l) n = Some c \<longrightarrow>
      same_stream l c \<and> event_text c = event_text l @ event_text n)"
proof
  show "coalesceAgentTextEvents (Some l) n = None \<longleftrightarrow>
      \<not> (same_stream l n \<and> utf8ByteLength (event_text l @ event_text n) \<le> 16384)"
    by (simp add: coalesceAgentTextEvents_def coalesce_events_eq MAX_AGENT_EVENT_TEXT_BYTES_def
        del: utf8ByteLength.simps)
  show "\<forall>c. coalesceAgentTextEvents (Some l) n = Some c \<longrightarrow>
      same_stream l c \<and> event_text c = event_text l @ event_text n"
    using coalesceAgentTextEvents_SomeD(2,3) by blast
qed

lemma coalesce_concatenates_witness:
  "coalesceAgentTextEvents
     (Some (SubagentEvent [97] (AssistantText [72, 105] None)))
     (SubagentEvent [97] (AssistantText [33] None)) =
   Some (SubagentEvent [97] (AssistantText [72, 105, 33] None))"
proof -
  let ?l = "SubagentEvent [97] (AssistantText [72, 105] None)"
  let ?n = "SubagentEvent [97] (AssistantText [33] None)"
  have joins: "same_stream ?l ?n \<and> utf8ByteLength (event_text ?l @ event_text ?n) \<le> 16384"
    by (simp add: is_high_def is_low_def surrogate_defs isLowSurrogateAt_def)
  obtain c where c: "coalesceAgentTextEvents (Some ?l) ?n = Some c"
    using coalesce_concatenates [of ?l ?n] joins by (cases "coalesceAgentTextEvents (Some ?l) ?n") auto
  then have "same_stream ?l c \<and> event_text c = [72, 105, 33]"
    using coalesce_concatenates [of ?l ?n] by auto
  then obtain m where "c = SubagentEvent [97] m" and "event_text m = [72, 105, 33]"
    and "same_stream (AssistantText [72, 105] None) m"
    by (cases c) auto
  with c show ?thesis by (cases m) auto
qed

section \<open>The window of a turn\<close>

interpretation turn: retention_laws turnEventRetentionPolicy
proof unfold_locales
  show "0 \<le> maxEvents turnEventRetentionPolicy" "0 \<le> maxBytes turnEventRetentionPolicy"
    "0 \<le> maxSubagentThreads turnEventRetentionPolicy"
    by (simp_all add: turnEventRetentionPolicy_def)
  show "event_agentThreadId c = event_agentThreadId l"
    if "coalesceText turnEventRetentionPolicy (Some l) n = Some c" for l n c
    using that coalesceAgentTextEvents_SomeD(5) by (simp add: turnEventRetentionPolicy_def)
  show "isAgentTurnCoalescibleTextEvent l \<and> isAgentTurnCoalescibleTextEvent n \<and>
      isAgentTurnCoalescibleTextEvent c"
    if "coalesceText turnEventRetentionPolicy (Some l) n = Some c" for l n c
    using that coalesceAgentTextEvents_SomeD(6) by (simp add: turnEventRetentionPolicy_def)
qed

definition bounded_window :: "agent_turn_event list \<Rightarrow> bool" where
  "bounded_window es \<longleftrightarrow> length es \<le> 1024 \<and>
     (\<Sum>e\<leftarrow>es. agentTurnEventUtf8Bytes e) \<le> 2097152 \<and> card (threads_of es) \<le> 32"

lemmas limit_defs =
  MAX_AGENT_EVENTS_PER_TURN_def MAX_AGENT_EVENT_BYTES_PER_TURN_def MAX_SUBAGENT_THREADS_PER_TURN_def

lemma sum_list_int: "(\<Sum>e\<leftarrow>es. int (f e)) = int (\<Sum>e\<leftarrow>es. f e)"
  by (induction es) simp_all

lemma within_limits_turn: "within_limits turnEventRetentionPolicy es \<longleftrightarrow> bounded_window es"
  by (simp add: within_limits_def bounded_window_def turnEventRetentionPolicy_def limit_defs
      total_bytes_def sum_list_int)

lemma fits_turn: "turn.fits e \<longleftrightarrow> agentTurnEventUtf8Bytes e \<le> 2097152"
  unfolding turn.fits_def by (simp add: turnEventRetentionPolicy_def limit_defs)

lemma settled_window_turn:
  "turn.settled_window es \<longleftrightarrow>
     bounded_window es \<and> successively (\<lambda>a b. coalesceAgentTextEvents (Some a) b = None) es"
  unfolding turn.settled_window_def within_limits_turn by (simp add: turnEventRetentionPolicy_def)

lemma merge_settled_window:
  assumes "bounded_window (existing @ incoming)"
    and "successively (\<lambda>a b. coalesceAgentTextEvents (Some a) b = None) (existing @ incoming)"
    and "snapshotIndexFor incoming = Inert"
  shows "mergeTurnEvents existing incoming =
    Some \<lparr>retained_events = existing @ incoming, retained_truncated = False\<rparr>"
  using turn.retain_settled_window [of existing incoming] assms
  by (simp add: mergeTurnEvents_def retainAgentTurnEvents_def settled_window_turn)

lemmas event_bytes_simps = agentTurnEventUtf8Bytes_def agentTurnEventUtf8Bytes_cached_def
  string_bytes_sum agentTextEventByteState_def computed_text_state_def

text \<open>
  C4: Merging a batch of events into a turn always returns. The result is the unchanged window
  when the batch is empty, and a window of at most 1024 events, 2 MiB of text and 32 subagent
  threads as soon as the window was one before or the batch has an event of at most 2 MiB.
\<close>

theorem mergeTurnEvents_returns_bounded:
  "\<exists>result. mergeTurnEvents existing incoming = Some result \<and>
     (incoming = [] \<longrightarrow> result = \<lparr>retained_events = existing, retained_truncated = False\<rparr>) \<and>
     (bounded_window existing \<or> (\<exists>e \<in> set incoming. agentTurnEventUtf8Bytes e \<le> 2097152) \<longrightarrow>
        bounded_window (retained_events result))"
  using turn.retain_spec [of existing incoming "snapshotIndexFor incoming"]
  by (fastforce simp: mergeTurnEvents_def retainAgentTurnEvents_def within_limits_turn fits_turn)

lemma mergeTurnEvents_returns_bounded_witness:
  "\<exists>result. mergeTurnEvents [] [ErrorEvent [120]] = Some result \<and>
     bounded_window (retained_events result)"
proof -
  have "bounded_window []" by (simp add: bounded_window_def threads_of_def)
  with mergeTurnEvents_returns_bounded [of "[]" "[ErrorEvent [120]]"] show ?thesis by blast
qed

text \<open>
  C27: A merge that does not report truncation loses nothing: the events that are never merged
  with another one (user messages, tool calls and results, errors, spawns, results, compaction
  marks, unknown lines) of the window and of the batch are all there, in their order. An
  incoming event above 2 MiB is always reported.
\<close>

theorem mergeTurnEvents_truncation_honest:
  assumes "mergeTurnEvents existing incoming = Some result" and "\<not> retained_truncated result"
  shows "filter is_settled (retained_events result) = filter is_settled (existing @ incoming) \<and>
    (\<forall>e \<in> set incoming. agentTurnEventUtf8Bytes e \<le> 2097152)"
  using turn.retain_spec [of existing incoming "snapshotIndexFor incoming"] assms
  by (fastforce simp: mergeTurnEvents_def retainAgentTurnEvents_def fits_turn)

lemma mergeTurnEvents_truncation_honest_witness:
  "filter is_settled [ErrorEvent [120], ErrorEvent [121]] =
     filter is_settled ([ErrorEvent [120]] @ [ErrorEvent [121]])"
proof -
  have merged: "mergeTurnEvents [ErrorEvent [120]] [ErrorEvent [121]] =
      Some \<lparr>retained_events = [ErrorEvent [120]] @ [ErrorEvent [121]], retained_truncated = False\<rparr>"
    by (rule merge_settled_window)
      (simp_all add: bounded_window_def threads_of_def event_bytes_simps coalesceAgentTextEvents_def
        isAgentTurnSnapshotEvent_def CONTEXT_BARRIER_def)
  from mergeTurnEvents_truncation_honest [OF merged] show ?thesis by simp
qed

text \<open>
  C11: User messages are evicted last. When the user messages of the window and those of the
  batch that are not above 2 MiB fit the limits by themselves, the result holds exactly these,
  in order, whatever else had to be evicted.
\<close>

theorem mergeTurnEvents_keeps_user_messages:
  assumes "mergeTurnEvents existing incoming = Some result"
    and "bounded_window (filter is_user_message
      (existing @ filter (\<lambda>e. agentTurnEventUtf8Bytes e \<le> 2097152) incoming))"
  shows "filter is_user_message (retained_events result) =
    filter is_user_message
      (existing @ filter (\<lambda>e. agentTurnEventUtf8Bytes e \<le> 2097152) incoming)"
proof -
  have "turn.fits = (\<lambda>e. agentTurnEventUtf8Bytes e \<le> 2097152)" by (rule ext) (rule fits_turn)
  with turn.retain_spec [of existing incoming "snapshotIndexFor incoming"] assms
  show ?thesis
    by (auto simp: mergeTurnEvents_def retainAgentTurnEvents_def within_limits_turn)
qed

lemma mergeTurnEvents_keeps_user_messages_witness:
  "\<exists>result. mergeTurnEvents [] [UserMessage \<lparr>um_remoteMessageId = None, um_text = [104],
       um_attachments = None\<rparr>, ErrorEvent [120]] = Some result \<and>
     filter is_user_message (retained_events result) =
       [UserMessage \<lparr>um_remoteMessageId = None, um_text = [104], um_attachments = None\<rparr>]"
proof -
  let ?u = "UserMessage \<lparr>um_remoteMessageId = None, um_text = [104], um_attachments = None\<rparr>"
  have merged: "mergeTurnEvents [] [?u, ErrorEvent [120]] =
      Some \<lparr>retained_events = [] @ [?u, ErrorEvent [120]], retained_truncated = False\<rparr>"
    by (rule merge_settled_window)
      (simp_all add: bounded_window_def threads_of_def event_bytes_simps coalesceAgentTextEvents_def
        isAgentTurnSnapshotEvent_def CONTEXT_BARRIER_def)
  have "bounded_window (filter is_user_message
      ([] @ filter (\<lambda>e. agentTurnEventUtf8Bytes e \<le> 2097152) [?u, ErrorEvent [120]]))"
    by (simp add: bounded_window_def threads_of_def event_bytes_simps)
  from mergeTurnEvents_keeps_user_messages [OF merged this] merged show ?thesis
    by (simp add: event_bytes_simps)
qed

text \<open>
  Capping a persisted window that is already within the limits and has no two neighbours
  of one stream whose texts fit one event gives it back unchanged and unreported: snapshots in
  a persisted transcript are never merged again.
\<close>

theorem capPersistedTurnEvents_stable:
  assumes "bounded_window es"
    and "successively (\<lambda>a b. coalesceAgentTextEvents (Some a) b = None) es"
  shows "capPersistedTurnEvents es = Some \<lparr>retained_events = es, retained_truncated = False\<rparr>"
proof -
  have "turn.settled_window ([] @ es)" using assms by (simp add: settled_window_turn)
  from turn.retain_settled_window [OF this] show ?thesis
    by (simp add: capPersistedTurnEvents_def capAgentTurnEvents_def)
qed

lemma capPersistedTurnEvents_stable_witness:
  "capPersistedTurnEvents [ErrorEvent [120], AssistantText [121] None] =
     Some \<lparr>retained_events = [ErrorEvent [120], AssistantText [121] None],
       retained_truncated = False\<rparr>"
  by (rule capPersistedTurnEvents_stable)
    (simp_all add: bounded_window_def threads_of_def event_bytes_simps coalesceAgentTextEvents_def)

end
