(* ===== verification/Lifecycle.thy ===== *)
theory Lifecycle
  imports Merge
begin

text \<open>
  The lifecycle metadata of a turn's subagents,
  \<open>packages/agent-events/src/agentSubagentLifecycle.ts\<close>: a map of at most 32 entries that
  outlives the bounded window of events. Each event is resolved to an entry by its tool, task
  or thread id (entries that turn out to be one agent are merged), nested spawns are counted at
  their root, and spawns of one batch share a key. An absent field of an entry is \<open>None\<close>;
  the source never writes a key with the value \<open>undefined\<close>.
\<close>

section \<open>Entries\<close>

definition MAX_RUNTIME_SUBAGENT_TITLE_CHARACTERS :: nat where
  "MAX_RUNTIME_SUBAGENT_TITLE_CHARACTERS = 120"
definition MAX_RETAINED_SUBAGENTS :: nat where "MAX_RETAINED_SUBAGENTS = 32"
definition MAX_SUBAGENT_TASK_TITLE_BYTES :: nat where
  "MAX_SUBAGENT_TASK_TITLE_BYTES = MAX_RUNTIME_SUBAGENT_TITLE_CHARACTERS * 4"
definition MAX_SUBAGENT_BATCH_KEY_BYTES :: nat where "MAX_SUBAGENT_BATCH_KEY_BYTES = 272"
definition MAX_SUBAGENT_PARENT_TOOL_ID_BYTES :: nat where "MAX_SUBAGENT_PARENT_TOOL_ID_BYTES = 256"
definition MAX_SUBAGENT_NESTED_COUNT :: int where "MAX_SUBAGENT_NESTED_COUNT = 999"
definition MAX_SUBAGENT_COUNTED_NESTED_IDS :: nat where "MAX_SUBAGENT_COUNTED_NESTED_IDS = 32"
definition MAX_SUBAGENT_MODEL_BYTES :: nat where "MAX_SUBAGENT_MODEL_BYTES = 64"
definition MAX_NESTED_ANCESTOR_DEPTH :: nat where "MAX_NESTED_ANCESTOR_DEPTH = 8"
definition SPAWN_BATCH_KEY_PREFIX :: js_string where "SPAWN_BATCH_KEY_PREFIX = js ''spawn:''"

lemmas lifecycle_limits =
  MAX_RUNTIME_SUBAGENT_TITLE_CHARACTERS_def MAX_RETAINED_SUBAGENTS_def
  MAX_SUBAGENT_TASK_TITLE_BYTES_def MAX_SUBAGENT_BATCH_KEY_BYTES_def
  MAX_SUBAGENT_PARENT_TOOL_ID_BYTES_def MAX_SUBAGENT_NESTED_COUNT_def
  MAX_SUBAGENT_COUNTED_NESTED_IDS_def MAX_SUBAGENT_MODEL_BYTES_def MAX_NESTED_ANCESTOR_DEPTH_def
  SPAWN_BATCH_KEY_PREFIX_def

datatype lifecycle_state = LcRunning | LcCompleted | LcFailed | LcInterrupted

record lifecycle_entry =
  le_id :: js_string
  le_toolId :: "js_string option"
  le_taskId :: "js_string option"
  le_agentThreadId :: "js_string option"
  le_name :: js_string
  le_description :: js_string
  le_state :: lifecycle_state
  le_telemetryState :: "lifecycle_state option"
  le_resultState :: "lifecycle_state option"
  le_durationMs :: "int option"
  le_totalTokens :: "int option"
  le_steps :: "int option"
  le_lastToolName :: "js_string option"
  le_taskTitle :: "js_string option"
  le_batchKey :: "js_string option"
  le_nestedCount :: "int option"
  le_parentToolId :: "js_string option"
  le_model :: "js_string option"
  le_effort :: "spawn_effort option"

record lifecycle =
  lc_entries :: "lifecycle_entry list"
  lc_truncated :: bool
  lc_openBatchKey :: "js_string option"
  lc_countedNestedToolIds :: "js_string list option"

record event_identity =
  ei_toolId :: "js_string option"
  ei_taskId :: "js_string option"
  ei_agentThreadId :: "js_string option"

type_synonym entry_map = "(js_string, lifecycle_entry) js_map"

definition no_identity :: event_identity where
  "no_identity = \<lparr>ei_toolId = None, ei_taskId = None, ei_agentThreadId = None\<rparr>"

text \<open>The entry literal \<open>{ id, name, description, state }\<close>.\<close>

definition fresh_entry :: "js_string \<Rightarrow> js_string \<Rightarrow> js_string \<Rightarrow> lifecycle_entry" where
  "fresh_entry ident name description =
     \<lparr>le_id = ident, le_toolId = None, le_taskId = None, le_agentThreadId = None, le_name = name,
      le_description = description, le_state = LcRunning, le_telemetryState = None,
      le_resultState = None, le_durationMs = None, le_totalTokens = None, le_steps = None,
      le_lastToolName = None, le_taskTitle = None, le_batchKey = None, le_nestedCount = None,
      le_parentToolId = None, le_model = None, le_effort = None\<rparr>"

section \<open>Text helpers\<close>

definition clip :: "js_string \<Rightarrow> nat \<Rightarrow> js_string" where
  "clip value bytes =
     (let encoded = utf8_encode value in
      if length encoded \<le> bytes then value
      else utf8_decode (take (back_to_boundary encoded bytes) encoded))"

definition validId :: "js_string option \<Rightarrow> bool" where
  "validId ident = (case ident of None \<Rightarrow> False
     | Some text \<Rightarrow> length text > 0 \<and> length (utf8_encode text) \<le> 256)"

definition spawn :: "js_string \<Rightarrow> bool" where
  "spawn name \<longleftrightarrow> name = js ''Task'' \<or> name = js ''Agent'' \<or> name = js ''SpawnAgent'' \<or>
     name = js ''spawn_agent''"

definition isAgentSubagentSpawnToolName :: "js_string \<Rightarrow> bool" where
  "isAgentSubagentSpawnToolName name = spawn name"

definition agentSubagentLifecycleCapacityExhausted :: "lifecycle option \<Rightarrow> bool" where
  "agentSubagentLifecycleCapacityExhausted lifecycle =
     (case lifecycle of
        None \<Rightarrow> False
      | Some lc \<Rightarrow>
          if \<not> lc_truncated lc then False else length (lc_entries lc) \<ge> MAX_RETAINED_SUBAGENTS)"

definition taskTitleOf :: "js_string option \<Rightarrow> js_string option" where
  "taskTitleOf value =
     (case value of
        None \<Rightarrow> None
      | Some text \<Rightarrow>
          (let line = js_collapse_space (js_trim text) in
           if line = [] then None
           else Some (concat (take MAX_RUNTIME_SUBAGENT_TITLE_CHARACTERS (js_points line)))))"

definition spawnBatchKey :: "js_string option \<Rightarrow> js_string option" where
  "spawnBatchKey toolId =
     (case toolId of
        None \<Rightarrow> None
      | Some tool \<Rightarrow> if validId toolId then Some (SPAWN_BATCH_KEY_PREFIX @ tool) else None)"

text \<open>\<open>description ?? inputSummary\<close> and \<open>a || b\<close> on strings.\<close>

definition describe :: "tool_call \<Rightarrow> js_string" where
  "describe event = (case tc_description event of None \<Rightarrow> tc_inputSummary event | Some d \<Rightarrow> d)"

definition or_text :: "js_string \<Rightarrow> js_string \<Rightarrow> js_string" where
  "or_text a b = (if a = [] then b else a)"

section \<open>Identity and aliases\<close>

fun closesAgentSubagentSpawnBatch :: "agent_turn_event \<Rightarrow> (tool_result \<Rightarrow> bool) \<Rightarrow> bool" where
  "closesAgentSubagentSpawnBatch (ToolCall event) _ =
     (tc_parentToolId event = None \<and> \<not> spawn (tc_name event))"
| "closesAgentSubagentSpawnBatch (AssistantText body parent) _ = (parent = None \<and> js_trim body \<noteq> [])"
| "closesAgentSubagentSpawnBatch (ToolResult event) acknowledges =
     (tr_parentToolId event = None \<and> \<not> acknowledges event)"
| "closesAgentSubagentSpawnBatch (UserMessage _) _ = True"
| "closesAgentSubagentSpawnBatch (Result _) _ = True"
| "closesAgentSubagentSpawnBatch _ _ = False"

definition backgroundTaskIdentity :: "background_task \<Rightarrow> event_identity option" where
  "backgroundTaskIdentity event =
     (if bt_status event = BgStarting \<and> bt_taskType event = BgAgent
      then Some (no_identity\<lparr>ei_taskId := Some (bt_taskId event)\<rparr>)
      else if bt_status event \<noteq> BgStopped then None
      else if bt_taskType event \<noteq> BgAgent \<and> bt_taskType event \<noteq> BgOther then None
      else Some (no_identity\<lparr>ei_taskId := Some (bt_taskId event)\<rparr>))"

fun subagentEventIdentity :: "agent_turn_event \<Rightarrow> event_identity option" where
  "subagentEventIdentity (ToolCall event) =
     (if tc_parentToolId event = None \<and> spawn (tc_name event)
      then Some (no_identity\<lparr>ei_toolId := Some (tc_toolId event)\<rparr>) else None)"
| "subagentEventIdentity (ToolResult event) =
     (if tr_parentToolId event = None
      then Some (no_identity\<lparr>ei_toolId := Some (tr_toolId event)\<rparr>) else None)"
| "subagentEventIdentity (Subagent event) =
     Some (no_identity\<lparr>ei_toolId := sub_toolId event, ei_taskId := sub_taskId event\<rparr>)"
| "subagentEventIdentity (BackgroundTask event) = backgroundTaskIdentity event"
| "subagentEventIdentity (SubagentActivity thread _ _) =
     Some (no_identity\<lparr>ei_agentThreadId := Some thread\<rparr>)"
| "subagentEventIdentity (SubagentTurnDone thread _ _) =
     Some (no_identity\<lparr>ei_agentThreadId := Some thread\<rparr>)"
| "subagentEventIdentity _ = None"

definition matches :: "event_identity \<Rightarrow> lifecycle_entry \<Rightarrow> bool" where
  "matches identity entry \<longleftrightarrow>
     (ei_toolId identity \<noteq> None \<and> le_toolId entry = ei_toolId identity) \<or>
     (ei_taskId identity \<noteq> None \<and> le_taskId entry = ei_taskId identity) \<or>
     (ei_agentThreadId identity \<noteq> None \<and> le_agentThreadId entry = ei_agentThreadId identity)"

fun terminal_state :: "lifecycle_state option \<Rightarrow> lifecycle_state option \<Rightarrow> lifecycle_state option" where
  "terminal_state a b =
     (if a = Some LcFailed \<or> b = Some LcFailed then Some LcFailed
      else if a = Some LcInterrupted \<or> b = Some LcInterrupted then Some LcInterrupted
      else if a = Some LcCompleted \<or> b = Some LcCompleted then Some LcCompleted
      else coalesce a b)"

definition mergeAliases :: "lifecycle_entry \<Rightarrow> lifecycle_entry \<Rightarrow> lifecycle_entry" where
  "mergeAliases first second =
     (let telemetryState = terminal_state (le_telemetryState first) (le_telemetryState second);
          resultState =
            (if le_resultState first = Some LcFailed \<or> le_resultState second = Some LcFailed
             then Some LcFailed else coalesce (le_resultState first) (le_resultState second));
          parentToolId =
            (if le_parentToolId first = le_parentToolId second then le_parentToolId first else None)
      in \<lparr>le_id = le_id first,
          le_toolId = coalesce (le_toolId first) (le_toolId second),
          le_taskId = coalesce (le_taskId first) (le_taskId second),
          le_agentThreadId = coalesce (le_agentThreadId first) (le_agentThreadId second),
          le_name = le_name first,
          le_description = or_text (le_description first) (le_description second),
          le_state = le_state first,
          le_telemetryState =
            (case telemetryState of
               None \<Rightarrow> coalesce (le_telemetryState first) (le_telemetryState second)
             | Some s \<Rightarrow> Some s),
          le_resultState =
            (case resultState of
               None \<Rightarrow> coalesce (le_resultState first) (le_resultState second)
             | Some s \<Rightarrow> Some s),
          le_durationMs = coalesce (le_durationMs first) (le_durationMs second),
          le_totalTokens = coalesce (le_totalTokens first) (le_totalTokens second),
          le_steps = coalesce (le_steps first) (le_steps second),
          le_lastToolName = coalesce (le_lastToolName first) (le_lastToolName second),
          le_taskTitle = coalesce (le_taskTitle first) (le_taskTitle second),
          le_batchKey = coalesce (le_batchKey first) (le_batchKey second),
          le_nestedCount = coalesce (le_nestedCount first) (le_nestedCount second),
          le_parentToolId = parentToolId,
          le_model = coalesce (le_model first) (le_model second),
          le_effort = coalesce (le_effort first) (le_effort second)\<rparr>)"

text \<open>The loop of \<open>resolveAlias\<close> over the other entries that match.\<close>

fun mergeAll :: "entry_map \<Rightarrow> lifecycle_entry \<Rightarrow> lifecycle_entry list \<Rightarrow> entry_map \<times> lifecycle_entry" where
  "mergeAll entries found [] = (entries, found)"
| "mergeAll entries found (second # others) =
     mergeAll (AList.delete (le_id second) entries) (mergeAliases found second) others"

definition resolveAlias :: "entry_map \<Rightarrow> event_identity \<Rightarrow> entry_map \<times> lifecycle_entry option" where
  "resolveAlias entries identity =
     (case filter (matches identity) (map_values entries) of
        [] \<Rightarrow> (entries, None)
      | first # others \<Rightarrow>
          (let (entries', found) = mergeAll entries first others
           in (AList.update (le_id found) found entries', Some found)))"

section \<open>Nested spawns\<close>

definition entry_with_toolId :: "entry_map \<Rightarrow> js_string \<Rightarrow> lifecycle_entry option" where
  "entry_with_toolId entries toolId =
     find (\<lambda>entry. le_toolId entry = Some toolId) (map_values entries)"

text \<open>The loop of \<open>nestedRoot\<close>; the number is the iterations left.\<close>

fun nestedRoot_from :: "nat \<Rightarrow> entry_map \<Rightarrow> js_string \<Rightarrow> lifecycle_entry option" where
  "nestedRoot_from 0 entries toolId = None"
| "nestedRoot_from (Suc depth) entries toolId =
     (case entry_with_toolId entries toolId of
        None \<Rightarrow> None
      | Some parent \<Rightarrow>
          (case le_parentToolId parent of
             None \<Rightarrow> Some parent
           | Some up \<Rightarrow> nestedRoot_from depth entries up))"

definition nestedRoot :: "entry_map \<Rightarrow> js_string \<Rightarrow> lifecycle_entry option" where
  "nestedRoot entries parentToolId = nestedRoot_from MAX_NESTED_ANCESTOR_DEPTH entries parentToolId"

text \<open>The loop that deletes the oldest ids of the set until at most 32 are left.\<close>

fun dropOldest :: "js_string js_set \<Rightarrow> js_string js_set" where
  "dropOldest [] = []"
| "dropOldest (oldest # rest) =
     (if length (oldest # rest) \<le> MAX_SUBAGENT_COUNTED_NESTED_IDS then oldest # rest
      else dropOldest rest)"

definition rememberCountedNested :: "js_string js_set \<Rightarrow> js_string \<Rightarrow> js_string js_set" where
  "rememberCountedNested counted toolId = dropOldest (set_add toolId counted)"

datatype nested_outcome = NestedRetained | NestedSkipped | NestedTruncated

definition countNested :: "lifecycle_entry \<Rightarrow> lifecycle_entry" where
  "countNested rootEntry =
     rootEntry\<lparr>le_nestedCount := Some (min MAX_SUBAGENT_NESTED_COUNT
       ((case le_nestedCount rootEntry of None \<Rightarrow> 0 | Some n \<Rightarrow> n) + 1))\<rparr>"

definition retainNestedSpawn ::
  "entry_map \<Rightarrow> js_string js_set \<Rightarrow> tool_call \<Rightarrow> js_string \<Rightarrow>
     entry_map \<times> js_string js_set \<times> nested_outcome" where
  "retainNestedSpawn entries counted event parentToolId =
     (if \<not> validId (Some (tc_toolId event)) \<or> \<not> validId (Some parentToolId)
      then (entries, counted, NestedSkipped)
      else
        let (entries1, existing) =
              resolveAlias entries (no_identity\<lparr>ei_toolId := Some (tc_toolId event)\<rparr>)
        in if existing \<noteq> None \<and> le_parentToolId (the existing) \<noteq> None
           then (entries1, counted, NestedRetained)
           else if tc_toolId event \<in> set counted then (entries1, counted, NestedRetained)
           else case nestedRoot entries1 parentToolId of
             None \<Rightarrow> (entries1, counted, NestedSkipped)
           | Some rootEntry \<Rightarrow>
               if map_option le_id existing = Some (le_id rootEntry)
               then (entries1, counted, NestedRetained)
               else
                 let entries2 = AList.update (le_id rootEntry) (countNested rootEntry) entries1;
                     description = clip (describe event) 512;
                     taskTitle = coalesce (case existing of None \<Rightarrow> None | Some e \<Rightarrow> le_taskTitle e)
                       (taskTitleOf (Some (describe event)))
                 in case existing of
                   Some entry \<Rightarrow>
                     (AList.update (le_id entry)
                        (entry\<lparr>le_parentToolId := Some parentToolId,
                           le_description := or_text (le_description entry) description,
                           le_taskTitle := coalesce taskTitle (le_taskTitle entry)\<rparr>) entries2,
                      counted, NestedRetained)
                 | None \<Rightarrow>
                     if length entries2 \<ge> MAX_RETAINED_SUBAGENTS
                     then (entries2, rememberCountedNested counted (tc_toolId event), NestedTruncated)
                     else
                       let ident = js ''tool:'' @ tc_toolId event in
                       (AList.update ident
                          ((fresh_entry ident (clip (tc_name event) 128) description)
                             \<lparr>le_toolId := Some (tc_toolId event),
                              le_parentToolId := Some parentToolId, le_taskTitle := taskTitle\<rparr>)
                          entries2,
                        counted, NestedRetained))"

section \<open>Spawns with receivers\<close>

definition lifecycleState :: "lifecycle_entry \<Rightarrow> lifecycle_state" where
  "lifecycleState entry =
     (if le_resultState entry = Some LcFailed \<or> le_telemetryState entry = Some LcFailed then LcFailed
      else case coalesce (le_telemetryState entry) (le_resultState entry) of
        None \<Rightarrow> LcRunning | Some s \<Rightarrow> s)"

definition spawnDetails ::
  "lifecycle_entry \<Rightarrow> subagent_spawn \<Rightarrow> js_string option \<Rightarrow> bool \<Rightarrow> lifecycle_entry" where
  "spawnDetails entry event batchKey receiverless =
     (let taskTitle = coalesce (le_taskTitle entry) (taskTitleOf (ss_taskTitle event));
          model = coalesce (le_model entry)
            (map_option (\<lambda>m. clip m MAX_SUBAGENT_MODEL_BYTES) (ss_model event));
          effort = coalesce (le_effort entry) (ss_reasoningEffort event);
          live = (le_telemetryState entry = None \<or> le_telemetryState entry = Some LcRunning);
          telemetryState =
            (if ss_status event = SpawnFailed then Some LcFailed
             else if ss_status event = SpawnInterrupted \<and> live then Some LcInterrupted
             else if ss_status event = SpawnCompleted \<and> receiverless \<and>
                  le_agentThreadId entry = None \<and> live then Some LcCompleted
             else le_telemetryState entry);
          settled = entry
            \<lparr>le_taskTitle := coalesce taskTitle (le_taskTitle entry),
             le_batchKey := (if le_batchKey entry \<noteq> None \<or> batchKey = None then le_batchKey entry
               else batchKey),
             le_model := (if model = None \<or> model = Some [] then le_model entry else model),
             le_effort := coalesce effort (le_effort entry),
             le_telemetryState := coalesce telemetryState (le_telemetryState entry)\<rparr>
      in settled\<lparr>le_state := lifecycleState settled\<rparr>)"

definition spawn_identities :: "js_string \<Rightarrow> js_string list \<Rightarrow> event_identity list" where
  "spawn_identities callId receivers =
     (case receivers of
        [] \<Rightarrow> [no_identity\<lparr>ei_toolId := Some callId\<rparr>]
      | first # rest \<Rightarrow>
          no_identity\<lparr>ei_toolId := Some callId, ei_agentThreadId := Some first\<rparr> #
          map (\<lambda>thread. no_identity\<lparr>ei_agentThreadId := Some thread\<rparr>) rest)"

text \<open>\<open>{ ...entry, ...identity }\<close>: the ids that are present replace those of the entry.\<close>

definition with_identity :: "lifecycle_entry \<Rightarrow> event_identity \<Rightarrow> lifecycle_entry" where
  "with_identity entry identity =
     entry\<lparr>le_toolId := coalesce (ei_toolId identity) (le_toolId entry),
           le_taskId := coalesce (ei_taskId identity) (le_taskId entry),
           le_agentThreadId := coalesce (ei_agentThreadId identity) (le_agentThreadId entry)\<rparr>"

text \<open>One turn of the loop over the targets; the flag is \<open>truncated\<close>.\<close>

definition retainTarget ::
  "subagent_spawn \<Rightarrow> js_string option \<Rightarrow> bool \<Rightarrow> entry_map \<times> bool \<Rightarrow> event_identity \<Rightarrow>
     entry_map \<times> bool" where
  "retainTarget event batchKey receiverless acc identity =
     (let (entries, truncated) = acc;
          childName =
            (case ei_agentThreadId identity of
               None \<Rightarrow> None
             | Some thread \<Rightarrow>
                 map_option le_name
                   (find (\<lambda>entry. le_agentThreadId entry = Some thread) (map_values entries)));
          (entries1, found) = resolveAlias entries identity
      in if found = None \<and> length entries1 \<ge> MAX_RETAINED_SUBAGENTS then (entries1, True)
         else
           let base = (case found of
                 Some entry \<Rightarrow> entry
               | None \<Rightarrow>
                   fresh_entry
                     (case ei_agentThreadId identity of
                        None \<Rightarrow> js ''tool:'' @ ss_callId event
                      | Some thread \<Rightarrow> js ''thread:'' @ thread)
                     (js ''subagent'') []);
               named = (case childName of None \<Rightarrow> base | Some name \<Rightarrow> base\<lparr>le_name := name\<rparr>);
               updated = spawnDetails (with_identity named identity) event batchKey receiverless
           in (AList.update (le_id updated) updated entries1, truncated))"

definition retainSpawn ::
  "entry_map \<Rightarrow> subagent_spawn \<Rightarrow> js_string option \<Rightarrow> entry_map \<times> js_string option \<times> bool" where
  "retainSpawn entries event openBatchKey =
     (if \<not> validId (Some (ss_callId event)) then (entries, openBatchKey, False)
      else
        let batchKey = coalesce openBatchKey (spawnBatchKey (Some (ss_callId event)));
            receivers = filter (\<lambda>thread. validId (Some thread)) (ss_agentThreadIds event);
            (entries', truncated) =
              foldl (retainTarget event batchKey (receivers = [])) (entries, False)
                (spawn_identities (ss_callId event) receivers)
        in (entries', batchKey, truncated))"

section \<open>The details an event adds to its entry\<close>

text \<open>The conditional spreads of the loop, in the order of the source.\<close>

definition with_valid_ids :: "lifecycle_entry \<Rightarrow> event_identity \<Rightarrow> lifecycle_entry" where
  "with_valid_ids entry identity =
     entry\<lparr>le_toolId := (if validId (ei_toolId identity) then ei_toolId identity else le_toolId entry),
           le_taskId := (if validId (ei_taskId identity) then ei_taskId identity else le_taskId entry),
           le_agentThreadId := (if validId (ei_agentThreadId identity) then ei_agentThreadId identity
             else le_agentThreadId entry)\<rparr>"

definition toolCall_details ::
  "lifecycle_entry \<Rightarrow> js_string option \<Rightarrow> tool_call \<Rightarrow> lifecycle_entry \<times> js_string option" where
  "toolCall_details entry openBatchKey event =
     (let taskTitle = coalesce (le_taskTitle entry) (taskTitleOf (Some (describe event)));
          openBatchKey' = (if le_batchKey entry = None
            then coalesce openBatchKey (spawnBatchKey (Some (tc_toolId event))) else openBatchKey);
          batchKey = coalesce (le_batchKey entry) openBatchKey'
      in (entry\<lparr>le_name := clip (tc_name event) 128, le_description := clip (describe event) 512,
                le_taskTitle := coalesce taskTitle (le_taskTitle entry),
                le_batchKey := coalesce batchKey (le_batchKey entry)\<rparr>, openBatchKey'))"

definition starting_title :: "lifecycle_entry \<Rightarrow> js_string option \<Rightarrow> lifecycle_entry" where
  "starting_title entry description =
     (if le_taskTitle entry = None then entry\<lparr>le_taskTitle := taskTitleOf description\<rparr> else entry)"

definition toolResult_details :: "lifecycle_entry \<Rightarrow> tool_result \<Rightarrow> lifecycle_entry" where
  "toolResult_details entry event =
     (if le_resultState entry = None
      then entry\<lparr>le_resultState := Some (if tr_isError event then LcFailed else LcCompleted)\<rparr>
      else entry)"

definition backgroundTask_details :: "lifecycle_entry \<Rightarrow> background_task \<Rightarrow> lifecycle_entry" where
  "backgroundTask_details entry event =
     (let titled = (if bt_status event = BgStarting then starting_title entry (bt_description event)
            else entry)
      in if bt_status event = BgStopped \<and>
            (le_telemetryState titled = None \<or> le_telemetryState titled = Some LcRunning)
         then titled\<lparr>le_telemetryState := Some LcInterrupted\<rparr> else titled)"

fun subagent_next :: "subagent_status \<Rightarrow> lifecycle_state" where
  "subagent_next SubStarting = LcRunning"
| "subagent_next SubRunning = LcRunning"
| "subagent_next SubCompleted = LcCompleted"
| "subagent_next SubFailed = LcFailed"

definition subagent_details :: "lifecycle_entry \<Rightarrow> subagent_event \<Rightarrow> lifecycle_entry" where
  "subagent_details entry event =
     (let titled = (if sub_status event = SubStarting
            then starting_title entry (sub_description event) else entry);
          after = subagent_next (sub_status event);
          telemetryState =
            (if le_telemetryState titled = Some LcFailed then LcFailed
             else if (le_telemetryState titled = Some LcCompleted \<or>
                 le_telemetryState titled = Some LcInterrupted) \<and> after = LcRunning
             then the (le_telemetryState titled) else after)
      in titled
        \<lparr>le_telemetryState := Some telemetryState,
         le_name := (case sub_subagentType event of None \<Rightarrow> le_name titled | Some t \<Rightarrow> clip t 128),
         le_description := (case sub_description event of None \<Rightarrow> le_description titled
           | Some d \<Rightarrow> clip d 512),
         le_durationMs := coalesce (sub_durationMs event) (le_durationMs titled),
         le_totalTokens := coalesce (sub_totalTokens event) (le_totalTokens titled),
         le_steps := coalesce (sub_toolUses event) (le_steps titled),
         le_lastToolName := coalesce (map_option (\<lambda>n. clip n 128) (sub_lastToolName event))
           (le_lastToolName titled)\<rparr>)"

definition activity_details ::
  "lifecycle_entry \<Rightarrow> js_string \<Rightarrow> subagent_activity \<Rightarrow> lifecycle_entry" where
  "activity_details entry agentPath activity =
     (let after = (if activity = Completed then LcCompleted
            else if activity = Interrupted then LcInterrupted else LcRunning);
          moved = (if activity = Interacted \<or> le_telemetryState entry = None \<or>
              le_telemetryState entry = Some LcRunning
            then entry\<lparr>le_telemetryState := Some after\<rparr> else entry)
      in moved\<lparr>le_name := clip (or_text agentPath (js ''subagent'')) 128\<rparr>)"

definition turnDone_details :: "lifecycle_entry \<Rightarrow> int option \<Rightarrow> bool \<Rightarrow> lifecycle_entry" where
  "turnDone_details entry durationMs isError =
     entry\<lparr>le_telemetryState := Some (if isError then LcFailed else LcCompleted),
           le_durationMs := coalesce durationMs (le_durationMs entry)\<rparr>"

definition event_details ::
  "lifecycle_entry \<Rightarrow> js_string option \<Rightarrow> agent_turn_event \<Rightarrow>
     lifecycle_entry \<times> js_string option" where
  "event_details entry openBatchKey event =
     (case event of
        ToolCall call \<Rightarrow> toolCall_details entry openBatchKey call
      | ToolResult result \<Rightarrow> (toolResult_details entry result, openBatchKey)
      | BackgroundTask task \<Rightarrow> (backgroundTask_details entry task, openBatchKey)
      | Subagent subagent \<Rightarrow> (subagent_details entry subagent, openBatchKey)
      | SubagentActivity _ agentPath activity \<Rightarrow>
          (activity_details entry agentPath activity, openBatchKey)
      | SubagentTurnDone _ durationMs isError \<Rightarrow>
          (turnDone_details entry durationMs isError, openBatchKey)
      | _ \<Rightarrow> (entry, openBatchKey))"

section \<open>The loop over the events\<close>

definition ASYNC_LAUNCH_ACKNOWLEDGEMENT_PREFIX :: js_string where
  "ASYNC_LAUNCH_ACKNOWLEDGEMENT_PREFIX = js ''Async agent launched''"
definition ASYNC_LAUNCH_ACKNOWLEDGEMENT_SCAN_CHARACTERS :: nat where
  "ASYNC_LAUNCH_ACKNOWLEDGEMENT_SCAN_CHARACTERS = 64"

definition rootSubagentByToolId :: "entry_map \<Rightarrow> js_string \<Rightarrow> lifecycle_entry option" where
  "rootSubagentByToolId entries toolId =
     find (\<lambda>entry. le_toolId entry = Some toolId \<and> le_parentToolId entry = None)
       (map_values entries)"

definition isAsyncLaunchAcknowledgementText :: "js_string \<Rightarrow> bool" where
  "isAsyncLaunchAcknowledgementText outputSummary =
     js_startsWith
       (js_trimStart (js_slice outputSummary 0 ASYNC_LAUNCH_ACKNOWLEDGEMENT_SCAN_CHARACTERS))
       ASYNC_LAUNCH_ACKNOWLEDGEMENT_PREFIX"

definition acknowledgesAsyncLaunch :: "entry_map \<Rightarrow> tool_result \<Rightarrow> bool" where
  "acknowledgesAsyncLaunch entries result =
     (if tr_isError result then False
      else case rootSubagentByToolId entries (tr_toolId result) of
        None \<Rightarrow> False
      | Some entry \<Rightarrow>
          if le_telemetryState entry = Some LcRunning then True
          else if le_telemetryState entry \<noteq> None then False
          else isAsyncLaunchAcknowledgementText (tr_outputSummary result))"

record loop_state =
  ls_entries :: entry_map
  ls_counted :: "js_string js_set"
  ls_truncated :: bool
  ls_openBatchKey :: "js_string option"
  ls_changed :: bool

definition closeBatch :: "loop_state \<Rightarrow> agent_turn_event \<Rightarrow> loop_state" where
  "closeBatch state event =
     (if ls_openBatchKey state \<noteq> None \<and>
         closesAgentSubagentSpawnBatch event (acknowledgesAsyncLaunch (ls_entries state))
      then state\<lparr>ls_openBatchKey := None, ls_changed := True\<rparr> else state)"

definition is_spawn_agent :: "js_string \<Rightarrow> bool" where
  "is_spawn_agent name \<longleftrightarrow> name = js ''spawn_agent'' \<or> name = js ''SpawnAgent''"

definition dropPlaceholders :: "entry_map \<Rightarrow> agent_turn_event \<Rightarrow> entry_map" where
  "dropPlaceholders entries event =
     (case event of
        SubagentActivity _ _ _ \<Rightarrow> filter (\<lambda>(ident, entry). \<not> is_spawn_agent (le_name entry)) entries
      | SubagentTurnDone _ _ _ \<Rightarrow> filter (\<lambda>(ident, entry). \<not> is_spawn_agent (le_name entry)) entries
      | _ \<Rightarrow> entries)"

text \<open>A Codex spawn call while child threads are known, which the loop skips.\<close>

definition is_acknowledgement_call :: "entry_map \<Rightarrow> agent_turn_event \<Rightarrow> bool" where
  "is_acknowledgement_call entries event =
     (case event of
        ToolCall call \<Rightarrow> is_spawn_agent (tc_name call) \<and>
          (\<exists>entry \<in> set (map_values entries). le_agentThreadId entry \<noteq> None)
      | _ \<Rightarrow> False)"

text \<open>The events that never open an entry.\<close>

definition needs_entry :: "agent_turn_event \<Rightarrow> bool" where
  "needs_entry event =
     (case event of
        ToolResult _ \<Rightarrow> True
      | BackgroundTask task \<Rightarrow> bt_taskType task \<noteq> BgAgent \<or> bt_status task \<noteq> BgStopped
      | _ \<Rightarrow> False)"

definition entry_key :: "lifecycle_entry option \<Rightarrow> event_identity \<Rightarrow> js_string option" where
  "entry_key found identity =
     (case found of
        Some entry \<Rightarrow> Some (le_id entry)
      | None \<Rightarrow>
          if validId (ei_toolId identity) then Some (js ''tool:'' @ the (ei_toolId identity))
          else if validId (ei_taskId identity) then Some (js ''task:'' @ the (ei_taskId identity))
          else if validId (ei_agentThreadId identity)
            then Some (js ''thread:'' @ the (ei_agentThreadId identity))
          else None)"

definition retainIdentified ::
  "loop_state \<Rightarrow> agent_turn_event \<Rightarrow> event_identity \<Rightarrow> loop_state" where
  "retainIdentified state event identity =
     (let (entries, found) = resolveAlias (ls_entries state) identity;
          resolved = state\<lparr>ls_entries := entries\<rparr>
      in if found = None \<and> needs_entry event then resolved
         else case entry_key found identity of
           None \<Rightarrow> resolved\<lparr>ls_changed := True\<rparr>
         | Some key \<Rightarrow>
             if found = None \<and> length entries \<ge> MAX_RETAINED_SUBAGENTS
             then resolved\<lparr>ls_truncated := True, ls_changed := True\<rparr>
             else
               let base = (case found of Some entry \<Rightarrow> entry
                     | None \<Rightarrow> fresh_entry key (js ''subagent'') []);
                   (entry, openBatchKey) =
                     event_details (with_valid_ids base identity) (ls_openBatchKey state) event
               in resolved
                 \<lparr>ls_entries := AList.update key (entry\<lparr>le_state := lifecycleState entry\<rparr>) entries,
                  ls_openBatchKey := openBatchKey, ls_changed := True\<rparr>)"

definition retainRoot :: "loop_state \<Rightarrow> agent_turn_event \<Rightarrow> loop_state" where
  "retainRoot state event =
     (let dropped = state\<lparr>ls_entries := dropPlaceholders (ls_entries state) event\<rparr> in
      if is_acknowledgement_call (ls_entries dropped) event then dropped
      else case subagentEventIdentity event of
        None \<Rightarrow> dropped
      | Some identity \<Rightarrow> retainIdentified dropped event identity)"

definition retainEvent :: "loop_state \<Rightarrow> agent_turn_event \<Rightarrow> loop_state" where
  "retainEvent state event =
     (let closed = closeBatch state event in
      case event of
        SubagentSpawn spawned \<Rightarrow>
          (let (entries, openBatchKey, truncated) =
                 retainSpawn (ls_entries closed) spawned (ls_openBatchKey closed)
           in closed\<lparr>ls_entries := entries, ls_openBatchKey := openBatchKey,
                ls_truncated := ls_truncated closed \<or> truncated, ls_changed := True\<rparr>)
      | ToolCall call \<Rightarrow>
          (case tc_parentToolId call of
             None \<Rightarrow> retainRoot closed event
           | Some parentToolId \<Rightarrow>
               if spawn (tc_name call) then
                 (let (entries, counted, outcome) =
                        retainNestedSpawn (ls_entries closed) (ls_counted closed) call parentToolId
                  in closed\<lparr>ls_entries := entries, ls_counted := counted,
                       ls_truncated := ls_truncated closed \<or> outcome = NestedTruncated,
                       ls_changed := True\<rparr>)
               else retainRoot closed event)
      | _ \<Rightarrow> retainRoot closed event)"

definition initial_loop :: "lifecycle option \<Rightarrow> loop_state" where
  "initial_loop previous =
     (case previous of
        None \<Rightarrow> \<lparr>ls_entries = [], ls_counted = [], ls_truncated = False, ls_openBatchKey = None,
          ls_changed = False\<rparr>
      | Some lc \<Rightarrow>
          \<lparr>ls_entries =
             foldl (\<lambda>entries entry. AList.update (le_id entry) entry entries) [] (lc_entries lc),
           ls_counted = foldl (\<lambda>counted ident. set_add ident counted) []
             (case lc_countedNestedToolIds lc of None \<Rightarrow> [] | Some ids \<Rightarrow> ids),
           ls_truncated = lc_truncated lc, ls_openBatchKey = lc_openBatchKey lc,
           ls_changed = False\<rparr>)"

definition retainAgentSubagentLifecycle ::
  "lifecycle option \<Rightarrow> agent_turn_event list \<Rightarrow> lifecycle option" where
  "retainAgentSubagentLifecycle previous events =
     (let state = foldl retainEvent (initial_loop previous) events in
      if \<not> ls_changed state then previous
      else Some \<lparr>lc_entries = map_values (ls_entries state), lc_truncated = ls_truncated state,
             lc_openBatchKey = ls_openBatchKey state,
             lc_countedNestedToolIds =
               (if length (ls_counted state) = 0 then None else Some (ls_counted state))\<rparr>)"

end
