(* ===== verification/LifecycleInv.thy ===== *)
theory LifecycleInv
  imports Lifecycle
begin

text \<open>
  The invariant of the lifecycle metadata: what \<open>parseAgentSubagentLifecycle\<close> demands of a
  persisted record holds of everything \<open>retainAgentSubagentLifecycle\<close> produces. The entry
  map is seen through its lookup function; two entries never share a tool, task or thread id.
\<close>

section \<open>Well-formed entries\<close>

definition bounded_text :: "nat \<Rightarrow> js_string \<Rightarrow> bool" where
  "bounded_text n s \<longleftrightarrow> utf8ByteLength s \<le> n"

definition present_text :: "nat \<Rightarrow> js_string \<Rightarrow> bool" where
  "present_text n s \<longleftrightarrow> s \<noteq> [] \<and> utf8ByteLength s \<le> n"

definition metric :: "int \<Rightarrow> bool" where
  "metric n \<longleftrightarrow> 0 \<le> n \<and> isSafeInteger n"

definition opt_all :: "('a \<Rightarrow> bool) \<Rightarrow> 'a option \<Rightarrow> bool" where
  "opt_all P x \<longleftrightarrow> (case x of None \<Rightarrow> True | Some a \<Rightarrow> P a)"

lemma opt_all_simps [simp]: "opt_all P None" "opt_all P (Some a) = P a"
  by (simp_all add: opt_all_def)

lemma opt_all_coalesce [intro]: "opt_all P a \<Longrightarrow> opt_all P b \<Longrightarrow> opt_all P (coalesce a b)"
  by (cases a) simp_all

definition entry_core :: "lifecycle_entry \<Rightarrow> bool" where
  "entry_core e \<longleftrightarrow>
     present_text 272 (le_id e) \<and>
     opt_all (present_text 256) (le_toolId e) \<and> opt_all (present_text 256) (le_taskId e) \<and>
     opt_all (present_text 256) (le_agentThreadId e) \<and>
     bounded_text 128 (le_name e) \<and> bounded_text 512 (le_description e) \<and>
     opt_all (\<lambda>s. s = LcCompleted \<or> s = LcFailed) (le_resultState e) \<and>
     opt_all metric (le_durationMs e) \<and> opt_all metric (le_totalTokens e) \<and>
     opt_all metric (le_steps e) \<and> opt_all (bounded_text 128) (le_lastToolName e) \<and>
     opt_all (present_text 480) (le_taskTitle e) \<and> opt_all (present_text 272) (le_batchKey e) \<and>
     opt_all (\<lambda>n. 1 \<le> n \<and> n \<le> 999) (le_nestedCount e) \<and>
     opt_all (present_text 256) (le_parentToolId e) \<and> opt_all (present_text 64) (le_model e)"

definition has_identity :: "lifecycle_entry \<Rightarrow> bool" where
  "has_identity e \<longleftrightarrow> le_toolId e \<noteq> None \<or> le_taskId e \<noteq> None \<or> le_agentThreadId e \<noteq> None"

definition state_ok :: "lifecycle_entry \<Rightarrow> bool" where
  "state_ok e \<longleftrightarrow> le_state e = lifecycleState e"

definition shares :: "lifecycle_entry \<Rightarrow> lifecycle_entry \<Rightarrow> bool" where
  "shares a b \<longleftrightarrow>
     (le_toolId a \<noteq> None \<and> le_toolId b = le_toolId a) \<or>
     (le_taskId a \<noteq> None \<and> le_taskId b = le_taskId a) \<or>
     (le_agentThreadId a \<noteq> None \<and> le_agentThreadId b = le_agentThreadId a)"

lemma shares_sym: "shares a b \<Longrightarrow> shares b a"
  by (auto simp: shares_def)

text \<open>The numbers an event brings, which the parsers of the event streams guarantee.\<close>

fun event_metrics_ok :: "agent_turn_event \<Rightarrow> bool" where
  "event_metrics_ok (Subagent event) =
     (opt_all metric (sub_durationMs event) \<and> opt_all metric (sub_totalTokens event) \<and>
      opt_all metric (sub_toolUses event))"
| "event_metrics_ok (SubagentTurnDone _ durationMs _) = opt_all metric durationMs"
| "event_metrics_ok _ = True"

section \<open>Text bounds\<close>

lemma clip_bounded [simp, intro]: "bounded_text n (clip s n)"
  using utf8ByteLength_clip [of n s]
  by (simp add: bounded_text_def clip_def Let_def length_utf8_encode)

lemma bounded_text_Nil [simp]: "bounded_text n []"
  by (simp add: bounded_text_def)

lemma bounded_text_or [simp]: "bounded_text n a \<Longrightarrow> bounded_text n b \<Longrightarrow> bounded_text n (or_text a b)"
  by (simp add: or_text_def)

lemma validId_iff: "validId ident \<longleftrightarrow> ident \<noteq> None \<and> opt_all (present_text 256) ident"
  by (auto simp: validId_def present_text_def length_utf8_encode split: option.split)

lemma present_prefixed:
  assumes "present_text 256 s" and "utf8ByteLength p \<le> 16" and "p \<noteq> []"
  shows "present_text 272 (p @ s)"
  using utf8ByteLength_append_le [of p s] assms by (simp add: present_text_def)

lemma key_prefix_bytes:
  "utf8ByteLength (js ''tool:'') = 5" "utf8ByteLength (js ''task:'') = 5"
  "utf8ByteLength (js ''thread:'') = 7" "utf8ByteLength (js ''spawn:'') = 6"
  "utf8ByteLength (js ''subagent'') = 8"
  by code_simp+

lemma spawnBatchKey_present: "opt_all (present_text 272) (spawnBatchKey toolId)"
  using key_prefix_bytes(4)
  by (auto simp: spawnBatchKey_def validId_iff SPAWN_BATCH_KEY_PREFIX_def simp del: js_simps
      intro!: present_prefixed split: option.split)

lemma js_points_bytes: "p \<in> set (js_points s) \<Longrightarrow> utf8ByteLength p \<le> 4 \<and> p \<noteq> []"
proof (induction s rule: js_points.induct)
  case (2 u us)
  show ?case
  proof (cases "is_high u \<and> isLowSurrogateAt us 0")
    case True
    then obtain l r where us: "us = l # r" "is_low l" by (cases us) auto
    then have "utf8ByteLength [u, l] \<le> 4" using True by (auto simp: is_high_def surrogate_defs)
    with True us 2 show ?thesis by (auto simp del: utf8ByteLength.simps)
  qed (use 2 in auto)
qed simp

lemma concat_points_bytes:
  "\<forall>p \<in> set ps. utf8ByteLength p \<le> 4 \<Longrightarrow> utf8ByteLength (concat ps) \<le> 4 * length ps"
proof (induction ps)
  case (Cons p ps)
  then show ?case using utf8ByteLength_append_le [of p "concat ps"] by simp
qed simp

lemma taskTitleOf_present: "opt_all (present_text 480) (taskTitleOf value)"
proof (cases "taskTitleOf value")
  case (Some title)
  then obtain line where line: "line \<noteq> []" and title: "title = concat (take 120 (js_points line))"
    by (auto simp: taskTitleOf_def lifecycle_limits Let_def split: option.splits if_splits)
  have "utf8ByteLength title \<le> 4 * length (take 120 (js_points line))"
    unfolding title by (rule concat_points_bytes) (auto dest!: in_set_takeD js_points_bytes)
  moreover have "title \<noteq> []"
  proof -
    obtain p ps where points: "js_points line = p # ps"
      using line concat_js_points [of line] by (cases "js_points line") auto
    then have "p \<noteq> []" using js_points_bytes [of p line] by simp
    then show ?thesis by (simp add: title points)
  qed
  ultimately show ?thesis using Some by (simp add: present_text_def)
qed simp

section \<open>The store\<close>

definition store_ok :: "(js_string \<rightharpoonup> lifecycle_entry) \<Rightarrow> bool" where
  "store_ok V \<longleftrightarrow>
     (\<forall>k e. V k = Some e \<longrightarrow> le_id e = k \<and> entry_core e \<and> has_identity e) \<and>
     (\<forall>k k' e e'. V k = Some e \<longrightarrow> V k' = Some e' \<longrightarrow> shares e e' \<longrightarrow> k = k')"

definition states_ok :: "(js_string \<rightharpoonup> lifecycle_entry) \<Rightarrow> bool" where
  "states_ok V \<longleftrightarrow> (\<forall>k e. V k = Some e \<longrightarrow> state_ok e)"

lemma store_okD:
  assumes "store_ok V" and "V k = Some e"
  shows "le_id e = k" and "entry_core e" and "has_identity e"
  using assms by (auto simp: store_ok_def)

lemma store_ok_unique: "store_ok V \<Longrightarrow> V k = Some e \<Longrightarrow> V k' = Some e' \<Longrightarrow> shares e e' \<Longrightarrow> k = k'"
  by (auto simp: store_ok_def)

lemma store_ok_mono: "store_ok V \<Longrightarrow> W \<subseteq>\<^sub>m V \<Longrightarrow> store_ok W"
  unfolding store_ok_def map_le_def by (metis domI)

lemma store_ok_delete: "store_ok V \<Longrightarrow> store_ok (V(k := None))"
  by (erule store_ok_mono) (simp add: map_le_def)

lemma store_ok_insert:
  assumes ok: "store_ok V" and e: "entry_core e" "has_identity e" "le_id e = k"
    and alone: "\<And>k' e'. V k' = Some e' \<Longrightarrow> k' \<noteq> k \<Longrightarrow> \<not> shares e e'"
  shows "store_ok (V(k \<mapsto> e))"
proof -
  have "a = b" if ab: "(V(k \<mapsto> e)) a = Some x" "(V(k \<mapsto> e)) b = Some y" "shares x y" for a b x y
  proof (cases "a = k"; cases "b = k")
    assume "a = k" "b \<noteq> k"
    with ab alone show "a = b" by auto
  next
    assume "a \<noteq> k" "b = k"
    with ab alone [of a x] shares_sym show "a = b" by auto
  next
    assume "a \<noteq> k" "b \<noteq> k"
    with ab store_ok_unique [OF ok] show "a = b" by auto
  qed simp_all
  moreover have "\<forall>a x. (V(k \<mapsto> e)) a = Some x \<longrightarrow> le_id x = a \<and> entry_core x \<and> has_identity x"
    using ok e by (auto simp: store_ok_def)
  ultimately show ?thesis unfolding store_ok_def by blast
qed

lemma states_ok_insert: "states_ok V \<Longrightarrow> state_ok e \<Longrightarrow> states_ok (V(k \<mapsto> e))"
  by (auto simp: states_ok_def)

lemma states_ok_mono: "states_ok V \<Longrightarrow> W \<subseteq>\<^sub>m V \<Longrightarrow> states_ok W"
  unfolding states_ok_def map_le_def by (metis domI)

lemma map_values_iff:
  "map_wf m \<Longrightarrow> e \<in> set (map_values m) \<longleftrightarrow> (\<exists>k. map_of m k = Some e)"
  by (force simp: map_values_def map_wf_def map_of_eq_Some_iff)

lemma entry_core_ids:
  "entry_core e \<Longrightarrow> opt_all (present_text 256) (le_toolId e) \<and> opt_all (present_text 256) (le_taskId e) \<and>
     opt_all (present_text 256) (le_agentThreadId e)"
  by (simp add: entry_core_def)

section \<open>Merging aliases\<close>

lemma mergeAliases_core:
  assumes "entry_core a" and "entry_core b"
  shows "entry_core (mergeAliases a b)"
proof -
  let ?result = "if le_resultState a = Some LcFailed \<or> le_resultState b = Some LcFailed
    then Some LcFailed else coalesce (le_resultState a) (le_resultState b)"
  let ?P = "\<lambda>s. s = LcCompleted \<or> s = LcFailed"
  have "opt_all ?P ?result"
    using assms by (cases "le_resultState a") (auto simp: entry_core_def)
  then have "opt_all ?P (le_resultState (mergeAliases a b))"
    using assms
    by (cases "?result") (auto simp: mergeAliases_def Let_def entry_core_def simp del: coalesce_eq_None)
  with assms show ?thesis
    unfolding entry_core_def
    by (intro conjI) (simp_all add: mergeAliases_def Let_def opt_all_coalesce)
qed

lemma mergeAliases_simps [simp]:
  "le_id (mergeAliases a b) = le_id a"
  "le_toolId (mergeAliases a b) = coalesce (le_toolId a) (le_toolId b)"
  "le_taskId (mergeAliases a b) = coalesce (le_taskId a) (le_taskId b)"
  "le_agentThreadId (mergeAliases a b) = coalesce (le_agentThreadId a) (le_agentThreadId b)"
  by (simp_all add: mergeAliases_def Let_def)

lemma mergeAliases_identity: "has_identity a \<Longrightarrow> has_identity (mergeAliases a b)"
  by (auto simp: has_identity_def)

lemma coalesce_match:
  "coalesce a b \<noteq> None \<and> x = coalesce a b \<Longrightarrow> (a \<noteq> None \<and> x = a) \<or> (b \<noteq> None \<and> x = b)"
  by (cases a) simp_all

lemma mergeAliases_shares: "shares (mergeAliases a b) e \<Longrightarrow> shares a e \<or> shares b e"
  unfolding shares_def mergeAliases_simps by (elim disjE) (drule coalesce_match; blast)+

text \<open>
  The loop of \<open>resolveAlias\<close>: the map with the merged entry put back at its key is a store,
  and none of the entries left matches unless it was still to be merged.
\<close>

lemma mergeAll_spec:
  assumes "mergeAll entries found others = (entries', found')"
    and "map_wf entries" and "store_ok ((map_of entries)(le_id found \<mapsto> found))"
    and "distinct (map le_id others)" and "le_id found \<notin> le_id ` set others"
    and "\<forall>e \<in> set others. map_of entries (le_id e) = Some e"
    and "\<forall>k e. map_of entries k = Some e \<and> k \<noteq> le_id found \<and> matches identity e \<longrightarrow> e \<in> set others"
  shows "map_wf entries' \<and> store_ok ((map_of entries')(le_id found' \<mapsto> found')) \<and>
    le_id found' = le_id found \<and> map_of entries' \<subseteq>\<^sub>m map_of entries \<and>
    map_of entries' (le_id found) = map_of entries (le_id found) \<and>
    (\<forall>k e. map_of entries' k = Some e \<and> k \<noteq> le_id found \<longrightarrow> \<not> matches identity e)"
  using assms
proof (induction others arbitrary: entries found)
  case Nil
  then show ?case by auto
next
  case (Cons second others)
  let ?found = "mergeAliases found second" and ?entries = "AList.delete (le_id second) entries"
  let ?V = "(map_of entries)(le_id found \<mapsto> found)"
  have ids: "le_id second \<noteq> le_id found" using Cons.prems(5) by auto
  have found: "?V (le_id found) = Some found" and second: "?V (le_id second) = Some second"
    using Cons.prems(6) ids by auto
  note store = Cons.prems(3)
  have alone: "\<not> shares ?found e" if "(?V(le_id second := None)) k = Some e" "k \<noteq> le_id found" for k e
  proof
    assume "shares ?found e"
    then have "shares found e \<or> shares second e" by (rule mergeAliases_shares)
    moreover have "?V k = Some e" and "k \<noteq> le_id second" using that by (auto split: if_splits)
    ultimately show False
      using store_ok_unique [OF store found, of k e] store_ok_unique [OF store second, of k e] that(2)
      by auto
  qed
  have "store_ok ((?V(le_id second := None))(le_id found \<mapsto> ?found))"
    using store_okD [OF store found] store_okD [OF store second] alone
    by (intro store_ok_insert store_ok_delete store)
      (simp_all add: mergeAliases_core mergeAliases_identity)
  moreover have "(?V(le_id second := None))(le_id found \<mapsto> ?found) =
      (map_of ?entries)(le_id ?found \<mapsto> ?found)"
    using ids by (auto simp: fun_eq_iff)
  ultimately have store': "store_ok ((map_of ?entries)(le_id ?found \<mapsto> ?found))" by simp
  have d: "distinct (map le_id others)" and n: "le_id ?found \<notin> le_id ` set others"
    using Cons.prems(4,5) by auto
  have o: "\<forall>e \<in> set others. map_of ?entries (le_id e) = Some e"
    using Cons.prems(4,6) by (auto simp: image_iff)
  have r: "\<forall>k e. map_of ?entries k = Some e \<and> k \<noteq> le_id ?found \<and> matches identity e \<longrightarrow>
      e \<in> set others"
  proof (intro allI impI)
    fix k e assume e: "map_of ?entries k = Some e \<and> k \<noteq> le_id ?found \<and> matches identity e"
    then have k: "k \<noteq> le_id second" "map_of entries k = Some e" "k \<noteq> le_id found"
      by (auto split: if_splits)
    then have "e \<in> set (second # others)" using Cons.prems(7) e by blast
    moreover have "le_id e = k" using store_okD(1) [OF store, of k e] k by simp
    ultimately show "e \<in> set others" using k(1) by auto
  qed
  have m: "mergeAll ?entries ?found others = (entries', found')" using Cons.prems(1) by simp
  have w: "map_wf ?entries" using Cons.prems(2) by simp
  have "map_wf entries' \<and> store_ok ((map_of entries')(le_id found' \<mapsto> found')) \<and>
      le_id found' = le_id ?found \<and> map_of entries' \<subseteq>\<^sub>m map_of ?entries \<and>
      map_of entries' (le_id ?found) = map_of ?entries (le_id ?found) \<and>
      (\<forall>k e. map_of entries' k = Some e \<and> k \<noteq> le_id ?found \<longrightarrow> \<not> matches identity e)"
    by (rule Cons.IH [OF m w store' d n o r])
  moreover have "map_of ?entries \<subseteq>\<^sub>m map_of entries" by (simp add: map_le_def)
  ultimately show ?case using ids map_le_trans by fastforce
qed

lemma filter_map_values_keys:
  assumes "map_wf entries" and "\<forall>k e. map_of entries k = Some e \<longrightarrow> le_id e = k"
  shows "distinct (map le_id (filter P (map_values entries)))"
    and "\<forall>e \<in> set (filter P (map_values entries)). map_of entries (le_id e) = Some e"
proof -
  have "map le_id (map_values entries) = map fst entries"
    using assms by (force simp: map_values_def map_wf_def map_of_eq_Some_iff)
  then have "distinct (map le_id (map_values entries))" using assms(1) by (simp add: map_wf_def)
  then show "distinct (map le_id (filter P (map_values entries)))" by (rule distinct_map_filter)
  show "\<forall>e \<in> set (filter P (map_values entries)). map_of entries (le_id e) = Some e"
    using assms map_values_iff [OF assms(1)] by auto
qed

lemma length_map_le:
  "map_wf m \<Longrightarrow> map_wf m' \<Longrightarrow> map_of m' \<subseteq>\<^sub>m map_of m \<Longrightarrow> length m' \<le> length m"
  by (simp add: length_map_wf card_mono map_le_implies_dom_le finite_dom_map_of)

text \<open>What resolving an identity gives, on a store.\<close>

lemma resolveAlias_spec:
  assumes resolve: "resolveAlias entries identity = (entries', found)"
    and wf: "map_wf entries" and store: "store_ok (map_of entries)"
  shows "map_wf entries' \<and> store_ok (map_of entries') \<and> length entries' \<le> length entries \<and>
    (found = None \<longrightarrow> entries' = entries) \<and>
    (\<forall>e. found = Some e \<longrightarrow> map_of entries' (le_id e) = Some e \<and>
       (states_ok (map_of entries) \<longrightarrow> states_ok ((map_of entries')(le_id e := None)))) \<and>
    (\<forall>k e. map_of entries' k = Some e \<and> map_option le_id found \<noteq> Some k \<longrightarrow>
       \<not> matches identity e)"
proof -
  let ?match = "filter (matches identity) (map_values entries)"
  have keyed: "\<forall>k e. map_of entries k = Some e \<longrightarrow> le_id e = k" using store_okD [OF store] by blast
  note keys = filter_map_values_keys [OF wf keyed]
  show ?thesis
  proof (cases ?match)
    case Nil
    then have "found = None" and "entries' = entries" using resolve by (simp_all add: resolveAlias_def)
    moreover have "\<not> matches identity e'" if "map_of entries k' = Some e'" for k' e'
      using Nil that map_values_iff [OF wf, of e'] by (auto simp: filter_empty_conv)
    ultimately show ?thesis
      using wf store by simp
  next
    case (Cons first others)
    obtain merged f where all: "mergeAll entries first others = (merged, f)" by force
    have found: "found = Some f" and entries': "entries' = AList.update (le_id f) f merged"
      using resolve Cons all by (simp_all add: resolveAlias_def)
    have first: "map_of entries (le_id first) = Some first"
      and others: "\<forall>e \<in> set others. map_of entries (le_id e) = Some e"
      and d: "distinct (map le_id others)" and n: "le_id first \<notin> le_id ` set others"
      using keys [of "matches identity"] unfolding Cons by auto
    have put: "(map_of entries)(le_id first \<mapsto> first) = map_of entries"
      using first by (simp add: fun_upd_idem)
    have r: "\<forall>k e. map_of entries k = Some e \<and> k \<noteq> le_id first \<and> matches identity e \<longrightarrow> e \<in> set others"
    proof (intro allI impI)
      fix k e assume e: "map_of entries k = Some e \<and> k \<noteq> le_id first \<and> matches identity e"
      then have "e \<in> set ?match" using map_values_iff [OF wf, of e] by auto
      then have "e \<in> set (first # others)" by (simp only: Cons)
      moreover have "e \<noteq> first" using e keyed by auto
      ultimately show "e \<in> set others" by simp
    qed
    from mergeAll_spec [OF all wf _ d n others r] store put
    have m: "map_wf merged" "store_ok ((map_of merged)(le_id f \<mapsto> f))" "le_id f = le_id first"
      "map_of merged \<subseteq>\<^sub>m map_of entries" "map_of merged (le_id first) = map_of entries (le_id first)"
      "\<forall>k e. map_of merged k = Some e \<and> k \<noteq> le_id first \<longrightarrow> \<not> matches identity e"
      by auto
    have "length entries' = length merged"
      unfolding entries' using m(3,5) first by (intro length_update_present) simp
    moreover have "length merged \<le> length entries" by (rule length_map_le [OF wf m(1,4)])
    moreover have "states_ok ((map_of entries')(le_id f := None))" if "states_ok (map_of entries)"
      using that m(4) by (rule_tac states_ok_mono [of "map_of entries"])
        (auto simp: entries' map_le_def split: if_splits)
    ultimately show ?thesis
      using m by (auto simp: found entries')
  qed
qed

section \<open>Putting an entry back\<close>

definition store_inv :: "entry_map \<Rightarrow> bool" where
  "store_inv m \<longleftrightarrow> map_wf m \<and> store_ok (map_of m) \<and> states_ok (map_of m) \<and>
     length m \<le> MAX_RETAINED_SUBAGENTS"

lemma store_inv_resolve:
  assumes "store_inv entries" and "resolveAlias entries identity = (entries', found)"
  shows "map_wf entries'" and "store_ok (map_of entries')"
    and "length entries' \<le> MAX_RETAINED_SUBAGENTS"
    and "found = None \<Longrightarrow> entries' = entries"
    and "found = Some e \<Longrightarrow> map_of entries' (le_id e) = Some e"
    and "found = Some e \<Longrightarrow> entry_core e" and "found = Some e \<Longrightarrow> has_identity e"
    and "found = None \<Longrightarrow> store_inv entries'"
proof -
  note spec = resolveAlias_spec [OF assms(2)]
  have inv: "map_wf entries" "store_ok (map_of entries)" "length entries \<le> MAX_RETAINED_SUBAGENTS"
    using assms(1) by (simp_all add: store_inv_def)
  from spec [OF inv(1,2)] inv(3) show "map_wf entries'" and store: "store_ok (map_of entries')"
    and "length entries' \<le> MAX_RETAINED_SUBAGENTS" and "found = None \<Longrightarrow> entries' = entries" by auto
  then show "found = None \<Longrightarrow> store_inv entries'" using assms(1) by simp
  show "map_of entries' (le_id e) = Some e" if "found = Some e"
    using spec [OF inv(1,2)] that by blast
  then show "found = Some e \<Longrightarrow> entry_core e" and "found = Some e \<Longrightarrow> has_identity e"
    using store_okD [OF store] by blast+
qed

lemma put_resolved:
  assumes inv: "store_inv entries" and resolve: "resolveAlias entries identity = (entries', found)"
    and e: "entry_core e" "has_identity e" "state_ok e"
    and key: "\<And>f. found = Some f \<Longrightarrow> le_id e = le_id f"
    and ids: "\<And>x. shares e x \<Longrightarrow> (\<exists>f. found = Some f \<and> shares f x) \<or> matches identity x"
    and room: "found = None \<Longrightarrow> length entries' < MAX_RETAINED_SUBAGENTS"
  shows "store_inv (AList.update (le_id e) e entries')"
proof -
  have wf: "map_wf entries" and store: "store_ok (map_of entries)" and states: "states_ok (map_of entries)"
    using inv by (simp_all add: store_inv_def)
  have spec: "map_wf entries'" "store_ok (map_of entries')" "found = None \<longrightarrow> entries' = entries"
    "\<forall>f. found = Some f \<longrightarrow> map_of entries' (le_id f) = Some f \<and>
       (states_ok (map_of entries) \<longrightarrow> states_ok ((map_of entries')(le_id f := None)))"
    "\<forall>k x. map_of entries' k = Some x \<and> map_option le_id found \<noteq> Some k \<longrightarrow> \<not> matches identity x"
    using resolveAlias_spec [OF resolve wf store] by blast+
  have alone: "\<not> shares e x" if x: "map_of entries' k = Some x" "k \<noteq> le_id e" for k x
  proof
    assume "shares e x"
    then consider f where "found = Some f" "shares f x" | "matches identity x" using ids by blast
    then show False
    proof cases
      case 1
      with spec(4) store_ok_unique [OF spec(2), of "le_id f" f k x] x key show False by auto
    next
      case 2
      then have "map_option le_id found = Some k" using spec(5) x by blast
      with key x show False by auto
    qed
  qed
  have "store_ok ((map_of entries')(le_id e \<mapsto> e))"
    by (rule store_ok_insert) (use spec e alone in auto)
  moreover have "states_ok (((map_of entries')(le_id e := None))(le_id e \<mapsto> e))"
  proof (rule states_ok_insert [OF _ e(3)])
    show "states_ok ((map_of entries')(le_id e := None))"
    proof (cases found)
      case None
      then have "(map_of entries')(le_id e := None) \<subseteq>\<^sub>m map_of entries"
        using spec(3) by (simp add: map_le_def)
      then show ?thesis by (rule states_ok_mono [OF states])
    next
      case (Some f)
      then have "le_id e = le_id f" by (rule key)
      with spec(4) states Some show ?thesis by (simp del: fun_upd_apply)
    qed
  qed
  moreover have "length (AList.update (le_id e) e entries') \<le> MAX_RETAINED_SUBAGENTS"
  proof (cases found)
    case None
    then show ?thesis using room length_update_le [of "le_id e" e entries'] by simp
  next
    case (Some f)
    then have "map_of entries' (le_id e) \<noteq> None" using key spec(4) by simp
    then show ?thesis
      using length_update_present [of entries' "le_id e" e] store_inv_resolve(3) [OF inv resolve] by simp
  qed
  ultimately show ?thesis using spec(1) by (simp add: store_inv_def)
qed

lemma with_identity_simps [simp]:
  "le_toolId (with_identity e i) = coalesce (ei_toolId i) (le_toolId e)"
  "le_taskId (with_identity e i) = coalesce (ei_taskId i) (le_taskId e)"
  "le_agentThreadId (with_identity e i) = coalesce (ei_agentThreadId i) (le_agentThreadId e)"
  "le_id (with_identity e i) = le_id e"
  by (simp_all add: with_identity_def)

lemma shares_with_ids:
  "shares (with_identity e identity) x \<Longrightarrow> shares e x \<or> matches identity x"
  "shares (with_valid_ids e identity) x \<Longrightarrow> shares e x \<or> matches identity x"
proof -
  show "shares (with_identity e identity) x \<Longrightarrow> shares e x \<or> matches identity x"
    unfolding shares_def matches_def with_identity_simps
    by (elim disjE) (drule coalesce_match; blast)+
  show "shares (with_valid_ids e identity) x \<Longrightarrow> shares e x \<or> matches identity x"
    unfolding shares_def matches_def with_valid_ids_def by (auto split: if_splits)
qed

lemma fresh_entry_simps [simp]:
  "le_id (fresh_entry i n d) = i" "\<not> shares (fresh_entry i n d) x"
  by (simp_all add: fresh_entry_def shares_def)

lemma fresh_entry_core:
  "present_text 272 i \<Longrightarrow> bounded_text 128 n \<Longrightarrow> bounded_text 512 d \<Longrightarrow> entry_core (fresh_entry i n d)"
  by (simp add: fresh_entry_def entry_core_def)

lemma subagent_name [simp]: "bounded_text 128 (js ''subagent'')"
  using key_prefix_bytes(5) by (simp add: bounded_text_def del: js_simps)

text \<open>What the details of an event leave alone.\<close>

definition same_ids :: "lifecycle_entry \<Rightarrow> lifecycle_entry \<Rightarrow> bool" where
  "same_ids a b \<longleftrightarrow> le_id a = le_id b \<and> le_toolId a = le_toolId b \<and> le_taskId a = le_taskId b \<and>
     le_agentThreadId a = le_agentThreadId b"

lemma same_ids_shares: "same_ids a b \<Longrightarrow> shares a x = shares b x"
  by (simp add: same_ids_def shares_def)

lemma same_ids_identity: "same_ids a b \<Longrightarrow> has_identity a = has_identity b"
  by (simp add: same_ids_def has_identity_def)

lemma starting_title_spec:
  "entry_core e \<Longrightarrow> entry_core (starting_title e d)" "same_ids (starting_title e d) e"
  "le_telemetryState (starting_title e d) = le_telemetryState e"
  using taskTitleOf_present [of d]
  by (simp_all add: starting_title_def entry_core_def same_ids_def)

lemma lifecycleState_state_ok [simp]: "state_ok (e\<lparr>le_state := lifecycleState e\<rparr>)"
  by (simp add: state_ok_def lifecycleState_def)

lemma entry_core_state [simp]: "entry_core (e\<lparr>le_state := s\<rparr>) = entry_core e"
  by (simp add: entry_core_def)

lemma same_ids_state [simp]: "same_ids (e\<lparr>le_state := s\<rparr>) f = same_ids e f"
  by (simp add: same_ids_def)

lemma toolCall_details_spec:
  assumes "toolCall_details e ob call = (e', ob')" and "entry_core e" and "opt_all (present_text 272) ob"
  shows "entry_core e'" and "same_ids e' e" and "opt_all (present_text 272) ob'"
proof -
  have b: "opt_all (present_text 272) (le_batchKey e)" "opt_all (present_text 480) (le_taskTitle e)"
    using assms(2) by (simp_all add: entry_core_def)
  note key = spawnBatchKey_present [of "Some (tc_toolId call)"]
  note title = taskTitleOf_present [of "Some (describe call)"]
  show ob: "opt_all (present_text 272) ob'"
    using assms(1,3) key by (auto simp: toolCall_details_def Let_def)
  show "entry_core e'"
    using assms(1,2) ob b title
    by (auto simp: toolCall_details_def Let_def entry_core_def opt_all_coalesce)
  show "same_ids e' e" using assms(1) by (auto simp: toolCall_details_def Let_def same_ids_def)
qed

end
