(* ===== verification/LifecycleRetain.thy ===== *)
theory LifecycleRetain
  imports LifecycleInv
begin

text \<open>
  Every step of \<open>retainAgentSubagentLifecycle\<close> keeps the invariant of the entry map, so what it
  returns is well formed; the map never grows past 32 entries.
\<close>

section \<open>The details of an event\<close>

lemma toolResult_details_spec:
  "entry_core e \<Longrightarrow> entry_core (toolResult_details e r)" "same_ids (toolResult_details e r) e"
  by (simp_all add: toolResult_details_def entry_core_def same_ids_def)

lemma entry_core_telemetry [simp]: "entry_core (e\<lparr>le_telemetryState := t\<rparr>) = entry_core e"
  by (simp add: entry_core_def)

lemma same_ids_telemetry [simp]: "same_ids (e\<lparr>le_telemetryState := t\<rparr>) f = same_ids e f"
  by (simp add: same_ids_def)

lemma same_ids_refl [simp]: "same_ids e e"
  by (simp add: same_ids_def)

lemma backgroundTask_details_spec:
  "entry_core e \<Longrightarrow> entry_core (backgroundTask_details e t)" "same_ids (backgroundTask_details e t) e"
  using starting_title_spec [of e "bt_description t"]
  by (simp_all add: backgroundTask_details_def Let_def)

lemma subagent_details_spec:
  assumes "entry_core e" and "event_metrics_ok (Subagent s)"
  shows "entry_core (subagent_details e s)" and "same_ids (subagent_details e s) e"
proof -
  define titled where
    "titled = (if sub_status s = SubStarting then starting_title e (sub_description s) else e)"
  have core: "entry_core titled" and ids: "same_ids titled e"
    using assms(1) starting_title_spec [of e "sub_description s"] by (simp_all add: titled_def)
  note fields = core [unfolded entry_core_def]
  have name: "bounded_text 128 (case sub_subagentType s of None \<Rightarrow> le_name titled | Some t \<Rightarrow> clip t 128)"
    and description: "bounded_text 512
      (case sub_description s of None \<Rightarrow> le_description titled | Some d \<Rightarrow> clip d 512)"
    and tool: "opt_all (bounded_text 128)
      (coalesce (map_option (\<lambda>n. clip n 128) (sub_lastToolName s)) (le_lastToolName titled))"
    using fields by (simp_all split: option.split) (cases "sub_lastToolName s"; simp)
  show "entry_core (subagent_details e s)"
    using fields name description tool assms(2)
    by (simp add: subagent_details_def titled_def [symmetric] entry_core_def opt_all_coalesce Let_def
        del: opt_all_def)
  show "same_ids (subagent_details e s) e"
    using ids by (simp add: subagent_details_def titled_def [symmetric] same_ids_def Let_def)
qed

lemma activity_details_spec:
  "entry_core e \<Longrightarrow> entry_core (activity_details e p a)" "same_ids (activity_details e p a) e"
  by (simp_all add: activity_details_def Let_def entry_core_def same_ids_def)

lemma turnDone_details_spec:
  "entry_core e \<Longrightarrow> opt_all metric d \<Longrightarrow> entry_core (turnDone_details e d b)"
  "same_ids (turnDone_details e d b) e"
  by (simp_all add: turnDone_details_def entry_core_def same_ids_def opt_all_coalesce)

lemma event_details_spec:
  assumes "event_details e ob event = (e', ob')" and "entry_core e" and "event_metrics_ok event"
    and "opt_all (present_text 272) ob"
  shows "entry_core e'" and "same_ids e' e" and "opt_all (present_text 272) ob'"
proof -
  have "entry_core e' \<and> same_ids e' e \<and> opt_all (present_text 272) ob'"
  proof (cases event)
    case (ToolCall call)
    with assms toolCall_details_spec [of e ob call e' ob'] show ?thesis by (simp add: event_details_def)
  next
    case (Subagent s)
    with assms subagent_details_spec [of e s] show ?thesis by (auto simp: event_details_def)
  qed (use assms in \<open>auto simp: event_details_def toolResult_details_spec backgroundTask_details_spec
        activity_details_spec turnDone_details_spec\<close>)
  then show "entry_core e'" and "same_ids e' e" and "opt_all (present_text 272) ob'" by blast+
qed

section \<open>Root events\<close>

lemma with_valid_ids_core: "entry_core e \<Longrightarrow> entry_core (with_valid_ids e i)"
  by (simp add: entry_core_def with_valid_ids_def validId_iff)

lemma with_valid_ids_id [simp]: "le_id (with_valid_ids e i) = le_id e"
  by (simp add: with_valid_ids_def)

lemma with_valid_ids_identity:
  assumes "has_identity e \<or> validId (ei_toolId i) \<or> validId (ei_taskId i) \<or> validId (ei_agentThreadId i)"
  shows "has_identity (with_valid_ids e i)"
  using assms by (auto simp: has_identity_def with_valid_ids_def validId_iff)

lemma entry_key_fresh:
  assumes "entry_key None i = Some key"
  shows "present_text 272 key"
    and "validId (ei_toolId i) \<or> validId (ei_taskId i) \<or> validId (ei_agentThreadId i)"
  using assms key_prefix_bytes
  by (auto simp: entry_key_def validId_iff simp del: js_simps intro!: present_prefixed split: if_splits)

definition loop_inv :: "loop_state \<Rightarrow> bool" where
  "loop_inv state \<longleftrightarrow> store_inv (ls_entries state) \<and>
     distinct (ls_counted state) \<and> length (ls_counted state) \<le> MAX_SUBAGENT_COUNTED_NESTED_IDS \<and>
     (\<forall>ident \<in> set (ls_counted state). present_text 256 ident) \<and>
     opt_all (present_text 272) (ls_openBatchKey state)"

lemma retainIdentified_inv:
  assumes inv: "loop_inv state" and event: "event_metrics_ok event"
  shows "loop_inv (retainIdentified state event identity)"
proof -
  have store: "store_inv (ls_entries state)" and ob: "opt_all (present_text 272) (ls_openBatchKey state)"
    using inv by (simp_all add: loop_inv_def)
  obtain entries found where resolve: "resolveAlias (ls_entries state) identity = (entries, found)"
    by force
  note resolved = store_inv_resolve [OF store resolve]
  show ?thesis
  proof (cases "found = None \<and> (needs_entry event \<or> entry_key found identity = None \<or>
      length entries \<ge> MAX_RETAINED_SUBAGENTS)")
    case True
    then have "store_inv entries" using resolved(8) by blast
    with True inv show ?thesis
      by (auto simp: retainIdentified_def resolve loop_inv_def Let_def split: option.split)
  next
    case False
    obtain key where key: "entry_key found identity = Some key"
      using False by (cases found) (auto simp: entry_key_def)
    define base where
      "base = (case found of Some entry \<Rightarrow> entry | None \<Rightarrow> fresh_entry key (js ''subagent'') [])"
    obtain entry openBatchKey where details:
      "event_details (with_valid_ids base identity) (ls_openBatchKey state) event = (entry, openBatchKey)"
      by force
    have base: "entry_core base" "le_id base = key"
      "has_identity base \<or> validId (ei_toolId identity) \<or> validId (ei_taskId identity) \<or>
        validId (ei_agentThreadId identity)"
    proof (atomize (full), cases found)
      case None
      then show "entry_core base \<and> le_id base = key \<and> (has_identity base \<or>
          validId (ei_toolId identity) \<or> validId (ei_taskId identity) \<or>
          validId (ei_agentThreadId identity))"
        using key entry_key_fresh [of identity key]
        by (simp add: base_def fresh_entry_core del: js_simps)
    next
      case (Some f)
      then show "entry_core base \<and> le_id base = key \<and> (has_identity base \<or>
          validId (ei_toolId identity) \<or> validId (ei_taskId identity) \<or>
          validId (ei_agentThreadId identity))"
        using key resolved(6,7) by (simp add: base_def entry_key_def)
    qed
    note spec = event_details_spec [OF details with_valid_ids_core [OF base(1)] event ob]
    let ?entry = "entry\<lparr>le_state := lifecycleState entry\<rparr>"
    have "store_inv (AList.update (le_id ?entry) ?entry entries)"
    proof (rule put_resolved [OF store resolve])
      show "entry_core ?entry" and "state_ok ?entry" using spec(1) by simp_all
      show "has_identity ?entry"
        using same_ids_identity [OF spec(2)] with_valid_ids_identity [OF base(3)]
        by (simp add: has_identity_def)
      show "le_id ?entry = le_id f" if "found = Some f" for f
        using spec(2) that by (simp add: same_ids_def base_def)
      show "(\<exists>f. found = Some f \<and> shares f x) \<or> matches identity x" if "shares ?entry x" for x
      proof -
        have "shares (with_valid_ids base identity) x"
          using that same_ids_shares [OF spec(2), of x] by (simp add: shares_def)
        then have "shares base x \<or> matches identity x" by (rule shares_with_ids(2))
        then show ?thesis by (cases found) (simp_all add: base_def)
      qed
      show "length entries < MAX_RETAINED_SUBAGENTS" if "found = None" using that False by simp
    qed
    moreover have "le_id ?entry = key" using spec(2) base(2) by (simp add: same_ids_def)
    moreover have "retainIdentified state event identity = state
        \<lparr>ls_entries := AList.update key ?entry entries, ls_openBatchKey := openBatchKey,
         ls_changed := True\<rparr>"
      using False by (auto simp: retainIdentified_def resolve key base_def [symmetric] details Let_def)
    ultimately show ?thesis using inv spec(3) by (simp add: loop_inv_def)
  qed
qed

lemma store_inv_submap:
  assumes "store_inv m" and "map_wf m'" and "map_of m' \<subseteq>\<^sub>m map_of m"
  shows "store_inv m'"
  using assms length_map_le [of m m'] store_ok_mono states_ok_mono
  by (auto simp: store_inv_def)

lemma map_of_filter_le:
  "map_wf m \<Longrightarrow> map_wf (filter P m) \<and> map_of (filter P m) \<subseteq>\<^sub>m map_of m"
proof
  assume wf: "map_wf m"
  then show wf': "map_wf (filter P m)" by (simp add: map_wf_def distinct_map_filter)
  show "map_of (filter P m) \<subseteq>\<^sub>m map_of m"
  proof (unfold map_le_def, intro ballI)
    fix k assume "k \<in> dom (map_of (filter P m))"
    then obtain v where v: "map_of (filter P m) k = Some v" by blast
    then have "(k, v) \<in> set m" by (auto dest: map_of_SomeD)
    then have "map_of m k = Some v" using wf by (simp add: map_wf_def)
    with v show "map_of (filter P m) k = map_of m k" by simp
  qed
qed

lemma dropPlaceholders_inv: "store_inv m \<Longrightarrow> store_inv (dropPlaceholders m event)"
  using map_of_filter_le [of m] store_inv_submap [of m]
  by (auto simp: dropPlaceholders_def store_inv_def [of m] split: agent_turn_event.split)

lemma retainRoot_inv:
  assumes "loop_inv state" and "event_metrics_ok event"
  shows "loop_inv (retainRoot state event)"
proof -
  let ?dropped = "state\<lparr>ls_entries := dropPlaceholders (ls_entries state) event\<rparr>"
  have "loop_inv ?dropped" using assms(1) dropPlaceholders_inv by (simp add: loop_inv_def)
  with retainIdentified_inv [OF this assms(2)] show ?thesis
    by (simp add: retainRoot_def Let_def split: option.split)
qed

section \<open>Spawns\<close>

lemma spawnDetails_spec:
  assumes "entry_core e" and "opt_all (present_text 272) batchKey"
  shows "entry_core (spawnDetails e event batchKey receiverless)"
    and "same_ids (spawnDetails e event batchKey receiverless) e"
    and "state_ok (spawnDetails e event batchKey receiverless)"
proof -
  define model where "model = coalesce (le_model e)
    (map_option (\<lambda>m. clip m MAX_SUBAGENT_MODEL_BYTES) (ss_model event))"
  have "opt_all (present_text 64) (if model = None \<or> model = Some [] then le_model e else model)"
  proof -
    have "opt_all (bounded_text 64) model"
      using assms(1)
      by (cases "le_model e"; cases "ss_model event")
        (auto simp: model_def entry_core_def present_text_def bounded_text_def lifecycle_limits
          clip_bounded [unfolded bounded_text_def])
    then show ?thesis
      using assms(1) by (auto simp: entry_core_def opt_all_def present_text_def bounded_text_def
          split: option.splits)
  qed
  with assms taskTitleOf_present [of "ss_taskTitle event"]
  show "entry_core (spawnDetails e event batchKey receiverless)"
    by (simp add: spawnDetails_def Let_def model_def [symmetric] entry_core_def opt_all_coalesce)
  show "same_ids (spawnDetails e event batchKey receiverless) e"
    and "state_ok (spawnDetails e event batchKey receiverless)"
    by (simp_all add: spawnDetails_def Let_def) (simp add: same_ids_def)
qed

definition identity_ok :: "event_identity \<Rightarrow> bool" where
  "identity_ok i \<longleftrightarrow> opt_all (present_text 256) (ei_toolId i) \<and>
     opt_all (present_text 256) (ei_taskId i) \<and> opt_all (present_text 256) (ei_agentThreadId i) \<and>
     (ei_toolId i \<noteq> None \<or> ei_taskId i \<noteq> None \<or> ei_agentThreadId i \<noteq> None)"

lemma with_identity_core: "entry_core e \<Longrightarrow> identity_ok i \<Longrightarrow> entry_core (with_identity e i)"
  by (simp add: entry_core_def identity_ok_def with_identity_def opt_all_coalesce)

lemma with_identity_identity: "identity_ok i \<Longrightarrow> has_identity (with_identity e i)"
  by (auto simp: has_identity_def identity_ok_def)

lemma find_SomeD: "find P xs = Some x \<Longrightarrow> x \<in> set xs \<and> P x"
  by (auto simp: find_Some_iff)

lemma retainTarget_inv:
  assumes store: "store_inv entries" and call: "present_text 256 (ss_callId event)"
    and key: "opt_all (present_text 272) batchKey" and i: "identity_ok identity"
  shows "store_inv (fst (retainTarget event batchKey receiverless (entries, flag) identity))"
proof -
  obtain entries1 found where resolve: "resolveAlias entries identity = (entries1, found)" by force
  note resolved = store_inv_resolve [OF store resolve]
  define childName where "childName = (case ei_agentThreadId identity of None \<Rightarrow> None
    | Some thread \<Rightarrow> map_option le_name
        (find (\<lambda>entry. le_agentThreadId entry = Some thread) (map_values entries)))"
  define ident where "ident = (case ei_agentThreadId identity of
      None \<Rightarrow> js ''tool:'' @ ss_callId event | Some thread \<Rightarrow> js ''thread:'' @ thread)"
  define base where "base = (case found of Some entry \<Rightarrow> entry
    | None \<Rightarrow> fresh_entry ident (js ''subagent'') [])"
  define named where "named = (case childName of None \<Rightarrow> base | Some name \<Rightarrow> base\<lparr>le_name := name\<rparr>)"
  define updated where "updated = spawnDetails (with_identity named identity) event batchKey receiverless"
  have "present_text 272 ident"
    using i call key_prefix_bytes
    by (auto simp: ident_def identity_ok_def simp del: js_simps intro!: present_prefixed split: option.split)
  then have base: "entry_core base"
    using resolved(6) by (cases found) (simp_all add: base_def fresh_entry_core del: js_simps)
  have "opt_all (bounded_text 128) childName"
  proof (cases childName)
    case (Some name)
    then obtain entry where entry: "entry \<in> set (map_values entries)" and "name = le_name entry"
      by (auto simp: childName_def split: option.splits dest: find_SomeD)
    moreover from entry have "entry_core entry"
      using store map_values_iff [of entries entry] store_okD(2) by (auto simp: store_inv_def)
    ultimately show ?thesis by (simp add: Some entry_core_def)
  qed simp
  then have named: "entry_core named" "same_ids named base"
    using base by (auto simp: named_def entry_core_def same_ids_def split: option.split)
  note details = spawnDetails_spec [OF with_identity_core [OF named(1) i] key, of event receiverless]
  show ?thesis
  proof (cases "found = None \<and> length entries1 \<ge> MAX_RETAINED_SUBAGENTS")
    case True
    with resolved(8) show ?thesis by (simp add: retainTarget_def resolve Let_def)
  next
    case False
    have "store_inv (AList.update (le_id updated) updated entries1)"
    proof (rule put_resolved [OF store resolve])
      show "entry_core updated" and "state_ok updated" using details by (simp_all add: updated_def)
      show "has_identity updated"
        using same_ids_identity [OF details(2)] with_identity_identity [OF i] by (simp add: updated_def)
      show "le_id updated = le_id f" if "found = Some f" for f
        using details(2) named(2) that by (simp add: same_ids_def updated_def base_def)
      show "(\<exists>f. found = Some f \<and> shares f x) \<or> matches identity x" if "shares updated x" for x
      proof -
        have "shares (with_identity named identity) x"
          using that same_ids_shares [OF details(2)] by (simp add: updated_def)
        then have "shares base x \<or> matches identity x"
          using shares_with_ids(1) same_ids_shares [OF named(2)] by blast
        then show ?thesis by (cases found) (simp_all add: base_def)
      qed
      show "length entries1 < MAX_RETAINED_SUBAGENTS" if "found = None" using that False by simp
    qed
    moreover have "retainTarget event batchKey receiverless (entries, flag) identity =
        (if found = None \<and> length entries1 \<ge> MAX_RETAINED_SUBAGENTS then (entries1, True)
         else (AList.update (le_id updated) updated entries1, flag))"
      by (simp only: retainTarget_def Let_def prod.case resolve childName_def ident_def base_def
          named_def updated_def)
    ultimately show ?thesis using False by simp
  qed
qed

lemma foldl_retainTarget:
  assumes "store_inv entries" and "present_text 256 (ss_callId event)"
    and "opt_all (present_text 272) batchKey" and "\<forall>i \<in> set identities. identity_ok i"
  shows "store_inv (fst (foldl (retainTarget event batchKey receiverless) (entries, flag) identities))"
  using assms
proof (induction identities arbitrary: entries flag)
  case (Cons i identities)
  obtain entries' flag' where
    target: "retainTarget event batchKey receiverless (entries, flag) i = (entries', flag')" by force
  have "store_inv entries'"
    using retainTarget_inv [OF Cons.prems(1-3), of i receiverless flag] Cons.prems(4) target by simp
  with Cons target show ?case by simp
qed simp

lemma spawn_identities_ok:
  assumes "present_text 256 callId" and "\<forall>t \<in> set receivers. present_text 256 t"
  shows "\<forall>i \<in> set (spawn_identities callId receivers). identity_ok i"
  using assms by (cases receivers) (auto simp: spawn_identities_def identity_ok_def no_identity_def)

lemma retainSpawn_inv:
  assumes "store_inv entries" and "opt_all (present_text 272) openBatchKey"
    and spawned: "retainSpawn entries event openBatchKey = (entries', openBatchKey', flag)"
  shows "store_inv entries'" and "opt_all (present_text 272) openBatchKey'"
proof -
  have "store_inv entries' \<and> opt_all (present_text 272) openBatchKey'"
  proof (cases "validId (Some (ss_callId event))")
    case True
    let ?batchKey = "coalesce openBatchKey (spawnBatchKey (Some (ss_callId event)))"
    let ?receivers = "filter (\<lambda>thread. validId (Some thread)) (ss_agentThreadIds event)"
    have call: "present_text 256 (ss_callId event)" using True by (simp add: validId_iff)
    have key: "opt_all (present_text 272) ?batchKey"
      using assms(2) spawnBatchKey_present by (rule opt_all_coalesce)
    have "\<forall>i \<in> set (spawn_identities (ss_callId event) ?receivers). identity_ok i"
      using call by (rule spawn_identities_ok) (simp add: validId_iff)
    from foldl_retainTarget [OF assms(1) call key this, of "?receivers = []" False]
    show ?thesis using spawned True key by (auto simp: retainSpawn_def Let_def split: prod.splits)
  qed (use assms in \<open>auto simp: retainSpawn_def\<close>)
  then show "store_inv entries'" and "opt_all (present_text 272) openBatchKey'" by blast+
qed

section \<open>Nested spawns\<close>

lemma entry_with_toolId_SomeD:
  assumes "entry_with_toolId m t = Some e" and "store_inv m"
  shows "map_of m (le_id e) = Some e"
proof -
  have "e \<in> set (map_values m)" using assms(1) find_SomeD by (fastforce simp: entry_with_toolId_def)
  then obtain k where "map_of m k = Some e"
    using map_values_iff [of m e] assms(2) by (auto simp: store_inv_def)
  with assms(2) store_okD(1) show ?thesis by (metis store_inv_def)
qed

lemma nestedRoot_from_SomeD:
  "nestedRoot_from n m t = Some e \<Longrightarrow> store_inv m \<Longrightarrow>
     map_of m (le_id e) = Some e \<and> le_parentToolId e = None"
proof (induction n m t rule: nestedRoot_from.induct)
  case (2 depth m t)
  then show ?case by (auto dest: entry_with_toolId_SomeD split: option.splits)
qed simp

text \<open>Replacing the entry of a key by one with its ids.\<close>

lemma replace_entry:
  assumes inv: "store_inv m" and old: "map_of m (le_id e) = Some old"
    and e: "entry_core e" "same_ids e old" "state_ok e"
  shows "store_inv (AList.update (le_id e) e m)"
proof -
  have store: "store_ok (map_of m)" using inv by (simp add: store_inv_def)
  have "store_ok ((map_of m)(le_id e \<mapsto> e))"
  proof (rule store_ok_insert [OF store e(1) _ refl])
    show "has_identity e" using store_okD(3) [OF store old] same_ids_identity [OF e(2)] by simp
    show "\<not> shares e x" if "map_of m k = Some x" "k \<noteq> le_id e" for k x
      using that store_ok_unique [OF store old, of k x] same_ids_shares [OF e(2)] by auto
  qed
  moreover have "states_ok ((map_of m)(le_id e \<mapsto> e))"
    by (rule states_ok_insert [OF _ e(3)]) (use inv in \<open>simp add: store_inv_def\<close>)
  ultimately show ?thesis
    using inv old by (simp add: store_inv_def length_update_present)
qed

text \<open>
  A tool id alone matches at most one entry, so resolving it changes nothing.
\<close>

lemma resolve_toolId:
  assumes inv: "store_inv m"
    and resolve: "resolveAlias m (no_identity\<lparr>ei_toolId := Some t\<rparr>) = (m', found)"
  shows "m' = m" and "found = Some e \<Longrightarrow> map_of m (le_id e) = Some e \<and> le_toolId e = Some t"
    and "found = None \<Longrightarrow> map_of m k = Some x \<Longrightarrow> le_toolId x \<noteq> Some t"
proof -
  let ?i = "no_identity\<lparr>ei_toolId := Some t\<rparr>"
  have wf: "map_wf m" and store: "store_ok (map_of m)" using inv by (simp_all add: store_inv_def)
  have keyed: "\<forall>k e. map_of m k = Some e \<longrightarrow> le_id e = k" using store_okD [OF store] by blast
  note keys = filter_map_values_keys [OF wf keyed, of "matches ?i"]
  have match: "matches ?i x \<longleftrightarrow> le_toolId x = Some t" for x
    by (auto simp: matches_def no_identity_def)
  have hit: "x \<in> set (filter (matches ?i) (map_values m)) \<longleftrightarrow>
      le_toolId x = Some t \<and> map_of m (le_id x) = Some x" for x
    using map_values_iff [OF wf, of x] keyed by (auto simp: match)
  have "m' = m \<and> (\<forall>e. found = Some e \<longrightarrow> map_of m (le_id e) = Some e \<and> le_toolId e = Some t) \<and>
    (found = None \<longrightarrow> (\<forall>k x. map_of m k = Some x \<longrightarrow> le_toolId x \<noteq> Some t))"
  proof (cases "filter (matches ?i) (map_values m)")
    case Nil
    then have "\<not> (le_toolId x = Some t \<and> map_of m (le_id x) = Some x)" for x
      using hit [of x] by (metis empty_iff empty_set)
    with keyed Nil resolve show ?thesis by (auto simp: resolveAlias_def)
  next
    case (Cons first others)
    have first: "le_toolId first = Some t" "map_of m (le_id first) = Some first"
      using hit [of first] unfolding Cons by auto
    have "others = []"
    proof (rule ccontr)
      assume "others \<noteq> []"
      then obtain b rest where others: "others = b # rest" by (cases others) auto
      have b: "le_toolId b = Some t" "map_of m (le_id b) = Some b"
        using hit [of b] unfolding Cons others by auto
      have "shares first b" using first b by (simp add: shares_def)
      then have "le_id first = le_id b" by (rule store_ok_unique [OF store first(2) b(2)])
      then show False using keys(1) unfolding Cons others by simp
    qed
    with Cons resolve first update_triv [of m "le_id first" first] show ?thesis
      by (auto simp: resolveAlias_def)
  qed
  then show "m' = m" and "found = Some e \<Longrightarrow> map_of m (le_id e) = Some e \<and> le_toolId e = Some t"
    and "found = None \<Longrightarrow> map_of m k = Some x \<Longrightarrow> le_toolId x \<noteq> Some t" by blast+
qed

lemma insert_new:
  assumes inv: "store_inv m" and e: "entry_core e" "has_identity e" "state_ok e"
    and alone: "\<And>k x. map_of m k = Some x \<Longrightarrow> \<not> shares e x"
    and room: "length m < MAX_RETAINED_SUBAGENTS"
  shows "store_inv (AList.update (le_id e) e m)"
proof -
  have "store_ok ((map_of m)(le_id e \<mapsto> e))"
    by (rule store_ok_insert) (use inv e alone in \<open>auto simp: store_inv_def\<close>)
  moreover have "states_ok ((map_of m)(le_id e \<mapsto> e))"
    by (rule states_ok_insert [OF _ e(3)]) (use inv in \<open>simp add: store_inv_def\<close>)
  ultimately show ?thesis
    using inv room length_update_le [of "le_id e" e m] by (simp add: store_inv_def)
qed

lemma dropOldest_spec:
  "distinct xs \<Longrightarrow> distinct (dropOldest xs) \<and> set (dropOldest xs) \<subseteq> set xs \<and>
     length (dropOldest xs) \<le> MAX_SUBAGENT_COUNTED_NESTED_IDS"
  by (induction xs rule: dropOldest.induct) (auto simp: lifecycle_limits)

definition counted_ok :: "js_string js_set \<Rightarrow> bool" where
  "counted_ok counted \<longleftrightarrow> distinct counted \<and> length counted \<le> MAX_SUBAGENT_COUNTED_NESTED_IDS \<and>
     (\<forall>ident \<in> set counted. present_text 256 ident)"

lemma rememberCountedNested_ok:
  "counted_ok counted \<Longrightarrow> present_text 256 t \<Longrightarrow> counted_ok (rememberCountedNested counted t)"
  using dropOldest_spec [of "set_add t counted"]
  by (auto simp: counted_ok_def rememberCountedNested_def)

lemma countNested_spec:
  assumes "entry_core e" and "state_ok e"
  shows "entry_core (countNested e)" and "same_ids (countNested e) e" and "state_ok (countNested e)"
  using assms
  by (auto simp: countNested_def entry_core_def same_ids_def state_ok_def lifecycleState_def
      lifecycle_limits split: option.split)

lemma states_okD: "store_inv m \<Longrightarrow> map_of m k = Some e \<Longrightarrow> state_ok e"
  by (simp add: store_inv_def states_ok_def)

lemma store_inv_core: "store_inv m \<Longrightarrow> map_of m k = Some e \<Longrightarrow> entry_core e \<and> le_id e = k"
  using store_okD by (auto simp: store_inv_def)

lemma retainNestedSpawn_inv:
  assumes inv: "store_inv entries" and counted: "counted_ok counted"
    and nested: "retainNestedSpawn entries counted event parent = (entries', counted', outcome)"
  shows "store_inv entries' \<and> counted_ok counted'"
proof (cases "validId (Some (tc_toolId event)) \<and> validId (Some parent)")
  case False
  then show ?thesis using assms by (auto simp: retainNestedSpawn_def)
next
  case valid: True
  then have ids: "present_text 256 (tc_toolId event)" "present_text 256 parent"
    by (simp_all add: validId_iff)
  obtain entries1 existing where
    resolve: "resolveAlias entries (no_identity\<lparr>ei_toolId := Some (tc_toolId event)\<rparr>) = (entries1, existing)"
    by force
  note tool = resolve_toolId [OF inv resolve]
  show ?thesis
  proof (cases "(existing \<noteq> None \<and> le_parentToolId (the existing) \<noteq> None) \<or>
      tc_toolId event \<in> set counted \<or> nestedRoot entries1 parent = None \<or>
      map_option le_id existing = map_option le_id (nestedRoot entries1 parent)")
    case True
    then have "entries' = entries1 \<and> counted' = counted"
      using nested valid resolve by (auto simp: retainNestedSpawn_def split: if_splits option.splits)
    with inv counted tool(1) show ?thesis by simp
  next
    case open_case: False
    then obtain rootEntry where rootEntry: "nestedRoot entries1 parent = Some rootEntry" by auto
    have at: "map_of entries (le_id rootEntry) = Some rootEntry"
      using nestedRoot_from_SomeD rootEntry inv tool(1) by (simp add: nestedRoot_def)
    define entries2 where "entries2 = AList.update (le_id rootEntry) (countNested rootEntry) entries1"
    note counts = countNested_spec [OF store_inv_core [OF inv at, THEN conjunct1] states_okD [OF inv at]]
    have inv2: "store_inv entries2"
      using replace_entry [OF inv, of "countNested rootEntry" rootEntry] counts at
      by (simp add: entries2_def tool(1) same_ids_def)
    define description where "description = clip (describe event) 512"
    have description: "bounded_text 512 description" by (simp add: description_def)
    define taskTitle where "taskTitle = coalesce
      (case existing of None \<Rightarrow> None | Some e \<Rightarrow> le_taskTitle e) (taskTitleOf (Some (describe event)))"
    note unfolded = nested [unfolded retainNestedSpawn_def Let_def resolve prod.case rootEntry option.case,
        folded entries2_def description_def taskTitle_def]
    show ?thesis
    proof (cases existing)
      case (Some e)
      have e: "map_of entries (le_id e) = Some e" using tool(2) Some by blast
      have "opt_all (present_text 480) taskTitle"
        using store_inv_core [OF inv e] taskTitleOf_present
        by (auto simp: taskTitle_def Some entry_core_def)
      let ?e = "e\<lparr>le_parentToolId := Some parent, le_description := or_text (le_description e) description,
        le_taskTitle := coalesce taskTitle (le_taskTitle e)\<rparr>"
      have "entries' = AList.update (le_id e) ?e entries2" and "counted' = counted"
        using unfolded open_case valid Some rootEntry by (auto split: if_splits)
      moreover have "le_id e \<noteq> le_id rootEntry" using open_case Some rootEntry by simp
      then have "map_of entries2 (le_id e) = Some e" using e by (simp add: entries2_def tool(1))
      then have "store_inv (AList.update (le_id ?e) ?e entries2)"
        using store_inv_core [OF inv e] states_okD [OF inv e] ids description
          \<open>opt_all (present_text 480) taskTitle\<close>
        by (intro replace_entry [OF inv2, of _ e])
          (auto simp: entry_core_def same_ids_def state_ok_def lifecycleState_def opt_all_coalesce)
      ultimately show ?thesis using counted by simp
    next
      case None
      let ?ident = "js ''tool:'' @ tc_toolId event"
      let ?e = "(fresh_entry ?ident (clip (tc_name event) 128) description)
        \<lparr>le_toolId := Some (tc_toolId event), le_parentToolId := Some parent, le_taskTitle := taskTitle\<rparr>"
      have title: "opt_all (present_text 480) taskTitle"
        using taskTitleOf_present by (simp add: taskTitle_def None)
      have ident: "present_text 272 ?ident"
        using ids key_prefix_bytes by (intro present_prefixed) (simp_all del: js_simps, simp)
      have core: "entry_core ?e" and identity: "has_identity ?e" and state: "state_ok ?e"
        using ids title ident description
        by (simp_all add: entry_core_def has_identity_def fresh_entry_def state_ok_def lifecycleState_def
            del: js_simps)
      have "\<not> shares ?e x" if x: "map_of entries2 k = Some x" for k x
      proof -
        have "le_toolId x \<noteq> Some (tc_toolId event)"
          using x at tool(3) [OF None] counts(2)
          by (auto simp: entries2_def tool(1) same_ids_def split: if_splits)
        then show ?thesis by (simp add: shares_def fresh_entry_def)
      qed
      then have "store_inv (AList.update (le_id ?e) ?e entries2)" if "length entries2 < MAX_RETAINED_SUBAGENTS"
        using insert_new [OF inv2 core identity state _ that] by blast
      then show ?thesis
        using unfolded open_case valid None rootEntry inv2 counted rememberCountedNested_ok ids(1)
        by (auto simp: not_le split: if_splits)
    qed
  qed
qed

section \<open>The loop\<close>

lemma loop_inv_counted: "loop_inv state \<longleftrightarrow> store_inv (ls_entries state) \<and>
    counted_ok (ls_counted state) \<and> opt_all (present_text 272) (ls_openBatchKey state)"
  by (auto simp: loop_inv_def counted_ok_def)

lemma closeBatch_inv: "loop_inv state \<Longrightarrow> loop_inv (closeBatch state event)"
  by (simp add: closeBatch_def loop_inv_def)

lemma retainEvent_inv:
  assumes "loop_inv state" and event: "event_metrics_ok event"
  shows "loop_inv (retainEvent state event)"
proof -
  let ?closed = "closeBatch state event"
  have closed: "loop_inv ?closed" by (rule closeBatch_inv) fact
  note root = retainRoot_inv [OF closed event]
  show ?thesis
  proof (cases event)
    case (SubagentSpawn spawned)
    obtain entries' ob' flag where spawn:
      "retainSpawn (ls_entries ?closed) spawned (ls_openBatchKey ?closed) = (entries', ob', flag)"
      by (cases "retainSpawn (ls_entries ?closed) spawned (ls_openBatchKey ?closed)") auto
    from retainSpawn_inv [OF _ _ this] closed
    have "store_inv entries'" and "opt_all (present_text 272) ob'" by (simp_all add: loop_inv_def)
    with closed spawn SubagentSpawn show ?thesis by (simp add: retainEvent_def Let_def loop_inv_def)
  next
    case (ToolCall call)
    show ?thesis
    proof (cases "\<exists>parent. tc_parentToolId call = Some parent \<and> spawn (tc_name call)")
      case True
      then obtain parent where parent: "tc_parentToolId call = Some parent" "spawn (tc_name call)"
        by blast
      obtain entries' counted' outcome where nested:
        "retainNestedSpawn (ls_entries ?closed) (ls_counted ?closed) call parent =
          (entries', counted', outcome)"
        by (cases "retainNestedSpawn (ls_entries ?closed) (ls_counted ?closed) call parent") auto
      from retainNestedSpawn_inv [OF _ _ this] closed
      have "store_inv entries' \<and> counted_ok counted'" by (simp add: loop_inv_counted)
      with closed nested parent ToolCall show ?thesis
        by (simp add: retainEvent_def Let_def loop_inv_counted)
    next
      case False
      with root ToolCall show ?thesis
        by (auto simp: retainEvent_def Let_def split: option.split)
    qed
  qed (use root in \<open>simp_all add: retainEvent_def Let_def\<close>)
qed

lemma foldl_retainEvent_inv:
  "loop_inv state \<Longrightarrow> \<forall>e \<in> set events. event_metrics_ok e \<Longrightarrow>
     loop_inv (foldl retainEvent state events)"
  by (induction events arbitrary: state) (simp_all add: retainEvent_inv)

section \<open>Well-formed metadata\<close>

definition lifecycle_ok :: "lifecycle \<Rightarrow> bool" where
  "lifecycle_ok lc \<longleftrightarrow>
     length (lc_entries lc) \<le> 32 \<and> distinct (map le_id (lc_entries lc)) \<and>
     (\<forall>e \<in> set (lc_entries lc). entry_core e \<and> has_identity e \<and> state_ok e) \<and>
     (\<forall>a \<in> set (lc_entries lc). \<forall>b \<in> set (lc_entries lc). shares a b \<longrightarrow> le_id a = le_id b) \<and>
     opt_all (present_text 272) (lc_openBatchKey lc) \<and>
     opt_all (\<lambda>ids. ids \<noteq> [] \<and> length ids \<le> 32 \<and> distinct ids \<and> (\<forall>i \<in> set ids. present_text 256 i))
       (lc_countedNestedToolIds lc)"

lemma update_absent: "map_of m k = None \<Longrightarrow> AList.update k v m = m @ [(k, v)]"
  by (induction m) (auto split: if_splits)

lemma foldl_update_distinct:
  assumes "distinct (map le_id es)" and "\<forall>e \<in> set es. map_of m (le_id e) = None"
  shows "foldl (\<lambda>entries e. AList.update (le_id e) e entries) m es = m @ map (\<lambda>e. (le_id e, e)) es"
  using assms
proof (induction es arbitrary: m)
  case (Cons e es)
  have "map_of m (le_id e) = None" using Cons.prems by simp
  then have "AList.update (le_id e) e m = m @ [(le_id e, e)]" by (rule update_absent)
  moreover have "\<forall>x \<in> set es. map_of (m @ [(le_id e, e)]) (le_id x) = None"
  proof
    fix x assume x: "x \<in> set es"
    then have "le_id x \<noteq> le_id e" using Cons.prems(1) by (metis distinct.simps(2) image_eqI list.set_map list.simps(9))
    then show "map_of (m @ [(le_id e, e)]) (le_id x) = None"
      using Cons.prems(2) x by (simp add: map_add_def)
  qed
  ultimately show ?case using Cons.IH [of "m @ [(le_id e, e)]"] Cons.prems(1) by simp
qed simp

lemma foldl_set_add_distinct:
  "distinct (xs @ ys) \<Longrightarrow> foldl (\<lambda>counted i. set_add i counted) xs ys = xs @ ys"
  by (induction ys arbitrary: xs) (auto simp: set_add_def)

lemma initial_loop_entries:
  assumes "lifecycle_ok lc"
  shows "ls_entries (initial_loop (Some lc)) = map (\<lambda>e. (le_id e, e)) (lc_entries lc)"
  using assms foldl_update_distinct [of "lc_entries lc" "[]"]
  by (simp add: initial_loop_def lifecycle_ok_def)

lemma initial_loop_inv:
  assumes "\<And>lc. previous = Some lc \<Longrightarrow> lifecycle_ok lc"
  shows "loop_inv (initial_loop previous)"
proof (cases previous)
  case None
  then show ?thesis
    by (simp add: initial_loop_def loop_inv_def store_inv_def store_ok_def states_ok_def)
next
  case (Some lc)
  then have lc: "lifecycle_ok lc" by (rule assms)
  let ?m = "map (\<lambda>e. (le_id e, e)) (lc_entries lc)"
  have wf: "map_wf ?m" using lc by (simp add: map_wf_def lifecycle_ok_def comp_def)
  have at: "map_of ?m k = Some e \<longleftrightarrow> e \<in> set (lc_entries lc) \<and> le_id e = k" for k e
    using wf by (auto simp: map_wf_def map_of_eq_Some_iff)
  have "store_ok (map_of ?m)"
    using lc by (auto simp: store_ok_def at lifecycle_ok_def)
  moreover have "states_ok (map_of ?m)" using lc by (auto simp: states_ok_def at lifecycle_ok_def)
  ultimately have "store_inv ?m" using lc wf by (simp add: store_inv_def lifecycle_ok_def lifecycle_limits)
  moreover have "counted_ok (ls_counted (initial_loop previous))"
    using lc
    by (auto simp: Some initial_loop_def counted_ok_def lifecycle_ok_def lifecycle_limits
        foldl_set_add_distinct [where xs = "[]", simplified] split: option.split)
  moreover have "opt_all (present_text 272) (ls_openBatchKey (initial_loop previous))"
    using lc by (simp add: Some initial_loop_def lifecycle_ok_def)
  ultimately show ?thesis using initial_loop_entries [OF lc] by (simp add: loop_inv_counted Some)
qed

lemma loop_inv_lifecycle_ok:
  assumes "loop_inv state"
  shows "lifecycle_ok \<lparr>lc_entries = map_values (ls_entries state), lc_truncated = t,
    lc_openBatchKey = ls_openBatchKey state,
    lc_countedNestedToolIds =
      (if length (ls_counted state) = 0 then None else Some (ls_counted state))\<rparr>"
proof -
  have store: "store_inv (ls_entries state)" and wf: "map_wf (ls_entries state)"
    and ok: "store_ok (map_of (ls_entries state))"
    using assms by (simp_all add: loop_inv_def store_inv_def)
  note at = map_values_iff [OF wf]
  have keyed: "\<forall>k e. map_of (ls_entries state) k = Some e \<longrightarrow> le_id e = k"
    using store_okD(1) [OF ok] by blast
  have "distinct (map le_id (map_values (ls_entries state)))"
    using filter_map_values_keys(1) [OF wf keyed, of "\<lambda>_. True"] by simp
  moreover have "\<forall>e \<in> set (map_values (ls_entries state)). entry_core e \<and> has_identity e \<and> state_ok e"
    using at store_okD [OF ok] states_okD [OF store] by blast
  moreover have "\<forall>a \<in> set (map_values (ls_entries state)). \<forall>b \<in> set (map_values (ls_entries state)).
      shares a b \<longrightarrow> le_id a = le_id b"
  proof (intro ballI impI)
    fix a b assume a: "a \<in> set (map_values (ls_entries state))"
      and b: "b \<in> set (map_values (ls_entries state))" and "shares a b"
    from a b keyed have "map_of (ls_entries state) (le_id a) = Some a"
      and "map_of (ls_entries state) (le_id b) = Some b" unfolding at by auto
    then show "le_id a = le_id b" using store_ok_unique [OF ok] \<open>shares a b\<close> by blast
  qed
  moreover have "length (map_values (ls_entries state)) \<le> 32"
    using store by (simp add: store_inv_def map_values_def lifecycle_limits)
  moreover have "opt_all (present_text 272) (ls_openBatchKey state)"
    and "distinct (ls_counted state)" and "length (ls_counted state) \<le> 32"
    and "\<forall>i \<in> set (ls_counted state). present_text 256 i"
    using assms by (simp_all add: loop_inv_def lifecycle_limits)
  ultimately show ?thesis unfolding lifecycle_ok_def by simp
qed

text \<open>The invariant of the whole operation, used by the properties.\<close>

lemma retainAgentSubagentLifecycle_ok:
  assumes "\<And>lc. previous = Some lc \<Longrightarrow> lifecycle_ok lc"
    and "\<forall>e \<in> set events. event_metrics_ok e"
    and "retainAgentSubagentLifecycle previous events = Some lc"
  shows "lifecycle_ok lc"
proof -
  have "loop_inv (foldl retainEvent (initial_loop previous) events)"
    by (rule foldl_retainEvent_inv [OF initial_loop_inv assms(2)]) (rule assms(1))
  from loop_inv_lifecycle_ok [OF this] assms(1,3) show ?thesis
    by (auto simp: retainAgentSubagentLifecycle_def Let_def split: if_splits)
qed

end
