(* ===== verification/Json.thy ===== *)
theory Json
  imports Prelude
begin

text \<open>
  The JavaScript values a persistence boundary is handed: \<open>unknown\<close> in the source. A number is
  rational, \<open>None\<close> stands for \<open>NaN\<close> and the infinities; an object is the list of its own
  enumerable properties; functions and symbols are \<open>JOther\<close>. A parser that throws is \<open>None\<close>.
\<close>

datatype jsval =
    JUndefined
  | JNull
  | JBool bool
  | JNumber "rat option"
  | JString js_string
  | JArray "jsval list"
  | JObject "(js_string \<times> jsval) list"
  | JOther

text \<open>A property read, \<open>undefined\<close> when the key is absent.\<close>

definition js_get :: "(js_string \<times> jsval) list \<Rightarrow> js_string \<Rightarrow> jsval" where
  "js_get obj key = (case map_of obj key of None \<Rightarrow> JUndefined | Some v \<Rightarrow> v)"

text \<open>\<open>Number.isSafeInteger\<close> on a number, with the integer it is.\<close>

definition js_safe_int :: "rat option \<Rightarrow> int option" where
  "js_safe_int q =
     (case q of
        None \<Rightarrow> None
      | Some r \<Rightarrow>
          (let n = \<lfloor>r\<rfloor> in if rat_of_int n = r \<and> isSafeInteger n then Some n else None))"

lemma js_safe_int_of_int [simp]:
  "js_safe_int (Some (rat_of_int n)) = (if isSafeInteger n then Some n else None)"
  by (simp add: js_safe_int_def)

lemma js_safe_int_SomeD: "js_safe_int q = Some n \<Longrightarrow> q = Some (rat_of_int n) \<and> isSafeInteger n"
  by (auto simp: js_safe_int_def Let_def split: option.splits if_splits)

lemma js_inject: "js s = js t \<longleftrightarrow> s = t"
proof
  have unat: "unat (word_of_nat (of_char c) :: js_unit) = of_char c" for c :: char
  proof -
    have "(of_char c :: nat) < 256" using mod_less_divisor [of 256 "of_char c :: nat"] by simp
    then have "(of_char c :: nat) < 65536" by (rule less_trans) simp
    then show ?thesis by (simp add: unsigned_of_nat take_bit_nat_eq_self_iff)
  qed
  show "js s = js t \<Longrightarrow> s = t"
  proof (induction s arbitrary: t)
    case Nil
    then show ?case by (cases t) simp_all
  next
    case (Cons c cs)
    then obtain d ds where t: "t = d # ds" by (cases t) auto
    have heads: "(word_of_nat (of_char c) :: js_unit) = word_of_nat (of_char d)" and "js cs = js ds"
      using Cons.prems unfolding t js_simps by (simp_all only: list.inject)
    have "(of_char c :: nat) = of_char d"
      using arg_cong [OF heads, of unat] unfolding unat .
    then have "c = d" by (simp only: of_char_eq_iff)
    with Cons.IH [OF \<open>js cs = js ds\<close>] t show ?case by simp
  qed
qed simp

text \<open>Building an object from optional properties.\<close>

definition js_field :: "string \<Rightarrow> jsval option \<Rightarrow> (js_string \<times> jsval) list" where
  "js_field key v = (case v of None \<Rightarrow> [] | Some x \<Rightarrow> [(js key, x)])"

lemma map_of_js_field_append:
  "map_of (js_field k v @ rest) (js k') =
     (if k = k' \<and> v \<noteq> None then v else map_of rest (js k'))"
  by (cases v) (simp_all add: js_field_def js_inject del: js_simps)

lemma js_field_keys: "fst ` set (js_field k v) \<subseteq> {js k}"
  by (cases v) (simp_all add: js_field_def)

text \<open>Reading a property back: \<open>undefined\<close> for an absent optional field.\<close>

definition js_opt :: "('a \<Rightarrow> jsval) \<Rightarrow> 'a option \<Rightarrow> jsval" where
  "js_opt f x = (case x of None \<Rightarrow> JUndefined | Some v \<Rightarrow> f v)"

definition js_pick :: "jsval option \<Rightarrow> jsval \<Rightarrow> jsval" where
  "js_pick v d = (case v of None \<Rightarrow> d | Some x \<Rightarrow> x)"

lemma js_pick_simps [simp]:
  "js_pick (Some v) d = v" "js_pick (map_option f x) JUndefined = js_opt f x"
proof -
  show "js_pick (Some v) d = v" by (simp add: js_pick_def)
  show "js_pick (map_option f x) JUndefined = js_opt f x" by (cases x) (simp_all add: js_pick_def js_opt_def)
qed

lemma js_get_append:
  "js_get (js_field k v @ rest) (js k') =
     (if k = k' then js_pick v (js_get rest (js k')) else js_get rest (js k'))"
  by (cases v)
    (simp_all add: js_get_def js_pick_def map_of_js_field_append del: js_simps map_of_append)

lemma js_get_single:
  "js_get (js_field k v) (js k') = (if k = k' then js_pick v JUndefined else JUndefined)"
  using js_get_append [of k v "[]"] by (simp add: js_get_def del: js_simps)

text \<open>The keys of an object built from optional properties.\<close>

lemma js_keys_append [simp]:
  "fst ` set (js_field k v @ rest) = (if v = None then {} else {js k}) \<union> fst ` set rest"
  by (cases v) (simp_all add: js_field_def del: js_simps)

lemma js_keys_single [simp]: "fst ` set (js_field k v) = (if v = None then {} else {js k})"
  by (cases v) (simp_all add: js_field_def del: js_simps)

lemma length_js_field [simp]: "length (js_field k v) = (if v = None then 0 else 1)"
  by (cases v) (simp_all add: js_field_def)

lemma js_mem_image: "js k \<in> js ` S \<longleftrightarrow> k \<in> S"
  by (auto simp: js_inject simp del: js_simps)

end
