(* ===== verification/LifecycleParse.thy ===== *)
theory LifecycleParse
  imports LifecycleRetain Json "HOL-Library.Monad_Syntax"
begin

text \<open>
  The persistence boundary of the lifecycle metadata, \<open>parseAgentSubagentLifecycle\<close> and
  \<open>readAgentSubagentLifecycle\<close> of \<open>agentSubagentLifecycle.ts\<close>, and the theorem that what
  the runtime retains is what the boundary accepts. \<open>None\<close> is the thrown \<open>TypeError\<close>.
\<close>

section \<open>The parser\<close>

definition p_fail_if :: "bool \<Rightarrow> unit option" where
  "p_fail_if bad = (if bad then None else Some ())"

definition p_object :: "jsval \<Rightarrow> (js_string \<times> jsval) list option" where
  "p_object item = (case item of JObject properties \<Rightarrow> Some properties | _ \<Rightarrow> None)"

definition p_text :: "jsval \<Rightarrow> nat \<Rightarrow> js_string option" where
  "p_text item limit =
     (case item of JString s \<Rightarrow> if length (utf8_encode s) > limit then None else Some s | _ \<Rightarrow> None)"

definition p_presentText :: "jsval \<Rightarrow> nat \<Rightarrow> js_string option" where
  "p_presentText item limit = do { s \<leftarrow> p_text item limit; if s = [] then None else Some s }"

text \<open>\<open>entry.key === undefined ? absent : parse(entry.key)\<close>.\<close>

definition p_optional :: "jsval \<Rightarrow> (jsval \<Rightarrow> 'a option) \<Rightarrow> 'a option option" where
  "p_optional item parse = (if item = JUndefined then Some None else map_option Some (parse item))"

fun state_string :: "lifecycle_state \<Rightarrow> js_string" where
  "state_string LcRunning = js ''running''"
| "state_string LcCompleted = js ''completed''"
| "state_string LcFailed = js ''failed''"
| "state_string LcInterrupted = js ''interrupted''"

definition p_state :: "jsval \<Rightarrow> lifecycle_state option" where
  "p_state item =
     (if item = JString (js ''running'') then Some LcRunning
      else if item = JString (js ''completed'') then Some LcCompleted
      else if item = JString (js ''failed'') then Some LcFailed
      else if item = JString (js ''interrupted'') then Some LcInterrupted
      else None)"

definition p_effort :: "jsval \<Rightarrow> spawn_effort option" where
  "p_effort item =
     find (\<lambda>effort. item = JString (spawn_effort_string effort))
       [EffortNone, EffortMinimal, EffortLow, EffortMedium, EffortHigh, EffortXhigh]"

definition p_metric :: "jsval \<Rightarrow> int option" where
  "p_metric item =
     (case item of
        JNumber q \<Rightarrow>
          do { n \<leftarrow> js_safe_int q; if n < 0 then None else Some n }
      | _ \<Rightarrow> None)"

definition p_nestedCount :: "jsval \<Rightarrow> int option" where
  "p_nestedCount item =
     (case item of
        JNumber q \<Rightarrow>
          do { n \<leftarrow> js_safe_int q;
               if n < 1 \<or> n > MAX_SUBAGENT_NESTED_COUNT then None else Some n }
      | _ \<Rightarrow> None)"

fun p_all :: "('a \<Rightarrow> 'b option) \<Rightarrow> 'a list \<Rightarrow> 'b list option" where
  "p_all parse [] = Some []"
| "p_all parse (x # xs) = do { y \<leftarrow> parse x; ys \<leftarrow> p_all parse xs; Some (y # ys) }"

definition p_countedIds :: "jsval \<Rightarrow> js_string list option" where
  "p_countedIds item =
     (case item of
        JArray items \<Rightarrow>
          if length items = 0 \<or> length items > MAX_SUBAGENT_COUNTED_NESTED_IDS then None
          else do { ids \<leftarrow> p_all (\<lambda>ident. p_presentText ident 256) items;
                    if distinct ids then Some ids else None }
      | _ \<Rightarrow> None)"

text \<open>One turn of the loop over the identity keys, with the set of aliases seen.\<close>

definition p_alias ::
  "(js_string \<times> jsval) list \<Rightarrow> string \<Rightarrow> js_string set \<Rightarrow>
     (js_string option \<times> js_string set) option" where
  "p_alias entry key used =
     (if js_get entry (js key) = JUndefined then Some (None, used)
      else do {
        v \<leftarrow> p_text (js_get entry (js key)) 256;
        (let tagged = js key @ js '':'' @ v in
         if v = [] \<or> tagged \<in> used then None else Some (Some v, insert tagged used)) })"

definition entry_fields :: "string list" where
  "entry_fields =
     [''id'', ''toolId'', ''taskId'', ''agentThreadId'', ''name'', ''description'', ''state'',
      ''telemetryState'', ''resultState'', ''durationMs'', ''totalTokens'', ''steps'',
      ''lastToolName'', ''taskTitle'', ''batchKey'', ''nestedCount'', ''parentToolId'',
      ''model'', ''effort'']"

definition root_fields :: "string list" where
  "root_fields = [''entries'', ''truncated'', ''openBatchKey'', ''countedNestedToolIds'']"

definition unknown_key :: "(js_string \<times> jsval) list \<Rightarrow> string list \<Rightarrow> bool" where
  "unknown_key obj known \<longleftrightarrow> (\<exists>(key, v) \<in> set obj. key \<notin> js ` set known)"

text \<open>The ids an entry has, the loop over \<open>toolId\<close>, \<open>taskId\<close> and \<open>agentThreadId\<close>.\<close>

definition p_identity ::
  "(js_string \<times> jsval) list \<Rightarrow> js_string set \<Rightarrow>
     (js_string option \<times> js_string option \<times> js_string option \<times> js_string set) option" where
  "p_identity entry used =
     do { (tool, used1) \<leftarrow> p_alias entry ''toolId'' used;
          (task, used2) \<leftarrow> p_alias entry ''taskId'' used1;
          (thread, used3) \<leftarrow> p_alias entry ''agentThreadId'' used2;
          if tool = None \<and> task = None \<and> thread = None then None
          else Some (tool, task, thread, used3) }"

definition p_entry ::
  "js_string set \<times> js_string set \<Rightarrow> jsval \<Rightarrow>
     (lifecycle_entry \<times> js_string set \<times> js_string set) option" where
  "p_entry known raw =
     do {
       let (seen, used) = known;
       entry \<leftarrow> p_object raw;
       p_fail_if (unknown_key entry entry_fields);
       ident \<leftarrow> p_text (js_get entry (js ''id'')) 272;
       p_fail_if (ident = [] \<or> ident \<in> seen);
       (tool, task, thread, used') \<leftarrow> p_identity entry used;
       durationMs \<leftarrow> p_optional (js_get entry (js ''durationMs'')) p_metric;
       totalTokens \<leftarrow> p_optional (js_get entry (js ''totalTokens'')) p_metric;
       steps \<leftarrow> p_optional (js_get entry (js ''steps'')) p_metric;
       nestedCount \<leftarrow> p_optional (js_get entry (js ''nestedCount'')) p_nestedCount;
       telemetryState \<leftarrow> p_optional (js_get entry (js ''telemetryState'')) p_state;
       resultState \<leftarrow> p_optional (js_get entry (js ''resultState'')) p_state;
       p_fail_if (resultState = Some LcRunning \<or> resultState = Some LcInterrupted);
       let expected =
         (if resultState = Some LcFailed \<or> telemetryState = Some LcFailed then LcFailed
          else case coalesce telemetryState resultState of None \<Rightarrow> LcRunning | Some s \<Rightarrow> s);
       state \<leftarrow> p_state (js_get entry (js ''state''));
       p_fail_if (state \<noteq> expected);
       name \<leftarrow> p_text (js_get entry (js ''name'')) 128;
       description \<leftarrow> p_text (js_get entry (js ''description'')) 512;
       lastToolName \<leftarrow> p_optional (js_get entry (js ''lastToolName'')) (\<lambda>v. p_text v 128);
       taskTitle \<leftarrow> p_optional (js_get entry (js ''taskTitle''))
         (\<lambda>v. p_presentText v MAX_SUBAGENT_TASK_TITLE_BYTES);
       batchKey \<leftarrow> p_optional (js_get entry (js ''batchKey''))
         (\<lambda>v. p_presentText v MAX_SUBAGENT_BATCH_KEY_BYTES);
       parentToolId \<leftarrow> p_optional (js_get entry (js ''parentToolId''))
         (\<lambda>v. p_presentText v MAX_SUBAGENT_PARENT_TOOL_ID_BYTES);
       model \<leftarrow> p_optional (js_get entry (js ''model''))
         (\<lambda>v. p_presentText v MAX_SUBAGENT_MODEL_BYTES);
       effort \<leftarrow> p_optional (js_get entry (js ''effort'')) p_effort;
       Some
         (\<lparr>le_id = ident, le_toolId = tool, le_taskId = task, le_agentThreadId = thread,
           le_name = name, le_description = description, le_state = expected,
           le_telemetryState = telemetryState, le_resultState = resultState,
           le_durationMs = durationMs, le_totalTokens = totalTokens, le_steps = steps,
           le_lastToolName = lastToolName, le_taskTitle = taskTitle, le_batchKey = batchKey,
           le_nestedCount = nestedCount, le_parentToolId = parentToolId, le_model = model,
           le_effort = effort\<rparr>,
          insert ident seen, used')
     }"

fun p_entries ::
  "js_string set \<times> js_string set \<Rightarrow> jsval list \<Rightarrow> lifecycle_entry list option" where
  "p_entries known [] = Some []"
| "p_entries known (raw # raws) =
     do { (entry, known') \<leftarrow> p_entry known raw;
          entries \<leftarrow> p_entries known' raws;
          Some (entry # entries) }"

definition parseAgentSubagentLifecycle :: "jsval \<Rightarrow> lifecycle option option" where
  "parseAgentSubagentLifecycle item =
     (if item = JUndefined then Some None
      else do {
        obj \<leftarrow> p_object item;
        p_fail_if (unknown_key obj root_fields);
        truncated \<leftarrow> (case js_get obj (js ''truncated'') of JBool b \<Rightarrow> Some b | _ \<Rightarrow> None);
        raws \<leftarrow> (case js_get obj (js ''entries'') of JArray raws \<Rightarrow> Some raws | _ \<Rightarrow> None);
        p_fail_if (length raws > MAX_RETAINED_SUBAGENTS);
        entries \<leftarrow> p_entries ({}, {}) raws;
        openBatchKey \<leftarrow> p_optional (js_get obj (js ''openBatchKey''))
          (\<lambda>v. p_presentText v MAX_SUBAGENT_BATCH_KEY_BYTES);
        counted \<leftarrow> p_optional (js_get obj (js ''countedNestedToolIds'')) p_countedIds;
        Some (Some \<lparr>lc_entries = entries, lc_truncated = truncated,
          lc_openBatchKey = openBatchKey, lc_countedNestedToolIds = counted\<rparr>)
      })"

definition readAgentSubagentLifecycle :: "jsval \<Rightarrow> lifecycle option" where
  "readAgentSubagentLifecycle item =
     (case parseAgentSubagentLifecycle item of None \<Rightarrow> None | Some result \<Rightarrow> result)"

section \<open>The value of retained metadata\<close>

text \<open>
  The object the runtime holds, as the value the boundary is handed when it is read back: an
  absent optional field has no property.
\<close>

definition entry_value :: "lifecycle_entry \<Rightarrow> jsval" where
  "entry_value e = JObject
     (js_field ''id'' (Some (JString (le_id e))) @
      js_field ''toolId'' (map_option JString (le_toolId e)) @
      js_field ''taskId'' (map_option JString (le_taskId e)) @
      js_field ''agentThreadId'' (map_option JString (le_agentThreadId e)) @
      js_field ''name'' (Some (JString (le_name e))) @
      js_field ''description'' (Some (JString (le_description e))) @
      js_field ''state'' (Some (JString (state_string (le_state e)))) @
      js_field ''telemetryState'' (map_option (\<lambda>s. JString (state_string s)) (le_telemetryState e)) @
      js_field ''resultState'' (map_option (\<lambda>s. JString (state_string s)) (le_resultState e)) @
      js_field ''durationMs'' (map_option (\<lambda>n. JNumber (Some (of_int n))) (le_durationMs e)) @
      js_field ''totalTokens'' (map_option (\<lambda>n. JNumber (Some (of_int n))) (le_totalTokens e)) @
      js_field ''steps'' (map_option (\<lambda>n. JNumber (Some (of_int n))) (le_steps e)) @
      js_field ''lastToolName'' (map_option JString (le_lastToolName e)) @
      js_field ''taskTitle'' (map_option JString (le_taskTitle e)) @
      js_field ''batchKey'' (map_option JString (le_batchKey e)) @
      js_field ''nestedCount'' (map_option (\<lambda>n. JNumber (Some (of_int n))) (le_nestedCount e)) @
      js_field ''parentToolId'' (map_option JString (le_parentToolId e)) @
      js_field ''model'' (map_option JString (le_model e)) @
      js_field ''effort'' (map_option (\<lambda>s. JString (spawn_effort_string s)) (le_effort e)) @ [])"

definition lifecycle_value :: "lifecycle \<Rightarrow> jsval" where
  "lifecycle_value lc = JObject
     (js_field ''entries'' (Some (JArray (map entry_value (lc_entries lc)))) @
      js_field ''truncated'' (Some (JBool (lc_truncated lc))) @
      js_field ''openBatchKey'' (map_option JString (lc_openBatchKey lc)) @
      js_field ''countedNestedToolIds''
        (map_option (\<lambda>ids. JArray (map JString ids)) (lc_countedNestedToolIds lc)) @ [])"

end
