(* ===== verification/LifecycleRoundTrip.thy ===== *)
theory LifecycleRoundTrip
  imports LifecycleParse
begin

text \<open>
  The boundary against the runtime: the parser accepts exactly well-formed metadata, and gives
  back every record the runtime retains. The properties of the subagent lifecycle are here.
\<close>

section \<open>Reading the value of a record\<close>

definition entry_props :: "lifecycle_entry \<Rightarrow> (js_string \<times> jsval) list" where
  "entry_props e = (case entry_value e of JObject ps \<Rightarrow> ps | _ \<Rightarrow> [])"

lemma entry_value_props: "entry_value e = JObject (entry_props e)"
  by (simp add: entry_props_def entry_value_def)

lemma entry_get:
  "js_get (entry_props e) (js ''id'') = JString (le_id e)"
  "js_get (entry_props e) (js ''toolId'') = js_opt JString (le_toolId e)"
  "js_get (entry_props e) (js ''taskId'') = js_opt JString (le_taskId e)"
  "js_get (entry_props e) (js ''agentThreadId'') = js_opt JString (le_agentThreadId e)"
  "js_get (entry_props e) (js ''name'') = JString (le_name e)"
  "js_get (entry_props e) (js ''description'') = JString (le_description e)"
  "js_get (entry_props e) (js ''state'') = JString (state_string (le_state e))"
  "js_get (entry_props e) (js ''telemetryState'') =
     js_opt (\<lambda>s. JString (state_string s)) (le_telemetryState e)"
  "js_get (entry_props e) (js ''resultState'') =
     js_opt (\<lambda>s. JString (state_string s)) (le_resultState e)"
  "js_get (entry_props e) (js ''durationMs'') = js_opt (\<lambda>n. JNumber (Some (of_int n))) (le_durationMs e)"
  "js_get (entry_props e) (js ''totalTokens'') = js_opt (\<lambda>n. JNumber (Some (of_int n))) (le_totalTokens e)"
  "js_get (entry_props e) (js ''steps'') = js_opt (\<lambda>n. JNumber (Some (of_int n))) (le_steps e)"
  "js_get (entry_props e) (js ''lastToolName'') = js_opt JString (le_lastToolName e)"
  "js_get (entry_props e) (js ''taskTitle'') = js_opt JString (le_taskTitle e)"
  "js_get (entry_props e) (js ''batchKey'') = js_opt JString (le_batchKey e)"
  "js_get (entry_props e) (js ''nestedCount'') = js_opt (\<lambda>n. JNumber (Some (of_int n))) (le_nestedCount e)"
  "js_get (entry_props e) (js ''parentToolId'') = js_opt JString (le_parentToolId e)"
  "js_get (entry_props e) (js ''model'') = js_opt JString (le_model e)"
  "js_get (entry_props e) (js ''effort'') = js_opt (\<lambda>s. JString (spawn_effort_string s)) (le_effort e)"
  by (simp_all add: entry_props_def entry_value_def js_get_append js_get_single del: js_simps)

lemma unknown_key_append:
  "unknown_key (js_field k v @ rest) known \<longleftrightarrow> (v \<noteq> None \<and> k \<notin> set known) \<or> unknown_key rest known"
  by (cases v) (auto simp: unknown_key_def js_field_def js_inject simp del: js_simps)

lemma unknown_key_single: "unknown_key (js_field k v) known \<longleftrightarrow> v \<noteq> None \<and> k \<notin> set known"
  using unknown_key_append [of k v "[]" known] by (simp add: unknown_key_def)

lemma entry_known: "\<not> unknown_key (entry_props e) entry_fields"
  by (simp add: entry_props_def entry_value_def unknown_key_append unknown_key_single
      entry_fields_def del: js_simps)

section \<open>Parsers of fields\<close>

lemma p_text_JString [simp]:
  "p_text (JString s) n = (if utf8ByteLength s \<le> n then Some s else None)"
  by (simp add: p_text_def length_utf8_encode)

lemma p_presentText_JString [simp]:
  "p_presentText (JString s) n = (if present_text n s then Some s else None)"
  by (simp add: p_presentText_def present_text_def)

lemma p_optional_js_opt:
  assumes "\<And>v. x = Some v \<Longrightarrow> f v \<noteq> JUndefined \<and> parse (f v) = Some v"
  shows "p_optional (js_opt f x) parse = Some x"
  using assms by (cases x) (simp_all add: p_optional_def js_opt_def)

lemma p_state_string [simp]: "p_state (JString (state_string s)) = Some s"
  by (cases s) (simp_all add: p_state_def js_inject del: js_simps)

lemma p_state_SomeD: "p_state v = Some s \<Longrightarrow> v = JString (state_string s)"
  by (auto simp: p_state_def simp del: js_simps split: if_splits)

lemma p_effort_string [simp]: "p_effort (JString (spawn_effort_string s)) = Some s"
  by (cases s) (simp_all add: p_effort_def js_inject del: js_simps)

lemma p_metric_int [simp]: "metric n \<Longrightarrow> p_metric (JNumber (Some (of_int n))) = Some n"
  by (simp add: p_metric_def metric_def)

lemma p_nestedCount_int [simp]:
  "1 \<le> n \<Longrightarrow> n \<le> 999 \<Longrightarrow> p_nestedCount (JNumber (Some (of_int n))) = Some n"
  by (simp add: p_nestedCount_def lifecycle_limits isSafeInteger_def max_safe_integer_def)

lemma p_all_map: "(\<And>x. x \<in> set xs \<Longrightarrow> parse (f x) = Some x) \<Longrightarrow> p_all parse (map f xs) = Some xs"
  by (induction xs) simp_all

section \<open>Aliases\<close>

definition tag :: "string \<Rightarrow> js_string \<Rightarrow> js_string" where
  "tag key v = js key @ js '':'' @ v"

lemma tag_eq [simp]:
  "tag k a = tag k b \<longleftrightarrow> a = b"
  "tag ''toolId'' a \<noteq> tag ''taskId'' b" "tag ''taskId'' b \<noteq> tag ''toolId'' a"
  "tag ''toolId'' a \<noteq> tag ''agentThreadId'' b" "tag ''agentThreadId'' b \<noteq> tag ''toolId'' a"
  "tag ''taskId'' a \<noteq> tag ''agentThreadId'' b" "tag ''agentThreadId'' b \<noteq> tag ''taskId'' a"
  by (simp_all add: tag_def)

definition opt_tag :: "string \<Rightarrow> js_string option \<Rightarrow> js_string set" where
  "opt_tag key x = (case x of None \<Rightarrow> {} | Some v \<Rightarrow> {tag key v})"

definition entry_tags :: "lifecycle_entry \<Rightarrow> js_string set" where
  "entry_tags e = opt_tag ''toolId'' (le_toolId e) \<union> opt_tag ''taskId'' (le_taskId e) \<union>
     opt_tag ''agentThreadId'' (le_agentThreadId e)"

lemma tags_disjoint_iff: "entry_tags a \<inter> entry_tags b = {} \<longleftrightarrow> \<not> shares a b"
  by (cases "le_toolId a"; cases "le_taskId a"; cases "le_agentThreadId a";
      cases "le_toolId b"; cases "le_taskId b"; cases "le_agentThreadId b")
    (auto simp: entry_tags_def opt_tag_def shares_def)

lemma p_alias_eq:
  "p_alias entry key used =
     (case js_get entry (js key) of
        JUndefined \<Rightarrow> Some (None, used)
      | JString v \<Rightarrow>
          if present_text 256 v \<and> tag key v \<notin> used then Some (Some v, insert (tag key v) used) else None
      | _ \<Rightarrow> None)"
  by (cases "js_get entry (js key)")
    (simp_all add: p_alias_def p_text_def tag_def present_text_def length_utf8_encode Let_def del: js_simps)

lemma p_alias_value:
  assumes "js_get entry (js key) = js_opt JString x" and "opt_all (present_text 256) x"
    and "opt_tag key x \<inter> used = {}"
  shows "p_alias entry key used = Some (x, used \<union> opt_tag key x)"
  using assms by (cases x) (auto simp: p_alias_eq js_opt_def opt_tag_def)

lemma p_alias_SomeD:
  assumes "p_alias entry key used = Some (x, used')"
  shows "opt_all (present_text 256) x" and "opt_tag key x \<inter> used = {}"
    and "used' = used \<union> opt_tag key x"
  using assms by (auto simp: p_alias_eq opt_tag_def split: jsval.splits if_splits)

lemma p_identity_value:
  assumes "entry_core e" and "has_identity e" and "entry_tags e \<inter> used = {}"
  shows "p_identity (entry_props e) used =
    Some (le_toolId e, le_taskId e, le_agentThreadId e, used \<union> entry_tags e)"
proof -
  note ids = entry_core_ids [OF assms(1)]
  have disjoint: "opt_tag ''toolId'' (le_toolId e) \<inter> used = {}"
    "opt_tag ''taskId'' (le_taskId e) \<inter> (used \<union> opt_tag ''toolId'' (le_toolId e)) = {}"
    "opt_tag ''agentThreadId'' (le_agentThreadId e) \<inter>
      (used \<union> opt_tag ''toolId'' (le_toolId e) \<union> opt_tag ''taskId'' (le_taskId e)) = {}"
    using assms(3) by (auto simp: entry_tags_def opt_tag_def split: option.splits)
  from p_alias_value [OF entry_get(2) _ disjoint(1)] p_alias_value [OF entry_get(3) _ disjoint(2)]
    p_alias_value [OF entry_get(4) _ disjoint(3)] ids assms(2)
  show ?thesis
    by (simp add: p_identity_def has_identity_def entry_tags_def Un_assoc del: js_simps)
qed

lemma p_entry_value:
  assumes "entry_core e" and "has_identity e" and "state_ok e" and "le_id e \<notin> seen"
    and "entry_tags e \<inter> used = {}"
  shows "p_entry (seen, used) (entry_value e) =
    Some (e, insert (le_id e) seen, used \<union> entry_tags e)"
proof -
  note core = assms(1) [unfolded entry_core_def]
  have state: "(if le_resultState e = Some LcFailed \<or> le_telemetryState e = Some LcFailed then LcFailed
      else case coalesce (le_telemetryState e) (le_resultState e) of None \<Rightarrow> LcRunning | Some s \<Rightarrow> s) =
    le_state e"
    using assms(3) by (simp add: state_ok_def lifecycleState_def)
  have result: "\<not> (le_resultState e = Some LcRunning \<or> le_resultState e = Some LcInterrupted)"
    using core by auto
  have optional:
    "p_optional (js_opt (\<lambda>n. JNumber (Some (of_int n))) (le_durationMs e)) p_metric = Some (le_durationMs e)"
    "p_optional (js_opt (\<lambda>n. JNumber (Some (of_int n))) (le_totalTokens e)) p_metric = Some (le_totalTokens e)"
    "p_optional (js_opt (\<lambda>n. JNumber (Some (of_int n))) (le_steps e)) p_metric = Some (le_steps e)"
    "p_optional (js_opt (\<lambda>n. JNumber (Some (of_int n))) (le_nestedCount e)) p_nestedCount =
       Some (le_nestedCount e)"
    "p_optional (js_opt (\<lambda>s. JString (state_string s)) (le_telemetryState e)) p_state =
       Some (le_telemetryState e)"
    "p_optional (js_opt (\<lambda>s. JString (state_string s)) (le_resultState e)) p_state =
       Some (le_resultState e)"
    "p_optional (js_opt JString (le_lastToolName e)) (\<lambda>v. p_text v 128) = Some (le_lastToolName e)"
    "p_optional (js_opt JString (le_taskTitle e)) (\<lambda>v. p_presentText v MAX_SUBAGENT_TASK_TITLE_BYTES) =
       Some (le_taskTitle e)"
    "p_optional (js_opt JString (le_batchKey e)) (\<lambda>v. p_presentText v MAX_SUBAGENT_BATCH_KEY_BYTES) =
       Some (le_batchKey e)"
    "p_optional (js_opt JString (le_parentToolId e))
       (\<lambda>v. p_presentText v MAX_SUBAGENT_PARENT_TOOL_ID_BYTES) = Some (le_parentToolId e)"
    "p_optional (js_opt JString (le_model e)) (\<lambda>v. p_presentText v MAX_SUBAGENT_MODEL_BYTES) =
       Some (le_model e)"
    "p_optional (js_opt (\<lambda>s. JString (spawn_effort_string s)) (le_effort e)) p_effort = Some (le_effort e)"
    using core by (auto intro!: p_optional_js_opt simp: bounded_text_def lifecycle_limits)
  show ?thesis
    using core assms(4) p_identity_value [OF assms(1,2,5)]
    by (simp add: p_entry_def entry_value_props p_object_def p_fail_if_def entry_known entry_get optional
        state result present_text_def bounded_text_def del: js_simps)
qed

section \<open>Soundness of the entry parser\<close>

lemma p_fail_if_SomeD: "p_fail_if b = Some u \<Longrightarrow> \<not> b"
  by (simp add: p_fail_if_def split: if_splits)

lemma p_text_SomeD: "p_text v n = Some s \<Longrightarrow> bounded_text n s"
  by (auto simp: p_text_def bounded_text_def length_utf8_encode split: jsval.splits if_splits)

lemma p_presentText_SomeD: "p_presentText v n = Some s \<Longrightarrow> present_text n s"
  by (auto simp: p_presentText_def present_text_def bounded_text_def dest!: p_text_SomeD
      split: bind_splits if_splits)

lemma p_metric_SomeD: "p_metric v = Some n \<Longrightarrow> metric n"
  by (auto simp: p_metric_def metric_def dest!: js_safe_int_SomeD split: jsval.splits bind_splits if_splits)

lemma p_nestedCount_SomeD: "p_nestedCount v = Some n \<Longrightarrow> 1 \<le> n \<and> n \<le> 999"
  by (auto simp: p_nestedCount_def lifecycle_limits split: jsval.splits bind_splits if_splits)

lemma p_optional_SomeD:
  assumes "p_optional v parse = Some x" and "\<And>s. parse v = Some s \<Longrightarrow> P s"
  shows "opt_all P x"
  using assms by (auto simp: p_optional_def split: if_splits)

lemma p_identity_SomeD:
  assumes "p_identity entry used = Some (tool, task, thread, used')"
  shows "opt_all (present_text 256) tool \<and> opt_all (present_text 256) task \<and>
      opt_all (present_text 256) thread \<and> (tool \<noteq> None \<or> task \<noteq> None \<or> thread \<noteq> None) \<and>
      (opt_tag ''toolId'' tool \<union> opt_tag ''taskId'' task \<union> opt_tag ''agentThreadId'' thread) \<inter> used = {} \<and>
      used' = used \<union> (opt_tag ''toolId'' tool \<union> opt_tag ''taskId'' task \<union> opt_tag ''agentThreadId'' thread)"
proof -
  obtain used1 used2 where a: "p_alias entry ''toolId'' used = Some (tool, used1)"
    and b: "p_alias entry ''taskId'' used1 = Some (task, used2)"
    and c: "p_alias entry ''agentThreadId'' used2 = Some (thread, used')"
    and "tool \<noteq> None \<or> task \<noteq> None \<or> thread \<noteq> None"
    using assms by (auto simp: p_identity_def split: bind_splits if_splits)
  with p_alias_SomeD [OF a] p_alias_SomeD [OF b] p_alias_SomeD [OF c] show ?thesis by auto
qed

lemma bind_SomeE: "Option.bind m f = Some r \<Longrightarrow> (\<And>x. m = Some x \<Longrightarrow> f x = Some r \<Longrightarrow> P) \<Longrightarrow> P"
  by (cases m) simp_all

lemma p_fail_if_SomeE: "p_fail_if b = Some u \<Longrightarrow> (\<not> b \<Longrightarrow> P) \<Longrightarrow> P"
  by (simp add: p_fail_if_def split: if_splits)

lemma split_SomeE:
  "(case p of (a, b) \<Rightarrow> f a b) = Some r \<Longrightarrow> (\<And>a b. p = (a, b) \<Longrightarrow> f a b = Some r \<Longrightarrow> P) \<Longrightarrow> P"
  by (cases p) simp

lemma Some_triple_eqE:
  "Some (a, b, c) = Some (x, y, z) \<Longrightarrow> (x = a \<Longrightarrow> y = b \<Longrightarrow> z = c \<Longrightarrow> P) \<Longrightarrow> P"
  by simp

lemma p_entry_SomeD:
  assumes "p_entry (seen, used) raw = Some (e, seen', used')"
  shows "entry_core e" and "has_identity e" and "state_ok e" and "le_id e \<notin> seen"
    and "entry_tags e \<inter> used = {}" and "seen' = insert (le_id e) seen"
    and "used' = used \<union> entry_tags e"
proof -
  obtain props ident tool task thread durationMs totalTokens steps nestedCount telemetryState
      resultState name description lastToolName taskTitle batchKey parentToolId model effort where
    ident: "p_text (js_get props (js ''id'')) 272 = Some ident" "\<not> (ident = [] \<or> ident \<in> seen)"
    and identity: "p_identity props used = Some (tool, task, thread, used')"
    and metrics: "p_optional (js_get props (js ''durationMs'')) p_metric = Some durationMs"
      "p_optional (js_get props (js ''totalTokens'')) p_metric = Some totalTokens"
      "p_optional (js_get props (js ''steps'')) p_metric = Some steps"
      "p_optional (js_get props (js ''nestedCount'')) p_nestedCount = Some nestedCount"
    and result: "\<not> (resultState = Some LcRunning \<or> resultState = Some LcInterrupted)"
    and texts: "p_text (js_get props (js ''name'')) 128 = Some name"
      "p_text (js_get props (js ''description'')) 512 = Some description"
      "p_optional (js_get props (js ''lastToolName'')) (\<lambda>v. p_text v 128) = Some lastToolName"
      "p_optional (js_get props (js ''taskTitle''))
         (\<lambda>v. p_presentText v MAX_SUBAGENT_TASK_TITLE_BYTES) = Some taskTitle"
      "p_optional (js_get props (js ''batchKey''))
         (\<lambda>v. p_presentText v MAX_SUBAGENT_BATCH_KEY_BYTES) = Some batchKey"
      "p_optional (js_get props (js ''parentToolId''))
         (\<lambda>v. p_presentText v MAX_SUBAGENT_PARENT_TOOL_ID_BYTES) = Some parentToolId"
      "p_optional (js_get props (js ''model''))
         (\<lambda>v. p_presentText v MAX_SUBAGENT_MODEL_BYTES) = Some model"
    and seen: "seen' = insert ident seen"
    and e: "e = \<lparr>le_id = ident, le_toolId = tool, le_taskId = task, le_agentThreadId = thread,
      le_name = name, le_description = description,
      le_state = (if resultState = Some LcFailed \<or> telemetryState = Some LcFailed then LcFailed
        else case coalesce telemetryState resultState of None \<Rightarrow> LcRunning | Some s \<Rightarrow> s),
      le_telemetryState = telemetryState, le_resultState = resultState, le_durationMs = durationMs,
      le_totalTokens = totalTokens, le_steps = steps, le_lastToolName = lastToolName,
      le_taskTitle = taskTitle, le_batchKey = batchKey, le_nestedCount = nestedCount,
      le_parentToolId = parentToolId, le_model = model, le_effort = effort\<rparr>"
    using assms
    unfolding p_entry_def prod.case Let_def
    by (elim bind_SomeE p_fail_if_SomeE split_SomeE Some_triple_eqE, hypsubst)
      (rule that, (assumption | rule refl)+)
  note i = p_identity_SomeD [OF identity]
  have "opt_all (\<lambda>s. s = LcCompleted \<or> s = LcFailed) resultState"
  proof (cases resultState)
    case (Some s)
    with result show ?thesis by (cases s) simp_all
  qed simp
  moreover have "present_text 272 ident"
    using ident p_text_SomeD [OF ident(1)] by (simp add: present_text_def bounded_text_def)
  moreover note p_optional_SomeD [OF metrics(1) p_metric_SomeD] p_optional_SomeD [OF metrics(2) p_metric_SomeD]
    p_optional_SomeD [OF metrics(3) p_metric_SomeD] p_optional_SomeD [OF metrics(4) p_nestedCount_SomeD]
    p_text_SomeD [OF texts(1)] p_text_SomeD [OF texts(2)] p_optional_SomeD [OF texts(3) p_text_SomeD]
    p_optional_SomeD [OF texts(4) p_presentText_SomeD] p_optional_SomeD [OF texts(5) p_presentText_SomeD]
    p_optional_SomeD [OF texts(6) p_presentText_SomeD] p_optional_SomeD [OF texts(7) p_presentText_SomeD]
  ultimately show "entry_core e" using i unfolding e entry_core_def by (simp add: lifecycle_limits)
  show "has_identity e" using i by (simp add: e has_identity_def)
  show "state_ok e" by (simp add: e state_ok_def lifecycleState_def)
  show "le_id e \<notin> seen" and "seen' = insert (le_id e) seen" using ident(2) seen by (simp_all add: e)
  show "entry_tags e \<inter> used = {}" and "used' = used \<union> entry_tags e" using i by (simp_all add: e entry_tags_def)
qed

section \<open>Whole records\<close>

lemma p_entries_values:
  assumes "\<forall>e \<in> set es. entry_core e \<and> has_identity e \<and> state_ok e \<and> le_id e \<notin> seen \<and>
      entry_tags e \<inter> used = {}"
    and "distinct (map le_id es)"
    and "\<forall>a \<in> set es. \<forall>b \<in> set es. shares a b \<longrightarrow> le_id a = le_id b"
  shows "p_entries (seen, used) (map entry_value es) = Some es"
  using assms
proof (induction es arbitrary: seen used)
  case (Cons e es)
  have e: "p_entry (seen, used) (entry_value e) = Some (e, insert (le_id e) seen, used \<union> entry_tags e)"
    using Cons.prems(1) by (intro p_entry_value) auto
  have other: "le_id x \<noteq> le_id e" if "x \<in> set es" for x
    using that Cons.prems(2) by (metis distinct.simps(2) image_eqI list.set_map list.simps(9))
  have tags: "entry_tags x \<inter> entry_tags e = {}" if x: "x \<in> set es" for x
  proof -
    have "shares x e \<longrightarrow> le_id x = le_id e" using Cons.prems(3) x by simp
    then have "\<not> shares x e" using other [OF x] by blast
    then show ?thesis by (rule iffD2 [OF tags_disjoint_iff])
  qed
  have "p_entries (insert (le_id e) seen, used \<union> entry_tags e) (map entry_value es) = Some es"
  proof (rule Cons.IH)
    show "\<forall>x \<in> set es. entry_core x \<and> has_identity x \<and> state_ok x \<and>
        le_id x \<notin> insert (le_id e) seen \<and> entry_tags x \<inter> (used \<union> entry_tags e) = {}"
    proof
      fix x assume x: "x \<in> set es"
      then have "entry_core x \<and> has_identity x \<and> state_ok x \<and> le_id x \<notin> seen \<and>
          entry_tags x \<inter> used = {}" using Cons.prems(1) by simp
      with other [OF x] tags [OF x] show "entry_core x \<and> has_identity x \<and> state_ok x \<and>
          le_id x \<notin> insert (le_id e) seen \<and> entry_tags x \<inter> (used \<union> entry_tags e) = {}"
        by (simp add: Int_Un_distrib)
    qed
    show "distinct (map le_id es)" using Cons.prems(2) by simp
    show "\<forall>a \<in> set es. \<forall>b \<in> set es. shares a b \<longrightarrow> le_id a = le_id b"
      using Cons.prems(3) by simp
  qed
  with e show ?case by simp
qed simp

lemma p_entries_SomeD:
  assumes "p_entries (seen, used) raws = Some es"
  shows "length es = length raws \<and> (\<forall>e \<in> set es. entry_core e \<and> has_identity e \<and> state_ok e \<and>
      le_id e \<notin> seen \<and> entry_tags e \<inter> used = {}) \<and> distinct (map le_id es) \<and>
    (\<forall>a \<in> set es. \<forall>b \<in> set es. shares a b \<longrightarrow> le_id a = le_id b)"
  using assms
proof (induction raws arbitrary: seen used es)
  case (Cons raw raws)
  obtain e seen' used' rest where e: "p_entry (seen, used) raw = Some (e, seen', used')"
    and rest: "p_entries (seen', used') raws = Some rest" and es: "es = e # rest"
    using Cons.prems by (auto elim!: bind_SomeE)
  note spec = p_entry_SomeD [OF e] and IH = Cons.IH [OF rest]
  have apart: "\<not> shares a e \<and> \<not> shares e a" if a: "a \<in> set rest" for a
  proof -
    have "entry_tags a \<inter> used' = {}" using IH a by blast
    then have "entry_tags a \<inter> entry_tags e = {}" unfolding spec(7) by blast
    then have "\<not> shares a e" by (rule iffD1 [OF tags_disjoint_iff])
    then show ?thesis using shares_sym by blast
  qed
  have head: "entry_core e \<and> has_identity e \<and> state_ok e \<and> le_id e \<notin> seen \<and> entry_tags e \<inter> used = {}"
    using spec by blast
  have tail: "\<forall>x \<in> set rest. entry_core x \<and> has_identity x \<and> state_ok x \<and> le_id x \<notin> seen \<and>
      entry_tags x \<inter> used = {} \<and> le_id x \<noteq> le_id e"
    using IH unfolding spec(6,7) by fast
  have "\<forall>a \<in> set es. \<forall>b \<in> set es. shares a b \<longrightarrow> le_id a = le_id b"
    using IH apart unfolding es set_simps by blast
  moreover have "distinct (map le_id es)"
  proof -
    have "le_id e \<notin> set (map le_id rest)" using tail by auto
    with IH show ?thesis by (simp add: es)
  qed
  moreover have "length es = length (raw # raws)" using IH unfolding es by simp
  moreover have "\<forall>x \<in> set es. entry_core x \<and> has_identity x \<and> state_ok x \<and> le_id x \<notin> seen \<and>
      entry_tags x \<inter> used = {}"
    using head tail unfolding es set_simps by blast
  ultimately show ?case by blast
qed simp

lemma lifecycle_get:
  assumes "lifecycle_value lc = JObject props"
  shows "js_get props (js ''entries'') = JArray (map entry_value (lc_entries lc))"
    and "js_get props (js ''truncated'') = JBool (lc_truncated lc)"
    and "js_get props (js ''openBatchKey'') = js_opt JString (lc_openBatchKey lc)"
    and "js_get props (js ''countedNestedToolIds'') =
      js_opt (\<lambda>ids. JArray (map JString ids)) (lc_countedNestedToolIds lc)"
    and "\<not> unknown_key props root_fields"
proof -
  from assms have props: "props =
     js_field ''entries'' (Some (JArray (map entry_value (lc_entries lc)))) @
      js_field ''truncated'' (Some (JBool (lc_truncated lc))) @
      js_field ''openBatchKey'' (map_option JString (lc_openBatchKey lc)) @
      js_field ''countedNestedToolIds''
        (map_option (\<lambda>ids. JArray (map JString ids)) (lc_countedNestedToolIds lc))"
    by (simp add: lifecycle_value_def)
  show "js_get props (js ''entries'') = JArray (map entry_value (lc_entries lc))"
    and "js_get props (js ''truncated'') = JBool (lc_truncated lc)"
    and "js_get props (js ''openBatchKey'') = js_opt JString (lc_openBatchKey lc)"
    and "js_get props (js ''countedNestedToolIds'') =
      js_opt (\<lambda>ids. JArray (map JString ids)) (lc_countedNestedToolIds lc)"
    and "\<not> unknown_key props root_fields"
    unfolding props
    by (simp_all add: js_get_append js_get_single unknown_key_append unknown_key_single root_fields_def
        del: js_simps)
qed

lemma p_countedIds_value:
  assumes "ids \<noteq> []" and "length ids \<le> 32" and "distinct ids" and "\<forall>i \<in> set ids. present_text 256 i"
  shows "p_countedIds (JArray (map JString ids)) = Some ids"
proof -
  have "p_all (\<lambda>ident. p_presentText ident 256) (map JString ids) = Some ids"
    by (rule p_all_map) (use assms(4) in simp)
  with assms show ?thesis by (simp add: p_countedIds_def lifecycle_limits)
qed

lemma parse_value:
  assumes "lifecycle_ok lc"
  shows "parseAgentSubagentLifecycle (lifecycle_value lc) = Some (Some lc)"
proof -
  obtain props where props: "lifecycle_value lc = JObject props" by (simp add: lifecycle_value_def)
  note get = lifecycle_get [OF props]
  note ok = assms [unfolded lifecycle_ok_def]
  have entries: "p_entries ({}, {}) (map entry_value (lc_entries lc)) = Some (lc_entries lc)"
    using ok by (intro p_entries_values) auto
  have batch: "p_optional (js_opt JString (lc_openBatchKey lc))
      (\<lambda>v. p_presentText v MAX_SUBAGENT_BATCH_KEY_BYTES) = Some (lc_openBatchKey lc)"
    using ok by (auto intro!: p_optional_js_opt simp: lifecycle_limits)
  have counted: "p_optional (js_opt (\<lambda>ids. JArray (map JString ids)) (lc_countedNestedToolIds lc))
      p_countedIds = Some (lc_countedNestedToolIds lc)"
    using ok by (auto intro!: p_optional_js_opt p_countedIds_value)
  show ?thesis
    using ok
    by (simp add: parseAgentSubagentLifecycle_def props p_object_def p_fail_if_def get entries
        batch [unfolded lifecycle_limits] counted lifecycle_limits del: js_simps)
qed

text \<open>
  C14: Persistence accepts what the runtime retains. Well-formed lifecycle metadata, read back
  from its own value, parses to itself: no record the runtime produces is thrown away or
  changed by the strict boundary.
\<close>

theorem parse_retained_lifecycle:
  assumes "lifecycle_ok lc"
  shows "parseAgentSubagentLifecycle (lifecycle_value lc) = Some (Some lc)"
  using assms by (rule parse_value)

text \<open>One running subagent, known by its tool id.\<close>

definition sample_lifecycle :: lifecycle where
  "sample_lifecycle =
     \<lparr>lc_entries = [(fresh_entry (js ''tool:a'') (js ''subagent'') [])\<lparr>le_toolId := Some (js ''a'')\<rparr>],
      lc_truncated = False, lc_openBatchKey = None, lc_countedNestedToolIds = None\<rparr>"

lemma sample_lifecycle_ok: "lifecycle_ok sample_lifecycle"
  by (simp add: sample_lifecycle_def lifecycle_ok_def fresh_entry_def entry_core_def has_identity_def
      state_ok_def lifecycleState_def present_text_def bounded_text_def)

lemma parse_retained_lifecycle_witness:
  "parseAgentSubagentLifecycle (lifecycle_value sample_lifecycle) = Some (Some sample_lifecycle)"
  using parse_retained_lifecycle [OF sample_lifecycle_ok] .

lemma parsed_ok:
  assumes "parseAgentSubagentLifecycle v = Some (Some lc)"
  shows "lifecycle_ok lc"
proof -
  from assms obtain raws counted batch where
    size: "\<not> length raws > MAX_RETAINED_SUBAGENTS"
    and entries: "p_entries ({}, {}) raws = Some (lc_entries lc)"
    and batch: "p_optional batch (\<lambda>v. p_presentText v MAX_SUBAGENT_BATCH_KEY_BYTES) =
      Some (lc_openBatchKey lc)"
    and counted: "p_optional counted p_countedIds = Some (lc_countedNestedToolIds lc)"
    by (auto simp: parseAgentSubagentLifecycle_def simp del: js_simps
        elim!: bind_SomeE p_fail_if_SomeE split: if_splits)
  have "opt_all (present_text 272) (lc_openBatchKey lc)"
    using p_optional_SomeD [OF batch p_presentText_SomeD] by (simp add: lifecycle_limits)
  moreover have "opt_all (\<lambda>ids. ids \<noteq> [] \<and> length ids \<le> 32 \<and> distinct ids \<and>
      (\<forall>i \<in> set ids. present_text 256 i)) (lc_countedNestedToolIds lc)"
  proof (rule p_optional_SomeD [OF counted])
    fix ids assume "p_countedIds counted = Some ids"
    then obtain items where items: "items \<noteq> []" "length items \<le> 32" "distinct ids"
      and all: "p_all (\<lambda>ident. p_presentText ident 256) items = Some ids"
      by (auto simp: p_countedIds_def lifecycle_limits elim!: bind_SomeE split: jsval.splits if_splits)
    from all have "length ids = length items \<and> (\<forall>i \<in> set ids. present_text 256 i)"
      by (induction items arbitrary: ids) (auto elim!: bind_SomeE dest: p_presentText_SomeD)
    with items show "ids \<noteq> [] \<and> length ids \<le> 32 \<and> distinct ids \<and> (\<forall>i \<in> set ids. present_text 256 i)"
      by auto
  qed
  ultimately show ?thesis
    using p_entries_SomeD [OF entries] size by (simp add: lifecycle_ok_def lifecycle_limits)
qed

text \<open>
  The boundary accepts only well-formed metadata: at most 32 entries with distinct ids,
  no two of which share a tool, task or thread id, every text within its byte limit, every
  metric a safe non-negative integer, every state the one its telemetry and result determine.
\<close>

theorem parse_sound:
  assumes "parseAgentSubagentLifecycle v = Some (Some lc)"
  shows "lifecycle_ok lc"
  using assms by (rule parsed_ok)

lemma parse_sound_witness: "lifecycle_ok sample_lifecycle"
  using parse_sound [OF parse_value [OF sample_lifecycle_ok]] .

text \<open>
  C13: The runtime keeps lifecycle metadata well formed. From well-formed metadata (or none) and
  events whose durations and counts are safe non-negative integers, whatever their order, ids
  and texts, the result has at most 32 entries, no two entries of one agent, states that agree
  with telemetry and result, and every text and counter within its bound.
\<close>

theorem retained_lifecycle_well_formed:
  assumes "\<And>lc. previous = Some lc \<Longrightarrow> lifecycle_ok lc"
    and "\<forall>e \<in> set events. event_metrics_ok e"
    and "retainAgentSubagentLifecycle previous events = Some lc"
  shows "lifecycle_ok lc \<and> length (lc_entries lc) \<le> 32"
  using retainAgentSubagentLifecycle_ok [OF assms] by (simp add: lifecycle_ok_def)

definition sample_subagent :: "js_string option \<Rightarrow> js_string option \<Rightarrow> agent_turn_event" where
  "sample_subagent tool task = Subagent
     \<lparr>sub_status = SubRunning, sub_toolId = tool, sub_taskId = task, sub_subagentType = None,
      sub_description = None, sub_durationMs = Some 5, sub_totalTokens = None, sub_toolUses = None,
      sub_lastToolName = None\<rparr>"

lemmas retain_evals = retainAgentSubagentLifecycle_def initial_loop_def retainEvent_def closeBatch_def
  retainRoot_def dropPlaceholders_def is_acknowledgement_call_def retainIdentified_def
  resolveAlias_def map_values_def matches_def no_identity_def needs_entry_def entry_key_def
  validId_iff present_text_def fresh_entry_def with_valid_ids_def event_details_def
  subagent_details_def lifecycleState_def Let_def sample_subagent_def lifecycle_limits

lemma retained_lifecycle_well_formed_witness:
  "\<exists>lc. retainAgentSubagentLifecycle None [sample_subagent (Some (js ''a'')) None] = Some lc \<and>
     lifecycle_ok lc \<and> length (lc_entries lc) \<le> 32"
proof -
  let ?events = "[sample_subagent (Some (js ''a'')) None]"
  have "retainAgentSubagentLifecycle None ?events \<noteq> None" by (simp add: retain_evals)
  then obtain lc where lc: "retainAgentSubagentLifecycle None ?events = Some lc" by blast
  have "\<forall>e \<in> set ?events. event_metrics_ok e"
    by (simp add: sample_subagent_def metric_def isSafeInteger_def max_safe_integer_def)
  with retained_lifecycle_well_formed [of None ?events lc] lc show ?thesis by blast
qed


end
