(* ===== verification/LifecycleStates.thy ===== *)
theory LifecycleStates
  imports Lifecycle
begin

text \<open>
  The states of a subagent, ordered by how final they are: running, completed, interrupted,
  failed. Merging two entries of one agent takes the greater telemetry, and terminal telemetry
  is a tombstone that only an interaction with the agent lifts.
\<close>

fun severity :: "lifecycle_state \<Rightarrow> nat" where
  "severity LcRunning = 0"
| "severity LcCompleted = 1"
| "severity LcInterrupted = 2"
| "severity LcFailed = 3"

instantiation lifecycle_state :: linorder
begin

definition less_eq_lifecycle_state :: "lifecycle_state \<Rightarrow> lifecycle_state \<Rightarrow> bool" where
  "less_eq_lifecycle_state a b \<longleftrightarrow> severity a \<le> severity b"

definition less_lifecycle_state :: "lifecycle_state \<Rightarrow> lifecycle_state \<Rightarrow> bool" where
  "less_lifecycle_state a b \<longleftrightarrow> severity a < severity b"

instance
proof
  fix a b c :: lifecycle_state
  show "a < b \<longleftrightarrow> a \<le> b \<and> \<not> b \<le> a"
    by (auto simp: less_lifecycle_state_def less_eq_lifecycle_state_def)
  show "a \<le> a" by (simp add: less_eq_lifecycle_state_def)
  show "a \<le> b \<Longrightarrow> b \<le> c \<Longrightarrow> a \<le> c" by (simp add: less_eq_lifecycle_state_def)
  show "a \<le> b \<Longrightarrow> b \<le> a \<Longrightarrow> a = b"
    by (cases a; cases b) (simp_all add: less_eq_lifecycle_state_def)
  show "a \<le> b \<or> b \<le> a" by (auto simp: less_eq_lifecycle_state_def)
qed

end

lemma terminal_state_max: "terminal_state (Some a) (Some b) = Some (max a b)"
  by (cases a; cases b) (simp_all add: max_def less_eq_lifecycle_state_def)

lemma terminal_state_None: "terminal_state None b = b" "terminal_state a None = a"
  by (cases b; simp; metis lifecycle_state.exhaust) (cases a; simp; metis lifecycle_state.exhaust)

text \<open>
  Merging the entries of one agent joins their telemetry as a supremum (failed over
  interrupted over completed over running, absent is least), whatever the order in which the
  two entries are met.
\<close>

theorem mergeAliases_telemetry:
  "le_telemetryState (mergeAliases a b) =
     (case (le_telemetryState a, le_telemetryState b) of
        (None, t) \<Rightarrow> t | (s, None) \<Rightarrow> s | (Some s, Some t) \<Rightarrow> Some (max s t)) \<and>
   le_telemetryState (mergeAliases a b) = le_telemetryState (mergeAliases b a)"
proof -
  have tel: "le_telemetryState (mergeAliases x y) =
      terminal_state (le_telemetryState x) (le_telemetryState y)" for x y
  proof (cases "terminal_state (le_telemetryState x) (le_telemetryState y)")
    case None
    then have "coalesce (le_telemetryState x) (le_telemetryState y) = None"
      by (simp split: if_splits)
    with None show ?thesis by (simp add: mergeAliases_def Let_def del: terminal_state.simps)
  qed (simp add: mergeAliases_def Let_def del: terminal_state.simps)
  show ?thesis
    unfolding tel
    by (cases "le_telemetryState a"; cases "le_telemetryState b")
      (simp_all add: terminal_state_max terminal_state_None max.commute del: terminal_state.simps)
qed

definition is_tombstone :: "lifecycle_state option \<Rightarrow> bool" where
  "is_tombstone t \<longleftrightarrow> t = Some LcCompleted \<or> t = Some LcInterrupted \<or> t = Some LcFailed"



end
