(* ===== verification/LineSplitter.thy ===== *)
theory LineSplitter
  imports Utf8
begin

text \<open>
  Lines of a process's output, \<open>packages/agent-events/src/agentOutput/lineSplitter.ts\<close>.
  Chunks arrive with arbitrary boundaries; a line above 256 KiB is counted and discarded up to
  its newline. The loop's argument is the chunk from the loop's \<open>start\<close> on.
\<close>

definition MAX_AGENT_OUTPUT_LINE_BYTES :: nat where "MAX_AGENT_OUTPUT_LINE_BYTES = 256 * 1024"
definition DISCARDING_BYTES :: nat where "DISCARDING_BYTES = MAX_AGENT_OUTPUT_LINE_BYTES + 1"

definition NEWLINE :: js_unit where "NEWLINE = 10"
definition CARRIAGE_RETURN :: js_unit where "CARRIAGE_RETURN = 13"

record pending_line =
  pending :: js_string
  pendingBytes :: nat

record split_result =
  split_state :: pending_line
  split_lines :: "js_string list"
  split_overflow :: nat

definition EMPTY_PENDING_LINE :: pending_line where
  "EMPTY_PENDING_LINE = \<lparr>pending = [], pendingBytes = 0\<rparr>"

definition DISCARDING :: pending_line where
  "DISCARDING = \<lparr>pending = [], pendingBytes = DISCARDING_BYTES\<rparr>"

definition withoutCarriageReturn :: "js_string \<Rightarrow> js_string" where
  "withoutCarriageReturn line =
     (if line \<noteq> [] \<and> last line = CARRIAGE_RETURN then butlast line else line)"

definition isDiscardingPendingLine :: "pending_line \<Rightarrow> bool" where
  "isDiscardingPendingLine state \<longleftrightarrow> pendingBytes state > MAX_AGENT_OUTPUT_LINE_BYTES"

text \<open>What follows the loop: the tail behind the last newline.\<close>

definition splitTail :: "pending_line \<Rightarrow> js_string list \<Rightarrow> nat \<Rightarrow> js_string \<Rightarrow> split_result" where
  "splitTail state lines overflow tail =
     (if pendingBytes state > MAX_AGENT_OUTPUT_LINE_BYTES
      then \<lparr>split_state = DISCARDING, split_lines = lines, split_overflow = overflow\<rparr>
      else
        let tailBytes = pendingBytes state + utf8ByteLength tail in
        if tailBytes > MAX_AGENT_OUTPUT_LINE_BYTES
        then \<lparr>split_state = DISCARDING, split_lines = lines, split_overflow = overflow + 1\<rparr>
        else \<lparr>split_state = \<lparr>pending = pending state @ tail, pendingBytes = tailBytes\<rparr>,
               split_lines = lines, split_overflow = overflow\<rparr>)"

function splitLoop :: "pending_line \<Rightarrow> js_string list \<Rightarrow> nat \<Rightarrow> js_string \<Rightarrow> split_result" where
  "splitLoop state lines overflow rest =
     (case js_indexOf_unit NEWLINE rest of
        None \<Rightarrow> splitTail state lines overflow rest
      | Some newline \<Rightarrow>
          (let segment = take newline rest;
               rest' = drop (newline + 1) rest;
               totalBytes = pendingBytes state + utf8ByteLength segment
           in if pendingBytes state > MAX_AGENT_OUTPUT_LINE_BYTES
              then splitLoop EMPTY_PENDING_LINE lines overflow rest'
              else if totalBytes > MAX_AGENT_OUTPUT_LINE_BYTES
              then splitLoop EMPTY_PENDING_LINE lines (overflow + 1) rest'
              else splitLoop EMPTY_PENDING_LINE
                     (lines @ [withoutCarriageReturn (pending state @ segment)]) overflow rest'))"
  by pat_completeness auto
termination
  by (relation "measure (\<lambda>(state, lines, overflow, rest). length rest)")
    (auto dest!: js_indexOf_unit_Some)

declare splitLoop.simps [simp del]

definition splitLines :: "pending_line \<Rightarrow> js_string \<Rightarrow> split_result" where
  "splitLines state chunk =
     (if length chunk = 0 then \<lparr>split_state = state, split_lines = [], split_overflow = 0\<rparr>
      else splitLoop state [] 0 chunk)"

text \<open>A stream of chunks.\<close>

fun splitChunks :: "pending_line \<Rightarrow> js_string list \<Rightarrow> split_result" where
  "splitChunks state [] = \<lparr>split_state = state, split_lines = [], split_overflow = 0\<rparr>"
| "splitChunks state (chunk # chunks) =
     (let first = splitLines state chunk;
          rest = splitChunks (split_state first) chunks
      in \<lparr>split_state = split_state rest, split_lines = split_lines first @ split_lines rest,
          split_overflow = split_overflow first + split_overflow rest\<rparr>)"

section \<open>The shape of the loop\<close>

lemma splitLoop_no_newline:
  "NEWLINE \<notin> set rest \<Longrightarrow> splitLoop state lines overflow rest = splitTail state lines overflow rest"
  by (subst splitLoop.simps) (simp add: js_indexOf_unit_None [THEN iffD2])

text \<open>What one line adds to the lines and to the overflow.\<close>

definition line_out :: "pending_line \<Rightarrow> js_string \<Rightarrow> js_string list" where
  "line_out state segment =
     (if pendingBytes state > MAX_AGENT_OUTPUT_LINE_BYTES \<or>
         pendingBytes state + utf8ByteLength segment > MAX_AGENT_OUTPUT_LINE_BYTES
      then [] else [withoutCarriageReturn (pending state @ segment)])"

definition line_overflow :: "pending_line \<Rightarrow> js_string \<Rightarrow> nat" where
  "line_overflow state segment =
     (if pendingBytes state \<le> MAX_AGENT_OUTPUT_LINE_BYTES \<and>
         pendingBytes state + utf8ByteLength segment > MAX_AGENT_OUTPUT_LINE_BYTES
      then 1 else 0)"

lemma splitLoop_newline:
  assumes "NEWLINE \<notin> set segment"
  shows "splitLoop state lines overflow (segment @ NEWLINE # rest) =
    splitLoop EMPTY_PENDING_LINE (lines @ line_out state segment)
      (overflow + line_overflow state segment) rest"
  using js_indexOf_unit_append_hit [OF assms, of rest]
  by (subst splitLoop.simps) (simp add: line_out_def line_overflow_def Let_def)

definition result_append :: "js_string list \<Rightarrow> nat \<Rightarrow> split_result \<Rightarrow> split_result" where
  "result_append lines overflow r =
     \<lparr>split_state = split_state r, split_lines = lines @ split_lines r,
      split_overflow = overflow + split_overflow r\<rparr>"

lemma text_lines_cases:
  obtains (last) "NEWLINE \<notin> set rest"
  | (line) segment rest' where "rest = segment @ NEWLINE # rest'" and "NEWLINE \<notin> set segment"
proof (cases "js_indexOf_unit NEWLINE rest")
  case None
  then show thesis using last js_indexOf_unit_None by blast
next
  case (Some i)
  then show thesis using line js_indexOf_unit_SomeE by metis
qed

lemma text_lines_induct [case_names last line]:
  assumes "\<And>rest. NEWLINE \<notin> set rest \<Longrightarrow> P rest"
    and "\<And>segment rest. NEWLINE \<notin> set segment \<Longrightarrow> P rest \<Longrightarrow> P (segment @ NEWLINE # rest)"
  shows "P rest"
proof (induction "length rest" arbitrary: rest rule: less_induct)
  case less
  show ?case
  proof (cases rest rule: text_lines_cases)
    case last
    then show ?thesis by (rule assms(1))
  next
    case (line segment rest')
    have "P rest'" by (rule less) (simp add: line(1))
    then show ?thesis unfolding line(1) by (rule assms(2) [OF line(2)])
  qed
qed

lemma splitTail_append:
  "splitTail state lines overflow tail = result_append lines overflow (splitTail state [] 0 tail)"
  by (simp add: splitTail_def result_append_def Let_def)

lemma splitLoop_append:
  "splitLoop state lines overflow rest = result_append lines overflow (splitLoop state [] 0 rest)"
proof (induction rest arbitrary: state lines overflow rule: text_lines_induct)
  case (last rest)
  then show ?case by (simp add: splitLoop_no_newline splitTail_append [of state lines])
next
  case (line segment rest)
  show ?case
    unfolding splitLoop_newline [OF line(1)]
    by (subst (1 2) line(2)) (simp add: result_append_def)
qed

section \<open>The invariant of the pending line\<close>

definition pending_ok :: "pending_line \<Rightarrow> bool" where
  "pending_ok state \<longleftrightarrow>
     (pendingBytes state \<le> MAX_AGENT_OUTPUT_LINE_BYTES \<and> NEWLINE \<notin> set (pending state) \<and>
        utf8ByteLength (pending state) \<le> pendingBytes state) \<or> state = DISCARDING"

lemma pending_ok_simps [simp]: "pending_ok EMPTY_PENDING_LINE" "pending_ok DISCARDING"
  by (simp_all add: pending_ok_def EMPTY_PENDING_LINE_def)

lemma DISCARDING_bytes [simp]:
  "pendingBytes DISCARDING = MAX_AGENT_OUTPUT_LINE_BYTES + 1" "pending DISCARDING = []"
  by (simp_all add: DISCARDING_def DISCARDING_BYTES_def)

lemma splitTail_Nil: "pending_ok state \<Longrightarrow>
    splitTail state [] 0 [] = \<lparr>split_state = state, split_lines = [], split_overflow = 0\<rparr>"
  by (auto simp: splitTail_def pending_ok_def)

lemma splitLines_loop: "pending_ok state \<Longrightarrow> splitLines state chunk = splitLoop state [] 0 chunk"
  using splitTail_Nil by (simp add: splitLines_def splitLoop_no_newline)

lemma splitTail_ok:
  assumes "pending_ok state" and "NEWLINE \<notin> set tail"
  shows "pending_ok (split_state (splitTail state lines overflow tail))"
proof (cases "pendingBytes state + utf8ByteLength tail \<le> MAX_AGENT_OUTPUT_LINE_BYTES")
  case True
  then have "state \<noteq> DISCARDING" by auto
  with assms True utf8ByteLength_append_le [of "pending state" tail] show ?thesis
    by (auto simp: splitTail_def pending_ok_def)
qed (simp add: splitTail_def Let_def)

lemma withoutCarriageReturn_bytes: "utf8ByteLength (withoutCarriageReturn s) \<le> utf8ByteLength s"
proof (cases "s \<noteq> [] \<and> last s = CARRIAGE_RETURN")
  case True
  then have "s = butlast s @ CARRIAGE_RETURN # []" using append_butlast_last_id [of s] by simp
  moreover have "unat CARRIAGE_RETURN < 128" by (simp add: CARRIAGE_RETURN_def)
  then have "utf8ByteLength (butlast s @ CARRIAGE_RETURN # []) = utf8ByteLength (butlast s) + 1"
    using utf8ByteLength_append_ascii [of CARRIAGE_RETURN "butlast s" "[]"] by simp
  ultimately have "utf8ByteLength s = utf8ByteLength (butlast s) + 1" by simp
  then show ?thesis using True by (simp add: withoutCarriageReturn_def)
qed (auto simp: withoutCarriageReturn_def)

lemma withoutCarriageReturn_set: "set (withoutCarriageReturn s) \<subseteq> set s"
  by (auto simp: withoutCarriageReturn_def dest: in_set_butlastD)

definition line_ok :: "js_string \<Rightarrow> bool" where
  "line_ok l \<longleftrightarrow> utf8ByteLength l \<le> MAX_AGENT_OUTPUT_LINE_BYTES \<and> NEWLINE \<notin> set l"

lemma line_out_ok:
  assumes "pending_ok state" and "NEWLINE \<notin> set segment"
  shows "\<forall>l \<in> set (line_out state segment). line_ok l"
proof (cases "pendingBytes state > MAX_AGENT_OUTPUT_LINE_BYTES \<or>
    pendingBytes state + utf8ByteLength segment > MAX_AGENT_OUTPUT_LINE_BYTES")
  case False
  then have "state \<noteq> DISCARDING" by auto
  with assms False have "line_ok (pending state @ segment)"
    using utf8ByteLength_append_le [of "pending state" segment]
    by (auto simp: line_ok_def pending_ok_def)
  then have "line_ok (withoutCarriageReturn (pending state @ segment))"
    using withoutCarriageReturn_bytes [of "pending state @ segment"]
      withoutCarriageReturn_set [of "pending state @ segment"] le_trans
    by (auto simp: line_ok_def)
  with False show ?thesis by (simp add: line_out_def)
qed (simp add: line_out_def)

lemma splitLoop_ok:
  "pending_ok state \<Longrightarrow> \<forall>l \<in> set lines. line_ok l \<Longrightarrow>
     pending_ok (split_state (splitLoop state lines overflow rest)) \<and>
     (\<forall>l \<in> set (split_lines (splitLoop state lines overflow rest)). line_ok l)"
proof (induction rest arbitrary: state lines overflow rule: text_lines_induct)
  case (last rest)
  then show ?case
    using splitTail_ok [of state rest lines overflow]
    by (simp add: splitLoop_no_newline) (simp add: splitTail_def Let_def)
next
  case (line segment rest)
  have "\<forall>l \<in> set (lines @ line_out state segment). line_ok l"
    using line.prems line_out_ok [OF line.prems(1) line.hyps(1)] by auto
  then show ?case unfolding splitLoop_newline [OF line.hyps(1)] by (intro line.IH) simp_all
qed

lemma splitLines_ok:
  "pending_ok state \<Longrightarrow> pending_ok (split_state (splitLines state chunk)) \<and>
     (\<forall>l \<in> set (split_lines (splitLines state chunk)). line_ok l)"
  using splitLoop_ok [of state "[]"] by (simp add: splitLines_loop)

section \<open>Chunk boundaries\<close>

definition splits_pair :: "js_string \<Rightarrow> js_string \<Rightarrow> bool" where
  "splits_pair a b \<longleftrightarrow> endsWithHighSurrogate a \<and> startsWithLowSurrogate b"

lemma utf8ByteLength_join: "\<not> splits_pair a b \<Longrightarrow> utf8ByteLength (a @ b) = utf8ByteLength a + utf8ByteLength b"
  using utf8ByteLength_append [of a b] by (auto simp: splits_pair_def)

lemma splits_pair_prefix: "splits_pair a (b @ [NEWLINE] @ c) = (b \<noteq> [] \<and> splits_pair a b)"
  by (cases b) (auto simp: splits_pair_def startsWithLowSurrogate_def NEWLINE_def is_low_def surrogate_defs)

lemma splits_pair_suffix: "splits_pair (a @ NEWLINE # b) c = (b \<noteq> [] \<and> splits_pair b c)"
  by (cases b rule: rev_cases)
    (auto simp: splits_pair_def endsWithHighSurrogate_def nth_append NEWLINE_def is_high_def surrogate_defs)

lemma splitTail_join:
  assumes "\<not> splits_pair a b"
  shows "splitTail state lines overflow (a @ b) =
    (let r = splitTail state lines overflow a in
     splitTail (split_state r) (split_lines r) (split_overflow r) b)"
  using utf8ByteLength_join [OF assms] by (auto simp: splitTail_def Let_def)

lemma line_join:
  assumes "\<not> splits_pair a b"
  shows "line_out state (a @ b) = line_out (split_state (splitTail state [] 0 a)) b"
    and "line_overflow state (a @ b) =
      split_overflow (splitTail state [] 0 a) + line_overflow (split_state (splitTail state [] 0 a)) b"
  using utf8ByteLength_join [OF assms]
  by (auto simp: splitTail_def line_out_def line_overflow_def Let_def)

lemma splitLoop_join:
  assumes "pending_ok state" and "\<not> splits_pair a b"
  shows "splitLoop state [] 0 (a @ b) =
    (let r = splitLoop state [] 0 a in
     result_append (split_lines r) (split_overflow r) (splitLoop (split_state r) [] 0 b))"
  using assms
proof (induction a arbitrary: state rule: text_lines_induct)
  case (last a)
  show ?case
  proof (cases b rule: text_lines_cases)
    case (last)
    have "NEWLINE \<notin> set (a @ b)" using \<open>NEWLINE \<notin> set a\<close> last by simp
    then show ?thesis
      using last.prems \<open>NEWLINE \<notin> set a\<close> last
        splitTail_append [of _ "split_lines (splitTail state [] 0 a)" "split_overflow (splitTail state [] 0 a)" b]
      by (simp add: splitLoop_no_newline splitTail_join Let_def)
  next
    case (line segment rest)
    let ?r = "splitTail state [] 0 a"
    have "segment = [] \<or> \<not> splits_pair a segment"
      using last.prems(2) splits_pair_prefix [of a segment rest] by (auto simp: line(1))
    then have join: "\<not> splits_pair a segment"
      by (auto simp: splits_pair_def startsWithLowSurrogate_def)
    have a: "NEWLINE \<notin> set (a @ segment)" using \<open>NEWLINE \<notin> set a\<close> line(2) by simp
    have "splitLoop state [] 0 (a @ b) = splitLoop state [] 0 ((a @ segment) @ NEWLINE # rest)"
      by (simp add: line(1))
    also have "\<dots> = result_append (line_out state (a @ segment)) (line_overflow state (a @ segment))
        (splitLoop EMPTY_PENDING_LINE [] 0 rest)"
      unfolding splitLoop_newline [OF a] by (subst splitLoop_append) simp
    also have "\<dots> = result_append (split_lines ?r) (split_overflow ?r) (splitLoop (split_state ?r) [] 0 b)"
    proof -
      have "split_lines ?r = []" by (simp add: splitTail_def Let_def)
      moreover have "splitLoop (split_state ?r) [] 0 b =
          result_append (line_out (split_state ?r) segment) (line_overflow (split_state ?r) segment)
            (splitLoop EMPTY_PENDING_LINE [] 0 rest)"
        unfolding line(1) splitLoop_newline [OF line(2)] by (subst splitLoop_append) simp
      ultimately show ?thesis unfolding line_join [OF join] by (simp add: result_append_def)
    qed
    finally show ?thesis using \<open>NEWLINE \<notin> set a\<close> by (simp add: splitLoop_no_newline Let_def)
  qed
next
  case (line segment rest)
  have "\<not> splits_pair rest b"
    using line.prems(2) splits_pair_suffix [of segment rest b]
    by (auto simp: splits_pair_def endsWithHighSurrogate_def)
  from line.IH [OF _ this, of EMPTY_PENDING_LINE]
  show ?case
    unfolding append_assoc append_Cons splitLoop_newline [OF line.hyps]
    by (subst (1 2) splitLoop_append) (simp add: Let_def result_append_def)
qed

lemma splitLines_join:
  assumes "pending_ok state" and "\<not> splits_pair a b"
  shows "splitLines state (a @ b) =
    result_append (split_lines (splitLines state a)) (split_overflow (splitLines state a))
      (splitLines (split_state (splitLines state a)) b)"
  using splitLoop_join [OF assms] splitLines_ok [OF assms(1), of a] assms(1)
  by (simp add: splitLines_loop Let_def)

text \<open>No chunk boundary cuts a surrogate pair in two.\<close>

fun whole_pairs :: "js_string list \<Rightarrow> bool" where
  "whole_pairs [] = True"
| "whole_pairs (chunk # chunks) = (\<not> splits_pair chunk (concat chunks) \<and> whole_pairs chunks)"

text \<open>
  C15: Chunk boundaries do not matter. Feeding a stream in any chunks, empty ones included, gives
  the same lines, the same count of oversize lines and the same pending line as feeding its
  concatenation at once, from every state the splitter reaches, provided no boundary falls
  inside a surrogate pair.
\<close>

theorem splitChunks_concat:
  assumes "pending_ok state" and "whole_pairs chunks"
  shows "splitChunks state chunks = splitLines state (concat chunks)"
  using assms
proof (induction chunks arbitrary: state)
  case Nil
  then show ?case by (simp add: splitLines_def)
next
  case (Cons chunk chunks)
  have "pending_ok (split_state (splitLines state chunk))"
    using splitLines_ok [OF Cons.prems(1)] by blast
  from Cons.IH [OF this] Cons.prems splitLines_join [of state chunk "concat chunks"]
  show ?case by (simp add: Let_def result_append_def)
qed

lemma splitChunks_concat_witness:
  "splitChunks EMPTY_PENDING_LINE [[97], [], [98, 10, 99]] =
     splitLines EMPTY_PENDING_LINE [97, 98, 10, 99]"
  using splitChunks_concat [of EMPTY_PENDING_LINE "[[97], [], [98, 10, 99]]"]
  by (simp add: splits_pair_def startsWithLowSurrogate_def endsWithHighSurrogate_def is_low_def
      is_high_def surrogate_defs)

text \<open>
  C30: Memory is bounded. From every reachable state, a chunk of any size leaves a pending line of
  at most 256 KiB (or the discarding state, which holds no text), and every line it emits is at
  most 256 KiB of UTF-8 and free of newlines.
\<close>

theorem splitLines_bounded:
  assumes "pending_ok state"
  shows "pending_ok (split_state (splitLines state chunk)) \<and>
    utf8ByteLength (pending (split_state (splitLines state chunk))) \<le> 262144 \<and>
    (\<forall>l \<in> set (split_lines (splitLines state chunk)). utf8ByteLength l \<le> 262144 \<and> NEWLINE \<notin> set l)"
proof -
  have ok: "pending_ok (split_state (splitLines state chunk))"
    and lines: "\<forall>l \<in> set (split_lines (splitLines state chunk)). line_ok l"
    using splitLines_ok [OF assms] by blast+
  from ok have "utf8ByteLength (pending (split_state (splitLines state chunk))) \<le> 262144"
    by (auto simp: pending_ok_def MAX_AGENT_OUTPUT_LINE_BYTES_def)
  with ok lines show ?thesis by (simp add: line_ok_def MAX_AGENT_OUTPUT_LINE_BYTES_def)
qed

lemma splitLines_bounded_witness:
  "pending_ok (split_state (splitLines EMPTY_PENDING_LINE [97, 13, 10, 98]))"
  using splitLines_bounded [of EMPTY_PENDING_LINE "[97, 13, 10, 98]"] by simp


end
