(* ===== verification/Launch.thy ===== *)
theory Launch
  imports Json
begin

text \<open>
  The launch options of an agent, \<open>src/domain/agentLaunch.ts\<close>: their types, the two strict
  parsers (of a request and of a stored record) and the serializer. A parser that throws is
  \<open>Inl\<close> with the path the error names; the sentence of the message is not modelled.
\<close>

section \<open>Checked values\<close>

type_synonym 'a checked = "string + 'a"

definition chk :: "'e + 'a \<Rightarrow> ('a \<Rightarrow> 'e + 'b) \<Rightarrow> 'e + 'b" where
  "chk r f = (case r of Inl e \<Rightarrow> Inl e | Inr a \<Rightarrow> f a)"

lemma chk_simps [simp]: "chk (Inl e) f = Inl e" "chk (Inr a) f = f a"
  by (simp_all add: chk_def)

lemma chk_eq_Inr: "chk r f = Inr b \<longleftrightarrow> (\<exists>a. r = Inr a \<and> f a = Inr b)"
  by (cases r) simp_all

text \<open>\<open>if (bad) invalid(path, ...)\<close> before the rest.\<close>

definition reject :: "bool \<Rightarrow> string \<Rightarrow> unit checked" where
  "reject bad path = (if bad then Inl path else Inr ())"

lemma reject_eq_Inr [simp]: "reject bad path = Inr u \<longleftrightarrow> \<not> bad"
  by (simp add: reject_def)

lemma reject_False [simp]: "reject False path = Inr ()"
  by (simp add: reject_def)

definition record_at :: "jsval \<Rightarrow> string \<Rightarrow> (js_string \<times> jsval) list checked" where
  "record_at item path = (case item of JObject properties \<Rightarrow> Inr properties | _ \<Rightarrow> Inl path)"

definition has_key :: "(js_string \<times> jsval) list \<Rightarrow> string \<Rightarrow> bool" where
  "has_key obj key \<longleftrightarrow> js key \<in> fst ` set obj"

definition exactKeys :: "(js_string \<times> jsval) list \<Rightarrow> string list \<Rightarrow> string \<Rightarrow> unit checked" where
  "exactKeys obj expected path =
     reject (length obj \<noteq> length expected \<or> (\<exists>key \<in> fst ` set obj. key \<notin> js ` set expected)) path"

text \<open>A string that must be one of a closed list of literals; \<open>literal\<close> spells a choice.\<close>

definition member_at :: "jsval \<Rightarrow> ('c \<Rightarrow> string) \<Rightarrow> 'c list \<Rightarrow> string \<Rightarrow> 'c checked" where
  "member_at item literal allowed path =
     (case find (\<lambda>choice. item = JString (js (literal choice))) allowed of
        None \<Rightarrow> Inl path
      | Some choice \<Rightarrow> Inr choice)"

definition boolean_at :: "jsval \<Rightarrow> string \<Rightarrow> bool checked" where
  "boolean_at item path = (case item of JBool b \<Rightarrow> Inr b | _ \<Rightarrow> Inl path)"

text \<open>\<open>options.key === undefined ? {} : { key: parse(options.key) }\<close>.\<close>

definition optional_at :: "jsval \<Rightarrow> (jsval \<Rightarrow> 'a checked) \<Rightarrow> 'a option checked" where
  "optional_at item parse = (if item = JUndefined then Inr None else chk (parse item) (\<lambda>a. Inr (Some a)))"

lemma record_at_eq_Inr: "record_at item path = Inr obj \<longleftrightarrow> item = JObject obj"
  by (cases item) (auto simp: record_at_def)

lemma record_at_JObject [simp]: "record_at (JObject obj) path = Inr obj"
  by (simp add: record_at_def)

lemma member_at_sound: "member_at item literal allowed path = Inr c \<Longrightarrow>
    c \<in> set allowed \<and> item = JString (js (literal c))"
  by (auto simp: member_at_def find_Some_iff split: option.splits)

lemma member_at_literal:
  assumes "inj_on literal (set allowed)" and "c \<in> set allowed"
  shows "member_at (JString (js (literal c))) literal allowed path = Inr c"
proof -
  let ?p = "\<lambda>choice. JString (js (literal c)) = JString (js (literal choice))"
  have "find ?p allowed \<noteq> None" using assms(2) by (auto simp: find_None_iff)
  then obtain d where d: "find ?p allowed = Some d" by auto
  then have "d \<in> set allowed" "literal d = literal c"
    by (auto simp: find_Some_iff js_inject)
  with assms have "d = c" by (simp add: inj_on_eq_iff)
  with d show ?thesis by (simp add: member_at_def)
qed

lemma boolean_at_JBool [simp]: "boolean_at (JBool b) path = Inr b"
  by (simp add: boolean_at_def)

lemma optional_at_simps:
  "optional_at JUndefined parse = Inr None"
  "item \<noteq> JUndefined \<Longrightarrow> optional_at item parse = chk (parse item) (\<lambda>a. Inr (Some a))"
  by (simp_all add: optional_at_def)

section \<open>The choices\<close>

datatype agent_cli_kind = ClaudeCode | Codex

fun cli_kind_literal :: "agent_cli_kind \<Rightarrow> string" where
  "cli_kind_literal ClaudeCode = ''claudeCode''"
| "cli_kind_literal Codex = ''codex''"

text \<open>
  The two model patterns, groups of lower-case letters and digits joined by one separator:
  \<open>[a-z0-9]+(?:-[a-z0-9]+)*\<close> and \<open>[a-z0-9]+(?:[.-][a-z0-9]+)*\<close>.
\<close>

definition lower_alnum :: "js_unit \<Rightarrow> bool" where
  "lower_alnum u \<longleftrightarrow> (97 \<le> unat u \<and> unat u \<le> 122) \<or> (48 \<le> unat u \<and> unat u \<le> 57)"

fun group_first :: "(js_unit \<Rightarrow> bool) \<Rightarrow> js_string \<Rightarrow> bool"
  and group_more :: "(js_unit \<Rightarrow> bool) \<Rightarrow> js_string \<Rightarrow> bool" where
  "group_first sep [] = False"
| "group_first sep (c # cs) = (lower_alnum c \<and> group_more sep cs)"
| "group_more sep [] = True"
| "group_more sep (c # cs) = (if lower_alnum c then group_more sep cs else sep c \<and> group_first sep cs)"

definition isClaudeModelChoice :: "js_string \<Rightarrow> bool" where
  "isClaudeModelChoice model \<longleftrightarrow>
     length model \<le> 96 \<and>
     (model \<in> js ` set [''default'', ''fable'', ''opus'', ''sonnet''] \<or>
      js_startsWith model (js ''claude-'') \<and> group_first (\<lambda>u. u = 45) (drop 7 model))"

definition MAX_CODEX_MODEL_ID_BYTES :: nat where "MAX_CODEX_MODEL_ID_BYTES = 64"

definition isCodexModelId :: "js_string \<Rightarrow> bool" where
  "isCodexModelId model \<longleftrightarrow>
     length model \<le> MAX_CODEX_MODEL_ID_BYTES \<and> group_first (\<lambda>u. u = 46 \<or> u = 45) model"

definition isCodexModelChoice :: "js_string \<Rightarrow> bool" where
  "isCodexModelChoice model \<longleftrightarrow> model = js ''default'' \<or> isCodexModelId model"

datatype claude_permission_mode =
  ClaudeModeDefault | ModePlan | ModeSupervised | ModeAcceptEdits | ClaudeModeAuto | ModeBypassPermissions

definition CLAUDE_PERMISSION_MODES :: "claude_permission_mode list" where
  "CLAUDE_PERMISSION_MODES =
     [ClaudeModeDefault, ModePlan, ModeSupervised, ModeAcceptEdits, ClaudeModeAuto, ModeBypassPermissions]"

fun claude_mode_literal :: "claude_permission_mode \<Rightarrow> string" where
  "claude_mode_literal ClaudeModeDefault = ''default''"
| "claude_mode_literal ModePlan = ''plan''"
| "claude_mode_literal ModeSupervised = ''supervised''"
| "claude_mode_literal ModeAcceptEdits = ''acceptEdits''"
| "claude_mode_literal ClaudeModeAuto = ''auto''"
| "claude_mode_literal ModeBypassPermissions = ''bypassPermissions''"

datatype codex_effort =
  CodexEffortDefault | CodexEffortNone | CodexEffortMinimal | CodexEffortLow | CodexEffortMedium
| CodexEffortHigh | CodexEffortXhigh | CodexEffortMax | CodexEffortUltra

definition CODEX_EFFORT_CHOICES :: "codex_effort list" where
  "CODEX_EFFORT_CHOICES =
     [CodexEffortDefault, CodexEffortNone, CodexEffortMinimal, CodexEffortLow, CodexEffortMedium,
      CodexEffortHigh, CodexEffortXhigh, CodexEffortMax, CodexEffortUltra]"

fun codex_effort_literal :: "codex_effort \<Rightarrow> string" where
  "codex_effort_literal CodexEffortDefault = ''default''"
| "codex_effort_literal CodexEffortNone = ''none''"
| "codex_effort_literal CodexEffortMinimal = ''minimal''"
| "codex_effort_literal CodexEffortLow = ''low''"
| "codex_effort_literal CodexEffortMedium = ''medium''"
| "codex_effort_literal CodexEffortHigh = ''high''"
| "codex_effort_literal CodexEffortXhigh = ''xhigh''"
| "codex_effort_literal CodexEffortMax = ''max''"
| "codex_effort_literal CodexEffortUltra = ''ultra''"

datatype codex_execution_mode =
  CodexModeDefault | ModeReadOnly | ModeWorkspaceWrite | CodexModeAuto | ModeDangerFullAccess

definition CODEX_EXECUTION_MODES :: "codex_execution_mode list" where
  "CODEX_EXECUTION_MODES =
     [CodexModeDefault, ModeReadOnly, ModeWorkspaceWrite, CodexModeAuto, ModeDangerFullAccess]"

fun codex_mode_literal :: "codex_execution_mode \<Rightarrow> string" where
  "codex_mode_literal CodexModeDefault = ''default''"
| "codex_mode_literal ModeReadOnly = ''readOnly''"
| "codex_mode_literal ModeWorkspaceWrite = ''workspaceWrite''"
| "codex_mode_literal CodexModeAuto = ''auto''"
| "codex_mode_literal ModeDangerFullAccess = ''dangerFullAccess''"

datatype claude_effort =
  ClaudeEffortDefault | ClaudeEffortLow | ClaudeEffortMedium | ClaudeEffortHigh | ClaudeEffortXhigh
| ClaudeEffortMax | ClaudeEffortUltracode | ClaudeEffortUltrathink

definition CLAUDE_EFFORT_CHOICES :: "claude_effort list" where
  "CLAUDE_EFFORT_CHOICES =
     [ClaudeEffortDefault, ClaudeEffortLow, ClaudeEffortMedium, ClaudeEffortHigh, ClaudeEffortXhigh,
      ClaudeEffortMax, ClaudeEffortUltracode, ClaudeEffortUltrathink]"

fun claude_effort_literal :: "claude_effort \<Rightarrow> string" where
  "claude_effort_literal ClaudeEffortDefault = ''default''"
| "claude_effort_literal ClaudeEffortLow = ''low''"
| "claude_effort_literal ClaudeEffortMedium = ''medium''"
| "claude_effort_literal ClaudeEffortHigh = ''high''"
| "claude_effort_literal ClaudeEffortXhigh = ''xhigh''"
| "claude_effort_literal ClaudeEffortMax = ''max''"
| "claude_effort_literal ClaudeEffortUltracode = ''ultracode''"
| "claude_effort_literal ClaudeEffortUltrathink = ''ultrathink''"

datatype claude_context = Context200k | Context1m

definition CLAUDE_CONTEXT_CHOICES :: "claude_context list" where
  "CLAUDE_CONTEXT_CHOICES = [Context200k, Context1m]"

fun claude_context_literal :: "claude_context \<Rightarrow> string" where
  "claude_context_literal Context200k = ''200k''"
| "claude_context_literal Context1m = ''1m''"

section \<open>Launch options\<close>

record claude_launch =
  cl_model :: js_string
  cl_mode :: claude_permission_mode
  cl_effort :: claude_effort
  cl_context :: "claude_context option"
  cl_fastMode :: "bool option"
  cl_thinkingMode :: "bool option"
  cl_chrome :: "bool option"

record codex_launch =
  cx_model :: js_string
  cx_mode :: codex_execution_mode
  cx_effort :: "codex_effort option"

datatype launch_options = ClaudeLaunch claude_launch | CodexLaunch codex_launch

fun launch_provider :: "launch_options \<Rightarrow> agent_cli_kind" where
  "launch_provider (ClaudeLaunch _) = ClaudeCode"
| "launch_provider (CodexLaunch _) = Codex"

fun defaultAgentLaunchOptions :: "agent_cli_kind \<Rightarrow> launch_options" where
  "defaultAgentLaunchOptions ClaudeCode = ClaudeLaunch
     \<lparr>cl_model = js ''default'', cl_mode = ClaudeModeDefault, cl_effort = ClaudeEffortDefault,
      cl_context = Some Context1m, cl_fastMode = Some False, cl_thinkingMode = Some False,
      cl_chrome = None\<rparr>"
| "defaultAgentLaunchOptions Codex = CodexLaunch
     \<lparr>cx_model = js ''default'', cx_mode = CodexModeDefault, cx_effort = None\<rparr>"

fun serializeAgentLaunchOptions :: "launch_options \<Rightarrow> jsval" where
  "serializeAgentLaunchOptions (ClaudeLaunch opts) = JObject
     (js_field ''provider'' (Some (JString (js ''claudeCode''))) @
      js_field ''model'' (Some (JString (cl_model opts))) @
      js_field ''mode'' (Some (JString (js (claude_mode_literal (cl_mode opts))))) @
      js_field ''effort'' (Some (JString (js (claude_effort_literal (cl_effort opts))))) @
      js_field ''context'' (map_option (\<lambda>c. JString (js (claude_context_literal c))) (cl_context opts)) @
      js_field ''fastMode'' (map_option JBool (cl_fastMode opts)) @
      js_field ''thinkingMode'' (map_option JBool (cl_thinkingMode opts)) @
      js_field ''chrome'' (map_option JBool (cl_chrome opts)))"
| "serializeAgentLaunchOptions (CodexLaunch opts) = JObject
     (js_field ''provider'' (Some (JString (js ''codex''))) @
      js_field ''model'' (Some (JString (cx_model opts))) @
      js_field ''mode'' (Some (JString (js (codex_mode_literal (cx_mode opts))))) @
      js_field ''effort''
        (if cx_effort opts = None \<or> cx_effort opts = Some CodexEffortDefault then None
         else map_option (\<lambda>e. JString (js (codex_effort_literal e))) (cx_effort opts)))"

fun agentLaunchWithoutBrowser :: "launch_options \<Rightarrow> launch_options" where
  "agentLaunchWithoutBrowser (ClaudeLaunch opts) = ClaudeLaunch (opts\<lparr>cl_chrome := None\<rparr>)"
| "agentLaunchWithoutBrowser (CodexLaunch opts) = CodexLaunch opts"

definition agentLaunchMatchesProvider :: "launch_options \<Rightarrow> agent_cli_kind \<Rightarrow> bool" where
  "agentLaunchMatchesProvider options provider \<longleftrightarrow> launch_provider options = provider"

fun agentLaunchIsDangerous :: "launch_options \<Rightarrow> bool" where
  "agentLaunchIsDangerous (ClaudeLaunch opts) = (cl_mode opts = ModeBypassPermissions)"
| "agentLaunchIsDangerous (CodexLaunch opts) = (cx_mode opts = ModeDangerFullAccess)"

text \<open>\<open>a ?? d\<close> with a present default.\<close>

definition or_default :: "'a option \<Rightarrow> 'a \<Rightarrow> 'a" where
  "or_default a d = (case a of None \<Rightarrow> d | Some v \<Rightarrow> v)"

fun agentLaunchOptionsEqual :: "launch_options \<Rightarrow> launch_options \<Rightarrow> bool" where
  "agentLaunchOptionsEqual (CodexLaunch a) (CodexLaunch b) =
     (cx_model a = cx_model b \<and> cx_mode a = cx_mode b \<and>
      or_default (cx_effort a) CodexEffortDefault = or_default (cx_effort b) CodexEffortDefault)"
| "agentLaunchOptionsEqual (ClaudeLaunch a) (ClaudeLaunch b) =
     (cl_model a = cl_model b \<and> cl_mode a = cl_mode b \<and> cl_effort a = cl_effort b \<and>
      or_default (cl_context a) Context1m = or_default (cl_context b) Context1m \<and>
      or_default (cl_fastMode a) False = or_default (cl_fastMode b) False \<and>
      or_default (cl_thinkingMode a) False = or_default (cl_thinkingMode b) False \<and>
      or_default (cl_chrome a) True = or_default (cl_chrome b) True)"
| "agentLaunchOptionsEqual _ _ = False"

section \<open>The parsers\<close>

definition parseClaudeModelChoice :: "jsval \<Rightarrow> string \<Rightarrow> js_string checked" where
  "parseClaudeModelChoice item path =
     (case item of JString s \<Rightarrow> if isClaudeModelChoice s then Inr s else Inl path | _ \<Rightarrow> Inl path)"

definition parseCodexModelChoice :: "jsval \<Rightarrow> string \<Rightarrow> js_string checked" where
  "parseCodexModelChoice item path =
     (case item of JString s \<Rightarrow> if isCodexModelChoice s then Inr s else Inl path | _ \<Rightarrow> Inl path)"

definition parseEffort :: "jsval \<Rightarrow> string \<Rightarrow> bool \<Rightarrow> claude_effort checked" where
  "parseEffort item path stored =
     (if stored \<and> item = JUndefined then Inr ClaudeEffortDefault
      else member_at item claude_effort_literal CLAUDE_EFFORT_CHOICES path)"

definition claudeLaunchKeys :: "(js_string \<times> jsval) list \<Rightarrow> bool \<Rightarrow> string list" where
  "claudeLaunchKeys options stored =
     [''provider'', ''model'', ''mode''] @
     (if \<not> stored \<or> has_key options ''effort'' then [''effort''] else []) @
     (if has_key options ''context'' then [''context''] else []) @
     (if has_key options ''fastMode'' then [''fastMode''] else []) @
     (if has_key options ''thinkingMode'' then [''thinkingMode''] else []) @
     (if has_key options ''chrome'' then [''chrome''] else [])"

definition CODEX_LAUNCH_KEYS :: "string list" where
  "CODEX_LAUNCH_KEYS = [''provider'', ''model'', ''mode'']"

definition CODEX_LAUNCH_KEYS_WITH_EFFORT :: "string list" where
  "CODEX_LAUNCH_KEYS_WITH_EFFORT = CODEX_LAUNCH_KEYS @ [''effort'']"

definition launchProvider :: "jsval \<Rightarrow> string \<Rightarrow> agent_cli_kind checked" where
  "launchProvider item path = member_at item cli_kind_literal [ClaudeCode, Codex] path"

definition parseClaudeLaunch ::
  "(js_string \<times> jsval) list \<Rightarrow> string \<Rightarrow> bool \<Rightarrow> launch_options checked" where
  "parseClaudeLaunch options path stored =
     chk (exactKeys options (claudeLaunchKeys options stored) path) (\<lambda>_.
     chk (parseClaudeModelChoice (js_get options (js ''model'')) (path @ ''.model'')) (\<lambda>model.
     chk (member_at (js_get options (js ''mode'')) claude_mode_literal CLAUDE_PERMISSION_MODES
       (path @ ''.mode'')) (\<lambda>mode.
     chk (parseEffort (js_get options (js ''effort'')) (path @ ''.effort'') stored) (\<lambda>effort.
     chk (optional_at (js_get options (js ''context''))
       (\<lambda>v. member_at v claude_context_literal CLAUDE_CONTEXT_CHOICES (path @ ''.context''))) (\<lambda>ctxt.
     chk (optional_at (js_get options (js ''fastMode'')) (\<lambda>v. boolean_at v (path @ ''.fastMode'')))
       (\<lambda>fast.
     chk (optional_at (js_get options (js ''thinkingMode''))
       (\<lambda>v. boolean_at v (path @ ''.thinkingMode''))) (\<lambda>thinking.
     chk (optional_at (js_get options (js ''chrome'')) (\<lambda>v. boolean_at v (path @ ''.chrome'')))
       (\<lambda>chrome.
     Inr (ClaudeLaunch \<lparr>cl_model = model, cl_mode = mode, cl_effort = effort, cl_context = ctxt,
       cl_fastMode = fast, cl_thinkingMode = thinking, cl_chrome = chrome\<rparr>)))))))))"

definition parseCodexLaunch :: "(js_string \<times> jsval) list \<Rightarrow> string \<Rightarrow> launch_options checked" where
  "parseCodexLaunch options path =
     chk (exactKeys options
       (if has_key options ''effort'' then CODEX_LAUNCH_KEYS_WITH_EFFORT else CODEX_LAUNCH_KEYS) path)
       (\<lambda>_.
     chk (parseCodexModelChoice (js_get options (js ''model'')) (path @ ''.model'')) (\<lambda>model.
     chk (member_at (js_get options (js ''mode'')) codex_mode_literal CODEX_EXECUTION_MODES
       (path @ ''.mode'')) (\<lambda>mode.
     chk (optional_at (js_get options (js ''effort''))
       (\<lambda>v. member_at v codex_effort_literal CODEX_EFFORT_CHOICES (path @ ''.effort''))) (\<lambda>effort.
     Inr (CodexLaunch \<lparr>cx_model = model, cx_mode = mode, cx_effort = effort\<rparr>)))))"

definition parseLaunchOptions :: "jsval \<Rightarrow> string \<Rightarrow> bool \<Rightarrow> launch_options checked" where
  "parseLaunchOptions item path stored =
     chk (record_at item path) (\<lambda>options.
     chk (launchProvider (js_get options (js ''provider'')) (path @ ''.provider'')) (\<lambda>provider.
       case provider of
         ClaudeCode \<Rightarrow> parseClaudeLaunch options path stored
       | Codex \<Rightarrow> parseCodexLaunch options path))"

definition parseAgentLaunchOptions :: "jsval \<Rightarrow> string \<Rightarrow> launch_options checked" where
  "parseAgentLaunchOptions item path = parseLaunchOptions item path False"

definition parseStoredAgentLaunchOptions :: "jsval \<Rightarrow> string \<Rightarrow> launch_options checked" where
  "parseStoredAgentLaunchOptions item path = parseLaunchOptions item path True"

section \<open>Properties\<close>

lemma has_key_append [simp]:
  "has_key (js_field k v @ rest) k' \<longleftrightarrow> k = k' \<and> v \<noteq> None \<or> has_key rest k'"
  by (auto simp: has_key_def image_Un js_inject simp del: js_simps split: if_splits)

lemma has_key_single [simp]: "has_key (js_field k v) k' \<longleftrightarrow> k = k' \<and> v \<noteq> None"
  by (auto simp: has_key_def image_Un js_inject simp del: js_simps split: if_splits)

lemma exactKeys_eq_Inr: "exactKeys obj expected path = Inr u \<longleftrightarrow>
    length obj = length expected \<and> fst ` set obj \<subseteq> js ` set expected"
  by (auto simp: exactKeys_def)

lemma js_opt_eq_undefined: "(\<And>a. f a \<noteq> JUndefined) \<Longrightarrow> js_opt f x = JUndefined \<longleftrightarrow> x = None"
  by (cases x) (simp_all add: js_opt_def)

lemma optional_at_js_opt:
  assumes "\<And>a. f a \<noteq> JUndefined" and "\<And>a. x = Some a \<Longrightarrow> parse (f a) = Inr a"
  shows "optional_at (js_opt f x) parse = Inr x"
  using assms by (cases x) (simp_all add: optional_at_def js_opt_def)

definition launch_ok :: "launch_options \<Rightarrow> bool" where
  "launch_ok options \<longleftrightarrow>
     (case options of
        ClaudeLaunch opts \<Rightarrow> isClaudeModelChoice (cl_model opts)
      | CodexLaunch opts \<Rightarrow> isCodexModelChoice (cx_model opts))"

text \<open>What a serialized record reads back as: the default Codex effort is not stored.\<close>

fun stored_form :: "launch_options \<Rightarrow> launch_options" where
  "stored_form (ClaudeLaunch opts) = ClaudeLaunch opts"
| "stored_form (CodexLaunch opts) =
     CodexLaunch (opts\<lparr>cx_effort :=
       (if cx_effort opts = Some CodexEffortDefault then None else cx_effort opts)\<rparr>)"

lemma member_claude_mode [simp]:
  "member_at (JString (js (claude_mode_literal m))) claude_mode_literal CLAUDE_PERMISSION_MODES p = Inr m"
  by (cases m) (simp_all add: member_at_def CLAUDE_PERMISSION_MODES_def js_inject del: js_simps)

lemma member_claude_effort [simp]:
  "member_at (JString (js (claude_effort_literal m))) claude_effort_literal CLAUDE_EFFORT_CHOICES p = Inr m"
  by (cases m) (simp_all add: member_at_def CLAUDE_EFFORT_CHOICES_def js_inject del: js_simps)

lemma member_claude_context [simp]:
  "member_at (JString (js (claude_context_literal m))) claude_context_literal CLAUDE_CONTEXT_CHOICES p = Inr m"
  by (cases m) (simp_all add: member_at_def CLAUDE_CONTEXT_CHOICES_def js_inject del: js_simps)

lemma member_codex_mode [simp]:
  "member_at (JString (js (codex_mode_literal m))) codex_mode_literal CODEX_EXECUTION_MODES p = Inr m"
  by (cases m) (simp_all add: member_at_def CODEX_EXECUTION_MODES_def js_inject del: js_simps)

lemma member_codex_effort [simp]:
  "member_at (JString (js (codex_effort_literal m))) codex_effort_literal CODEX_EFFORT_CHOICES p = Inr m"
  by (cases m) (simp_all add: member_at_def CODEX_EFFORT_CHOICES_def js_inject del: js_simps)

lemma launchProvider_literal [simp]:
  "launchProvider (JString (js ''claudeCode'')) p = Inr ClaudeCode"
  "launchProvider (JString (js ''codex'')) p = Inr Codex"
  by (simp_all add: launchProvider_def member_at_def js_inject del: js_simps)

lemmas read_back = js_get_append js_get_single js_mem_image

lemma parse_claude_serialized:
  assumes "isClaudeModelChoice (cl_model opts)"
  shows "parseLaunchOptions (serializeAgentLaunchOptions (ClaudeLaunch opts)) path stored =
    Inr (ClaudeLaunch opts)"
proof -
  obtain props where props: "serializeAgentLaunchOptions (ClaudeLaunch opts) = JObject props"
    and def: "props =
      js_field ''provider'' (Some (JString (js ''claudeCode''))) @
      js_field ''model'' (Some (JString (cl_model opts))) @
      js_field ''mode'' (Some (JString (js (claude_mode_literal (cl_mode opts))))) @
      js_field ''effort'' (Some (JString (js (claude_effort_literal (cl_effort opts))))) @
      js_field ''context'' (map_option (\<lambda>c. JString (js (claude_context_literal c))) (cl_context opts)) @
      js_field ''fastMode'' (map_option JBool (cl_fastMode opts)) @
      js_field ''thinkingMode'' (map_option JBool (cl_thinkingMode opts)) @
      js_field ''chrome'' (map_option JBool (cl_chrome opts))"
    by simp
  have "exactKeys props (claudeLaunchKeys props stored) path = Inr ()"
    unfolding exactKeys_eq_Inr claudeLaunchKeys_def def
    by (cases "cl_context opts"; cases "cl_fastMode opts"; cases "cl_thinkingMode opts";
        cases "cl_chrome opts") (simp_all add: image_Un js_mem_image del: js_simps)
  moreover have "js_get props (js ''provider'') = JString (js ''claudeCode'')"
    "js_get props (js ''model'') = JString (cl_model opts)"
    "js_get props (js ''mode'') = JString (js (claude_mode_literal (cl_mode opts)))"
    "js_get props (js ''effort'') = JString (js (claude_effort_literal (cl_effort opts)))"
    "js_get props (js ''context'') = js_opt (\<lambda>c. JString (js (claude_context_literal c))) (cl_context opts)"
    "js_get props (js ''fastMode'') = js_opt JBool (cl_fastMode opts)"
    "js_get props (js ''thinkingMode'') = js_opt JBool (cl_thinkingMode opts)"
    "js_get props (js ''chrome'') = js_opt JBool (cl_chrome opts)"
    unfolding def by (simp_all add: read_back del: js_simps)
  ultimately show ?thesis
    using assms unfolding props
    by (simp add: parseLaunchOptions_def parseClaudeLaunch_def parseClaudeModelChoice_def
        parseEffort_def optional_at_js_opt del: js_simps)
qed

lemma parse_codex_serialized:
  assumes "isCodexModelChoice (cx_model opts)"
  shows "parseLaunchOptions (serializeAgentLaunchOptions (CodexLaunch opts)) path stored =
    Inr (stored_form (CodexLaunch opts))"
proof -
  define effort where "effort = (if cx_effort opts = Some CodexEffortDefault then None else cx_effort opts)"
  define props where "props =
      js_field ''provider'' (Some (JString (js ''codex''))) @
      js_field ''model'' (Some (JString (cx_model opts))) @
      js_field ''mode'' (Some (JString (js (codex_mode_literal (cx_mode opts))))) @
      js_field ''effort'' (map_option (\<lambda>e. JString (js (codex_effort_literal e))) effort)"
  have props: "serializeAgentLaunchOptions (CodexLaunch opts) = JObject props"
    by (simp add: props_def effort_def)
  have "exactKeys props
      (if has_key props ''effort'' then CODEX_LAUNCH_KEYS_WITH_EFFORT else CODEX_LAUNCH_KEYS) path = Inr ()"
    unfolding exactKeys_eq_Inr CODEX_LAUNCH_KEYS_WITH_EFFORT_def CODEX_LAUNCH_KEYS_def props_def
    by (cases effort) (simp_all add: image_Un js_mem_image del: js_simps)
  moreover have "js_get props (js ''provider'') = JString (js ''codex'')"
    "js_get props (js ''model'') = JString (cx_model opts)"
    "js_get props (js ''mode'') = JString (js (codex_mode_literal (cx_mode opts)))"
    "js_get props (js ''effort'') = js_opt (\<lambda>e. JString (js (codex_effort_literal e))) effort"
    unfolding props_def by (simp_all add: read_back del: js_simps)
  ultimately show ?thesis
    using assms unfolding props
    by (simp add: parseLaunchOptions_def parseCodexLaunch_def parseCodexModelChoice_def
        optional_at_js_opt effort_def del: js_simps)
qed

text \<open>
  A valid launch record survives being written and read back: both parsers accept what the
  serializer writes, and what they return is equal to it for \<open>agentLaunchOptionsEqual\<close>, names
  the same provider and is dangerous exactly when it was.
\<close>

theorem launch_roundtrip:
  assumes "launch_ok options"
  shows "\<exists>back. parseAgentLaunchOptions (serializeAgentLaunchOptions options) path = Inr back \<and>
    parseStoredAgentLaunchOptions (serializeAgentLaunchOptions options) path = Inr back \<and>
    agentLaunchOptionsEqual back options \<and> launch_provider back = launch_provider options \<and>
    agentLaunchIsDangerous back = agentLaunchIsDangerous options"
proof (cases options)
  case (ClaudeLaunch opts)
  with assms parse_claude_serialized [of opts] show ?thesis
    by (simp add: parseAgentLaunchOptions_def parseStoredAgentLaunchOptions_def launch_ok_def
        del: serializeAgentLaunchOptions.simps)
next
  case (CodexLaunch opts)
  with assms parse_codex_serialized [of opts] show ?thesis
    by (simp add: parseAgentLaunchOptions_def parseStoredAgentLaunchOptions_def launch_ok_def
        or_default_def del: serializeAgentLaunchOptions.simps)
qed

lemma launch_roundtrip_witness:
  "\<exists>back. parseStoredAgentLaunchOptions
      (serializeAgentLaunchOptions (defaultAgentLaunchOptions Codex)) ''launch'' = Inr back \<and>
    agentLaunchOptionsEqual back (defaultAgentLaunchOptions Codex)"
  using launch_roundtrip [of "defaultAgentLaunchOptions Codex" "''launch''"]
  by (auto simp: launch_ok_def isCodexModelChoice_def)

lemma parse_claude_model: "parseClaudeModelChoice item path = Inr m \<Longrightarrow> isClaudeModelChoice m"
  by (auto simp: parseClaudeModelChoice_def split: jsval.splits if_splits)

lemma parse_codex_model: "parseCodexModelChoice item path = Inr m \<Longrightarrow> isCodexModelChoice m"
  by (auto simp: parseCodexModelChoice_def split: jsval.splits if_splits)

lemma parseLaunchOptions_ok:
  assumes "parseLaunchOptions item path stored = Inr options"
  shows "launch_ok options"
proof -
  from assms obtain obj provider where "(case provider of
      ClaudeCode \<Rightarrow> parseClaudeLaunch obj path stored
    | Codex \<Rightarrow> parseCodexLaunch obj path) = Inr options"
    by (auto simp: parseLaunchOptions_def chk_eq_Inr)
  then show ?thesis
    by (cases provider)
      (auto simp: parseClaudeLaunch_def parseCodexLaunch_def chk_eq_Inr launch_ok_def
        dest: parse_claude_model parse_codex_model)
qed

end
