(* ===== verification/AgentTask.thy ===== *)
theory AgentTask
  imports Launch TurnEvent
begin

text \<open>
  An agent task and the messages about it, \<open>src/domain/agentTask.ts\<close>: its status, the
  isolation it is dispatched with, its identifier, and the strict parsers of what the native
  side sends and of what is sent to it. A parser that throws is \<open>Inl\<close> with the path the
  error names. The patterns for attachment ids, names and paths are of \<open>agentAttachment.ts\<close>,
  the pattern for session ids is of \<open>agentProvider.ts\<close> of the event package.
\<close>

section \<open>Limits and patterns\<close>

definition MAX_AGENT_TASK_ID_BYTES :: nat where "MAX_AGENT_TASK_ID_BYTES = 64"
definition MAX_AGENT_TASK_WORKSPACE_ID_BYTES :: nat where "MAX_AGENT_TASK_WORKSPACE_ID_BYTES = 1024"
definition MAX_AGENT_TASK_PATH_BYTES :: nat where "MAX_AGENT_TASK_PATH_BYTES = 4096"
definition MAX_AGENT_HISTORY_ROOT_KEY_BYTES :: nat where "MAX_AGENT_HISTORY_ROOT_KEY_BYTES = 4096"
definition MAX_AGENT_TASK_PROMPT_BYTES :: nat where "MAX_AGENT_TASK_PROMPT_BYTES = 32 * 1024"
definition MAX_AGENT_TASK_OUTPUT_CHUNK_BYTES :: nat where
  "MAX_AGENT_TASK_OUTPUT_CHUNK_BYTES = 8 * 1024"
definition MAX_AGENT_TASK_FAILURE_BYTES :: nat where "MAX_AGENT_TASK_FAILURE_BYTES = 4096"
definition MAX_AGENT_STEERS_PER_TURN :: nat where "MAX_AGENT_STEERS_PER_TURN = 32"
definition MAX_AGENT_SESSION_ID_BYTES :: nat where "MAX_AGENT_SESSION_ID_BYTES = 128"
definition MAX_AGENT_TURN_ATTACHMENTS :: nat where "MAX_AGENT_TURN_ATTACHMENTS = 8"
definition MAX_AGENT_ATTACHMENT_NAME_BYTES :: nat where "MAX_AGENT_ATTACHMENT_NAME_BYTES = 255"
definition MAX_AGENT_ATTACHMENT_PATH_BYTES :: nat where "MAX_AGENT_ATTACHMENT_PATH_BYTES = 4096"

lemmas task_limits =
  MAX_AGENT_TASK_ID_BYTES_def MAX_AGENT_TASK_WORKSPACE_ID_BYTES_def MAX_AGENT_TASK_PATH_BYTES_def
  MAX_AGENT_HISTORY_ROOT_KEY_BYTES_def MAX_AGENT_TASK_PROMPT_BYTES_def
  MAX_AGENT_TASK_OUTPUT_CHUNK_BYTES_def MAX_AGENT_TASK_FAILURE_BYTES_def
  MAX_AGENT_STEERS_PER_TURN_def MAX_AGENT_SESSION_ID_BYTES_def MAX_AGENT_TURN_ATTACHMENTS_def
  MAX_AGENT_ATTACHMENT_NAME_BYTES_def MAX_AGENT_ATTACHMENT_PATH_BYTES_def

text \<open>\<open>/^[a-z0-9][a-z0-9-]{2,63}$/\<close>.\<close>

definition task_id_pattern :: "js_string \<Rightarrow> bool" where
  "task_id_pattern s \<longleftrightarrow>
     (case s of [] \<Rightarrow> False
      | c # cs \<Rightarrow> lower_alnum c \<and> 2 \<le> length cs \<and> length cs \<le> 63 \<and>
          (\<forall>u \<in> set cs. lower_alnum u \<or> u = 45))"

definition hex_unit :: "js_unit \<Rightarrow> bool" where
  "hex_unit u \<longleftrightarrow> (97 \<le> unat u \<and> unat u \<le> 102) \<or> (48 \<le> unat u \<and> unat u \<le> 57)"

text \<open>\<open>/^agent-root:[0-9a-f]{16}$/\<close>.\<close>

definition history_owner_id_pattern :: "js_string \<Rightarrow> bool" where
  "history_owner_id_pattern s \<longleftrightarrow>
     js_startsWith s (js ''agent-root:'') \<and> length s = 27 \<and> (\<forall>u \<in> set (drop 11 s). hex_unit u)"

definition alnum_unit :: "js_unit \<Rightarrow> bool" where
  "alnum_unit u \<longleftrightarrow> lower_alnum u \<or> (65 \<le> unat u \<and> unat u \<le> 90)"

text \<open>\<open>/^[A-Za-z0-9][A-Za-z0-9_-]{7,127}$/\<close> within 128 bytes.\<close>

definition isAgentSessionId :: "js_string \<Rightarrow> bool" where
  "isAgentSessionId s \<longleftrightarrow>
     utf8ByteLength s \<le> MAX_AGENT_SESSION_ID_BYTES \<and>
     (case s of [] \<Rightarrow> False
      | c # cs \<Rightarrow> alnum_unit c \<and> 7 \<le> length cs \<and> length cs \<le> 127 \<and>
          (\<forall>u \<in> set cs. alnum_unit u \<or> u = 95 \<or> u = 45))"

definition isAgentAttachmentId :: "js_string \<Rightarrow> bool" where
  "isAgentAttachmentId s \<longleftrightarrow> length s = 32 \<and> (\<forall>u \<in> set s. hex_unit u)"

definition isAgentAttachmentName :: "js_string \<Rightarrow> bool" where
  "isAgentAttachmentName s \<longleftrightarrow> (\<forall>u \<in> set s. u \<noteq> 47 \<and> u \<noteq> 92 \<and> u \<noteq> 34)"

definition isAgentAttachmentPath :: "js_string \<Rightarrow> bool" where
  "isAgentAttachmentPath s \<longleftrightarrow> js_startsWith s (js ''/'')"

text \<open>\<open>\p{Cc}\<close>, the two blocks of control characters.\<close>

definition control_unit :: "js_unit \<Rightarrow> bool" where
  "control_unit u \<longleftrightarrow> unat u \<le> 31 \<or> (127 \<le> unat u \<and> unat u \<le> 159)"

section \<open>Tasks\<close>

datatype task_isolation = Worktree | InPlace

fun isolation_literal :: "task_isolation \<Rightarrow> string" where
  "isolation_literal Worktree = ''worktree''"
| "isolation_literal InPlace = ''in-place''"

datatype task_status =
    TaskPending
  | TaskRunning
  | TaskExited int
  | TaskFailed js_string
  | TaskStopped

record task_status_event =
  tse_taskId :: js_string
  tse_workspaceId :: js_string
  tse_repositoryRoot :: js_string
  tse_isolation :: task_isolation
  tse_worktreePath :: "js_string option"
  tse_sequence :: int
  tse_status :: task_status

record task_output_event =
  toe_taskId :: js_string
  toe_sequence :: int
  toe_stream :: output_stream
  toe_chunk :: js_string
  toe_truncated :: bool
  toe_startsAtLineBoundary :: "bool option"

datatype session_restart_policy = RefuseIfBackground | StopBackground

datatype start_attachment =
    StagedAttachment js_string
  | StartReference js_string js_string

record history_scope =
  hs_rootKey :: js_string
  hs_ownerId :: js_string

record start_task_request =
  st_taskId :: js_string
  st_threadId :: js_string
  st_historyScope :: history_scope
  st_workspaceId :: js_string
  st_projectRoot :: js_string
  st_repositoryRoot :: js_string
  st_cwd :: js_string
  st_isolation :: task_isolation
  st_prompt :: js_string
  st_agentCliKind :: agent_cli_kind
  st_resumeSessionId :: "js_string option"
  st_launch :: launch_options
  st_providerGeneration :: int
  st_attachments :: "start_attachment list"
  st_sessionRestart :: "session_restart_policy option"

record task_reference =
  ref_taskId :: js_string
  ref_workspaceId :: js_string

record acknowledge_request =
  ack_taskId :: js_string
  ack_workspaceId :: js_string
  ack_sequence :: int

record stop_root_request =
  stop_workspaceId :: js_string
  stop_repositoryRoot :: js_string

record steer_request =
  steer_taskId :: js_string
  steer_workspaceId :: js_string
  steer_threadId :: js_string
  steer_prompt :: js_string
  steer_attachments :: "start_attachment list option"

datatype steer_rejection =
  NotRegistered | NotRunning | NotSteerable | Stopping | InputClosed | InputUnavailable
| LimitExceeded | WriteTimedOut | WriteFailed

fun steer_rejection_literal :: "steer_rejection \<Rightarrow> string" where
  "steer_rejection_literal NotRegistered = ''notRegistered''"
| "steer_rejection_literal NotRunning = ''notRunning''"
| "steer_rejection_literal NotSteerable = ''notSteerable''"
| "steer_rejection_literal Stopping = ''stopping''"
| "steer_rejection_literal InputClosed = ''inputClosed''"
| "steer_rejection_literal InputUnavailable = ''inputUnavailable''"
| "steer_rejection_literal LimitExceeded = ''limitExceeded''"
| "steer_rejection_literal WriteTimedOut = ''writeTimedOut''"
| "steer_rejection_literal WriteFailed = ''writeFailed''"

definition AGENT_TASK_STEER_REJECTION_REASONS :: "steer_rejection list" where
  "AGENT_TASK_STEER_REJECTION_REASONS =
     [NotRegistered, NotRunning, NotSteerable, Stopping, InputClosed, InputUnavailable,
      LimitExceeded, WriteTimedOut, WriteFailed]"

fun isTerminalAgentTaskStatus :: "task_status \<Rightarrow> bool" where
  "isTerminalAgentTaskStatus TaskPending = False"
| "isTerminalAgentTaskStatus TaskRunning = False"
| "isTerminalAgentTaskStatus (TaskExited _) = True"
| "isTerminalAgentTaskStatus (TaskFailed _) = True"
| "isTerminalAgentTaskStatus TaskStopped = True"

section \<open>Isolation\<close>

datatype isolation_policy = PolicyAuto | PolicyWorktree | PolicyInPlace

record isolation_context =
  ic_workspacePolicy :: isolation_policy
  ic_repositoryStatusKnown :: bool
  ic_repositoryDirty :: bool
  ic_liveAgentTasksInRepository :: nat
  ic_plannedParallelDispatch :: bool

datatype isolation_reason = ReasonPolicy | ReasonParallelDispatch | ReasonStatusUnknown | ReasonDirtyTree

datatype isolation_default = DefaultInPlace | DefaultWorktree isolation_reason

datatype unsafe_reason = UnsafeDirtyTree | UnsafeStatusUnknown

datatype dispatch_guard = DispatchSafe | DispatchUnsafe "unsafe_reason list"

definition defaultAgentTaskIsolation :: "isolation_context \<Rightarrow> isolation_default" where
  "defaultAgentTaskIsolation ctxt =
     (if ic_workspacePolicy ctxt = PolicyWorktree then DefaultWorktree ReasonPolicy
      else if ic_plannedParallelDispatch ctxt then DefaultWorktree ReasonParallelDispatch
      else if ic_workspacePolicy ctxt = PolicyInPlace then DefaultInPlace
      else if \<not> ic_repositoryStatusKnown ctxt then DefaultWorktree ReasonStatusUnknown
      else if ic_repositoryDirty ctxt then DefaultWorktree ReasonDirtyTree
      else DefaultInPlace)"

definition inPlaceDispatchGuard :: "isolation_context \<Rightarrow> dispatch_guard" where
  "inPlaceDispatchGuard ctxt =
     (let reasons = (if \<not> ic_repositoryStatusKnown ctxt then [UnsafeStatusUnknown] else []) in
      if length reasons = 0 then DispatchSafe else DispatchUnsafe reasons)"

section \<open>Minting an identifier\<close>

text \<open>\<open>Number.prototype.toString(36)\<close> of a non-negative integer.\<close>

definition base36_digit :: "nat \<Rightarrow> js_unit" where
  "base36_digit d = word_of_nat (if d < 10 then 48 + d else 87 + d)"

fun base36 :: "nat \<Rightarrow> js_string" where
  "base36 n = (if n < 36 then [base36_digit n] else base36 (n div 36) @ [base36_digit (n mod 36)])"

declare base36.simps [simp del]

definition mintAgentTaskId :: "int \<Rightarrow> js_string \<Rightarrow> js_string checked" where
  "mintAgentTaskId nowEpochMs entropyHex4 =
     chk (reject (\<not> isSafeInteger nowEpochMs \<or> nowEpochMs < 0) ''mintAgentTaskId.nowEpochMs'') (\<lambda>_.
     chk (reject (\<not> (length entropyHex4 = 4 \<and> (\<forall>u \<in> set entropyHex4. hex_unit u)))
       ''mintAgentTaskId.entropyHex4'') (\<lambda>_.
       let taskId = js ''agt-'' @ base36 (nat nowEpochMs) @ js ''-'' @ entropyHex4 in
       chk (reject (\<not> task_id_pattern taskId) ''mintAgentTaskId'') (\<lambda>_. Inr taskId)))"

section \<open>Checked fields\<close>

definition boundedText :: "jsval \<Rightarrow> string \<Rightarrow> nat \<Rightarrow> bool \<Rightarrow> bool \<Rightarrow> js_string checked" where
  "boundedText item path maxBytes allowEmpty rejectControls =
     (case item of
        JString s \<Rightarrow>
          if (\<not> allowEmpty \<and> length s = 0) \<or> 0 \<in> set s \<or>
             (rejectControls \<and> (\<exists>u \<in> set s. control_unit u)) \<or> utf8ByteLength s > maxBytes
          then Inl path else Inr s
      | _ \<Rightarrow> Inl path)"

definition boundedKeys ::
  "(js_string \<times> jsval) list \<Rightarrow> string list \<Rightarrow> string list \<Rightarrow> string \<Rightarrow> unit checked" where
  "boundedKeys obj required optional path =
     reject ((\<exists>key \<in> set required. js key \<notin> fst ` set obj) \<or>
       (\<exists>key \<in> fst ` set obj. key \<notin> js ` set required \<and> key \<notin> js ` set optional)) path"

definition safe_integer_at :: "jsval \<Rightarrow> (int \<Rightarrow> bool) \<Rightarrow> string \<Rightarrow> int checked" where
  "safe_integer_at item ok path =
     (case item of
        JNumber q \<Rightarrow>
          (case js_safe_int q of None \<Rightarrow> Inl path | Some n \<Rightarrow> if ok n then Inr n else Inl path)
      | _ \<Rightarrow> Inl path)"

definition unsignedSafeInteger :: "jsval \<Rightarrow> string \<Rightarrow> int checked" where
  "unsignedSafeInteger item path = safe_integer_at item (\<lambda>n. \<not> n < 0) path"

definition positiveSafeInteger :: "jsval \<Rightarrow> string \<Rightarrow> int checked" where
  "positiveSafeInteger item path = safe_integer_at item (\<lambda>n. \<not> n \<le> 0) path"

definition signedExitCode :: "jsval \<Rightarrow> string \<Rightarrow> int checked" where
  "signedExitCode item path = safe_integer_at item (\<lambda>n. \<not> (n < -2147483648 \<or> n > 2147483647)) path"

definition agentTaskIsolation :: "jsval \<Rightarrow> string \<Rightarrow> task_isolation checked" where
  "agentTaskIsolation item path = member_at item isolation_literal [Worktree, InPlace] path"

definition agentCliKind :: "jsval \<Rightarrow> string \<Rightarrow> agent_cli_kind checked" where
  "agentCliKind item path = member_at item cli_kind_literal [ClaudeCode, Codex] path"

fun stream_literal :: "output_stream \<Rightarrow> string" where
  "stream_literal Stdout = ''stdout''"
| "stream_literal Stderr = ''stderr''"

definition outputStream :: "jsval \<Rightarrow> string \<Rightarrow> output_stream checked" where
  "outputStream item path = member_at item stream_literal [Stdout, Stderr] path"

definition agentPath :: "jsval \<Rightarrow> string \<Rightarrow> js_string checked" where
  "agentPath item path =
     chk (boundedText item path MAX_AGENT_TASK_PATH_BYTES False True) (\<lambda>candidate.
     chk (reject (js_trim candidate = []) path) (\<lambda>_. Inr candidate))"

definition worktreePath :: "jsval \<Rightarrow> task_isolation \<Rightarrow> string \<Rightarrow> js_string option checked" where
  "worktreePath item isolation path =
     (if isolation = InPlace then (if item \<noteq> JNull then Inl path else Inr None)
      else chk (agentPath item path) (\<lambda>p. Inr (Some p)))"

definition agentTaskId :: "jsval \<Rightarrow> string \<Rightarrow> js_string checked" where
  "agentTaskId item path =
     chk (boundedText item path MAX_AGENT_TASK_ID_BYTES False True) (\<lambda>candidate.
     chk (reject (\<not> task_id_pattern candidate) path) (\<lambda>_. Inr candidate))"

definition optionalAgentSessionId :: "jsval \<Rightarrow> string \<Rightarrow> js_string option checked" where
  "optionalAgentSessionId item path =
     (case item of
        JNull \<Rightarrow> Inr None
      | JString s \<Rightarrow> if isAgentSessionId s then Inr (Some s) else Inl path
      | _ \<Rightarrow> Inl path)"

definition agentWorkspaceId :: "jsval \<Rightarrow> string \<Rightarrow> js_string checked" where
  "agentWorkspaceId item path = boundedText item path MAX_AGENT_TASK_WORKSPACE_ID_BYTES False True"

definition agentHistoryScope :: "jsval \<Rightarrow> string \<Rightarrow> history_scope checked" where
  "agentHistoryScope item path =
     chk (record_at item path) (\<lambda>scope.
     chk (exactKeys scope [''rootKey'', ''ownerId''] path) (\<lambda>_.
     chk (boundedText (js_get scope (js ''rootKey'')) (path @ ''.rootKey'')
       MAX_AGENT_HISTORY_ROOT_KEY_BYTES False True) (\<lambda>rootKey.
       case js_get scope (js ''ownerId'') of
         JString ownerId \<Rightarrow>
           if history_owner_id_pattern ownerId
           then Inr \<lparr>hs_rootKey = rootKey, hs_ownerId = ownerId\<rparr>
           else Inl (path @ ''.ownerId'')
       | _ \<Rightarrow> Inl (path @ ''.ownerId''))))"

section \<open>Messages from the native side\<close>

datatype status_kind = KindPending | KindRunning | KindExited | KindFailed | KindStopped

fun status_kind_literal :: "status_kind \<Rightarrow> string" where
  "status_kind_literal KindPending = ''pending''"
| "status_kind_literal KindRunning = ''running''"
| "status_kind_literal KindExited = ''exited''"
| "status_kind_literal KindFailed = ''failed''"
| "status_kind_literal KindStopped = ''stopped''"

definition statusKind :: "jsval \<Rightarrow> string \<Rightarrow> status_kind checked" where
  "statusKind item path =
     member_at item status_kind_literal [KindPending, KindRunning, KindExited, KindFailed, KindStopped] path"

definition owner_keys :: "string list" where
  "owner_keys = [''taskId'', ''workspaceId'', ''repositoryRoot'', ''isolation'', ''worktreePath'']"

definition parseAgentTaskStatus :: "(js_string \<times> jsval) list \<Rightarrow> string \<Rightarrow> task_status checked" where
  "parseAgentTaskStatus event path =
     chk (statusKind (js_get event (js ''status'')) (path @ ''.status'')) (\<lambda>kind.
       case kind of
         KindExited \<Rightarrow>
           chk (exactKeys event (owner_keys @ [''sequence'', ''status'', ''exitCode'']) path) (\<lambda>_.
           chk (signedExitCode (js_get event (js ''exitCode'')) (path @ ''.exitCode''))
             (\<lambda>code. Inr (TaskExited code)))
       | KindFailed \<Rightarrow>
           chk (exactKeys event (owner_keys @ [''sequence'', ''status'', ''message'']) path) (\<lambda>_.
           chk (boundedText (js_get event (js ''message'')) (path @ ''.message'')
             MAX_AGENT_TASK_FAILURE_BYTES False False) (\<lambda>message. Inr (TaskFailed message)))
       | KindPending \<Rightarrow>
           chk (exactKeys event (owner_keys @ [''sequence'', ''status'']) path) (\<lambda>_. Inr TaskPending)
       | KindRunning \<Rightarrow>
           chk (exactKeys event (owner_keys @ [''sequence'', ''status'']) path) (\<lambda>_. Inr TaskRunning)
       | KindStopped \<Rightarrow>
           chk (exactKeys event (owner_keys @ [''sequence'', ''status'']) path) (\<lambda>_. Inr TaskStopped))"

definition parseAgentTaskStatusEvent :: "jsval \<Rightarrow> task_status_event checked" where
  "parseAgentTaskStatusEvent item =
     chk (record_at item ''event'') (\<lambda>event.
     chk (parseAgentTaskStatus event ''event'') (\<lambda>status.
     chk (agentTaskIsolation (js_get event (js ''isolation'')) ''event.isolation'') (\<lambda>isolation.
     chk (agentTaskId (js_get event (js ''taskId'')) ''event.taskId'') (\<lambda>taskId.
     chk (agentWorkspaceId (js_get event (js ''workspaceId'')) ''event.workspaceId'') (\<lambda>workspaceId.
     chk (agentPath (js_get event (js ''repositoryRoot'')) ''event.repositoryRoot'') (\<lambda>repositoryRoot.
     chk (worktreePath (js_get event (js ''worktreePath'')) isolation ''event.worktreePath'') (\<lambda>worktree.
     chk (unsignedSafeInteger (js_get event (js ''sequence'')) ''event.sequence'') (\<lambda>sequence.
     Inr \<lparr>tse_taskId = taskId, tse_workspaceId = workspaceId, tse_repositoryRoot = repositoryRoot,
       tse_isolation = isolation, tse_worktreePath = worktree, tse_sequence = sequence,
       tse_status = status\<rparr>))))))))"

definition parseAgentTaskOutputEvent :: "jsval \<Rightarrow> task_output_event checked" where
  "parseAgentTaskOutputEvent item =
     chk (record_at item ''event'') (\<lambda>event.
     chk (boundedKeys event [''taskId'', ''sequence'', ''stream'', ''chunk'', ''truncated'']
       [''startsAtLineBoundary''] ''event'') (\<lambda>_.
     chk (agentTaskId (js_get event (js ''taskId'')) ''event.taskId'') (\<lambda>taskId.
     chk (unsignedSafeInteger (js_get event (js ''sequence'')) ''event.sequence'') (\<lambda>sequence.
     chk (outputStream (js_get event (js ''stream'')) ''event.stream'') (\<lambda>stream.
     chk (boundedText (js_get event (js ''chunk'')) ''event.chunk''
       MAX_AGENT_TASK_OUTPUT_CHUNK_BYTES True False) (\<lambda>chunk.
     chk (boolean_at (js_get event (js ''truncated'')) ''event.truncated'') (\<lambda>trunc.
     chk (if has_key event ''startsAtLineBoundary''
          then chk (boolean_at (js_get event (js ''startsAtLineBoundary''))
            ''event.startsAtLineBoundary'') (\<lambda>b. Inr (Some b))
          else Inr None) (\<lambda>boundary.
     Inr \<lparr>toe_taskId = taskId, toe_sequence = sequence, toe_stream = stream, toe_chunk = chunk,
       toe_truncated = trunc, toe_startsAtLineBoundary = boundary\<rparr>))))))))"

definition parseStartAgentTaskResult :: "jsval \<Rightarrow> js_string checked" where
  "parseStartAgentTaskResult item =
     chk (record_at item ''result'') (\<lambda>result.
     chk (exactKeys result [''taskId''] ''result'') (\<lambda>_.
     agentTaskId (js_get result (js ''taskId'')) ''result.taskId''))"

definition parseAgentTaskSteerRejection :: "jsval \<Rightarrow> steer_rejection option" where
  "parseAgentTaskSteerRejection item =
     (case item of
        JObject candidate \<Rightarrow>
          if map fst candidate \<noteq> [js ''reason''] then None
          else find (\<lambda>known. js_get candidate (js ''reason'') = JString (js (steer_rejection_literal known)))
            AGENT_TASK_STEER_REJECTION_REASONS
      | _ \<Rightarrow> None)"

section \<open>Requests to the native side\<close>

definition agentSessionRestartPolicy :: "jsval \<Rightarrow> string \<Rightarrow> session_restart_policy checked" where
  "agentSessionRestartPolicy item path =
     (if item = JString (js ''refuseIfBackground'') then Inr RefuseIfBackground
      else if item = JString (js ''stopBackground'') then Inr StopBackground
      else Inl path)"

definition agentAttachmentDisplayName :: "jsval \<Rightarrow> string \<Rightarrow> js_string checked" where
  "agentAttachmentDisplayName item path =
     chk (boundedText item path MAX_AGENT_ATTACHMENT_NAME_BYTES False True) (\<lambda>candidate.
     chk (reject (\<not> isAgentAttachmentName candidate) path) (\<lambda>_. Inr candidate))"

definition agentAttachmentAbsolutePath :: "jsval \<Rightarrow> string \<Rightarrow> js_string checked" where
  "agentAttachmentAbsolutePath item path =
     chk (boundedText item path MAX_AGENT_ATTACHMENT_PATH_BYTES False True) (\<lambda>candidate.
     chk (reject (\<not> isAgentAttachmentPath candidate) path) (\<lambda>_. Inr candidate))"

definition startAgentTaskAttachment :: "jsval \<Rightarrow> string \<Rightarrow> start_attachment checked" where
  "startAgentTaskAttachment item path =
     chk (record_at item path) (\<lambda>attachment.
       if js_get attachment (js ''kind'') = JString (js ''staged'') then
         chk (exactKeys attachment [''kind'', ''attachmentId''] path) (\<lambda>_.
         case js_get attachment (js ''attachmentId'') of
           JString ident \<Rightarrow>
             if isAgentAttachmentId ident then Inr (StagedAttachment ident)
             else Inl (path @ ''.attachmentId'')
         | _ \<Rightarrow> Inl (path @ ''.attachmentId''))
       else if js_get attachment (js ''kind'') = JString (js ''reference'') then
         chk (exactKeys attachment [''kind'', ''name'', ''path''] path) (\<lambda>_.
         chk (agentAttachmentDisplayName (js_get attachment (js ''name'')) (path @ ''.name'')) (\<lambda>name.
         chk (agentAttachmentAbsolutePath (js_get attachment (js ''path'')) (path @ ''.path'')) (\<lambda>file.
         Inr (StartReference name file))))
       else Inl (path @ ''.kind''))"

text \<open>The index of a path, in decimal.\<close>

fun decimal :: "nat \<Rightarrow> string" where
  "decimal n = (if n < 10 then [char_of (48 + n)] else decimal (n div 10) @ [char_of (48 + n mod 10)])"

declare decimal.simps [simp del]

fun attachments_from :: "nat \<Rightarrow> jsval list \<Rightarrow> string \<Rightarrow> start_attachment list checked" where
  "attachments_from i [] path = Inr []"
| "attachments_from i (entry # entries) path =
     chk (startAgentTaskAttachment entry (path @ ''['' @ decimal i @ '']'')) (\<lambda>a.
     chk (attachments_from (Suc i) entries path) (\<lambda>rest. Inr (a # rest)))"

definition startAgentTaskAttachments :: "jsval \<Rightarrow> string \<Rightarrow> start_attachment list checked" where
  "startAgentTaskAttachments item path =
     (case item of
        JArray entries \<Rightarrow>
          chk (reject (length entries > MAX_AGENT_TURN_ATTACHMENTS) path) (\<lambda>_.
          attachments_from 0 entries path)
      | _ \<Rightarrow> Inl path)"

definition start_request_keys :: "string list" where
  "start_request_keys =
     [''taskId'', ''threadId'', ''historyScope'', ''workspaceId'', ''projectRoot'', ''repositoryRoot'',
      ''cwd'', ''isolation'', ''prompt'', ''agentCliKind'', ''resumeSessionId'', ''launch'',
      ''providerGeneration'', ''attachments'']"

definition validateStartAgentTaskRequest :: "jsval \<Rightarrow> start_task_request checked" where
  "validateStartAgentTaskRequest item =
     chk (record_at item ''request'') (\<lambda>request.
     chk (boundedKeys request start_request_keys [''sessionRestart''] ''request'') (\<lambda>_.
     chk (agentTaskIsolation (js_get request (js ''isolation'')) ''request.isolation'') (\<lambda>isolation.
     chk (agentPath (js_get request (js ''repositoryRoot'')) ''request.repositoryRoot'') (\<lambda>repositoryRoot.
     chk (agentPath (js_get request (js ''cwd'')) ''request.cwd'') (\<lambda>cwd.
     chk (reject (isolation = InPlace \<and> cwd \<noteq> repositoryRoot) ''request.cwd'') (\<lambda>_.
     chk (agentCliKind (js_get request (js ''agentCliKind'')) ''request.agentCliKind'') (\<lambda>cliKind.
     chk (parseAgentLaunchOptions (js_get request (js ''launch'')) ''request.launch'') (\<lambda>launch.
     chk (reject (\<not> agentLaunchMatchesProvider launch cliKind) ''request.launch.provider'') (\<lambda>_.
     chk (agentTaskId (js_get request (js ''taskId'')) ''request.taskId'') (\<lambda>taskId.
     chk (agentTaskId (js_get request (js ''threadId'')) ''request.threadId'') (\<lambda>threadId.
     chk (agentHistoryScope (js_get request (js ''historyScope'')) ''request.historyScope'') (\<lambda>scope.
     chk (agentWorkspaceId (js_get request (js ''workspaceId'')) ''request.workspaceId'') (\<lambda>workspaceId.
     chk (agentPath (js_get request (js ''projectRoot'')) ''request.projectRoot'') (\<lambda>projectRoot.
     chk (boundedText (js_get request (js ''prompt'')) ''request.prompt''
       MAX_AGENT_TASK_PROMPT_BYTES False False) (\<lambda>prompt.
     chk (optionalAgentSessionId (js_get request (js ''resumeSessionId'')) ''request.resumeSessionId'')
       (\<lambda>resume.
     chk (positiveSafeInteger (js_get request (js ''providerGeneration'')) ''request.providerGeneration'')
       (\<lambda>generation.
     chk (startAgentTaskAttachments (js_get request (js ''attachments'')) ''request.attachments'')
       (\<lambda>attachments.
     chk (optional_at (js_get request (js ''sessionRestart''))
       (\<lambda>v. agentSessionRestartPolicy v ''request.sessionRestart'')) (\<lambda>restart.
     Inr \<lparr>st_taskId = taskId, st_threadId = threadId, st_historyScope = scope,
       st_workspaceId = workspaceId, st_projectRoot = projectRoot, st_repositoryRoot = repositoryRoot,
       st_cwd = cwd, st_isolation = isolation, st_prompt = prompt, st_agentCliKind = cliKind,
       st_resumeSessionId = resume, st_launch = launch, st_providerGeneration = generation,
       st_attachments = attachments, st_sessionRestart = restart\<rparr>)))))))))))))))))))"

definition validateAgentTaskReferenceRequest :: "jsval \<Rightarrow> task_reference checked" where
  "validateAgentTaskReferenceRequest item =
     chk (record_at item ''request'') (\<lambda>request.
     chk (exactKeys request [''taskId'', ''workspaceId''] ''request'') (\<lambda>_.
     chk (agentTaskId (js_get request (js ''taskId'')) ''request.taskId'') (\<lambda>taskId.
     chk (agentWorkspaceId (js_get request (js ''workspaceId'')) ''request.workspaceId'') (\<lambda>workspaceId.
     Inr \<lparr>ref_taskId = taskId, ref_workspaceId = workspaceId\<rparr>))))"

definition validateAcknowledgeAgentTaskOutputRequest :: "jsval \<Rightarrow> acknowledge_request checked" where
  "validateAcknowledgeAgentTaskOutputRequest item =
     chk (record_at item ''request'') (\<lambda>request.
     chk (exactKeys request [''taskId'', ''workspaceId'', ''sequence''] ''request'') (\<lambda>_.
     chk (agentTaskId (js_get request (js ''taskId'')) ''request.taskId'') (\<lambda>taskId.
     chk (agentWorkspaceId (js_get request (js ''workspaceId'')) ''request.workspaceId'') (\<lambda>workspaceId.
     chk (positiveSafeInteger (js_get request (js ''sequence'')) ''request.sequence'') (\<lambda>sequence.
     Inr \<lparr>ack_taskId = taskId, ack_workspaceId = workspaceId, ack_sequence = sequence\<rparr>)))))"

definition validateSteerAgentTaskRequest :: "jsval \<Rightarrow> steer_request checked" where
  "validateSteerAgentTaskRequest item =
     chk (record_at item ''request'') (\<lambda>request.
     chk (boundedKeys request [''taskId'', ''workspaceId'', ''threadId'', ''prompt''] [''attachments'']
       ''request'') (\<lambda>_.
     chk (agentTaskId (js_get request (js ''taskId'')) ''request.taskId'') (\<lambda>taskId.
     chk (agentWorkspaceId (js_get request (js ''workspaceId'')) ''request.workspaceId'') (\<lambda>workspaceId.
     chk (agentTaskId (js_get request (js ''threadId'')) ''request.threadId'') (\<lambda>threadId.
     chk (boundedText (js_get request (js ''prompt'')) ''request.prompt''
       MAX_AGENT_TASK_PROMPT_BYTES False False) (\<lambda>prompt.
     chk (optional_at (js_get request (js ''attachments''))
       (\<lambda>v. startAgentTaskAttachments v ''request.attachments'')) (\<lambda>attachments.
     Inr \<lparr>steer_taskId = taskId, steer_workspaceId = workspaceId, steer_threadId = threadId,
       steer_prompt = prompt, steer_attachments = attachments\<rparr>)))))))"

definition validateStopAgentTasksForRootRequest :: "jsval \<Rightarrow> stop_root_request checked" where
  "validateStopAgentTasksForRootRequest item =
     chk (record_at item ''request'') (\<lambda>request.
     chk (exactKeys request [''workspaceId'', ''repositoryRoot''] ''request'') (\<lambda>_.
     chk (agentWorkspaceId (js_get request (js ''workspaceId'')) ''request.workspaceId'') (\<lambda>workspaceId.
     chk (agentPath (js_get request (js ''repositoryRoot'')) ''request.repositoryRoot'') (\<lambda>repositoryRoot.
     Inr \<lparr>stop_workspaceId = workspaceId, stop_repositoryRoot = repositoryRoot\<rparr>))))"

end
