(* ===== verification/Codec.thy ===== *)
theory Codec
  imports AgentTask
begin

text \<open>
  What the strict parsers of a stored document share, \<open>src/domain/agentThreadWire.ts\<close>: fields that
  are nullable, arrays whose elements are parsed under their index, and the contract between a
  serializer and its parser. A \<open>field_codec\<close> writes a value its parser reads back unchanged, and its
  parser only returns values that can be written; a \<open>value_codec\<close> moreover never writes \<open>null\<close>; a
  \<open>saver\<close> may throw on a value that is not storable and may normalize what it writes.
\<close>

section \<open>Nullable fields and arrays\<close>

text \<open>\<open>if (value === null) return null; return parse(value);\<close>.\<close>

definition nullable_at :: "jsval \<Rightarrow> (jsval \<Rightarrow> 'a checked) \<Rightarrow> 'a option checked" where
  "nullable_at item parse = (if item = JNull then Inr None else chk (parse item) (\<lambda>a. Inr (Some a)))"

text \<open>\<open>if (value === undefined || value === null) return null; return parse(value);\<close>.\<close>

definition missing_at :: "jsval \<Rightarrow> (jsval \<Rightarrow> 'a checked) \<Rightarrow> 'a option checked" where
  "missing_at item parse = (if item = JUndefined then Inr None else nullable_at item parse)"

definition js_null :: "('a \<Rightarrow> jsval) \<Rightarrow> 'a option \<Rightarrow> jsval" where
  "js_null emit x = (case x of None \<Rightarrow> JNull | Some a \<Rightarrow> emit a)"

definition js_int :: "int \<Rightarrow> jsval" where
  "js_int n = JNumber (Some (rat_of_int n))"

text \<open>\<open>values.map((value, index) => parse(value, `${path}[${index}]`))\<close>, stopping at the first throw.\<close>

fun array_from :: "nat \<Rightarrow> (jsval \<Rightarrow> string \<Rightarrow> 'a checked) \<Rightarrow> jsval list \<Rightarrow> string \<Rightarrow> 'a list checked" where
  "array_from i parse [] path = Inr []"
| "array_from i parse (item # items) path =
     chk (parse item (path @ ''['' @ decimal i @ '']'')) (\<lambda>a.
     chk (array_from (Suc i) parse items path) (\<lambda>rest. Inr (a # rest)))"

definition boundedArray :: "jsval \<Rightarrow> string \<Rightarrow> nat \<Rightarrow> jsval list checked" where
  "boundedArray item path maxItems =
     (case item of JArray items \<Rightarrow> if length items > maxItems then Inl path else Inr items | _ \<Rightarrow> Inl path)"

text \<open>\<open>values.map(emit)\<close> with a function that may throw.\<close>

fun emit_all :: "('a \<Rightarrow> 'b checked) \<Rightarrow> 'a list \<Rightarrow> 'b list checked" where
  "emit_all emit [] = Inr []"
| "emit_all emit (x # xs) = chk (emit x) (\<lambda>v. chk (emit_all emit xs) (\<lambda>vs. Inr (v # vs)))"

lemma nullable_at_simps [simp]:
  "nullable_at JNull parse = Inr None"
  "nullable_at (js_null emit None) parse = Inr None"
  by (simp_all add: nullable_at_def js_null_def)

lemma missing_at_undefined [simp]: "missing_at JUndefined parse = Inr None"
  by (simp add: missing_at_def)

lemma js_pick_if: "js_pick (if b then Some v else None) d = (if b then v else d)"
  by (simp add: js_pick_def)

lemma boundedArray_eq_Inr: "boundedArray item path n = Inr items \<longleftrightarrow> item = JArray items \<and> length items \<le> n"
  by (auto simp: boundedArray_def split: jsval.splits if_splits)

lemma boundedArray_JArray [simp]: "length items \<le> n \<Longrightarrow> boundedArray (JArray items) path n = Inr items"
  by (simp add: boundedArray_eq_Inr)

lemma array_from_length: "array_from i parse items path = Inr xs \<Longrightarrow> length xs = length items"
  by (induction items arbitrary: i xs) (auto simp: chk_eq_Inr)

lemma emit_all_length: "emit_all emit xs = Inr vs \<Longrightarrow> length vs = length xs"
  by (induction xs arbitrary: vs) (auto simp: chk_eq_Inr)

lemma emit_all_total [simp]: "emit_all (\<lambda>x. Inr (emit x)) xs = Inr (map emit xs)"
  by (induction xs) simp_all

section \<open>Keys\<close>

lemma boundedKeys_eq_Inr: "boundedKeys obj required optional path = Inr u \<longleftrightarrow>
    js ` set required \<subseteq> fst ` set obj \<and> fst ` set obj \<subseteq> js ` set required \<union> js ` set optional"
  by (auto simp: boundedKeys_def)

lemma boundedKeys_ok:
  "js ` set required \<subseteq> fst ` set obj \<Longrightarrow> fst ` set obj \<subseteq> js ` set required \<union> js ` set optional \<Longrightarrow>
    boundedKeys obj required optional path = Inr ()"
  by (simp add: boundedKeys_eq_Inr)

lemma exactKeys_ok:
  "length obj = length expected \<Longrightarrow> fst ` set obj \<subseteq> js ` set expected \<Longrightarrow>
    exactKeys obj expected path = Inr ()"
  by (simp add: exactKeys_eq_Inr)

text \<open>Checking the keys of an object that was just written.\<close>

lemmas written_keys = exactKeys_ok boundedKeys_ok image_Un js_inject

section \<open>The contract of a serializer and its parser\<close>

locale field_codec =
  fixes emit :: "'a \<Rightarrow> jsval"
    and parse :: "jsval \<Rightarrow> string \<Rightarrow> 'a checked"
    and good :: "'a \<Rightarrow> bool"
  assumes emit_defined: "emit x \<noteq> JUndefined"
    and parse_emit: "good x \<Longrightarrow> parse (emit x) path = Inr x"
    and parse_good: "parse item path = Inr x \<Longrightarrow> good x"
begin

lemma optional_emit:
  assumes "pred_option good x"
  shows "optional_at (js_opt emit x) (\<lambda>v. parse v path) = Inr x"
  using assms emit_defined parse_emit by (cases x) (simp_all add: js_opt_def optional_at_def)

lemma optional_good: "optional_at item (\<lambda>v. parse v path) = Inr x \<Longrightarrow> pred_option good x"
  by (auto simp: optional_at_def chk_eq_Inr parse_good split: if_splits)

lemma array_emit: "(\<And>x. x \<in> set xs \<Longrightarrow> good x) \<Longrightarrow> array_from i parse (map emit xs) path = Inr xs"
  by (induction xs arbitrary: i) (simp_all add: parse_emit)

lemma array_good: "array_from i parse items path = Inr xs \<Longrightarrow> list_all good xs"
  by (induction items arbitrary: i xs) (auto simp: chk_eq_Inr parse_good)

lemma each_emit: "list_all good xs \<Longrightarrow> emit_all (\<lambda>v. parse v path) (map emit xs) = Inr xs"
  by (induction xs) (simp_all add: parse_emit)

lemma each_good: "emit_all (\<lambda>v. parse v path) items = Inr xs \<Longrightarrow> list_all good xs"
  by (induction items arbitrary: xs) (auto simp: chk_eq_Inr parse_good)

text \<open>What was read once is written and read again unchanged.\<close>

lemma resave: "parse item path = Inr x \<Longrightarrow> parse (emit x) path' = Inr x"
  by (rule parse_emit) (rule parse_good)

end

locale value_codec = field_codec +
  assumes emit_not_null: "emit x \<noteq> JNull"
begin

lemma nullable_emit: "pred_option good x \<Longrightarrow> nullable_at (js_null emit x) (\<lambda>v. parse v path) = Inr x"
  using emit_not_null parse_emit by (cases x) (simp_all add: js_null_def nullable_at_def)

lemma nullable_present: "good x \<Longrightarrow> nullable_at (emit x) (\<lambda>v. parse v path) = Inr (Some x)"
  using nullable_emit [of "Some x"] by (simp add: js_null_def)

lemma nullable_good: "nullable_at item (\<lambda>v. parse v path) = Inr x \<Longrightarrow> pred_option good x"
  by (auto simp: nullable_at_def chk_eq_Inr parse_good split: if_splits)

lemma missing_emit: "pred_option good x \<Longrightarrow> missing_at (js_null emit x) (\<lambda>v. parse v path) = Inr x"
  using nullable_emit [of x] emit_defined
  by (cases x) (simp_all add: missing_at_def js_null_def)

lemma missing_good: "missing_at item (\<lambda>v. parse v path) = Inr x \<Longrightarrow> pred_option good x"
  by (auto simp: missing_at_def nullable_good split: if_splits)

end

sublocale value_codec \<subseteq> nullable:
  field_codec "js_null emit" "\<lambda>item path. nullable_at item (\<lambda>v. parse v path)" "pred_option good"
proof unfold_locales
  fix x :: "'a option"
  show "js_null emit x \<noteq> JUndefined" using emit_defined by (cases x) (simp_all add: js_null_def)
qed (auto intro: nullable_emit nullable_good)

text \<open>A serializer that throws on what is not storable, and normalizes what it stores.\<close>

locale saver =
  fixes emit :: "'a \<Rightarrow> jsval checked"
    and parse :: "jsval \<Rightarrow> string \<Rightarrow> 'a checked"
    and good :: "'a \<Rightarrow> bool"
    and norm :: "'a \<Rightarrow> 'a"
  assumes emit_good: "good x \<Longrightarrow> \<exists>item. emit x = Inr item \<and> item \<noteq> JUndefined \<and>
      (\<forall>path. parse item path = Inr (norm x))"
    and parsed_good: "parse item path = Inr x \<Longrightarrow> good x"
    and norm_idem: "good x \<Longrightarrow> norm (norm x) = norm x"
begin

lemma norm_good: "good x \<Longrightarrow> good (norm x)"
  using emit_good parsed_good by blast

lemma save_parsed: "parse item path = Inr x \<Longrightarrow> \<exists>saved. emit x = Inr saved \<and> parse saved path' = Inr (norm x)"
  using emit_good parsed_good by blast

text \<open>The second save stores what the first one stored.\<close>

lemma save_twice:
  assumes "parse item path = Inr x"
  shows "\<exists>saved again. emit x = Inr saved \<and> parse saved path' = Inr (norm x) \<and>
    emit (norm x) = Inr again \<and> parse again path' = Inr (norm x)"
  using save_parsed [OF assms] emit_good [OF norm_good [OF parsed_good [OF assms]]]
    norm_idem [OF parsed_good [OF assms]] by metis

lemma all_emit:
  assumes "list_all good xs"
  shows "\<exists>items. emit_all emit xs = Inr items \<and> (\<forall>i path. array_from i parse items path = Inr (map norm xs))"
  using assms
proof (induction xs)
  case (Cons x xs)
  then obtain item items where "emit x = Inr item" "\<And>path. parse item path = Inr (norm x)"
    "emit_all emit xs = Inr items" "\<And>i path. array_from i parse items path = Inr (map norm xs)"
    using emit_good [of x] by auto
  then show ?case by simp
qed simp

lemma all_good: "array_from i parse items path = Inr xs \<Longrightarrow> list_all good xs"
  by (induction items arbitrary: i xs) (auto simp: chk_eq_Inr parsed_good)

lemma optional_saved: "emit x = Inr item \<Longrightarrow> good x \<Longrightarrow> optional_at item (\<lambda>v. parse v path) = Inr (Some (norm x))"
  using emit_good [of x] by (auto simp: optional_at_def)

end

sublocale field_codec \<subseteq> saver "\<lambda>x. Inr (emit x)" parse good "\<lambda>x. x"
  by unfold_locales (simp_all add: emit_defined parse_emit parse_good)

section \<open>Codecs of the primitive fields\<close>

definition text_ok :: "nat \<Rightarrow> bool \<Rightarrow> bool \<Rightarrow> js_string \<Rightarrow> bool" where
  "text_ok maxBytes allowEmpty rejectControls s \<longleftrightarrow>
     (allowEmpty \<or> s \<noteq> []) \<and> 0 \<notin> set s \<and> (rejectControls \<longrightarrow> (\<forall>u \<in> set s. \<not> control_unit u)) \<and>
     utf8ByteLength s \<le> maxBytes"

lemma boundedText_eq_Inr: "boundedText item path n e r = Inr s \<longleftrightarrow> item = JString s \<and> text_ok n e r s"
  by (auto simp: boundedText_def text_ok_def split: jsval.splits if_splits)

definition count_ok :: "int \<Rightarrow> bool" where
  "count_ok n \<longleftrightarrow> isSafeInteger n \<and> 0 \<le> n"

lemma safe_integer_at_eq_Inr:
  "safe_integer_at item ok path = Inr n \<longleftrightarrow> item = js_int n \<and> isSafeInteger n \<and> ok n"
  by (auto simp: safe_integer_at_def js_int_def dest!: js_safe_int_SomeD split: jsval.splits option.splits if_splits)

lemma unsignedSafeInteger_eq_Inr: "unsignedSafeInteger item path = Inr n \<longleftrightarrow> item = js_int n \<and> count_ok n"
  by (auto simp: unsignedSafeInteger_def safe_integer_at_eq_Inr count_ok_def)

lemma signedExitCode_eq_Inr:
  "signedExitCode item path = Inr n \<longleftrightarrow> item = js_int n \<and> -2147483648 \<le> n \<and> n \<le> 2147483647"
  by (auto simp: signedExitCode_def safe_integer_at_eq_Inr isSafeInteger_def max_safe_integer_def)

lemma boolean_at_eq_Inr: "boolean_at item path = Inr b \<longleftrightarrow> item = JBool b"
  by (cases item) (auto simp: boolean_at_def)

lemma js_int_value [simp]: "js_int n \<noteq> JUndefined" "js_int n \<noteq> JNull"
  by (simp_all add: js_int_def)

interpretation str: value_codec JString "\<lambda>item path. boundedText item path n e r" "text_ok n e r" for n e r
  by unfold_locales (auto simp: boundedText_eq_Inr)

interpretation cnt: value_codec js_int unsignedSafeInteger count_ok
  by unfold_locales (auto simp: unsignedSafeInteger_eq_Inr)

interpretation flag: value_codec JBool boolean_at "\<lambda>_. True"
  by unfold_locales (auto simp: boolean_at_eq_Inr)

text \<open>A choice among spelled literals.\<close>

lemma literal_codec:
  assumes "distinct (map literal allowed)" and "\<And>c. c \<in> set allowed"
  shows "value_codec (\<lambda>c. JString (js (literal c))) (\<lambda>item path. member_at item literal allowed path) (\<lambda>_. True)"
proof -
  have "inj_on literal (set allowed)" using assms(1) by (simp add: distinct_map)
  then show ?thesis using assms(2) by unfold_locales (simp_all add: member_at_literal)
qed

end
