(* ===== verification/TaskMessages.thy ===== *)
theory TaskMessages
  imports Codec
begin

text \<open>
  What the task parsers of \<open>AgentTask\<close> accept: the status event they return is exactly one
  whose fields satisfy the bounds and patterns, the value of such an event reads back to it,
  a start request is consistent, and a minted identifier is one every parser accepts.
\<close>

section \<open>Accepted fields\<close>

definition task_id_ok :: "js_string \<Rightarrow> bool" where
  "task_id_ok s \<longleftrightarrow> text_ok 64 False True s \<and> task_id_pattern s"

definition path_ok :: "js_string \<Rightarrow> bool" where
  "path_ok s \<longleftrightarrow> text_ok 4096 False True s \<and> js_trim s \<noteq> []"

definition sequence_ok :: "int \<Rightarrow> bool" where
  "sequence_ok n \<longleftrightarrow> 0 \<le> n \<and> n \<le> max_safe_integer"

fun task_status_ok :: "task_status \<Rightarrow> bool" where
  "task_status_ok (TaskExited code) = (-2147483648 \<le> code \<and> code \<le> 2147483647)"
| "task_status_ok (TaskFailed message) = text_ok 4096 False False message"
| "task_status_ok _ = True"

definition status_event_ok :: "task_status_event \<Rightarrow> bool" where
  "status_event_ok e \<longleftrightarrow>
     task_id_ok (tse_taskId e) \<and> text_ok 1024 False True (tse_workspaceId e) \<and>
     path_ok (tse_repositoryRoot e) \<and>
     (case tse_worktreePath e of
        None \<Rightarrow> tse_isolation e = InPlace
      | Some p \<Rightarrow> tse_isolation e = Worktree \<and> path_ok p) \<and>
     sequence_ok (tse_sequence e) \<and> task_status_ok (tse_status e)"

lemma agentTaskId_eq_Inr: "agentTaskId item path = Inr s \<longleftrightarrow> item = JString s \<and> task_id_ok s"
  by (auto simp: agentTaskId_def chk_eq_Inr boundedText_eq_Inr task_id_ok_def task_limits)

lemma agentPath_eq_Inr: "agentPath item path = Inr s \<longleftrightarrow> item = JString s \<and> path_ok s"
  by (auto simp: agentPath_def chk_eq_Inr boundedText_eq_Inr path_ok_def task_limits)

lemma agentWorkspaceId_eq_Inr:
  "agentWorkspaceId item path = Inr s \<longleftrightarrow> item = JString s \<and> text_ok 1024 False True s"
  by (simp add: agentWorkspaceId_def boundedText_eq_Inr task_limits)

lemma sequence_eq_Inr:
  "unsignedSafeInteger item path = Inr n \<longleftrightarrow> item = JNumber (Some (rat_of_int n)) \<and> sequence_ok n"
  by (auto simp: unsignedSafeInteger_eq_Inr js_int_def count_ok_def sequence_ok_def isSafeInteger_def
      max_safe_integer_def)

lemma exit_code_eq_Inr:
  "signedExitCode item path = Inr n \<longleftrightarrow>
     item = JNumber (Some (rat_of_int n)) \<and> -2147483648 \<le> n \<and> n \<le> 2147483647"
  by (simp add: signedExitCode_eq_Inr js_int_def)

lemma agentTaskIsolation_eq_Inr:
  "agentTaskIsolation item path = Inr i \<longleftrightarrow> item = JString (js (isolation_literal i))"
  by (cases i)
    (auto simp: agentTaskIsolation_def member_at_def js_inject simp del: js_simps split: if_splits)

lemma statusKind_eq_Inr:
  "statusKind item path = Inr k \<longleftrightarrow> item = JString (js (status_kind_literal k))"
  by (cases k)
    (auto simp: statusKind_def member_at_def js_inject simp del: js_simps split: if_splits)

lemma worktreePath_eq_Inr:
  "worktreePath item isolation path = Inr p \<longleftrightarrow>
     (case p of
        None \<Rightarrow> isolation = InPlace \<and> item = JNull
      | Some s \<Rightarrow> isolation = Worktree \<and> item = JString s \<and> path_ok s)"
  by (cases isolation) (auto simp: worktreePath_def chk_eq_Inr agentPath_eq_Inr split: option.splits)

section \<open>Status events\<close>

fun kind_of_status :: "task_status \<Rightarrow> status_kind" where
  "kind_of_status TaskPending = KindPending"
| "kind_of_status TaskRunning = KindRunning"
| "kind_of_status (TaskExited _) = KindExited"
| "kind_of_status (TaskFailed _) = KindFailed"
| "kind_of_status TaskStopped = KindStopped"

text \<open>The message that carries an event, as the native side sends it.\<close>

definition status_event_props :: "task_status_event \<Rightarrow> (js_string \<times> jsval) list" where
  "status_event_props e =
     js_field ''taskId'' (Some (JString (tse_taskId e))) @
     js_field ''workspaceId'' (Some (JString (tse_workspaceId e))) @
     js_field ''repositoryRoot'' (Some (JString (tse_repositoryRoot e))) @
     js_field ''isolation'' (Some (JString (js (isolation_literal (tse_isolation e))))) @
     js_field ''worktreePath'' (Some (case tse_worktreePath e of None \<Rightarrow> JNull | Some p \<Rightarrow> JString p)) @
     js_field ''sequence'' (Some (JNumber (Some (rat_of_int (tse_sequence e))))) @
     js_field ''status'' (Some (JString (js (status_kind_literal (kind_of_status (tse_status e)))))) @
     js_field ''exitCode''
       (case tse_status e of TaskExited code \<Rightarrow> Some (JNumber (Some (rat_of_int code))) | _ \<Rightarrow> None) @
     js_field ''message'' (case tse_status e of TaskFailed message \<Rightarrow> Some (JString message) | _ \<Rightarrow> None)"

lemma status_event_get:
  "js_get (status_event_props e) (js ''taskId'') = JString (tse_taskId e)"
  "js_get (status_event_props e) (js ''workspaceId'') = JString (tse_workspaceId e)"
  "js_get (status_event_props e) (js ''repositoryRoot'') = JString (tse_repositoryRoot e)"
  "js_get (status_event_props e) (js ''isolation'') = JString (js (isolation_literal (tse_isolation e)))"
  "js_get (status_event_props e) (js ''worktreePath'') =
     (case tse_worktreePath e of None \<Rightarrow> JNull | Some p \<Rightarrow> JString p)"
  "js_get (status_event_props e) (js ''sequence'') = JNumber (Some (rat_of_int (tse_sequence e)))"
  "js_get (status_event_props e) (js ''status'') =
     JString (js (status_kind_literal (kind_of_status (tse_status e))))"
  "tse_status e = TaskExited code \<Longrightarrow>
     js_get (status_event_props e) (js ''exitCode'') = JNumber (Some (rat_of_int code))"
  "tse_status e = TaskFailed message \<Longrightarrow> js_get (status_event_props e) (js ''message'') = JString message"
  by (simp_all add: status_event_props_def read_back del: js_simps)

lemma parse_status_value:
  assumes "task_status_ok (tse_status e)"
  shows "parseAgentTaskStatus (status_event_props e) path = Inr (tse_status e)"
proof -
  have kind: "statusKind (js_get (status_event_props e) (js ''status'')) (path @ ''.status'') =
      Inr (kind_of_status (tse_status e))"
    by (simp add: status_event_get(7) statusKind_eq_Inr del: js_simps)
  note keys = exactKeys_eq_Inr status_event_props_def owner_keys_def
  show ?thesis
  proof (cases "tse_status e")
    case TaskPending
    with kind show ?thesis
      by (simp add: parseAgentTaskStatus_def chk_eq_Inr keys image_Un js_mem_image del: js_simps)
  next
    case TaskRunning
    with kind show ?thesis
      by (simp add: parseAgentTaskStatus_def chk_eq_Inr keys image_Un js_mem_image del: js_simps)
  next
    case TaskStopped
    with kind show ?thesis
      by (simp add: parseAgentTaskStatus_def chk_eq_Inr keys image_Un js_mem_image del: js_simps)
  next
    case (TaskExited code)
    have "exactKeys (status_event_props e) (owner_keys @ [''sequence'', ''status'', ''exitCode'']) path = Inr ()"
      using TaskExited by (simp add: keys image_Un js_mem_image del: js_simps)
    with TaskExited kind assms status_event_get(8) [OF TaskExited] show ?thesis
      by (simp add: parseAgentTaskStatus_def chk_eq_Inr exit_code_eq_Inr del: js_simps)
  next
    case (TaskFailed message)
    have "exactKeys (status_event_props e) (owner_keys @ [''sequence'', ''status'', ''message'']) path = Inr ()"
      using TaskFailed by (simp add: keys image_Un js_mem_image del: js_simps)
    with TaskFailed kind assms status_event_get(9) [OF TaskFailed] show ?thesis
      by (simp add: parseAgentTaskStatus_def chk_eq_Inr boundedText_eq_Inr task_limits del: js_simps)
  qed
qed

lemma parse_status_ok:
  assumes "parseAgentTaskStatus event path = Inr status"
  shows "task_status_ok status"
proof -
  from assms obtain kind where "statusKind (js_get event (js ''status'')) (path @ ''.status'') = Inr kind"
    unfolding parseAgentTaskStatus_def chk_eq_Inr by blast
  with assms show ?thesis
    by (cases kind) (auto simp: parseAgentTaskStatus_def chk_eq_Inr exit_code_eq_Inr
        boundedText_eq_Inr task_limits simp del: js_simps)
qed


section \<open>Start requests\<close>

lemma attachments_from_length: "attachments_from i items path = Inr as \<Longrightarrow> length as = length items"
  by (induction i items path arbitrary: as rule: attachments_from.induct) (auto simp: chk_eq_Inr)

lemma startAgentTaskAttachments_length:
  "startAgentTaskAttachments item path = Inr as \<Longrightarrow> length as \<le> 8"
  by (cases item) (auto simp: startAgentTaskAttachments_def chk_eq_Inr task_limits dest: attachments_from_length)


definition sample_request :: "(js_string \<times> jsval) list" where
  "sample_request =
     js_field ''taskId'' (Some (JString [97, 49, 50])) @
     js_field ''threadId'' (Some (JString [97, 49, 51])) @
     js_field ''historyScope'' (Some (JObject (js_field ''rootKey'' (Some (JString [47])) @
       js_field ''ownerId'' (Some (JString (js ''agent-root:'' @ replicate 16 48)))))) @
     js_field ''workspaceId'' (Some (JString [119])) @
     js_field ''projectRoot'' (Some (JString [47])) @
     js_field ''repositoryRoot'' (Some (JString [47])) @
     js_field ''cwd'' (Some (JString [47])) @
     js_field ''isolation'' (Some (JString (js (isolation_literal InPlace)))) @
     js_field ''prompt'' (Some (JString [104])) @
     js_field ''agentCliKind'' (Some (JString (js (cli_kind_literal Codex)))) @
     js_field ''resumeSessionId'' (Some JNull) @
     js_field ''launch'' (Some (serializeAgentLaunchOptions (defaultAgentLaunchOptions Codex))) @
     js_field ''providerGeneration'' (Some (JNumber (Some (rat_of_int 1)))) @
     js_field ''attachments'' (Some (JArray []))"

lemma agentCliKind_eq_Inr: "agentCliKind item path = Inr k \<longleftrightarrow> item = JString (js (cli_kind_literal k))"
  by (cases k) (auto simp: agentCliKind_def member_at_def js_inject simp del: js_simps split: if_splits)

lemma positiveSafeInteger_eq_Inr:
  "positiveSafeInteger item path = Inr n \<longleftrightarrow>
     item = JNumber (Some (rat_of_int n)) \<and> 0 < n \<and> n \<le> max_safe_integer"
  by (auto simp: positiveSafeInteger_def safe_integer_at_eq_Inr js_int_def isSafeInteger_def max_safe_integer_def)

lemma default_codex_parses:
  "parseAgentLaunchOptions (serializeAgentLaunchOptions (defaultAgentLaunchOptions Codex)) path =
     Inr (defaultAgentLaunchOptions Codex)"
  using parse_codex_serialized [of "\<lparr>cx_model = js ''default'', cx_mode = CodexModeDefault, cx_effort = None\<rparr>"]
  by (simp add: parseAgentLaunchOptions_def isCodexModelChoice_def
      del: js_simps serializeAgentLaunchOptions.simps)

lemma sample_get:
  "js_get sample_request (js ''taskId'') = JString [97, 49, 50]"
  "js_get sample_request (js ''threadId'') = JString [97, 49, 51]"
  "js_get sample_request (js ''historyScope'') =
     JObject (js_field ''rootKey'' (Some (JString [47])) @
       js_field ''ownerId'' (Some (JString (js ''agent-root:'' @ replicate 16 48))))"
  "js_get sample_request (js ''workspaceId'') = JString [119]"
  "js_get sample_request (js ''projectRoot'') = JString [47]"
  "js_get sample_request (js ''repositoryRoot'') = JString [47]"
  "js_get sample_request (js ''cwd'') = JString [47]"
  "js_get sample_request (js ''isolation'') = JString (js (isolation_literal InPlace))"
  "js_get sample_request (js ''prompt'') = JString [104]"
  "js_get sample_request (js ''agentCliKind'') = JString (js (cli_kind_literal Codex))"
  "js_get sample_request (js ''resumeSessionId'') = JNull"
  "js_get sample_request (js ''launch'') = serializeAgentLaunchOptions (defaultAgentLaunchOptions Codex)"
  "js_get sample_request (js ''providerGeneration'') = JNumber (Some (rat_of_int 1))"
  "js_get sample_request (js ''attachments'') = JArray []"
  "js_get sample_request (js ''sessionRestart'') = JUndefined"
  by (simp_all add: sample_request_def read_back
      del: js_simps serializeAgentLaunchOptions.simps defaultAgentLaunchOptions.simps)

lemma sample_request_accepted:
  "\<exists>request. validateStartAgentTaskRequest (JObject sample_request) = Inr request \<and>
     st_isolation request = InPlace"
proof -
  let ?get = "\<lambda>key. js_get sample_request (js key)"
  have path: "path_ok [47]" by (simp add: path_ok_def text_ok_def control_unit_def js_trim_def
        js_trimStart_def js_trimEnd_def is_js_space_def)
  have ids: "task_id_ok [97, 49, 50]" "task_id_ok [97, 49, 51]"
    by (simp_all add: task_id_ok_def text_ok_def control_unit_def task_id_pattern_def lower_alnum_def)
  have keys: "boundedKeys sample_request start_request_keys [''sessionRestart''] ''request'' = Inr ()"
    by (simp add: boundedKeys_def sample_request_def start_request_keys_def image_Un js_mem_image
        js_inject del: js_simps)
  have "agentTaskIsolation (?get ''isolation'') p = Inr InPlace"
    "agentPath (?get ''repositoryRoot'') p = Inr [47]" "agentPath (?get ''cwd'') p = Inr [47]"
    "agentCliKind (?get ''agentCliKind'') p = Inr Codex"
    "parseAgentLaunchOptions (?get ''launch'') p = Inr (defaultAgentLaunchOptions Codex)"
    "agentTaskId (?get ''taskId'') p = Inr [97, 49, 50]"
    "agentTaskId (?get ''threadId'') p = Inr [97, 49, 51]"
    "agentPath (?get ''projectRoot'') p = Inr [47]"
    "agentWorkspaceId (?get ''workspaceId'') p = Inr [119]"
    "boundedText (?get ''prompt'') p MAX_AGENT_TASK_PROMPT_BYTES False False = Inr [104]"
    "optionalAgentSessionId (?get ''resumeSessionId'') p = Inr None"
    "positiveSafeInteger (?get ''providerGeneration'') p = Inr 1"
    "startAgentTaskAttachments (?get ''attachments'') p = Inr []"
    "optional_at (?get ''sessionRestart'') f = Inr None" for p and f :: "jsval \<Rightarrow> session_restart_policy checked"
    using path ids
    unfolding sample_get agentTaskIsolation_eq_Inr agentPath_eq_Inr agentTaskId_eq_Inr agentCliKind_eq_Inr
      agentWorkspaceId_eq_Inr boundedText_eq_Inr positiveSafeInteger_eq_Inr default_codex_parses
    by (simp_all add: text_ok_def control_unit_def optionalAgentSessionId_def
        startAgentTaskAttachments_def optional_at_def task_limits max_safe_integer_def
        del: js_simps serializeAgentLaunchOptions.simps defaultAgentLaunchOptions.simps)
  moreover obtain scope where
    "agentHistoryScope (?get ''historyScope'') ''request.historyScope'' = Inr scope"
    by (simp add: sample_get read_back agentHistoryScope_def exactKeys_eq_Inr chk_eq_Inr boundedText_eq_Inr image_Un js_mem_image
        text_ok_def control_unit_def history_owner_id_pattern_def js_startsWith_def hex_unit_def task_limits
        del: js_simps)
  ultimately show ?thesis
    using keys by (simp add: validateStartAgentTaskRequest_def agentLaunchMatchesProvider_def
        del: js_simps serializeAgentLaunchOptions.simps)
qed


section \<open>Minted identifiers\<close>

lemma unat_base36_digit:
  assumes "d < 36"
  shows "unat (base36_digit d) = (if d < 10 then 48 + d else 87 + d)"
proof -
  have "(if d < 10 then 48 + d else 87 + d) < 2 ^ LENGTH(16)" using assms by simp
  then show ?thesis by (simp only: base36_digit_def unsigned_of_nat take_bit_nat_eq_self of_nat_id)
qed

lemma base36_digit_alnum: "d < 36 \<Longrightarrow> lower_alnum (base36_digit d)"
  by (simp add: lower_alnum_def unat_base36_digit)

lemma base36_digit_inject: "c < 36 \<Longrightarrow> d < 36 \<Longrightarrow> base36_digit c = base36_digit d \<longleftrightarrow> c = d"
  unfolding word_unat_eq_iff unat_base36_digit by presburger

lemma base36_nonempty: "base36 n \<noteq> []"
  by (subst base36.simps) simp

lemma base36_alnum: "u \<in> set (base36 n) \<Longrightarrow> lower_alnum u"
proof (induction n rule: base36.induct)
  case (1 n)
  then show ?case
    by (subst (asm) base36.simps) (auto simp: base36_digit_alnum split: if_splits)
qed

lemma base36_length: "n < 36 ^ Suc k \<Longrightarrow> length (base36 n) \<le> Suc k"
proof (induction k arbitrary: n)
  case 0
  then show ?case by (subst base36.simps) simp
next
  case (Suc k)
  then have "n div 36 < 36 ^ Suc k" by (simp add: less_mult_imp_div_less mult.commute)
  with Suc.IH show ?case by (subst base36.simps) simp
qed

lemma base36_inject: "base36 m = base36 n \<Longrightarrow> m = n"
proof (induction m arbitrary: n rule: base36.induct)
  case (1 m)
  show ?case
  proof (cases "m < 36")
    case True
    with "1.prems" show ?thesis
      using base36_nonempty [of "n div 36"]
      by (subst (asm) (1 2) base36.simps) (auto simp: base36_digit_inject split: if_splits)
  next
    case False
    with "1.prems" base36_nonempty [of "m div 36"] have n: "\<not> n < 36"
      by (subst (asm) (1 2) base36.simps) (auto split: if_splits)
    with False "1.prems" have "base36 (m div 36) = base36 (n div 36)" "m mod 36 = n mod 36"
      by (subst (asm) (1 2) base36.simps, simp add: base36_digit_inject)+
    with "1.IH" [OF False] have "m div 36 = n div 36" by blast
    with \<open>m mod 36 = n mod 36\<close> show ?thesis by (metis mult_div_mod_eq)
  qed
qed

lemma ascii_bytes: "\<forall>u \<in> set s. unat u < 128 \<Longrightarrow> utf8ByteLength s = length s"
  by (induction s rule: utf8ByteLength.induct) auto

lemma task_id_pattern_ok:
  assumes "task_id_pattern s"
  shows "task_id_ok s"
proof -
  obtain c cs where s: "s = c # cs" using assms by (auto simp: task_id_pattern_def split: list.splits)
  have units: "lower_alnum u \<or> u = 45" if "u \<in> set s" for u
    using assms that by (auto simp: s task_id_pattern_def)
  have low: "unat u < 127 \<and> 31 < unat u" if "u \<in> set s" for u
    using units [OF that] by (auto simp: lower_alnum_def)
  have "utf8ByteLength s = length s" by (rule ascii_bytes) (use low in force)
  moreover have "0 \<notin> set s" using low [of 0] by auto
  moreover have "\<not> control_unit u" if "u \<in> set s" for u
    using low [OF that] by (auto simp: control_unit_def)
  ultimately show ?thesis using assms by (simp add: task_id_ok_def text_ok_def task_id_pattern_def s)
qed

lemma hex_lower_alnum: "hex_unit u \<Longrightarrow> lower_alnum u"
  by (auto simp: hex_unit_def lower_alnum_def)

text \<open>
  Minting an identifier never fails on a timestamp and four hexadecimal digits, the identifier
  is one every parser accepts, and two identifiers are equal only for one timestamp and one choice
  of digits: the last check of \<open>mintAgentTaskId\<close> can never throw.
\<close>

theorem mint_total_injective:
  assumes "0 \<le> now" "now \<le> max_safe_integer" "length digits = 4" "\<forall>u \<in> set digits. hex_unit u"
  shows "\<exists>ident. mintAgentTaskId now digits = Inr ident \<and> task_id_ok ident \<and>
    (\<forall>now' digits'. mintAgentTaskId now' digits' = Inr ident \<longrightarrow> now' = now \<and> digits' = digits)"
proof -
  let ?ident = "js ''agt-'' @ base36 (nat now) @ js ''-'' @ digits"
  have bound: "length (base36 (nat now)) \<le> 11"
    by (rule base36_length [where k = 10, simplified]) (use assms in \<open>simp add: max_safe_integer_def\<close>)
  have units: "lower_alnum u \<or> u = 45" if "u \<in> set (base36 (nat now)) \<union> set digits" for u
    using that assms(4) by (auto dest: base36_alnum hex_lower_alnum)
  have "task_id_pattern ?ident"
    using bound units assms(3) by (auto simp: task_id_pattern_def lower_alnum_def)
  moreover from this have "mintAgentTaskId now digits = Inr ?ident"
    using assms by (auto simp: mintAgentTaskId_def isSafeInteger_def reject_def)
  moreover have "now' = now \<and> digits' = digits" if "mintAgentTaskId now' digits' = Inr ?ident" for now' digits'
  proof -
    from that have r: "0 \<le> now'" "length digits' = 4"
      "js ''agt-'' @ base36 (nat now') @ js ''-'' @ digits' = ?ident"
      by (auto simp: mintAgentTaskId_def chk_eq_Inr Let_def)
    then have "base36 (nat now') @ js ''-'' @ digits' = base36 (nat now) @ js ''-'' @ digits" by simp
    with r(2) assms(3) have "base36 (nat now') = base36 (nat now)" "digits' = digits"
      using append_eq_append_conv [of "js ''-'' @ digits'" "js ''-'' @ digits" "base36 (nat now')"] by auto
    then show ?thesis using base36_inject r(1) assms(1) by (metis eq_nat_nat_iff)
  qed
  ultimately show ?thesis using task_id_pattern_ok by blast
qed

lemma mint_total_injective_witness:
  "\<exists>ident. mintAgentTaskId 1700000000000 [48, 49, 97, 98] = Inr ident \<and> task_id_ok ident"
  using mint_total_injective [of 1700000000000 "[48, 49, 97, 98]"]
  by (auto simp: max_safe_integer_def hex_unit_def)

end
