(* ===== verification/HaltRecord.thy ===== *)
theory HaltRecord
  imports AgentTask
begin

text \<open>
  Who asked a turn to halt, \<open>src/domain/agentTurnHaltRecord.ts\<close>: the record a request leaves,
  its escalation from a soft interrupt to a hard stop, and its stored form. The turn type of the
  attaching function is generic in the source; here its two accesses are arguments.
\<close>

section \<open>Records\<close>

datatype halt_source =
  ComposerStopButton | ComposerEscape | StopConfirmationBanner | SessionDock | ThreadMenu

fun halt_source_literal :: "halt_source \<Rightarrow> string" where
  "halt_source_literal ComposerStopButton = ''composerStopButton''"
| "halt_source_literal ComposerEscape = ''composerEscape''"
| "halt_source_literal StopConfirmationBanner = ''stopConfirmationBanner''"
| "halt_source_literal SessionDock = ''sessionDock''"
| "halt_source_literal ThreadMenu = ''threadMenu''"

definition AGENT_TURN_HALT_SOURCES :: "halt_source list" where
  "AGENT_TURN_HALT_SOURCES =
     [ComposerStopButton, ComposerEscape, StopConfirmationBanner, SessionDock, ThreadMenu]"

datatype escalation_source = EscalatedBy halt_source | EscalatedByRefusal

fun escalation_source_literal :: "escalation_source \<Rightarrow> string" where
  "escalation_source_literal (EscalatedBy source) = halt_source_literal source"
| "escalation_source_literal EscalatedByRefusal = ''interruptRefused''"

definition AGENT_TURN_HALT_ESCALATION_SOURCES :: "escalation_source list" where
  "AGENT_TURN_HALT_ESCALATION_SOURCES = map EscalatedBy AGENT_TURN_HALT_SOURCES @ [EscalatedByRefusal]"

datatype halt_mode = SoftInterrupt | HardStop

fun halt_mode_literal :: "halt_mode \<Rightarrow> string" where
  "halt_mode_literal SoftInterrupt = ''softInterrupt''"
| "halt_mode_literal HardStop = ''hardStop''"

datatype halt_trigger =
    UiHalt (trigger_source: halt_source)
  | InterruptRefusedHalt (trigger_source: halt_source)

record halt_escalation =
  he_source :: escalation_source
  he_requestedAtEpochMs :: int

record halt_record =
  hr_source :: halt_source
  hr_mode :: halt_mode
  hr_requestedAtEpochMs :: int
  hr_escalation :: "halt_escalation option"

record halt_attempt =
  ha_trigger :: halt_trigger
  ha_mode :: halt_mode
  ha_requestedAtEpochMs :: int

definition agentTurnUiHalt :: "halt_source \<Rightarrow> halt_trigger" where
  "agentTurnUiHalt source = UiHalt source"

definition isEpochMs :: "int \<Rightarrow> bool" where
  "isEpochMs n \<longleftrightarrow> isSafeInteger n \<and> n \<ge> 0"

fun escalationSourceOf :: "halt_trigger \<Rightarrow> escalation_source" where
  "escalationSourceOf (UiHalt source) = EscalatedBy source"
| "escalationSourceOf (InterruptRefusedHalt _) = EscalatedByRefusal"

definition recordAgentTurnHalt :: "halt_record option \<Rightarrow> halt_attempt \<Rightarrow> halt_record option" where
  "recordAgentTurnHalt current attempt =
     (if \<not> isEpochMs (ha_requestedAtEpochMs attempt) then current
      else case current of
        None \<Rightarrow>
          Some \<lparr>hr_source = trigger_source (ha_trigger attempt), hr_mode = ha_mode attempt,
            hr_requestedAtEpochMs = ha_requestedAtEpochMs attempt, hr_escalation = None\<rparr>
      | Some r \<Rightarrow>
          if hr_escalation r \<noteq> None then current
          else if hr_mode r \<noteq> SoftInterrupt \<or> ha_mode attempt \<noteq> HardStop then current
          else Some (r\<lparr>hr_escalation := Some
            \<lparr>he_source = escalationSourceOf (ha_trigger attempt),
             he_requestedAtEpochMs =
               max (ha_requestedAtEpochMs attempt) (hr_requestedAtEpochMs r)\<rparr>\<rparr>))"

section \<open>The stored form\<close>

definition closedRecord ::
  "jsval \<Rightarrow> string list \<Rightarrow> string list \<Rightarrow> (js_string \<times> jsval) list option" where
  "closedRecord item required optional =
     (case item of
        JObject obj \<Rightarrow>
          if (\<exists>key \<in> set required. js key \<notin> fst ` set obj) then None
          else if (\<exists>key \<in> fst ` set obj. key \<notin> js ` set required \<and> key \<notin> js ` set optional) then None
          else Some obj
      | _ \<Rightarrow> None)"

definition read_literal :: "jsval \<Rightarrow> ('c \<Rightarrow> string) \<Rightarrow> 'c list \<Rightarrow> 'c option" where
  "read_literal item literal allowed = find (\<lambda>choice. item = JString (js (literal choice))) allowed"

definition read_epoch :: "jsval \<Rightarrow> int option" where
  "read_epoch item =
     (case item of
        JNumber q \<Rightarrow>
          (case js_safe_int q of None \<Rightarrow> None | Some n \<Rightarrow> if isEpochMs n then Some n else None)
      | _ \<Rightarrow> None)"

definition parseEscalation :: "jsval \<Rightarrow> halt_escalation option" where
  "parseEscalation item =
     (case closedRecord item [''source'', ''requestedAtEpochMs''] [] of
        None \<Rightarrow> None
      | Some obj \<Rightarrow>
          (case (read_literal (js_get obj (js ''source'')) escalation_source_literal
                   AGENT_TURN_HALT_ESCALATION_SOURCES,
                 read_epoch (js_get obj (js ''requestedAtEpochMs''))) of
             (Some source, Some requestedAt) \<Rightarrow>
               Some \<lparr>he_source = source, he_requestedAtEpochMs = requestedAt\<rparr>
           | _ \<Rightarrow> None))"

definition parseAgentTurnHaltRecord :: "jsval \<Rightarrow> halt_record option" where
  "parseAgentTurnHaltRecord item =
     (case closedRecord item [''source'', ''mode'', ''requestedAtEpochMs''] [''escalation''] of
        None \<Rightarrow> None
      | Some obj \<Rightarrow>
          (case (read_literal (js_get obj (js ''source'')) halt_source_literal AGENT_TURN_HALT_SOURCES,
                 read_literal (js_get obj (js ''mode'')) halt_mode_literal [SoftInterrupt, HardStop],
                 read_epoch (js_get obj (js ''requestedAtEpochMs''))) of
             (Some source, Some mode, Some requestedAt) \<Rightarrow>
               (let r = \<lparr>hr_source = source, hr_mode = mode, hr_requestedAtEpochMs = requestedAt,
                         hr_escalation = None\<rparr> in
                if js_get obj (js ''escalation'') = JUndefined then Some r
                else case parseEscalation (js_get obj (js ''escalation'')) of
                  None \<Rightarrow> Some r
                | Some escalation \<Rightarrow>
                    if mode \<noteq> SoftInterrupt \<or> he_requestedAtEpochMs escalation < requestedAt then Some r
                    else Some (r\<lparr>hr_escalation := Some escalation\<rparr>))
           | _ \<Rightarrow> None))"

definition halt_fields :: "halt_record \<Rightarrow> (js_string \<times> jsval) list" where
  "halt_fields r =
     js_field ''source'' (Some (JString (js (halt_source_literal (hr_source r))))) @
     js_field ''mode'' (Some (JString (js (halt_mode_literal (hr_mode r))))) @
     js_field ''requestedAtEpochMs'' (Some (JNumber (Some (rat_of_int (hr_requestedAtEpochMs r))))) @
     js_field ''escalation''
       (map_option (\<lambda>e. JObject
          (js_field ''source'' (Some (JString (js (escalation_source_literal (he_source e))))) @
           js_field ''requestedAtEpochMs'' (Some (JNumber (Some (rat_of_int (he_requestedAtEpochMs e)))))))
        (hr_escalation r))"

fun serializeAgentTurnHaltRequests ::
  "('t \<Rightarrow> js_string) \<Rightarrow> ('t \<Rightarrow> halt_record option) \<Rightarrow> 't list \<Rightarrow> jsval list" where
  "serializeAgentTurnHaltRequests turnId haltRequest [] = []"
| "serializeAgentTurnHaltRequests turnId haltRequest (turn # turns) =
     (case haltRequest turn of
        None \<Rightarrow> serializeAgentTurnHaltRequests turnId haltRequest turns
      | Some r \<Rightarrow> JObject (js_field ''turnId'' (Some (JString (turnId turn))) @ halt_fields r) #
          serializeAgentTurnHaltRequests turnId haltRequest turns)"

definition identifiedRecord :: "jsval \<Rightarrow> (js_string \<times> halt_record) option" where
  "identifiedRecord item =
     (case item of
        JObject obj \<Rightarrow>
          (case js_get obj (js ''turnId'') of
             JString turnId \<Rightarrow>
               (case parseAgentTurnHaltRecord (JObject (filter (\<lambda>(key, v). key \<noteq> js ''turnId'') obj)) of
                  None \<Rightarrow> None
                | Some r \<Rightarrow> Some (turnId, r))
           | _ \<Rightarrow> None)
      | _ \<Rightarrow> None)"

definition collect_request ::
  "(js_string, halt_record) js_map \<Rightarrow> jsval \<Rightarrow> (js_string, halt_record) js_map" where
  "collect_request records request =
     (case identifiedRecord request of
        None \<Rightarrow> records
      | Some (turnId, r) \<Rightarrow>
          if map_of records turnId \<noteq> None then records else AList.update turnId r records)"

definition attachAgentTurnHaltRequests ::
  "('t \<Rightarrow> js_string) \<Rightarrow> (halt_record \<Rightarrow> 't \<Rightarrow> 't) \<Rightarrow> 't list \<Rightarrow> jsval \<Rightarrow> 't list option" where
  "attachAgentTurnHaltRequests turnId setHalt turns requests =
     (case requests of
        JArray items \<Rightarrow>
          if length items > length turns then None
          else let records = foldl collect_request [] items in
            if length records = 0 then Some turns
            else Some (map (\<lambda>turn. case map_of records (turnId turn) of
                None \<Rightarrow> turn
              | Some r \<Rightarrow> setHalt r turn) turns)
      | _ \<Rightarrow> None)"

section \<open>Reading a record back\<close>

definition escalation_ok :: "halt_record \<Rightarrow> halt_escalation \<Rightarrow> bool" where
  "escalation_ok r e \<longleftrightarrow>
     hr_mode r = SoftInterrupt \<and> hr_requestedAtEpochMs r \<le> he_requestedAtEpochMs e \<and>
     isEpochMs (he_requestedAtEpochMs e)"

definition halt_record_ok :: "halt_record \<Rightarrow> bool" where
  "halt_record_ok r \<longleftrightarrow>
     isEpochMs (hr_requestedAtEpochMs r) \<and>
     (case hr_escalation r of None \<Rightarrow> True | Some e \<Rightarrow> escalation_ok r e)"

lemma read_halt_source [simp]:
  "read_literal (JString (js (halt_source_literal s))) halt_source_literal AGENT_TURN_HALT_SOURCES = Some s"
  by (cases s) (simp_all add: read_literal_def AGENT_TURN_HALT_SOURCES_def js_inject del: js_simps)

lemma read_halt_mode [simp]:
  "read_literal (JString (js (halt_mode_literal m))) halt_mode_literal [SoftInterrupt, HardStop] = Some m"
  by (cases m) (simp_all add: read_literal_def js_inject del: js_simps)

lemma read_escalation_source [simp]:
  "read_literal (JString (js (escalation_source_literal s))) escalation_source_literal
     AGENT_TURN_HALT_ESCALATION_SOURCES = Some s"
proof (cases s)
  case (EscalatedBy source)
  then show ?thesis
    by (cases source) (simp_all add: read_literal_def AGENT_TURN_HALT_ESCALATION_SOURCES_def
        AGENT_TURN_HALT_SOURCES_def js_inject del: js_simps)
qed (simp add: read_literal_def AGENT_TURN_HALT_ESCALATION_SOURCES_def AGENT_TURN_HALT_SOURCES_def
    js_inject del: js_simps)

lemma read_epoch_number [simp]:
  "read_epoch (JNumber (Some (rat_of_int n))) = (if isEpochMs n then Some n else None)"
  by (auto simp: read_epoch_def isEpochMs_def)

lemma read_epoch_eq_Some:
  "read_epoch item = Some n \<longleftrightarrow> item = JNumber (Some (rat_of_int n)) \<and> isEpochMs n"
  by (cases item) (auto simp: read_epoch_def isEpochMs_def dest: js_safe_int_SomeD split: option.splits if_splits)

lemma closedRecord_fields:
  "closedRecord (JObject obj) required optional = Some obj \<longleftrightarrow>
     js ` set required \<subseteq> fst ` set obj \<and> fst ` set obj \<subseteq> js ` set required \<union> js ` set optional"
  by (auto simp: closedRecord_def)

lemma parseEscalation_fields:
  assumes "isEpochMs (he_requestedAtEpochMs e)"
  shows "parseEscalation (JObject
    (js_field ''source'' (Some (JString (js (escalation_source_literal (he_source e))))) @
     js_field ''requestedAtEpochMs'' (Some (JNumber (Some (rat_of_int (he_requestedAtEpochMs e))))))) = Some e"
    (is "parseEscalation (JObject ?obj) = _")
proof -
  have "closedRecord (JObject ?obj) [''source'', ''requestedAtEpochMs''] [] = Some ?obj"
    unfolding closedRecord_fields by (simp add: image_Un del: js_simps)
  with assms show ?thesis by (simp add: parseEscalation_def read_back del: js_simps)
qed

lemma parse_halt_fields:
  assumes "halt_record_ok r"
  shows "parseAgentTurnHaltRecord (JObject (halt_fields r)) = Some r"
proof -
  have closed: "closedRecord (JObject (halt_fields r)) [''source'', ''mode'', ''requestedAtEpochMs'']
      [''escalation''] = Some (halt_fields r)"
    unfolding closedRecord_fields halt_fields_def by (simp add: image_Un del: js_simps)
  have reads: "read_literal (js_get (halt_fields r) (js ''source'')) halt_source_literal
      AGENT_TURN_HALT_SOURCES = Some (hr_source r)"
    "read_literal (js_get (halt_fields r) (js ''mode'')) halt_mode_literal [SoftInterrupt, HardStop] =
      Some (hr_mode r)"
    "read_epoch (js_get (halt_fields r) (js ''requestedAtEpochMs'')) = Some (hr_requestedAtEpochMs r)"
    using assms by (simp_all add: halt_fields_def read_back halt_record_ok_def del: js_simps)
  show ?thesis
  proof (cases "hr_escalation r")
    case None
    then have "js_get (halt_fields r) (js ''escalation'') = JUndefined"
      by (simp add: halt_fields_def read_back js_pick_def del: js_simps)
    with None closed reads show ?thesis
      by (simp add: parseAgentTurnHaltRecord_def Let_def del: js_simps)
  next
    case (Some e)
    with assms have e: "hr_mode r = SoftInterrupt" "hr_requestedAtEpochMs r \<le> he_requestedAtEpochMs e"
      "isEpochMs (he_requestedAtEpochMs e)"
      by (simp_all add: halt_record_ok_def escalation_ok_def)
    from Some have "js_get (halt_fields r) (js ''escalation'') \<noteq> JUndefined"
      "parseEscalation (js_get (halt_fields r) (js ''escalation'')) = Some e"
      using parseEscalation_fields [OF e(3)] by (simp_all add: halt_fields_def read_back del: js_simps)
    with Some closed reads e show ?thesis
      by (simp add: parseAgentTurnHaltRecord_def Let_def del: js_simps)
  qed
qed

lemma parsed_halt_record_ok:
  assumes "parseAgentTurnHaltRecord item = Some r"
  shows "halt_record_ok r"
  using assms
  by (auto simp: parseAgentTurnHaltRecord_def parseEscalation_def halt_record_ok_def escalation_ok_def
      Let_def not_less read_epoch_eq_Some split: option.splits if_splits simp del: js_simps)

lemma record_halt_ok:
  assumes "\<And>r. current = Some r \<Longrightarrow> halt_record_ok r" and "recordAgentTurnHalt current attempt = Some r"
  shows "halt_record_ok r"
  using assms
  by (auto simp: recordAgentTurnHalt_def halt_record_ok_def escalation_ok_def isEpochMs_def
      isSafeInteger_def max_def split: option.splits if_splits)

section \<open>Properties\<close>

text \<open>The record a history of attempts should leave, without the order of the code's guards.\<close>

definition halt_summary :: "halt_attempt list \<Rightarrow> halt_record option" where
  "halt_summary attempts =
     (case filter (\<lambda>a. isEpochMs (ha_requestedAtEpochMs a)) attempts of
        [] \<Rightarrow> None
      | a # later \<Rightarrow> Some
          \<lparr>hr_source = trigger_source (ha_trigger a), hr_mode = ha_mode a,
           hr_requestedAtEpochMs = ha_requestedAtEpochMs a,
           hr_escalation =
             (if ha_mode a = HardStop then None
              else map_option (\<lambda>b. \<lparr>he_source = escalationSourceOf (ha_trigger b),
                  he_requestedAtEpochMs = max (ha_requestedAtEpochMs b) (ha_requestedAtEpochMs a)\<rparr>)
                (find (\<lambda>b. ha_mode b = HardStop) later))\<rparr>)"

lemma find_append: "find P (xs @ ys) = (case find P xs of None \<Rightarrow> find P ys | Some x \<Rightarrow> Some x)"
  by (induction xs) simp_all

text \<open>
  C39: However often halting is requested, the record keeps the first request with a valid time:
  its source, mode and time never change. A soft interrupt is escalated by the first later hard
  stop, once, and the escalation is never dated before the request.
\<close>

theorem halt_history_summary: "foldl recordAgentTurnHalt None attempts = halt_summary attempts"
proof (induction attempts rule: rev_induct)
  case Nil
  then show ?case by (simp add: halt_summary_def)
next
  case (snoc a attempts)
  have mode: "ha_mode b = HardStop \<or> ha_mode b = SoftInterrupt" for b by (cases "ha_mode b") simp_all
  show ?case
  proof (cases "filter (\<lambda>a. isEpochMs (ha_requestedAtEpochMs a)) attempts")
    case Nil
    with snoc show ?thesis by (auto simp: halt_summary_def recordAgentTurnHalt_def)
  next
    case (Cons b later)
    with snoc mode [of b] mode [of a] show ?thesis
      by (auto simp: halt_summary_def recordAgentTurnHalt_def find_append split: option.splits)
  qed
qed

lemma parse_identified:
  assumes "halt_record_ok r"
  shows "identifiedRecord (JObject (js_field ''turnId'' (Some (JString t)) @ halt_fields r)) = Some (t, r)"
proof -
  have "filter (\<lambda>(key, v). key \<noteq> js ''turnId'') (js_field ''turnId'' (Some (JString t)) @ halt_fields r) =
      halt_fields r"
    by (auto simp: halt_fields_def js_field_def js_inject filter_empty_conv simp del: js_simps
        split: option.splits)
  with parse_halt_fields [OF assms] show ?thesis
    by (simp add: identifiedRecord_def read_back del: js_simps)
qed

text \<open>
  What the attaching function needs of a turn: an identifier that setting a record keeps, and a
  record that is read back as it was set. \<open>bare\<close> is the turn as it is stored, without its record.
\<close>

locale halt_subject =
  fixes turnId :: "'t \<Rightarrow> js_string"
    and haltRequest :: "'t \<Rightarrow> halt_record option"
    and setHalt :: "halt_record \<Rightarrow> 't \<Rightarrow> 't"
    and bare :: "'t \<Rightarrow> 't"
  assumes bare_turnId: "turnId (bare t) = turnId t"
    and bare_none: "haltRequest t = None \<Longrightarrow> bare t = t"
    and set_bare: "haltRequest t = Some r \<Longrightarrow> setHalt r (bare t) = t"
begin

lemma collect_serialized:
  assumes "\<forall>t \<in> set turns. \<forall>r. haltRequest t = Some r \<longrightarrow> halt_record_ok r"
    and "distinct (map turnId turns)" and "\<forall>t \<in> set turns. map_of records (turnId t) = None"
  shows "map_of (foldl collect_request records (serializeAgentTurnHaltRequests turnId haltRequest turns)) =
    map_of records ++ map_of (List.map_filter (\<lambda>t. map_option (Pair (turnId t)) (haltRequest t)) turns)"
  using assms
proof (induction turns arbitrary: records)
  case Nil
  then show ?case by (simp add: List.map_filter_simps)
next
  case (Cons t turns)
  show ?case
  proof (cases "haltRequest t")
    case None
    with Cons show ?thesis by (simp add: List.map_filter_simps)
  next
    case (Some r)
    have "map_of (List.map_filter (\<lambda>t. map_option (Pair (turnId t)) (haltRequest t)) turns) (turnId t) = None"
      using Cons.prems(2) by (auto simp: map_of_eq_None_iff List.map_filter_def image_iff)
    moreover have "collect_request records (JObject (js_field ''turnId'' (Some (JString (turnId t))) @ halt_fields r))
        = AList.update (turnId t) r records"
      using Cons.prems Some by (simp add: collect_request_def parse_identified del: js_simps)
    moreover have "\<forall>u \<in> set turns. map_of (AList.update (turnId t) r records) (turnId u) = None"
      using Cons.prems by (auto simp: image_iff)
    ultimately show ?thesis
      using Cons.IH [of "AList.update (turnId t) r records"] Cons.prems Some
      by (auto simp: List.map_filter_simps fun_eq_iff map_add_def split: option.splits simp del: js_simps)
  qed
qed

lemma serialized_length: "length (serializeAgentTurnHaltRequests turnId haltRequest turns) \<le> length turns"
  by (induction turns) (simp_all split: option.splits)

lemma attach_serialized:
  assumes "\<forall>t \<in> set turns. \<forall>r. haltRequest t = Some r \<longrightarrow> halt_record_ok r"
    and "distinct (map turnId turns)"
  shows "attachAgentTurnHaltRequests turnId setHalt (map bare turns)
    (JArray (serializeAgentTurnHaltRequests turnId haltRequest turns)) = Some turns"
proof -
  let ?records = "foldl collect_request [] (serializeAgentTurnHaltRequests turnId haltRequest turns)"
  let ?pairs = "List.map_filter (\<lambda>t. map_option (Pair (turnId t)) (haltRequest t)) turns"
  have records: "map_of ?records = map_of ?pairs"
    using collect_serialized [OF assms] by simp
  have lookup: "map_of ?pairs (turnId t) = haltRequest t" if "t \<in> set turns" for t
    using assms(2) that
  proof (induction turns)
    case (Cons u turns)
    have "map_of (List.map_filter (\<lambda>t. map_option (Pair (turnId t)) (haltRequest t)) turns) (turnId u) = None"
      using Cons.prems(1) by (auto simp: map_of_eq_None_iff List.map_filter_def image_iff)
    with Cons show ?case by (cases "haltRequest u") (auto simp: List.map_filter_simps image_iff)
  qed simp
  have restored: "(case map_of ?records (turnId (bare t)) of None \<Rightarrow> bare t | Some r \<Rightarrow> setHalt r (bare t)) = t"
    if "t \<in> set turns" for t
    using lookup [OF that] by (auto simp: records bare_turnId bare_none set_bare split: option.splits)
  have "map bare turns = turns" if "?records = []"
  proof -
    have "haltRequest t = None" if "t \<in> set turns" for t
      using lookup [OF that] records \<open>?records = []\<close> by simp
    then show ?thesis by (simp add: bare_none map_idI)
  qed
  with restored serialized_length [of turns] show ?thesis
    by (simp add: attachAgentTurnHaltRequests_def Let_def map_idI comp_def)
qed

end

end
