(* ===== verification/SessionIdentity.thy ===== *)
theory SessionIdentity
  imports AgentTask
begin

text \<open>
  Which provider session a thread resumes, \<open>src/domain/agentSessionIdentity.ts\<close>: the plan for
  the next turn from the persisted identifier and a directive, the directive changes after a
  report and after a loss, the identifier a thread keeps, and the detection of a lost session.
\<close>

section \<open>Plans and directives\<close>

datatype fresh_reason = NoSession | SessionLost

datatype resume_plan = ResumePlan js_string | FreshPlan fresh_reason

datatype session_directive =
    FreshDirective (basisSessionId: js_string)
  | AdoptedDirective (basisSessionId: js_string) (adoptedSessionId: js_string)

datatype directive_change = KeepDirective | ClearDirective | SetDirective session_directive

record session_report =
  sr_provider :: agent_cli_kind
  sr_resumedSessionId :: "js_string option"
  sr_reportedSessionId :: "js_string option"

record provider_session =
  ps_kind :: agent_cli_kind
  ps_sessionId :: "js_string option"

definition currentDirective :: "js_string option \<Rightarrow> session_directive option \<Rightarrow> session_directive option" where
  "currentDirective persisted directive =
     (case directive of
        None \<Rightarrow> None
      | Some d \<Rightarrow> if Some (basisSessionId d) = persisted then Some d else None)"

definition agentResumePlan :: "js_string option \<Rightarrow> session_directive option \<Rightarrow> resume_plan" where
  "agentResumePlan persisted directive =
     (case currentDirective persisted directive of
        Some (FreshDirective _) \<Rightarrow> FreshPlan SessionLost
      | Some (AdoptedDirective _ adopted) \<Rightarrow> ResumePlan adopted
      | None \<Rightarrow> (case persisted of None \<Rightarrow> FreshPlan NoSession | Some s \<Rightarrow> ResumePlan s))"

fun resumePlanSessionId :: "resume_plan \<Rightarrow> js_string option" where
  "resumePlanSessionId (ResumePlan s) = Some s"
| "resumePlanSessionId (FreshPlan _) = None"

definition agentResumeSessionId :: "js_string option \<Rightarrow> session_directive option \<Rightarrow> js_string option" where
  "agentResumeSessionId persisted directive = resumePlanSessionId (agentResumePlan persisted directive)"

definition adopt :: "js_string \<Rightarrow> js_string \<Rightarrow> directive_change" where
  "adopt basis sessionId = SetDirective (AdoptedDirective basis sessionId)"

definition agentSessionDirectiveAfterReport ::
  "js_string option \<Rightarrow> session_directive option \<Rightarrow> session_report \<Rightarrow> directive_change" where
  "agentSessionDirectiveAfterReport persisted directive report =
     (case sr_reportedSessionId report of
        None \<Rightarrow> KeepDirective
      | Some reported \<Rightarrow>
          if \<not> isAgentSessionId reported then KeepDirective
          else case persisted of
            None \<Rightarrow> (if directive = None then KeepDirective else ClearDirective)
          | Some p \<Rightarrow>
              (case sr_resumedSessionId report of
                 None \<Rightarrow>
                   if agentResumeSessionId persisted directive \<noteq> None then KeepDirective
                   else if reported = p then ClearDirective
                   else adopt p reported
               | Some resumed \<Rightarrow>
                   if Some resumed \<noteq> agentResumeSessionId persisted directive then KeepDirective
                   else if reported = resumed then KeepDirective
                   else if sr_provider report \<noteq> ClaudeCode then KeepDirective
                   else if reported = p then ClearDirective
                   else adopt p reported))"

definition agentSessionDirectiveAfterLoss ::
  "js_string option \<Rightarrow> session_directive option \<Rightarrow> js_string \<Rightarrow> directive_change" where
  "agentSessionDirectiveAfterLoss persisted directive lost =
     (case persisted of
        None \<Rightarrow> KeepDirective
      | Some p \<Rightarrow>
          if agentResumeSessionId persisted directive \<noteq> Some lost then KeepDirective
          else SetDirective (FreshDirective p))"

definition agentProviderSessionAfterReport :: "provider_session \<Rightarrow> js_string option \<Rightarrow> provider_session" where
  "agentProviderSessionAfterReport provider reported =
     (case reported of
        None \<Rightarrow> provider
      | Some r \<Rightarrow>
          if \<not> isAgentSessionId r then provider
          else if ps_sessionId provider = Some r then provider
          else if ps_sessionId provider \<noteq> None \<and> ps_kind provider \<noteq> ClaudeCode then provider
          else provider\<lparr>ps_sessionId := Some r\<rparr>)"

section \<open>Lost sessions\<close>

definition MAX_SESSION_FAILURE_TEXT_CHARS :: nat where "MAX_SESSION_FAILURE_TEXT_CHARS = 4 * 1024"

fun sessionNotFoundMarkers :: "agent_cli_kind \<Rightarrow> js_string list" where
  "sessionNotFoundMarkers ClaudeCode = [js ''no conversation found with session id'']"
| "sessionNotFoundMarkers Codex =
     [js ''no rollout found for thread id'', js ''thread not found'', js ''conversation not found'']"

text \<open>
  \<open>toLowerCase\<close> as far as a search for ASCII text can tell: the letters A to Z, and the two other
  characters whose lower case has an ASCII letter (U+0130 and the Kelvin sign U+212A). The lower
  case of any other character has no ASCII character, and is left as it is.
\<close>

definition lower_case :: "js_unit \<Rightarrow> js_string" where
  "lower_case u =
     (if 65 \<le> unat u \<and> unat u \<le> 90 then [u + 32]
      else if u = 8490 then [107]
      else if u = 304 then [105, 775]
      else [u])"

definition js_toLowerCase :: "js_string \<Rightarrow> js_string" where
  "js_toLowerCase s = concat (map lower_case s)"

fun js_includes :: "js_string \<Rightarrow> js_string \<Rightarrow> bool" where
  "js_includes [] pattern = (pattern = [])"
| "js_includes (u # us) pattern = (js_startsWith (u # us) pattern \<or> js_includes us pattern)"

definition isAgentSessionNotFoundText :: "agent_cli_kind \<Rightarrow> js_string \<Rightarrow> bool" where
  "isAgentSessionNotFoundText provider txt =
     (let bounded = (if length txt > MAX_SESSION_FAILURE_TEXT_CHARS
                     then js_slice txt 0 MAX_SESSION_FAILURE_TEXT_CHARS else txt);
          normalized = js_toLowerCase bounded
      in list_ex (js_includes normalized) (sessionNotFoundMarkers provider))"

fun agentEventReportsSessionNotFound :: "agent_cli_kind \<Rightarrow> agent_turn_event \<Rightarrow> bool" where
  "agentEventReportsSessionNotFound provider (ErrorEvent message) = isAgentSessionNotFoundText provider message"
| "agentEventReportsSessionNotFound provider (UnknownLine stream raw _) =
     (stream = Stderr \<and> isAgentSessionNotFoundText provider raw)"
| "agentEventReportsSessionNotFound provider _ = False"

section \<open>Properties\<close>

text \<open>The holder of a directive applies a change.\<close>

fun apply_change :: "session_directive option \<Rightarrow> directive_change \<Rightarrow> session_directive option" where
  "apply_change d KeepDirective = d"
| "apply_change d ClearDirective = None"
| "apply_change d (SetDirective d') = Some d'"

lemmas directive_defs =
  agentResumePlan_def currentDirective_def agentResumeSessionId_def adopt_def
  agentSessionDirectiveAfterReport_def agentSessionDirectiveAfterLoss_def

text \<open>
  C40: A lost session is never resumed again. When the session a thread would resume is reported
  lost, the next turn starts fresh; when that fresh turn reports a valid session, the turn after
  it resumes exactly the reported one, whichever provider it is.
\<close>

theorem lost_session_recovers:
  assumes "agentResumeSessionId (Some p) d = Some lost"
  shows "let d1 = apply_change d (agentSessionDirectiveAfterLoss (Some p) d lost);
             report = \<lparr>sr_provider = provider, sr_resumedSessionId = None, sr_reportedSessionId = Some r\<rparr>;
             d2 = apply_change d1 (agentSessionDirectiveAfterReport (Some p) d1 report)
         in agentResumePlan (Some p) d1 = FreshPlan SessionLost \<and>
            (isAgentSessionId r \<longrightarrow> agentResumePlan (Some p) d2 = ResumePlan r)"
  using assms by (auto simp: Let_def directive_defs split: option.splits session_directive.splits if_splits)

definition some_session :: js_string where "some_session = [97, 97, 97, 97, 97, 97, 97, 97]"

lemma some_session_ok: "isAgentSessionId some_session"
  by (simp add: isAgentSessionId_def some_session_def alnum_unit_def lower_alnum_def task_limits)

lemma lost_session_recovers_witness:
  "agentResumePlan (Some (js ''old''))
     (apply_change (Some (FreshDirective (js ''old'')))
       (agentSessionDirectiveAfterReport (Some (js ''old'')) (Some (FreshDirective (js ''old'')))
         \<lparr>sr_provider = Codex, sr_resumedSessionId = None, sr_reportedSessionId = Some some_session\<rparr>)) =
   ResumePlan some_session"
proof -
  have plan: "agentResumeSessionId (Some (js ''old'')) None = Some (js ''old'')"
    by (simp add: agentResumeSessionId_def agentResumePlan_def currentDirective_def del: js_simps)
  then have "apply_change None (agentSessionDirectiveAfterLoss (Some (js ''old'')) None (js ''old'')) =
      Some (FreshDirective (js ''old''))"
    by (simp add: agentSessionDirectiveAfterLoss_def del: js_simps)
  with lost_session_recovers [OF plan, of Codex some_session] some_session_ok show ?thesis
    by (simp add: Let_def del: js_simps)
qed

text \<open>
  A directive only speaks about the identifier it was made for: once the persisted identifier
  is another one, the plan is what it would be without the directive. A report never makes the
  plan resume anything but the session it would have resumed before, the persisted one or the
  reported one.
\<close>

theorem directive_scope:
  "(\<forall>d. Some (basisSessionId d) \<noteq> persisted \<longrightarrow> agentResumePlan persisted (Some d) = agentResumePlan persisted None) \<and>
   resumePlanSessionId (agentResumePlan persisted
     (apply_change directive (agentSessionDirectiveAfterReport persisted directive report))) \<in>
     {resumePlanSessionId (agentResumePlan persisted directive), persisted, sr_reportedSessionId report}"
  by (auto simp: directive_defs split: option.splits session_directive.splits)

lemma directive_scope_witness:
  "agentResumePlan (Some (js ''new'')) (Some (FreshDirective (js ''old''))) = ResumePlan (js ''new'')"
  using directive_scope [of "Some (js ''new'')"]
  by (auto simp: agentResumePlan_def currentDirective_def js_inject simp del: js_simps)

lemma reported_session_kept:
  assumes "ps_sessionId provider = Some s" "ps_kind provider = Codex"
  shows "agentProviderSessionAfterReport provider reported = provider"
  using assms by (auto simp: agentProviderSessionAfterReport_def split: option.splits)

lemma provider_after_report_kind [simp, frame]:
  "ps_kind (agentProviderSessionAfterReport provider reported) = ps_kind provider"
  by (auto simp: agentProviderSessionAfterReport_def split: option.splits)

end
