(* ===== verification/ThreadData.thy ===== *)
theory ThreadData
  imports Merge LifecycleRoundTrip HaltRecord SessionIdentity
begin

text \<open>
  The data of the agent threads, \<open>src/domain/agentThread.ts\<close> up to its reducer: turns, threads
  and the store, with the functions that only read them, and \<open>src/domain/agentTurnOrigin.ts\<close>.
  An optional field is an \<open>option\<close>, a field that is both optional and nullable an option of an
  option (\<open>None\<close> is absent, \<open>Some None\<close> is \<open>null\<close>). Times and sequence numbers are integers; a
  sort order is the rational number a finite double denotes.
\<close>

section \<open>Limits\<close>

definition MAX_AGENT_THREADS_PER_ROOT :: nat where "MAX_AGENT_THREADS_PER_ROOT = 64"
definition MAX_AGENT_TURNS_PER_THREAD :: nat where "MAX_AGENT_TURNS_PER_THREAD = 64"
definition MAX_AGENT_STEER_BYTES_PER_TURN :: nat where "MAX_AGENT_STEER_BYTES_PER_TURN = 512 * 1024"
definition MAX_AGENT_THREAD_TITLE_CHARS :: nat where "MAX_AGENT_THREAD_TITLE_CHARS = 200"
definition MAX_AGENT_THREAD_TITLE_BYTES :: nat where "MAX_AGENT_THREAD_TITLE_BYTES = 256"
definition UNTITLED_AGENT_THREAD_TITLE :: js_string where
  "UNTITLED_AGENT_THREAD_TITLE = js ''Untitled thread''"
definition TITLE_ELLIPSIS :: js_string where "TITLE_ELLIPSIS = [8230]"
definition TITLE_ELLIPSIS_BYTES :: nat where "TITLE_ELLIPSIS_BYTES = utf8ByteLength TITLE_ELLIPSIS"

section \<open>Turns\<close>

datatype codex_transport = AppServerTransport | ExecTransport
datatype turn_origin = BackgroundOrigin
datatype events_retention = ServerGap | ClientWindow

datatype turn_status = TaskStatus task_status | TurnInterrupted

record stream_metrics =
  sm_receivedUtf8Bytes :: int
  sm_complete :: bool

record session_fallback =
  sf_previousThreadId :: js_string
  sf_threadId :: js_string

record agent_turn =
  tn_codexTransport :: "codex_transport option"
  tn_origin :: "turn_origin option"
  tn_turnId :: js_string
  tn_prompt :: js_string
  tn_status :: turn_status
  tn_startedAtEpochMs :: int
  tn_endedAtEpochMs :: "int option"
  tn_events :: "agent_turn_event list"
  tn_eventsTruncated :: bool
  tn_eventsRetention :: "events_retention option"
  tn_lastStatusSequence :: int
  tn_lastOutputSequence :: int
  tn_queueBoundarySequence :: "int option"
  tn_promptRestored :: "bool option"
  tn_haltRequested :: "bool option"
  tn_haltRequest :: "halt_record option"
  tn_foregroundSettled :: "bool option"
  tn_firstEventOffset :: "int option"
  tn_subagentLifecycle :: "lifecycle option"
  tn_streamMetrics :: "stream_metrics option option"
  tn_launch :: "launch_options option"
  tn_cliVersion :: "js_string option"
  tn_attachments :: "agent_attachment list option"

section \<open>Threads\<close>

record thread_owner =
  ow_rootKey :: js_string
  ow_ownerId :: js_string
  ow_repositoryRoot :: js_string

record thread_target =
  tg_isolation :: task_isolation
  tg_worktreePath :: "js_string option"

record push_receipt =
  pr_remote :: js_string
  pr_branch :: js_string

datatype integration_mode = FastForward | MergeMode

record integration_receipt =
  ir_intoBranch :: js_string
  ir_mergeSha :: js_string
  ir_mode :: integration_mode

record thread_integration =
  in_lastCommitSha :: "js_string option"
  in_pushed :: "push_receipt option"
  in_integrated :: "integration_receipt option"
  in_branchDeleted :: bool

datatype exchange_role = RoleUser | RoleAssistant

datatype exchange_attachment =
    ExchangeImage image_mime "js_string option" "js_string option"
  | ExchangeFile js_string "js_string option"

record session_exchange =
  ex_role :: exchange_role
  ex_text :: js_string
  ex_attachments :: "exchange_attachment list option"

record external_history =
  eh_provider :: agent_cli_kind
  eh_sessionId :: js_string
  eh_exchanges :: "session_exchange list"
  eh_exchangesTruncated :: bool
  eh_totalPreviewBytes :: int

record external_origin =
  eo_provider :: agent_cli_kind
  eo_sessionId :: js_string
  eo_importedAtEpochMs :: int
  eo_history :: "external_history option"

record agent_thread =
  th_historyRevision :: "int option"
  th_snoozedUntil :: "int option option"
  th_settledAt :: "int option option"
  th_sortOrder :: "rat option option"
  th_threadId :: js_string
  th_owner :: thread_owner
  th_target :: thread_target
  th_provider :: provider_session
  th_title :: js_string
  th_pinned :: bool
  th_archived :: bool
  th_createdAtEpochMs :: int
  th_updatedAtEpochMs :: int
  th_turns :: "agent_turn list"
  th_turnsTruncated :: bool
  th_integration :: "thread_integration option"
  th_viewedAtEpochMs :: "int option"
  th_externalOrigin :: "external_origin option"

text \<open>The store, an object with the one field \<open>threads\<close>, a map from thread identifiers.\<close>

type_synonym threads_state = "(js_string, agent_thread) js_map"

definition emptyAgentThreadsState :: threads_state where
  "emptyAgentThreadsState = []"

section \<open>Status\<close>

fun isTerminalAgentTurnStatus :: "turn_status \<Rightarrow> bool" where
  "isTerminalAgentTurnStatus TurnInterrupted = True"
| "isTerminalAgentTurnStatus (TaskStatus status) = isTerminalAgentTaskStatus status"

definition runningTurn :: "agent_thread \<Rightarrow> agent_turn option" where
  "runningTurn thread =
     (if th_turns thread = [] then None
      else let t = last (th_turns thread) in
        if isTerminalAgentTurnStatus (tn_status t) then None else Some t)"

datatype thread_lifecycle = ThreadRunning | ThreadSettled | ThreadArchived

definition agentThreadLifecycle :: "agent_thread \<Rightarrow> thread_lifecycle" where
  "agentThreadLifecycle thread =
     (if th_archived thread then ThreadArchived
      else if runningTurn thread \<noteq> None then ThreadRunning
      else ThreadSettled)"

fun turnNeedsAttention :: "turn_status \<Rightarrow> bool" where
  "turnNeedsAttention (TaskStatus (TaskFailed _)) = True"
| "turnNeedsAttention TurnInterrupted = True"
| "turnNeedsAttention (TaskStatus TaskStopped) = False"
| "turnNeedsAttention (TaskStatus (TaskExited exitCode)) = (exitCode \<noteq> 0)"
| "turnNeedsAttention (TaskStatus TaskPending) = False"
| "turnNeedsAttention (TaskStatus TaskRunning) = False"

definition agentThreadFinishedAt :: "agent_thread \<Rightarrow> int option" where
  "agentThreadFinishedAt thread =
     (if th_turns thread = [] then None
      else let t = last (th_turns thread) in
        if \<not> isTerminalAgentTurnStatus (tn_status t) then None
        else if tn_endedAtEpochMs t \<noteq> None then tn_endedAtEpochMs t
        else if \<not> turnNeedsAttention (tn_status t) then None
        else Some (tn_startedAtEpochMs t))"

definition agentThreadUnread :: "agent_thread \<Rightarrow> bool" where
  "agentThreadUnread thread \<longleftrightarrow>
     (if th_archived thread then False
      else case agentThreadFinishedAt thread of
        None \<Rightarrow> False
      | Some finishedAt \<Rightarrow>
          (case th_viewedAtEpochMs thread of None \<Rightarrow> True | Some viewed \<Rightarrow> finishedAt > viewed))"

definition agentThreadCanMarkUnread :: "agent_thread \<Rightarrow> bool" where
  "agentThreadCanMarkUnread thread \<longleftrightarrow>
     (if th_archived thread then False else agentThreadFinishedAt thread \<noteq> None)"

datatype thread_attention = AttentionRunning | NeedsAttention | AttentionSettled | AttentionArchived

definition agentThreadAttention :: "agent_thread \<Rightarrow> bool \<Rightarrow> thread_attention" where
  "agentThreadAttention thread unread =
     (if th_archived thread then AttentionArchived
      else if runningTurn thread \<noteq> None then AttentionRunning
      else if th_turns thread = [] then AttentionSettled
      else if \<not> unread then AttentionSettled
      else if turnNeedsAttention (tn_status (last (th_turns thread))) then NeedsAttention
      else AttentionSettled)"

section \<open>Launches\<close>

text \<open>\<open><\<close> on strings compares code units.\<close>

fun js_less :: "js_string \<Rightarrow> js_string \<Rightarrow> bool" where
  "js_less _ [] = False"
| "js_less [] (_ # _) = True"
| "js_less (a # as) (b # bs) = (if a = b then js_less as bs else unat a < unat b)"

definition compareTurnRecency :: "agent_turn \<Rightarrow> agent_turn \<Rightarrow> int" where
  "compareTurnRecency left right =
     (if tn_startedAtEpochMs left \<noteq> tn_startedAtEpochMs right
      then tn_startedAtEpochMs left - tn_startedAtEpochMs right
      else if js_less (tn_turnId left) (tn_turnId right) then -1
      else if js_less (tn_turnId right) (tn_turnId left) then 1
      else 0)"

text \<open>The body of the inner loop: the best turn so far and the next one.\<close>

definition better_launch :: "agent_cli_kind \<Rightarrow> agent_turn option \<Rightarrow> agent_turn \<Rightarrow> agent_turn option" where
  "better_launch provider best turn =
     (case tn_launch turn of
        None \<Rightarrow> best
      | Some launch \<Rightarrow>
          if launch_provider launch \<noteq> provider then best
          else case best of
            None \<Rightarrow> Some turn
          | Some b \<Rightarrow> if compareTurnRecency turn b \<le> 0 then best else Some turn)"

definition lastUsedAgentLaunch ::
  "agent_thread list \<Rightarrow> js_string \<Rightarrow> agent_cli_kind \<Rightarrow> launch_options option" where
  "lastUsedAgentLaunch threads rootKey provider =
     (let best = foldl (\<lambda>best thread.
            if ow_rootKey (th_owner thread) \<noteq> rootKey then best
            else foldl (better_launch provider) best (th_turns thread)) None threads
      in Option.bind best tn_launch)"

section \<open>Background turns\<close>

datatype background_cause = TaskNotification | Unprompted

definition AGENT_BACKGROUND_TURN_LABEL :: js_string where
  "AGENT_BACKGROUND_TURN_LABEL = js ''Claude continued after background work finished''"

definition AGENT_UNPROMPTED_TURN_LABEL :: js_string where
  "AGENT_UNPROMPTED_TURN_LABEL = js ''Claude replied without a new message''"

definition isAgentBackgroundTurn :: "agent_turn \<Rightarrow> bool" where
  "isAgentBackgroundTurn turn \<longleftrightarrow> tn_origin turn = Some BackgroundOrigin"

fun agentBackgroundTurnLabel :: "background_cause \<Rightarrow> js_string" where
  "agentBackgroundTurnLabel TaskNotification = AGENT_BACKGROUND_TURN_LABEL"
| "agentBackgroundTurnLabel Unprompted = AGENT_UNPROMPTED_TURN_LABEL"

definition agentBackgroundTurnCause :: "js_string \<Rightarrow> background_cause" where
  "agentBackgroundTurnCause prompt =
     (if prompt = AGENT_BACKGROUND_TURN_LABEL then TaskNotification else Unprompted)"

definition isBackgroundTurnMarker :: "js_string \<Rightarrow> bool" where
  "isBackgroundTurnMarker prompt \<longleftrightarrow>
     prompt = AGENT_BACKGROUND_TURN_LABEL \<or> prompt = AGENT_UNPROMPTED_TURN_LABEL"

definition derivedAgentTurnOrigin ::
  "js_string \<Rightarrow> launch_options option \<Rightarrow> js_string option \<Rightarrow> turn_origin option" where
  "derivedAgentTurnOrigin prompt launch cliVersion =
     (if \<not> isBackgroundTurnMarker prompt then None
      else if launch \<noteq> None then None
      else if cliVersion \<noteq> None then None
      else Some BackgroundOrigin)"

text \<open>The loop runs from the last turn to the first.\<close>

fun latest_prompted :: "agent_turn list \<Rightarrow> launch_options option" where
  "latest_prompted [] = None"
| "latest_prompted (turn # earlier) =
     (if isAgentBackgroundTurn turn \<or> tn_launch turn = None then latest_prompted earlier
      else tn_launch turn)"

definition latestPromptedAgentLaunch :: "agent_turn list \<Rightarrow> launch_options option" where
  "latestPromptedAgentLaunch turns = latest_prompted (rev turns)"

section \<open>Titles\<close>

text \<open>\<open>split\<close> with a separator of one code unit.\<close>

fun js_split :: "js_unit \<Rightarrow> js_string \<Rightarrow> js_string list" where
  "js_split sep [] = [[]]"
| "js_split sep (u # us) =
     (if u = sep then [] # js_split sep us
      else (case js_split sep us of [] \<Rightarrow> [[u]] | l # ls \<Rightarrow> (u # l) # ls))"

fun first_trimmed :: "js_string list \<Rightarrow> js_string" where
  "first_trimmed [] = []"
| "first_trimmed (line # lines) =
     (let trimmed = js_trim line in if trimmed \<noteq> [] then trimmed else first_trimmed lines)"

definition firstNonEmptyLine :: "js_string \<Rightarrow> js_string" where
  "firstNonEmptyLine prompt = first_trimmed (js_split 10 prompt)"

definition agentThreadTitle :: "js_string \<Rightarrow> js_string" where
  "agentThreadTitle prompt =
     (let line = firstNonEmptyLine prompt in
      if line = [] then UNTITLED_AGENT_THREAD_TITLE
      else let bytes = utf8_encode line in
        if length bytes \<le> MAX_AGENT_THREAD_TITLE_BYTES then line
        else let end = back_to_boundary bytes (MAX_AGENT_THREAD_TITLE_BYTES - TITLE_ELLIPSIS_BYTES)
          in utf8_decode (take end bytes) @ TITLE_ELLIPSIS)"

definition normalizeAgentThreadTitle :: "js_string \<Rightarrow> js_string option" where
  "normalizeAgentThreadTitle raw =
     (let line = firstNonEmptyLine (js_slice raw 0 MAX_AGENT_THREAD_TITLE_CHARS) in
      if line = [] then None else Some (agentThreadTitle line))"

section \<open>Facts\<close>

lemma agentThreadTitle_bytes: "utf8ByteLength (agentThreadTitle prompt) \<le> 256 \<and> agentThreadTitle prompt \<noteq> []"
proof -
  define line where "line = firstNonEmptyLine prompt"
  have "utf8ByteLength (utf8_decode (take (back_to_boundary (utf8_encode line) 253) (utf8_encode line)) @ [8230])
      \<le> 253 + 3" if "256 < utf8ByteLength line"
    using utf8ByteLength_clip [of 253 line] that
      utf8ByteLength_append_le [of "utf8_decode (take (back_to_boundary (utf8_encode line) 253) (utf8_encode line))"
        "[8230]"] by simp
  then show ?thesis
    unfolding agentThreadTitle_def Let_def line_def [symmetric]
    by (auto simp: length_utf8_encode MAX_AGENT_THREAD_TITLE_BYTES_def TITLE_ELLIPSIS_BYTES_def
        TITLE_ELLIPSIS_def UNTITLED_AGENT_THREAD_TITLE_def not_le)
qed

lemma normalizeAgentThreadTitle_bytes:
  "normalizeAgentThreadTitle raw = Some title \<Longrightarrow> utf8ByteLength title \<le> 256 \<and> title \<noteq> []"
  using agentThreadTitle_bytes by (auto simp: normalizeAgentThreadTitle_def Let_def split: if_splits)

lemma runningTurn_Some:
  "runningTurn thread = Some t \<longleftrightarrow>
     th_turns thread \<noteq> [] \<and> t = last (th_turns thread) \<and> \<not> isTerminalAgentTurnStatus (tn_status t)"
  by (auto simp: runningTurn_def Let_def)

lemma runningTurn_None:
  "runningTurn thread = None \<longleftrightarrow>
     th_turns thread = [] \<or> isTerminalAgentTurnStatus (tn_status (last (th_turns thread)))"
  by (simp add: runningTurn_def Let_def)

lemma running_not_archived_unread: "runningTurn thread \<noteq> None \<Longrightarrow> \<not> agentThreadUnread thread"
  by (auto simp: runningTurn_def agentThreadUnread_def agentThreadFinishedAt_def Let_def split: if_splits)

text \<open>The halt records of stored turns: the interface of \<open>HaltRecord\<close> on the turns of a thread.\<close>

definition bare_turn :: "agent_turn \<Rightarrow> agent_turn" where
  "bare_turn t = t\<lparr>tn_haltRequest := None\<rparr>"

definition set_halt :: "halt_record \<Rightarrow> agent_turn \<Rightarrow> agent_turn" where
  "set_halt r t = t\<lparr>tn_haltRequest := Some r\<rparr>"

interpretation halts: halt_subject tn_turnId tn_haltRequest set_halt bare_turn
proof unfold_locales
  show "tn_turnId (bare_turn t) = tn_turnId t" for t by (simp add: bare_turn_def)
  show "bare_turn t = t" if "tn_haltRequest t = None" for t
    using that by (cases t) (simp add: bare_turn_def)
  show "set_halt r (bare_turn t) = t" if "tn_haltRequest t = Some r" for t r
    using that by (cases t) (simp add: bare_turn_def set_halt_def)
qed

text \<open>
  The halt records of a thread survive storage: attaching the serialized records to the turns
  they were taken from, stored without them, gives the turns back, each with its own record.
\<close>

theorem halt_requests_roundtrip:
  assumes "\<forall>t \<in> set turns. \<forall>r. tn_haltRequest t = Some r \<longrightarrow> halt_record_ok r"
    and "distinct (map tn_turnId turns)"
  shows "attachAgentTurnHaltRequests tn_turnId set_halt (map bare_turn turns)
    (JArray (serializeAgentTurnHaltRequests tn_turnId tn_haltRequest turns)) = Some turns"
  using assms by (rule halts.attach_serialized)

text \<open>A turn and a thread for examples: finished, without events, of one owner.\<close>

definition plain_turn :: "js_string \<Rightarrow> turn_status \<Rightarrow> agent_turn" where
  "plain_turn ident status =
     \<lparr>tn_codexTransport = None, tn_origin = None, tn_turnId = ident, tn_prompt = [], tn_status = status,
      tn_startedAtEpochMs = 0, tn_endedAtEpochMs = None, tn_events = [], tn_eventsTruncated = False,
      tn_eventsRetention = None, tn_lastStatusSequence = 0, tn_lastOutputSequence = 0,
      tn_queueBoundarySequence = None, tn_promptRestored = None, tn_haltRequested = None,
      tn_haltRequest = None, tn_foregroundSettled = None, tn_firstEventOffset = None,
      tn_subagentLifecycle = None, tn_streamMetrics = Some None, tn_launch = None,
      tn_cliVersion = None, tn_attachments = None\<rparr>"

definition plain_owner :: thread_owner where
  "plain_owner = \<lparr>ow_rootKey = [], ow_ownerId = [], ow_repositoryRoot = []\<rparr>"

definition plain_thread :: "js_string \<Rightarrow> agent_turn list \<Rightarrow> agent_thread" where
  "plain_thread ident turns =
     \<lparr>th_historyRevision = None, th_snoozedUntil = None, th_settledAt = None, th_sortOrder = None,
      th_threadId = ident, th_owner = plain_owner,
      th_target = \<lparr>tg_isolation = InPlace, tg_worktreePath = None\<rparr>,
      th_provider = \<lparr>ps_kind = ClaudeCode, ps_sessionId = None\<rparr>, th_title = [], th_pinned = False,
      th_archived = False, th_createdAtEpochMs = 0, th_updatedAtEpochMs = 0, th_turns = turns,
      th_turnsTruncated = False, th_integration = None, th_viewedAtEpochMs = None,
      th_externalOrigin = None\<rparr>"

lemma halt_requests_roundtrip_witness:
  "attachAgentTurnHaltRequests tn_turnId set_halt [plain_turn [97] TurnInterrupted, plain_turn [98] TurnInterrupted]
     (JArray (serializeAgentTurnHaltRequests tn_turnId tn_haltRequest
       [plain_turn [97] TurnInterrupted,
        set_halt \<lparr>hr_source = ThreadMenu, hr_mode = SoftInterrupt, hr_requestedAtEpochMs = 5,
          hr_escalation = None\<rparr> (plain_turn [98] TurnInterrupted)])) =
   Some [plain_turn [97] TurnInterrupted,
     set_halt \<lparr>hr_source = ThreadMenu, hr_mode = SoftInterrupt, hr_requestedAtEpochMs = 5,
       hr_escalation = None\<rparr> (plain_turn [98] TurnInterrupted)]"
  using halt_requests_roundtrip [of "[plain_turn [97] TurnInterrupted,
     set_halt \<lparr>hr_source = ThreadMenu, hr_mode = SoftInterrupt, hr_requestedAtEpochMs = 5,
       hr_escalation = None\<rparr> (plain_turn [98] TurnInterrupted)]"]
  by (simp add: plain_turn_def set_halt_def bare_turn_def halt_record_ok_def isEpochMs_def isSafeInteger_def
      max_safe_integer_def)

end
