(* ===== verification/JsNumber.thy ===== *)
theory JsNumber
  imports Prelude "HOL-Library.Log_Nat" "HOL-Library.Multiset"
begin

text \<open>
  JavaScript arithmetic on fractions and \<open>Array.prototype.sort\<close>. The result of an arithmetic
  operation on two finite doubles is the exact rational result rounded to a double, to the
  nearest with ties to even; overflow to infinity is left out, since the source checks the
  magnitude of what it stores. Sorting is stable and, for a comparator that is a total preorder,
  determined by the comparator.
\<close>

section \<open>Rounding to a double\<close>

definition round_half_even :: "rat \<Rightarrow> int" where
  "round_half_even y =
     (let f = \<lfloor>y\<rfloor>; r = y - of_int f in
      if r < 1 / 2 then f else if r > 1 / 2 then f + 1 else if even f then f else f + 1)"

text \<open>The exponent of the leading bit of a positive number.\<close>

definition ilog2 :: "rat \<Rightarrow> int" where
  "ilog2 x =
     (let (p, q) = quotient_of x; d = bitlen p - bitlen q in
      if 2 powi d \<le> x then d else d - 1)"

definition fl :: "rat \<Rightarrow> rat" where
  "fl x =
     (if x = 0 then 0
      else let e = max (ilog2 \<bar>x\<bar> - 52) (-1074) in of_int (round_half_even (x / 2 powi e)) * 2 powi e)"

lemma round_half_even_error: "\<bar>of_int (round_half_even y) - y\<bar> \<le> 1 / 2"
proof -
  have "0 \<le> y - of_int \<lfloor>y\<rfloor>" "y - of_int \<lfloor>y\<rfloor> < 1" by linarith+
  then show ?thesis unfolding round_half_even_def Let_def by (simp add: abs_le_iff)
qed

lemma ilog2_le:
  assumes "0 < x"
  shows "2 powi ilog2 x \<le> x"
proof -
  obtain p q where pq: "quotient_of x = (p, q)" by (cases "quotient_of x")
  have q: "0 < q" using quotient_of_denom_pos [OF pq] .
  have x: "x = of_int p / of_int q" using quotient_of_div [OF pq] .
  have p: "0 < p" using assms q unfolding x by (simp add: zero_less_divide_iff)
  have lower: "2 ^ nat (bitlen p - 1) \<le> p" and upper: "q < 2 ^ nat (bitlen q)"
    using bitlen_bounds [OF p] bitlen_bounds [OF q] by auto
  have bits: "0 < bitlen p" "0 < bitlen q"
    using p q bitlen_eq_zero_iff [of p] bitlen_eq_zero_iff [of q] bitlen_nonneg [of p] bitlen_nonneg [of q]
    by linarith+
  have "(2::rat) powi (bitlen p - bitlen q - 1) * of_int q \<le> 2 powi (bitlen p - bitlen q - 1) * 2 powi bitlen q"
  proof (rule mult_left_mono)
    have "rat_of_int q \<le> of_int (2 ^ nat (bitlen q))" using upper by (simp only: of_int_le_iff)
    then show "rat_of_int q \<le> 2 powi bitlen q" using bits by (simp add: power_int_def)
  qed simp
  also have "\<dots> = 2 powi (bitlen p - 1)" by (simp flip: power_int_add)
  also have "\<dots> = of_int (2 ^ nat (bitlen p - 1))" using bits by (simp add: power_int_def)
  also have "\<dots> \<le> of_int p" using lower by (simp only: of_int_le_iff)
  finally have "2 powi (bitlen p - bitlen q - 1) \<le> x"
    using q unfolding x by (simp add: pos_le_divide_eq)
  then show ?thesis by (simp add: ilog2_def pq Let_def)
qed

lemma fl_error:
  assumes "\<bar>x\<bar> < 2 powi k" and "k \<le> 53" and "0 \<le> k"
  shows "\<bar>fl x - x\<bar> \<le> 2 powi (k - 53) / 2"
proof (cases "x = 0")
  case True
  then show ?thesis by (simp add: fl_def)
next
  case False
  define e where "e = max (ilog2 \<bar>x\<bar> - 52) (-1074)"
  have "2 powi ilog2 \<bar>x\<bar> < (2::rat) powi k" using ilog2_le [of "\<bar>x\<bar>"] False assms(1) by simp
  then have "ilog2 \<bar>x\<bar> < k" by (rule contrapos_pp) (simp add: power_int_increasing not_less)
  with assms have e: "e \<le> k - 53" by (simp add: e_def)
  have "fl x - x = (of_int (round_half_even (x / 2 powi e)) - x / 2 powi e) * 2 powi e"
    using False by (simp add: fl_def e_def Let_def algebra_simps)
  then have "\<bar>fl x - x\<bar> = \<bar>of_int (round_half_even (x / 2 powi e)) - x / 2 powi e\<bar> * 2 powi e"
    by (simp add: abs_mult)
  also have "\<dots> \<le> 1 / 2 * 2 powi e"
    by (rule mult_right_mono [OF round_half_even_error]) simp
  also have "\<dots> \<le> 2 powi (k - 53) / 2" using power_int_increasing [OF e, of "2::rat"] by simp
  finally show ?thesis .
qed

lemma fl_error_half: "\<bar>x\<bar> < 2 ^ 53 \<Longrightarrow> \<bar>fl x - x\<bar> \<le> 1 / 2"
  using fl_error [of x 53] by simp

lemma fl_error_quarter: "\<bar>x\<bar> < 2 ^ 52 \<Longrightarrow> \<bar>fl x - x\<bar> \<le> 1 / 4"
  using fl_error [of x 52] by (simp add: power_int_def)

section \<open>Sorting\<close>

fun insert_sorted :: "('a \<Rightarrow> 'a \<Rightarrow> int) \<Rightarrow> 'a \<Rightarrow> 'a list \<Rightarrow> 'a list" where
  "insert_sorted cmp x [] = [x]"
| "insert_sorted cmp x (y # ys) = (if cmp x y \<le> 0 then x # y # ys else y # insert_sorted cmp x ys)"

fun js_sort :: "('a \<Rightarrow> 'a \<Rightarrow> int) \<Rightarrow> 'a list \<Rightarrow> 'a list" where
  "js_sort cmp [] = []"
| "js_sort cmp (x # xs) = insert_sorted cmp x (js_sort cmp xs)"

lemma mset_insert_sorted [simp]: "mset (insert_sorted cmp x xs) = add_mset x (mset xs)"
  by (induction xs) auto

lemma mset_js_sort [simp]: "mset (js_sort cmp xs) = mset xs"
  by (induction xs) auto

lemma set_js_sort [simp]: "set (js_sort cmp xs) = set xs"
  by (metis mset_js_sort set_mset_mset)

lemma length_js_sort [simp]: "length (js_sort cmp xs) = length xs"
  by (metis mset_js_sort size_mset)

lemma distinct_js_sort [simp]: "distinct (js_sort cmp xs) = distinct xs"
  by (metis mset_js_sort mset_eq_imp_distinct_iff)

text \<open>A comparator that orders the elements of a set totally and strictly.\<close>

definition strict_order_on :: "'a set \<Rightarrow> ('a \<Rightarrow> 'a \<Rightarrow> int) \<Rightarrow> bool" where
  "strict_order_on A cmp \<longleftrightarrow>
     (\<forall>x \<in> A. \<forall>y \<in> A. x \<noteq> y \<longrightarrow> cmp x y < 0 \<or> cmp y x < 0) \<and>
     (\<forall>x \<in> A. \<forall>y \<in> A. cmp x y < 0 \<longrightarrow> 0 < cmp y x) \<and>
     (\<forall>x \<in> A. \<forall>y \<in> A. \<forall>z \<in> A. cmp x y < 0 \<longrightarrow> cmp y z < 0 \<longrightarrow> cmp x z < 0)"

lemma strict_orderD:
  assumes "strict_order_on A cmp"
  shows "x \<in> A \<Longrightarrow> y \<in> A \<Longrightarrow> x \<noteq> y \<Longrightarrow> cmp x y < 0 \<or> cmp y x < 0"
    and "x \<in> A \<Longrightarrow> y \<in> A \<Longrightarrow> cmp x y < 0 \<Longrightarrow> 0 < cmp y x"
    and "x \<in> A \<Longrightarrow> y \<in> A \<Longrightarrow> z \<in> A \<Longrightarrow> cmp x y < 0 \<Longrightarrow> cmp y z < 0 \<Longrightarrow> cmp x z < 0"
  using assms unfolding strict_order_on_def by blast+

lemma strict_order_subset: "strict_order_on A cmp \<Longrightarrow> B \<subseteq> A \<Longrightarrow> strict_order_on B cmp"
  unfolding strict_order_on_def by blast

abbreviation before :: "('a \<Rightarrow> 'a \<Rightarrow> int) \<Rightarrow> 'a list \<Rightarrow> bool" where
  "before cmp \<equiv> sorted_wrt (\<lambda>x y. cmp x y < 0)"

lemma set_insert_sorted [simp]: "set (insert_sorted cmp x ys) = insert x (set ys)"
  by (metis mset_insert_sorted set_mset_add_mset_insert set_mset_mset)

lemma insert_sorted_before:
  assumes "strict_order_on (insert x (set ys)) cmp" and "before cmp ys" and "x \<notin> set ys"
  shows "before cmp (insert_sorted cmp x ys)"
  using assms
proof (induction ys)
  case (Cons y ys)
  note order = strict_orderD [OF Cons.prems(1)]
  have sub: "strict_order_on (insert x (set ys)) cmp"
    by (rule strict_order_subset [OF Cons.prems(1)]) auto
  have xy: "x \<noteq> y" using Cons.prems(3) by simp
  show ?case
  proof (cases "cmp x y \<le> 0")
    case True
    have lt: "cmp x y < 0" using order(1) [of x y] order(2) [of y x] xy True by force
    have "cmp x z < 0" if "z \<in> set ys" for z
      using order(3) [of x y z] lt Cons.prems(2) that by simp
    with True lt Cons.prems(2) show ?thesis by simp
  next
    case False
    then have "cmp y x < 0" using order(1) [of x y] xy by force
    with False Cons sub show ?thesis by simp
  qed
qed simp

lemma js_sort_before:
  assumes "strict_order_on (set xs) cmp" and "distinct xs"
  shows "before cmp (js_sort cmp xs)"
  using assms
proof (induction xs)
  case (Cons x xs)
  have "strict_order_on (set xs) cmp" by (rule strict_order_subset [OF Cons.prems(1)]) auto
  with Cons show ?case by (simp add: insert_sorted_before)
qed simp

lemma before_unique:
  assumes "\<And>x y. x \<in> set xs \<Longrightarrow> y \<in> set xs \<Longrightarrow> cmp x y < 0 \<Longrightarrow> 0 < cmp y x"
    and "before cmp xs" and "before cmp ys" and "mset xs = mset ys"
  shows "xs = ys"
  using assms
proof (induction xs arbitrary: ys)
  case (Cons x xs)
  then obtain y ys' where ys: "ys = y # ys'" by (cases ys) auto
  have sets: "set (x # xs) = set (y # ys')" using Cons.prems(4) ys mset_eq_setD by blast
  have "x = y"
  proof (rule ccontr)
    assume "x \<noteq> y"
    with sets have "y \<in> set xs" "x \<in> set ys'" by auto
    with Cons.prems(2,3) ys have "cmp x y < 0" "cmp y x < 0" by auto
    with Cons.prems(1) [of x y] \<open>y \<in> set xs\<close> show False by simp
  qed
  with Cons ys show ?case by simp
qed simp

lemma js_sort_unique:
  assumes "strict_order_on (set xs) cmp" and "distinct xs" and "before cmp ys" and "mset ys = mset xs"
  shows "js_sort cmp xs = ys"
proof (rule before_unique [of _ cmp])
  show "0 < cmp y x" if "x \<in> set (js_sort cmp xs)" "y \<in> set (js_sort cmp xs)" "cmp x y < 0" for x y
    using that strict_orderD(2) [OF assms(1), of x y] by simp
qed (use assms js_sort_before [OF assms(1,2)] in simp_all)

end
