(* ===== verification/ThreadOrder.thy ===== *)
theory ThreadOrder
  imports ThreadData JsNumber
begin

text \<open>
  The manual organization of threads, \<open>src/domain/agentThreadOrganization.ts\<close>: snoozing,
  settling and the sort order, and the plan that moves a thread next to another one by
  renumbering as few threads as it can. \<open>localeCompare\<close> depends on the host's locale and is the
  argument \<open>lc\<close>. A sort order is a finite double; its arithmetic rounds (\<open>fl\<close>). The sign of
  the difference of two doubles is the sign of the exact difference.
\<close>

section \<open>Values\<close>

record organization_patch =
  op_snoozedUntil :: "int option option"
  op_settledAt :: "int option option"
  op_sortOrder :: "rat option option"

datatype drop_section = DropPinned | DropActive | DropSettled
datatype placement = PlaceBefore | PlaceAfter

definition MAX_THREAD_ORGANIZATION_VALUE :: int where
  "MAX_THREAD_ORGANIZATION_VALUE = 8640000000000000"

definition validThreadOrganizationValue :: "int option \<Rightarrow> bool" where
  "validThreadOrganizationValue v \<longleftrightarrow>
     (case v of
        None \<Rightarrow> True
      | Some n \<Rightarrow> isSafeInteger n \<and> n \<ge> 0 \<and> n \<le> MAX_THREAD_ORGANIZATION_VALUE)"

definition validThreadSortOrder :: "rat option \<Rightarrow> bool" where
  "validThreadSortOrder v \<longleftrightarrow> (case v of None \<Rightarrow> True | Some r \<Rightarrow> \<bar>r\<bar> \<le> of_int max_safe_integer)"

text \<open>\<open>field != null\<close> and \<open>field ?? null\<close> for a field that is optional and nullable.\<close>

definition present :: "'a option option \<Rightarrow> bool" where
  "present field \<longleftrightarrow> (case field of Some (Some _) \<Rightarrow> True | _ \<Rightarrow> False)"

definition or_null :: "'a option option \<Rightarrow> 'a option" where
  "or_null field = (case field of Some v \<Rightarrow> v | None \<Rightarrow> None)"

definition rat_sign :: "rat \<Rightarrow> rat \<Rightarrow> int" where
  "rat_sign a b = (if a < b then -1 else if b < a then 1 else 0)"

definition compareAgentThreadOrder ::
  "(js_string \<Rightarrow> js_string \<Rightarrow> int) \<Rightarrow> agent_thread \<Rightarrow> agent_thread \<Rightarrow> int" where
  "compareAgentThreadOrder lc left right =
     (let leftManual = present (th_sortOrder left); rightManual = present (th_sortOrder right) in
      if leftManual \<noteq> rightManual then (if leftManual then 1 else -1)
      else
        let order = rat_sign (or_default (or_null (th_sortOrder left)) 0)
                             (or_default (or_null (th_sortOrder right)) 0);
            updated = th_updatedAtEpochMs right - th_updatedAtEpochMs left
        in if order \<noteq> 0 then order
           else if updated \<noteq> 0 then updated
           else lc (th_threadId left) (th_threadId right))"

definition sameThreadOrganizationOwner :: "thread_owner \<Rightarrow> thread_owner \<Rightarrow> bool" where
  "sameThreadOrganizationOwner left right \<longleftrightarrow>
     ow_rootKey left = ow_rootKey right \<and> ow_ownerId left = ow_ownerId right \<and>
     ow_repositoryRoot left = ow_repositoryRoot right"

section \<open>Patches\<close>

definition patch_field :: "'a option \<Rightarrow> 'a option \<Rightarrow> 'a option" where
  "patch_field old patch = (case patch of None \<Rightarrow> old | Some v \<Rightarrow> Some v)"

definition updateAgentThreadOrganization ::
  "threads_state \<Rightarrow> js_string \<Rightarrow> thread_owner \<Rightarrow> organization_patch \<Rightarrow> threads_state" where
  "updateAgentThreadOrganization state threadId owner patch =
     (case map_of state threadId of
        None \<Rightarrow> state
      | Some thread \<Rightarrow>
          if \<not> sameThreadOrganizationOwner (th_owner thread) owner then state
          else if op_snoozedUntil patch = None \<and> op_settledAt patch = None \<and> op_sortOrder patch = None
          then state
          else if (case op_sortOrder patch of None \<Rightarrow> False | Some v \<Rightarrow> \<not> validThreadSortOrder v) \<or>
            (case op_snoozedUntil patch of None \<Rightarrow> False | Some v \<Rightarrow> \<not> validThreadOrganizationValue v) \<or>
            (case op_settledAt patch of None \<Rightarrow> False | Some v \<Rightarrow> \<not> validThreadOrganizationValue v)
          then state
          else if present (op_settledAt patch) \<and> runningTurn thread \<noteq> None then state
          else
            let next_thread = thread\<lparr>
                  th_snoozedUntil := patch_field (th_snoozedUntil thread) (op_snoozedUntil patch),
                  th_settledAt := patch_field (th_settledAt thread) (op_settledAt patch),
                  th_sortOrder := patch_field (th_sortOrder thread) (op_sortOrder patch)\<rparr>
            in if present (th_settledAt next_thread) \<and> present (th_snoozedUntil next_thread) then state
               else if th_snoozedUntil next_thread = th_snoozedUntil thread \<and>
                 th_settledAt next_thread = th_settledAt thread \<and>
                 th_sortOrder next_thread = th_sortOrder thread then state
               else AList.update threadId next_thread state)"

section \<open>Plans\<close>

datatype thread_section =
  SectionArchived | SectionSettled | SectionSnoozed | SectionPinned | SectionActive

definition thread_section_of :: "agent_thread \<Rightarrow> int \<Rightarrow> thread_section" where
  "thread_section_of thread now =
     (if th_archived thread then SectionArchived
      else if present (th_settledAt thread) then SectionSettled
      else if or_default (or_null (th_snoozedUntil thread)) 0 > now then SectionSnoozed
      else if th_pinned thread then SectionPinned
      else SectionActive)"

type_synonym sort_order_plan = "(js_string \<times> rat) list"

definition validSortOrderOrNull :: "rat \<Rightarrow> rat option" where
  "validSortOrderOrNull v = (if \<not> validThreadSortOrder (Some v) then None else Some v)"

definition sortOrderBetween :: "rat option \<Rightarrow> rat option \<Rightarrow> rat option" where
  "sortOrderBetween previous following =
     (case (previous, following) of
        (None, None) \<Rightarrow> Some 0
      | (None, Some n) \<Rightarrow> validSortOrderOrNull (fl (n - 1))
      | (Some p, None) \<Rightarrow> validSortOrderOrNull (fl (p + 1))
      | (Some p, Some n) \<Rightarrow>
          (let integer = of_int \<lfloor>fl (fl (p / 2) + fl (n / 2))\<rfloor> in
           if integer > p \<and> integer < n then Some integer
           else let fraction = fl (p + fl (fl (n - p) / 2)) in
             if fraction > p \<and> fraction < n then validSortOrderOrNull fraction else None))"

text \<open>The first index of a thread with a manual order, from an index on.\<close>

fun manual_from :: "nat \<Rightarrow> nat \<Rightarrow> agent_thread list \<Rightarrow> nat option" where
  "manual_from from i [] = None"
| "manual_from from i (thread # threads) =
     (if i \<ge> from \<and> present (th_sortOrder thread) then Some i else manual_from from (Suc i) threads)"

definition renumberFrom :: "agent_thread list \<Rightarrow> nat \<Rightarrow> sort_order_plan" where
  "renumberFrom ordered position =
     (let start = (case manual_from 0 0 ordered of None \<Rightarrow> position | Some i \<Rightarrow> min position i) in
      map (\<lambda>(thread, index). (th_threadId thread, of_nat index))
        (zip (drop start ordered) [0 ..< length (drop start ordered)]))"

definition numberThrough :: "agent_thread list \<Rightarrow> nat \<Rightarrow> sort_order_plan" where
  "numberThrough ordered position =
     (let firstManual = manual_from (Suc position) 0 ordered;
          stop = (case firstManual of None \<Rightarrow> length ordered | Some i \<Rightarrow> i);
          count = stop - position;
          base = (case firstManual of
             None \<Rightarrow> of_nat count
           | Some i \<Rightarrow> or_default (or_null (th_sortOrder (ordered ! i))) (of_nat count));
          assignments = map (\<lambda>(thread, index). (th_threadId thread, fl (fl (base - of_nat count) + of_nat index)))
            (zip (take (stop - position) (drop position ordered)) [0 ..< count])
      in if list_all (\<lambda>(ident, order). validThreadSortOrder (Some order)) assignments
         then assignments else renumberFrom ordered position)"

definition minimalSortOrderPlan :: "agent_thread list \<Rightarrow> nat \<Rightarrow> sort_order_plan" where
  "minimalSortOrderPlan ordered position =
     (case nth_opt ordered position of
        None \<Rightarrow> []
      | Some moved \<Rightarrow>
          (let following = nth_opt ordered (Suc position) in
           if (case following of None \<Rightarrow> False | Some t \<Rightarrow> \<not> present (th_sortOrder t))
           then numberThrough ordered position
           else
             let previous = (if position = 0 then None else nth_opt ordered (position - 1)) in
             case sortOrderBetween
                 (Option.bind previous (\<lambda>t. or_null (th_sortOrder t)))
                 (Option.bind following (\<lambda>t. or_null (th_sortOrder t))) of
               None \<Rightarrow> renumberFrom ordered position
             | Some v \<Rightarrow> [(th_threadId moved, v)]))"

text \<open>\<open>findIndex\<close>; the source only uses it where the element is there.\<close>

fun find_index :: "('a \<Rightarrow> bool) \<Rightarrow> 'a list \<Rightarrow> nat" where
  "find_index P [] = 0"
| "find_index P (x # xs) = (if P x then 0 else Suc (find_index P xs))"

definition agentThreadReorderPlan ::
  "(js_string \<Rightarrow> js_string \<Rightarrow> int) \<Rightarrow> agent_thread list \<Rightarrow> js_string \<Rightarrow> js_string \<Rightarrow> placement \<Rightarrow> int \<Rightarrow>
     sort_order_plan" where
  "agentThreadReorderPlan lc threads threadId targetThreadId place now =
     (if threadId = targetThreadId \<or> \<not> validThreadOrganizationValue (Some now) then []
      else case (find (\<lambda>t. th_threadId t = threadId) threads,
                 find (\<lambda>t. th_threadId t = targetThreadId) threads) of
        (Some moved, Some target) \<Rightarrow>
          if \<not> sameThreadOrganizationOwner (th_owner moved) (th_owner target) \<or>
             thread_section_of moved now \<noteq> thread_section_of target now then []
          else
            let remaining = js_sort (compareAgentThreadOrder lc)
                  (filter (\<lambda>t. th_threadId t \<noteq> threadId \<and>
                     sameThreadOrganizationOwner (th_owner t) (th_owner moved) \<and>
                     thread_section_of t now = thread_section_of moved now) threads);
                position = find_index (\<lambda>t. th_threadId t = targetThreadId) remaining +
                  (if place = PlaceAfter then 1 else 0);
                ordered = take position remaining @ [moved] @ drop position remaining
            in minimalSortOrderPlan ordered position
      | _ \<Rightarrow> [])"

section \<open>Moves\<close>

text \<open>The section a drop names, and \<open>threads.set(id, { ...threads.get(id)!, sortOrder })\<close>.\<close>

fun drop_target :: "drop_section \<Rightarrow> thread_section" where
  "drop_target DropPinned = SectionPinned"
| "drop_target DropActive = SectionActive"
| "drop_target DropSettled = SectionSettled"

definition assign_order :: "threads_state \<Rightarrow> js_string \<times> rat \<Rightarrow> threads_state" where
  "assign_order threads item =
     (case map_of threads (fst item) of
        None \<Rightarrow> threads
      | Some t \<Rightarrow> AList.update (fst item) (t\<lparr>th_sortOrder := Some (Some (snd item))\<rparr>) threads)"

definition reorderAgentThread ::
  "(js_string \<Rightarrow> js_string \<Rightarrow> int) \<Rightarrow> threads_state \<Rightarrow> js_string \<Rightarrow> thread_owner \<Rightarrow> js_string \<Rightarrow>
     placement \<Rightarrow> int \<Rightarrow> drop_section option \<Rightarrow> threads_state" where
  "reorderAgentThread lc state threadId owner targetThreadId place now destination =
     (case map_of state threadId of
        None \<Rightarrow> state
      | Some thread \<Rightarrow>
          if \<not> sameThreadOrganizationOwner (th_owner thread) owner then state
          else case map_of state targetThreadId of
            None \<Rightarrow> state
          | Some target \<Rightarrow>
              if \<not> sameThreadOrganizationOwner (th_owner thread) (th_owner target) then state
              else
                let rejected = (case destination of
                       None \<Rightarrow> False
                     | Some dest \<Rightarrow>
                         \<not> validThreadOrganizationValue (Some now) \<or> th_archived thread \<or> th_archived target \<or>
                         (targetThreadId \<noteq> threadId \<and> thread_section_of target now \<noteq> drop_target dest) \<or>
                         (dest = DropSettled \<and> runningTurn thread \<noteq> None));
                    prepared = (case destination of
                       None \<Rightarrow> state
                     | Some dest \<Rightarrow> AList.update threadId
                         (thread\<lparr>th_pinned := (if dest = DropPinned then True
                             else if dest = DropActive then False else th_pinned thread),
                           th_snoozedUntil := Some None,
                           th_settledAt := (if dest = DropSettled
                             then Some (Some (or_default (or_null (th_settledAt thread)) now))
                             else Some None)\<rparr>) state)
                in if rejected then state
                   else if destination \<noteq> None \<and> targetThreadId = threadId then prepared
                   else
                     let plan = agentThreadReorderPlan lc (map_values prepared) threadId targetThreadId place now;
                         changed = filter (\<lambda>(ident, order).
                           (case map_of state ident of None \<Rightarrow> True
                            | Some t \<Rightarrow> th_sortOrder t \<noteq> Some (Some order))) plan
                     in if length changed = 0 then prepared
                        else foldl assign_order prepared changed)"

datatype section_move = TogglePinMove | SettleMove | RestoreMove | UnsnoozeMove

definition agentThreadSectionMoves :: "agent_thread \<Rightarrow> drop_section \<Rightarrow> int \<Rightarrow> section_move list" where
  "agentThreadSectionMoves thread dest now =
     (let settled = present (th_settledAt thread) in
      if dest = DropSettled
      then (if th_pinned thread then [TogglePinMove] else []) @ (if \<not> settled then [SettleMove] else [])
      else
        (if settled then [RestoreMove] else []) @
        (if or_default (or_null (th_snoozedUntil thread)) 0 > now then [UnsnoozeMove] else []) @
        (if (dest = DropPinned) \<noteq> th_pinned thread then [TogglePinMove] else []))"

end
