(* ===== verification/ThreadOrderPlan.thy ===== *)
theory ThreadOrderPlan
  imports ThreadOrder
begin

text \<open>
  The reorder plan of \<open>ThreadOrder\<close> is right: once it is applied, sorting the section gives the
  old order with the moved thread directly before or after the thread it was dropped on. The
  three plans (one number between two neighbours, numbers for the automatic threads up to the
  next manual one, renumbering) are instances of one lemma about assigned blocks.
\<close>

section \<open>The comparator\<close>

definition manual :: "agent_thread \<Rightarrow> bool" where
  "manual t = present (th_sortOrder t)"

definition order_of :: "agent_thread \<Rightarrow> rat" where
  "order_of t = or_default (or_null (th_sortOrder t)) 0"

definition with_order :: "agent_thread \<Rightarrow> rat \<Rightarrow> agent_thread" where
  "with_order t v = t\<lparr>th_sortOrder := Some (Some v)\<rparr>"

lemma with_order_simps [simp]:
  "manual (with_order t v)" "order_of (with_order t v) = v" "th_threadId (with_order t v) = th_threadId t"
  by (simp_all add: manual_def order_of_def with_order_def present_def or_null_def or_default_def)

lemma compare_unfold:
  "compareAgentThreadOrder lc a b =
     (if manual a \<noteq> manual b then (if manual a then 1 else -1)
      else if order_of a < order_of b then -1
      else if order_of b < order_of a then 1
      else if th_updatedAtEpochMs b \<noteq> th_updatedAtEpochMs a then th_updatedAtEpochMs b - th_updatedAtEpochMs a
      else lc (th_threadId a) (th_threadId b))"
  by (simp add: compareAgentThreadOrder_def manual_def order_of_def rat_sign_def Let_def)

lemma compare_auto_manual: "\<not> manual a \<Longrightarrow> manual b \<Longrightarrow> compareAgentThreadOrder lc a b < 0"
  by (simp add: compare_unfold)

lemma compare_manual_less:
  "manual a \<Longrightarrow> manual b \<Longrightarrow> order_of a < order_of b \<Longrightarrow> compareAgentThreadOrder lc a b < 0"
  by (simp add: compare_unfold)

lemma compare_manualD:
  "compareAgentThreadOrder lc a b < 0 \<Longrightarrow> manual a \<Longrightarrow> manual b \<and> order_of a \<le> order_of b"
  by (auto simp: compare_unfold split: if_splits)

lemma compare_strict_order:
  assumes "strict_order_on (th_threadId ` T) lc" and "inj_on th_threadId T"
  shows "strict_order_on T (compareAgentThreadOrder lc)"
proof -
  note lc = strict_orderD [OF assms(1)]
  have ids: "th_threadId x \<noteq> th_threadId y" if "x \<in> T" "y \<in> T" "x \<noteq> y" for x y
    using assms(2) that by (auto dest: inj_onD)
  show ?thesis
    unfolding strict_order_on_def
  proof (intro conjI ballI impI)
    fix x y assume xy: "x \<in> T" "y \<in> T" "x \<noteq> y"
    with lc(1) [of "th_threadId x" "th_threadId y"] ids [OF xy]
    show "compareAgentThreadOrder lc x y < 0 \<or> compareAgentThreadOrder lc y x < 0"
      by (auto simp: compare_unfold)
  next
    fix x y assume xy: "x \<in> T" "y \<in> T" "compareAgentThreadOrder lc x y < 0"
    with lc(2) [of "th_threadId x" "th_threadId y"]
    show "0 < compareAgentThreadOrder lc y x" by (auto simp: compare_unfold split: if_splits)
  next
    fix x y z assume xyz: "x \<in> T" "y \<in> T" "z \<in> T"
      "compareAgentThreadOrder lc x y < 0" "compareAgentThreadOrder lc y z < 0"
    with lc(3) [of "th_threadId x" "th_threadId y" "th_threadId z"]
    show "compareAgentThreadOrder lc x z < 0" by (auto simp: compare_unfold split: if_splits)
  qed
qed

section \<open>Assigned blocks\<close>

definition apply_plan :: "sort_order_plan \<Rightarrow> agent_thread \<Rightarrow> agent_thread" where
  "apply_plan plan t =
     (case map_of plan (th_threadId t) of None \<Rightarrow> t | Some v \<Rightarrow> with_order t v)"

lemma apply_plan_id [simp]: "th_threadId (apply_plan plan t) = th_threadId t"
  by (simp add: apply_plan_def split: option.splits)

definition assign_block :: "agent_thread list \<Rightarrow> (nat \<Rightarrow> rat) \<Rightarrow> sort_order_plan" where
  "assign_block block f = map (\<lambda>(t, i). (th_threadId t, f i)) (zip block [0 ..< length block])"

lemma assign_block_fst: "map fst (assign_block block f) = map th_threadId block"
  by (rule nth_equalityI) (simp_all add: assign_block_def)

lemma map_of_assign_block:
  assumes "distinct (map th_threadId block)" and "i < length block"
  shows "map_of (assign_block block f) (th_threadId (block ! i)) = Some (f i)"
proof (rule map_of_is_SomeI)
  show "distinct (map fst (assign_block block f))" using assms(1) by (simp add: assign_block_fst)
  have "assign_block block f ! i = (th_threadId (block ! i), f i)"
    using assms(2) by (simp add: assign_block_def)
  moreover have "i < length (assign_block block f)" using assms(2) by (simp add: assign_block_def)
  ultimately show "(th_threadId (block ! i), f i) \<in> set (assign_block block f)" by (metis nth_mem)
qed

lemma map_of_assign_block_None:
  "th_threadId t \<notin> th_threadId ` set block \<Longrightarrow> map_of (assign_block block f) (th_threadId t) = None"
  by (metis assign_block_fst list.set_map map_of_eq_None_iff)

lemma apply_block:
  assumes "distinct (map th_threadId (P @ Q @ R))"
  shows "map (apply_plan (assign_block Q f)) (P @ Q @ R) =
    P @ map (\<lambda>i. with_order (Q ! i) (f i)) [0 ..< length Q] @ R"
proof -
  have out: "apply_plan (assign_block Q f) t = t" if "t \<in> set P \<union> set R" for t
  proof -
    have "th_threadId t \<notin> th_threadId ` set Q" using assms that by auto
    then show ?thesis by (simp add: apply_plan_def map_of_assign_block_None)
  qed
  have "map (apply_plan (assign_block Q f)) Q = map (\<lambda>i. with_order (Q ! i) (f i)) [0 ..< length Q]"
    using assms by (intro nth_equalityI) (simp_all add: apply_plan_def map_of_assign_block)
  with out show ?thesis by (simp add: map_idI)
qed

lemma block_before:
  assumes "distinct (map th_threadId (P @ Q @ R))"
    and "before (compareAgentThreadOrder lc) (P @ R)"
    and "\<And>i j. i < j \<Longrightarrow> j < length Q \<Longrightarrow> f i < f j"
    and "\<And>p i. p \<in> set P \<Longrightarrow> i < length Q \<Longrightarrow> manual p \<Longrightarrow> order_of p < f i"
    and "\<And>r i. r \<in> set R \<Longrightarrow> i < length Q \<Longrightarrow> manual r \<and> f i < order_of r"
  shows "before (compareAgentThreadOrder lc) (map (apply_plan (assign_block Q f)) (P @ Q @ R))"
proof -
  let ?Q = "map (\<lambda>i. with_order (Q ! i) (f i)) [0 ..< length Q]"
  have "before (compareAgentThreadOrder lc) ?Q"
    unfolding sorted_wrt_iff_nth_less using assms(3) by (simp add: compare_manual_less)
  moreover have "compareAgentThreadOrder lc p q < 0" if "p \<in> set P" "q \<in> set ?Q" for p q
    using that assms(4) by (cases "manual p") (auto simp: compare_manual_less compare_auto_manual)
  moreover have "compareAgentThreadOrder lc q r < 0" if "q \<in> set ?Q" "r \<in> set R" for q r
    using that assms(5) by (auto simp: compare_manual_less)
  ultimately show ?thesis
    unfolding apply_block [OF assms(1)] using assms(2) by (auto simp: sorted_wrt_append)
qed

section \<open>The three plans\<close>

lemma manual_from_append: "i + length xs \<le> k \<Longrightarrow> manual_from k i (xs @ ys) = manual_from k (i + length xs) ys"
  by (induction xs arbitrary: i) auto

lemma manual_from_start:
  "k \<le> i \<Longrightarrow> manual_from k i xs =
     (if \<exists>x \<in> set xs. manual x then Some (i + length (takeWhile (\<lambda>t. \<not> manual t) xs)) else None)"
  by (induction xs arbitrary: i) (auto simp: manual_def)

lemma manual_suffix:
  assumes "before (compareAgentThreadOrder lc) (x # xs)" and "manual x" and "y \<in> set xs"
  shows "manual y \<and> order_of x \<le> order_of y"
  using assms compare_manualD [of lc x y] by simp

lemma auto_prefix:
  assumes "before (compareAgentThreadOrder lc) (xs @ y # ys)" and "\<not> manual y" and "x \<in> set xs"
  shows "\<not> manual x"
  using assms compare_manualD [of lc x y] by (auto simp: sorted_wrt_append)

lemma renumber_before:
  assumes "before (compareAgentThreadOrder lc) (A @ B)" and "distinct (map th_threadId (A @ m # B))"
  shows "before (compareAgentThreadOrder lc)
    (map (apply_plan (renumberFrom (A @ m # B) (length A))) (A @ m # B))"
proof -
  let ?ordered = "A @ m # B"
  define start where "start = (case manual_from 0 0 ?ordered of None \<Rightarrow> length A | Some i \<Rightarrow> min (length A) i)"
  have le: "start \<le> length A" by (simp add: start_def split: option.splits)
  have autos: "\<not> manual p" if "p \<in> set (take start ?ordered)" for p
  proof (cases "\<exists>x \<in> set ?ordered. manual x")
    case True
    then have "start \<le> length (takeWhile (\<lambda>t. \<not> manual t) ?ordered)"
      by (simp add: start_def manual_from_start)
    then have "take start ?ordered = take start (takeWhile (\<lambda>t. \<not> manual t) ?ordered)"
      by (metis append_take_drop_id takeWhile_eq_take take_take min.absorb1)
    then show ?thesis using that by (auto dest: in_set_takeD set_takeWhileD)
  next
    case False
    with that show ?thesis by (meson in_set_takeD)
  qed
  have plan: "renumberFrom ?ordered (length A) = assign_block (drop start ?ordered) of_nat"
    by (simp add: renumberFrom_def assign_block_def start_def Let_def)
  have "before (compareAgentThreadOrder lc) (take start ?ordered)"
    using assms(1) le by (simp add: sorted_wrt_append sorted_wrt_take)
  moreover have whole: "take start ?ordered @ drop start ?ordered @ [] = ?ordered"
    by (simp only: append_Nil2 append_take_drop_id)
  ultimately have "before (compareAgentThreadOrder lc)
      (map (apply_plan (assign_block (drop start ?ordered) of_nat)) (take start ?ordered @ drop start ?ordered @ []))"
    using autos assms(2) by (intro block_before) (simp_all only: whole append_Nil2, auto)
  then show ?thesis unfolding whole plan .
qed

lemma single_before:
  assumes "before (compareAgentThreadOrder lc) (A @ B)" and "distinct (map th_threadId (A @ m # B))"
    and "\<And>a. a \<in> set A \<Longrightarrow> manual a \<Longrightarrow> order_of a < v"
    and "\<And>b. b \<in> set B \<Longrightarrow> manual b \<and> v < order_of b"
  shows "before (compareAgentThreadOrder lc) (map (apply_plan [(th_threadId m, v)]) (A @ m # B))"
proof -
  have "[(th_threadId m, v)] = assign_block [m] (\<lambda>_. v)" by (simp add: assign_block_def)
  moreover have "before (compareAgentThreadOrder lc) (map (apply_plan (assign_block [m] (\<lambda>_. v))) (A @ [m] @ B))"
    using assms by (intro block_before) simp_all
  ultimately show ?thesis by simp
qed

text \<open>Rounding keeps numbers one apart distinct and below the next manual number.\<close>

lemma stepped_order:
  assumes "\<bar>base\<bar> < 2 ^ 51" and "of_nat many < (2 ^ 51 :: rat)" and "i < j" and "j < many"
  shows "fl (fl (base - of_nat many) + of_nat i) < fl (fl (base - of_nat many) + of_nat j)"
    and "fl (fl (base - of_nat many) + of_nat j) < base"
proof -
  define c where "c = fl (base - of_nat many)"
  have c: "\<bar>c - (base - of_nat many)\<bar> \<le> 1 / 4"
    unfolding c_def by (rule fl_error_quarter) (use assms(1,2) in \<open>simp add: abs_less_iff; linarith\<close>)
  have ij: "(of_nat i :: rat) + 1 \<le> of_nat j" "(of_nat j :: rat) + 1 \<le> of_nat many" "(0::rat) \<le> of_nat i"
    using assms(3,4) by (simp_all flip: of_nat_Suc add: Suc_leI)
  have "\<bar>fl (c + of_nat i) - (c + of_nat i)\<bar> \<le> 1 / 4" "\<bar>fl (c + of_nat j) - (c + of_nat j)\<bar> \<le> 1 / 4"
    by (rule fl_error_quarter; use c ij assms(1,2) in \<open>simp add: abs_le_iff abs_less_iff; linarith\<close>)+
  with c ij show "fl (fl (base - of_nat many) + of_nat i) < fl (fl (base - of_nat many) + of_nat j)"
    "fl (fl (base - of_nat many) + of_nat j) < base"
    unfolding c_def by linarith+
qed

lemma stepped_below:
  assumes "\<bar>base\<bar> < 2 ^ 51" and "of_nat many < (2 ^ 51 :: rat)" and "j < many"
  shows "fl (fl (base - of_nat many) + of_nat j) < base"
proof -
  define c where "c = fl (base - of_nat many)"
  have c: "\<bar>c - (base - of_nat many)\<bar> \<le> 1 / 4"
    unfolding c_def by (rule fl_error_quarter) (use assms(1,2) in \<open>simp add: abs_less_iff; linarith\<close>)
  have j: "(of_nat j :: rat) + 1 \<le> of_nat many" "(0::rat) \<le> of_nat j"
    using assms(3) by (simp_all flip: of_nat_Suc add: Suc_leI)
  have "\<bar>fl (c + of_nat j) - (c + of_nat j)\<bar> \<le> 1 / 4"
    by (rule fl_error_quarter; use c j assms(1,2) in \<open>simp add: abs_le_iff abs_less_iff; linarith\<close>)
  with c j show ?thesis unfolding c_def by linarith
qed

lemma number_through_before:
  assumes "before (compareAgentThreadOrder lc) (A @ b # B)" and "distinct (map th_threadId (A @ m # b # B))"
    and "\<not> manual b"
    and "\<And>t. t \<in> set (b # B) \<Longrightarrow> \<bar>order_of t\<bar> < 2 ^ 51" and "length (A @ m # b # B) < 2 ^ 51"
  shows "before (compareAgentThreadOrder lc)
    (map (apply_plan (numberThrough (A @ m # b # B) (length A))) (A @ m # b # B))"
proof -
  let ?ordered = "A @ m # b # B"
  define autos where "autos = takeWhile (\<lambda>t. \<not> manual t) (b # B)"
  define rest where "rest = dropWhile (\<lambda>t. \<not> manual t) (b # B)"
  define many where "many = Suc (length autos)"
  define base where "base = (case rest of [] \<Rightarrow> of_nat many | r # _ \<Rightarrow> order_of r)"
  let ?f = "\<lambda>i. fl (fl (base - of_nat many) + of_nat i)"
  have split: "b # B = autos @ rest" by (simp add: autos_def rest_def)
  have "manual_from (Suc (length A)) 0 ?ordered = manual_from (Suc (length A)) (Suc (length A)) (b # B)"
    using manual_from_append [of 0 "A @ [m]" "Suc (length A)" "b # B"] by simp
  also have "\<dots> = (if rest = [] then None else Some (length A + many))"
    unfolding manual_from_start [OF order_refl]
    by (auto simp: rest_def autos_def many_def dropWhile_eq_Nil_conv)
  finally have first: "manual_from (Suc (length A)) 0 ?ordered =
      (if rest = [] then None else Some (length A + many))" .
  have hd_rest: "manual (hd rest)" if "rest \<noteq> []"
    using hd_dropWhile [of "\<lambda>t. \<not> manual t" "b # B"] that by (simp add: rest_def)
  have whole: "?ordered = A @ (m # autos) @ rest" by (simp add: split)
  have nth_rest: "?ordered ! (length A + many) = hd rest" if "rest \<noteq> []"
    using that unfolding whole by (cases rest) (simp_all add: nth_append many_def)
  have stop: "(case manual_from (Suc (length A)) 0 ?ordered of None \<Rightarrow> length ?ordered | Some i \<Rightarrow> i) =
      length A + many"
    unfolding first using arg_cong [OF split, of length] by (auto simp: many_def)
  have base: "(case manual_from (Suc (length A)) 0 ?ordered of None \<Rightarrow> of_nat many
      | Some i \<Rightarrow> or_default (or_null (th_sortOrder (?ordered ! i))) (of_nat many)) = base"
    using hd_rest nth_rest unfolding first base_def
    by (cases rest) (auto simp: order_of_def manual_def present_def or_null_def or_default_def
        split: option.splits)
  have "numberThrough ?ordered (length A) =
      (if list_all (\<lambda>(ident, order). validThreadSortOrder (Some order)) (assign_block (m # autos) ?f)
       then assign_block (m # autos) ?f else renumberFrom ?ordered (length A))"
    unfolding numberThrough_def Let_def stop add_diff_cancel_left' base
    by (simp add: assign_block_def whole many_def del: upt_Suc)
  moreover have "before (compareAgentThreadOrder lc)
      (map (apply_plan (assign_block (m # autos) ?f)) (A @ (m # autos) @ rest))"
  proof (rule block_before)
    show "distinct (map th_threadId (A @ (m # autos) @ rest))" using assms(2) unfolding whole .
    show "before (compareAgentThreadOrder lc) (A @ rest)"
      using assms(1) unfolding split by (auto simp: sorted_wrt_append)
    have small: "\<bar>base\<bar> < 2 ^ 51" "of_nat many < (2 ^ 51 :: rat)"
    proof -
      have "many < 2 ^ 51" using assms(5) unfolding whole by (simp add: many_def)
      then have "(of_nat many :: rat) < of_nat (2 ^ 51)" by (simp only: of_nat_less_iff)
      then show many: "of_nat many < (2 ^ 51 :: rat)" by simp
      have "set rest \<subseteq> set (b # B)" unfolding split by simp
      with assms(4) many show "\<bar>base\<bar> < 2 ^ 51" by (cases rest) (auto simp: base_def)
    qed
    show "?f i < ?f j" if "i < j" "j < length (m # autos)" for i j
      using stepped_order(1) [OF small] that by (simp add: many_def)
    show "order_of p < ?f i" if "p \<in> set A" "i < length (m # autos)" "manual p" for p i
      using auto_prefix [OF assms(1,3)] that by blast
    show "manual r \<and> ?f i < order_of r" if r: "r \<in> set rest" and i: "i < length (m # autos)" for r i
    proof -
      obtain r0 rs where rest: "rest = r0 # rs" using r by (cases rest) auto
      have "before (compareAgentThreadOrder lc) (r0 # rs)"
        using assms(1) unfolding split rest by (simp add: sorted_wrt_append)
      from manual_suffix [OF this] hd_rest r have "manual r \<and> order_of r0 \<le> order_of r"
        unfolding rest by auto
      moreover have "?f i < order_of r0"
        using stepped_below [OF small, of i] i by (simp add: many_def base_def rest)
      ultimately show ?thesis by auto
    qed
  qed
  moreover have "before (compareAgentThreadOrder lc) (map (apply_plan (renumberFrom ?ordered (length A))) ?ordered)"
    by (rule renumber_before [OF assms(1,2)])
  ultimately show ?thesis by (simp add: whole del: map_append list.map)
qed

text \<open>A number between two neighbours, or next to one.\<close>

lemma valid_or_null_Some: "validSortOrderOrNull v = Some w \<Longrightarrow> w = v \<and> \<bar>v\<bar> \<le> of_int max_safe_integer"
  by (auto simp: validSortOrderOrNull_def validThreadSortOrder_def split: if_splits)

lemma between_bounds:
  assumes "sortOrderBetween p n = Some v"
    and "\<And>x. p = Some x \<Longrightarrow> \<bar>x\<bar> < 2 ^ 51" and "\<And>x. n = Some x \<Longrightarrow> \<bar>x\<bar> < 2 ^ 51"
  shows "(\<forall>x. p = Some x \<longrightarrow> x < v) \<and> (\<forall>x. n = Some x \<longrightarrow> v < x)"
proof -
  have near: "\<bar>fl (x + d) - (x + d)\<bar> \<le> 1 / 4" if "\<bar>x\<bar> < 2 ^ 51" "\<bar>d\<bar> \<le> 1" for x d
    by (rule fl_error_quarter) (use that in \<open>simp add: abs_less_iff abs_le_iff; linarith\<close>)
  show ?thesis
  proof (cases p)
    case None
    show ?thesis
    proof (cases n)
      case (Some x)
      with None assms(1) have "v = fl (x + (-1))"
        by (auto simp: sortOrderBetween_def dest: valid_or_null_Some)
      moreover have "\<bar>fl (x + -1) - (x + -1)\<bar> \<le> 1 / 4" by (rule near [OF assms(3) [OF Some]]) simp
      ultimately have "v < x" unfolding abs_le_iff by linarith
      with None Some show ?thesis by simp
    qed (use None in simp)
  next
    case (Some x)
    note p = Some
    show ?thesis
    proof (cases n)
      case None
      with p assms(1) have "v = fl (x + 1)"
        by (auto simp: sortOrderBetween_def dest: valid_or_null_Some)
      moreover have "\<bar>fl (x + 1) - (x + 1)\<bar> \<le> 1 / 4" by (rule near [OF assms(2) [OF p]]) simp
      ultimately have "x < v" unfolding abs_le_iff by linarith
      with None p show ?thesis by simp
    next
      case (Some y)
      with p assms(1) show ?thesis
        by (auto simp: sortOrderBetween_def Let_def dest!: valid_or_null_Some split: if_splits)
    qed
  qed
qed

lemma or_null_order: "or_null (th_sortOrder t) = (if manual t then Some (order_of t) else None)"
  by (auto simp: manual_def order_of_def present_def or_null_def or_default_def split: option.splits)

lemma minimal_plan_before:
  assumes "before (compareAgentThreadOrder lc) (A @ B)" and "distinct (map th_threadId (A @ m # B))"
    and "\<And>t. t \<in> set A \<union> set B \<Longrightarrow> \<bar>order_of t\<bar> < 2 ^ 51" and "length (A @ m # B) < 2 ^ 51"
  shows "before (compareAgentThreadOrder lc)
    (map (apply_plan (minimalSortOrderPlan (A @ m # B) (length A))) (A @ m # B))"
proof -
  let ?ordered = "A @ m # B"
  define following where "following = (case B of [] \<Rightarrow> None | b # _ \<Rightarrow> Some b)"
  define prev where "prev = (if A = [] then None else Some (last A))"
  have following: "nth_opt ?ordered (Suc (length A)) = following"
    by (cases B) (simp_all add: following_def nth_opt_def nth_append)
  have prev: "(if length A = 0 then None else nth_opt ?ordered (length A - 1)) = prev"
    by (cases A rule: rev_cases) (simp_all add: prev_def nth_opt_def nth_append)
  have moved: "nth_opt ?ordered (length A) = Some m" by (simp add: nth_opt_def nth_append)
  show ?thesis
  proof (cases "\<exists>b bs. B = b # bs \<and> \<not> manual b")
    case True
    then obtain b bs where B: "B = b # bs" "\<not> manual b" by blast
    have plan: "minimalSortOrderPlan ?ordered (length A) = numberThrough ?ordered (length A)"
      unfolding minimalSortOrderPlan_def moved following Let_def using B by (simp add: following_def manual_def)
    show ?thesis
      unfolding plan unfolding B(1)
      by (rule number_through_before [OF assms(1,2) [unfolded B(1)] B(2) _ assms(4) [unfolded B(1)]])
        (simp only: assms(3) B(1) Un_iff simp_thms)
  next
    case False
    let ?p = "Option.bind prev (\<lambda>t. or_null (th_sortOrder t))"
    let ?n = "Option.bind following (\<lambda>t. or_null (th_sortOrder t))"
    have plan: "minimalSortOrderPlan ?ordered (length A) =
        (case sortOrderBetween ?p ?n of None \<Rightarrow> renumberFrom ?ordered (length A) | Some v \<Rightarrow> [(th_threadId m, v)])"
      using False unfolding minimalSortOrderPlan_def moved following prev Let_def
      by (cases B) (simp_all add: following_def manual_def)
    show ?thesis
    proof (cases "sortOrderBetween ?p ?n")
      case None
      with renumber_before [OF assms(1,2)] plan show ?thesis by simp
    next
      case (Some v)
      have small: "\<bar>x\<bar> < 2 ^ 51" if "?p = Some x \<or> ?n = Some x" for x
        using that assms(3) by (cases B) (auto simp: prev_def following_def or_null_order split: if_splits)
      have bounds: "\<forall>x. ?p = Some x \<longrightarrow> x < v" "\<forall>x. ?n = Some x \<longrightarrow> v < x"
        using between_bounds [OF Some] small by blast+
      have "order_of a < v" if a: "a \<in> set A" "manual a" for a
      proof -
        obtain A' z where A: "A = A' @ [z]" using a by (cases A rule: rev_cases) auto
        have "a = z \<or> compareAgentThreadOrder lc a z < 0"
          using assms(1) a unfolding A by (auto simp: sorted_wrt_append)
        with a(2) have "manual z \<and> order_of a \<le> order_of z" by (auto dest: compare_manualD)
        with bounds(1) show ?thesis by (simp add: prev_def A or_null_order)
      qed
      moreover have "manual b \<and> v < order_of b" if b: "b \<in> set B" for b
      proof -
        obtain y B' where B: "B = y # B'" using b by (cases B) auto
        with False have y: "manual y" by blast
        have "before (compareAgentThreadOrder lc) (y # B')"
          using assms(1) unfolding B by (simp add: sorted_wrt_append)
        from manual_suffix [OF this y] b have "manual b \<and> order_of y \<le> order_of b" using y unfolding B by auto
        with bounds(2) y show ?thesis by (auto simp: following_def B or_null_order)
      qed
      ultimately show ?thesis unfolding plan Some option.case
        by (intro single_before [OF assms(1,2)]) blast+
    qed
  qed
qed

section \<open>The move\<close>

text \<open>The threads of one owner and one section.\<close>

definition section_members :: "agent_thread list \<Rightarrow> agent_thread \<Rightarrow> int \<Rightarrow> agent_thread list" where
  "section_members threads moved now =
     filter (\<lambda>t. sameThreadOrganizationOwner (th_owner t) (th_owner moved) \<and>
       thread_section_of t now = thread_section_of moved now) threads"

definition place_ids :: "placement \<Rightarrow> js_string \<Rightarrow> js_string \<Rightarrow> js_string list" where
  "place_ids place moved target = (if place = PlaceBefore then [moved, target] else [target, moved])"

lemma find_index_split:
  "\<exists>x \<in> set xs. P x \<Longrightarrow> find_index P xs < length xs \<and> P (xs ! find_index P xs)"
  by (induction xs) auto

lemma find_unique:
  assumes "distinct (map th_threadId threads)" and "t \<in> set threads"
  shows "find (\<lambda>u. th_threadId u = th_threadId t) threads = Some t"
  using assms by (induction threads) (auto simp: image_iff)

lemma mset_remove_one:
  assumes "distinct (map th_threadId ts)" and "t \<in> set ts"
  shows "mset (t # filter (\<lambda>u. th_threadId u \<noteq> th_threadId t) ts) = mset ts"
  using assms
proof (induction ts)
  case (Cons u ts)
  show ?case
  proof (cases "th_threadId u = th_threadId t")
    case True
    then have "t \<notin> set ts" using Cons.prems(1) by auto
    then have "u = t" using Cons.prems(2) by auto
    moreover have "filter (\<lambda>u. th_threadId u \<noteq> th_threadId t) ts = ts"
      using Cons.prems(1) True by (auto simp: filter_id_conv) (metis image_eqI)
    ultimately show ?thesis by simp
  next
    case False
    with Cons show ?thesis by auto
  qed
qed simp

lemma members_move:
  assumes "distinct (map th_threadId threads)" and "moved \<in> set threads" and "target \<in> set threads"
    and "th_threadId moved \<noteq> th_threadId target"
    and "sameThreadOrganizationOwner (th_owner moved) (th_owner target)"
    and "thread_section_of moved now = thread_section_of target now"
    and "validThreadOrganizationValue (Some now)"
    and "strict_order_on (th_threadId ` set threads) lc"
    and "others = js_sort (compareAgentThreadOrder lc)
      (filter (\<lambda>t. th_threadId t \<noteq> th_threadId moved) (section_members threads moved now))"
  obtains A B where "others = A @ B"
    and "agentThreadReorderPlan lc threads (th_threadId moved) (th_threadId target) place now =
      minimalSortOrderPlan (A @ moved # B) (length A)"
    and "mset (A @ moved # B) = mset (section_members threads moved now)"
    and "\<exists>C D. map th_threadId (A @ moved # B) = C @ place_ids place (th_threadId moved) (th_threadId target) @ D \<and>
      map th_threadId others = C @ [th_threadId target] @ D"
proof -
  define position where "position = find_index (\<lambda>t. th_threadId t = th_threadId target) others +
    (if place = PlaceAfter then 1 else 0)"
  have members: "filter (\<lambda>t. th_threadId t \<noteq> th_threadId moved \<and>
      sameThreadOrganizationOwner (th_owner t) (th_owner moved) \<and>
      thread_section_of t now = thread_section_of moved now) threads =
    filter (\<lambda>t. th_threadId t \<noteq> th_threadId moved) (section_members threads moved now)"
    by (simp add: section_members_def conj_commute)
  have "\<exists>t \<in> set others. th_threadId t = th_threadId target"
    using assms(3-6) unfolding assms(9)
    by (auto simp: section_members_def sameThreadOrganizationOwner_def)
  from find_index_split [OF this] obtain i where
    i: "i = find_index (\<lambda>t. th_threadId t = th_threadId target) others" "i < length others"
      "th_threadId (others ! i) = th_threadId target" by blast
  have le: "position \<le> length others" using i by (simp add: position_def)
  have plan: "agentThreadReorderPlan lc threads (th_threadId moved) (th_threadId target) place now =
      minimalSortOrderPlan (take position others @ moved # drop position others) (length (take position others))"
  proof -
    have given: "\<not> (th_threadId moved = th_threadId target \<or> \<not> validThreadOrganizationValue (Some now))"
      "\<not> (\<not> sameThreadOrganizationOwner (th_owner moved) (th_owner target) \<or>
        thread_section_of moved now \<noteq> thread_section_of target now)"
      using assms(4-7) by simp_all
    have len: "length (take position others) = position" using le by simp
    show ?thesis
      unfolding agentThreadReorderPlan_def if_not_P [OF given(1)] find_unique [OF assms(1,2)]
        find_unique [OF assms(1,3)] option.case prod.case if_not_P [OF given(2)] Let_def members
        assms(9) [symmetric] position_def [symmetric] len by simp
  qed
  have in_members: "moved \<in> set (section_members threads moved now)"
    using assms(2) by (simp add: section_members_def sameThreadOrganizationOwner_def)
  have "distinct (map th_threadId (section_members threads moved now))"
    using assms(1) by (simp add: section_members_def distinct_map_filter)
  from mset_remove_one [OF this in_members] have
    all: "mset (take position others @ moved # drop position others) = mset (section_members threads moved now)"
    unfolding assms(9) by (metis append_take_drop_id mset_append mset_js_sort union_mset_add_mset_right mset.simps(2))
  define C D where "C = map th_threadId (take i others)" and "D = map th_threadId (drop (Suc i) others)"
  have old: "map th_threadId others = C @ [th_threadId target] @ D"
    using arg_cong [OF id_take_nth_drop [OF i(2)], of "map th_threadId"] i(3) by (simp add: C_def D_def)
  have "map th_threadId (take position others @ moved # drop position others) =
      C @ place_ids place (th_threadId moved) (th_threadId target) @ D"
  proof (cases place)
    case PlaceBefore
    then have "position = i" by (simp add: position_def i)
    moreover have "drop i others = others ! i # drop (Suc i) others" by (rule Cons_nth_drop_Suc [OF i(2), symmetric])
    ultimately show ?thesis using PlaceBefore i(3) by (simp add: C_def D_def place_ids_def)
  next
    case PlaceAfter
    then have "position = Suc i" by (simp add: position_def i)
    then show ?thesis using PlaceAfter i(2,3)
      by (simp add: C_def D_def place_ids_def take_Suc_conv_app_nth)
  qed
  with old plan all show thesis by (intro that [of "take position others" "drop position others"]) auto
qed

text \<open>A plan that puts its threads in order is what sorting gives once it is applied.\<close>

lemma renumbered_order:
  assumes "strict_order_on (th_threadId ` set members) lc" and "distinct (map th_threadId members)"
    and "mset ordered = mset members" and "before (compareAgentThreadOrder lc) (map (apply_plan plan) ordered)"
  shows "map th_threadId (js_sort (compareAgentThreadOrder lc) (map (apply_plan plan) members)) = map th_threadId ordered"
proof -
  let ?new = "map (apply_plan plan) members"
  have ids: "map th_threadId ?new = map th_threadId members" by simp
  then have image: "th_threadId ` set ?new = th_threadId ` set members" by (metis list.set_map)
  have "distinct (map th_threadId ?new)" unfolding ids by (rule assms(2))
  then have new: "distinct ?new" "inj_on th_threadId (set ?new)" unfolding distinct_map [of th_threadId] by simp_all
  have "strict_order_on (th_threadId ` set ?new) lc" unfolding image by (rule assms(1))
  then have "strict_order_on (set ?new) (compareAgentThreadOrder lc)" using new(2) by (rule compare_strict_order)
  then have "js_sort (compareAgentThreadOrder lc) ?new = map (apply_plan plan) ordered"
    using new(1) assms(4)
    by (rule js_sort_unique) (use arg_cong [OF assms(3), of "image_mset (apply_plan plan)"] in simp)
  then show ?thesis by simp
qed

text \<open>
  C36: Dropping a thread next to another one of its section puts it there. Once the plan is
  applied, sorting the section again gives the order it had, with the moved thread directly before
  (or after) the target; every other thread keeps its place. This holds for distinct thread
  identifiers that the host's comparison orders totally, manual orders below \<open>2 ^ 51\<close> in
  magnitude and fewer than \<open>2 ^ 51\<close> threads; the arithmetic is that of doubles.
\<close>

theorem reorder_places_thread:
  assumes "distinct (map th_threadId threads)" and "moved \<in> set threads" and "target \<in> set threads"
    and "th_threadId moved \<noteq> th_threadId target"
    and "sameThreadOrganizationOwner (th_owner moved) (th_owner target)"
    and "thread_section_of moved now = thread_section_of target now"
    and "validThreadOrganizationValue (Some now)"
    and "strict_order_on (th_threadId ` set threads) lc"
    and "\<forall>t \<in> set threads. \<bar>order_of t\<bar> < 2 ^ 51" and "length threads < 2 ^ 51"
  shows "\<exists>C D.
    map th_threadId (js_sort (compareAgentThreadOrder lc)
      (filter (\<lambda>t. th_threadId t \<noteq> th_threadId moved) (section_members threads moved now))) =
      C @ [th_threadId target] @ D \<and>
    map th_threadId (js_sort (compareAgentThreadOrder lc)
      (map (apply_plan (agentThreadReorderPlan lc threads (th_threadId moved) (th_threadId target) place now))
        (section_members threads moved now))) =
      C @ place_ids place (th_threadId moved) (th_threadId target) @ D"
proof -
  let ?members = "section_members threads moved now"
  let ?plan = "agentThreadReorderPlan lc threads (th_threadId moved) (th_threadId target) place now"
  let ?others = "js_sort (compareAgentThreadOrder lc) (filter (\<lambda>t. th_threadId t \<noteq> th_threadId moved) ?members)"
  obtain A B where others: "?others = A @ B"
    and plan: "?plan = minimalSortOrderPlan (A @ moved # B) (length A)"
    and all: "mset (A @ moved # B) = mset ?members"
    and ids: "\<exists>C D. map th_threadId (A @ moved # B) =
        C @ place_ids place (th_threadId moved) (th_threadId target) @ D \<and>
      map th_threadId ?others = C @ [th_threadId target] @ D"
    by (rule members_move [OF assms(1-8) refl])
  have sub: "set ?members \<subseteq> set threads" by (auto simp: section_members_def)
  have distinct: "distinct (map th_threadId ?members)"
    using assms(1) by (simp add: section_members_def distinct_map_filter)
  have inj: "inj_on th_threadId (set ?members)" using distinct by (simp add: distinct_map)
  have order: "strict_order_on (set ?members) (compareAgentThreadOrder lc)"
    by (rule compare_strict_order [OF strict_order_subset [OF assms(8)] inj]) (use sub in blast)
  have ids_distinct: "distinct (map th_threadId (A @ moved # B))"
    using distinct mset_eq_imp_distinct_iff [of "map th_threadId (A @ moved # B)" "map th_threadId ?members"]
      arg_cong [OF all, of "image_mset th_threadId"] by simp
  have members: "set (A @ moved # B) = set ?members" using all by (rule mset_eq_setD)
  have "before (compareAgentThreadOrder lc) (A @ B)"
    unfolding others [symmetric]
    by (rule js_sort_before) (use order distinct in \<open>auto intro: strict_order_subset simp: distinct_map\<close>)
  moreover have "\<bar>order_of t\<bar> < 2 ^ 51" if "t \<in> set A \<union> set B" for t
    using assms(9) sub members that by auto
  moreover have "length (A @ moved # B) < 2 ^ 51"
  proof -
    have "length (A @ moved # B) = length ?members" using arg_cong [OF all, of size] by simp
    also have "\<dots> \<le> length threads" by (simp add: section_members_def)
    finally show ?thesis using assms(10) by simp
  qed
  ultimately have sorted: "before (compareAgentThreadOrder lc) (map (apply_plan ?plan) (A @ moved # B))"
    unfolding plan using ids_distinct by (intro minimal_plan_before)
  have "map th_threadId (js_sort (compareAgentThreadOrder lc) (map (apply_plan ?plan) ?members)) =
      map th_threadId (A @ moved # B)"
    by (rule renumbered_order [OF strict_order_subset [OF assms(8) image_mono [OF sub]] distinct all sorted])
  moreover from ids obtain C D where "map th_threadId (A @ moved # B) =
      C @ place_ids place (th_threadId moved) (th_threadId target) @ D"
    "map th_threadId ?others = C @ [th_threadId target] @ D" by blast
  ultimately show ?thesis by metis
qed

definition unit_compare :: "js_string \<Rightarrow> js_string \<Rightarrow> int" where
  "unit_compare a b = (if js_less a b then -1 else if js_less b a then 1 else 0)"

lemma reorder_places_thread_witness:
  "\<exists>C D. map th_threadId (js_sort (compareAgentThreadOrder unit_compare)
      (map (apply_plan (agentThreadReorderPlan unit_compare [plain_thread [97] [], plain_thread [98] []]
          [98] [97] PlaceBefore 0))
        (section_members [plain_thread [97] [], plain_thread [98] []] (plain_thread [98] []) 0))) =
    C @ [[98], [97]] @ D"
proof -
  let ?threads = "[plain_thread [97] [], plain_thread [98] []]"
  have "th_threadId ` set ?threads = {[97], [98]}" by (simp add: plain_thread_def)
  then have "strict_order_on (th_threadId ` set ?threads) unit_compare"
    by (simp add: strict_order_on_def unit_compare_def)
  then show ?thesis
    using reorder_places_thread [of ?threads "plain_thread [98] []" "plain_thread [97] []" 0 unit_compare PlaceBefore]
    by (auto simp: plain_thread_def sameThreadOrganizationOwner_def thread_section_of_def present_def
        order_of_def or_null_def or_default_def validThreadOrganizationValue_def isSafeInteger_def
        max_safe_integer_def MAX_THREAD_ORGANIZATION_VALUE_def place_ids_def)
qed

end
