(* ===== verification/TurnRecovery.thy ===== *)
theory TurnRecovery
  imports ThreadData
begin

text \<open>
  What a stored turn is repaired to: the status its last result proves
  (\<open>src/domain/agentTurnRestartRecovery.ts\<close>), and the subagent metadata its log restores
  (\<open>agentTurnLifecycleRestore.ts\<close>, \<open>agentLifecyclePersistence.ts\<close> and
  \<open>agentSubagentLifecycleLegacy.ts\<close>). The legacy form of the metadata has no batches, models or
  nested entries. Two records the parser built have one key order, so \<open>JSON.stringify\<close> of them is
  equal exactly when they are equal.
\<close>

section \<open>Results after a restart\<close>

text \<open>The loop runs from the last event to the first.\<close>

fun recovered_from :: "agent_turn_event list \<Rightarrow> turn_status option" where
  "recovered_from [] = None"
| "recovered_from (event # earlier) =
     (case event of
        Result r \<Rightarrow>
          if res_isError r then Some (TaskStatus (TaskFailed (js ''The provider reported a failed turn.'')))
          else Some (TaskStatus (TaskExited 0))
      | ContextUsage _ \<Rightarrow> recovered_from earlier
      | SubagentUsage _ _ \<Rightarrow> recovered_from earlier
      | _ \<Rightarrow> None)"

definition recoverAgentTurnResultStatus :: "agent_turn \<Rightarrow> turn_status option" where
  "recoverAgentTurnResultStatus turn =
     (if tn_status turn \<noteq> TaskStatus TaskRunning \<and> tn_status turn \<noteq> TaskStatus TaskPending \<and>
         tn_status turn \<noteq> TurnInterrupted then None
      else if (case tn_subagentLifecycle turn of
          None \<Rightarrow> False
        | Some lc \<Rightarrow> lc_truncated lc \<or> list_ex (\<lambda>e. le_state e = LcRunning) (lc_entries lc)) then None
      else recovered_from (rev (tn_events turn)))"

section \<open>The legacy form\<close>

definition LEGACY_SUBAGENT_LIFECYCLE_ROOT_KEYS :: "string list" where
  "LEGACY_SUBAGENT_LIFECYCLE_ROOT_KEYS = [''entries'', ''truncated'']"

definition LEGACY_SUBAGENT_LIFECYCLE_ENTRY_KEYS :: "string list" where
  "LEGACY_SUBAGENT_LIFECYCLE_ENTRY_KEYS =
     [''id'', ''toolId'', ''taskId'', ''agentThreadId'', ''name'', ''description'', ''state'',
      ''telemetryState'', ''resultState'', ''durationMs'', ''totalTokens'', ''steps'', ''lastToolName'']"

definition derivedState :: "lifecycle_entry \<Rightarrow> lifecycle_state" where
  "derivedState entry =
     (if le_resultState entry = Some LcFailed then LcFailed
      else if le_telemetryState entry = Some LcFailed then LcFailed
      else case coalesce (le_telemetryState entry) (le_resultState entry) of
        None \<Rightarrow> LcRunning | Some s \<Rightarrow> s)"

definition legacyEntry :: "lifecycle_entry \<Rightarrow> lifecycle_entry" where
  "legacyEntry entry =
     entry\<lparr>le_taskTitle := None, le_batchKey := None, le_nestedCount := None, le_parentToolId := None,
       le_model := None, le_effort := None, le_state := derivedState entry\<rparr>"

definition legacyAgentSubagentLifecycle :: "lifecycle \<Rightarrow> lifecycle" where
  "legacyAgentSubagentLifecycle lc =
     (let entries = map legacyEntry (filter (\<lambda>e. le_parentToolId e = None) (lc_entries lc)) in
      \<lparr>lc_entries = entries,
       lc_truncated = lc_truncated lc \<or> length entries \<noteq> length (lc_entries lc),
       lc_openBatchKey = None, lc_countedNestedToolIds = None\<rparr>)"

definition agentSubagentLifecycleHasRetainedDetail :: "lifecycle \<Rightarrow> bool" where
  "agentSubagentLifecycleHasRetainedDetail lc \<longleftrightarrow>
     lc_openBatchKey lc \<noteq> None \<or> lc_countedNestedToolIds lc \<noteq> None \<or>
     list_ex (\<lambda>e. le_model e \<noteq> None \<or> le_effort e \<noteq> None \<or> le_taskTitle e \<noteq> None \<or>
       le_batchKey e \<noteq> None \<or> le_nestedCount e \<noteq> None \<or> le_parentToolId e \<noteq> None) (lc_entries lc)"

definition hasOnlyKeys :: "(js_string \<times> jsval) list \<Rightarrow> string list \<Rightarrow> bool" where
  "hasOnlyKeys obj allowed \<longleftrightarrow> list_all (\<lambda>(key, v). key \<in> js ` set allowed) obj"

definition isLegacyAgentSubagentLifecycleShape :: "jsval \<Rightarrow> bool" where
  "isLegacyAgentSubagentLifecycleShape item \<longleftrightarrow>
     (case item of
        JObject obj \<Rightarrow>
          hasOnlyKeys obj LEGACY_SUBAGENT_LIFECYCLE_ROOT_KEYS \<and>
          (case js_get obj (js ''entries'') of
             JArray entries \<Rightarrow>
               list_all (\<lambda>entry. case entry of
                   JObject props \<Rightarrow> hasOnlyKeys props LEGACY_SUBAGENT_LIFECYCLE_ENTRY_KEYS
                 | _ \<Rightarrow> False) entries
           | _ \<Rightarrow> False)
      | _ \<Rightarrow> False)"

definition persistedAgentSubagentLifecycle :: "lifecycle option \<Rightarrow> lifecycle option" where
  "persistedAgentSubagentLifecycle lifecycle =
     (case lifecycle of
        None \<Rightarrow> None
      | Some lc \<Rightarrow>
          (case readAgentSubagentLifecycle (lifecycle_value (legacyAgentSubagentLifecycle lc)) of
             None \<Rightarrow> None
           | Some validated \<Rightarrow>
               if \<not> isLegacyAgentSubagentLifecycleShape (lifecycle_value validated) then None
               else Some validated))"

definition sameLegacyAgentSubagentLifecycle :: "lifecycle \<Rightarrow> lifecycle \<Rightarrow> bool" where
  "sameLegacyAgentSubagentLifecycle left right \<longleftrightarrow>
     (case (persistedAgentSubagentLifecycle (Some left), persistedAgentSubagentLifecycle (Some right)) of
        (Some a, Some b) \<Rightarrow> a = b
      | _ \<Rightarrow> False)"

definition compactPersistedAgentSubagentLifecycle :: "lifecycle \<Rightarrow> lifecycle option" where
  "compactPersistedAgentSubagentLifecycle lc =
     (case persistedAgentSubagentLifecycle (Some lc) of
        None \<Rightarrow> None
      | Some legacy \<Rightarrow>
          if length (lc_entries legacy) = 0 then None
          else Some \<lparr>lc_entries = [last (lc_entries legacy)], lc_truncated = True,
            lc_openBatchKey = None, lc_countedNestedToolIds = None\<rparr>)"

section \<open>Restoring from the log\<close>

definition restorableAgentTurnLifecycle :: "lifecycle option \<Rightarrow> lifecycle \<Rightarrow> lifecycle option" where
  "restorableAgentTurnLifecycle current logged =
     (case current of
        None \<Rightarrow> None
      | Some cur \<Rightarrow>
          if agentSubagentLifecycleHasRetainedDetail cur then None
          else case readAgentSubagentLifecycle (lifecycle_value logged) of
            None \<Rightarrow> None
          | Some validated \<Rightarrow>
              if (case compactPersistedAgentSubagentLifecycle validated of
                    None \<Rightarrow> False
                  | Some compacted \<Rightarrow> sameLegacyAgentSubagentLifecycle cur compacted \<and>
                      \<not> sameLegacyAgentSubagentLifecycle cur validated)
              then Some validated
              else if \<not> agentSubagentLifecycleHasRetainedDetail validated then None
              else if \<not> sameLegacyAgentSubagentLifecycle cur validated then None
              else Some validated)"

record lifecycle_subject =
  lsub_turnId :: js_string
  lsub_settled :: bool
  lsub_subagentLifecycle :: "lifecycle option"

record logged_lifecycle =
  ll_turnId :: js_string
  ll_lifecycle :: "lifecycle option"
  ll_lifecycleOmitted :: bool
  ll_sealed :: bool

type_synonym lifecycle_step = "js_string \<times> lifecycle"

record restore_plan =
  rp_restore :: "lifecycle_step list"
  rp_migrate :: "lifecycle_step list"

definition MAX_AGENT_TURN_LIFECYCLE_RESTORES_PER_THREAD :: nat where
  "MAX_AGENT_TURN_LIFECYCLE_RESTORES_PER_THREAD = 64"

definition agentThreadNeedsLoggedLifecycles :: "lifecycle_subject list \<Rightarrow> bool" where
  "agentThreadNeedsLoggedLifecycles turns \<longleftrightarrow>
     list_ex (\<lambda>turn. lsub_settled turn \<and> lsub_subagentLifecycle turn \<noteq> None) turns"

definition restore_step ::
  "(js_string, logged_lifecycle) js_map \<Rightarrow> restore_plan \<Rightarrow> lifecycle_subject \<Rightarrow> restore_plan" where
  "restore_step byTurn plan turn =
     (case lsub_subagentLifecycle turn of
        None \<Rightarrow> plan
      | Some current \<Rightarrow>
          if \<not> lsub_settled turn then plan
          else let entry = map_of byTurn (lsub_turnId turn) in
            if (case entry of None \<Rightarrow> False | Some e \<Rightarrow> ll_lifecycleOmitted e) then plan
            else case Option.bind entry ll_lifecycle of
              None \<Rightarrow>
                if (case entry of None \<Rightarrow> False | Some e \<Rightarrow> \<not> ll_sealed e) then plan
                else if agentSubagentLifecycleHasRetainedDetail current \<or> length (lc_entries current) > 1
                then plan\<lparr>rp_migrate := rp_migrate plan @ [(lsub_turnId turn, current)]\<rparr>
                else plan
            | Some stored \<Rightarrow>
                (case restorableAgentTurnLifecycle (Some current) stored of
                   None \<Rightarrow> plan
                 | Some restored \<Rightarrow> plan\<lparr>rp_restore := rp_restore plan @ [(lsub_turnId turn, restored)]\<rparr>))"

text \<open>\<open>new Map(logged.map(...))\<close> keeps the last entry of a turn; \<open>slice(-64)\<close> the last turns.\<close>

definition planAgentTurnLifecycleRestore ::
  "lifecycle_subject list \<Rightarrow> logged_lifecycle list \<Rightarrow> restore_plan" where
  "planAgentTurnLifecycleRestore turns logged =
     (let byTurn = foldl (\<lambda>m e. AList.update (ll_turnId e) e m) [] logged in
      foldl (restore_step byTurn) \<lparr>rp_restore = [], rp_migrate = []\<rparr>
        (drop (length turns - MAX_AGENT_TURN_LIFECYCLE_RESTORES_PER_THREAD) turns))"

section \<open>Properties\<close>

lemma read_sound: "readAgentSubagentLifecycle item = Some lc \<Longrightarrow> lifecycle_ok lc"
  using parsed_ok [of item lc] by (auto simp: readAgentSubagentLifecycle_def split: option.splits)

lemma recovered_terminal: "recovered_from events = Some status \<Longrightarrow> isTerminalAgentTurnStatus status"
  by (induction events rule: recovered_from.induct)
    (auto split: agent_turn_event.splits if_splits)

lemma recoverAgentTurnResultStatus_terminal:
  "recoverAgentTurnResultStatus turn = Some status \<Longrightarrow> isTerminalAgentTurnStatus status"
  by (auto simp: recoverAgentTurnResultStatus_def dest: recovered_terminal split: if_splits)

text \<open>
  Restoring logged subagent metadata into a stored turn is sound and done once. What is
  restored is well-formed metadata, read from the log; it never replaces metadata that still has
  its detail; and restoring the same log entry again changes nothing.
\<close>

theorem restore_once:
  assumes "restorableAgentTurnLifecycle (Some current) logged = Some restored"
  shows "lifecycle_ok restored \<and> \<not> agentSubagentLifecycleHasRetainedDetail current \<and>
    restorableAgentTurnLifecycle (Some restored) logged = None"
proof -
  have read: "readAgentSubagentLifecycle (lifecycle_value logged) = Some restored"
    and bare: "\<not> agentSubagentLifecycleHasRetainedDetail current"
    using assms by (auto simp: restorableAgentTurnLifecycle_def split: option.splits if_splits)
  have "\<not> (\<exists>compacted. compactPersistedAgentSubagentLifecycle restored = Some compacted \<and>
      sameLegacyAgentSubagentLifecycle restored compacted \<and> \<not> sameLegacyAgentSubagentLifecycle restored restored)"
    by (auto simp: sameLegacyAgentSubagentLifecycle_def split: option.splits)
  then have "restorableAgentTurnLifecycle (Some restored) logged = None"
    using read by (auto simp: restorableAgentTurnLifecycle_def split: option.splits)
  with read_sound [OF read] bare show ?thesis by simp
qed

lemma hasOnlyKeys_append [simp]:
  "hasOnlyKeys (a @ b) allowed \<longleftrightarrow> hasOnlyKeys a allowed \<and> hasOnlyKeys b allowed"
  by (simp add: hasOnlyKeys_def)

lemma hasOnlyKeys_field: "hasOnlyKeys (js_field k v) allowed \<longleftrightarrow> v = None \<or> k \<in> set allowed"
  by (cases v) (simp_all add: hasOnlyKeys_def js_field_def js_mem_image del: js_simps)

lemma legacyEntry_simps [simp]:
  "le_id (legacyEntry e) = le_id e" "le_toolId (legacyEntry e) = le_toolId e"
  "le_taskId (legacyEntry e) = le_taskId e" "le_agentThreadId (legacyEntry e) = le_agentThreadId e"
  "shares (legacyEntry a) (legacyEntry b) = shares a b" "has_identity (legacyEntry e) = has_identity e"
  by (simp_all add: legacyEntry_def shares_def has_identity_def)

lemma legacyEntry_ok: "entry_core e \<Longrightarrow> state_ok e \<Longrightarrow> entry_core (legacyEntry e) \<and> state_ok (legacyEntry e)"
  by (auto simp: entry_core_def state_ok_def legacyEntry_def derivedState_def lifecycleState_def)

lemma legacy_lifecycle_ok:
  assumes "lifecycle_ok lc"
  shows "lifecycle_ok (legacyAgentSubagentLifecycle lc)"
proof -
  let ?kept = "filter (\<lambda>e. le_parentToolId e = None) (lc_entries lc)"
  have "length ?kept \<le> 32"
    by (rule order_trans [OF length_filter_le]) (use assms in \<open>simp add: lifecycle_ok_def\<close>)
  moreover have "distinct (map le_id ?kept)" using assms by (simp add: lifecycle_ok_def distinct_map_filter)
  ultimately show ?thesis
    using assms legacyEntry_ok
    by (simp add: lifecycle_ok_def legacyAgentSubagentLifecycle_def Let_def comp_def)
qed

lemma legacy_shape: "isLegacyAgentSubagentLifecycleShape (lifecycle_value (legacyAgentSubagentLifecycle lc))"
proof -
  have entry: "\<exists>obj. entry_value (legacyEntry e) = JObject obj \<and>
      hasOnlyKeys obj LEGACY_SUBAGENT_LIFECYCLE_ENTRY_KEYS" for e
    by (simp add: entry_value_def hasOnlyKeys_field LEGACY_SUBAGENT_LIFECYCLE_ENTRY_KEYS_def legacyEntry_def
        del: js_simps)
  have "(case entry_value (legacyEntry e) of
      JObject props \<Rightarrow> hasOnlyKeys props LEGACY_SUBAGENT_LIFECYCLE_ENTRY_KEYS | _ \<Rightarrow> False)" for e
    using entry [of e] by auto
  then show ?thesis
    by (simp add: isLegacyAgentSubagentLifecycleShape_def lifecycle_value_def legacyAgentSubagentLifecycle_def
        Let_def hasOnlyKeys_field LEGACY_SUBAGENT_LIFECYCLE_ROOT_KEYS_def read_back list_all_iff
        del: js_simps)
qed

lemma persisted_legacy:
  "lifecycle_ok lc \<Longrightarrow> persistedAgentSubagentLifecycle (Some lc) = Some (legacyAgentSubagentLifecycle lc)"
  using parse_value [OF legacy_lifecycle_ok [of lc]] legacy_shape [of lc]
  by (simp add: persistedAgentSubagentLifecycle_def readAgentSubagentLifecycle_def)

lemma legacy_idem: "lifecycle_ok lc \<Longrightarrow>
    legacyAgentSubagentLifecycle (legacyAgentSubagentLifecycle lc) = legacyAgentSubagentLifecycle lc"
  by (auto simp: legacyAgentSubagentLifecycle_def Let_def comp_def legacyEntry_def derivedState_def
      filter_True cong: map_cong)

lemma legacy_no_detail: "\<not> agentSubagentLifecycleHasRetainedDetail (legacyAgentSubagentLifecycle lc)"
  by (simp add: agentSubagentLifecycleHasRetainedDetail_def legacyAgentSubagentLifecycle_def Let_def
      list_ex_iff legacyEntry_def)

definition detailed_lifecycle :: lifecycle where
  "detailed_lifecycle = sample_lifecycle\<lparr>lc_entries :=
     map (\<lambda>e. e\<lparr>le_model := Some [109]\<rparr>) (lc_entries sample_lifecycle)\<rparr>"

lemma detailed_lifecycle_ok: "lifecycle_ok detailed_lifecycle"
  by (simp add: detailed_lifecycle_def sample_lifecycle_def lifecycle_ok_def fresh_entry_def entry_core_def
      has_identity_def state_ok_def lifecycleState_def present_text_def bounded_text_def)

lemma restore_detail:
  assumes "lifecycle_ok lc" and "agentSubagentLifecycleHasRetainedDetail lc"
  shows "restorableAgentTurnLifecycle (Some (legacyAgentSubagentLifecycle lc)) lc = Some lc"
proof -
  have "sameLegacyAgentSubagentLifecycle (legacyAgentSubagentLifecycle lc) lc"
    using persisted_legacy [OF assms(1)] persisted_legacy [OF legacy_lifecycle_ok [OF assms(1)]]
      legacy_idem [OF assms(1)]
    by (simp add: sameLegacyAgentSubagentLifecycle_def)
  then show ?thesis
    using assms parse_value [OF assms(1)] legacy_no_detail [of lc]
    by (auto simp: restorableAgentTurnLifecycle_def readAgentSubagentLifecycle_def split: option.splits)
qed

lemma restore_once_witness: "restorableAgentTurnLifecycle (Some detailed_lifecycle) detailed_lifecycle = None"
proof -
  have "agentSubagentLifecycleHasRetainedDetail detailed_lifecycle"
    by (simp add: agentSubagentLifecycleHasRetainedDetail_def detailed_lifecycle_def sample_lifecycle_def)
  from restore_once [OF restore_detail [OF detailed_lifecycle_ok this]] show ?thesis by simp
qed

end
