(* ===== verification/ThreadStore.thy ===== *)
theory ThreadStore
  imports ThreadOrder TurnRecovery "HOL-Library.Monad_Syntax"
begin

text \<open>
  The store of agent threads and its reducer, \<open>agentThreadsReducer\<close> of
  \<open>src/domain/agentThread.ts\<close>, with \<open>requestAgentTurnHalt\<close> of \<open>agentTurnHaltRequest.ts\<close>. Each
  handler is one definition. Merging and capping the events of a turn are the functions of the
  event package; their result is an \<open>option\<close> (\<open>None\<close> would be a loop that never returns), so the
  handlers that use them are in the option monad.
\<close>

section \<open>Turns in the store\<close>

fun turn_index :: "js_string \<Rightarrow> agent_turn list \<Rightarrow> nat option" where
  "turn_index turnId [] = None"
| "turn_index turnId (t # ts) =
     (if tn_turnId t = turnId then Some 0 else map_option Suc (turn_index turnId ts))"

type_synonym turn_location = "agent_thread \<times> nat"

fun find_turn :: "agent_thread list \<Rightarrow> js_string \<Rightarrow> turn_location option" where
  "find_turn [] turnId = None"
| "find_turn (thread # threads) turnId =
     (case turn_index turnId (th_turns thread) of
        Some i \<Rightarrow> Some (thread, i)
      | None \<Rightarrow> find_turn threads turnId)"

definition findTurn :: "threads_state \<Rightarrow> js_string \<Rightarrow> turn_location option" where
  "findTurn state turnId = find_turn (map_values state) turnId"

definition findTurnInThread :: "threads_state \<Rightarrow> js_string \<Rightarrow> js_string \<Rightarrow> turn_location option" where
  "findTurnInThread state threadId turnId =
     (case map_of state threadId of
        None \<Rightarrow> None
      | Some thread \<Rightarrow> map_option (\<lambda>i. (thread, i)) (turn_index turnId (th_turns thread)))"

definition replaceThread :: "threads_state \<Rightarrow> agent_thread \<Rightarrow> threads_state" where
  "replaceThread state thread = AList.update (th_threadId thread) thread state"

text \<open>\<open>thread.turns.map((candidate, position) => position === index ? turn : candidate)\<close>.\<close>

definition set_turn :: "agent_thread \<Rightarrow> nat \<Rightarrow> agent_turn \<Rightarrow> agent_thread" where
  "set_turn thread index turn = thread\<lparr>th_turns := (th_turns thread)[index := turn]\<rparr>"

definition replaceTurn :: "threads_state \<Rightarrow> agent_thread \<Rightarrow> nat \<Rightarrow> agent_turn \<Rightarrow> int \<Rightarrow> threads_state" where
  "replaceTurn state thread index turn nowEpochMs =
     replaceThread state ((set_turn thread index turn)
       \<lparr>th_updatedAtEpochMs := max (th_updatedAtEpochMs thread) nowEpochMs\<rparr>)"

section \<open>Eviction\<close>

definition isEvictableThread :: "agent_thread \<Rightarrow> bool" where
  "isEvictableThread thread \<longleftrightarrow> (if th_pinned thread then False else runningTurn thread = None)"

definition compareThreadEvictionOrder :: "agent_thread \<Rightarrow> agent_thread \<Rightarrow> int" where
  "compareThreadEvictionOrder left right =
     (if th_updatedAtEpochMs left \<noteq> th_updatedAtEpochMs right
      then th_updatedAtEpochMs left - th_updatedAtEpochMs right
      else if js_less (th_threadId left) (th_threadId right) then -1
      else if js_less (th_threadId right) (th_threadId left) then 1
      else 0)"

definition threads_in_root :: "js_string \<Rightarrow> threads_state \<Rightarrow> agent_thread list" where
  "threads_in_root rootKey threads = filter (\<lambda>t. ow_rootKey (th_owner t) = rootKey) (map_values threads)"

fun evict_loop :: "nat \<Rightarrow> agent_thread list \<Rightarrow> threads_state \<Rightarrow> threads_state" where
  "evict_loop amount [] threads = threads"
| "evict_loop amount (thread # evictable) threads =
     (if amount \<le> MAX_AGENT_THREADS_PER_ROOT then threads
      else evict_loop (amount - 1) evictable (AList.delete (th_threadId thread) threads))"

definition evictThreadsForRoot :: "threads_state \<Rightarrow> js_string \<Rightarrow> threads_state" where
  "evictThreadsForRoot threads rootKey =
     (let inRoot = threads_in_root rootKey threads in
      if length inRoot \<le> MAX_AGENT_THREADS_PER_ROOT then threads
      else evict_loop (length inRoot)
        (js_sort compareThreadEvictionOrder (filter isEvictableThread inRoot)) threads)"

section \<open>Bounding the events of a turn\<close>

text \<open>A turn whose events and flags do not change is the same object, hence the same value.\<close>

definition boundAgentTurnEvents :: "agent_turn \<Rightarrow> agent_turn option" where
  "boundAgentTurnEvents turn =
     do { bounded \<leftarrow> capPersistedTurnEvents (tn_events turn);
          let trunc = tn_eventsTruncated turn \<or> retained_truncated bounded;
          if length (retained_events bounded) = length (tn_events turn) \<and>
             trunc = tn_eventsTruncated turn \<and> tn_streamMetrics turn \<noteq> None
          then Some turn
          else Some (turn\<lparr>tn_events := retained_events bounded, tn_eventsTruncated := trunc,
            tn_streamMetrics := Some (or_null (tn_streamMetrics turn))\<rparr>) }"

definition boundAgentThreadEvents :: "agent_thread \<Rightarrow> agent_thread option" where
  "boundAgentThreadEvents thread =
     do { turns \<leftarrow> p_all boundAgentTurnEvents (th_turns thread); Some (thread\<lparr>th_turns := turns\<rparr>) }"

definition interruptedStreamMetrics :: "stream_metrics option \<Rightarrow> stream_metrics option" where
  "interruptedStreamMetrics metrics =
     (case metrics of
        None \<Rightarrow> None
      | Some m \<Rightarrow> if sm_complete m then Some (m\<lparr>sm_complete := False\<rparr>) else Some m)"

definition mark_interrupted :: "agent_turn \<Rightarrow> agent_turn" where
  "mark_interrupted turn =
     (case recoverAgentTurnResultStatus turn of
        Some recovered \<Rightarrow> turn\<lparr>tn_status := recovered\<rparr>
      | None \<Rightarrow>
          if isTerminalAgentTurnStatus (tn_status turn) then turn
          else turn\<lparr>tn_status := TurnInterrupted,
            tn_streamMetrics := Some (interruptedStreamMetrics (or_null (tn_streamMetrics turn)))\<rparr>)"

definition markInterruptedTurns :: "agent_thread \<Rightarrow> agent_thread" where
  "markInterruptedTurns thread = thread\<lparr>th_turns := map mark_interrupted (th_turns thread)\<rparr>"

section \<open>Loading and creating threads\<close>

record load_owner =
  lo_rootKey :: js_string
  lo_ownerId :: js_string

definition keep_loaded :: "load_owner \<Rightarrow> js_string list option \<Rightarrow> agent_thread \<Rightarrow> js_string \<Rightarrow> bool" where
  "keep_loaded owner retainedIds thread threadId \<longleftrightarrow>
     ow_rootKey (th_owner thread) \<noteq> lo_rootKey owner \<or> runningTurn thread \<noteq> None \<or>
     (case retainedIds of None \<Rightarrow> False | Some ids \<Rightarrow> threadId \<in> set ids)"

fun add_loaded :: "load_owner \<Rightarrow> agent_thread list \<Rightarrow> threads_state \<Rightarrow> threads_state option" where
  "add_loaded owner [] threads = Some threads"
| "add_loaded owner (thread # loaded) threads =
     (if ow_rootKey (th_owner thread) \<noteq> lo_rootKey owner \<or>
         ow_ownerId (th_owner thread) \<noteq> lo_ownerId owner \<or>
         map_of threads (th_threadId thread) \<noteq> None
      then add_loaded owner loaded threads
      else do { bounded \<leftarrow> boundAgentThreadEvents (markInterruptedTurns thread);
                add_loaded owner loaded (AList.update (th_threadId thread) bounded threads) })"

definition loadThreads ::
  "threads_state \<Rightarrow> load_owner \<Rightarrow> agent_thread list \<Rightarrow> js_string list option \<Rightarrow> threads_state option" where
  "loadThreads state owner loaded retainedIds =
     do { let kept = foldl (\<lambda>threads (threadId, thread).
                if keep_loaded owner retainedIds thread threadId
                then AList.update threadId thread threads else threads) [] state;
          threads \<leftarrow> add_loaded owner loaded kept;
          Some (evictThreadsForRoot threads (lo_rootKey owner)) }"

definition createThread :: "threads_state \<Rightarrow> agent_thread \<Rightarrow> threads_state option" where
  "createThread state thread =
     (if map_of state (th_threadId thread) \<noteq> None then Some state
      else if list_ex (\<lambda>t. findTurn state (tn_turnId t) \<noteq> None) (th_turns thread) then Some state
      else do { bounded \<leftarrow> boundAgentThreadEvents thread;
                Some (evictThreadsForRoot (AList.update (th_threadId thread) bounded state)
                  (ow_rootKey (th_owner thread))) })"

definition openHistoryThread ::
  "threads_state \<Rightarrow> agent_thread \<Rightarrow> js_string option \<Rightarrow> threads_state option" where
  "openHistoryThread state thread evictThreadId =
     (if map_of state (th_threadId thread) \<noteq> None then Some state
      else
        let cleared = (case evictThreadId of
              None \<Rightarrow> Some state
            | Some evictId \<Rightarrow>
                (case map_of state evictId of
                   None \<Rightarrow> None
                 | Some victim \<Rightarrow>
                     if ow_rootKey (th_owner victim) \<noteq> ow_rootKey (th_owner thread) then None
                     else if \<not> isEvictableThread victim then None
                     else Some (AList.delete (th_threadId victim) state)))
        in case cleared of
          None \<Rightarrow> Some state
        | Some threads \<Rightarrow>
            if length (threads_in_root (ow_rootKey (th_owner thread)) threads) \<ge> MAX_AGENT_THREADS_PER_ROOT
            then Some state
            else if list_ex (\<lambda>t. findTurn threads (tn_turnId t) \<noteq> None) (th_turns thread) then Some state
            else do { bounded \<leftarrow> boundAgentThreadEvents (markInterruptedTurns thread);
                      Some (AList.update (th_threadId thread) bounded threads) })"

definition evictHistoryThread :: "threads_state \<Rightarrow> js_string \<Rightarrow> threads_state" where
  "evictHistoryThread state threadId =
     (case map_of state threadId of
        None \<Rightarrow> state
      | Some thread \<Rightarrow> if \<not> isEvictableThread thread then state else AList.delete threadId state)"

definition loadExternalHistory ::
  "threads_state \<Rightarrow> js_string \<Rightarrow> thread_owner \<Rightarrow> external_history \<Rightarrow> threads_state" where
  "loadExternalHistory state threadId owner history =
     (case map_of state threadId of
        None \<Rightarrow> state
      | Some thread \<Rightarrow>
          (case th_externalOrigin thread of
             None \<Rightarrow> state
           | Some origin \<Rightarrow>
               if ow_rootKey (th_owner thread) \<noteq> ow_rootKey owner \<or>
                  ow_ownerId (th_owner thread) \<noteq> ow_ownerId owner \<or>
                  ow_repositoryRoot (th_owner thread) \<noteq> ow_repositoryRoot owner \<or>
                  eo_provider origin \<noteq> eh_provider history \<or>
                  eo_sessionId origin \<noteq> eh_sessionId history \<or>
                  eo_history origin \<noteq> None
               then state
               else replaceThread state
                 (thread\<lparr>th_externalOrigin := Some (origin\<lparr>eo_history := Some history\<rparr>)\<rparr>)))"

section \<open>Placing turns\<close>

definition first_terminal :: "agent_turn list \<Rightarrow> nat option" where
  "first_terminal turns =
     (let i = find_index (\<lambda>t. isTerminalAgentTurnStatus (tn_status t)) turns in
      if i < length turns then Some i else None)"

definition retainTurnsForNewTurn :: "agent_thread \<Rightarrow> (agent_turn list \<times> bool) option" where
  "retainTurnsForNewTurn thread =
     (if length (th_turns thread) < MAX_AGENT_TURNS_PER_THREAD then Some (th_turns thread, False)
      else case first_terminal (th_turns thread) of
        None \<Rightarrow> None
      | Some oldest \<Rightarrow>
          Some (take oldest (th_turns thread) @ drop (Suc oldest) (th_turns thread), True))"

text \<open>\<open>field != null ? { field: null } : {}\<close>.\<close>

definition clear_present :: "'a option option \<Rightarrow> 'a option option" where
  "clear_present field = (if present field then Some None else field)"

definition placeTurn ::
  "threads_state \<Rightarrow> agent_thread \<Rightarrow> agent_turn \<Rightarrow> int \<Rightarrow>
     (agent_turn list \<Rightarrow> agent_turn \<Rightarrow> agent_turn list) \<Rightarrow> threads_state option" where
  "placeTurn state thread turn atEpochMs place =
     (if th_archived thread then Some state
      else if findTurn state (tn_turnId turn) \<noteq> None then Some state
      else case retainTurnsForNewTurn thread of
        None \<Rightarrow> Some state
      | Some (turns, evicted) \<Rightarrow>
          do { bounded \<leftarrow> boundAgentTurnEvents turn;
               Some (replaceThread state
                 (thread\<lparr>th_snoozedUntil := clear_present (th_snoozedUntil thread),
                   th_settledAt := clear_present (th_settledAt thread),
                   th_turns := place turns bounded,
                   th_turnsTruncated := th_turnsTruncated thread \<or> evicted,
                   th_updatedAtEpochMs := max (th_updatedAtEpochMs thread) atEpochMs\<rparr>)) })"

definition appendTurn :: "threads_state \<Rightarrow> agent_thread \<Rightarrow> agent_turn \<Rightarrow> int \<Rightarrow> threads_state option" where
  "appendTurn state thread turn atEpochMs =
     (if runningTurn thread \<noteq> None then Some state
      else placeTurn state thread turn atEpochMs (\<lambda>turns placed. turns @ [placed]))"

text \<open>The anchor is the running turn, which is never the turn evicted, so it is always found.\<close>

definition insertTurnBefore ::
  "threads_state \<Rightarrow> agent_thread \<Rightarrow> agent_turn \<Rightarrow> agent_turn \<Rightarrow> int \<Rightarrow> threads_state option" where
  "insertTurnBefore state thread anchor turn atEpochMs =
     placeTurn state thread turn atEpochMs
       (\<lambda>turns placed.
          let index = find_index (\<lambda>t. tn_turnId t = tn_turnId anchor) turns in
          take index turns @ [placed] @ drop index turns)"

definition startTurn :: "threads_state \<Rightarrow> js_string \<Rightarrow> agent_turn \<Rightarrow> threads_state option" where
  "startTurn state threadId turn =
     (case map_of state threadId of
        None \<Rightarrow> Some state
      | Some thread \<Rightarrow> appendTurn state thread turn (tn_startedAtEpochMs turn))"

definition recordBackgroundTurn ::
  "threads_state \<Rightarrow> js_string \<Rightarrow> js_string \<Rightarrow> agent_turn \<Rightarrow> threads_state option" where
  "recordBackgroundTurn state threadId workspaceId turn =
     (case map_of state threadId of
        None \<Rightarrow> Some state
      | Some thread \<Rightarrow>
          if ow_ownerId (th_owner thread) \<noteq> workspaceId then Some state
          else if tn_origin turn \<noteq> Some BackgroundOrigin \<or> \<not> isTerminalAgentTurnStatus (tn_status turn)
          then Some state
          else let atEpochMs = or_default (tn_endedAtEpochMs turn) (tn_startedAtEpochMs turn) in
            case runningTurn thread of
              None \<Rightarrow> appendTurn state thread turn atEpochMs
            | Some running \<Rightarrow> insertTurnBefore state thread running turn atEpochMs)"

end
