(* ===== verification/ThreadReducer.thy ===== *)
theory ThreadReducer
  imports ThreadStore
begin

text \<open>
  The second half of the reducer of \<open>src/domain/agentThread.ts\<close>: the handlers that change a
  turn (status, output, steering, interruption, halting, hydration), those that change a thread,
  the actions and \<open>agentThreadsReducer\<close> itself.
\<close>

section \<open>Status events\<close>

definition acceptedTaskStatusLocation ::
  "threads_state \<Rightarrow> js_string \<Rightarrow> task_status_event \<Rightarrow> turn_location option" where
  "acceptedTaskStatusLocation state threadId event =
     (case findTurnInThread state threadId (tse_taskId event) of
        None \<Rightarrow> None
      | Some (thread, index) \<Rightarrow>
          let turn = th_turns thread ! index in
          if tse_workspaceId event \<noteq> ow_ownerId (th_owner thread) then None
          else if tse_repositoryRoot event \<noteq> ow_repositoryRoot (th_owner thread) then None
          else if tse_isolation event \<noteq> tg_isolation (th_target thread) then None
          else if tse_worktreePath event \<noteq> tg_worktreePath (th_target thread) then None
          else if isTerminalAgentTurnStatus (tn_status turn) then None
          else if tse_sequence event \<le> tn_lastStatusSequence turn then None
          else Some (thread, index))"

definition agentTaskStatusActionAccepted :: "threads_state \<Rightarrow> js_string \<Rightarrow> task_status_event \<Rightarrow> bool" where
  "agentTaskStatusActionAccepted state threadId event \<longleftrightarrow>
     acceptedTaskStatusLocation state threadId event \<noteq> None"

definition applyTurnStatusEvent ::
  "threads_state \<Rightarrow> js_string \<Rightarrow> task_status_event \<Rightarrow> int \<Rightarrow> threads_state" where
  "applyTurnStatusEvent state threadId event nowEpochMs =
     (case acceptedTaskStatusLocation state threadId event of
        None \<Rightarrow> state
      | Some (thread, index) \<Rightarrow>
          let turn = th_turns thread ! index;
              terminal = isTerminalAgentTaskStatus (tse_status event)
          in replaceTurn state thread index
               (turn\<lparr>tn_status := TaskStatus (tse_status event),
                 tn_lastStatusSequence := tse_sequence event,
                 tn_endedAtEpochMs := (if terminal then Some nowEpochMs else tn_endedAtEpochMs turn)\<rparr>)
               nowEpochMs)"

section \<open>Output\<close>

record append_action =
  ap_threadId :: js_string
  ap_turnId :: js_string
  ap_workspaceId :: js_string
  ap_repositoryRoot :: js_string
  ap_isolation :: task_isolation
  ap_worktreePath :: "js_string option"
  ap_outputSequence :: int
  ap_events :: "agent_turn_event list"
  ap_sessionId :: "js_string option"
  ap_sessionFallback :: "session_fallback option"
  ap_supervisorTruncated :: bool
  ap_streamMetricsDelta :: "stream_metrics option option"

definition validStreamMetricBytes :: "int \<Rightarrow> bool" where
  "validStreamMetricBytes n \<longleftrightarrow> isSafeInteger n \<and> n \<ge> 0"

definition mergeAgentTurnStreamMetrics ::
  "stream_metrics option \<Rightarrow> stream_metrics option \<Rightarrow> stream_metrics option" where
  "mergeAgentTurnStreamMetrics current delta =
     (case delta of
        None \<Rightarrow> current
      | Some d \<Rightarrow>
          if \<not> validStreamMetricBytes (sm_receivedUtf8Bytes d)
          then map_option (\<lambda>c. c\<lparr>sm_complete := False\<rparr>) current
          else case current of
            None \<Rightarrow> Some d
          | Some c \<Rightarrow>
              if \<not> validStreamMetricBytes (sm_receivedUtf8Bytes c) then None
              else let received = sm_receivedUtf8Bytes c + sm_receivedUtf8Bytes d in
                if \<not> validStreamMetricBytes received then Some (c\<lparr>sm_complete := False\<rparr>)
                else Some \<lparr>sm_receivedUtf8Bytes = received,
                  sm_complete = sm_complete c \<and> sm_complete d\<rparr>)"

text \<open>The body of the loop of \<open>queueDeliveryProgress\<close> over the pair it returns.\<close>

definition delivery_step :: "int \<Rightarrow> int \<Rightarrow> int \<times> bool \<Rightarrow> agent_turn_event \<Rightarrow> int \<times> bool" where
  "delivery_step initialBoundary outputSequence progress event =
     (case event of
        Result r \<Rightarrow> (if res_isError r then initialBoundary else outputSequence, \<not> res_isError r)
      | ToolResult r \<Rightarrow>
          if tr_parentToolId r = None then (outputSequence, snd progress) else progress
      | UserMessage _ \<Rightarrow> (fst progress, False)
      | AssistantText _ parent \<Rightarrow> if parent = None then (fst progress, False) else progress
      | ToolCall call \<Rightarrow> if tc_parentToolId call = None then (fst progress, False) else progress
      | _ \<Rightarrow> progress)"

definition queueDeliveryProgress :: "agent_turn \<Rightarrow> agent_turn_event list \<Rightarrow> int \<Rightarrow> int \<times> bool" where
  "queueDeliveryProgress turn events outputSequence =
     foldl (delivery_step (or_default (tn_queueBoundarySequence turn) 0) outputSequence)
       (or_default (tn_queueBoundarySequence turn) 0, or_default (tn_foregroundSettled turn) False) events"

definition provider_after_append :: "agent_thread \<Rightarrow> agent_turn \<Rightarrow> append_action \<Rightarrow> provider_session" where
  "provider_after_append thread turn action =
     (let ordinary = agentProviderSessionAfterReport (th_provider thread) (ap_sessionId action) in
      case ap_sessionFallback action of
        None \<Rightarrow> ordinary
      | Some fallback \<Rightarrow>
          if ps_kind (th_provider thread) = Codex \<and> tn_codexTransport turn = Some AppServerTransport \<and>
             Some (sf_previousThreadId fallback) = ps_sessionId (th_provider thread) \<and>
             Some (sf_threadId fallback) = ap_sessionId action \<and>
             sf_previousThreadId fallback \<noteq> sf_threadId fallback \<and>
             isAgentSessionId (sf_previousThreadId fallback) \<and> isAgentSessionId (sf_threadId fallback)
          then (th_provider thread)\<lparr>ps_sessionId := Some (sf_threadId fallback)\<rparr>
          else ordinary)"

definition appended_turn :: "agent_turn \<Rightarrow> append_action \<Rightarrow> agent_turn option" where
  "appended_turn turn action =
     do { merged \<leftarrow> mergeTurnEvents (tn_events turn) (ap_events action);
          let progress = queueDeliveryProgress turn (ap_events action) (ap_outputSequence action);
          Some (turn\<lparr>tn_events := retained_events merged,
            tn_eventsTruncated := tn_eventsTruncated turn \<or> retained_truncated merged \<or>
              ap_supervisorTruncated action,
            tn_lastOutputSequence := ap_outputSequence action,
            tn_queueBoundarySequence := Some (fst progress),
            tn_foregroundSettled := Some (snd progress),
            tn_subagentLifecycle := retainAgentSubagentLifecycle
              (coalesce (tn_subagentLifecycle turn) (retainAgentSubagentLifecycle None (tn_events turn)))
              (ap_events action),
            tn_streamMetrics := Some (mergeAgentTurnStreamMetrics (or_null (tn_streamMetrics turn))
              (or_null (ap_streamMetricsDelta action)))\<rparr>) }"

definition appendTurnEvents :: "threads_state \<Rightarrow> append_action \<Rightarrow> threads_state option" where
  "appendTurnEvents state action =
     (case findTurnInThread state (ap_threadId action) (ap_turnId action) of
        None \<Rightarrow> Some state
      | Some (thread, index) \<Rightarrow>
          let turn = th_turns thread ! index in
          if ap_workspaceId action \<noteq> ow_ownerId (th_owner thread) then Some state
          else if ap_repositoryRoot action \<noteq> ow_repositoryRoot (th_owner thread) then Some state
          else if ap_isolation action \<noteq> tg_isolation (th_target thread) then Some state
          else if ap_worktreePath action \<noteq> tg_worktreePath (th_target thread) then Some state
          else if isTerminalAgentTurnStatus (tn_status turn) then Some state
          else if ap_outputSequence action \<le> tn_lastOutputSequence turn then Some state
          else do { updated \<leftarrow> appended_turn turn action;
                    Some (replaceThread state
                      ((set_turn thread index updated)\<lparr>th_provider := provider_after_append thread turn action\<rparr>)) })"

section \<open>Steering\<close>

definition steerCount :: "agent_turn \<Rightarrow> nat" where
  "steerCount turn = foldl (\<lambda>total event. if is_user_message event then total + 1 else total) 0 (tn_events turn)"

definition agentTurnEventsUtf8Bytes :: "agent_turn_event list \<Rightarrow> nat" where
  "agentTurnEventsUtf8Bytes events = foldl (\<lambda>total event. total + agentTurnEventUtf8Bytes event) 0 events"

definition agentTurnAcceptsSteerBytes :: "agent_turn \<Rightarrow> int \<Rightarrow> bool" where
  "agentTurnAcceptsSteerBytes turn bytes \<longleftrightarrow>
     (if \<not> isSafeInteger bytes \<or> bytes < 0 then False
      else let messages = filter is_user_message (tn_events turn) in
        if length messages \<ge> MAX_AGENT_STEERS_PER_TURN then False
        else int (agentTurnEventsUtf8Bytes messages) + bytes \<le> int MAX_AGENT_STEER_BYTES_PER_TURN)"

definition appendSteeredMessage ::
  "threads_state \<Rightarrow> js_string \<Rightarrow> js_string \<Rightarrow> user_message \<Rightarrow> threads_state option" where
  "appendSteeredMessage state threadId turnId event =
     (case findTurnInThread state threadId turnId of
        None \<Rightarrow> Some state
      | Some (thread, index) \<Rightarrow>
          let turn = th_turns thread ! index in
          if isTerminalAgentTurnStatus (tn_status turn) then Some state
          else if utf8ByteLength (um_text event) > MAX_AGENT_EVENT_TEXT_BYTES then Some state
          else if \<not> agentTurnAcceptsSteerBytes turn (int (agentTurnEventUtf8Bytes (UserMessage event)))
          then Some state
          else do { merged \<leftarrow> mergeTurnEvents (tn_events turn) [UserMessage event];
                    Some (replaceThread state (set_turn thread index
                      (turn\<lparr>tn_events := retained_events merged,
                        tn_foregroundSettled := Some False,
                        tn_eventsTruncated := tn_eventsTruncated turn \<or> retained_truncated merged\<rparr>))) })"

section \<open>Interrupting and halting\<close>

definition interruptTurn :: "threads_state \<Rightarrow> js_string \<Rightarrow> int \<Rightarrow> threads_state" where
  "interruptTurn state turnId nowEpochMs =
     (case findTurn state turnId of
        None \<Rightarrow> state
      | Some (thread, index) \<Rightarrow>
          let turn = th_turns thread ! index in
          if isTerminalAgentTurnStatus (tn_status turn) then state
          else replaceTurn state thread index
            (turn\<lparr>tn_status := TurnInterrupted, tn_endedAtEpochMs := Some nowEpochMs,
              tn_streamMetrics := Some (interruptedStreamMetrics (or_null (tn_streamMetrics turn)))\<rparr>)
            nowEpochMs)"

record halt_intent =
  hi_threadId :: js_string
  hi_ownerId :: js_string
  hi_turnId :: js_string
  hi_attempt :: halt_attempt

definition haltedTurn :: "agent_turn \<Rightarrow> halt_record option \<Rightarrow> agent_turn" where
  "haltedTurn turn haltRequest =
     (case haltRequest of
        None \<Rightarrow> turn\<lparr>tn_haltRequested := Some True\<rparr>
      | Some r \<Rightarrow> turn\<lparr>tn_haltRequested := Some True, tn_haltRequest := Some r\<rparr>)"

text \<open>The record is the same object exactly when it is the same value: a new one always differs.\<close>

definition requestAgentTurnHalt :: "threads_state \<Rightarrow> halt_intent \<Rightarrow> threads_state" where
  "requestAgentTurnHalt state request =
     (case map_of state (hi_threadId request) of
        None \<Rightarrow> state
      | Some thread \<Rightarrow>
          if ow_ownerId (th_owner thread) \<noteq> hi_ownerId request then state
          else case turn_index (hi_turnId request) (th_turns thread) of
            None \<Rightarrow> state
          | Some index \<Rightarrow>
              let turn = th_turns thread ! index in
              if isTerminalAgentTurnStatus (tn_status turn) then state
              else let haltRequest = recordAgentTurnHalt (tn_haltRequest turn) (hi_attempt request) in
                if tn_haltRequested turn = Some True \<and> haltRequest = tn_haltRequest turn then state
                else replaceThread state (set_turn thread index (haltedTurn turn haltRequest)))"

section \<open>Hydration and repair\<close>

definition hydratedEventOffset :: "agent_turn \<Rightarrow> nat \<Rightarrow> int" where
  "hydratedEventOffset turn hydratedLength =
     (let previous = or_default (tn_firstEventOffset turn) 0;
          base = (if isSafeInteger previous \<and> previous \<le> 0 then previous else 0);
          prepended = int hydratedLength - int (length (tn_events turn))
      in if \<not> isSafeInteger prepended then base
         else if prepended \<le> 0 then base
         else let shifted = base - prepended in if \<not> isSafeInteger shifted then base else shifted)"

definition hydrateTurn ::
  "threads_state \<Rightarrow> js_string \<Rightarrow> js_string \<Rightarrow> agent_turn_event list \<Rightarrow> bool \<Rightarrow> threads_state option" where
  "hydrateTurn state threadId turnId events hasEarlier =
     (case findTurnInThread state threadId turnId of
        None \<Rightarrow> Some state
      | Some (thread, index) \<Rightarrow>
          let turn = th_turns thread ! index in
          if \<not> isTerminalAgentTurnStatus (tn_status turn) then Some state
          else do { bounded \<leftarrow> capPersistedTurnEvents events;
                    let offset = hydratedEventOffset turn (length (retained_events bounded));
                    Some (replaceThread state (set_turn thread index
                      (turn\<lparr>tn_events := retained_events bounded,
                        tn_eventsTruncated := hasEarlier \<or> retained_truncated bounded,
                        tn_firstEventOffset :=
                          (if offset = 0 then tn_firstEventOffset turn else Some offset)\<rparr>))) })"

definition isRestorableAgentPrompt :: "js_string \<Rightarrow> bool" where
  "isRestorableAgentPrompt prompt \<longleftrightarrow>
     (if length prompt = 0 then False
      else if 0 \<in> set prompt then False
      else utf8ByteLength prompt \<le> MAX_AGENT_TASK_PROMPT_BYTES)"

definition restoreTurnPrompt :: "threads_state \<Rightarrow> js_string \<Rightarrow> js_string \<Rightarrow> js_string \<Rightarrow> threads_state" where
  "restoreTurnPrompt state threadId turnId prompt =
     (if \<not> isRestorableAgentPrompt prompt then state
      else case findTurnInThread state threadId turnId of
        None \<Rightarrow> state
      | Some (thread, index) \<Rightarrow>
          let turn = th_turns thread ! index in
          if \<not> isTerminalAgentTurnStatus (tn_status turn) then state
          else replaceThread state (set_turn thread index
            (turn\<lparr>tn_prompt := prompt, tn_promptRestored := Some True\<rparr>)))"

definition restoreTurnLifecycle :: "threads_state \<Rightarrow> js_string \<Rightarrow> js_string \<Rightarrow> lifecycle \<Rightarrow> threads_state" where
  "restoreTurnLifecycle state threadId turnId logged =
     (case findTurnInThread state threadId turnId of
        None \<Rightarrow> state
      | Some (thread, index) \<Rightarrow>
          let turn = th_turns thread ! index in
          if \<not> isTerminalAgentTurnStatus (tn_status turn) then state
          else case restorableAgentTurnLifecycle (tn_subagentLifecycle turn) logged of
            None \<Rightarrow> state
          | Some restored \<Rightarrow> replaceThread state (set_turn thread index
              (turn\<lparr>tn_subagentLifecycle := Some restored\<rparr>)))"

section \<open>Threads\<close>

definition recordIntegration :: "threads_state \<Rightarrow> js_string \<Rightarrow> thread_integration \<Rightarrow> threads_state" where
  "recordIntegration state threadId integration =
     (case map_of state threadId of
        None \<Rightarrow> state
      | Some thread \<Rightarrow>
          if th_archived thread then state
          else replaceThread state (thread\<lparr>th_integration := Some integration,
            th_updatedAtEpochMs := th_updatedAtEpochMs thread + 1\<rparr>))"

definition markThreadViewed :: "threads_state \<Rightarrow> js_string \<Rightarrow> int \<Rightarrow> threads_state" where
  "markThreadViewed state threadId atEpochMs =
     (case map_of state threadId of
        None \<Rightarrow> state
      | Some thread \<Rightarrow>
          if \<not> isSafeInteger atEpochMs \<or> atEpochMs < 0 then state
          else if (case th_viewedAtEpochMs thread of None \<Rightarrow> False | Some viewed \<Rightarrow> atEpochMs \<le> viewed)
          then state
          else replaceThread state (thread\<lparr>th_viewedAtEpochMs := Some atEpochMs\<rparr>))"

definition markThreadUnread :: "threads_state \<Rightarrow> js_string \<Rightarrow> threads_state" where
  "markThreadUnread state threadId =
     (case map_of state threadId of
        None \<Rightarrow> state
      | Some thread \<Rightarrow>
          if th_viewedAtEpochMs thread = None then state
          else replaceThread state (thread\<lparr>th_viewedAtEpochMs := None\<rparr>))"

definition renameThread :: "threads_state \<Rightarrow> js_string \<Rightarrow> js_string \<Rightarrow> threads_state" where
  "renameThread state threadId raw =
     (case map_of state threadId of
        None \<Rightarrow> state
      | Some thread \<Rightarrow>
          (case normalizeAgentThreadTitle raw of
             None \<Rightarrow> state
           | Some title \<Rightarrow>
               if title = th_title thread then state
               else replaceThread state (thread\<lparr>th_title := title\<rparr>)))"

definition rebindOwner :: "threads_state \<Rightarrow> js_string \<Rightarrow> js_string \<Rightarrow> thread_owner \<Rightarrow> threads_state" where
  "rebindOwner state threadId previousOwnerId owner =
     (case map_of state threadId of
        None \<Rightarrow> state
      | Some thread \<Rightarrow>
          if runningTurn thread \<noteq> None then state
          else if ow_ownerId (th_owner thread) \<noteq> previousOwnerId then state
          else if ow_rootKey (th_owner thread) \<noteq> ow_rootKey owner then state
          else if ow_repositoryRoot (th_owner thread) \<noteq> ow_repositoryRoot owner then state
          else if js_trim (ow_ownerId owner) = [] then state
          else if ow_ownerId (th_owner thread) = ow_ownerId owner then state
          else replaceThread state (thread\<lparr>th_owner := owner\<rparr>))"

definition togglePin :: "threads_state \<Rightarrow> js_string \<Rightarrow> threads_state" where
  "togglePin state threadId =
     (case map_of state threadId of
        None \<Rightarrow> state
      | Some thread \<Rightarrow> replaceThread state (thread\<lparr>th_pinned := \<not> th_pinned thread\<rparr>))"

definition archiveThread :: "threads_state \<Rightarrow> js_string \<Rightarrow> threads_state" where
  "archiveThread state threadId =
     (case map_of state threadId of
        None \<Rightarrow> state
      | Some thread \<Rightarrow>
          if th_archived thread then state
          else if runningTurn thread \<noteq> None then state
          else replaceThread state (thread\<lparr>th_archived := True\<rparr>))"

definition unarchiveThread :: "threads_state \<Rightarrow> js_string \<Rightarrow> threads_state" where
  "unarchiveThread state threadId =
     (case map_of state threadId of
        None \<Rightarrow> state
      | Some thread \<Rightarrow>
          if \<not> th_archived thread then state
          else replaceThread state (thread\<lparr>th_archived := False\<rparr>))"

definition invalidateProviderSession ::
  "threads_state \<Rightarrow> js_string \<Rightarrow> thread_owner \<Rightarrow> js_string \<Rightarrow> threads_state" where
  "invalidateProviderSession state threadId owner sessionId =
     (case map_of state threadId of
        None \<Rightarrow> state
      | Some thread \<Rightarrow>
          if ow_ownerId (th_owner thread) \<noteq> ow_ownerId owner then state
          else if ow_rootKey (th_owner thread) \<noteq> ow_rootKey owner then state
          else if ow_repositoryRoot (th_owner thread) \<noteq> ow_repositoryRoot owner then state
          else if ps_sessionId (th_provider thread) \<noteq> Some sessionId then state
          else replaceThread state
            (thread\<lparr>th_provider := (th_provider thread)\<lparr>ps_sessionId := None\<rparr>\<rparr>))"

definition deleteThread :: "threads_state \<Rightarrow> js_string \<Rightarrow> threads_state" where
  "deleteThread state threadId =
     (case map_of state threadId of
        None \<Rightarrow> state
      | Some thread \<Rightarrow>
          if runningTurn thread \<noteq> None then state else AList.delete threadId state)"

definition releaseOwner :: "threads_state \<Rightarrow> js_string \<Rightarrow> threads_state" where
  "releaseOwner state ownerId =
     (let threads = foldl (\<lambda>threads (threadId, thread).
            if ow_ownerId (th_owner thread) = ownerId \<and> runningTurn thread = None then threads
            else AList.update threadId thread threads) [] state
      in if length threads = length state then state else threads)"

section \<open>The reducer\<close>

datatype threads_action =
    ThreadOrganizationUpdated js_string thread_owner organization_patch
  | ThreadReordered js_string thread_owner js_string placement "drop_section option" int
  | Loaded load_owner "agent_thread list" "js_string list option"
  | ThreadCreated agent_thread
  | HistoryThreadEvicted js_string
  | HistoryThreadOpened agent_thread "js_string option"
  | ExternalHistoryLoaded js_string thread_owner external_history
  | TurnStarted js_string agent_turn
  | BackgroundTurnRecorded js_string js_string agent_turn
  | TaskStatusReported js_string task_status_event int
  | TurnEventsAppended append_action
  | TurnSteered js_string js_string user_message
  | TurnInterruptRequested js_string int
  | TurnHaltRequested halt_intent
  | TurnHydrated js_string js_string "agent_turn_event list" bool
  | TurnPromptRestored js_string js_string js_string
  | TurnLifecycleRestored js_string js_string lifecycle
  | IntegrationRecorded js_string thread_integration
  | ThreadViewed js_string int
  | ThreadMarkedUnread js_string
  | ThreadRenamed js_string js_string
  | OwnerRebound js_string js_string thread_owner
  | PinToggled js_string
  | ArchiveRequested js_string
  | UnarchiveRequested js_string
  | ProviderSessionInvalidated js_string thread_owner js_string
  | DeleteRequested js_string
  | OwnerReleased js_string

fun agentThreadsReducer ::
  "(js_string \<Rightarrow> js_string \<Rightarrow> int) \<Rightarrow> threads_state \<Rightarrow> threads_action \<Rightarrow> threads_state option" where
  "agentThreadsReducer lc state (Loaded owner threads retainedIds) = loadThreads state owner threads retainedIds"
| "agentThreadsReducer lc state (ThreadCreated thread) = createThread state thread"
| "agentThreadsReducer lc state (HistoryThreadOpened thread evictId) = openHistoryThread state thread evictId"
| "agentThreadsReducer lc state (HistoryThreadEvicted threadId) = Some (evictHistoryThread state threadId)"
| "agentThreadsReducer lc state (ExternalHistoryLoaded threadId owner history) =
     Some (loadExternalHistory state threadId owner history)"
| "agentThreadsReducer lc state (TurnStarted threadId turn) = startTurn state threadId turn"
| "agentThreadsReducer lc state (BackgroundTurnRecorded threadId workspaceId turn) =
     recordBackgroundTurn state threadId workspaceId turn"
| "agentThreadsReducer lc state (TaskStatusReported threadId event now) =
     Some (applyTurnStatusEvent state threadId event now)"
| "agentThreadsReducer lc state (TurnEventsAppended action) = appendTurnEvents state action"
| "agentThreadsReducer lc state (TurnSteered threadId turnId event) =
     appendSteeredMessage state threadId turnId event"
| "agentThreadsReducer lc state (TurnInterruptRequested turnId now) = Some (interruptTurn state turnId now)"
| "agentThreadsReducer lc state (TurnHaltRequested request) = Some (requestAgentTurnHalt state request)"
| "agentThreadsReducer lc state (TurnHydrated threadId turnId events hasEarlier) =
     hydrateTurn state threadId turnId events hasEarlier"
| "agentThreadsReducer lc state (TurnPromptRestored threadId turnId prompt) =
     Some (restoreTurnPrompt state threadId turnId prompt)"
| "agentThreadsReducer lc state (TurnLifecycleRestored threadId turnId logged) =
     Some (restoreTurnLifecycle state threadId turnId logged)"
| "agentThreadsReducer lc state (IntegrationRecorded threadId integration) =
     Some (recordIntegration state threadId integration)"
| "agentThreadsReducer lc state (ThreadViewed threadId viewed) = Some (markThreadViewed state threadId viewed)"
| "agentThreadsReducer lc state (ThreadMarkedUnread threadId) = Some (markThreadUnread state threadId)"
| "agentThreadsReducer lc state (ThreadOrganizationUpdated threadId owner patch) =
     Some (updateAgentThreadOrganization state threadId owner patch)"
| "agentThreadsReducer lc state (ThreadReordered threadId owner target place destination now) =
     Some (reorderAgentThread lc state threadId owner target place now destination)"
| "agentThreadsReducer lc state (ThreadRenamed threadId title) = Some (renameThread state threadId title)"
| "agentThreadsReducer lc state (OwnerRebound threadId previousOwnerId owner) =
     Some (rebindOwner state threadId previousOwnerId owner)"
| "agentThreadsReducer lc state (PinToggled threadId) = Some (togglePin state threadId)"
| "agentThreadsReducer lc state (ArchiveRequested threadId) = Some (archiveThread state threadId)"
| "agentThreadsReducer lc state (UnarchiveRequested threadId) = Some (unarchiveThread state threadId)"
| "agentThreadsReducer lc state (ProviderSessionInvalidated threadId owner sessionId) =
     Some (invalidateProviderSession state threadId owner sessionId)"
| "agentThreadsReducer lc state (DeleteRequested threadId) = Some (deleteThread state threadId)"
| "agentThreadsReducer lc state (OwnerReleased ownerId) = Some (releaseOwner state ownerId)"

end
