(* ===== verification/CapWindow.thy ===== *)
theory CapWindow
  imports Merge
begin

text \<open>
  One more fact about the retention of a window, for the clients that only compare the length of
  the capped window with the one they had: without an index of snapshots, a window that comes
  back as long as it went in is the window that went in.
\<close>

lemma snapshots_evict [simp]: "snapshots (trimTail state) = snapshots state"
  "snapshots (countSubagentThread state event d) = snapshots state"
  by (simp_all add: trimTail_def Let_def countSubagentThread_def split: option.splits)

lemma evictSlot_inert: "snapshots state = Inert \<Longrightarrow> snapshots (evictSlot policy state slot) = Inert"
  by (simp add: evictSlot_def Let_def split: option.split)

lemma skipPinned_snapshots: "snapshots (skipPinned state) = snapshots state"
  by (induction state rule: skipPinned.induct) (subst skipPinned.simps, simp)

lemma nextVictimSlot_snapshots: "snapshots (fst (nextVictimSlot state)) = snapshots state"
  by (simp add: nextVictimSlot_def Let_def skipPinned_snapshots)

lemma enforceLimits_inert:
  assumes enforced: "enforceLimits policy state = Some state'" and "snapshots state = Inert"
  shows "snapshots state' = Inert"
proof -
  have "snapshots state = Inert \<longrightarrow> snapshots state' = Inert"
  proof (rule enforceLimits.raw_induct [OF _ enforced])
    fix enforce policy state state'
    assume IH: "\<And>policy state state'. enforce policy state = Some state' \<Longrightarrow>
        snapshots state = Inert \<longrightarrow> snapshots state' = Inert"
      and step: "(if exceedsLimits policy state
         then case nextVictimSlot state of (state', None) \<Rightarrow> Some state'
           | (state', Some victim) \<Rightarrow> enforce policy (evictSlot policy state' victim)
         else Some state) = Some state'"
    show "snapshots state = Inert \<longrightarrow> snapshots state' = Inert"
      using step nextVictimSlot_snapshots [of state]
      by (auto simp: evictSlot_inert split: if_splits prod.splits option.splits dest: IH)
  qed
  with assms(2) show ?thesis by blast
qed

context retention_laws
begin

lemma acceptEvent_full:
  assumes inv: "retention_inv policy state" and inert: "snapshots state = Inert"
    and accepted: "acceptEvent policy state event = Some state'"
  shows "retention_inv policy state' \<and> snapshots state' = Inert \<and>
    length (liveEvents state') \<le> Suc (length (liveEvents state)) \<and>
    (length (liveEvents state') = Suc (length (liveEvents state)) \<longrightarrow>
       liveEvents state' = liveEvents state @ [event])"
proof (cases "fits event")
  case False
  then have "state' = state\<lparr>truncated := True\<rparr>" using accepted by (simp add: acceptEvent_entered fits_def)
  with inert retention_inv_truncated [OF inv] show ?thesis by (simp add: liveEvents_def)
next
  case True
  let ?entered = "entered policy state event"
  have entered_inv: "retention_inv policy ?entered"
    using entered_spec [OF inv, of is_settled event] by (simp add: settles_def)
  have enforced: "enforceLimits policy ?entered = Some state'"
    using accepted True by (simp add: acceptEvent_entered fits_def)
  have bound: "retention_inv policy state'" "subseq (liveEvents state') (liveEvents ?entered)"
    using enforceLimits_spec [OF entered_inv] enforced by auto
  have "snapshots ?entered = Inert \<and> length (liveEvents ?entered) \<le> Suc (length (liveEvents state)) \<and>
    (length (liveEvents ?entered) = Suc (length (liveEvents state)) \<longrightarrow>
       liveEvents ?entered = liveEvents state @ [event])"
  proof (cases "coalesceIntoTail policy state event")
    case None
    then have "?entered =
        adoptSlot policy (state\<lparr>slots := slots state @ [Some event]\<rparr>) event (length (slots state))"
      by (simp add: entered_def placeEvent_ret_def inert supersedeInPlace_def)
    with append_spec(2) [OF inv, of event] show ?thesis by (simp add: adoptSlot_def Let_def inert)
  next
    case (Some coalesced)
    then obtain tail c where tail: "slot_at (slots state) (length (slots state) - 1) = Some tail"
      "coalesced = replaceSlot policy state (length (slots state) - 1) tail c"
      by (elim coalesceIntoTail_SomeE)
    obtain as bs where split: "slots state = as @ Some tail # bs" "length as = length (slots state) - 1"
      using tail(1) by (rule slot_split)
    have "length (liveEvents coalesced) = length (liveEvents state)"
      using split unfolding tail(2) liveEvents_def replaceSlot_def by (simp add: list_update_append)
    moreover have "snapshots coalesced = Inert" unfolding tail(2) by (simp add: replaceSlot_def inert)
    ultimately show ?thesis using Some by (simp add: entered_def)
  qed
  with bound enforceLimits_inert [OF enforced] show ?thesis
    by (metis list_emb_length le_antisym le_trans subseq_same_length)
qed

lemma acceptEvents_full:
  assumes "retention_inv policy state" and "snapshots state = Inert"
    and "acceptEvents policy state es = Some state'"
  shows "length (liveEvents state') \<le> length (liveEvents state) + length es \<and>
    (length (liveEvents state') = length (liveEvents state) + length es \<longrightarrow>
       liveEvents state' = liveEvents state @ es)"
  using assms
proof (induction es arbitrary: state)
  case Nil
  then show ?case by simp
next
  case (Cons e es)
  obtain mid where mid: "acceptEvent policy state e = Some mid" "acceptEvents policy mid es = Some state'"
    using Cons.prems(3) by (auto split: option.splits)
  note full = acceptEvent_full [OF Cons.prems(1,2) mid(1)]
  from full Cons.IH [OF _ _ mid(2)]
  have later: "length (liveEvents state') \<le> length (liveEvents mid) + length es \<and>
    (length (liveEvents state') = length (liveEvents mid) + length es \<longrightarrow>
       liveEvents state' = liveEvents mid @ es)" by blast
  with full show ?case by auto
qed

lemma retain_full:
  assumes "retain policy existing incoming Inert = Some result"
    and "length (retained_events result) = length existing + length incoming"
  shows "retained_events result = existing @ incoming"
proof (cases "incoming = []")
  case True
  with assms(1) show ?thesis by (auto simp: retain_def)
next
  case False
  let ?adopted = "adoptSlots policy (initial_state existing Inert) existing 0"
  note adopted = adopted_inv [of existing Inert]
  obtain state' where state': "acceptEvents policy ?adopted incoming = Some state'"
    "result = \<lparr>retained_events = liveEvents state', retained_truncated = truncated state'\<rparr>"
    using assms(1) False by (auto simp: retain_def Let_def split: option.splits)
  have "snapshots ?adopted = Inert" by (simp add: initial_state_def adoptSlots_inert)
  from acceptEvents_full [OF adopted(1) this state'(1)] assms(2) adopted(2) state'(2)
  show ?thesis by simp
qed

end

lemma capPersisted_spec:
  "\<exists>result. capPersistedTurnEvents es = Some result \<and> bounded_window (retained_events result) \<and>
     (length (retained_events result) = length es \<longrightarrow> retained_events result = es)"
proof -
  obtain result where result: "retain turnEventRetentionPolicy [] es Inert = Some result"
    "within_limits turnEventRetentionPolicy (retained_events result)"
    using turn.retain_spec [of "[]" es Inert] turn.within_limits_Nil by auto
  have "capPersistedTurnEvents es = Some result"
    using result(1) by (simp add: capPersistedTurnEvents_def capAgentTurnEvents_def)
  with result turn.retain_full [OF result(1)] show ?thesis
    by (auto simp: within_limits_turn)
qed

lemma mergeTurnEvents_spec:
  "\<exists>result. mergeTurnEvents existing incoming = Some result \<and>
     (bounded_window existing \<longrightarrow> bounded_window (retained_events result)) \<and>
     (bounded_window (filter is_user_message
        (existing @ filter (\<lambda>e. agentTurnEventUtf8Bytes e \<le> 2097152) incoming)) \<longrightarrow>
      filter is_user_message (retained_events result) = filter is_user_message
        (existing @ filter (\<lambda>e. agentTurnEventUtf8Bytes e \<le> 2097152) incoming))"
proof -
  let ?fits = "\<lambda>e. agentTurnEventUtf8Bytes e \<le> 2097152"
  have fits: "turn.fits = ?fits" by (rule ext) (rule fits_turn)
  obtain result where result: "retain turnEventRetentionPolicy existing incoming (snapshotIndexFor incoming) = Some result"
    and spec: "bounded_window existing \<longrightarrow> bounded_window (retained_events result)"
    "bounded_window (filter is_user_message (existing @ filter ?fits incoming)) \<longrightarrow>
      filter is_user_message (retained_events result) =
        filter is_user_message (existing @ filter ?fits incoming)"
    using turn.retain_spec [of existing incoming "snapshotIndexFor incoming"] fits
    by (auto simp: within_limits_turn)
  have "mergeTurnEvents existing incoming = Some result"
    using result by (simp add: mergeTurnEvents_def retainAgentTurnEvents_def)
  with spec show ?thesis by blast
qed

end
