(* ===== verification/TurnMachine.thy ===== *)
theory TurnMachine
  imports ThreadReducer CapWindow
begin

text \<open>
  What may happen to a turn once it is in the store, as a labelled transition system: the
  abstract specification of the handlers of \<open>src/domain/agentThread.ts\<close> that change a turn. A turn
  runs until a terminal status is reported or it is interrupted; only a running turn takes
  status, output, messages and halts, each delivery with a higher sequence number than the one
  before; only a finished one is hydrated or repaired from its log.
\<close>

section \<open>The machine\<close>

datatype turn_label =
    Reported task_status_event int
  | Output append_action
  | Steered user_message
  | Interrupted int
  | HaltAsked halt_attempt
  | Hydrated "agent_turn_event list" bool
  | PromptRepaired js_string
  | LifecycleRepaired lifecycle

abbreviation finished :: "agent_turn \<Rightarrow> bool" where
  "finished t \<equiv> isTerminalAgentTurnStatus (tn_status t)"

inductive turn_step :: "agent_turn \<Rightarrow> turn_label \<Rightarrow> agent_turn \<Rightarrow> bool" where
  report: "\<not> finished t \<Longrightarrow> tn_lastStatusSequence t < tse_sequence event \<Longrightarrow>
    turn_step t (Reported event now)
      (t\<lparr>tn_status := TaskStatus (tse_status event), tn_lastStatusSequence := tse_sequence event,
        tn_endedAtEpochMs :=
          (if isTerminalAgentTaskStatus (tse_status event) then Some now else tn_endedAtEpochMs t)\<rparr>)"
| deliver: "\<not> finished t \<Longrightarrow> tn_lastOutputSequence t < ap_outputSequence action \<Longrightarrow>
    appended_turn t action = Some t' \<Longrightarrow> turn_step t (Output action) t'"
| steer: "\<not> finished t \<Longrightarrow> utf8ByteLength (um_text event) \<le> MAX_AGENT_EVENT_TEXT_BYTES \<Longrightarrow>
    agentTurnAcceptsSteerBytes t (int (agentTurnEventUtf8Bytes (UserMessage event))) \<Longrightarrow>
    mergeTurnEvents (tn_events t) [UserMessage event] = Some merged \<Longrightarrow>
    turn_step t (Steered event)
      (t\<lparr>tn_events := retained_events merged, tn_foregroundSettled := Some False,
        tn_eventsTruncated := tn_eventsTruncated t \<or> retained_truncated merged\<rparr>)"
| interrupt: "\<not> finished t \<Longrightarrow>
    turn_step t (Interrupted now)
      (t\<lparr>tn_status := TurnInterrupted, tn_endedAtEpochMs := Some now,
        tn_streamMetrics := Some (interruptedStreamMetrics (or_null (tn_streamMetrics t)))\<rparr>)"
| halt: "\<not> finished t \<Longrightarrow>
    turn_step t (HaltAsked attempt) (haltedTurn t (recordAgentTurnHalt (tn_haltRequest t) attempt))"
| hydrate: "finished t \<Longrightarrow> capPersistedTurnEvents events = Some bounded \<Longrightarrow>
    turn_step t (Hydrated events hasEarlier)
      (t\<lparr>tn_events := retained_events bounded,
        tn_eventsTruncated := hasEarlier \<or> retained_truncated bounded,
        tn_firstEventOffset :=
          (if hydratedEventOffset t (length (retained_events bounded)) = 0 then tn_firstEventOffset t
           else Some (hydratedEventOffset t (length (retained_events bounded))))\<rparr>)"
| prompt: "finished t \<Longrightarrow> isRestorableAgentPrompt text \<Longrightarrow>
    turn_step t (PromptRepaired text) (t\<lparr>tn_prompt := text, tn_promptRestored := Some True\<rparr>)"
| repair: "finished t \<Longrightarrow> restorableAgentTurnLifecycle (tn_subagentLifecycle t) logged = Some restored \<Longrightarrow>
    turn_step t (LifecycleRepaired logged) (t\<lparr>tn_subagentLifecycle := Some restored\<rparr>)"

inductive_cases reportedE: "turn_step t (Reported event now) t'"
inductive_cases outputE: "turn_step t (Output action) t'"
inductive_cases steeredE: "turn_step t (Steered event) t'"

section \<open>What every step keeps\<close>

lemma appended_turn_eq:
  assumes "appended_turn t action = Some t'"
  obtains merged where "mergeTurnEvents (tn_events t) (ap_events action) = Some merged"
    and "tn_events t' = retained_events merged" and "tn_turnId t' = tn_turnId t"
    and "tn_status t' = tn_status t" and "tn_lastOutputSequence t' = ap_outputSequence action"
    and "tn_lastStatusSequence t' = tn_lastStatusSequence t"
    and "tn_haltRequest t' = tn_haltRequest t" and "tn_endedAtEpochMs t' = tn_endedAtEpochMs t"
  using assms by (auto simp: appended_turn_def Let_def bind_eq_Some_conv)

lemma haltedTurn_keeps [simp]:
  "tn_turnId (haltedTurn t r) = tn_turnId t" "tn_status (haltedTurn t r) = tn_status t"
  "tn_events (haltedTurn t r) = tn_events t"
  "tn_lastOutputSequence (haltedTurn t r) = tn_lastOutputSequence t"
  "tn_lastStatusSequence (haltedTurn t r) = tn_lastStatusSequence t"
  "tn_endedAtEpochMs (haltedTurn t r) = tn_endedAtEpochMs t"
  by (simp_all add: haltedTurn_def split: option.split)

lemma turn_step_id: "turn_step t label t' \<Longrightarrow> tn_turnId t' = tn_turnId t"
  by (induction rule: turn_step.induct) (auto elim: appended_turn_eq)

lemma turn_step_finished:
  "turn_step t label t' \<Longrightarrow> finished t \<Longrightarrow>
     tn_status t' = tn_status t \<and> tn_endedAtEpochMs t' = tn_endedAtEpochMs t \<and>
     tn_lastStatusSequence t' = tn_lastStatusSequence t \<and>
     tn_lastOutputSequence t' = tn_lastOutputSequence t \<and> tn_haltRequest t' = tn_haltRequest t"
  by (induction rule: turn_step.induct) simp_all

lemma turn_step_sequences:
  "turn_step t label t' \<Longrightarrow> tn_lastStatusSequence t \<le> tn_lastStatusSequence t' \<and>
     tn_lastOutputSequence t \<le> tn_lastOutputSequence t'"
  by (induction rule: turn_step.induct) (auto elim: appended_turn_eq)

lemma capPersisted_bounded:
  "capPersistedTurnEvents es = Some r \<Longrightarrow> bounded_window (retained_events r)"
  using capPersisted_spec [of es] by auto

lemma mergeTurnEvents_bounded:
  "mergeTurnEvents es fs = Some r \<Longrightarrow> bounded_window es \<Longrightarrow> bounded_window (retained_events r)"
  using mergeTurnEvents_spec [of es fs] by auto

lemma turn_step_bounded:
  "turn_step t label t' \<Longrightarrow> bounded_window (tn_events t) \<Longrightarrow> bounded_window (tn_events t')"
  by (induction rule: turn_step.induct)
    (auto elim!: appended_turn_eq simp: capPersisted_bounded mergeTurnEvents_bounded)

section \<open>Messages of the user\<close>

text \<open>The messages a turn holds, and the limits steering keeps them in.\<close>

abbreviation messages :: "agent_turn \<Rightarrow> agent_turn_event list" where
  "messages t \<equiv> filter is_user_message (tn_events t)"

definition steers_ok :: "agent_turn \<Rightarrow> bool" where
  "steers_ok t \<longleftrightarrow> length (messages t) \<le> MAX_AGENT_STEERS_PER_TURN \<and>
     (\<Sum>e\<leftarrow>messages t. agentTurnEventUtf8Bytes e) \<le> MAX_AGENT_STEER_BYTES_PER_TURN"

lemma steer_limits:
  "MAX_AGENT_STEERS_PER_TURN = 32" "MAX_AGENT_STEER_BYTES_PER_TURN = 524288"
  by (simp_all add: MAX_AGENT_STEERS_PER_TURN_def MAX_AGENT_STEER_BYTES_PER_TURN_def)

lemma threads_of_messages: "threads_of (filter is_user_message es) = {}"
  by (auto simp: threads_of_def user_message_no_thread)

lemma messages_bounded:
  "length (filter is_user_message es) \<le> 32 \<Longrightarrow>
     (\<Sum>e\<leftarrow>filter is_user_message es. agentTurnEventUtf8Bytes e) \<le> 524288 \<Longrightarrow>
     bounded_window (filter is_user_message es)"
  by (simp add: bounded_window_def threads_of_messages)

lemma agentTurnEventsUtf8Bytes_sum:
  "agentTurnEventsUtf8Bytes es = (\<Sum>e\<leftarrow>es. agentTurnEventUtf8Bytes e)"
  using foldl_sum [of agentTurnEventUtf8Bytes 0 es] by (simp add: agentTurnEventsUtf8Bytes_def)

lemma merge_messages:
  assumes "mergeTurnEvents existing incoming = Some result"
    and "length (filter is_user_message (existing @ filter P incoming)) \<le> 32"
    and "(\<Sum>e\<leftarrow>filter is_user_message (existing @ filter P incoming). agentTurnEventUtf8Bytes e) \<le> 524288"
    and "P = (\<lambda>e. agentTurnEventUtf8Bytes e \<le> 2097152)"
  shows "filter is_user_message (retained_events result) =
    filter is_user_message (existing @ filter P incoming)"
  using mergeTurnEvents_spec [of existing incoming] assms(1)
    messages_bounded [OF assms(2,3)] unfolding assms(4) by auto

lemma deliver_keeps_messages:
  assumes "turn_step t (Output action) t'" and "steers_ok t"
    and "filter is_user_message (ap_events action) = []"
  shows "messages t' = messages t"
proof -
  obtain merged where merged: "mergeTurnEvents (tn_events t) (ap_events action) = Some merged"
    "tn_events t' = retained_events merged"
    using assms(1) by (auto elim!: outputE appended_turn_eq)
  have "filter is_user_message (filter P (ap_events action)) = []" for P
    using assms(3) by (auto simp: filter_empty_conv)
  then show ?thesis using merge_messages [OF merged(1) _ _ refl] assms(2) merged(2)
    by (simp add: steers_ok_def steer_limits)
qed

lemma steer_adds_message:
  assumes "turn_step t (Steered event) t'" and "steers_ok t"
  shows "messages t' = messages t @ [UserMessage event] \<and> steers_ok t'"
proof -
  have accepts: "agentTurnAcceptsSteerBytes t (int (agentTurnEventUtf8Bytes (UserMessage event)))"
    using assms(1) by (rule steeredE)
  then have room: "length (messages t) < 32"
    "(\<Sum>e\<leftarrow>messages t. agentTurnEventUtf8Bytes e) + agentTurnEventUtf8Bytes (UserMessage event) \<le> 524288"
    by (simp_all add: agentTurnAcceptsSteerBytes_def Let_def agentTurnEventsUtf8Bytes_sum steer_limits
        split: if_splits)
  obtain merged where merged: "mergeTurnEvents (tn_events t) [UserMessage event] = Some merged"
    "tn_events t' = retained_events merged"
    using assms(1) by (auto elim!: steeredE)
  have "filter (\<lambda>e. agentTurnEventUtf8Bytes e \<le> 2097152) [UserMessage event] = [UserMessage event]"
    using room(2) by simp
  then have "messages t' = messages t @ [UserMessage event]"
    using merge_messages [OF merged(1) _ _ refl] room merged(2) by simp
  with room show ?thesis by (simp add: steers_ok_def steer_limits)
qed

lemma status_keeps_messages:
  assumes "turn_step t label t'" and "\<not> finished t"
    and "\<And>action. label \<noteq> Output action" and "\<And>event. label \<noteq> Steered event"
  shows "tn_events t' = tn_events t"
  using assms(1,2) by (cases rule: turn_step.cases) (simp_all add: assms(3,4))

end
