(* ===== verification/StoreSteps.thy ===== *)
theory StoreSteps
  imports TurnMachine
begin

text \<open>
  What one action of the reducer may do to the threads that stay in the store: a thread is
  unchanged, only its own fields change, one of its turns takes a step of the turn machine, or a
  turn is placed in it. One lemma per handler; the handlers that add and remove threads are in
  the theory after this one.
\<close>

section \<open>Finding turns\<close>

lemma turn_index_Some:
  "turn_index ident ts = Some i \<Longrightarrow> i < length ts \<and> tn_turnId (ts ! i) = ident"
  by (induction ts arbitrary: i) (auto split: if_splits)

lemma turn_index_None: "turn_index ident ts = None \<longleftrightarrow> ident \<notin> tn_turnId ` set ts"
  by (induction ts) auto

lemma turn_index_distinct:
  "distinct (map tn_turnId ts) \<Longrightarrow> i < length ts \<Longrightarrow> turn_index (tn_turnId (ts ! i)) ts = Some i"
  by (induction ts arbitrary: i) (auto simp: nth_Cons' split: if_splits)

lemma find_turn_Some:
  "find_turn threads ident = Some (thread, i) \<Longrightarrow>
     thread \<in> set threads \<and> turn_index ident (th_turns thread) = Some i"
  by (induction threads) (auto split: option.splits)

lemma find_turn_None:
  "find_turn threads ident = None \<Longrightarrow> thread \<in> set threads \<Longrightarrow> turn_index ident (th_turns thread) = None"
  by (induction threads) (auto split: option.splits)

text \<open>The keys of the store are the identifiers of its threads.\<close>

definition keys_ok :: "threads_state \<Rightarrow> bool" where
  "keys_ok s \<longleftrightarrow> map_wf s \<and> (\<forall>k th. map_of s k = Some th \<longrightarrow> th_threadId th = k)"

lemma keys_okD: "keys_ok s \<Longrightarrow> map_of s k = Some th \<Longrightarrow> th_threadId th = k"
  by (simp add: keys_ok_def)

lemma map_values_of: "keys_ok s \<Longrightarrow> th \<in> set (map_values s) \<longleftrightarrow> map_of s (th_threadId th) = Some th"
  by (force simp: keys_ok_def map_values_def map_wf_def dest: map_of_SomeD)

lemma findTurn_Some:
  "keys_ok s \<Longrightarrow> findTurn s ident = Some (th, i) \<Longrightarrow>
     map_of s (th_threadId th) = Some th \<and> i < length (th_turns th) \<and> tn_turnId (th_turns th ! i) = ident"
  using find_turn_Some [of "map_values s"] turn_index_Some by (fastforce simp: findTurn_def map_values_of)

lemma findTurnInThread_Some:
  "findTurnInThread s k ident = Some (th, i) \<longleftrightarrow>
     map_of s k = Some th \<and> turn_index ident (th_turns th) = Some i"
  by (auto simp: findTurnInThread_def split: option.splits)

section \<open>Changes of a thread\<close>

definition flags_ok :: "agent_thread \<Rightarrow> bool" where
  "flags_ok th \<longleftrightarrow> \<not> (present (th_settledAt th) \<and> present (th_snoozedUntil th)) \<and>
     (present (th_settledAt th) \<or> th_archived th \<longrightarrow> runningTurn th = None)"

inductive thread_change :: "turn_label option \<Rightarrow> agent_thread \<Rightarrow> agent_thread \<Rightarrow> bool" for label where
  touch: "th_threadId th' = th_threadId th \<Longrightarrow> th_turns th' = th_turns th \<Longrightarrow>
    (flags_ok th \<Longrightarrow> flags_ok th') \<Longrightarrow> thread_change label th th'"
| turn: "label = Some l \<Longrightarrow> i < length (th_turns th) \<Longrightarrow> turn_step (th_turns th ! i) l t' \<Longrightarrow>
    th_threadId th' = th_threadId th \<Longrightarrow> th_turns th' = (th_turns th)[i := t'] \<Longrightarrow>
    th_settledAt th' = th_settledAt th \<Longrightarrow> th_snoozedUntil th' = th_snoozedUntil th \<Longrightarrow>
    th_archived th' = th_archived th \<Longrightarrow> thread_change label th th'"
| append: "runningTurn th = None \<Longrightarrow> turn_index (tn_turnId t) (th_turns th) = None \<Longrightarrow>
    retainTurnsForNewTurn th = Some (ts, evicted) \<Longrightarrow> boundAgentTurnEvents t = Some b \<Longrightarrow>
    th_threadId th' = th_threadId th \<Longrightarrow> th_turns th' = ts @ [b] \<Longrightarrow>
    \<not> present (th_settledAt th') \<Longrightarrow> \<not> th_archived th' \<Longrightarrow> thread_change label th th'"
| insert: "runningTurn th = Some r \<Longrightarrow> finished t \<Longrightarrow> turn_index (tn_turnId t) (th_turns th) = None \<Longrightarrow>
    retainTurnsForNewTurn th = Some (ts, evicted) \<Longrightarrow> boundAgentTurnEvents t = Some b \<Longrightarrow>
    th_threadId th' = th_threadId th \<Longrightarrow>
    th_turns th' = take (find_index (\<lambda>u. tn_turnId u = tn_turnId r) ts) ts @ [b] @
      drop (find_index (\<lambda>u. tn_turnId u = tn_turnId r) ts) ts \<Longrightarrow>
    \<not> present (th_settledAt th') \<Longrightarrow> \<not> th_archived th' \<Longrightarrow> thread_change label th th'"

text \<open>Two stores with the same keys in the same order, thread by thread.\<close>

definition keyed :: "(agent_thread \<Rightarrow> agent_thread \<Rightarrow> bool) \<Rightarrow> threads_state \<Rightarrow> threads_state \<Rightarrow> bool" where
  "keyed R s s' \<longleftrightarrow> map fst s' = map fst s \<and>
     (\<forall>k th. map_of s k = Some th \<longrightarrow> (\<exists>th'. map_of s' k = Some th' \<and> (th' = th \<or> R th th')))"

lemma keyed_refl [simp, intro]: "keyed R s s"
  by (simp add: keyed_def)

lemma keyed_update:
  "map_of s k = Some th \<Longrightarrow> R th th' \<Longrightarrow> keyed R s (AList.update k th' s)"
  by (auto simp: keyed_def update_keys dest: map_of_SomeD intro: rev_image_eqI)

lemma keyed_replace:
  assumes "keys_ok s" and "map_of s (th_threadId th) = Some th" and "R th th'"
    and "th_threadId th' = th_threadId th"
  shows "keyed R s (replaceThread s th')"
  using assms by (simp add: replaceThread_def keyed_update)

lemma touch_replace:
  assumes "keys_ok s" and "map_of s k = Some th" and "th_threadId th' = th_threadId th"
    and "th_turns th' = th_turns th" and "flags_ok th \<Longrightarrow> flags_ok th'"
  shows "keyed (thread_change label) s (replaceThread s th')"
  using assms keys_okD [OF assms(1,2)]
  by (intro keyed_replace [where R = "thread_change label" and th = th and th' = th']) (auto intro: touch)

lemma turn_replace:
  assumes "keys_ok s" and "map_of s (th_threadId th) = Some th" and "i < length (th_turns th)"
    and "turn_step (th_turns th ! i) l t'" and "th_threadId th' = th_threadId th"
    and "th_turns th' = (th_turns th)[i := t']" and "th_settledAt th' = th_settledAt th"
    and "th_snoozedUntil th' = th_snoozedUntil th" and "th_archived th' = th_archived th"
  shows "keyed (thread_change (Some l)) s (replaceThread s th')"
  using assms by (intro keyed_replace [where R = "thread_change (Some l)" and th = th and th' = th'])
    (auto intro: turn)

section \<open>Handlers that change a turn\<close>

lemma set_turn_keeps [simp]:
  "th_threadId (set_turn th i t) = th_threadId th" "th_turns (set_turn th i t) = (th_turns th)[i := t]"
  "th_settledAt (set_turn th i t) = th_settledAt th" "th_snoozedUntil (set_turn th i t) = th_snoozedUntil th"
  "th_archived (set_turn th i t) = th_archived th" "th_pinned (set_turn th i t) = th_pinned th"
  "th_owner (set_turn th i t) = th_owner th"
  by (simp_all add: set_turn_def)

lemma accepted_location:
  "acceptedTaskStatusLocation s k event = Some (th, i) \<Longrightarrow>
     map_of s k = Some th \<and> i < length (th_turns th) \<and> \<not> finished (th_turns th ! i) \<and>
     tn_lastStatusSequence (th_turns th ! i) < tse_sequence event"
  by (auto simp: acceptedTaskStatusLocation_def findTurnInThread_Some Let_def turn_index_Some
      split: option.splits if_splits)

lemma status_keyed:
  assumes "keys_ok s"
  shows "keyed (thread_change (Some (Reported event now))) s (applyTurnStatusEvent s k event now)"
proof (cases "acceptedTaskStatusLocation s k event")
  case None
  then show ?thesis by (simp add: applyTurnStatusEvent_def)
next
  case (Some location)
  obtain th i where at: "location = (th, i)" by force
  note found = accepted_location [OF Some [unfolded at]]
  with keys_okD [OF assms] have "map_of s (th_threadId th) = Some th" by auto
  with assms found show ?thesis
    unfolding applyTurnStatusEvent_def Some at Let_def replaceTurn_def option.case prod.case
    by (intro turn_replace [OF _ _ _ turn_step.report]) simp_all
qed

lemma interrupt_keyed:
  assumes "keys_ok s"
  shows "keyed (thread_change (Some (Interrupted now))) s (interruptTurn s ident now)"
proof (cases "findTurn s ident")
  case None
  then show ?thesis by (simp add: interruptTurn_def)
next
  case (Some location)
  obtain th i where at: "location = (th, i)" by force
  note found = findTurn_Some [OF assms Some [unfolded at]]
  with assms show ?thesis
    by (simp add: interruptTurn_def Some at Let_def replaceTurn_def)
      (intro impI turn_replace [OF _ _ _ turn_step.interrupt], simp_all)
qed

lemma append_keyed:
  assumes keys: "keys_ok s" and appended: "appendTurnEvents s action = Some s'"
  shows "keyed (thread_change (Some (Output action))) s s'"
proof (cases "s' = s")
  case False
  with appended obtain th i t' where found: "map_of s (ap_threadId action) = Some th"
    "turn_index (ap_turnId action) (th_turns th) = Some i"
    "\<not> finished (th_turns th ! i)" "tn_lastOutputSequence (th_turns th ! i) < ap_outputSequence action"
    "appended_turn (th_turns th ! i) action = Some t'"
    "s' = replaceThread s ((set_turn th i t')\<lparr>th_provider := provider_after_append th (th_turns th ! i) action\<rparr>)"
    by (auto simp: appendTurnEvents_def findTurnInThread_Some Let_def bind_eq_Some_conv
        split: option.splits if_splits)
  from keys_okD [OF keys found(1)] found(1) have "map_of s (th_threadId th) = Some th" by simp
  with keys found turn_index_Some [OF found(2)] show ?thesis
    by (simp, intro turn_replace [OF _ _ _ turn_step.deliver]) simp_all
qed simp

lemma steer_keyed:
  assumes keys: "keys_ok s" and steered: "appendSteeredMessage s k ident event = Some s'"
  shows "keyed (thread_change (Some (Steered event))) s s'"
proof (cases "s' = s")
  case False
  with steered obtain th i merged where found: "map_of s k = Some th"
    "turn_index ident (th_turns th) = Some i" "\<not> finished (th_turns th ! i)"
    "utf8ByteLength (um_text event) \<le> MAX_AGENT_EVENT_TEXT_BYTES"
    "agentTurnAcceptsSteerBytes (th_turns th ! i) (int (agentTurnEventUtf8Bytes (UserMessage event)))"
    "mergeTurnEvents (tn_events (th_turns th ! i)) [UserMessage event] = Some merged"
    "s' = replaceThread s (set_turn th i ((th_turns th ! i)\<lparr>tn_events := retained_events merged,
      tn_foregroundSettled := Some False,
      tn_eventsTruncated := tn_eventsTruncated (th_turns th ! i) \<or> retained_truncated merged\<rparr>))"
    by (auto simp: appendSteeredMessage_def findTurnInThread_Some Let_def bind_eq_Some_conv
        split: option.splits if_splits)
  from keys_okD [OF keys found(1)] found(1) have "map_of s (th_threadId th) = Some th" by simp
  with keys found turn_index_Some [OF found(2)] show ?thesis
    by (simp, intro turn_replace [OF _ _ _ turn_step.steer]) simp_all
qed simp

lemma halt_keyed:
  assumes keys: "keys_ok s"
  shows "keyed (thread_change (Some (HaltAsked (hi_attempt request)))) s (requestAgentTurnHalt s request)"
proof (cases "requestAgentTurnHalt s request = s")
  case False
  then obtain th i where found: "map_of s (hi_threadId request) = Some th"
    "turn_index (hi_turnId request) (th_turns th) = Some i" "\<not> finished (th_turns th ! i)"
    "requestAgentTurnHalt s request = replaceThread s (set_turn th i (haltedTurn (th_turns th ! i)
      (recordAgentTurnHalt (tn_haltRequest (th_turns th ! i)) (hi_attempt request))))"
    by (auto simp: requestAgentTurnHalt_def Let_def split: option.splits if_splits)
  from keys_okD [OF keys found(1)] found(1) have "map_of s (th_threadId th) = Some th" by simp
  with keys found turn_index_Some [OF found(2)] show ?thesis
    by (simp, intro turn_replace [OF _ _ _ turn_step.halt]) simp_all
qed simp

lemma hydrate_keyed:
  assumes keys: "keys_ok s" and hydrated: "hydrateTurn s k ident events hasEarlier = Some s'"
  shows "keyed (thread_change (Some (Hydrated events hasEarlier))) s s'"
proof (cases "s' = s")
  case False
  with hydrated obtain th i bounded where found: "map_of s k = Some th"
    "turn_index ident (th_turns th) = Some i" "finished (th_turns th ! i)"
    "capPersistedTurnEvents events = Some bounded"
    "s' = replaceThread s (set_turn th i ((th_turns th ! i)\<lparr>tn_events := retained_events bounded,
      tn_eventsTruncated := hasEarlier \<or> retained_truncated bounded,
      tn_firstEventOffset :=
        (if hydratedEventOffset (th_turns th ! i) (length (retained_events bounded)) = 0
         then tn_firstEventOffset (th_turns th ! i)
         else Some (hydratedEventOffset (th_turns th ! i) (length (retained_events bounded))))\<rparr>))"
    by (auto simp: hydrateTurn_def findTurnInThread_Some Let_def bind_eq_Some_conv
        split: option.splits if_splits)
  from keys_okD [OF keys found(1)] found(1) have "map_of s (th_threadId th) = Some th" by simp
  with keys turn_index_Some [OF found(2)] show ?thesis unfolding found(5)
    by (intro turn_replace [OF _ _ _ turn_step.hydrate [OF found(3,4)]]) simp_all
qed simp

lemma prompt_keyed:
  assumes keys: "keys_ok s"
  shows "keyed (thread_change (Some (PromptRepaired text))) s (restoreTurnPrompt s k ident text)"
proof (cases "restoreTurnPrompt s k ident text = s")
  case False
  then obtain th i where found: "map_of s k = Some th" "isRestorableAgentPrompt text"
    "turn_index ident (th_turns th) = Some i" "finished (th_turns th ! i)"
    "restoreTurnPrompt s k ident text = replaceThread s (set_turn th i
      ((th_turns th ! i)\<lparr>tn_prompt := text, tn_promptRestored := Some True\<rparr>))"
    by (auto simp: restoreTurnPrompt_def findTurnInThread_Some Let_def split: option.splits if_splits)
  from keys_okD [OF keys found(1)] found(1) have "map_of s (th_threadId th) = Some th" by simp
  with keys found turn_index_Some [OF found(3)] show ?thesis
    by (simp, intro turn_replace [OF _ _ _ turn_step.prompt]) simp_all
qed simp

lemma repair_keyed:
  assumes keys: "keys_ok s"
  shows "keyed (thread_change (Some (LifecycleRepaired logged))) s (restoreTurnLifecycle s k ident logged)"
proof (cases "restoreTurnLifecycle s k ident logged = s")
  case False
  then obtain th i restored where found: "map_of s k = Some th"
    "turn_index ident (th_turns th) = Some i" "finished (th_turns th ! i)"
    "restorableAgentTurnLifecycle (tn_subagentLifecycle (th_turns th ! i)) logged = Some restored"
    "restoreTurnLifecycle s k ident logged = replaceThread s (set_turn th i
      ((th_turns th ! i)\<lparr>tn_subagentLifecycle := Some restored\<rparr>))"
    by (auto simp: restoreTurnLifecycle_def findTurnInThread_Some Let_def split: option.splits if_splits)
  from keys_okD [OF keys found(1)] found(1) have "map_of s (th_threadId th) = Some th" by simp
  with keys found turn_index_Some [OF found(2)] show ?thesis
    by (simp, intro turn_replace [OF _ _ _ turn_step.repair]) simp_all
qed simp

section \<open>Handlers that change a thread\<close>

lemma runningTurn_cong: "th_turns th' = th_turns th \<Longrightarrow> runningTurn th' = runningTurn th"
  by (simp add: runningTurn_def)

lemma flags_touch:
  "th_turns th' = th_turns th \<Longrightarrow> th_settledAt th' = th_settledAt th \<Longrightarrow>
     th_snoozedUntil th' = th_snoozedUntil th \<Longrightarrow> th_archived th' = th_archived th \<Longrightarrow>
     flags_ok th \<Longrightarrow> flags_ok th'"
  by (simp add: flags_ok_def runningTurn_cong [of th' th])

lemmas touch_defs = recordIntegration_def markThreadViewed_def markThreadUnread_def renameThread_def
  rebindOwner_def togglePin_def archiveThread_def unarchiveThread_def invalidateProviderSession_def
  loadExternalHistory_def

lemma touch_keyed:
  assumes "keys_ok s"
  shows "keyed (thread_change l) s (recordIntegration s k integration)"
    and "keyed (thread_change l) s (markThreadViewed s k at_ms)"
    and "keyed (thread_change l) s (markThreadUnread s k)"
    and "keyed (thread_change l) s (renameThread s k title)"
    and "keyed (thread_change l) s (rebindOwner s k previous owner)"
    and "keyed (thread_change l) s (togglePin s k)"
    and "keyed (thread_change l) s (invalidateProviderSession s k owner session)"
    and "keyed (thread_change l) s (loadExternalHistory s k owner history)"
  unfolding touch_defs
  by (auto split: option.split intro!: touch_replace [OF assms] elim: flags_touch [rotated -1])

lemma archive_keyed:
  assumes "keys_ok s"
  shows "keyed (thread_change l) s (archiveThread s k)"
    and "keyed (thread_change l) s (unarchiveThread s k)"
  unfolding touch_defs
  by (auto split: option.split intro!: touch_replace [OF assms] simp: flags_ok_def runningTurn_def)

lemma flags_update:
  assumes "flags_ok th" and "th_turns th' = th_turns th" and "th_archived th' = th_archived th"
    and "\<not> (present (th_settledAt th') \<and> present (th_snoozedUntil th'))"
    and "present (th_settledAt th') \<Longrightarrow> present (th_settledAt th) \<or> runningTurn th = None"
  shows "flags_ok th'"
  using assms runningTurn_cong [OF assms(2)] by (auto simp: flags_ok_def)

lemma organize_keyed:
  assumes keys: "keys_ok s"
  shows "keyed (thread_change l) s (updateAgentThreadOrganization s k owner patch)"
proof (cases "updateAgentThreadOrganization s k owner patch = s")
  case False
  let ?next = "\<lambda>th. th\<lparr>th_snoozedUntil := patch_field (th_snoozedUntil th) (op_snoozedUntil patch),
    th_settledAt := patch_field (th_settledAt th) (op_settledAt patch),
    th_sortOrder := patch_field (th_sortOrder th) (op_sortOrder patch)\<rparr>"
  from False obtain th where found: "map_of s k = Some th"
    "\<not> (present (op_settledAt patch) \<and> runningTurn th \<noteq> None)"
    "\<not> (present (th_settledAt (?next th)) \<and> present (th_snoozedUntil (?next th)))"
    "updateAgentThreadOrganization s k owner patch = AList.update k (?next th) s"
    unfolding updateAgentThreadOrganization_def Let_def by (auto split: option.splits if_splits)
  have "flags_ok (?next th)" if "flags_ok th"
    by (rule flags_update [OF that]) (use found(2,3) in \<open>auto simp: patch_field_def split: option.splits\<close>)
  then have "thread_change l th (?next th)" by (intro touch) auto
  with found show ?thesis by (simp add: keyed_update)
qed simp

section \<open>Reordering\<close>

definition touched :: "agent_thread \<Rightarrow> agent_thread \<Rightarrow> bool" where
  "touched th th' \<longleftrightarrow> th_threadId th' = th_threadId th \<and> th_turns th' = th_turns th \<and>
     (flags_ok th \<longrightarrow> flags_ok th')"

lemma keyed_touched: "keyed touched s s' \<Longrightarrow> keyed (thread_change l) s s'"
  unfolding keyed_def touched_def by (metis touch)

lemma keyed_trans:
  assumes "keyed touched s s'" and "keyed touched s' s''"
  shows "keyed touched s s''"
  using assms unfolding keyed_def touched_def by metis

lemma if_keyed:
  "(b \<Longrightarrow> keyed R s x) \<Longrightarrow> (\<not> b \<Longrightarrow> keyed R s y) \<Longrightarrow> keyed R s (if b then x else y)"
  by simp

lemma assign_keyed: "keyed touched s (assign_order s item)"
proof (cases "map_of s (fst item)")
  case (Some th)
  then have "touched th (th\<lparr>th_sortOrder := order\<rparr>)" for order
    by (auto simp: touched_def elim: flags_touch [rotated -1])
  with Some show ?thesis by (simp add: assign_order_def keyed_update)
qed (simp add: assign_order_def)

lemma assign_all_keyed: "keyed touched s (foldl assign_order s items)"
  by (induction items arbitrary: s) (auto intro: keyed_trans assign_keyed)

lemma reorder_keyed: "keyed (thread_change l) s (reorderAgentThread lc s k owner target place now destination)"
proof (cases "map_of s k")
  case None
  then show ?thesis by (simp add: reorderAgentThread_def)
next
  case (Some th)
  let ?drop = "\<lambda>dest. th\<lparr>th_pinned := (if dest = DropPinned then True
      else if dest = DropActive then False else th_pinned th), th_snoozedUntil := Some None,
      th_settledAt := (if dest = DropSettled
        then Some (Some (or_default (or_null (th_settledAt th)) now)) else Some None)\<rparr>"
  have "touched th (?drop dest)" if "\<not> (dest = DropSettled \<and> runningTurn th \<noteq> None)" for dest
    unfolding touched_def using that by (auto simp: present_def intro: flags_update)
  then have drop: "keyed touched s (AList.update k (?drop dest) s)"
    if "\<not> (dest = DropSettled \<and> runningTurn th \<noteq> None)" for dest
    using Some that by (intro keyed_update)
  have "keyed touched s (foldl assign_order prepared items)" if "keyed touched s prepared" for prepared items
    using that assign_all_keyed keyed_trans by blast
  note steps = if_keyed keyed_refl this drop
  have "keyed touched s (reorderAgentThread lc s k owner target place now destination)"
  proof (cases "map_of s target")
    case None
    with Some show ?thesis by (simp add: reorderAgentThread_def)
  next
    case found: (Some aim)
    show ?thesis
    proof (cases destination)
      case None
      show ?thesis unfolding reorderAgentThread_def Some found None option.case Let_def by (intro steps)
    next
      case dest: (Some dest)
      show ?thesis unfolding reorderAgentThread_def Some found dest option.case Let_def
        by (intro steps) simp_all
    qed
  qed
  then show ?thesis by (rule keyed_touched)
qed

section \<open>Handlers that place a turn\<close>

lemma not_present_clear [simp]: "\<not> present (clear_present field)"
  by (simp add: clear_present_def present_def split: option.split)

lemma placeTurn_cases:
  assumes "keys_ok s" and "map_of s k = Some th" and "placeTurn s th t at_ms place = Some s'" and "s' \<noteq> s"
  obtains ts evicted b th' where "turn_index (tn_turnId t) (th_turns th) = None"
    and "retainTurnsForNewTurn th = Some (ts, evicted)" and "boundAgentTurnEvents t = Some b"
    and "th_threadId th' = th_threadId th" and "th_turns th' = place ts b"
    and "\<not> present (th_settledAt th')" and "\<not> th_archived th'" and "s' = replaceThread s th'"
proof -
  have "th \<in> set (map_values s)"
    using assms(1,2) keys_okD [OF assms(1,2)] by (simp add: map_values_of)
  then have "turn_index (tn_turnId t) (th_turns th) = None" if "findTurn s (tn_turnId t) = None"
    using that by (simp add: findTurn_def find_turn_None)
  moreover have "findTurn s (tn_turnId t) = None"
    using assms(3,4) by (cases "findTurn s (tn_turnId t)") (auto simp: placeTurn_def split: if_splits)
  moreover from this obtain ts evicted b where "\<not> th_archived th"
    "retainTurnsForNewTurn th = Some (ts, evicted)" "boundAgentTurnEvents t = Some b"
    "s' = replaceThread s (th\<lparr>th_snoozedUntil := clear_present (th_snoozedUntil th),
      th_settledAt := clear_present (th_settledAt th), th_turns := place ts b,
      th_turnsTruncated := th_turnsTruncated th \<or> evicted,
      th_updatedAtEpochMs := max (th_updatedAtEpochMs th) at_ms\<rparr>)"
    using assms(3,4) unfolding placeTurn_def bind_eq_Some_conv
    by (simp split: if_splits option.splits prod.splits) (auto simp: bind_eq_Some_conv)
  ultimately show thesis by (intro that) simp_all
qed

lemma append_turn_keyed:
  assumes "keys_ok s" and "map_of s k = Some th" and "appendTurn s th t at_ms = Some s'"
  shows "keyed (thread_change l) s s'"
proof (cases "s' = s \<or> runningTurn th \<noteq> None")
  case True
  with assms(3) show ?thesis by (auto simp: appendTurn_def)
next
  case False
  then have "placeTurn s th t at_ms (\<lambda>turns placed. turns @ [placed]) = Some s'"
    using assms(3) by (simp add: appendTurn_def)
  from placeTurn_cases [OF assms(1,2) this] False obtain ts evicted b th' where
    "turn_index (tn_turnId t) (th_turns th) = None" "retainTurnsForNewTurn th = Some (ts, evicted)"
    "boundAgentTurnEvents t = Some b" "th_threadId th' = th_threadId th" "th_turns th' = ts @ [b]"
    "\<not> present (th_settledAt th')" "\<not> th_archived th'" "s' = replaceThread s th'" by metis
  with assms(1,2) keys_okD [OF assms(1,2)] False show ?thesis
    using append [of th t ts evicted b th' l]
    by (auto intro!: keyed_replace [where th = th])
qed

lemma insert_turn_keyed:
  assumes "keys_ok s" and "map_of s k = Some th" and "runningTurn th = Some r" and "finished t"
    and "insertTurnBefore s th r t at_ms = Some s'"
  shows "keyed (thread_change l) s s'"
proof (cases "s' = s")
  case False
  note placed = assms(5) [unfolded insertTurnBefore_def Let_def]
  from placeTurn_cases [OF assms(1,2) placed False] obtain ts evicted b th' where
    "turn_index (tn_turnId t) (th_turns th) = None" "retainTurnsForNewTurn th = Some (ts, evicted)"
    "boundAgentTurnEvents t = Some b" "th_threadId th' = th_threadId th"
    "th_turns th' = take (find_index (\<lambda>u. tn_turnId u = tn_turnId r) ts) ts @ [b] @
      drop (find_index (\<lambda>u. tn_turnId u = tn_turnId r) ts) ts"
    "\<not> present (th_settledAt th')" "\<not> th_archived th'" "s' = replaceThread s th'" by metis
  with assms(1-4) keys_okD [OF assms(1,2)] show ?thesis
    using insert [of th r t ts evicted b th' l] by (auto intro!: keyed_replace [where th = th])
qed simp

lemma start_keyed:
  assumes "keys_ok s" and "startTurn s k t = Some s'"
  shows "keyed (thread_change l) s s'"
  using assms by (auto simp: startTurn_def split: option.splits intro: append_turn_keyed)

lemma background_keyed:
  assumes "keys_ok s" and "recordBackgroundTurn s k workspace t = Some s'"
  shows "keyed (thread_change l) s s'"
  using assms by (auto simp: recordBackgroundTurn_def Let_def split: option.splits if_splits
      intro: append_turn_keyed insert_turn_keyed)

end
