(* ===== verification/StoreInv.thy ===== *)
theory StoreInv
  imports StoreSteps
begin

text \<open>
  The invariant of the thread store and that every action of the reducer keeps it: keys are the
  identifiers of the threads, a thread has at most 64 turns with identifiers of their own, only
  the last turn may be running, every turn has a bounded window of events, a settled or archived
  thread is not running and a settled one is not snoozed.
\<close>

section \<open>The invariant of a thread\<close>

definition thread_ok :: "agent_thread \<Rightarrow> bool" where
  "thread_ok th \<longleftrightarrow> length (th_turns th) \<le> 64 \<and> distinct (map tn_turnId (th_turns th)) \<and>
     (\<forall>t \<in> set (butlast (th_turns th)). finished t) \<and>
     (\<forall>t \<in> set (th_turns th). bounded_window (tn_events t)) \<and> flags_ok th"

definition threads_ok :: "threads_state \<Rightarrow> bool" where
  "threads_ok s \<longleftrightarrow> keys_ok s \<and> (\<forall>k th. map_of s k = Some th \<longrightarrow> thread_ok th)"

lemma butlast_or_last: "x \<in> set xs \<Longrightarrow> x \<in> set (butlast xs) \<or> x = last xs"
  by (induction xs) auto

lemma all_finished:
  "\<forall>t \<in> set (butlast (th_turns th)). finished t \<Longrightarrow> runningTurn th = None \<Longrightarrow>
     \<forall>t \<in> set (th_turns th). finished t"
  using butlast_or_last by (fastforce simp: runningTurn_None)

lemma running_last:
  "thread_ok th \<Longrightarrow> t \<in> set (th_turns th) \<Longrightarrow> \<not> finished t \<Longrightarrow> runningTurn th = Some t"
  using butlast_or_last by (fastforce simp: runningTurn_Some thread_ok_def)

lemma boundAgentTurnEvents_spec:
  "\<exists>b. boundAgentTurnEvents t = Some b \<and> bounded_window (tn_events b) \<and>
     tn_turnId b = tn_turnId t \<and> tn_status b = tn_status t"
proof -
  obtain r where "capPersistedTurnEvents (tn_events t) = Some r" "bounded_window (retained_events r)"
    "length (retained_events r) = length (tn_events t) \<longrightarrow> retained_events r = tn_events t"
    using capPersisted_spec by blast
  then show ?thesis
    by (cases "length (retained_events r) = length (tn_events t)")
      (simp_all add: boundAgentTurnEvents_def Let_def)
qed

lemma bounded_turn:
  "boundAgentTurnEvents t = Some b \<Longrightarrow> bounded_window (tn_events b) \<and>
     tn_turnId b = tn_turnId t \<and> tn_status b = tn_status t"
  using boundAgentTurnEvents_spec [of t] by auto

lemma retained_turns:
  assumes ok: "thread_ok th" and retained: "retainTurnsForNewTurn th = Some (ts, evicted)"
  shows "length ts < 64" and "distinct (map tn_turnId ts)" and "set ts \<subseteq> set (th_turns th)"
    and "runningTurn th = None \<Longrightarrow> \<forall>t \<in> set ts. finished t"
    and "runningTurn th = Some r \<Longrightarrow> ts \<noteq> [] \<and> last ts = r \<and> (\<forall>t \<in> set (butlast ts). finished t)"
proof -
  have cases: "ts = th_turns th \<and> length ts < 64 \<or>
    (\<exists>a u b. th_turns th = a @ u # b \<and> ts = a @ b \<and> finished u)"
  proof (cases "length (th_turns th) < 64")
    case True
    with retained show ?thesis by (simp add: retainTurnsForNewTurn_def MAX_AGENT_TURNS_PER_THREAD_def)
  next
    case False
    let ?i = "find_index finished (th_turns th)"
    have "?i < length xs \<Longrightarrow> finished (xs ! ?i)" if "xs = th_turns th" for xs
      unfolding that [symmetric] by (induction xs) auto
    with False retained have i: "?i < length (th_turns th)" "finished (th_turns th ! ?i)"
      "ts = take ?i (th_turns th) @ drop (Suc ?i) (th_turns th)"
      by (auto simp: retainTurnsForNewTurn_def MAX_AGENT_TURNS_PER_THREAD_def first_terminal_def Let_def
          split: if_splits)
    with id_take_nth_drop [OF i(1)] show ?thesis by blast
  qed
  have len: "length (th_turns th) \<le> 64" and dist: "distinct (map tn_turnId (th_turns th))"
    and fin: "\<forall>t \<in> set (butlast (th_turns th)). finished t"
    using ok by (simp_all add: thread_ok_def)
  show "length ts < 64" "distinct (map tn_turnId ts)" and sub: "set ts \<subseteq> set (th_turns th)"
    using cases len dist by auto
  show "\<forall>t \<in> set ts. finished t" if "runningTurn th = None"
    using all_finished [OF fin that] sub by blast
  show "ts \<noteq> [] \<and> last ts = r \<and> (\<forall>t \<in> set (butlast ts). finished t)" if "runningTurn th = Some r"
    using cases that fin by (auto simp: runningTurn_Some butlast_append split: if_splits)
qed

lemma find_last_turn:
  "ts \<noteq> [] \<Longrightarrow> distinct (map tn_turnId ts) \<Longrightarrow>
     find_index (\<lambda>u. tn_turnId u = tn_turnId (last ts)) ts = length ts - 1"
proof (induction ts)
  case (Cons a ts)
  show ?case
  proof (cases "ts = []")
    case False
    then have "tn_turnId a \<noteq> tn_turnId (last ts)" using Cons.prems by (metis distinct.simps(2)
      imageI last_in_set list.set_map list.simps(9))
    with False Cons show ?thesis by (cases ts) auto
  qed simp
qed simp

text \<open>A finished turn is placed right before the running one.\<close>

lemma inserted_turns:
  assumes "thread_ok th" and "runningTurn th = Some r" and "retainTurnsForNewTurn th = Some (ts, evicted)"
  shows "\<exists>older. ts = older @ [r] \<and> (\<forall>t \<in> set older. finished t) \<and>
    take (find_index (\<lambda>u. tn_turnId u = tn_turnId r) ts) ts @ [b] @
      drop (find_index (\<lambda>u. tn_turnId u = tn_turnId r) ts) ts = older @ [b, r]"
proof -
  note retained = retained_turns [OF assms(1,3)]
  obtain older where ts: "ts = older @ [r]" "\<forall>t \<in> set older. finished t"
    using retained(5) [OF assms(2)] by (metis append_butlast_last_id)
  have "find_index (\<lambda>u. tn_turnId u = tn_turnId r) ts = length older"
    using find_last_turn [OF _ retained(2)] by (simp add: ts(1))
  with ts show ?thesis by simp
qed

lemma thread_change_ok:
  assumes "thread_change l th th'" and "thread_ok th"
  shows "thread_ok th'"
  using assms(1)
proof cases
  case touch
  with assms(2) show ?thesis by (auto simp: thread_ok_def)
next
  case (turn lab i t')
  let ?t = "th_turns th ! i"
  note step = turn_step_id [OF turn(3)] turn_step_bounded [OF turn(3)] turn_step_finished [OF turn(3)]
  have mapped: "map tn_turnId (th_turns th') = map tn_turnId (th_turns th)"
    using turn(2,5) step(1) by (simp add: map_update list_update_same_conv)
  have bounded: "bounded_window (tn_events t)" if "t \<in> set (th_turns th')" for t
    using that turn(2,5) step(2) assms(2) set_update_subset_insert [of "th_turns th" i t']
    by (auto simp: thread_ok_def)
  have fin: "finished t" if mem: "t \<in> set (butlast (th_turns th'))" for t
  proof -
    obtain j where j: "j < length (th_turns th) - 1" "t = th_turns th' ! j"
      using mem turn(5) by (auto simp: in_set_conv_nth nth_butlast)
    then have "butlast (th_turns th) ! j \<in> set (butlast (th_turns th))" by (intro nth_mem) simp
    with j assms(2) have "finished (th_turns th ! j)" by (auto simp: thread_ok_def nth_butlast)
    with j turn(2,5) step(3) show ?thesis by (cases "i = j") auto
  qed
  have ne: "th_turns th \<noteq> []" using turn(2) by auto
  have "runningTurn th' = None" if "runningTurn th = None"
    using that step(3) last_list_update [OF ne, of i t'] last_conv_nth [OF ne] ne
    by (auto simp: runningTurn_None turn(5) split: if_splits)
  then have "flags_ok th'" using assms(2) turn(6-8) by (auto simp: thread_ok_def flags_ok_def)
  with mapped bounded fin turn(2,5) assms(2) show ?thesis by (simp add: thread_ok_def)
next
  case (append t ts evicted b)
  note retained = retained_turns [OF assms(2) append(3)]
  have "tn_turnId b \<notin> tn_turnId ` set ts"
    using append(2) retained(3) bounded_turn [OF append(4)] by (auto simp: turn_index_None)
  moreover have "\<forall>t \<in> set ts. bounded_window (tn_events t)"
    using retained(3) assms(2) by (auto simp: thread_ok_def)
  ultimately show ?thesis
    using retained(1,2) retained(4) [OF append(1)] append(5-8) bounded_turn [OF append(4)]
    by (simp add: thread_ok_def flags_ok_def)
next
  case (insert r t ts evicted b)
  note retained = retained_turns [OF assms(2) insert(4)]
  obtain older where ts: "ts = older @ [r]" and fin: "\<forall>t \<in> set older. finished t"
    and turns: "th_turns th' = older @ [b, r]"
    using inserted_turns [OF assms(2) insert(1,4)] insert(7) by metis
  have "tn_turnId b \<notin> tn_turnId ` set ts"
    using insert(3) retained(3) bounded_turn [OF insert(5)] by (auto simp: turn_index_None)
  then have "distinct (map tn_turnId (older @ [b, r]))"
    using retained(2) by (auto simp: ts)
  moreover have "\<forall>t \<in> set (older @ [b, r]). bounded_window (tn_events t)"
    using retained(3) assms(2) bounded_turn [OF insert(5)] by (auto simp: ts thread_ok_def)
  moreover have "\<forall>t \<in> set (butlast (older @ [b, r])). finished t"
    using fin insert(2) bounded_turn [OF insert(5)] by (auto simp: butlast_append)
  moreover have "length (older @ [b, r]) \<le> 64" using retained(1) by (simp add: ts)
  ultimately show ?thesis unfolding thread_ok_def turns using insert(8,9)
    by (simp add: flags_ok_def)
qed

lemma thread_change_running:
  assumes "thread_change l th th'" and "thread_ok th" and "runningTurn th = Some r"
  shows "th_turns th' \<noteq> [] \<and>
    (last (th_turns th') = r \<or> (\<exists>lab. l = Some lab \<and> turn_step r lab (last (th_turns th'))))"
  using assms(1)
proof cases
  case touch
  with assms(3) show ?thesis by (simp add: runningTurn_Some)
next
  case (turn lab i t')
  have ne: "th_turns th \<noteq> []" using turn(2) by auto
  have "r = last (th_turns th)" using assms(3) by (simp add: runningTurn_Some)
  with turn(1-3,5) last_list_update [OF ne, of i t'] last_conv_nth [OF ne] ne show ?thesis by auto
next
  case (insert r' t ts evicted b)
  obtain older where "th_turns th' = older @ [b, r']"
    using inserted_turns [OF assms(2) insert(1,4)] insert(7) by metis
  with insert(1) assms(3) show ?thesis by simp
qed (use assms(3) in simp)

lemma thread_change_turn:
  assumes "thread_change l th th'" and ok: "thread_ok th" and t: "t \<in> set (th_turns th)"
    and t': "t' \<in> set (th_turns th')" and ident: "tn_turnId t' = tn_turnId t"
  shows "t' = t \<or> (\<exists>lab. l = Some lab \<and> turn_step t lab t')"
proof -
  have same: "u = t" if "u \<in> set (th_turns th)" "tn_turnId u = tn_turnId t" for u
    using ok t that by (auto simp: thread_ok_def distinct_map inj_on_def)
  have fresh: "tn_turnId b \<noteq> tn_turnId t"
    if "turn_index (tn_turnId new) (th_turns th) = None" "boundAgentTurnEvents new = Some b" for new b
    using that t bounded_turn [OF that(2)] by (auto simp: turn_index_None)
  show ?thesis using assms(1)
  proof cases
    case touch
    with same t' ident show ?thesis by simp
  next
    case (turn lab i u)
    show ?thesis
    proof (cases "t' \<in> set (th_turns th)")
      case False
      with t' turn(5) have "t' = u" using set_update_subset_insert [of "th_turns th" i u] by auto
      moreover from this have "th_turns th ! i = t"
        using same [of "th_turns th ! i"] turn(2) turn_step_id [OF turn(3)] ident by simp
      ultimately show ?thesis using turn(1,3) by auto
    qed (use same ident in blast)
  next
    case (append new ts evicted b)
    with t' ident fresh [OF append(2,4)] retained_turns(3) [OF ok append(3)] same show ?thesis by auto
  next
    case (insert r new ts evicted b)
    obtain older where "th_turns th' = older @ [b, r]" "ts = older @ [r]"
      using inserted_turns [OF ok insert(1,4)] insert(7) by metis
    with t' ident fresh [OF insert(3,5)] retained_turns(3) [OF ok insert(4)] same show ?thesis by auto
  qed
qed

lemma keyed_threads_ok:
  assumes "keyed (thread_change l) s s'" and "threads_ok s"
  shows "threads_ok s'"
proof -
  have wf: "map_wf s'" using assms by (simp add: keyed_def threads_ok_def keys_ok_def map_wf_def)
  have "th_threadId th' = k \<and> thread_ok th'" if at: "map_of s' k = Some th'" for k th'
  proof -
    have "k \<in> fst ` set s" using assms(1) at
      by (metis keyed_def domI dom_map_of_conv_image_fst list.set_map)
    then obtain th where th: "map_of s k = Some th" by (metis map_of_eq_None_iff option.exhaust)
    with assms(1) at have "th' = th \<or> thread_change l th th'"
      unfolding keyed_def by (metis option.inject)
    moreover have "th_threadId th = k" "thread_ok th" using assms(2) th by (auto simp: threads_ok_def keys_ok_def)
    ultimately show ?thesis using thread_change_ok by (auto elim: thread_change.cases)
  qed
  with wf show ?thesis by (simp add: threads_ok_def keys_ok_def)
qed

end
