(* ===== verification/Eviction.thy ===== *)
theory Eviction
  imports StoreInv
begin

text \<open>
  Which threads the store gives up when a root has more than 64 of them:
  \<open>evictThreadsForRoot\<close> of \<open>src/domain/agentThread.ts\<close>. The loop over the sorted candidates is a
  prefix of them, and the comparator orders threads with different identifiers strictly.
\<close>

section \<open>The order\<close>

lemma js_less_irrefl [simp]: "\<not> js_less a a"
  by (induction a) simp_all

lemma js_less_total: "a \<noteq> b \<Longrightarrow> js_less a b \<or> js_less b a"
proof (induction a b rule: js_less.induct)
  case (1 a)
  then show ?case by (cases a) simp_all
next
  case (3 x xs y ys)
  show ?case
  proof (cases "x = y")
    case False
    then have "unat x < unat y \<or> unat y < unat x" by (metis linorder_neqE_nat word_unat_eq_iff)
    with False show ?thesis by simp
  qed (use 3 in simp)
qed simp

lemma js_less_trans: "js_less a b \<Longrightarrow> js_less b c \<Longrightarrow> js_less a c"
proof (induction a b arbitrary: c rule: js_less.induct)
  case (2 y ys)
  then show ?case by (cases c) simp_all
next
  case (3 x xs y ys)
  then show ?case by (cases c) (auto split: if_splits)
qed simp

lemma js_less_asym: "js_less a b \<Longrightarrow> \<not> js_less b a"
  using js_less_trans by fastforce

lemma eviction_order_strict:
  assumes "inj_on th_threadId A"
  shows "strict_order_on A compareThreadEvictionOrder"
  unfolding strict_order_on_def
proof (intro conjI ballI impI)
  fix x y assume xy: "x \<in> A" "y \<in> A"
  show "compareThreadEvictionOrder x y < 0 \<or> compareThreadEvictionOrder y x < 0" if "x \<noteq> y"
    using that inj_onD [OF assms _ xy] js_less_total [of "th_threadId x" "th_threadId y"]
    by (auto simp: compareThreadEvictionOrder_def)
  show "0 < compareThreadEvictionOrder y x" if "compareThreadEvictionOrder x y < 0"
    using that js_less_asym [of "th_threadId x" "th_threadId y"]
    by (auto simp: compareThreadEvictionOrder_def split: if_splits)
  show "compareThreadEvictionOrder x z < 0"
    if "compareThreadEvictionOrder x y < 0" "compareThreadEvictionOrder y z < 0" for z
    using that js_less_trans [of "th_threadId x" "th_threadId y" "th_threadId z"]
    by (auto simp: compareThreadEvictionOrder_def split: if_splits)
qed

section \<open>The loop\<close>

definition without :: "agent_thread list \<Rightarrow> threads_state \<Rightarrow> threads_state" where
  "without ts s = filter (\<lambda>(k, t). k \<notin> th_threadId ` set ts) s"

lemma evict_loop_prefix:
  "evict_loop n ts s = without (take (n - 64) ts) s"
proof (induction n ts s rule: evict_loop.induct)
  case (2 n t ts s)
  show ?case
  proof (cases "n \<le> 64")
    case False
    then have "n - 64 = Suc (n - 1 - 64)" by simp
    with False 2 show ?thesis
      by (simp add: MAX_AGENT_THREADS_PER_ROOT_def without_def AList.delete_eq)
        (auto intro!: filter_cong)
  qed (simp add: MAX_AGENT_THREADS_PER_ROOT_def without_def)
qed (simp add: without_def)

definition victims :: "threads_state \<Rightarrow> js_string \<Rightarrow> agent_thread list" where
  "victims s rootKey = take (length (threads_in_root rootKey s) - 64)
     (js_sort compareThreadEvictionOrder (filter isEvictableThread (threads_in_root rootKey s)))"

lemma evict_without: "evictThreadsForRoot s rootKey = without (victims s rootKey) s"
  by (simp add: evictThreadsForRoot_def victims_def evict_loop_prefix MAX_AGENT_THREADS_PER_ROOT_def
      Let_def without_def)

lemma map_of_without: "map_of (without ts s) k = (if k \<in> th_threadId ` set ts then None else map_of s k)"
  by (induction s) (auto simp: without_def)

lemma keys_ok_without: "keys_ok s \<Longrightarrow> keys_ok (without ts s)"
  by (auto simp: keys_ok_def map_of_without map_wf_def without_def distinct_map_filter split: if_splits)

lemma victim_cases:
  "t \<in> set (victims s rootKey) \<Longrightarrow>
     t \<in> set (map_values s) \<and> ow_rootKey (th_owner t) = rootKey \<and> isEvictableThread t"
  by (auto simp: victims_def threads_in_root_def dest!: in_set_takeD)

lemma evict_keeps:
  assumes "keys_ok s" and "map_of s k = Some th" and "\<not> isEvictableThread th"
  shows "map_of (evictThreadsForRoot s rootKey) k = Some th"
proof -
  have "th_threadId th = k" by (rule keys_okD [OF assms(1,2)])
  then have "t = th" if "t \<in> set (victims s rootKey)" "th_threadId t = k" for t
    using that victim_cases [OF that(1)] map_values_of [OF assms(1), of t] assms(2) by simp
  with assms(2,3) victim_cases [of th s rootKey] show ?thesis by (auto simp: evict_without map_of_without)
qed

lemma evict_only_removes:
  "map_of (evictThreadsForRoot s rootKey) k = Some th \<Longrightarrow> map_of s k = Some th"
  by (simp add: evict_without map_of_without split: if_splits)

lemma keys_inj: "keys_ok s \<Longrightarrow> inj_on th_threadId (set (map_values s))"
  by (auto simp: inj_on_def map_values_of)

lemma values_distinct: "keys_ok s \<Longrightarrow> distinct (map_values s)"
proof -
  assume keys: "keys_ok s"
  have "map th_threadId (map_values s) = map fst s"
    using keys by (auto simp: map_values_def keys_ok_def map_wf_def intro: map_of_is_SomeI)
  then have "distinct (map th_threadId (map_values s))"
    using keys by (simp add: keys_ok_def map_wf_def)
  then show ?thesis by (simp add: distinct_map)
qed

lemma victims_members:
  assumes "keys_ok s"
  shows "distinct (victims s rootKey)"
    and "t \<in> set (map_values s) \<Longrightarrow> th_threadId t \<in> th_threadId ` set (victims s rootKey) \<longleftrightarrow>
      t \<in> set (victims s rootKey)"
proof -
  show "distinct (victims s rootKey)"
    using values_distinct [OF assms] by (simp add: victims_def threads_in_root_def)
  show "th_threadId t \<in> th_threadId ` set (victims s rootKey) \<longleftrightarrow> t \<in> set (victims s rootKey)"
    if "t \<in> set (map_values s)"
    using that victim_cases inj_onD [OF keys_inj [OF assms]] by blast
qed

lemma victims_oldest:
  assumes "keys_ok s" and "t \<in> set (victims s rootKey)" and "u \<in> set (threads_in_root rootKey s)"
    and "isEvictableThread u" and "u \<notin> set (victims s rootKey)"
  shows "compareThreadEvictionOrder t u < 0"
proof -
  let ?candidates = "filter isEvictableThread (threads_in_root rootKey s)"
  let ?sorted = "js_sort compareThreadEvictionOrder ?candidates"
  let ?n = "length (threads_in_root rootKey s) - 64"
  have "inj_on th_threadId (set ?candidates)"
    by (rule inj_on_subset [OF keys_inj [OF assms(1)]]) (auto simp: threads_in_root_def)
  then have "before compareThreadEvictionOrder ?sorted"
    using values_distinct [OF assms(1)]
    by (intro js_sort_before eviction_order_strict) (simp_all add: threads_in_root_def)
  then have "before compareThreadEvictionOrder (take ?n ?sorted @ drop ?n ?sorted)"
    by (simp only: append_take_drop_id)
  then have sorted: "\<forall>x \<in> set (take ?n ?sorted). \<forall>y \<in> set (drop ?n ?sorted). compareThreadEvictionOrder x y < 0"
    unfolding sorted_wrt_append by blast
  have "u \<in> set (take ?n ?sorted @ drop ?n ?sorted)"
    unfolding append_take_drop_id using assms(3,4) by simp
  with assms(5) have "u \<in> set (drop ?n ?sorted)" unfolding victims_def set_append by blast
  with sorted assms(2) show ?thesis unfolding victims_def by blast
qed


text \<open>A crowded root: 65 finished threads.\<close>

definition crowded :: threads_state where
  "crowded = map (\<lambda>n. ([word_of_nat n], plain_thread [word_of_nat n] [])) [0 ..< 65]"

lemma crowded_keys: "keys_ok crowded"
proof -
  have "inj_on (\<lambda>n. [word_of_nat n :: 16 word]) {0 ..< 65}"
    by (rule inj_on_inverseI [where g = "\<lambda>xs. unat (hd xs)"]) (simp add: unat_of_nat)
  then have "distinct (map fst crowded)" by (simp add: crowded_def distinct_map comp_def)
  then show ?thesis by (auto simp: keys_ok_def map_wf_def crowded_def plain_thread_def dest!: map_of_SomeD)
qed


end
