(* ===== verification/StoreAdmit.thy ===== *)
theory StoreAdmit
  imports Eviction
begin

text \<open>
  The handlers of \<open>src/domain/agentThread.ts\<close> that add and remove threads: loading a root,
  creating a thread, opening and evicting one of the history, deleting, releasing an owner. They
  never touch a running thread, what they add is bounded, and all but loading leave the threads
  that were there as they were.
\<close>

section \<open>Stored threads\<close>

text \<open>What a stored thread must be for the store to take it in.\<close>

definition stored_ok :: "agent_thread \<Rightarrow> bool" where
  "stored_ok th \<longleftrightarrow> length (th_turns th) \<le> 64 \<and> distinct (map tn_turnId (th_turns th)) \<and>
     \<not> (present (th_settledAt th) \<and> present (th_snoozedUntil th))"

definition created_ok :: "agent_thread \<Rightarrow> bool" where
  "created_ok th \<longleftrightarrow> stored_ok th \<and> (\<forall>t \<in> set (butlast (th_turns th)). finished t) \<and> flags_ok th"

lemma p_all_total:
  "(\<And>x. x \<in> set xs \<Longrightarrow> \<exists>y. f x = Some y) \<Longrightarrow> \<exists>ys. p_all f xs = Some ys"
  by (induction xs) force+

lemma p_all_list_all2: "p_all f xs = Some ys \<Longrightarrow> list_all2 (\<lambda>x y. f x = Some y) xs ys"
  by (induction xs arbitrary: ys) (auto simp: bind_eq_Some_conv)

lemma boundAgentThreadEvents_spec:
  "\<exists>ts. boundAgentThreadEvents th = Some (th\<lparr>th_turns := ts\<rparr>) \<and> map tn_turnId ts = map tn_turnId (th_turns th) \<and>
     map tn_status ts = map tn_status (th_turns th) \<and> (\<forall>t \<in> set ts. bounded_window (tn_events t))"
proof -
  obtain ts where ts: "p_all boundAgentTurnEvents (th_turns th) = Some ts"
    using p_all_total boundAgentTurnEvents_spec by metis
  then have rel: "list_all2 (\<lambda>x y. boundAgentTurnEvents x = Some y) (th_turns th) ts" by (rule p_all_list_all2)
  have "map tn_turnId ts = map tn_turnId (th_turns th) \<and> map tn_status ts = map tn_status (th_turns th) \<and>
    (\<forall>t \<in> set ts. bounded_window (tn_events t))"
    using rel by (induction rule: list_all2_induct) (auto dest: bounded_turn)
  with ts show ?thesis by (auto simp: boundAgentThreadEvents_def bind_eq_Some_conv)
qed

lemma statuses_finished:
  assumes "map tn_status ts = map tn_status us"
  shows "(\<forall>t \<in> set (butlast ts). finished t) = (\<forall>t \<in> set (butlast us). finished t)"
    and "runningTurn (th\<lparr>th_turns := ts\<rparr>) = None \<longleftrightarrow> runningTurn (th\<lparr>th_turns := us\<rparr>) = None"
proof -
  have "map tn_status (butlast ts) = map tn_status (butlast us)" using assms by (metis map_butlast)
  then have "(\<forall>st \<in> set (map tn_status (butlast ts)). isTerminalAgentTurnStatus st) =
    (\<forall>st \<in> set (map tn_status (butlast us)). isTerminalAgentTurnStatus st)" by simp
  then show "(\<forall>t \<in> set (butlast ts). finished t) = (\<forall>t \<in> set (butlast us). finished t)" by simp
  have "(ts = []) = (us = [])" using assms by (metis map_is_Nil_conv)
  moreover have "us \<noteq> [] \<Longrightarrow> tn_status (last ts) = tn_status (last us)"
    using assms calculation by (metis last_map)
  ultimately show "runningTurn (th\<lparr>th_turns := ts\<rparr>) = None \<longleftrightarrow> runningTurn (th\<lparr>th_turns := us\<rparr>) = None"
    by (auto simp: runningTurn_None)
qed

lemma created_bounded:
  assumes "created_ok th"
  shows "\<exists>b. boundAgentThreadEvents th = Some b \<and> thread_ok b \<and> th_threadId b = th_threadId th \<and>
    th_owner b = th_owner th"
proof -
  obtain ts where ts: "boundAgentThreadEvents th = Some (th\<lparr>th_turns := ts\<rparr>)"
    "map tn_turnId ts = map tn_turnId (th_turns th)" "map tn_status ts = map tn_status (th_turns th)"
    "\<forall>t \<in> set ts. bounded_window (tn_events t)"
    using boundAgentThreadEvents_spec by blast
  have "flags_ok (th\<lparr>th_turns := ts\<rparr>)"
    using assms statuses_finished(2) [OF ts(3), of th] by (simp add: created_ok_def flags_ok_def)
  moreover have "length ts = length (th_turns th)" using ts(2) by (metis length_map)
  ultimately have "thread_ok (th\<lparr>th_turns := ts\<rparr>)"
    using assms ts statuses_finished(1) [OF ts(3)] by (simp add: thread_ok_def created_ok_def stored_ok_def)
  with ts(1) show ?thesis by auto
qed

lemma mark_interrupted_finished:
  "finished (mark_interrupted t)" "tn_turnId (mark_interrupted t) = tn_turnId t"
  by (auto simp: mark_interrupted_def recoverAgentTurnResultStatus_terminal split: option.split)

lemma marked_created:
  assumes "stored_ok th"
  shows "created_ok (markInterruptedTurns th)"
proof -
  have "runningTurn (markInterruptedTurns th) = None"
    by (cases "th_turns th = []")
      (simp_all add: runningTurn_None markInterruptedTurns_def last_map mark_interrupted_finished)
  moreover have "\<forall>t \<in> set (butlast (map mark_interrupted (th_turns th))). finished t"
    by (auto simp: mark_interrupted_finished simp flip: map_butlast)
  ultimately show ?thesis using assms
    by (simp add: created_ok_def stored_ok_def flags_ok_def markInterruptedTurns_def comp_def
        mark_interrupted_finished)
qed

lemma stored_bounded:
  assumes "stored_ok th"
  shows "\<exists>b. boundAgentThreadEvents (markInterruptedTurns th) = Some b \<and> thread_ok b \<and>
    th_threadId b = th_threadId th \<and> th_owner b = th_owner th"
  using created_bounded [OF marked_created [OF assms]] by (simp add: markInterruptedTurns_def)

section \<open>Effects on the store\<close>

text \<open>Running threads stay, what is new is well formed; and: what stays stays as it was.\<close>

definition grown :: "threads_state \<Rightarrow> threads_state \<Rightarrow> bool" where
  "grown s s' \<longleftrightarrow> keys_ok s' \<and>
     (\<forall>k th. map_of s k = Some th \<longrightarrow> runningTurn th \<noteq> None \<longrightarrow> map_of s' k = Some th) \<and>
     (\<forall>k th. map_of s' k = Some th \<longrightarrow> map_of s k = Some th \<or> thread_ok th)"

definition stable :: "threads_state \<Rightarrow> threads_state \<Rightarrow> bool" where
  "stable s s' \<longleftrightarrow> (\<forall>k th th'. map_of s k = Some th \<longrightarrow> map_of s' k = Some th' \<longrightarrow> th' = th)"

lemma grown_refl [simp]: "keys_ok s \<Longrightarrow> grown s s"
  by (simp add: grown_def)

lemma stable_refl [simp]: "stable s s"
  by (simp add: stable_def)

lemma grown_trans: "grown s s' \<Longrightarrow> grown s' s'' \<Longrightarrow> grown s s''"
  unfolding grown_def by metis

lemma grown_threads_ok: "threads_ok s \<Longrightarrow> grown s s' \<Longrightarrow> threads_ok s'"
  unfolding threads_ok_def grown_def by blast

lemma grown_update:
  "keys_ok s \<Longrightarrow> map_of s (th_threadId th) = None \<Longrightarrow> thread_ok th \<Longrightarrow>
     grown s (AList.update (th_threadId th) th s)"
  by (auto simp: grown_def keys_ok_def)

lemma keys_ok_delete: "keys_ok s \<Longrightarrow> keys_ok (AList.delete k s)"
  by (simp add: keys_ok_def)

lemma grown_delete:
  "keys_ok s \<Longrightarrow> map_of s k = Some th \<Longrightarrow> runningTurn th = None \<Longrightarrow> grown s (AList.delete k s)"
  by (auto simp: grown_def keys_ok_delete)

lemma stable_delete: "stable s (AList.delete k s)"
  by (simp add: stable_def)

lemma grown_evict: "keys_ok s \<Longrightarrow> grown s (evictThreadsForRoot s rootKey)"
  unfolding grown_def
proof (intro conjI allI impI)
  assume keys: "keys_ok s"
  show "keys_ok (evictThreadsForRoot s rootKey)" by (simp add: evict_without keys_ok_without keys)
  show "map_of (evictThreadsForRoot s rootKey) k = Some th"
    if "map_of s k = Some th" "runningTurn th \<noteq> None" for k th
    using that by (intro evict_keeps [OF keys]) (simp_all add: isEvictableThread_def)
  show "map_of s k = Some th \<or> thread_ok th" if "map_of (evictThreadsForRoot s rootKey) k = Some th" for k th
    using evict_only_removes [OF that] by blast
qed

lemma stable_sub:
  "stable s m \<Longrightarrow> (\<And>k th. map_of m' k = Some th \<Longrightarrow> map_of m k = Some th) \<Longrightarrow> stable s m'"
  unfolding stable_def by metis

lemma stable_added: "map_of s k = None \<Longrightarrow> stable s (AList.update k th s)"
  by (auto simp: stable_def)

lemma evictable_not_running: "isEvictableThread th \<Longrightarrow> runningTurn th = None"
  by (simp add: isEvictableThread_def split: if_splits)

section \<open>The handlers\<close>

lemma create_effect:
  assumes "threads_ok s" and "created_ok th"
  shows "\<exists>s'. createThread s th = Some s' \<and> grown s s' \<and> stable s s'"
proof (cases "createThread s th = Some s")
  case False
  obtain b where b: "boundAgentThreadEvents th = Some b" "thread_ok b" "th_threadId b = th_threadId th"
    "th_owner b = th_owner th" using created_bounded [OF assms(2)] by blast
  let ?added = "AList.update (th_threadId th) b s"
  from False have absent: "map_of s (th_threadId th) = None"
    "createThread s th = Some (evictThreadsForRoot ?added (ow_rootKey (th_owner th)))"
    using b(1) by (auto simp: createThread_def split: if_splits)
  have keys: "keys_ok s" using assms(1) by (simp add: threads_ok_def)
  have "grown s ?added" using grown_update [OF keys, of b] absent b by simp
  moreover from this have "grown ?added (evictThreadsForRoot ?added (ow_rootKey (th_owner th)))"
    by (intro grown_evict) (simp add: grown_def)
  moreover have "stable s (evictThreadsForRoot ?added (ow_rootKey (th_owner th)))"
    using stable_added [OF absent(1)] evict_only_removes by (rule stable_sub)
  ultimately show ?thesis using absent(2) grown_trans by blast
qed (use assms in \<open>auto simp: threads_ok_def\<close>)

lemma open_effect:
  assumes "threads_ok s" and "stored_ok th"
  shows "\<exists>s'. openHistoryThread s th evictId = Some s' \<and> grown s s' \<and> stable s s'"
proof (cases "openHistoryThread s th evictId = Some s")
  case False
  have keys: "keys_ok s" using assms(1) by (simp add: threads_ok_def)
  obtain b where b: "boundAgentThreadEvents (markInterruptedTurns th) = Some b" "thread_ok b"
    "th_threadId b = th_threadId th" using stored_bounded [OF assms(2)] by blast
  have absent: "map_of s (th_threadId th) = None"
  proof (rule ccontr)
    assume "map_of s (th_threadId th) \<noteq> None"
    then have "openHistoryThread s th evictId = Some s" by (simp add: openHistoryThread_def)
    with False show False by blast
  qed
  let ?rest = "\<lambda>cleared. if length (threads_in_root (ow_rootKey (th_owner th)) cleared) \<ge> MAX_AGENT_THREADS_PER_ROOT
    then Some s
    else if list_ex (\<lambda>t. findTurn cleared (tn_turnId t) \<noteq> None) (th_turns th) then Some s
    else Some (AList.update (th_threadId th) b cleared)"
  obtain cleared where opened: "openHistoryThread s th evictId = ?rest cleared"
    and cleared: "cleared = s \<or> (\<exists>k victim. map_of s k = Some victim \<and> isEvictableThread victim \<and>
      cleared = AList.delete (th_threadId victim) s)"
  proof (cases evictId)
    case None
    with absent b(1) show thesis by (intro that [of s]) (simp_all add: openHistoryThread_def)
  next
    case (Some e)
    show thesis
    proof (cases "map_of s e")
      case None
      with Some False absent show thesis by (simp add: openHistoryThread_def)
    next
      case victim: (Some victim)
      from False have "ow_rootKey (th_owner victim) = ow_rootKey (th_owner th) \<and> isEvictableThread victim"
        unfolding openHistoryThread_def Some using absent victim by (auto split: if_splits)
      then show thesis using Some victim absent b(1)
        by (intro that [of "AList.delete (th_threadId victim) s"]) (auto simp: openHistoryThread_def)
    qed
  qed
  with False have result: "openHistoryThread s th evictId = Some (AList.update (th_threadId th) b cleared)"
    by (simp split: if_splits)
  have "grown s cleared \<and> stable s cleared"
    using cleared keys keys_okD [OF keys] evictable_not_running
    by (auto intro: grown_delete stable_delete)
  moreover from this have "map_of cleared (th_threadId th) = None"
    using cleared absent by auto
  moreover from calculation have "grown cleared (AList.update (th_threadId th) b cleared)"
    using grown_update [of cleared b] b by (simp add: grown_def)
  moreover have "stable s (AList.update (th_threadId th) b cleared)"
    using calculation(1) absent unfolding stable_def by (metis map_get_set fun_upd_apply option.simps(3))
  ultimately show ?thesis using result grown_trans by blast
qed (use assms in \<open>auto simp: threads_ok_def\<close>)

lemma remove_effects:
  assumes "keys_ok s"
  shows "grown s (evictHistoryThread s k)" "stable s (evictHistoryThread s k)"
    and "grown s (deleteThread s k)" "stable s (deleteThread s k)"
  using assms evictable_not_running
  by (auto simp: evictHistoryThread_def deleteThread_def split: option.split
      intro!: grown_delete stable_delete)

section \<open>Loading and releasing\<close>

lemma foldl_update_filter:
  "map_wf (acc @ s) \<Longrightarrow>
     foldl (\<lambda>m (k, th). if P th k then AList.update k th m else m) acc s = acc @ filter (\<lambda>(k, th). P th k) s"
proof (induction s arbitrary: acc)
  case (Cons entry s)
  obtain k th where entry: "entry = (k, th)" by force
  have "map_of acc k = None" using Cons.prems by (auto simp: map_wf_def entry map_of_eq_None_iff)
  moreover have "map_wf ((acc @ [(k, th)]) @ s)" "map_wf (acc @ s)"
    using Cons.prems by (auto simp: map_wf_def entry)
  ultimately show ?case using Cons.IH by (simp add: entry update_absent)
qed simp

lemma map_of_filter_wf:
  "map_wf s \<Longrightarrow> map_of (filter (\<lambda>(k, th). P th k) s) k =
     (case map_of s k of None \<Rightarrow> None | Some th \<Rightarrow> if P th k then Some th else None)"
proof (induction s)
  case (Cons entry s)
  obtain k' th where entry: "entry = (k', th)" by force
  have "map_wf s" and fresh: "map_of s k' = None"
    using Cons.prems by (auto simp: map_wf_def entry map_of_eq_None_iff)
  with Cons.IH show ?case by (auto simp: entry split: option.splits)
qed simp

lemma filter_effect:
  assumes "keys_ok s" and "\<And>k th. map_of s k = Some th \<Longrightarrow> runningTurn th \<noteq> None \<Longrightarrow> P th k"
  shows "grown s (filter (\<lambda>(k, th). P th k) s)" and "stable s (filter (\<lambda>(k, th). P th k) s)"
proof -
  have wf: "map_wf s" using assms(1) by (simp add: keys_ok_def)
  then have "map_wf (filter (\<lambda>(k, th). P th k) s)" by (auto simp: map_wf_def distinct_map_filter)
  then show "grown s (filter (\<lambda>(k, th). P th k) s)"
    using assms by (auto simp: grown_def keys_ok_def map_of_filter_wf split: option.splits if_splits)
  show "stable s (filter (\<lambda>(k, th). P th k) s)"
    by (auto simp: stable_def map_of_filter_wf [OF wf] split: if_splits)
qed

lemma release_effect:
  assumes "keys_ok s"
  shows "grown s (releaseOwner s ownerId)" and "stable s (releaseOwner s ownerId)"
proof -
  let ?keep = "\<lambda>th (k :: js_string). \<not> (ow_ownerId (th_owner th) = ownerId \<and> runningTurn th = None)"
  have wf: "map_wf ([] @ s)" using assms by (simp add: keys_ok_def)
  have eq: "(\<lambda>m (k, th). if ow_ownerId (th_owner th) = ownerId \<and> runningTurn th = None then m
      else AList.update k th m) = (\<lambda>m (k, th). if ?keep th k then AList.update k th m else m)"
    by (auto simp: fun_eq_iff)
  have "releaseOwner s ownerId = s \<or> releaseOwner s ownerId = filter (\<lambda>(k, th). ?keep th k) s"
    using foldl_update_filter [OF wf, of ?keep] unfolding releaseOwner_def eq Let_def by simp
  with filter_effect [OF assms, of ?keep] assms
  show "grown s (releaseOwner s ownerId)" "stable s (releaseOwner s ownerId)" by auto
qed

lemma add_loaded_effect:
  assumes "keys_ok s" and "\<forall>th \<in> set loaded. stored_ok th"
  shows "\<exists>s'. add_loaded owner loaded s = Some s' \<and> grown s s'"
  using assms
proof (induction loaded arbitrary: s)
  case (Cons th loaded)
  obtain b where b: "boundAgentThreadEvents (markInterruptedTurns th) = Some b" "thread_ok b"
    "th_threadId b = th_threadId th" using stored_bounded [of th] Cons.prems(2) by auto
  show ?case
  proof (cases "ow_rootKey (th_owner th) \<noteq> lo_rootKey owner \<or>
      ow_ownerId (th_owner th) \<noteq> lo_ownerId owner \<or> map_of s (th_threadId th) \<noteq> None")
    case True
    then have "add_loaded owner (th # loaded) s = add_loaded owner loaded s" by simp
    with Cons show ?thesis by simp
  next
    case False
    then have added: "add_loaded owner (th # loaded) s =
        add_loaded owner loaded (AList.update (th_threadId th) b s)" using b(1) by simp
    have "grown s (AList.update (th_threadId th) b s)"
      using grown_update [OF Cons.prems(1), of b] False b by simp
    moreover from this have "keys_ok (AList.update (th_threadId th) b s)" by (simp add: grown_def)
    ultimately show ?thesis unfolding added using Cons.IH [of "AList.update (th_threadId th) b s"] Cons.prems(2)
      by (metis grown_trans list.set_intros(2))
  qed
qed simp

lemma load_effect:
  assumes "threads_ok s" and "\<forall>th \<in> set loaded. stored_ok th"
  shows "\<exists>s'. loadThreads s owner loaded ids = Some s' \<and> grown s s'"
proof -
  let ?kept = "filter (\<lambda>(k, th). keep_loaded owner ids th k) s"
  have keys: "keys_ok s" using assms(1) by (simp add: threads_ok_def)
  then have "foldl (\<lambda>m (k, th). if keep_loaded owner ids th k then AList.update k th m else m) [] s = ?kept"
    using foldl_update_filter [of "[]" s "keep_loaded owner ids"] by (simp add: keys_ok_def)
  moreover have kept: "grown s ?kept"
    using filter_effect(1) [OF keys, of "keep_loaded owner ids"] by (simp add: keep_loaded_def)
  moreover obtain m where m: "add_loaded owner loaded ?kept = Some m" "grown ?kept m"
    using add_loaded_effect [of ?kept loaded owner] kept assms(2) by (auto simp: grown_def)
  ultimately have "loadThreads s owner loaded ids = Some (evictThreadsForRoot m (lo_rootKey owner))"
    by (simp add: loadThreads_def Let_def)
  moreover have "grown m (evictThreadsForRoot m (lo_rootKey owner))"
    using m(2) by (intro grown_evict) (simp add: grown_def)
  ultimately show ?thesis using kept m(2) grown_trans by blast
qed

end
