(* ===== verification/StoreProps.thy ===== *)
theory StoreProps
  imports StoreAdmit
begin

text \<open>
  The thread store as a state machine: the states the reducer reaches from the empty store, and
  what holds along every run.
\<close>

section \<open>Actions\<close>

text \<open>What the callers promise: a created thread is well formed, a stored one was once.\<close>

fun action_ok :: "threads_action \<Rightarrow> bool" where
  "action_ok (Loaded owner threads ids) = (\<forall>th \<in> set threads. stored_ok th)"
| "action_ok (HistoryThreadOpened th evictId) = stored_ok th"
| "action_ok (ThreadCreated th) = created_ok th"
| "action_ok _ = True"

text \<open>The step of the turn machine an action asks for.\<close>

fun label_of :: "threads_action \<Rightarrow> turn_label option" where
  "label_of (TaskStatusReported k event now) = Some (Reported event now)"
| "label_of (TurnEventsAppended action) = Some (Output action)"
| "label_of (TurnSteered k ident event) = Some (Steered event)"
| "label_of (TurnInterruptRequested ident now) = Some (Interrupted now)"
| "label_of (TurnHaltRequested request) = Some (HaltAsked (hi_attempt request))"
| "label_of (TurnHydrated k ident events hasEarlier) = Some (Hydrated events hasEarlier)"
| "label_of (TurnPromptRestored k ident prompt) = Some (PromptRepaired prompt)"
| "label_of (TurnLifecycleRestored k ident logged) = Some (LifecycleRepaired logged)"
| "label_of _ = None"

fun is_load :: "threads_action \<Rightarrow> bool" where
  "is_load (Loaded _ _ _) = True"
| "is_load _ = False"

lemmas keyed_handlers = status_keyed interrupt_keyed halt_keyed prompt_keyed repair_keyed touch_keyed
  archive_keyed organize_keyed

lemma reducer_effect:
  assumes ok: "threads_ok s" "action_ok action" and step: "agentThreadsReducer lc s action = Some s'"
  shows "keyed (thread_change (label_of action)) s s' \<or> grown s s' \<and> (stable s s' \<or> is_load action)"
proof -
  have keys: "keys_ok s" using ok(1) by (simp add: threads_ok_def)
  note admitted = create_effect [OF ok(1)] open_effect [OF ok(1)] load_effect [OF ok(1)]
  show ?thesis
  proof (cases action)
    case (Loaded owner threads ids)
    with ok(2) step admitted(3) [of threads owner ids] show ?thesis by auto
  next
    case (ThreadCreated th)
    with ok(2) step admitted(1) [of th] show ?thesis by auto
  next
    case (HistoryThreadOpened th evictId)
    with ok(2) step admitted(2) [of th evictId] show ?thesis by auto
  qed (use step keys keyed_handlers [OF keys] reorder_keyed remove_effects [OF keys] release_effect [OF keys] in
      \<open>auto intro: append_keyed steer_keyed hydrate_keyed start_keyed background_keyed\<close>)
qed

section \<open>Totality\<close>

lemma boundAgentTurnEvents_total: "\<exists>b. boundAgentTurnEvents t = Some b"
  using boundAgentTurnEvents_spec [of t] by blast

lemma boundAgentThreadEvents_total: "\<exists>b. boundAgentThreadEvents th = Some b"
  using boundAgentThreadEvents_spec [of th] by blast

lemma mergeTurnEvents_total: "\<exists>r. mergeTurnEvents es fs = Some r"
  using mergeTurnEvents_spec [of es fs] by blast

lemma add_loaded_total: "\<exists>s'. add_loaded owner loaded s = Some s'"
proof (induction loaded arbitrary: s)
  case (Cons th loaded)
  obtain b where "boundAgentThreadEvents (markInterruptedTurns th) = Some b"
    using boundAgentThreadEvents_total by blast
  with Cons show ?case by simp
qed simp

lemma placeTurn_total: "\<exists>s'. placeTurn s th t at_ms place = Some s'"
proof -
  obtain b where "boundAgentTurnEvents t = Some b" using boundAgentTurnEvents_total by blast
  then show ?thesis by (simp add: placeTurn_def split: option.split prod.split)
qed

lemma appendTurn_total: "\<exists>s'. appendTurn s th t at_ms = Some s'"
  using placeTurn_total by (simp add: appendTurn_def)

lemma handlers_total:
  "\<exists>s'. loadThreads s lo threads ids = Some s'" "\<exists>s'. createThread s th = Some s'"
  "\<exists>s'. openHistoryThread s th evictId = Some s'" "\<exists>s'. startTurn s k t = Some s'"
  "\<exists>s'. recordBackgroundTurn s k workspace t = Some s'" "\<exists>s'. appendTurnEvents s act = Some s'"
  "\<exists>s'. appendSteeredMessage s k ident event = Some s'" "\<exists>s'. hydrateTurn s k ident events hasEarlier = Some s'"
proof -
  show "\<exists>s'. loadThreads s lo threads ids = Some s'"
    using add_loaded_total by (simp add: loadThreads_def Let_def bind_eq_Some_conv)
  obtain b where b: "boundAgentThreadEvents th = Some b" using boundAgentThreadEvents_total by blast
  then show "\<exists>s'. createThread s th = Some s'" by (simp add: createThread_def)
  obtain m where "boundAgentThreadEvents (markInterruptedTurns th) = Some m"
    using boundAgentThreadEvents_total by blast
  then show "\<exists>s'. openHistoryThread s th evictId = Some s'"
    by (simp add: openHistoryThread_def Let_def split: option.split)
  show "\<exists>s'. startTurn s k t = Some s'" using appendTurn_total by (simp add: startTurn_def split: option.split)
  show "\<exists>s'. recordBackgroundTurn s k workspace t = Some s'"
    using appendTurn_total placeTurn_total
    by (simp add: recordBackgroundTurn_def insertTurnBefore_def Let_def split: option.split)
  show "\<exists>s'. appendTurnEvents s act = Some s'"
    using mergeTurnEvents_total
    by (simp add: appendTurnEvents_def appended_turn_def Let_def bind_eq_Some_conv split: option.split)
  show "\<exists>s'. appendSteeredMessage s k ident event = Some s'"
    using mergeTurnEvents_total
    by (simp add: appendSteeredMessage_def Let_def bind_eq_Some_conv split: option.split)
  obtain r where "capPersistedTurnEvents events = Some r" using capPersisted_spec [of events] by blast
  then show "\<exists>s'. hydrateTurn s k ident events hasEarlier = Some s'"
    by (simp add: hydrateTurn_def Let_def split: option.split)
qed

text \<open>
  C26: The reducer handles every action in every state: it always returns a new state. The loops
  inside it (merging a batch, capping a window, evicting threads) all end.
\<close>

theorem reducer_total: "\<exists>s'. agentThreadsReducer lc s action = Some s'"
  by (cases action) (simp_all add: handlers_total)

end
