(* ===== verification/StoreRuns.thy ===== *)
theory StoreRuns
  imports StoreProps ThreadOrderPlan
begin

text \<open>
  Runs of the thread store: every reachable state satisfies the invariant, every step of the
  reducer is a step of the turn machine for each turn it leaves in place, a running turn is never
  lost, what the user said stays in it, and repeated deliveries change nothing.
\<close>

section \<open>Reachable states\<close>

inductive reachable :: "(js_string \<Rightarrow> js_string \<Rightarrow> int) \<Rightarrow> threads_state \<Rightarrow> bool" for lc where
  initially: "reachable lc emptyAgentThreadsState"
| after: "reachable lc s \<Longrightarrow> action_ok action \<Longrightarrow> agentThreadsReducer lc s action = Some s' \<Longrightarrow>
    reachable lc s'"

lemma step_ok:
  assumes "threads_ok s" and "action_ok action" and "agentThreadsReducer lc s action = Some s'"
  shows "threads_ok s'"
  using reducer_effect [OF assms] keyed_threads_ok [OF _ assms(1)] grown_threads_ok [OF assms(1)] by blast

lemma reachable_ok: "reachable lc s \<Longrightarrow> threads_ok s"
proof (induction rule: reachable.induct)
  case initially
  show ?case by (simp add: emptyAgentThreadsState_def threads_ok_def keys_ok_def)
qed (rule step_ok)

text \<open>
  C3: Whatever well-formed actions the store has handled, in whatever order: every thread is stored
  under its own identifier, has at most 64 turns with distinct identifiers of which only the last
  may be running, every turn's events are a bounded window, and a thread that is settled or
  archived is not running, nor is a settled one snoozed.
\<close>

theorem reachable_threads_well_formed:
  assumes "reachable lc s" and "map_of s k = Some th"
  shows "th_threadId th = k \<and> map_wf s \<and> length (th_turns th) \<le> 64 \<and>
    distinct (map tn_turnId (th_turns th)) \<and>
    (\<forall>t \<in> set (th_turns th). bounded_window (tn_events t) \<and> (\<not> finished t \<longrightarrow> runningTurn th = Some t)) \<and>
    (present (th_settledAt th) \<longrightarrow> runningTurn th = None \<and> \<not> present (th_snoozedUntil th)) \<and>
    (th_archived th \<longrightarrow> runningTurn th = None)"
proof -
  from reachable_ok [OF assms(1)] assms(2) have ok: "keys_ok s" "thread_ok th" by (auto simp: threads_ok_def)
  with running_last [OF ok(2)] assms(2) show ?thesis
    by (auto simp: thread_ok_def flags_ok_def keys_ok_def)
qed

section \<open>Steps of turns\<close>

lemma step_turn:
  assumes ok: "threads_ok s" "action_ok action" and step: "agentThreadsReducer lc s action = Some s'"
    and th: "map_of s k = Some th" and th': "map_of s' k = Some th'"
    and t: "t \<in> set (th_turns th)" "t' \<in> set (th_turns th')" "tn_turnId t' = tn_turnId t"
    and kept: "\<not> is_load action \<or> runningTurn th \<noteq> None"
  shows "t' = t \<or> (\<exists>l. label_of action = Some l \<and> turn_step t l t')"
proof -
  have thread: "thread_ok th" using ok(1) th by (auto simp: threads_ok_def)
  have same: "t' = t" if "th' = th"
    using that t thread by (auto simp: thread_ok_def distinct_map inj_on_def)
  from reducer_effect [OF ok step] show ?thesis
  proof (elim disjE conjE)
    assume "keyed (thread_change (label_of action)) s s'"
    with th th' have "th' = th \<or> thread_change (label_of action) th th'"
      unfolding keyed_def by (metis option.inject)
    with same thread_change_turn [OF _ thread t] show ?thesis by blast
  next
    assume "stable s s'"
    with th th' same show ?thesis unfolding stable_def by blast
  next
    assume "grown s s'" "is_load action"
    with kept th th' same show ?thesis unfolding grown_def by (metis option.inject)
  qed
qed



section \<open>The running turn\<close>

lemma step_running:
  assumes ok: "threads_ok s" "action_ok action" and step: "agentThreadsReducer lc s action = Some s'"
    and th: "map_of s k = Some th" and r: "runningTurn th = Some r"
  shows "\<exists>th'. map_of s' k = Some th' \<and> th_turns th' \<noteq> [] \<and>
    (last (th_turns th') = r \<or> (\<exists>l. label_of action = Some l \<and> turn_step r l (last (th_turns th'))))"
proof -
  have thread: "thread_ok th" using ok(1) th by (auto simp: threads_ok_def)
  have same: "th_turns th \<noteq> [] \<and> last (th_turns th) = r" using r by (simp add: runningTurn_Some)
  from reducer_effect [OF ok step] show ?thesis
  proof (elim disjE conjE)
    assume "keyed (thread_change (label_of action)) s s'"
    with th obtain th' where "map_of s' k = Some th'" "th' = th \<or> thread_change (label_of action) th th'"
      unfolding keyed_def by metis
    with same thread_change_running [OF _ thread r] show ?thesis by blast
  qed (use th r same in \<open>auto simp: grown_def\<close>)
qed

text \<open>
  C2: A running turn is never lost. Whatever the action, the thread of a running turn is still in
  the store afterwards and the turn is still its last one, unchanged or one step of the turn
  machine further: no eviction, load, deletion, release or background turn removes or displaces it.
\<close>

theorem running_turn_never_lost:
  assumes "reachable lc s" and "action_ok action" and "agentThreadsReducer lc s action = Some s'"
    and "map_of s k = Some th" and "runningTurn th = Some r"
  shows "\<exists>th'. map_of s' k = Some th' \<and> th_turns th' \<noteq> [] \<and> tn_turnId (last (th_turns th')) = tn_turnId r \<and>
    (last (th_turns th') = r \<or> (\<exists>l. label_of action = Some l \<and> turn_step r l (last (th_turns th'))))"
  using step_running [OF reachable_ok [OF assms(1)] assms(2-5)] turn_step_id by blast

section \<open>What the user said\<close>

lemma steer_accepted:
  assumes ok: "threads_ok s" and th: "map_of s k = Some th" and r: "runningTurn th = Some r"
    and fits: "utf8ByteLength (um_text event) \<le> MAX_AGENT_EVENT_TEXT_BYTES"
    and accepts: "agentTurnAcceptsSteerBytes r (int (agentTurnEventUtf8Bytes (UserMessage event)))"
    and step: "appendSteeredMessage s k (tn_turnId r) event = Some s'"
  shows "\<exists>th' r'. map_of s' k = Some th' \<and> th_turns th' \<noteq> [] \<and> last (th_turns th') = r' \<and>
    turn_step r (Steered event) r'"
proof -
  have keys: "th_threadId th = k" and thread: "thread_ok th"
    using ok th by (auto simp: threads_ok_def keys_ok_def)
  let ?i = "length (th_turns th) - 1"
  have last: "th_turns th \<noteq> []" "r = th_turns th ! ?i" "\<not> finished r"
    using r by (auto simp: runningTurn_Some last_conv_nth)
  have index: "turn_index (tn_turnId r) (th_turns th) = Some ?i"
    using turn_index_distinct [of "th_turns th" ?i] thread last by (simp add: thread_ok_def)
  obtain merged where merged: "mergeTurnEvents (tn_events r) [UserMessage event] = Some merged"
    using mergeTurnEvents_total by blast
  let ?r' = "r\<lparr>tn_events := retained_events merged, tn_foregroundSettled := Some False,
    tn_eventsTruncated := tn_eventsTruncated r \<or> retained_truncated merged\<rparr>"
  have "findTurnInThread s k (tn_turnId r) = Some (th, ?i)" using th index by (simp add: findTurnInThread_Some)
  with step fits accepts last merged have "s' = replaceThread s (set_turn th ?i ?r')"
    by (simp add: appendSteeredMessage_def Let_def)
  then have "map_of s' k = Some (set_turn th ?i ?r')" using keys by (simp add: replaceThread_def)
  moreover have "last (th_turns (set_turn th ?i ?r')) = ?r'" using last(1) by (simp add: last_list_update)
  ultimately show ?thesis
    using turn_step.steer [OF last(3) fits accepts merged] last(1)
    by (intro exI conjI) (assumption | simp)+
qed

text \<open>
  C12: What the user says to a running turn stays in it. As long as output carries no messages of
  the user itself, every action leaves the messages of the running turn as they are, in order,
  or adds the one it steers; a message that is steered to the turn and within its limits is added;
  and the messages stay within what steering allows, so this holds for the next action again.
\<close>

theorem steered_messages_kept:
  assumes "reachable lc s" and "action_ok action" and "agentThreadsReducer lc s action = Some s'"
    and "map_of s k = Some th" and "runningTurn th = Some r" and "steers_ok r"
    and "\<forall>act. action = TurnEventsAppended act \<longrightarrow> filter is_user_message (ap_events act) = []"
  shows "\<exists>th' r'. map_of s' k = Some th' \<and> last (th_turns th') = r' \<and> tn_turnId r' = tn_turnId r \<and>
    steers_ok r' \<and>
    (messages r' = messages r \<or>
      (\<exists>event. label_of action = Some (Steered event) \<and> messages r' = messages r @ [UserMessage event])) \<and>
    (\<forall>event. action = TurnSteered k (tn_turnId r) event \<longrightarrow>
      utf8ByteLength (um_text event) \<le> MAX_AGENT_EVENT_TEXT_BYTES \<longrightarrow>
      agentTurnAcceptsSteerBytes r (int (agentTurnEventUtf8Bytes (UserMessage event))) \<longrightarrow>
      messages r' = messages r @ [UserMessage event])"
proof -
  note ok = reachable_ok [OF assms(1)]
  obtain th' where th': "map_of s' k = Some th'"
    "last (th_turns th') = r \<or> (\<exists>l. label_of action = Some l \<and> turn_step r l (last (th_turns th')))"
    using step_running [OF ok assms(2-5)] by blast
  let ?r = "last (th_turns th')"
  have running: "\<not> finished r" using assms(5) by (auto simp: runningTurn_Some)
  have "tn_turnId ?r = tn_turnId r" using th'(2) turn_step_id by blast
  moreover have "steers_ok ?r \<and> (messages ?r = messages r \<or>
      (\<exists>event. label_of action = Some (Steered event) \<and> messages ?r = messages r @ [UserMessage event]))"
  proof (cases "?r = r")
    case False
    with th'(2) obtain l where l: "label_of action = Some l" "turn_step r l ?r" by blast
    show ?thesis
    proof (cases l)
      case (Output act)
      with l(1) have "action = TurnEventsAppended act" by (cases action) simp_all
      with assms(7) deliver_keeps_messages [OF l(2) [unfolded Output] assms(6)] assms(6)
      show ?thesis by (simp add: steers_ok_def)
    next
      case (Steered event)
      with steer_adds_message [OF l(2) [unfolded Steered] assms(6)] l(1) show ?thesis by simp
    qed (use status_keeps_messages [OF l(2) running] assms(6) in \<open>simp_all add: steers_ok_def\<close>)
  qed (use assms(6) in simp)
  moreover have "messages ?r = messages r @ [UserMessage event]"
    if "action = TurnSteered k (tn_turnId r) event"
      "utf8ByteLength (um_text event) \<le> MAX_AGENT_EVENT_TEXT_BYTES"
      "agentTurnAcceptsSteerBytes r (int (agentTurnEventUtf8Bytes (UserMessage event)))" for event
    using steer_accepted [OF ok assms(4,5) that(2,3)] assms(3) that(1) th'(1)
      steer_adds_message [OF _ assms(6)] by auto
  ultimately show ?thesis using th'(1) by blast
qed

section \<open>Repeated deliveries\<close>

lemma turn_index_cong: "map tn_turnId ts = map tn_turnId us \<Longrightarrow> turn_index ident ts = turn_index ident us"
proof (induction ts arbitrary: us)
  case (Cons t ts)
  then show ?case by (cases us) simp_all
qed simp

lemma find_replaced:
  assumes "keys_ok s" and "findTurnInThread s k ident = Some (th, i)" and "th_threadId th' = th_threadId th"
    and "th_turns th' = (th_turns th)[i := t']" and "tn_turnId t' = ident"
  shows "findTurnInThread (replaceThread s th') k ident = Some (th', i)"
proof -
  have found: "map_of s k = Some th" "turn_index ident (th_turns th) = Some i"
    using assms(2) by (simp_all add: findTurnInThread_Some)
  then have "th_threadId th = k" "i < length (th_turns th)" "tn_turnId (th_turns th ! i) = ident"
    using keys_okD [OF assms(1)] turn_index_Some by auto
  moreover from this have "map tn_turnId ((th_turns th)[i := t']) = map tn_turnId (th_turns th)"
    using assms(5) by (metis list_update_id map_update nth_map)
  ultimately have "turn_index ident (th_turns th') = Some i"
    using found(2) turn_index_cong [of "th_turns th'" "th_turns th" ident] assms(4) by simp
  then show ?thesis
    using assms(3) \<open>th_threadId th = k\<close> by (simp add: findTurnInThread_Some replaceThread_def)
qed

definition same_target :: "append_action \<Rightarrow> append_action \<Rightarrow> bool" where
  "same_target a b \<longleftrightarrow> ap_threadId b = ap_threadId a \<and> ap_turnId b = ap_turnId a \<and>
     ap_workspaceId b = ap_workspaceId a \<and> ap_repositoryRoot b = ap_repositoryRoot a \<and>
     ap_isolation b = ap_isolation a \<and> ap_worktreePath b = ap_worktreePath a"

definition refused :: "agent_thread \<Rightarrow> nat \<Rightarrow> append_action \<Rightarrow> bool" where
  "refused th i a \<longleftrightarrow> ap_workspaceId a \<noteq> ow_ownerId (th_owner th) \<or>
     ap_repositoryRoot a \<noteq> ow_repositoryRoot (th_owner th) \<or> ap_isolation a \<noteq> tg_isolation (th_target th) \<or>
     ap_worktreePath a \<noteq> tg_worktreePath (th_target th) \<or> finished (th_turns th ! i) \<or>
     ap_outputSequence a \<le> tn_lastOutputSequence (th_turns th ! i)"

lemma appendTurnEvents_found:
  "findTurnInThread s (ap_threadId a) (ap_turnId a) = Some (th, i) \<Longrightarrow>
     appendTurnEvents s a =
       (if refused th i a then Some s
        else map_option (\<lambda>t'. replaceThread s
          ((set_turn th i t')\<lparr>th_provider := provider_after_append th (th_turns th ! i) a\<rparr>))
          (appended_turn (th_turns th ! i) a))"
  by (cases "appended_turn (th_turns th ! i) a") (simp_all add: appendTurnEvents_def refused_def Let_def)

lemma append_again:
  assumes keys: "keys_ok s" and first: "appendTurnEvents s a = Some s'" and same: "same_target a b"
    and later: "ap_outputSequence b \<le> ap_outputSequence a"
  shows "appendTurnEvents s' b = Some s'"
proof (cases "findTurnInThread s (ap_threadId a) (ap_turnId a)")
  case None
  with first same show ?thesis by (simp add: appendTurnEvents_def same_target_def)
next
  case (Some location)
  obtain th i where at: "location = (th, i)" by force
  note found = Some [unfolded at]
  have target: "ap_threadId b = ap_threadId a" "ap_turnId b = ap_turnId a"
    using same by (simp_all add: same_target_def)
  show ?thesis
  proof (cases "refused th i a")
    case True
    then have "s' = s" using first by (simp add: appendTurnEvents_found [OF found])
    moreover have "refused th i b" using True same later by (auto simp: refused_def same_target_def)
    ultimately show ?thesis
      using appendTurnEvents_found [of s b th i] found by (simp add: target)
  next
    case False
    with first obtain t' where t': "appended_turn (th_turns th ! i) a = Some t'"
      "s' = replaceThread s
        ((set_turn th i t')\<lparr>th_provider := provider_after_append th (th_turns th ! i) a\<rparr>)" (is "_ = replaceThread s ?th'")
      by (auto simp: appendTurnEvents_found [OF found])
    have i: "i < length (th_turns th)" "tn_turnId (th_turns th ! i) = ap_turnId a"
      using found turn_index_Some by (auto simp: findTurnInThread_Some)
    from t'(1) have t'_keeps: "tn_turnId t' = ap_turnId a" "tn_lastOutputSequence t' = ap_outputSequence a"
      using i by (auto elim: appended_turn_eq)
    then have "findTurnInThread s' (ap_threadId a) (ap_turnId a) = Some (?th', i)"
      unfolding t'(2) by (intro find_replaced [OF keys found, of ?th' t']) simp_all
    moreover have "refused ?th' i b" using later i(1) t'_keeps by (simp add: refused_def)
    ultimately show ?thesis
      using appendTurnEvents_found [of s' b ?th' i] by (simp add: target)
  qed
qed

lemma report_again:
  assumes keys: "keys_ok s" and later: "tse_sequence event' \<le> tse_sequence event"
    and same: "tse_taskId event' = tse_taskId event" "tse_workspaceId event' = tse_workspaceId event"
      "tse_repositoryRoot event' = tse_repositoryRoot event" "tse_isolation event' = tse_isolation event"
      "tse_worktreePath event' = tse_worktreePath event"
    and first: "applyTurnStatusEvent s k event now = s'"
  shows "applyTurnStatusEvent s' k event' now' = s'"
proof (cases "acceptedTaskStatusLocation s k event")
  case None
  then have "acceptedTaskStatusLocation s k event' = None" using same later
    by (auto simp: acceptedTaskStatusLocation_def Let_def split: option.splits if_splits)
  with None first show ?thesis by (auto simp: applyTurnStatusEvent_def)
next
  case (Some location)
  obtain th i where at: "location = (th, i)" by force
  let ?t' = "(th_turns th ! i)\<lparr>tn_status := TaskStatus (tse_status event), tn_lastStatusSequence := tse_sequence event,
    tn_endedAtEpochMs := (if isTerminalAgentTaskStatus (tse_status event) then Some now
      else tn_endedAtEpochMs (th_turns th ! i))\<rparr>"
  let ?th' = "(set_turn th i ?t')\<lparr>th_updatedAtEpochMs := max (th_updatedAtEpochMs th) now\<rparr>"
  have s': "s' = replaceThread s ?th'"
    using first unfolding applyTurnStatusEvent_def Some at Let_def replaceTurn_def option.case prod.case by (rule sym)
  have found: "findTurnInThread s k (tse_taskId event) = Some (th, i)"
    using Some by (auto simp: at acceptedTaskStatusLocation_def Let_def split: option.splits if_splits)
  then have i: "i < length (th_turns th)" "tn_turnId (th_turns th ! i) = tse_taskId event"
    using turn_index_Some by (auto simp: findTurnInThread_Some)
  have "findTurnInThread s' k (tse_taskId event) = Some (?th', i)"
    unfolding s' using i(2) by (intro find_replaced [OF keys found, of ?th' ?t']) simp_all
  then have "acceptedTaskStatusLocation s' k event' = None"
    using same later i(1) by (simp add: acceptedTaskStatusLocation_def Let_def)
  then show ?thesis by (simp add: applyTurnStatusEvent_def)
qed

text \<open>
  C23: A delivery is taken once. After output was handled, output for the same turn with the same
  or a lower sequence number changes nothing, whatever it holds; and so for status events:
  deliveries may be repeated and overtaken without harm.
\<close>

theorem delivery_taken_once:
  assumes "reachable lc s"
  shows "(agentThreadsReducer lc s (TurnEventsAppended a) = Some sa \<longrightarrow> same_target a b \<longrightarrow>
      ap_outputSequence b \<le> ap_outputSequence a \<longrightarrow>
      agentThreadsReducer lc sa (TurnEventsAppended b) = Some sa) \<and>
    (agentThreadsReducer lc s (TaskStatusReported k event now) = Some sb \<longrightarrow>
      agentThreadsReducer lc sb (TaskStatusReported k
        (event\<lparr>tse_sequence := tse_sequence event - int n, tse_status := status\<rparr>) now') = Some sb)"
proof -
  have keys: "keys_ok s" using reachable_ok [OF assms] by (simp add: threads_ok_def)
  let ?event' = "event\<lparr>tse_sequence := tse_sequence event - int n, tse_status := status\<rparr>"
  have "agentThreadsReducer lc sa (TurnEventsAppended b) = Some sa"
    if "agentThreadsReducer lc s (TurnEventsAppended a) = Some sa" "same_target a b"
      "ap_outputSequence b \<le> ap_outputSequence a"
    using append_again [OF keys _ that(2,3)] that(1) by simp
  moreover have "applyTurnStatusEvent sb k ?event' now' = sb" if "applyTurnStatusEvent s k event now = sb"
    using report_again [OF keys, of ?event' event k now sb now'] that by simp
  ultimately show ?thesis by simp
qed

section \<open>Examples\<close>

text \<open>A store with one running turn, the same after an interrupt, and a message.\<close>

abbreviation live_turn :: agent_turn where
  "live_turn \<equiv> plain_turn [2] (TaskStatus TaskRunning)"

definition live_thread :: agent_thread where
  "live_thread = plain_thread [1] [live_turn]"

definition live_store :: threads_state where
  "live_store = [([1], live_thread)]"

definition stopped_store :: threads_state where
  "stopped_store = interruptTurn live_store [2] 5"

abbreviation greeting :: user_message where
  "greeting \<equiv> \<lparr>um_remoteMessageId = None, um_text = [104], um_attachments = None\<rparr>"

lemma live_running: "runningTurn live_thread = Some live_turn" "th_turns live_thread = [live_turn]"
  by (simp_all add: runningTurn_def live_thread_def plain_thread_def plain_turn_def)

lemma live_reachable: "reachable unit_compare live_store"
proof (rule reachable.after [OF reachable.initially, of "ThreadCreated live_thread"])
  show "action_ok (ThreadCreated live_thread)"
    by (simp add: created_ok_def stored_ok_def flags_ok_def live_running)
      (simp add: live_thread_def plain_thread_def present_def)
  have "boundAgentTurnEvents live_turn = Some live_turn"
    by (simp add: boundAgentTurnEvents_def capPersistedTurnEvents_def capAgentTurnEvents_def retain_def
        plain_turn_def or_null_def)
  then have "boundAgentThreadEvents live_thread = Some live_thread"
    by (simp add: boundAgentThreadEvents_def live_thread_def plain_thread_def)
  moreover have "th_threadId live_thread = [1]" by (simp add: live_thread_def plain_thread_def)
  ultimately show "agentThreadsReducer unit_compare emptyAgentThreadsState (ThreadCreated live_thread) = Some live_store"
    by (simp add: createThread_def emptyAgentThreadsState_def findTurn_def map_values_def live_store_def
        evictThreadsForRoot_def threads_in_root_def MAX_AGENT_THREADS_PER_ROOT_def live_running)
qed

lemma live_lookup: "map_of live_store [1] = Some live_thread"
  by (simp add: live_store_def)

lemma reachable_threads_well_formed_witness: "length (th_turns live_thread) \<le> 64"
  using reachable_threads_well_formed [OF live_reachable live_lookup] by blast

abbreviation stopped_turn :: agent_turn where
  "stopped_turn \<equiv> live_turn\<lparr>tn_status := TurnInterrupted, tn_endedAtEpochMs := Some 5\<rparr>"

abbreviation stopped_thread :: agent_thread where
  "stopped_thread \<equiv> (set_turn live_thread 0 stopped_turn)
     \<lparr>th_updatedAtEpochMs := max (th_updatedAtEpochMs live_thread) 5\<rparr>"

lemma stopped: "stopped_store = [([1], stopped_thread)]"
  by (simp add: stopped_store_def interruptTurn_def findTurn_def map_values_def live_store_def live_running
      replaceTurn_def replaceThread_def Let_def interruptedStreamMetrics_def or_null_def)
    (simp add: live_thread_def plain_thread_def plain_turn_def set_turn_def)

lemma stopped_reachable: "reachable unit_compare stopped_store"
  by (rule reachable.after [OF live_reachable, of "TurnInterruptRequested [2] 5"]) (simp_all add: stopped_store_def)

lemma stopped_lookup: "map_of stopped_store [1] = Some stopped_thread"
  by (simp add: stopped)

lemma stopped_turns: "th_turns stopped_thread = [stopped_turn]"
  by (simp add: live_running)

lemma stopping: "agentThreadsReducer unit_compare live_store (TurnInterruptRequested [2] 5) = Some stopped_store"
  by (simp add: stopped_store_def)



lemma running_turn_never_lost_witness:
  "\<exists>th'. map_of stopped_store [1] = Some th' \<and> tn_turnId (last (th_turns th')) = tn_turnId live_turn"
  using running_turn_never_lost [OF live_reachable _ stopping live_lookup live_running(1)] by auto

lemma greeting_bytes: "agentTurnEventUtf8Bytes (UserMessage greeting) \<le> 524288"
  by (simp add: event_bytes_simps)

lemma steered_messages_kept_witness:
  "\<exists>s' th'. agentThreadsReducer unit_compare live_store (TurnSteered [1] [2] greeting) = Some s' \<and>
     map_of s' [1] = Some th' \<and> messages (last (th_turns th')) = [UserMessage greeting]"
proof -
  obtain s' where s': "agentThreadsReducer unit_compare live_store (TurnSteered [1] [2] greeting) = Some s'"
    using handlers_total(7) [of live_store "[1]" "[2]" greeting] by auto
  have "tn_turnId live_turn = [2]" "tn_events live_turn = []" by (simp_all add: plain_turn_def)
  moreover from this have "agentTurnAcceptsSteerBytes live_turn (int (agentTurnEventUtf8Bytes (UserMessage greeting)))"
    using greeting_bytes by (simp add: agentTurnAcceptsSteerBytes_def steer_limits isSafeInteger_def
        max_safe_integer_def agentTurnEventsUtf8Bytes_def)
  moreover have "utf8ByteLength (um_text greeting) \<le> MAX_AGENT_EVENT_TEXT_BYTES"
    by (simp add: MAX_AGENT_EVENT_TEXT_BYTES_def)
  ultimately show ?thesis
    using steered_messages_kept [OF live_reachable _ s' live_lookup live_running(1)] s'
    by (auto simp: steers_ok_def)
qed

definition finished_event :: "int \<Rightarrow> task_status_event" where
  "finished_event sequence = \<lparr>tse_taskId = [2], tse_workspaceId = [], tse_repositoryRoot = [],
     tse_isolation = InPlace, tse_worktreePath = None, tse_sequence = sequence, tse_status = TaskStopped\<rparr>"

lemma delivery_taken_once_witness:
  "agentThreadsReducer unit_compare (applyTurnStatusEvent live_store [1] (finished_event 3) 6)
     (TaskStatusReported [1] (finished_event 2) 7) =
   Some (applyTurnStatusEvent live_store [1] (finished_event 3) 6)"
  using delivery_taken_once [OF live_reachable, where k = "[1]" and event = "finished_event 3" and now = 6
    and sb = "applyTurnStatusEvent live_store [1] (finished_event 3) 6" and n = 1 and status = TaskStopped
    and now' = 7]
  by (simp add: finished_event_def)

end
