(* ===== verification/WireFields.thy ===== *)
theory WireFields
  imports Codec
begin

text \<open>
  The attachments and the token usage of a stored turn: \<open>src/domain/agentAttachment.ts\<close> and the
  parts of \<open>src/domain/agentThreadWire.ts\<close> that write and read them.
\<close>

section \<open>Attachments\<close>

datatype attachment_kind = KindImage | KindFile | KindReference

definition MAX_AGENT_IMAGE_BYTES :: int where "MAX_AGENT_IMAGE_BYTES = 10 * 1024 * 1024"
definition MAX_AGENT_FILE_BYTES :: int where "MAX_AGENT_FILE_BYTES = 50 * 1024 * 1024"
definition MAX_AGENT_TURN_IMAGE_BYTES :: int where "MAX_AGENT_TURN_IMAGE_BYTES = 40 * 1024 * 1024"
definition MAX_AGENT_REFERENCE_BYTES :: int where "MAX_AGENT_REFERENCE_BYTES = max_safe_integer"
definition MIN_AGENT_IMAGE_DIMENSION :: int where "MIN_AGENT_IMAGE_DIMENSION = 1"
definition MAX_AGENT_IMAGE_DIMENSION :: int where "MAX_AGENT_IMAGE_DIMENSION = 16384"

fun attachment_kind_literal :: "attachment_kind \<Rightarrow> string" where
  "attachment_kind_literal KindImage = ''image''"
| "attachment_kind_literal KindFile = ''file''"
| "attachment_kind_literal KindReference = ''reference''"

fun image_mime_literal :: "image_mime \<Rightarrow> string" where
  "image_mime_literal ImagePng = ''image/png''"
| "image_mime_literal ImageJpeg = ''image/jpeg''"
| "image_mime_literal ImageGif = ''image/gif''"
| "image_mime_literal ImageWebp = ''image/webp''"

definition AGENT_IMAGE_MIMES :: "image_mime list" where
  "AGENT_IMAGE_MIMES = [ImagePng, ImageJpeg, ImageGif, ImageWebp]"

definition isAgentImageDimension :: "int \<Rightarrow> bool" where
  "isAgentImageDimension n \<longleftrightarrow>
     isSafeInteger n \<and> n \<ge> MIN_AGENT_IMAGE_DIMENSION \<and> n \<le> MAX_AGENT_IMAGE_DIMENSION"

fun maxAgentAttachmentBytes :: "attachment_kind \<Rightarrow> int" where
  "maxAgentAttachmentBytes KindImage = MAX_AGENT_IMAGE_BYTES"
| "maxAgentAttachmentBytes KindFile = MAX_AGENT_FILE_BYTES"
| "maxAgentAttachmentBytes KindReference = MAX_AGENT_REFERENCE_BYTES"

fun image_bytes :: "agent_attachment \<Rightarrow> int" where
  "image_bytes (ImageAttachment _ _ _ bytes _ _ _) = bytes"
| "image_bytes _ = 0"

definition agentTurnImageBytes :: "agent_attachment list \<Rightarrow> int" where
  "agentTurnImageBytes attachments = foldl (\<lambda>total attachment. total + image_bytes attachment) 0 attachments"

fun attachment_object :: "agent_attachment \<Rightarrow> js_string \<Rightarrow> jsval" where
  "attachment_object (ImageAttachment ident name mime bytes width height _) storedPath = JObject
     (js_field ''kind'' (Some (JString (js ''image''))) @
      js_field ''attachmentId'' (Some (JString ident)) @
      js_field ''name'' (Some (JString name)) @
      js_field ''mime'' (Some (JString (js (image_mime_literal mime)))) @
      js_field ''bytes'' (Some (js_int bytes)) @
      js_field ''width'' (Some (js_int width)) @
      js_field ''height'' (Some (js_int height)) @
      js_field ''storedPath'' (Some (JString storedPath)))"
| "attachment_object (FileAttachment ident name bytes _) storedPath = JObject
     (js_field ''kind'' (Some (JString (js ''file''))) @
      js_field ''attachmentId'' (Some (JString ident)) @
      js_field ''name'' (Some (JString name)) @
      js_field ''bytes'' (Some (js_int bytes)) @
      js_field ''storedPath'' (Some (JString storedPath)))"
| "attachment_object (ReferenceAttachment name path bytes) _ = JObject
     (js_field ''kind'' (Some (JString (js ''reference''))) @
      js_field ''name'' (Some (JString name)) @
      js_field ''path'' (Some (JString path)) @
      js_field ''bytes'' (Some (js_int bytes)))"

definition serializeAttachment :: "agent_attachment \<Rightarrow> jsval checked" where
  "serializeAttachment attachment =
     (case attachment of
        ImageAttachment _ _ _ _ _ _ (RemoteAttachment _ _) \<Rightarrow>
          Inl ''Remote images cannot be saved in the local thread store.''
      | ImageAttachment _ _ _ _ _ _ (StoredPath path) \<Rightarrow> Inr (attachment_object attachment path)
      | FileAttachment _ _ _ (RemoteAttachment _ _) \<Rightarrow>
          Inl ''Remote files cannot be saved in the local thread store.''
      | FileAttachment _ _ _ (StoredPath path) \<Rightarrow> Inr (attachment_object attachment path)
      | ReferenceAttachment _ path _ \<Rightarrow> Inr (attachment_object attachment path))"

definition serializeAttachments :: "agent_attachment list option \<Rightarrow> jsval option checked" where
  "serializeAttachments attachments =
     (case attachments of
        None \<Rightarrow> Inr None
      | Some entries \<Rightarrow>
          if length entries = 0 then Inr None
          else chk (emit_all serializeAttachment entries) (\<lambda>items. Inr (Some (JArray items))))"

definition attachmentKind :: "jsval \<Rightarrow> string \<Rightarrow> attachment_kind checked" where
  "attachmentKind item path =
     member_at item attachment_kind_literal [KindImage, KindFile, KindReference] path"

definition attachmentId :: "jsval \<Rightarrow> string \<Rightarrow> js_string checked" where
  "attachmentId item path =
     (case item of JString s \<Rightarrow> if isAgentAttachmentId s then Inr s else Inl path | _ \<Rightarrow> Inl path)"

definition imageMime :: "jsval \<Rightarrow> string \<Rightarrow> image_mime checked" where
  "imageMime item path = member_at item image_mime_literal AGENT_IMAGE_MIMES path"

definition attachmentName :: "jsval \<Rightarrow> string \<Rightarrow> js_string checked" where
  "attachmentName item path =
     chk (boundedText item path MAX_AGENT_ATTACHMENT_NAME_BYTES False True) (\<lambda>name.
     chk (reject (\<not> isAgentAttachmentName name) path) (\<lambda>_. Inr name))"

definition attachmentPath :: "jsval \<Rightarrow> string \<Rightarrow> js_string checked" where
  "attachmentPath item path =
     chk (boundedText item path MAX_AGENT_ATTACHMENT_PATH_BYTES False True) (\<lambda>candidate.
     chk (reject (\<not> isAgentAttachmentPath candidate) path) (\<lambda>_. Inr candidate))"

definition attachmentBytes :: "attachment_kind \<Rightarrow> jsval \<Rightarrow> string \<Rightarrow> int checked" where
  "attachmentBytes kind item path =
     chk (unsignedSafeInteger item path) (\<lambda>bytes.
     chk (reject (bytes > maxAgentAttachmentBytes kind) path) (\<lambda>_. Inr bytes))"

definition imageDimension :: "jsval \<Rightarrow> string \<Rightarrow> int checked" where
  "imageDimension item path = safe_integer_at item isAgentImageDimension path"

definition parseAgentAttachment :: "jsval \<Rightarrow> string \<Rightarrow> agent_attachment checked" where
  "parseAgentAttachment item path =
     chk (record_at item path) (\<lambda>attachment.
     chk (attachmentKind (js_get attachment (js ''kind'')) (path @ ''.kind'')) (\<lambda>kind.
       case kind of
         KindImage \<Rightarrow>
           chk (exactKeys attachment [''kind'', ''attachmentId'', ''name'', ''mime'', ''bytes'', ''width'',
             ''height'', ''storedPath''] path) (\<lambda>_.
           chk (attachmentId (js_get attachment (js ''attachmentId'')) (path @ ''.attachmentId'')) (\<lambda>ident.
           chk (attachmentName (js_get attachment (js ''name'')) (path @ ''.name'')) (\<lambda>name.
           chk (imageMime (js_get attachment (js ''mime'')) (path @ ''.mime'')) (\<lambda>mime.
           chk (attachmentBytes kind (js_get attachment (js ''bytes'')) (path @ ''.bytes'')) (\<lambda>bytes.
           chk (imageDimension (js_get attachment (js ''width'')) (path @ ''.width'')) (\<lambda>width.
           chk (imageDimension (js_get attachment (js ''height'')) (path @ ''.height'')) (\<lambda>height.
           chk (attachmentPath (js_get attachment (js ''storedPath'')) (path @ ''.storedPath'')) (\<lambda>stored.
           Inr (ImageAttachment ident name mime bytes width height (StoredPath stored))))))))))
       | KindFile \<Rightarrow>
           chk (exactKeys attachment [''kind'', ''attachmentId'', ''name'', ''bytes'', ''storedPath''] path)
             (\<lambda>_.
           chk (attachmentId (js_get attachment (js ''attachmentId'')) (path @ ''.attachmentId'')) (\<lambda>ident.
           chk (attachmentName (js_get attachment (js ''name'')) (path @ ''.name'')) (\<lambda>name.
           chk (attachmentBytes kind (js_get attachment (js ''bytes'')) (path @ ''.bytes'')) (\<lambda>bytes.
           chk (attachmentPath (js_get attachment (js ''storedPath'')) (path @ ''.storedPath'')) (\<lambda>stored.
           Inr (FileAttachment ident name bytes (StoredPath stored)))))))
       | KindReference \<Rightarrow>
           chk (exactKeys attachment [''kind'', ''name'', ''path'', ''bytes''] path) (\<lambda>_.
           chk (attachmentName (js_get attachment (js ''name'')) (path @ ''.name'')) (\<lambda>name.
           chk (attachmentPath (js_get attachment (js ''path'')) (path @ ''.path'')) (\<lambda>file.
           chk (attachmentBytes kind (js_get attachment (js ''bytes'')) (path @ ''.bytes'')) (\<lambda>bytes.
           Inr (ReferenceAttachment name file bytes)))))))"

text \<open>The identifiers a turn may not repeat: a reference has none.\<close>

fun stored_ids :: "agent_attachment list \<Rightarrow> js_string list" where
  "stored_ids [] = []"
| "stored_ids (ImageAttachment ident _ _ _ _ _ _ # rest) = ident # stored_ids rest"
| "stored_ids (FileAttachment ident _ _ _ # rest) = ident # stored_ids rest"
| "stored_ids (ReferenceAttachment _ _ _ # rest) = stored_ids rest"

definition parse_attachment_list :: "jsval \<Rightarrow> string \<Rightarrow> agent_attachment list checked" where
  "parse_attachment_list item path =
     chk (boundedArray item path MAX_AGENT_TURN_ATTACHMENTS) (\<lambda>entries.
     chk (reject (length entries = 0) path) (\<lambda>_.
     chk (array_from 0 parseAgentAttachment entries path) (\<lambda>attachments.
     chk (reject (\<not> distinct (stored_ids attachments)) path) (\<lambda>_.
     chk (reject (agentTurnImageBytes attachments > MAX_AGENT_TURN_IMAGE_BYTES) path) (\<lambda>_.
     Inr attachments)))))"

definition parseAttachments :: "jsval \<Rightarrow> string \<Rightarrow> agent_attachment list option checked" where
  "parseAttachments item path = optional_at item (\<lambda>v. parse_attachment_list v path)"

section \<open>Token usage\<close>

definition breakdown_value :: "token_breakdown \<Rightarrow> jsval" where
  "breakdown_value usage = JObject
     (js_field ''inputTokens'' (Some (js_int (tb_inputTokens usage))) @
      js_field ''cachedInputTokens'' (Some (js_int (tb_cachedInputTokens usage))) @
      js_field ''cacheWriteInputTokens'' (Some (js_int (tb_cacheWriteInputTokens usage))) @
      js_field ''outputTokens'' (Some (js_int (tb_outputTokens usage))) @
      js_field ''reasoningOutputTokens'' (Some (js_int (tb_reasoningOutputTokens usage))) @
      js_field ''totalTokens'' (Some (js_int (tb_totalTokens usage))))"

definition app_server_value :: "app_server_usage \<Rightarrow> jsval" where
  "app_server_value usage = JObject
     (js_field ''last'' (Some (breakdown_value (asu_last usage))) @
      js_field ''total'' (Some (breakdown_value (asu_total usage))) @
      js_field ''contextWindow'' (Some (js_null js_int (asu_contextWindow usage))))"

definition js_cost :: "rat \<Rightarrow> jsval" where
  "js_cost q = JNumber (Some q)"

definition serializeUsage :: "agent_turn_usage \<Rightarrow> jsval" where
  "serializeUsage usage = JObject
     (js_field ''inputTokens'' (Some (js_int (us_inputTokens usage))) @
      js_field ''outputTokens'' (Some (js_int (us_outputTokens usage))) @
      js_field ''contextTokens'' (Some (js_null js_int (us_contextTokens usage))) @
      js_field ''costUsd'' (map_option (js_null js_cost) (us_costUsd usage)) @
      js_field ''scope'' (if us_threadScope usage then Some (JString (js ''thread'')) else None) @
      js_field ''appServerUsage'' (map_option app_server_value (us_appServerUsage usage)) @
      js_field ''cachedInputTokens'' (map_option (js_null js_int) (us_cachedInputTokens usage)) @
      js_field ''reasoningOutputTokens'' (map_option (js_null js_int) (us_reasoningOutputTokens usage)))"

definition optionalUnsignedSafeInteger :: "jsval \<Rightarrow> string \<Rightarrow> int option checked" where
  "optionalUnsignedSafeInteger item path = nullable_at item (\<lambda>v. unsignedSafeInteger v path)"

definition nonNegativeFiniteNumber :: "jsval \<Rightarrow> string \<Rightarrow> rat checked" where
  "nonNegativeFiniteNumber item path =
     (case item of JNumber (Some q) \<Rightarrow> if q < 0 then Inl path else Inr q | _ \<Rightarrow> Inl path)"

definition optionalNonNegativeFiniteNumber :: "jsval \<Rightarrow> string \<Rightarrow> rat option checked" where
  "optionalNonNegativeFiniteNumber item path = nullable_at item (\<lambda>v. nonNegativeFiniteNumber v path)"

definition parseTokenBreakdown :: "jsval \<Rightarrow> string \<Rightarrow> token_breakdown checked" where
  "parseTokenBreakdown item path =
     chk (record_at item path) (\<lambda>usage.
     chk (exactKeys usage [''inputTokens'', ''cachedInputTokens'', ''cacheWriteInputTokens'',
       ''outputTokens'', ''reasoningOutputTokens'', ''totalTokens''] path) (\<lambda>_.
     chk (unsignedSafeInteger (js_get usage (js ''inputTokens'')) (path @ ''.inputTokens'')) (\<lambda>input.
     chk (unsignedSafeInteger (js_get usage (js ''cachedInputTokens'')) (path @ ''.cachedInputTokens'')) (\<lambda>cached.
     chk (unsignedSafeInteger (js_get usage (js ''cacheWriteInputTokens'')) (path @ ''.cacheWriteInputTokens''))
       (\<lambda>cacheWrite.
     chk (unsignedSafeInteger (js_get usage (js ''outputTokens'')) (path @ ''.outputTokens'')) (\<lambda>out.
     chk (unsignedSafeInteger (js_get usage (js ''reasoningOutputTokens'')) (path @ ''.reasoningOutputTokens''))
       (\<lambda>reasoning.
     chk (unsignedSafeInteger (js_get usage (js ''totalTokens'')) (path @ ''.totalTokens'')) (\<lambda>total.
     Inr \<lparr>tb_inputTokens = input, tb_cachedInputTokens = cached, tb_cacheWriteInputTokens = cacheWrite,
       tb_outputTokens = out, tb_reasoningOutputTokens = reasoning, tb_totalTokens = total\<rparr>))))))))"

definition parseAppServerUsage :: "jsval \<Rightarrow> string \<Rightarrow> app_server_usage checked" where
  "parseAppServerUsage item path =
     chk (record_at item path) (\<lambda>usage.
     chk (exactKeys usage [''last'', ''total'', ''contextWindow''] path) (\<lambda>_.
     chk (parseTokenBreakdown (js_get usage (js ''last'')) (path @ ''.last'')) (\<lambda>latest.
     chk (parseTokenBreakdown (js_get usage (js ''total'')) (path @ ''.total'')) (\<lambda>total.
     chk (optionalUnsignedSafeInteger (js_get usage (js ''contextWindow'')) (path @ ''.contextWindow'')) (\<lambda>window.
     Inr \<lparr>asu_last = latest, asu_total = total, asu_contextWindow = window\<rparr>)))))"

definition parse_usage_record :: "jsval \<Rightarrow> string \<Rightarrow> agent_turn_usage checked" where
  "parse_usage_record item path =
     chk (record_at item path) (\<lambda>usage.
     chk (boundedKeys usage [''inputTokens'', ''outputTokens'']
       [''contextTokens'', ''costUsd'', ''cachedInputTokens'', ''reasoningOutputTokens'', ''scope'',
        ''appServerUsage''] path) (\<lambda>_.
     chk (reject (js_get usage (js ''scope'') \<noteq> JUndefined \<and> js_get usage (js ''scope'') \<noteq> JString (js ''thread''))
       (path @ ''.scope'')) (\<lambda>_.
     chk (optional_at (js_get usage (js ''appServerUsage''))
       (\<lambda>v. parseAppServerUsage v (path @ ''.appServerUsage''))) (\<lambda>appServer.
     chk (optional_at (js_get usage (js ''cachedInputTokens''))
       (\<lambda>v. optionalUnsignedSafeInteger v (path @ ''.cachedInputTokens''))) (\<lambda>cached.
     chk (optional_at (js_get usage (js ''reasoningOutputTokens''))
       (\<lambda>v. optionalUnsignedSafeInteger v (path @ ''.reasoningOutputTokens''))) (\<lambda>reasoning.
     chk (unsignedSafeInteger (js_get usage (js ''inputTokens'')) (path @ ''.inputTokens'')) (\<lambda>input.
     chk (unsignedSafeInteger (js_get usage (js ''outputTokens'')) (path @ ''.outputTokens'')) (\<lambda>out.
     chk (missing_at (js_get usage (js ''contextTokens''))
       (\<lambda>v. unsignedSafeInteger v (path @ ''.contextTokens''))) (\<lambda>ctxt.
     chk (optional_at (js_get usage (js ''costUsd''))
       (\<lambda>v. optionalNonNegativeFiniteNumber v (path @ ''.costUsd''))) (\<lambda>cost.
     Inr \<lparr>us_threadScope = (js_get usage (js ''scope'') \<noteq> JUndefined), us_appServerUsage = appServer,
       us_cachedInputTokens = cached, us_reasoningOutputTokens = reasoning, us_inputTokens = input,
       us_outputTokens = out, us_costUsd = cost, us_contextTokens = ctxt\<rparr>))))))))))"

definition parseUsage :: "jsval \<Rightarrow> string \<Rightarrow> agent_turn_usage option checked" where
  "parseUsage item path = nullable_at item (\<lambda>v. parse_usage_record v path)"

end
