(* ===== verification/WireFieldLaws.thy ===== *)
theory WireFieldLaws
  imports WireFields
begin

text \<open>
  Attachments and token usage are read back as they were written, and what their parsers return
  is within the limits of the store: the codec contracts on the definitions of \<open>WireFields\<close>.
\<close>

section \<open>Attachments\<close>

definition attachment_ok :: "agent_attachment \<Rightarrow> bool" where
  "attachment_ok attachment \<longleftrightarrow>
     (let name_ok = (\<lambda>s. text_ok 255 False True s \<and> isAgentAttachmentName s);
          path_ok = (\<lambda>s. text_ok 4096 False True s \<and> isAgentAttachmentPath s) in
      case attachment of
        ImageAttachment ident name _ bytes width height location \<Rightarrow>
          isAgentAttachmentId ident \<and> name_ok name \<and> count_ok bytes \<and> bytes \<le> MAX_AGENT_IMAGE_BYTES \<and>
          isAgentImageDimension width \<and> isAgentImageDimension height \<and>
          (case location of StoredPath p \<Rightarrow> path_ok p | RemoteAttachment _ _ \<Rightarrow> False)
      | FileAttachment ident name bytes location \<Rightarrow>
          isAgentAttachmentId ident \<and> name_ok name \<and> count_ok bytes \<and> bytes \<le> MAX_AGENT_FILE_BYTES \<and>
          (case location of StoredPath p \<Rightarrow> path_ok p | RemoteAttachment _ _ \<Rightarrow> False)
      | ReferenceAttachment name path bytes \<Rightarrow> name_ok name \<and> path_ok path \<and> count_ok bytes)"

definition attachments_ok :: "agent_attachment list \<Rightarrow> bool" where
  "attachments_ok attachments \<longleftrightarrow>
     attachments \<noteq> [] \<and> length attachments \<le> MAX_AGENT_TURN_ATTACHMENTS \<and> list_all attachment_ok attachments \<and>
     distinct (stored_ids attachments) \<and> agentTurnImageBytes attachments \<le> MAX_AGENT_TURN_IMAGE_BYTES"

text \<open>An empty list is stored as an absent field.\<close>

definition stored_attachments :: "agent_attachment list option \<Rightarrow> agent_attachment list option" where
  "stored_attachments attachments = (if attachments = Some [] then None else attachments)"

lemma attachmentKind_literal [simp]: "attachmentKind (JString (js (attachment_kind_literal k))) path = Inr k"
  by (cases k) (simp_all add: attachmentKind_def member_at_def js_inject del: js_simps)

lemma attachmentKind_spelled [simp]:
  "attachmentKind (JString (js ''image'')) path = Inr KindImage"
  "attachmentKind (JString (js ''file'')) path = Inr KindFile"
  "attachmentKind (JString (js ''reference'')) path = Inr KindReference"
  using attachmentKind_literal [of KindImage] attachmentKind_literal [of KindFile]
    attachmentKind_literal [of KindReference] by (simp_all del: attachmentKind_literal js_simps)

lemma imageMime_literal [simp]: "imageMime (JString (js (image_mime_literal m))) path = Inr m"
  by (cases m) (simp_all add: imageMime_def member_at_def AGENT_IMAGE_MIMES_def js_inject del: js_simps)

lemma attachment_fields_eq_Inr:
  "attachmentId item path = Inr s \<longleftrightarrow> item = JString s \<and> isAgentAttachmentId s"
  "attachmentName item path = Inr s \<longleftrightarrow> item = JString s \<and> text_ok 255 False True s \<and> isAgentAttachmentName s"
  "attachmentPath item path = Inr s \<longleftrightarrow> item = JString s \<and> text_ok 4096 False True s \<and> isAgentAttachmentPath s"
  "attachmentBytes kind item path = Inr n \<longleftrightarrow> item = js_int n \<and> count_ok n \<and> n \<le> maxAgentAttachmentBytes kind"
  "imageDimension item path = Inr n \<longleftrightarrow> item = js_int n \<and> isAgentImageDimension n"
  by (auto simp: attachmentId_def attachmentName_def attachmentPath_def attachmentBytes_def imageDimension_def
      boundedText_eq_Inr unsignedSafeInteger_eq_Inr safe_integer_at_eq_Inr isAgentImageDimension_def
      task_limits chk_eq_Inr split: jsval.splits if_splits)

lemma attachment_fields_read:
  "isAgentAttachmentId s \<Longrightarrow> attachmentId (JString s) path = Inr s"
  "text_ok 255 False True s \<Longrightarrow> isAgentAttachmentName s \<Longrightarrow> attachmentName (JString s) path = Inr s"
  "text_ok 4096 False True s \<Longrightarrow> isAgentAttachmentPath s \<Longrightarrow> attachmentPath (JString s) path = Inr s"
  "count_ok n \<Longrightarrow> n \<le> maxAgentAttachmentBytes kind \<Longrightarrow> attachmentBytes kind (js_int n) path = Inr n"
  "isAgentImageDimension n \<Longrightarrow> imageDimension (js_int n) path = Inr n"
  by (simp_all add: attachment_fields_eq_Inr)

lemma parse_attachment_object:
  assumes "attachment_ok attachment"
  shows "\<exists>item. serializeAttachment attachment = Inr item \<and> item \<noteq> JUndefined \<and>
    (\<forall>path. parseAgentAttachment item path = Inr attachment)"
proof (cases attachment)
  case (ImageAttachment ident name mime bytes width height location)
  with assms obtain p where p: "location = StoredPath p" by (cases location) (simp_all add: attachment_ok_def)
  show ?thesis using assms
    by (simp add: ImageAttachment p serializeAttachment_def parseAgentAttachment_def attachment_ok_def
        written_keys read_back attachment_fields_read del: js_simps)
next
  case (FileAttachment ident name bytes location)
  with assms obtain p where p: "location = StoredPath p" by (cases location) (simp_all add: attachment_ok_def)
  show ?thesis using assms
    by (simp add: FileAttachment p serializeAttachment_def parseAgentAttachment_def attachment_ok_def
        written_keys read_back attachment_fields_read del: js_simps)
next
  case (ReferenceAttachment name source bytes)
  have "count_ok bytes \<Longrightarrow> bytes \<le> MAX_AGENT_REFERENCE_BYTES"
    by (simp add: count_ok_def isSafeInteger_def MAX_AGENT_REFERENCE_BYTES_def abs_le_iff)
  then show ?thesis using assms
    by (simp add: ReferenceAttachment serializeAttachment_def parseAgentAttachment_def attachment_ok_def
        written_keys read_back attachment_fields_read del: js_simps)
qed

lemma parsed_attachment_ok: "parseAgentAttachment item path = Inr attachment \<Longrightarrow> attachment_ok attachment"
  unfolding parseAgentAttachment_def chk_eq_Inr
  by (elim exE conjE, rename_tac obj kind, case_tac kind)
    (auto simp: attachment_ok_def chk_eq_Inr attachment_fields_eq_Inr)

interpretation att: saver serializeAttachment parseAgentAttachment attachment_ok "\<lambda>x. x"
  by unfold_locales (simp_all add: parse_attachment_object parsed_attachment_ok)

lemma serialized_attachments:
  assumes "pred_option attachments_ok (stored_attachments attachments)"
  shows "\<exists>item. serializeAttachments attachments = Inr item \<and>
    (\<forall>path. parseAttachments (js_pick item JUndefined) path = Inr (stored_attachments attachments))"
proof (cases "attachments = None \<or> attachments = Some []")
  case True
  then show ?thesis
    by (auto simp: serializeAttachments_def parseAttachments_def stored_attachments_def js_pick_def optional_at_def)
next
  case False
  then obtain xs where xs: "attachments = Some xs" "xs \<noteq> []" "attachments_ok xs"
    using assms by (cases attachments) (auto simp: stored_attachments_def split: if_splits)
  then obtain items where items: "emit_all serializeAttachment xs = Inr items"
    and parsed: "\<And>i path. array_from i parseAgentAttachment items path = Inr xs"
    using att.all_emit [of xs] by (auto simp: attachments_ok_def)
  have "items \<noteq> []" using xs(2) emit_all_length [OF items] by auto
  then show ?thesis
    using xs items parsed emit_all_length [OF items]
    by (auto simp: serializeAttachments_def parseAttachments_def parse_attachment_list_def stored_attachments_def
        attachments_ok_def optional_at_def)
qed

lemma parsed_attachments_ok:
  assumes "parseAttachments item path = Inr attachments"
  shows "pred_option attachments_ok attachments"
proof -
  have "attachments_ok xs" if "parse_attachment_list v path = Inr xs" for v xs
    using that att.all_good array_from_length
    by (fastforce simp: parse_attachment_list_def attachments_ok_def chk_eq_Inr boundedArray_eq_Inr)
  with assms show ?thesis
    by (auto simp: parseAttachments_def optional_at_def chk_eq_Inr split: if_splits)
qed

lemma stored_attachments_idem [simp]:
  "stored_attachments (stored_attachments attachments) = stored_attachments attachments"
  by (auto simp: stored_attachments_def)

lemma stored_parsed_attachments [simp]:
  "pred_option attachments_ok attachments \<Longrightarrow> stored_attachments attachments = attachments"
  by (auto simp: stored_attachments_def attachments_ok_def)

section \<open>Token usage\<close>

definition breakdown_ok :: "token_breakdown \<Rightarrow> bool" where
  "breakdown_ok usage \<longleftrightarrow>
     count_ok (tb_inputTokens usage) \<and> count_ok (tb_cachedInputTokens usage) \<and>
     count_ok (tb_cacheWriteInputTokens usage) \<and> count_ok (tb_outputTokens usage) \<and>
     count_ok (tb_reasoningOutputTokens usage) \<and> count_ok (tb_totalTokens usage)"

definition app_server_ok :: "app_server_usage \<Rightarrow> bool" where
  "app_server_ok usage \<longleftrightarrow>
     breakdown_ok (asu_last usage) \<and> breakdown_ok (asu_total usage) \<and> pred_option count_ok (asu_contextWindow usage)"

definition usage_ok :: "agent_turn_usage \<Rightarrow> bool" where
  "usage_ok usage \<longleftrightarrow>
     pred_option app_server_ok (us_appServerUsage usage) \<and>
     pred_option (pred_option count_ok) (us_cachedInputTokens usage) \<and>
     pred_option (pred_option count_ok) (us_reasoningOutputTokens usage) \<and>
     count_ok (us_inputTokens usage) \<and> count_ok (us_outputTokens usage) \<and>
     pred_option (pred_option (\<lambda>q. 0 \<le> q)) (us_costUsd usage) \<and> pred_option count_ok (us_contextTokens usage)"

lemma optional_count: "optionalUnsignedSafeInteger = (\<lambda>item path. nullable_at item (\<lambda>v. unsignedSafeInteger v path))"
  by (intro ext) (simp add: optionalUnsignedSafeInteger_def)

interpretation cost: value_codec js_cost nonNegativeFiniteNumber "\<lambda>q. 0 \<le> q"
  by unfold_locales
    (auto simp: nonNegativeFiniteNumber_def js_cost_def split: jsval.splits option.splits if_splits)

interpretation breakdown: value_codec breakdown_value parseTokenBreakdown breakdown_ok
proof unfold_locales
  fix x path
  assume "breakdown_ok x"
  then show "parseTokenBreakdown (breakdown_value x) path = Inr x"
    by (simp add: breakdown_value_def parseTokenBreakdown_def breakdown_ok_def written_keys read_back
        cnt.parse_emit del: js_simps)
next
  show "parseTokenBreakdown item path = Inr x \<Longrightarrow> breakdown_ok x" for item path x
    by (auto simp: parseTokenBreakdown_def breakdown_ok_def chk_eq_Inr cnt.parse_good)
qed (simp_all add: breakdown_value_def)

interpretation appServer: value_codec app_server_value parseAppServerUsage app_server_ok
proof unfold_locales
  fix x path
  assume "app_server_ok x"
  then show "parseAppServerUsage (app_server_value x) path = Inr x"
    by (simp add: app_server_value_def parseAppServerUsage_def app_server_ok_def written_keys read_back
        breakdown.parse_emit optionalUnsignedSafeInteger_def cnt.nullable_emit del: js_simps)
next
  show "parseAppServerUsage item path = Inr x \<Longrightarrow> app_server_ok x" for item path x
    by (auto simp: parseAppServerUsage_def app_server_ok_def chk_eq_Inr breakdown.parse_good
        optionalUnsignedSafeInteger_def cnt.nullable_good)
qed (simp_all add: app_server_value_def)

definition usage_props :: "agent_turn_usage \<Rightarrow> (js_string \<times> jsval) list" where
  "usage_props usage = (case serializeUsage usage of JObject props \<Rightarrow> props | _ \<Rightarrow> [])"

lemma usage_get:
  "js_get (usage_props usage) (js ''inputTokens'') = js_int (us_inputTokens usage)"
  "js_get (usage_props usage) (js ''outputTokens'') = js_int (us_outputTokens usage)"
  "js_get (usage_props usage) (js ''contextTokens'') = js_null js_int (us_contextTokens usage)"
  "js_get (usage_props usage) (js ''costUsd'') = js_opt (js_null js_cost) (us_costUsd usage)"
  "js_get (usage_props usage) (js ''scope'') =
     (if us_threadScope usage then JString (js ''thread'') else JUndefined)"
  "js_get (usage_props usage) (js ''appServerUsage'') = js_opt app_server_value (us_appServerUsage usage)"
  "js_get (usage_props usage) (js ''cachedInputTokens'') = js_opt (js_null js_int) (us_cachedInputTokens usage)"
  "js_get (usage_props usage) (js ''reasoningOutputTokens'') =
     js_opt (js_null js_int) (us_reasoningOutputTokens usage)"
  unfolding usage_props_def serializeUsage_def jsval.case by (simp_all add: read_back js_pick_if del: js_simps)

lemma parse_usage_emit:
  assumes "usage_ok usage"
  shows "parse_usage_record (serializeUsage usage) path = Inr usage"
proof -
  have item: "serializeUsage usage = JObject (usage_props usage)"
    by (simp add: usage_props_def serializeUsage_def del: js_simps)
  have keys: "boundedKeys (usage_props usage) [''inputTokens'', ''outputTokens'']
       [''contextTokens'', ''costUsd'', ''cachedInputTokens'', ''reasoningOutputTokens'', ''scope'',
        ''appServerUsage''] path = Inr ()"
    unfolding usage_props_def serializeUsage_def jsval.case by (simp add: written_keys del: js_simps)
  show ?thesis
    using assms by (simp add: item keys usage_get parse_usage_record_def usage_ok_def optionalUnsignedSafeInteger_def
        optionalNonNegativeFiniteNumber_def cnt.parse_emit cnt.missing_emit cnt.nullable.optional_emit
        cost.nullable.optional_emit appServer.optional_emit del: js_simps)
qed

interpretation usage: value_codec serializeUsage parse_usage_record usage_ok
proof unfold_locales
  show "parse_usage_record item path = Inr x \<Longrightarrow> usage_ok x" for item path x
    by (auto simp: parse_usage_record_def usage_ok_def chk_eq_Inr cnt.parse_good cnt.missing_good
        optionalUnsignedSafeInteger_def optionalNonNegativeFiniteNumber_def
        dest: cnt.nullable.optional_good cost.nullable.optional_good appServer.optional_good)
qed (simp_all add: parse_usage_emit, simp_all add: serializeUsage_def)

end
