(* ===== verification/WireEvents.thy ===== *)
theory WireEvents
  imports WireFieldLaws Merge
begin

text \<open>
  The stored form of a turn event, \<open>serializeTurnEvent\<close> and \<open>parseTurnEvent\<close> of
  \<open>src/domain/agentThreadWire.ts\<close>, with the field parser of
  \<open>packages/agent-events/src/agentSubagentSpawn.ts\<close>. A parser that throws is \<open>Inl\<close> with the path
  its error names.
\<close>

section \<open>Kinds and choices\<close>

definition MAX_AGENT_TOOL_SUMMARY_BYTES :: nat where "MAX_AGENT_TOOL_SUMMARY_BYTES = 512"
definition MAX_AGENT_TOOL_ID_BYTES :: nat where "MAX_AGENT_TOOL_ID_BYTES = 256"
definition MAX_AGENT_TOOL_NAME_BYTES :: nat where "MAX_AGENT_TOOL_NAME_BYTES = 256"
definition MAX_AGENT_TOOL_DESCRIPTION_BYTES :: nat where "MAX_AGENT_TOOL_DESCRIPTION_BYTES = 200"

lemmas event_limits =
  MAX_AGENT_TOOL_SUMMARY_BYTES_def MAX_AGENT_TOOL_ID_BYTES_def MAX_AGENT_TOOL_NAME_BYTES_def
  MAX_AGENT_TOOL_DESCRIPTION_BYTES_def MAX_AGENT_EVENT_TEXT_BYTES_def task_limits

datatype event_kind =
    KAssistantText | KReasoning | KUserMessage | KToolCall | KToolResult | KSubagentActivity
  | KSubagentEvent | KSubagentSpawn | KSubagentUsage | KSubagentTurnDone | KQueued | KBackgroundTask
  | KSubagent | KResult | KContextUsage | KContextCompactionStatus | KContextCompaction | KError
  | KUnknownLine

fun event_kind_literal :: "event_kind \<Rightarrow> string" where
  "event_kind_literal KAssistantText = ''assistantText''"
| "event_kind_literal KReasoning = ''reasoning''"
| "event_kind_literal KUserMessage = ''userMessage''"
| "event_kind_literal KToolCall = ''toolCall''"
| "event_kind_literal KToolResult = ''toolResult''"
| "event_kind_literal KSubagentActivity = ''subagentActivity''"
| "event_kind_literal KSubagentEvent = ''subagentEvent''"
| "event_kind_literal KSubagentSpawn = ''subagentSpawn''"
| "event_kind_literal KSubagentUsage = ''subagentUsage''"
| "event_kind_literal KSubagentTurnDone = ''subagentTurnDone''"
| "event_kind_literal KQueued = ''queued''"
| "event_kind_literal KBackgroundTask = ''backgroundTask''"
| "event_kind_literal KSubagent = ''subagent''"
| "event_kind_literal KResult = ''result''"
| "event_kind_literal KContextUsage = ''contextUsage''"
| "event_kind_literal KContextCompactionStatus = ''contextCompactionStatus''"
| "event_kind_literal KContextCompaction = ''contextCompaction''"
| "event_kind_literal KError = ''error''"
| "event_kind_literal KUnknownLine = ''unknownLine''"

definition turn_event_kinds :: "event_kind list" where
  "turn_event_kinds =
     [KAssistantText, KReasoning, KUserMessage, KToolCall, KToolResult, KSubagentActivity, KSubagentEvent,
      KSubagentSpawn, KSubagentUsage, KSubagentTurnDone, KQueued, KBackgroundTask, KSubagent, KResult,
      KContextUsage, KContextCompactionStatus, KContextCompaction, KError, KUnknownLine]"

definition turnEventKind :: "jsval \<Rightarrow> string \<Rightarrow> event_kind checked" where
  "turnEventKind item path = member_at item event_kind_literal turn_event_kinds path"

fun background_status_literal :: "background_status \<Rightarrow> string" where
  "background_status_literal BgStarting = ''starting''"
| "background_status_literal BgRunning = ''running''"
| "background_status_literal BgCompleted = ''completed''"
| "background_status_literal BgFailed = ''failed''"
| "background_status_literal BgStopped = ''stopped''"

fun background_type_literal :: "background_type \<Rightarrow> string" where
  "background_type_literal BgMonitor = ''monitor''"
| "background_type_literal BgShell = ''shell''"
| "background_type_literal BgAgent = ''agent''"
| "background_type_literal BgOther = ''other''"

fun activity_literal :: "subagent_activity \<Rightarrow> string" where
  "activity_literal Started = ''started''"
| "activity_literal Interacted = ''interacted''"
| "activity_literal Interrupted = ''interrupted''"
| "activity_literal Completed = ''completed''"

fun subagent_status_literal :: "subagent_status \<Rightarrow> string" where
  "subagent_status_literal SubStarting = ''starting''"
| "subagent_status_literal SubRunning = ''running''"
| "subagent_status_literal SubCompleted = ''completed''"
| "subagent_status_literal SubFailed = ''failed''"

fun compaction_literal :: "compaction_status \<Rightarrow> string" where
  "compaction_literal Compacting = ''compacting''"
| "compaction_literal CompactionIdle = ''idle''"
| "compaction_literal CompactionFailed = ''failed''"

definition background_status_at :: "jsval \<Rightarrow> string \<Rightarrow> background_status checked" where
  "background_status_at item path =
     member_at item background_status_literal [BgStarting, BgRunning, BgCompleted, BgFailed, BgStopped] path"

definition background_type_at :: "jsval \<Rightarrow> string \<Rightarrow> background_type checked" where
  "background_type_at item path =
     member_at item background_type_literal [BgMonitor, BgShell, BgAgent, BgOther] path"

definition activity_at :: "jsval \<Rightarrow> string \<Rightarrow> subagent_activity checked" where
  "activity_at item path = member_at item activity_literal [Started, Interacted, Interrupted, Completed] path"

definition subagentEventStatus :: "jsval \<Rightarrow> string \<Rightarrow> subagent_status checked" where
  "subagentEventStatus item path =
     member_at item subagent_status_literal [SubStarting, SubRunning, SubCompleted, SubFailed] path"

definition compaction_at :: "jsval \<Rightarrow> string \<Rightarrow> compaction_status checked" where
  "compaction_at item path =
     member_at item compaction_literal [Compacting, CompactionIdle, CompactionFailed] path"

section \<open>Writing\<close>

definition event_object :: "event_kind \<Rightarrow> (js_string \<times> jsval) list \<Rightarrow> jsval" where
  "event_object kind props =
     JObject (js_field ''kind'' (Some (JString (js (event_kind_literal kind)))) @ props)"

fun serializeTurnEvent :: "agent_turn_event \<Rightarrow> jsval checked" where
  "serializeTurnEvent (AssistantText content parentToolId) = Inr (event_object KAssistantText
     (js_field ''text'' (Some (JString content)) @
      js_field ''parentToolId'' (map_option JString parentToolId)))"
| "serializeTurnEvent (Reasoning content parentToolId) = Inr (event_object KReasoning
     (js_field ''text'' (Some (JString content)) @
      js_field ''parentToolId'' (map_option JString parentToolId)))"
| "serializeTurnEvent (UserMessage message) =
     chk (serializeAttachments (um_attachments message)) (\<lambda>attachments.
     Inr (event_object KUserMessage
       (js_field ''text'' (Some (JString (um_text message))) @
        js_field ''attachments'' attachments)))"
| "serializeTurnEvent (ToolCall call) = Inr (event_object KToolCall
     (js_field ''toolId'' (Some (JString (tc_toolId call))) @
      js_field ''name'' (Some (JString (tc_name call))) @
      js_field ''inputSummary'' (Some (JString (tc_inputSummary call))) @
      js_field ''description'' (map_option JString (tc_description call)) @
      js_field ''parentToolId'' (map_option JString (tc_parentToolId call))))"
| "serializeTurnEvent (ToolResult result) = Inr (event_object KToolResult
     (js_field ''toolId'' (Some (JString (tr_toolId result))) @
      js_field ''outputSummary'' (Some (JString (tr_outputSummary result))) @
      js_field ''isError'' (Some (JBool (tr_isError result))) @
      js_field ''parentToolId'' (map_option JString (tr_parentToolId result))))"
| "serializeTurnEvent (BackgroundTask task) = Inr (event_object KBackgroundTask
     (js_field ''taskId'' (Some (JString (bt_taskId task))) @
      js_field ''status'' (Some (JString (js (background_status_literal (bt_status task))))) @
      js_field ''taskType'' (Some (JString (js (background_type_literal (bt_taskType task))))) @
      js_field ''description'' (map_option JString (bt_description task))))"
| "serializeTurnEvent (Subagent report) = Inr (event_object KSubagent
     (js_field ''status'' (Some (JString (js (subagent_status_literal (sub_status report))))) @
      js_field ''toolId'' (map_option JString (sub_toolId report)) @
      js_field ''taskId'' (map_option JString (sub_taskId report)) @
      js_field ''subagentType'' (map_option JString (sub_subagentType report)) @
      js_field ''description'' (map_option JString (sub_description report)) @
      js_field ''durationMs'' (map_option js_int (sub_durationMs report)) @
      js_field ''totalTokens'' (map_option js_int (sub_totalTokens report)) @
      js_field ''toolUses'' (map_option js_int (sub_toolUses report)) @
      js_field ''lastToolName'' (map_option JString (sub_lastToolName report))))"
| "serializeTurnEvent (SubagentActivity agentThreadId source activity) = Inr (event_object KSubagentActivity
     (js_field ''agentThreadId'' (Some (JString agentThreadId)) @
      js_field ''agentPath'' (Some (JString source)) @
      js_field ''activity'' (Some (JString (js (activity_literal activity))))))"
| "serializeTurnEvent (SubagentEvent agentThreadId event) =
     chk (serializeTurnEvent event) (\<lambda>inner.
     Inr (event_object KSubagentEvent
       (js_field ''agentThreadId'' (Some (JString agentThreadId)) @
        js_field ''event'' (Some inner))))"
| "serializeTurnEvent (SubagentUsage agentThreadId usage) = Inr (event_object KSubagentUsage
     (js_field ''agentThreadId'' (Some (JString agentThreadId)) @
      js_field ''usage'' (Some (serializeUsage usage))))"
| "serializeTurnEvent (SubagentSpawn spawn) = Inr (event_object KSubagentSpawn
     (js_field ''callId'' (Some (JString (ss_callId spawn))) @
      js_field ''status'' (Some (JString (spawn_status_string (ss_status spawn)))) @
      js_field ''taskTitle'' (Some (js_null JString (ss_taskTitle spawn))) @
      js_field ''model'' (Some (js_null JString (ss_model spawn))) @
      js_field ''reasoningEffort''
        (Some (js_null (\<lambda>e. JString (spawn_effort_string e)) (ss_reasoningEffort spawn))) @
      js_field ''agentThreadIds'' (Some (JArray (map JString (ss_agentThreadIds spawn))))))"
| "serializeTurnEvent (SubagentTurnDone agentThreadId durationMs isError) = Inr (event_object KSubagentTurnDone
     (js_field ''agentThreadId'' (Some (JString agentThreadId)) @
      js_field ''durationMs'' (Some (js_null js_int durationMs)) @
      js_field ''isError'' (Some (JBool isError))))"
| "serializeTurnEvent (Queued threadId clientUserMessageId) = Inr (event_object KQueued
     (js_field ''threadId'' (Some (JString threadId)) @
      js_field ''clientUserMessageId'' (Some (js_null JString clientUserMessageId))))"
| "serializeTurnEvent (Result result) = Inr (event_object KResult
     (js_field ''text'' (Some (JString (res_text result))) @
      js_field ''isError'' (Some (JBool (res_isError result))) @
      js_field ''usage'' (Some (js_null serializeUsage (res_usage result))) @
      js_field ''durationMs'' (map_option (js_null js_int) (res_durationMs result))))"
| "serializeTurnEvent (ContextUsage usage) = Inr (event_object KContextUsage
     (js_field ''model'' (Some (JString (cu_model usage))) @
      js_field ''inputTokens'' (Some (js_null js_int (cu_inputTokens usage))) @
      js_field ''contextWindow'' (Some (js_null js_int (cu_contextWindow usage))) @
      js_field ''observedAtEpochMs'' (map_option js_int (cu_observedAtEpochMs usage))))"
| "serializeTurnEvent (ContextCompactionStatus status message) = Inr (event_object KContextCompactionStatus
     (js_field ''status'' (Some (JString (js (compaction_literal status)))) @
      js_field ''message'' (Some (js_null JString message))))"
| "serializeTurnEvent (ContextCompaction beforeTokens afterTokens) = Inr (event_object KContextCompaction
     (js_field ''beforeTokens'' (Some (js_null js_int beforeTokens)) @
      js_field ''afterTokens'' (Some (js_null js_int afterTokens))))"
| "serializeTurnEvent (ErrorEvent message) = Inr (event_object KError
     (js_field ''message'' (Some (JString message))))"
| "serializeTurnEvent (UnknownLine stream raw clipped) = Inr (event_object KUnknownLine
     (js_field ''stream'' (Some (JString (js (stream_literal stream)))) @
      js_field ''raw'' (Some (JString raw)) @
      js_field ''clipped'' (Some (JBool clipped))))"

definition isV1TurnEvent :: "agent_turn_event \<Rightarrow> bool" where
  "isV1TurnEvent event \<longleftrightarrow> (case event of SubagentSpawn _ \<Rightarrow> False | _ \<Rightarrow> True)"

section \<open>The fields of a spawn\<close>

definition MAX_AGENT_SUBAGENT_SPAWN_ID_BYTES :: nat where "MAX_AGENT_SUBAGENT_SPAWN_ID_BYTES = 256"
definition MAX_AGENT_SUBAGENT_SPAWN_TITLE_BYTES :: nat where "MAX_AGENT_SUBAGENT_SPAWN_TITLE_BYTES = 480"
definition MAX_AGENT_SUBAGENT_SPAWN_MODEL_BYTES :: nat where "MAX_AGENT_SUBAGENT_SPAWN_MODEL_BYTES = 64"
definition MAX_AGENT_SUBAGENT_SPAWN_THREADS :: nat where "MAX_AGENT_SUBAGENT_SPAWN_THREADS = 32"

lemmas spawn_limits =
  MAX_AGENT_SUBAGENT_SPAWN_ID_BYTES_def MAX_AGENT_SUBAGENT_SPAWN_TITLE_BYTES_def
  MAX_AGENT_SUBAGENT_SPAWN_MODEL_BYTES_def MAX_AGENT_SUBAGENT_SPAWN_THREADS_def

definition AGENT_SUBAGENT_SPAWN_STATUSES :: "spawn_status list" where
  "AGENT_SUBAGENT_SPAWN_STATUSES = [SpawnInProgress, SpawnCompleted, SpawnFailed, SpawnInterrupted]"

definition AGENT_SUBAGENT_SPAWN_EFFORTS :: "spawn_effort list" where
  "AGENT_SUBAGENT_SPAWN_EFFORTS =
     [EffortNone, EffortMinimal, EffortLow, EffortMedium, EffortHigh, EffortXhigh]"

definition spawn_text :: "nat \<Rightarrow> jsval \<Rightarrow> string \<Rightarrow> js_string checked" where
  "spawn_text limit item field =
     (case item of
        JString s \<Rightarrow>
          if s = [] \<or> (\<exists>u \<in> set s. control_unit u) then Inl field
          else if utf8ByteLength s > limit then Inl field
          else Inr s
      | _ \<Rightarrow> Inl field)"

definition spawn_status_at :: "jsval \<Rightarrow> string \<Rightarrow> spawn_status checked" where
  "spawn_status_at item field =
     (case find (\<lambda>c. item = JString (spawn_status_string c)) AGENT_SUBAGENT_SPAWN_STATUSES of
        None \<Rightarrow> Inl field | Some c \<Rightarrow> Inr c)"

definition spawn_effort_at :: "jsval \<Rightarrow> string \<Rightarrow> spawn_effort checked" where
  "spawn_effort_at item field =
     (case find (\<lambda>c. item = JString (spawn_effort_string c)) AGENT_SUBAGENT_SPAWN_EFFORTS of
        None \<Rightarrow> Inl field | Some c \<Rightarrow> Inr c)"

definition parseAgentSubagentSpawnFields :: "(js_string \<times> jsval) list \<Rightarrow> subagent_spawn checked" where
  "parseAgentSubagentSpawnFields event =
     chk (boundedArray (js_get event (js ''agentThreadIds'')) ''agentThreadIds''
       MAX_AGENT_SUBAGENT_SPAWN_THREADS) (\<lambda>ids.
     chk (emit_all (\<lambda>ident. spawn_text MAX_AGENT_SUBAGENT_SPAWN_ID_BYTES ident ''id'') ids) (\<lambda>agentThreadIds.
     chk (reject (\<not> distinct agentThreadIds) ''agentThreadIds'') (\<lambda>_.
     chk (spawn_text MAX_AGENT_SUBAGENT_SPAWN_ID_BYTES (js_get event (js ''callId'')) ''callId'') (\<lambda>callId.
     chk (spawn_status_at (js_get event (js ''status'')) ''status'') (\<lambda>status.
     chk (nullable_at (js_get event (js ''taskTitle''))
       (\<lambda>title. spawn_text MAX_AGENT_SUBAGENT_SPAWN_TITLE_BYTES title ''taskTitle'')) (\<lambda>taskTitle.
     chk (nullable_at (js_get event (js ''model''))
       (\<lambda>model. spawn_text MAX_AGENT_SUBAGENT_SPAWN_MODEL_BYTES model ''model'')) (\<lambda>model.
     chk (nullable_at (js_get event (js ''reasoningEffort'')) (\<lambda>effort. spawn_effort_at effort ''reasoningEffort''))
       (\<lambda>effort.
     Inr \<lparr>ss_callId = callId, ss_status = status, ss_taskTitle = taskTitle, ss_model = model,
       ss_reasoningEffort = effort, ss_agentThreadIds = agentThreadIds\<rparr>))))))))"

section \<open>Reading\<close>

definition eventText :: "jsval \<Rightarrow> string \<Rightarrow> js_string checked" where
  "eventText item path = boundedText item path MAX_AGENT_EVENT_TEXT_BYTES True False"

definition toolSummary :: "jsval \<Rightarrow> string \<Rightarrow> js_string checked" where
  "toolSummary item path = boundedText item path MAX_AGENT_TOOL_SUMMARY_BYTES True False"

definition tool_id :: "jsval \<Rightarrow> string \<Rightarrow> js_string checked" where
  "tool_id item path = boundedText item path MAX_AGENT_TOOL_ID_BYTES False True"

definition optionalToolId :: "jsval \<Rightarrow> string \<Rightarrow> js_string option checked" where
  "optionalToolId item path = optional_at item (\<lambda>v. boundedText v path MAX_AGENT_TOOL_ID_BYTES False True)"

definition optionalToolDescription :: "jsval \<Rightarrow> string \<Rightarrow> js_string option checked" where
  "optionalToolDescription item path =
     optional_at item (\<lambda>v. boundedText v path MAX_AGENT_TOOL_DESCRIPTION_BYTES False True)"

definition optionalToolName :: "jsval \<Rightarrow> string \<Rightarrow> js_string option checked" where
  "optionalToolName item path = optional_at item (\<lambda>v. boundedText v path MAX_AGENT_TOOL_NAME_BYTES False True)"

definition optionalMetric :: "jsval \<Rightarrow> string \<Rightarrow> int option checked" where
  "optionalMetric item path = optional_at item (\<lambda>v. unsignedSafeInteger v path)"

text \<open>The kinds a subagent's own events may have.\<close>

definition subagent_content_kinds :: "event_kind list" where
  "subagent_content_kinds = [KAssistantText, KReasoning, KToolCall, KToolResult]"

fun event_kind_of :: "agent_turn_event \<Rightarrow> event_kind" where
  "event_kind_of (AssistantText _ _) = KAssistantText"
| "event_kind_of (Reasoning _ _) = KReasoning"
| "event_kind_of (UserMessage _) = KUserMessage"
| "event_kind_of (ToolCall _) = KToolCall"
| "event_kind_of (ToolResult _) = KToolResult"
| "event_kind_of (BackgroundTask _) = KBackgroundTask"
| "event_kind_of (Subagent _) = KSubagent"
| "event_kind_of (SubagentActivity _ _ _) = KSubagentActivity"
| "event_kind_of (SubagentEvent _ _) = KSubagentEvent"
| "event_kind_of (SubagentUsage _ _) = KSubagentUsage"
| "event_kind_of (SubagentSpawn _) = KSubagentSpawn"
| "event_kind_of (SubagentTurnDone _ _ _) = KSubagentTurnDone"
| "event_kind_of (Queued _ _) = KQueued"
| "event_kind_of (Result _) = KResult"
| "event_kind_of (ContextUsage _) = KContextUsage"
| "event_kind_of (ContextCompactionStatus _ _) = KContextCompactionStatus"
| "event_kind_of (ContextCompaction _ _) = KContextCompaction"
| "event_kind_of (ErrorEvent _) = KError"
| "event_kind_of (UnknownLine _ _ _) = KUnknownLine"

definition parse_text_fields :: "(js_string \<times> jsval) list \<Rightarrow> string \<Rightarrow> (js_string \<times> js_string option) checked" where
  "parse_text_fields event path =
     chk (boundedKeys event [''kind'', ''text''] [''parentToolId''] path) (\<lambda>_.
     chk (eventText (js_get event (js ''text'')) (path @ ''.text'')) (\<lambda>content.
     chk (optionalToolId (js_get event (js ''parentToolId'')) (path @ ''.parentToolId'')) (\<lambda>parent.
     Inr (content, parent))))"

definition parse_user_message :: "(js_string \<times> jsval) list \<Rightarrow> string \<Rightarrow> agent_turn_event checked" where
  "parse_user_message event path =
     chk (boundedKeys event [''kind'', ''text''] [''attachments''] path) (\<lambda>_.
     chk (eventText (js_get event (js ''text'')) (path @ ''.text'')) (\<lambda>content.
     chk (parseAttachments (js_get event (js ''attachments'')) (path @ ''.attachments'')) (\<lambda>attachments.
     Inr (UserMessage \<lparr>um_remoteMessageId = None, um_text = content, um_attachments = attachments\<rparr>))))"

definition parse_tool_call :: "(js_string \<times> jsval) list \<Rightarrow> string \<Rightarrow> agent_turn_event checked" where
  "parse_tool_call event path =
     chk (boundedKeys event [''kind'', ''toolId'', ''name'', ''inputSummary''] [''description'', ''parentToolId''] path)
       (\<lambda>_.
     chk (tool_id (js_get event (js ''toolId'')) (path @ ''.toolId'')) (\<lambda>toolId.
     chk (boundedText (js_get event (js ''name'')) (path @ ''.name'') MAX_AGENT_TOOL_NAME_BYTES False True) (\<lambda>name.
     chk (toolSummary (js_get event (js ''inputSummary'')) (path @ ''.inputSummary'')) (\<lambda>summary.
     chk (optionalToolDescription (js_get event (js ''description'')) (path @ ''.description'')) (\<lambda>description.
     chk (optionalToolId (js_get event (js ''parentToolId'')) (path @ ''.parentToolId'')) (\<lambda>parent.
     Inr (ToolCall \<lparr>tc_toolId = toolId, tc_name = name, tc_inputSummary = summary,
       tc_description = description, tc_parentToolId = parent\<rparr>)))))))"

definition parse_tool_result :: "(js_string \<times> jsval) list \<Rightarrow> string \<Rightarrow> agent_turn_event checked" where
  "parse_tool_result event path =
     chk (boundedKeys event [''kind'', ''toolId'', ''outputSummary'', ''isError''] [''parentToolId''] path) (\<lambda>_.
     chk (tool_id (js_get event (js ''toolId'')) (path @ ''.toolId'')) (\<lambda>toolId.
     chk (toolSummary (js_get event (js ''outputSummary'')) (path @ ''.outputSummary'')) (\<lambda>summary.
     chk (boolean_at (js_get event (js ''isError'')) (path @ ''.isError'')) (\<lambda>isError.
     chk (optionalToolId (js_get event (js ''parentToolId'')) (path @ ''.parentToolId'')) (\<lambda>parent.
     Inr (ToolResult \<lparr>tr_toolId = toolId, tr_outputSummary = summary, tr_isError = isError,
       tr_parentToolId = parent\<rparr>))))))"

definition parse_background_task :: "(js_string \<times> jsval) list \<Rightarrow> string \<Rightarrow> agent_turn_event checked" where
  "parse_background_task event path =
     chk (boundedKeys event [''kind'', ''taskId'', ''status'', ''taskType''] [''description''] path) (\<lambda>_.
     chk (background_status_at (js_get event (js ''status'')) path) (\<lambda>status.
     chk (background_type_at (js_get event (js ''taskType'')) path) (\<lambda>taskType.
     chk (tool_id (js_get event (js ''taskId'')) (path @ ''.taskId'')) (\<lambda>taskId.
     chk (optional_at (js_get event (js ''description'')) (\<lambda>v. toolSummary v (path @ ''.description'')))
       (\<lambda>description.
     Inr (BackgroundTask \<lparr>bt_taskId = taskId, bt_status = status, bt_taskType = taskType,
       bt_description = description\<rparr>))))))"

definition parseSubagentEvent :: "(js_string \<times> jsval) list \<Rightarrow> string \<Rightarrow> agent_turn_event checked" where
  "parseSubagentEvent event path =
     chk (boundedKeys event [''kind'', ''status'']
       [''toolId'', ''taskId'', ''subagentType'', ''description'', ''durationMs'', ''totalTokens'', ''toolUses'',
        ''lastToolName''] path) (\<lambda>_.
     chk (optionalToolId (js_get event (js ''toolId'')) (path @ ''.toolId'')) (\<lambda>toolId.
     chk (optionalToolId (js_get event (js ''taskId'')) (path @ ''.taskId'')) (\<lambda>taskId.
     chk (reject (toolId = None \<and> taskId = None) path) (\<lambda>_.
     chk (subagentEventStatus (js_get event (js ''status'')) (path @ ''.status'')) (\<lambda>status.
     chk (optionalToolName (js_get event (js ''subagentType'')) (path @ ''.subagentType'')) (\<lambda>subagentType.
     chk (optional_at (js_get event (js ''description'')) (\<lambda>v. toolSummary v (path @ ''.description'')))
       (\<lambda>description.
     chk (optionalMetric (js_get event (js ''durationMs'')) (path @ ''.durationMs'')) (\<lambda>durationMs.
     chk (optionalMetric (js_get event (js ''totalTokens'')) (path @ ''.totalTokens'')) (\<lambda>totalTokens.
     chk (optionalMetric (js_get event (js ''toolUses'')) (path @ ''.toolUses'')) (\<lambda>toolUses.
     chk (optionalToolName (js_get event (js ''lastToolName'')) (path @ ''.lastToolName'')) (\<lambda>lastToolName.
     Inr (Subagent \<lparr>sub_status = status, sub_toolId = toolId, sub_taskId = taskId,
       sub_subagentType = subagentType, sub_description = description, sub_durationMs = durationMs,
       sub_totalTokens = totalTokens, sub_toolUses = toolUses, sub_lastToolName = lastToolName\<rparr>))))))))))))"

definition parse_subagent_activity :: "(js_string \<times> jsval) list \<Rightarrow> string \<Rightarrow> agent_turn_event checked" where
  "parse_subagent_activity event path =
     chk (exactKeys event [''kind'', ''agentThreadId'', ''agentPath'', ''activity''] path) (\<lambda>_.
     chk (activity_at (js_get event (js ''activity'')) path) (\<lambda>activity.
     chk (tool_id (js_get event (js ''agentThreadId'')) (path @ ''.agentThreadId'')) (\<lambda>thread.
     chk (boundedText (js_get event (js ''agentPath'')) (path @ ''.agentPath'') MAX_AGENT_TASK_PATH_BYTES True True)
       (\<lambda>source.
     Inr (SubagentActivity thread source activity)))))"

definition parse_subagent_usage :: "(js_string \<times> jsval) list \<Rightarrow> string \<Rightarrow> agent_turn_event checked" where
  "parse_subagent_usage event path =
     chk (exactKeys event [''kind'', ''agentThreadId'', ''usage''] path) (\<lambda>_.
     chk (parseUsage (js_get event (js ''usage'')) (path @ ''.usage'')) (\<lambda>usage.
       case usage of
         None \<Rightarrow> Inl path
       | Some u \<Rightarrow>
           chk (tool_id (js_get event (js ''agentThreadId'')) (path @ ''.agentThreadId'')) (\<lambda>thread.
           Inr (SubagentUsage thread u))))"

definition parse_subagent_spawn :: "(js_string \<times> jsval) list \<Rightarrow> string \<Rightarrow> agent_turn_event checked" where
  "parse_subagent_spawn event path =
     chk (exactKeys event [''kind'', ''callId'', ''status'', ''taskTitle'', ''model'', ''reasoningEffort'',
       ''agentThreadIds''] path) (\<lambda>_.
       case parseAgentSubagentSpawnFields event of
         Inl _ \<Rightarrow> Inl path
       | Inr spawn \<Rightarrow> Inr (SubagentSpawn spawn))"

definition parse_subagent_turn_done :: "(js_string \<times> jsval) list \<Rightarrow> string \<Rightarrow> agent_turn_event checked" where
  "parse_subagent_turn_done event path =
     chk (exactKeys event [''kind'', ''agentThreadId'', ''durationMs'', ''isError''] path) (\<lambda>_.
     chk (tool_id (js_get event (js ''agentThreadId'')) (path @ ''.agentThreadId'')) (\<lambda>thread.
     chk (optionalUnsignedSafeInteger (js_get event (js ''durationMs'')) (path @ ''.durationMs'')) (\<lambda>durationMs.
     chk (boolean_at (js_get event (js ''isError'')) (path @ ''.isError'')) (\<lambda>isError.
     Inr (SubagentTurnDone thread durationMs isError)))))"

definition parse_queued :: "(js_string \<times> jsval) list \<Rightarrow> string \<Rightarrow> agent_turn_event checked" where
  "parse_queued event path =
     chk (exactKeys event [''kind'', ''threadId'', ''clientUserMessageId''] path) (\<lambda>_.
     chk (tool_id (js_get event (js ''threadId'')) (path @ ''.threadId'')) (\<lambda>thread.
     chk (optionalAgentSessionId (js_get event (js ''clientUserMessageId'')) (path @ ''.clientUserMessageId''))
       (\<lambda>message.
     Inr (Queued thread message))))"

definition parse_result :: "(js_string \<times> jsval) list \<Rightarrow> string \<Rightarrow> agent_turn_event checked" where
  "parse_result event path =
     chk (boundedKeys event [''kind'', ''text'', ''isError'', ''usage''] [''durationMs''] path) (\<lambda>_.
     chk (eventText (js_get event (js ''text'')) (path @ ''.text'')) (\<lambda>content.
     chk (boolean_at (js_get event (js ''isError'')) (path @ ''.isError'')) (\<lambda>isError.
     chk (parseUsage (js_get event (js ''usage'')) (path @ ''.usage'')) (\<lambda>usage.
     chk (optional_at (js_get event (js ''durationMs''))
       (\<lambda>v. optionalUnsignedSafeInteger v (path @ ''.durationMs''))) (\<lambda>durationMs.
     Inr (Result \<lparr>res_durationMs = durationMs, res_text = content, res_isError = isError,
       res_usage = usage\<rparr>))))))"

definition parse_context_usage :: "(js_string \<times> jsval) list \<Rightarrow> string \<Rightarrow> agent_turn_event checked" where
  "parse_context_usage event path =
     chk (boundedKeys event [''kind'', ''model'', ''inputTokens'', ''contextWindow''] [''observedAtEpochMs''] path)
       (\<lambda>_.
     chk (optionalUnsignedSafeInteger (js_get event (js ''contextWindow'')) (path @ ''.contextWindow'')) (\<lambda>window.
     chk (reject (window = Some 0) path) (\<lambda>_.
     chk (boundedText (js_get event (js ''model'')) (path @ ''.model'') 256 False True) (\<lambda>model.
     chk (optionalUnsignedSafeInteger (js_get event (js ''inputTokens'')) (path @ ''.inputTokens'')) (\<lambda>input.
     chk (optional_at (js_get event (js ''observedAtEpochMs''))
       (\<lambda>v. unsignedSafeInteger v (path @ ''.observedAtEpochMs''))) (\<lambda>observed.
     Inr (ContextUsage \<lparr>cu_observedAtEpochMs = observed, cu_model = model, cu_inputTokens = input,
       cu_contextWindow = window\<rparr>)))))))"

definition parse_compaction_status :: "(js_string \<times> jsval) list \<Rightarrow> string \<Rightarrow> agent_turn_event checked" where
  "parse_compaction_status event path =
     chk (exactKeys event [''kind'', ''status'', ''message''] path) (\<lambda>_.
     chk (compaction_at (js_get event (js ''status'')) path) (\<lambda>status.
     chk (nullable_at (js_get event (js ''message'')) (\<lambda>v. eventText v (path @ ''.message''))) (\<lambda>message.
     Inr (ContextCompactionStatus status message))))"

definition parse_compaction :: "(js_string \<times> jsval) list \<Rightarrow> string \<Rightarrow> agent_turn_event checked" where
  "parse_compaction event path =
     chk (exactKeys event [''kind'', ''beforeTokens'', ''afterTokens''] path) (\<lambda>_.
     chk (optionalUnsignedSafeInteger (js_get event (js ''beforeTokens'')) (path @ ''.beforeTokens'')) (\<lambda>before.
     chk (optionalUnsignedSafeInteger (js_get event (js ''afterTokens'')) (path @ ''.afterTokens'')) (\<lambda>after.
     Inr (ContextCompaction before after))))"

definition parse_error :: "(js_string \<times> jsval) list \<Rightarrow> string \<Rightarrow> agent_turn_event checked" where
  "parse_error event path =
     chk (exactKeys event [''kind'', ''message''] path) (\<lambda>_.
     chk (eventText (js_get event (js ''message'')) (path @ ''.message'')) (\<lambda>message. Inr (ErrorEvent message)))"

definition parse_unknown_line :: "(js_string \<times> jsval) list \<Rightarrow> string \<Rightarrow> agent_turn_event checked" where
  "parse_unknown_line event path =
     chk (exactKeys event [''kind'', ''stream'', ''raw'', ''clipped''] path) (\<lambda>_.
     chk (outputStream (js_get event (js ''stream'')) (path @ ''.stream'')) (\<lambda>stream.
     chk (eventText (js_get event (js ''raw'')) (path @ ''.raw'')) (\<lambda>raw.
     chk (boolean_at (js_get event (js ''clipped'')) (path @ ''.clipped'')) (\<lambda>clipped.
     Inr (UnknownLine stream raw clipped)))))"

text \<open>The recursion is on the object held in the \<open>event\<close> property.\<close>

lemma chk_cong [fundef_cong]:
  "r = r' \<Longrightarrow> (\<And>a. r' = Inr a \<Longrightarrow> f a = f' a) \<Longrightarrow> chk r f = chk r' f'"
  by (cases r') simp_all

lemma size_property: "js_get props key = JObject inner \<Longrightarrow> size (JObject inner) < size (JObject props)"
proof -
  have "map_of props key = Some v \<Longrightarrow> size v \<le> size_list (size_prod (\<lambda>_. 0) size) props" for v
    by (induction props) (auto split: if_splits)
  then show "js_get props key = JObject inner \<Longrightarrow> size (JObject inner) < size (JObject props)"
    by (fastforce simp: js_get_def split: option.splits)
qed

function (sequential) parseTurnEvent :: "jsval \<Rightarrow> string \<Rightarrow> agent_turn_event checked" where
  "parseTurnEvent item path =
     chk (record_at item path) (\<lambda>event.
     chk (turnEventKind (js_get event (js ''kind'')) (path @ ''.kind'')) (\<lambda>kind.
       case kind of
         KAssistantText \<Rightarrow>
           chk (parse_text_fields event path) (\<lambda>(content, parent). Inr (AssistantText content parent))
       | KReasoning \<Rightarrow>
           chk (parse_text_fields event path) (\<lambda>(content, parent). Inr (Reasoning content parent))
       | KUserMessage \<Rightarrow> parse_user_message event path
       | KToolCall \<Rightarrow> parse_tool_call event path
       | KToolResult \<Rightarrow> parse_tool_result event path
       | KBackgroundTask \<Rightarrow> parse_background_task event path
       | KSubagent \<Rightarrow> parseSubagentEvent event path
       | KSubagentActivity \<Rightarrow> parse_subagent_activity event path
       | KSubagentEvent \<Rightarrow>
           chk (exactKeys event [''kind'', ''agentThreadId'', ''event''] path) (\<lambda>_.
           chk (record_at (js_get event (js ''event'')) (path @ ''.event'')) (\<lambda>inner.
           chk (member_at (js_get inner (js ''kind'')) event_kind_literal subagent_content_kinds
             (path @ ''.event.kind'')) (\<lambda>_.
           chk (parseTurnEvent (JObject inner) (path @ ''.event'')) (\<lambda>parsed.
           chk (reject (event_kind_of parsed \<notin> set subagent_content_kinds) path) (\<lambda>_.
           chk (tool_id (js_get event (js ''agentThreadId'')) (path @ ''.agentThreadId'')) (\<lambda>thread.
           Inr (SubagentEvent thread parsed)))))))
       | KSubagentUsage \<Rightarrow> parse_subagent_usage event path
       | KSubagentSpawn \<Rightarrow> parse_subagent_spawn event path
       | KSubagentTurnDone \<Rightarrow> parse_subagent_turn_done event path
       | KQueued \<Rightarrow> parse_queued event path
       | KResult \<Rightarrow> parse_result event path
       | KContextUsage \<Rightarrow> parse_context_usage event path
       | KContextCompactionStatus \<Rightarrow> parse_compaction_status event path
       | KContextCompaction \<Rightarrow> parse_compaction event path
       | KError \<Rightarrow> parse_error event path
       | KUnknownLine \<Rightarrow> parse_unknown_line event path))"
  by pat_completeness auto

termination parseTurnEvent
proof (relation "measure (\<lambda>(item, path). size item)")
  fix item path event kind inner
  assume "record_at item path = Inr event" and "record_at (js_get event (js ''event'')) (path @ ''.event'') = Inr inner"
  then show "((JObject inner, path @ ''.event''), item, path) \<in> measure (\<lambda>(item, path). size item)"
    using size_property by (auto simp: record_at_eq_Inr simp del: js_simps)
qed auto

declare parseTurnEvent.simps [simp del]

end
