(* ===== verification/WireEventLaws.thy ===== *)
theory WireEventLaws
  imports WireEvents
begin

text \<open>
  A stored event is read back as it was written, and what the parser of an event returns is
  within the limits the store writes: the \<open>saver\<close> contract on \<open>serializeTurnEvent\<close> and
  \<open>parseTurnEvent\<close>. The reader of a mobile message does not keep the identifier of the remote
  message, and an empty list of attachments is stored as an absent field.
\<close>

section \<open>Storable events\<close>

abbreviation "event_text_ok \<equiv> text_ok MAX_AGENT_EVENT_TEXT_BYTES True False"
abbreviation "summary_ok \<equiv> text_ok MAX_AGENT_TOOL_SUMMARY_BYTES True False"
abbreviation "tool_id_ok \<equiv> text_ok MAX_AGENT_TOOL_ID_BYTES False True"
abbreviation "tool_name_ok \<equiv> text_ok MAX_AGENT_TOOL_NAME_BYTES False True"

definition spawn_ok :: "subagent_spawn \<Rightarrow> bool" where
  "spawn_ok spawn \<longleftrightarrow>
     length (ss_agentThreadIds spawn) \<le> MAX_AGENT_SUBAGENT_SPAWN_THREADS \<and> distinct (ss_agentThreadIds spawn) \<and>
     list_all (text_ok MAX_AGENT_SUBAGENT_SPAWN_ID_BYTES False True) (ss_agentThreadIds spawn) \<and>
     text_ok MAX_AGENT_SUBAGENT_SPAWN_ID_BYTES False True (ss_callId spawn) \<and>
     pred_option (text_ok MAX_AGENT_SUBAGENT_SPAWN_TITLE_BYTES False True) (ss_taskTitle spawn) \<and>
     pred_option (text_ok MAX_AGENT_SUBAGENT_SPAWN_MODEL_BYTES False True) (ss_model spawn)"

fun wire_event_ok :: "agent_turn_event \<Rightarrow> bool" where
  "wire_event_ok (AssistantText content parent) = (event_text_ok content \<and> pred_option tool_id_ok parent)"
| "wire_event_ok (Reasoning content parent) = (event_text_ok content \<and> pred_option tool_id_ok parent)"
| "wire_event_ok (UserMessage message) =
     (event_text_ok (um_text message) \<and> pred_option attachments_ok (stored_attachments (um_attachments message)))"
| "wire_event_ok (ToolCall call) =
     (tool_id_ok (tc_toolId call) \<and> tool_name_ok (tc_name call) \<and> summary_ok (tc_inputSummary call) \<and>
      pred_option (text_ok MAX_AGENT_TOOL_DESCRIPTION_BYTES False True) (tc_description call) \<and>
      pred_option tool_id_ok (tc_parentToolId call))"
| "wire_event_ok (ToolResult result) =
     (tool_id_ok (tr_toolId result) \<and> summary_ok (tr_outputSummary result) \<and>
      pred_option tool_id_ok (tr_parentToolId result))"
| "wire_event_ok (BackgroundTask task) = (tool_id_ok (bt_taskId task) \<and> pred_option summary_ok (bt_description task))"
| "wire_event_ok (Subagent report) =
     ((sub_toolId report \<noteq> None \<or> sub_taskId report \<noteq> None) \<and> pred_option tool_id_ok (sub_toolId report) \<and>
      pred_option tool_id_ok (sub_taskId report) \<and> pred_option tool_name_ok (sub_subagentType report) \<and>
      pred_option summary_ok (sub_description report) \<and> pred_option count_ok (sub_durationMs report) \<and>
      pred_option count_ok (sub_totalTokens report) \<and> pred_option count_ok (sub_toolUses report) \<and>
      pred_option tool_name_ok (sub_lastToolName report))"
| "wire_event_ok (SubagentActivity thread source _) =
     (tool_id_ok thread \<and> text_ok MAX_AGENT_TASK_PATH_BYTES True True source)"
| "wire_event_ok (SubagentEvent thread event) =
     (tool_id_ok thread \<and> event_kind_of event \<in> set subagent_content_kinds \<and> wire_event_ok event)"
| "wire_event_ok (SubagentUsage thread usage) = (tool_id_ok thread \<and> usage_ok usage)"
| "wire_event_ok (SubagentSpawn spawn) = spawn_ok spawn"
| "wire_event_ok (SubagentTurnDone thread durationMs _) = (tool_id_ok thread \<and> pred_option count_ok durationMs)"
| "wire_event_ok (Queued thread message) = (tool_id_ok thread \<and> pred_option isAgentSessionId message)"
| "wire_event_ok (Result result) =
     (event_text_ok (res_text result) \<and> pred_option usage_ok (res_usage result) \<and>
      pred_option (pred_option count_ok) (res_durationMs result))"
| "wire_event_ok (ContextUsage usage) =
     (cu_contextWindow usage \<noteq> Some 0 \<and> pred_option count_ok (cu_contextWindow usage) \<and>
      text_ok 256 False True (cu_model usage) \<and> pred_option count_ok (cu_inputTokens usage) \<and>
      pred_option count_ok (cu_observedAtEpochMs usage))"
| "wire_event_ok (ContextCompactionStatus _ message) = pred_option event_text_ok message"
| "wire_event_ok (ContextCompaction before after) = (pred_option count_ok before \<and> pred_option count_ok after)"
| "wire_event_ok (ErrorEvent message) = event_text_ok message"
| "wire_event_ok (UnknownLine _ raw _) = event_text_ok raw"

text \<open>What a stored event reads back as.\<close>

fun stored_event :: "agent_turn_event \<Rightarrow> agent_turn_event" where
  "stored_event (UserMessage message) = UserMessage (message\<lparr>um_remoteMessageId := None,
     um_attachments := stored_attachments (um_attachments message)\<rparr>)"
| "stored_event event = event"

section \<open>Choices\<close>

lemma turnEventKind_literal [simp]: "turnEventKind (JString (js (event_kind_literal k))) path = Inr k"
proof -
  have "distinct (map event_kind_literal turn_event_kinds)" by (simp add: turn_event_kinds_def)
  then have "inj_on event_kind_literal (set turn_event_kinds)" by (simp add: distinct_map)
  moreover have "k \<in> set turn_event_kinds" by (cases k) (simp_all add: turn_event_kinds_def)
  ultimately show ?thesis by (simp add: turnEventKind_def member_at_literal)
qed

lemma content_kind_literal:
  assumes "k \<in> set subagent_content_kinds"
  shows "member_at (JString (js (event_kind_literal k))) event_kind_literal subagent_content_kinds path = Inr k"
proof (rule member_at_literal)
  show "inj_on event_kind_literal (set subagent_content_kinds)" by (simp add: subagent_content_kinds_def)
qed (rule assms)

lemma choice_literals [simp]:
  "background_status_at (JString (js (background_status_literal s))) path = Inr s"
  "background_type_at (JString (js (background_type_literal t))) path = Inr t"
  "activity_at (JString (js (activity_literal a))) path = Inr a"
  "subagentEventStatus (JString (js (subagent_status_literal u))) path = Inr u"
  "compaction_at (JString (js (compaction_literal c))) path = Inr c"
  "outputStream (JString (js (stream_literal w))) path = Inr w"
proof -
  show "background_status_at (JString (js (background_status_literal s))) path = Inr s"
    by (cases s) (simp_all add: background_status_at_def member_at_def js_inject del: js_simps)
  show "background_type_at (JString (js (background_type_literal t))) path = Inr t"
    by (cases t) (simp_all add: background_type_at_def member_at_def js_inject del: js_simps)
  show "activity_at (JString (js (activity_literal a))) path = Inr a"
    by (cases a) (simp_all add: activity_at_def member_at_def js_inject del: js_simps)
  show "subagentEventStatus (JString (js (subagent_status_literal u))) path = Inr u"
    by (cases u) (simp_all add: subagentEventStatus_def member_at_def js_inject del: js_simps)
  show "compaction_at (JString (js (compaction_literal c))) path = Inr c"
    by (cases c) (simp_all add: compaction_at_def member_at_def js_inject del: js_simps)
  show "outputStream (JString (js (stream_literal w))) path = Inr w"
    by (cases w) (simp_all add: outputStream_def member_at_def js_inject del: js_simps)
qed

interpretation spawnText: value_codec JString "spawn_text n" "text_ok n False True" for n
proof unfold_locales
  have "control_unit 0" by (simp add: control_unit_def)
  then show "spawn_text n item field = Inr s \<Longrightarrow> text_ok n False True s"
    and "text_ok n False True s \<Longrightarrow> spawn_text n (JString s) field = Inr s" for item field s
    by (auto simp: spawn_text_def text_ok_def split: jsval.splits if_splits)
qed simp_all

interpretation spawnStatus: value_codec "\<lambda>c. JString (spawn_status_string c)" spawn_status_at "\<lambda>_. True"
proof unfold_locales
  show "spawn_status_at (JString (spawn_status_string c)) field = Inr c" for c field
    by (cases c) (simp_all add: spawn_status_at_def AGENT_SUBAGENT_SPAWN_STATUSES_def js_inject del: js_simps)
qed simp_all

interpretation spawnEffort: value_codec "\<lambda>c. JString (spawn_effort_string c)" spawn_effort_at "\<lambda>_. True"
proof unfold_locales
  show "spawn_effort_at (JString (spawn_effort_string c)) field = Inr c" for c field
    by (cases c) (simp_all add: spawn_effort_at_def AGENT_SUBAGENT_SPAWN_EFFORTS_def js_inject del: js_simps)
qed simp_all

lemma session_id_null [simp]:
  "pred_option isAgentSessionId x \<Longrightarrow> optionalAgentSessionId (js_null JString x) path = Inr x"
  by (cases x) (auto simp: optionalAgentSessionId_def js_null_def)

lemma session_id_good: "optionalAgentSessionId item path = Inr x \<Longrightarrow> pred_option isAgentSessionId x"
  by (auto simp: optionalAgentSessionId_def split: jsval.splits if_splits)

section \<open>Writing and reading back\<close>

lemmas field_parsers =
  eventText_def toolSummary_def tool_id_def optionalToolId_def optionalToolDescription_def optionalToolName_def
  optionalMetric_def optionalUnsignedSafeInteger_def parseUsage_def

lemmas field_reads =
  str.parse_emit str.optional_emit str.nullable_emit cnt.parse_emit cnt.optional_emit cnt.nullable_emit
  cnt.nullable.optional_emit flag.parse_emit usage.nullable_emit usage.nullable_present

lemmas event_parsers =
  parse_text_fields_def parse_user_message_def parse_tool_call_def parse_tool_result_def
  parse_background_task_def parseSubagentEvent_def parse_subagent_activity_def parse_subagent_usage_def
  parse_subagent_spawn_def parse_subagent_turn_done_def parse_queued_def parse_result_def
  parse_context_usage_def parse_compaction_status_def parse_compaction_def parse_error_def
  parse_unknown_line_def

lemma spawn_fields_read:
  assumes "spawn_ok spawn" and "js_get event (js ''agentThreadIds'') = JArray (map JString (ss_agentThreadIds spawn))"
    and "js_get event (js ''callId'') = JString (ss_callId spawn)"
    and "js_get event (js ''status'') = JString (spawn_status_string (ss_status spawn))"
    and "js_get event (js ''taskTitle'') = js_null JString (ss_taskTitle spawn)"
    and "js_get event (js ''model'') = js_null JString (ss_model spawn)"
    and "js_get event (js ''reasoningEffort'') = js_null (\<lambda>e. JString (spawn_effort_string e)) (ss_reasoningEffort spawn)"
  shows "parseAgentSubagentSpawnFields event = Inr spawn"
  using assms by (simp add: parseAgentSubagentSpawnFields_def spawn_ok_def spawnText.each_emit spawnText.parse_emit
      spawnText.nullable_emit spawnStatus.parse_emit spawnEffort.nullable_emit option.pred_True del: js_simps)

definition event_props :: "event_kind \<Rightarrow> (js_string \<times> jsval) list \<Rightarrow> (js_string \<times> jsval) list" where
  "event_props kind props = js_field ''kind'' (Some (JString (js (event_kind_literal kind)))) @ props"

lemma event_object_props: "event_object kind props = JObject (event_props kind props)"
  by (simp add: event_object_def event_props_def)

lemma event_kind_property [simp]:
  "js_get (event_props kind props) (js ''kind'') = JString (js (event_kind_literal kind))"
  by (simp add: event_props_def read_back del: js_simps)

text \<open>The parser \<open>parseTurnEvent\<close> dispatches to for a kind that does not nest.\<close>

fun plain_parser :: "event_kind \<Rightarrow> (js_string \<times> jsval) list \<Rightarrow> string \<Rightarrow> agent_turn_event checked" where
  "plain_parser KAssistantText event path =
     chk (parse_text_fields event path) (\<lambda>(content, parent). Inr (AssistantText content parent))"
| "plain_parser KReasoning event path =
     chk (parse_text_fields event path) (\<lambda>(content, parent). Inr (Reasoning content parent))"
| "plain_parser KUserMessage event path = parse_user_message event path"
| "plain_parser KToolCall event path = parse_tool_call event path"
| "plain_parser KToolResult event path = parse_tool_result event path"
| "plain_parser KBackgroundTask event path = parse_background_task event path"
| "plain_parser KSubagent event path = parseSubagentEvent event path"
| "plain_parser KSubagentActivity event path = parse_subagent_activity event path"
| "plain_parser KSubagentEvent event path = Inl path"
| "plain_parser KSubagentUsage event path = parse_subagent_usage event path"
| "plain_parser KSubagentSpawn event path = parse_subagent_spawn event path"
| "plain_parser KSubagentTurnDone event path = parse_subagent_turn_done event path"
| "plain_parser KQueued event path = parse_queued event path"
| "plain_parser KResult event path = parse_result event path"
| "plain_parser KContextUsage event path = parse_context_usage event path"
| "plain_parser KContextCompactionStatus event path = parse_compaction_status event path"
| "plain_parser KContextCompaction event path = parse_compaction event path"
| "plain_parser KError event path = parse_error event path"
| "plain_parser KUnknownLine event path = parse_unknown_line event path"

lemma parse_plain:
  assumes "k \<noteq> KSubagentEvent"
  shows "parseTurnEvent (event_object k props) path = plain_parser k (event_props k props) path"
  unfolding event_object_props
  by (subst parseTurnEvent.simps, simp del: js_simps) (use assms in \<open>cases k; simp del: js_simps\<close>)

lemma event_object_value [simp]: "event_object kind props \<noteq> JUndefined"
  by (simp add: event_object_def)

text \<open>Every kind but the nested one; each case is the parser of that kind on what was written.\<close>

lemma plain_event_saved:
  assumes "wire_event_ok e" and "event_kind_of e \<noteq> KSubagentEvent"
  shows "\<exists>item. serializeTurnEvent e = Inr item \<and> item \<noteq> JUndefined \<and>
    (\<forall>path. parseTurnEvent item path = Inr (stored_event e))"
proof (cases e)
  case (UserMessage message)
  then obtain item where "serializeAttachments (um_attachments message) = Inr item"
    "\<And>path. parseAttachments (js_pick item JUndefined) path = Inr (stored_attachments (um_attachments message))"
    using assms serialized_attachments by auto
  then show ?thesis using assms
    by (simp add: UserMessage parse_plain event_parsers field_parsers field_reads
        event_props_def written_keys read_back del: js_simps)
next
  case (SubagentSpawn spawn)
  with assms show ?thesis
    by (simp add: parse_plain event_parsers
        event_props_def written_keys read_back spawn_fields_read del: js_simps)
next
  case (Subagent report)
  with assms have "\<not> (sub_toolId report = None \<and> sub_taskId report = None)" by simp
  with Subagent assms show ?thesis
    by (simp add: parse_plain event_parsers field_parsers field_reads event_props_def written_keys read_back
        reject_def del: js_simps)
qed (use assms in \<open>simp_all add: parse_plain event_parsers field_parsers field_reads
    event_props_def written_keys read_back del: js_simps\<close>)

lemma content_event:
  assumes "event_kind_of e \<in> set subagent_content_kinds"
  shows "event_kind_of e \<noteq> KSubagentEvent" and "stored_event e = e"
  using assms by (cases e; simp add: subagent_content_kinds_def)+

lemma event_object_shape:
  "serializeTurnEvent e = Inr item \<Longrightarrow> \<exists>props. item = JObject (event_props (event_kind_of e) props)"
  by (cases e) (auto simp: event_object_props chk_eq_Inr)

lemma event_saved:
  assumes "wire_event_ok e"
  shows "\<exists>item. serializeTurnEvent e = Inr item \<and> item \<noteq> JUndefined \<and>
    (\<forall>path. parseTurnEvent item path = Inr (stored_event e))"
proof (cases "event_kind_of e = KSubagentEvent")
  case False
  with assms show ?thesis by (rule plain_event_saved)
next
  case True
  then obtain thread inner where e: "e = SubagentEvent thread inner" by (cases e) simp_all
  with assms have inner: "wire_event_ok inner" "event_kind_of inner \<in> set subagent_content_kinds"
    and thread: "tool_id_ok thread" by simp_all
  from plain_event_saved [OF inner(1) content_event(1) [OF inner(2)]] obtain item props
    where item: "serializeTurnEvent inner = Inr item" "item = JObject (event_props (event_kind_of inner) props)"
      "\<And>path. parseTurnEvent item path = Inr inner"
    using event_object_shape content_event(2) [OF inner(2)] by metis
  have "parseTurnEvent (event_object KSubagentEvent
      (js_field ''agentThreadId'' (Some (JString thread)) @ js_field ''event'' (Some item))) path = Inr e" for path
    using inner thread item(3) unfolding event_object_def item(2) e
    by (subst parseTurnEvent.simps)
      (simp add: written_keys read_back content_kind_literal tool_id_def str.parse_emit
        del: js_simps event_kind_literal.simps)
  with item(1) e show ?thesis by simp
qed

section \<open>What is read is storable\<close>

lemmas field_goods =
  str.parse_good str.optional_good str.nullable_good cnt.parse_good cnt.optional_good cnt.nullable_good
  cnt.nullable.optional_good usage.parse_good usage.nullable_good spawnText.parse_good spawnText.each_good
  spawnText.nullable_good session_id_good parsed_attachments_ok

lemma parsed_spawn_ok: "parseAgentSubagentSpawnFields event = Inr spawn \<Longrightarrow> spawn_ok spawn"
  using emit_all_length
  by (fastforce simp: parseAgentSubagentSpawnFields_def spawn_ok_def chk_eq_Inr boundedArray_eq_Inr dest: field_goods)

lemma parse_text_fields_ok:
  "parse_text_fields event path = Inr (content, parent) \<Longrightarrow> event_text_ok content \<and> pred_option tool_id_ok parent"
  by (auto simp: parse_text_fields_def field_parsers chk_eq_Inr dest!: field_goods)

lemma parse_user_message_ok: "parse_user_message event path = Inr e \<Longrightarrow> wire_event_ok e"
  by (auto simp: parse_user_message_def field_parsers chk_eq_Inr dest!: field_goods)

lemma parse_tool_call_ok: "parse_tool_call event path = Inr e \<Longrightarrow> wire_event_ok e"
  by (auto simp: parse_tool_call_def field_parsers chk_eq_Inr dest!: field_goods)

lemma parse_tool_result_ok: "parse_tool_result event path = Inr e \<Longrightarrow> wire_event_ok e"
  by (auto simp: parse_tool_result_def field_parsers chk_eq_Inr dest!: field_goods)

lemma parse_background_task_ok: "parse_background_task event path = Inr e \<Longrightarrow> wire_event_ok e"
  by (auto simp: parse_background_task_def field_parsers chk_eq_Inr dest!: field_goods)

lemma parseSubagentEvent_ok: "parseSubagentEvent event path = Inr e \<Longrightarrow> wire_event_ok e"
  by (auto simp: parseSubagentEvent_def field_parsers chk_eq_Inr dest!: field_goods)

lemma parse_subagent_activity_ok: "parse_subagent_activity event path = Inr e \<Longrightarrow> wire_event_ok e"
  by (auto simp: parse_subagent_activity_def field_parsers chk_eq_Inr dest!: field_goods)

lemma parse_subagent_usage_ok: "parse_subagent_usage event path = Inr e \<Longrightarrow> wire_event_ok e"
  by (auto simp: parse_subagent_usage_def field_parsers chk_eq_Inr dest!: field_goods
      split: option.splits)

lemma parse_subagent_spawn_ok: "parse_subagent_spawn event path = Inr e \<Longrightarrow> wire_event_ok e"
  by (auto simp: parse_subagent_spawn_def field_parsers chk_eq_Inr dest: parsed_spawn_ok
      split: sum.splits)

lemma parse_subagent_turn_done_ok: "parse_subagent_turn_done event path = Inr e \<Longrightarrow> wire_event_ok e"
  by (auto simp: parse_subagent_turn_done_def field_parsers chk_eq_Inr dest!: field_goods)

lemma parse_queued_ok: "parse_queued event path = Inr e \<Longrightarrow> wire_event_ok e"
  by (auto simp: parse_queued_def field_parsers chk_eq_Inr dest!: field_goods)

lemma parse_result_ok: "parse_result event path = Inr e \<Longrightarrow> wire_event_ok e"
  by (auto simp: parse_result_def field_parsers chk_eq_Inr dest!: field_goods)

lemma parse_context_usage_ok: "parse_context_usage event path = Inr e \<Longrightarrow> wire_event_ok e"
  by (auto simp: parse_context_usage_def field_parsers chk_eq_Inr dest!: field_goods)

lemma parse_compaction_status_ok: "parse_compaction_status event path = Inr e \<Longrightarrow> wire_event_ok e"
  by (auto simp: parse_compaction_status_def field_parsers chk_eq_Inr dest!: field_goods)

lemma parse_compaction_ok: "parse_compaction event path = Inr e \<Longrightarrow> wire_event_ok e"
  by (auto simp: parse_compaction_def field_parsers chk_eq_Inr dest!: field_goods)

lemma parse_error_ok: "parse_error event path = Inr e \<Longrightarrow> wire_event_ok e"
  by (auto simp: parse_error_def field_parsers chk_eq_Inr dest!: field_goods)

lemma parse_unknown_line_ok: "parse_unknown_line event path = Inr e \<Longrightarrow> wire_event_ok e"
  by (auto simp: parse_unknown_line_def field_parsers chk_eq_Inr dest!: field_goods)

lemmas parsed_kinds_ok =
  parse_user_message_ok parse_tool_call_ok parse_tool_result_ok parse_background_task_ok parseSubagentEvent_ok parse_subagent_activity_ok parse_subagent_usage_ok parse_subagent_spawn_ok parse_subagent_turn_done_ok parse_queued_ok parse_result_ok parse_context_usage_ok parse_compaction_status_ok parse_compaction_ok parse_error_ok parse_unknown_line_ok

lemma parsed_plain_ok: "plain_parser k event path = Inr e \<Longrightarrow> wire_event_ok e"
  by (cases k) (auto simp: chk_eq_Inr dest: parsed_kinds_ok dest!: parse_text_fields_ok)

lemma parsed_event_ok: "parseTurnEvent item path = Inr e \<Longrightarrow> wire_event_ok e"
proof (induction item path arbitrary: e rule: parseTurnEvent.induct)
  case (1 item path)
  from "1.prems" obtain event kind where event: "record_at item path = Inr event"
    and kind: "turnEventKind (js_get event (js ''kind'')) (path @ ''.kind'') = Inr kind"
    by (subst (asm) parseTurnEvent.simps) (auto simp: chk_eq_Inr simp del: js_simps)
  show ?case
  proof (cases "kind = KSubagentEvent")
    case True
    with "1.prems" event kind show ?thesis
      by (subst (asm) (1) parseTurnEvent.simps)
        (auto simp: chk_eq_Inr tool_id_def str.parse_good simp del: js_simps
          intro: "1.IH" [OF event kind True])
  next
    case False
    with "1.prems" event kind have "plain_parser kind event path = Inr e"
      by (subst (asm) parseTurnEvent.simps) (cases kind; simp)
    then show ?thesis by (rule parsed_plain_ok)
  qed
qed

lemma stored_event_idem [simp]: "stored_event (stored_event e) = stored_event e"
  by (cases e) simp_all

interpretation event: saver serializeTurnEvent parseTurnEvent wire_event_ok stored_event
  by unfold_locales (simp_all add: event_saved parsed_event_ok)

end
