(* ===== verification/ExternalSession.thy ===== *)
theory ExternalSession
  imports WireFieldLaws ThreadData
begin

text \<open>
  Sessions of an agent that were started outside of the editor, \<open>src/domain/externalAgentSession.ts\<close>:
  the strict parsers of a listing, of a preview and of the history an imported thread keeps, and
  the test that a session belongs to a repository. A parser that throws is \<open>Inl\<close> with the path
  its error names; attachments of an exchange are parsed leniently, a bad one is dropped.
\<close>

section \<open>Limits and data\<close>

definition MAX_EXTERNAL_SESSION_ENTRIES :: nat where "MAX_EXTERNAL_SESSION_ENTRIES = 200"
definition MAX_PREVIEW_EXCHANGES :: nat where "MAX_PREVIEW_EXCHANGES = 40"
definition PREVIEW_TOTAL_BYTES :: nat where "PREVIEW_TOTAL_BYTES = 64 * 1024"
definition MAX_HISTORY_EXCHANGES :: nat where "MAX_HISTORY_EXCHANGES = 256"
definition HISTORY_TOTAL_BYTES :: nat where "HISTORY_TOTAL_BYTES = 128 * 1024"
definition MAX_EXTERNAL_SESSION_TITLE_BYTES :: nat where
  "MAX_EXTERNAL_SESSION_TITLE_BYTES = MAX_AGENT_THREAD_TITLE_BYTES"
definition MAX_EXTERNAL_SESSION_TEXT_BYTES :: nat where
  "MAX_EXTERNAL_SESSION_TEXT_BYTES = MAX_AGENT_EVENT_TEXT_BYTES"
definition MAX_EXTERNAL_SESSION_PATH_BYTES :: nat where
  "MAX_EXTERNAL_SESSION_PATH_BYTES = MAX_AGENT_TASK_PATH_BYTES"
definition MAX_EXTERNAL_SESSION_TURN_COUNT :: int where "MAX_EXTERNAL_SESSION_TURN_COUNT = 1000000"
definition MAX_EXTERNAL_SESSION_FILE_BYTES :: int where "MAX_EXTERNAL_SESSION_FILE_BYTES = max_safe_integer"
definition MAX_EXTERNAL_SESSION_EXCHANGE_ATTACHMENTS :: nat where
  "MAX_EXTERNAL_SESSION_EXCHANGE_ATTACHMENTS = MAX_AGENT_TURN_ATTACHMENTS"
definition MAX_EXTERNAL_SESSION_ATTACHMENT_NAME_BYTES :: nat where
  "MAX_EXTERNAL_SESSION_ATTACHMENT_NAME_BYTES = MAX_AGENT_ATTACHMENT_NAME_BYTES"
definition MAX_EXTERNAL_SESSION_ATTACHMENT_PATH_BYTES :: nat where
  "MAX_EXTERNAL_SESSION_ATTACHMENT_PATH_BYTES = MAX_AGENT_ATTACHMENT_PATH_BYTES"

record session_summary =
  sx_provider :: agent_cli_kind
  sx_sessionId :: js_string
  sx_cwd :: js_string
  sx_title :: js_string
  sx_firstPrompt :: js_string
  sx_startedAtEpochMs :: int
  sx_lastActivityEpochMs :: int
  sx_turnCount :: int
  sx_turnCountExact :: bool
  sx_fileBytes :: int

record session_list =
  sl_sessions :: "session_summary list"
  sl_skipped :: int
  sl_truncated :: bool

section \<open>Checked fields\<close>

text \<open>Five groups of hexadecimal digits, 8-4-4-4-12.\<close>

definition any_hex_unit :: "js_unit \<Rightarrow> bool" where
  "any_hex_unit u \<longleftrightarrow> hex_unit u \<or> (65 \<le> unat u \<and> unat u \<le> 70)"

definition external_session_id_pattern :: "js_string \<Rightarrow> bool" where
  "external_session_id_pattern s \<longleftrightarrow>
     length s = 36 \<and>
     (\<forall>i \<in> set [0..<36]. if i \<in> set [8, 13, 18, 23] then s ! i = 45 else any_hex_unit (s ! i))"

definition isExternalAgentSessionId :: "jsval \<Rightarrow> bool" where
  "isExternalAgentSessionId item \<longleftrightarrow>
     (case item of JString s \<Rightarrow> external_session_id_pattern s | _ \<Rightarrow> False)"

definition validateExternalSessionId :: "jsval \<Rightarrow> string \<Rightarrow> js_string checked" where
  "validateExternalSessionId item path =
     (case item of JString s \<Rightarrow> if isExternalAgentSessionId item then Inr s else Inl path | _ \<Rightarrow> Inl path)"

definition validateExternalSessionProvider :: "jsval \<Rightarrow> string \<Rightarrow> agent_cli_kind checked" where
  "validateExternalSessionProvider item path = member_at item cli_kind_literal [ClaudeCode, Codex] path"

definition session_text :: "jsval \<Rightarrow> string \<Rightarrow> nat \<Rightarrow> js_string checked" where
  "session_text item path limit =
     (case item of
        JString s \<Rightarrow> if (\<exists>u \<in> set s. control_unit u) \<or> utf8ByteLength s > limit then Inl path else Inr s
      | _ \<Rightarrow> Inl path)"

text \<open>Control characters other than a line feed and a tab.\<close>

definition boundedMultilineText :: "jsval \<Rightarrow> string \<Rightarrow> nat \<Rightarrow> js_string checked" where
  "boundedMultilineText item path limit =
     (case item of
        JString s \<Rightarrow>
          if (\<exists>u \<in> set s. control_unit u \<and> u \<noteq> 10 \<and> u \<noteq> 9) \<or> utf8ByteLength s > limit then Inl path else Inr s
      | _ \<Rightarrow> Inl path)"

definition boundedCount :: "jsval \<Rightarrow> string \<Rightarrow> int \<Rightarrow> int checked" where
  "boundedCount item path maximum = safe_integer_at item (\<lambda>n. \<not> (n < 0 \<or> n > maximum)) path"

definition validateExternalSessionRepositoryRoot :: "jsval \<Rightarrow> string \<Rightarrow> js_string checked" where
  "validateExternalSessionRepositoryRoot item path =
     chk (session_text item path MAX_EXTERNAL_SESSION_PATH_BYTES) (\<lambda>candidate.
     chk (reject (candidate = [] \<or> \<not> js_startsWith candidate (js ''/'')) path) (\<lambda>_. Inr candidate))"

section \<open>Repositories\<close>

definition isLexicallyCanonicalAbsolutePath :: "js_string \<Rightarrow> bool" where
  "isLexicallyCanonicalAbsolutePath p \<longleftrightarrow>
     (if \<not> js_startsWith p (js ''/'') then False
      else if p = js ''/'' then True
      else if (p \<noteq> [] \<and> last p = 47) \<or> js_includes p (js ''//'') then False
      else list_all (\<lambda>segment. segment \<noteq> js ''.'' \<and> segment \<noteq> js ''..'') (drop 1 (js_split 47 p)))"

definition isExternalSessionWithinRepository :: "js_string \<Rightarrow> js_string \<Rightarrow> bool" where
  "isExternalSessionWithinRepository sessionRoot scopeRoot \<longleftrightarrow>
     (if \<not> isLexicallyCanonicalAbsolutePath sessionRoot then False
      else if \<not> isLexicallyCanonicalAbsolutePath scopeRoot then False
      else if sessionRoot = scopeRoot then True
      else if scopeRoot = js ''/'' then js_startsWith sessionRoot (js ''/'')
      else js_startsWith sessionRoot (scopeRoot @ js ''/''))"

section \<open>Listings\<close>

definition parseExternalAgentSessionSummary :: "jsval \<Rightarrow> string \<Rightarrow> session_summary checked" where
  "parseExternalAgentSessionSummary item path =
     chk (record_at item path) (\<lambda>summary.
     chk (exactKeys summary [''provider'', ''sessionId'', ''cwd'', ''title'', ''firstPrompt'',
       ''startedAtEpochMs'', ''lastActivityEpochMs'', ''turnCount'', ''turnCountExact'', ''fileBytes''] path) (\<lambda>_.
     chk (validateExternalSessionProvider (js_get summary (js ''provider'')) (path @ ''.provider'')) (\<lambda>provider.
     chk (validateExternalSessionId (js_get summary (js ''sessionId'')) (path @ ''.sessionId'')) (\<lambda>sessionId.
     chk (validateExternalSessionRepositoryRoot (js_get summary (js ''cwd'')) (path @ ''.cwd'')) (\<lambda>cwd.
     chk (session_text (js_get summary (js ''title'')) (path @ ''.title'') MAX_EXTERNAL_SESSION_TITLE_BYTES) (\<lambda>title.
     chk (boundedMultilineText (js_get summary (js ''firstPrompt'')) (path @ ''.firstPrompt'')
       MAX_EXTERNAL_SESSION_TEXT_BYTES) (\<lambda>firstPrompt.
     chk (unsignedSafeInteger (js_get summary (js ''startedAtEpochMs'')) (path @ ''.startedAtEpochMs'')) (\<lambda>started.
     chk (unsignedSafeInteger (js_get summary (js ''lastActivityEpochMs'')) (path @ ''.lastActivityEpochMs'')) (\<lambda>active.
     chk (boundedCount (js_get summary (js ''turnCount'')) (path @ ''.turnCount'') MAX_EXTERNAL_SESSION_TURN_COUNT)
       (\<lambda>turnCount.
     chk (boolean_at (js_get summary (js ''turnCountExact'')) (path @ ''.turnCountExact'')) (\<lambda>exact.
     chk (boundedCount (js_get summary (js ''fileBytes'')) (path @ ''.fileBytes'') MAX_EXTERNAL_SESSION_FILE_BYTES)
       (\<lambda>fileBytes.
     Inr \<lparr>sx_provider = provider, sx_sessionId = sessionId, sx_cwd = cwd, sx_title = title,
       sx_firstPrompt = firstPrompt, sx_startedAtEpochMs = started, sx_lastActivityEpochMs = active,
       sx_turnCount = turnCount, sx_turnCountExact = exact, sx_fileBytes = fileBytes\<rparr>))))))))))))"

definition session_identity :: "session_summary \<Rightarrow> js_string" where
  "session_identity summary = js (cli_kind_literal (sx_provider summary)) @ js '':'' @ sx_sessionId summary"

fun summaries_from :: "nat \<Rightarrow> js_string list \<Rightarrow> jsval list \<Rightarrow> string \<Rightarrow> session_summary list checked" where
  "summaries_from i seen [] path = Inr []"
| "summaries_from i seen (candidate # candidates) path =
     chk (parseExternalAgentSessionSummary candidate (path @ ''['' @ decimal i @ '']'')) (\<lambda>summary.
     chk (reject (session_identity summary \<in> set seen) (path @ ''['' @ decimal i @ '']'')) (\<lambda>_.
     chk (summaries_from (Suc i) (seen @ [session_identity summary]) candidates path) (\<lambda>rest.
     Inr (summary # rest))))"

definition parseSummaries :: "jsval \<Rightarrow> string \<Rightarrow> session_summary list checked" where
  "parseSummaries item path =
     chk (boundedArray item path MAX_EXTERNAL_SESSION_ENTRIES) (\<lambda>items. summaries_from 0 [] items path)"

definition parseExternalSessionListSnapshot :: "jsval \<Rightarrow> string \<Rightarrow> session_list checked" where
  "parseExternalSessionListSnapshot item path =
     chk (record_at item path) (\<lambda>snapshot.
     chk (exactKeys snapshot [''sessions'', ''skipped'', ''truncated''] path) (\<lambda>_.
     chk (parseSummaries (js_get snapshot (js ''sessions'')) (path @ ''.sessions'')) (\<lambda>sessions.
     chk (boundedCount (js_get snapshot (js ''skipped'')) (path @ ''.skipped'') MAX_EXTERNAL_SESSION_TURN_COUNT)
       (\<lambda>skipped.
     chk (boolean_at (js_get snapshot (js ''truncated'')) (path @ ''.truncated'')) (\<lambda>trunc.
     Inr \<lparr>sl_sessions = sessions, sl_skipped = skipped, sl_truncated = trunc\<rparr>)))))"

section \<open>Exchanges\<close>

fun exchange_role_literal :: "exchange_role \<Rightarrow> string" where
  "exchange_role_literal RoleUser = ''user''"
| "exchange_role_literal RoleAssistant = ''assistant''"

definition exchangeRole :: "jsval \<Rightarrow> string \<Rightarrow> exchange_role checked" where
  "exchangeRole item path = member_at item exchange_role_literal [RoleUser, RoleAssistant] path"

definition hasBoundedKeys :: "(js_string \<times> jsval) list \<Rightarrow> string list \<Rightarrow> string list \<Rightarrow> bool" where
  "hasBoundedKeys obj required optional \<longleftrightarrow>
     (\<forall>key \<in> set required. js key \<in> fst ` set obj) \<and>
     (\<forall>key \<in> fst ` set obj. key \<in> js ` set required \<or> key \<in> js ` set optional)"

text \<open>A name that is a string and safe; \<open>None\<close> otherwise.\<close>

definition attachment_name_of :: "jsval \<Rightarrow> js_string option" where
  "attachment_name_of item =
     (case item of
        JString s \<Rightarrow>
          if s \<noteq> [] \<and> \<not> (\<exists>u \<in> set s. control_unit u) \<and> isAgentAttachmentName s \<and>
             utf8ByteLength s \<le> MAX_EXTERNAL_SESSION_ATTACHMENT_NAME_BYTES
          then Some s else None
      | _ \<Rightarrow> None)"

text \<open>\<open>None\<close> is the source's \<open>null\<close>, a bad path; \<open>Some None\<close> an absent one.\<close>

definition attachment_path_of :: "jsval \<Rightarrow> js_string option option" where
  "attachment_path_of item =
     (case item of
        JUndefined \<Rightarrow> Some None
      | JString s \<Rightarrow>
          if (\<exists>u \<in> set s. control_unit u) \<or> \<not> isAgentAttachmentPath s \<or>
             utf8ByteLength s > MAX_EXTERNAL_SESSION_ATTACHMENT_PATH_BYTES
          then None else Some (Some s)
      | _ \<Rightarrow> None)"

definition image_mime_of :: "jsval \<Rightarrow> image_mime option" where
  "image_mime_of item = find (\<lambda>mime. item = JString (js (image_mime_literal mime))) AGENT_IMAGE_MIMES"

definition imageAttachment :: "(js_string \<times> jsval) list \<Rightarrow> exchange_attachment option" where
  "imageAttachment obj =
     (if \<not> hasBoundedKeys obj [''kind'', ''mime''] [''name'', ''path''] then None
      else case image_mime_of (js_get obj (js ''mime'')) of
        None \<Rightarrow> None
      | Some mime \<Rightarrow>
          if js_get obj (js ''name'') \<noteq> JUndefined \<and> attachment_name_of (js_get obj (js ''name'')) = None then None
          else case attachment_path_of (js_get obj (js ''path'')) of
            None \<Rightarrow> None
          | Some path \<Rightarrow> Some (ExchangeImage mime (attachment_name_of (js_get obj (js ''name''))) path))"

definition fileAttachment :: "(js_string \<times> jsval) list \<Rightarrow> exchange_attachment option" where
  "fileAttachment obj =
     (if \<not> hasBoundedKeys obj [''kind'', ''name''] [''path''] then None
      else case attachment_name_of (js_get obj (js ''name'')) of
        None \<Rightarrow> None
      | Some name \<Rightarrow>
          (case attachment_path_of (js_get obj (js ''path'')) of
             None \<Rightarrow> None
           | Some path \<Rightarrow> Some (ExchangeFile name path)))"

definition parseExchangeAttachment :: "jsval \<Rightarrow> exchange_attachment option" where
  "parseExchangeAttachment item =
     (case item of
        JObject obj \<Rightarrow>
          if js_get obj (js ''kind'') = JString (js ''image'') then imageAttachment obj
          else if js_get obj (js ''kind'') = JString (js ''file'') then fileAttachment obj
          else None
      | _ \<Rightarrow> None)"

definition parseExchangeAttachments :: "jsval \<Rightarrow> exchange_attachment list option" where
  "parseExchangeAttachments item =
     (case item of
        JArray candidates \<Rightarrow>
          (let attachments = take MAX_EXTERNAL_SESSION_EXCHANGE_ATTACHMENTS
                 (List.map_filter parseExchangeAttachment candidates)
           in if length attachments = 0 then None else Some attachments)
      | _ \<Rightarrow> None)"

definition parseExternalSessionExchange :: "jsval \<Rightarrow> string \<Rightarrow> session_exchange checked" where
  "parseExternalSessionExchange item path =
     chk (record_at item path) (\<lambda>exchange.
     chk (boundedKeys exchange [''role'', ''text''] [''attachments''] path) (\<lambda>_.
     chk (exchangeRole (js_get exchange (js ''role'')) (path @ ''.role'')) (\<lambda>role.
     chk (boundedMultilineText (js_get exchange (js ''text'')) (path @ ''.text'') MAX_EXTERNAL_SESSION_TEXT_BYTES)
       (\<lambda>content.
     Inr \<lparr>ex_role = role, ex_text = content,
       ex_attachments = parseExchangeAttachments (js_get exchange (js ''attachments''))\<rparr>))))"

definition parseExchanges :: "jsval \<Rightarrow> string \<Rightarrow> nat \<Rightarrow> session_exchange list checked" where
  "parseExchanges item path maximum =
     chk (boundedArray item path maximum) (\<lambda>items. array_from 0 parseExternalSessionExchange items path)"

fun exchange_attachment_bytes :: "exchange_attachment \<Rightarrow> nat" where
  "exchange_attachment_bytes (ExchangeImage _ name path) =
     utf8ByteLength (or_default name []) + utf8ByteLength (or_default path [])"
| "exchange_attachment_bytes (ExchangeFile name path) =
     utf8ByteLength name + utf8ByteLength (or_default path [])"

definition exchangeBytes :: "session_exchange \<Rightarrow> nat" where
  "exchangeBytes exchange =
     utf8ByteLength (ex_text exchange) +
     foldl (\<lambda>total attachment. total + exchange_attachment_bytes attachment) 0
       (or_default (ex_attachments exchange) [])"

definition parseSessionTranscript :: "jsval \<Rightarrow> string \<Rightarrow> nat \<Rightarrow> nat \<Rightarrow> external_history checked" where
  "parseSessionTranscript item path maximumExchanges maximumBytes =
     chk (record_at item path) (\<lambda>preview.
     chk (exactKeys preview [''provider'', ''sessionId'', ''exchanges'', ''exchangesTruncated'',
       ''totalPreviewBytes''] path) (\<lambda>_.
     chk (parseExchanges (js_get preview (js ''exchanges'')) (path @ ''.exchanges'') maximumExchanges) (\<lambda>exchanges.
     let actualBytes = foldl (\<lambda>total exchange. total + exchangeBytes exchange) 0 exchanges in
     chk (reject (actualBytes > maximumBytes) (path @ ''.exchanges'')) (\<lambda>_.
     chk (boundedCount (js_get preview (js ''totalPreviewBytes'')) (path @ ''.totalPreviewBytes'')
       (int maximumBytes)) (\<lambda>totalPreviewBytes.
     chk (reject (maximumExchanges = MAX_HISTORY_EXCHANGES \<and> totalPreviewBytes \<noteq> int actualBytes)
       (path @ ''.totalPreviewBytes'')) (\<lambda>_.
     chk (validateExternalSessionProvider (js_get preview (js ''provider'')) (path @ ''.provider'')) (\<lambda>provider.
     chk (validateExternalSessionId (js_get preview (js ''sessionId'')) (path @ ''.sessionId'')) (\<lambda>sessionId.
     chk (boolean_at (js_get preview (js ''exchangesTruncated'')) (path @ ''.exchangesTruncated'')) (\<lambda>trunc.
     Inr \<lparr>eh_provider = provider, eh_sessionId = sessionId, eh_exchanges = exchanges,
       eh_exchangesTruncated = trunc, eh_totalPreviewBytes = totalPreviewBytes\<rparr>)))))))))"

definition parseExternalAgentSessionPreview :: "jsval \<Rightarrow> string \<Rightarrow> external_history checked" where
  "parseExternalAgentSessionPreview item path =
     parseSessionTranscript item path MAX_PREVIEW_EXCHANGES PREVIEW_TOTAL_BYTES"

definition parseExternalAgentSessionHistory :: "jsval \<Rightarrow> string \<Rightarrow> external_history checked" where
  "parseExternalAgentSessionHistory item path =
     parseSessionTranscript item path MAX_HISTORY_EXCHANGES HISTORY_TOTAL_BYTES"

section \<open>The objects these values are\<close>

text \<open>A history is kept as the object the parser returned; these are its properties.\<close>

fun exchange_attachment_value :: "exchange_attachment \<Rightarrow> jsval" where
  "exchange_attachment_value (ExchangeImage mime name path) = JObject
     (js_field ''kind'' (Some (JString (js ''image''))) @
      js_field ''mime'' (Some (JString (js (image_mime_literal mime)))) @
      js_field ''name'' (map_option JString name) @
      js_field ''path'' (map_option JString path))"
| "exchange_attachment_value (ExchangeFile name path) = JObject
     (js_field ''kind'' (Some (JString (js ''file''))) @
      js_field ''name'' (Some (JString name)) @
      js_field ''path'' (map_option JString path))"

definition exchange_value :: "session_exchange \<Rightarrow> jsval" where
  "exchange_value exchange = JObject
     (js_field ''role'' (Some (JString (js (exchange_role_literal (ex_role exchange))))) @
      js_field ''text'' (Some (JString (ex_text exchange))) @
      js_field ''attachments'' (map_option (\<lambda>xs. JArray (map exchange_attachment_value xs)) (ex_attachments exchange)))"

definition history_value :: "external_history \<Rightarrow> jsval" where
  "history_value history = JObject
     (js_field ''provider'' (Some (JString (js (cli_kind_literal (eh_provider history))))) @
      js_field ''sessionId'' (Some (JString (eh_sessionId history))) @
      js_field ''exchanges'' (Some (JArray (map exchange_value (eh_exchanges history)))) @
      js_field ''exchangesTruncated'' (Some (JBool (eh_exchangesTruncated history))) @
      js_field ''totalPreviewBytes'' (Some (js_int (eh_totalPreviewBytes history))))"

end
