(* ===== verification/ExternalSessionLaws.thy ===== *)
theory ExternalSessionLaws
  imports ExternalSession "HOL-Library.Sublist"
begin

text \<open>
  The history of an imported session is read back as it was written, a listing has no session
  twice, and the test that a session belongs to a repository is the prefix order on the segments
  of the two paths.
\<close>

section \<open>Histories\<close>

definition exchange_text_ok :: "js_string \<Rightarrow> bool" where
  "exchange_text_ok s \<longleftrightarrow>
     (\<forall>u \<in> set s. control_unit u \<longrightarrow> u = 10 \<or> u = 9) \<and> utf8ByteLength s \<le> MAX_EXTERNAL_SESSION_TEXT_BYTES"

definition exchange_name_ok :: "js_string \<Rightarrow> bool" where
  "exchange_name_ok s \<longleftrightarrow> attachment_name_of (JString s) = Some s"

definition exchange_path_ok :: "js_string \<Rightarrow> bool" where
  "exchange_path_ok s \<longleftrightarrow> attachment_path_of (JString s) = Some (Some s)"

fun exchange_attachment_ok :: "exchange_attachment \<Rightarrow> bool" where
  "exchange_attachment_ok (ExchangeImage _ name path) = (pred_option exchange_name_ok name \<and> pred_option exchange_path_ok path)"
| "exchange_attachment_ok (ExchangeFile name path) = (exchange_name_ok name \<and> pred_option exchange_path_ok path)"

definition exchange_ok :: "session_exchange \<Rightarrow> bool" where
  "exchange_ok exchange \<longleftrightarrow> exchange_text_ok (ex_text exchange) \<and>
     pred_option (\<lambda>xs. xs \<noteq> [] \<and> length xs \<le> MAX_EXTERNAL_SESSION_EXCHANGE_ATTACHMENTS \<and> list_all exchange_attachment_ok xs)
       (ex_attachments exchange)"

definition history_ok :: "external_history \<Rightarrow> bool" where
  "history_ok history \<longleftrightarrow>
     external_session_id_pattern (eh_sessionId history) \<and> length (eh_exchanges history) \<le> MAX_HISTORY_EXCHANGES \<and>
     list_all exchange_ok (eh_exchanges history) \<and>
     eh_totalPreviewBytes history = int (foldl (\<lambda>total exchange. total + exchangeBytes exchange) 0 (eh_exchanges history)) \<and>
     eh_totalPreviewBytes history \<le> int HISTORY_TOTAL_BYTES"

lemma attachment_name_of_Some: "attachment_name_of item = Some s \<Longrightarrow> item = JString s \<and> exchange_name_ok s"
  by (auto simp: attachment_name_of_def exchange_name_ok_def split: jsval.splits if_splits)

lemma attachment_path_of_Some: "attachment_path_of item = Some path \<Longrightarrow>
    item = js_opt JString path \<and> pred_option exchange_path_ok path"
  by (auto simp: attachment_path_of_def exchange_path_ok_def js_opt_def split: jsval.splits if_splits)

lemma attachment_name_of_opt:
  "pred_option exchange_name_ok name \<Longrightarrow> attachment_name_of (js_opt JString name) = name"
  by (cases name) (simp_all add: exchange_name_ok_def js_opt_def attachment_name_of_def)

lemma attachment_path_of_opt:
  "pred_option exchange_path_ok path \<Longrightarrow> attachment_path_of (js_opt JString path) = Some path"
  by (cases path) (simp_all add: exchange_path_ok_def js_opt_def attachment_path_of_def)

lemma image_mime_of_literal [simp]: "image_mime_of (JString (js (image_mime_literal m))) = Some m"
  by (cases m) (simp_all add: image_mime_of_def AGENT_IMAGE_MIMES_def js_inject del: js_simps)

lemma hasBoundedKeys_ok:
  "js ` set required \<subseteq> fst ` set obj \<Longrightarrow> fst ` set obj \<subseteq> js ` set required \<union> js ` set optional \<Longrightarrow>
    hasBoundedKeys obj required optional"
  by (auto simp: hasBoundedKeys_def)

lemma exchange_attachment_back:
  assumes "exchange_attachment_ok x"
  shows "parseExchangeAttachment (exchange_attachment_value x) = Some x"
proof (cases x)
  case (ExchangeImage mime name path)
  have "js_opt JString name = JUndefined \<longleftrightarrow> name = None" by (rule js_opt_eq_undefined) simp
  with assms ExchangeImage show ?thesis
    by (auto simp: parseExchangeAttachment_def imageAttachment_def hasBoundedKeys_ok written_keys read_back
        attachment_name_of_opt attachment_path_of_opt simp del: js_simps)
next
  case (ExchangeFile name path)
  with assms show ?thesis
    by (simp add: parseExchangeAttachment_def fileAttachment_def hasBoundedKeys_ok written_keys read_back
        exchange_name_ok_def attachment_path_of_opt del: js_simps)
qed

lemma parsed_exchange_attachment: "parseExchangeAttachment item = Some x \<Longrightarrow> exchange_attachment_ok x"
  by (auto simp: parseExchangeAttachment_def imageAttachment_def fileAttachment_def
      dest!: attachment_name_of_Some attachment_path_of_Some split: jsval.splits option.splits if_splits)
    (auto simp: pred_option_def dest: attachment_name_of_Some)

lemma map_filter_values:
  "list_all exchange_attachment_ok xs \<Longrightarrow>
    List.map_filter parseExchangeAttachment (map exchange_attachment_value xs) = xs"
  by (induction xs) (simp_all add: List.map_filter_def exchange_attachment_back)

lemma exchange_role_literal_at [simp]: "exchangeRole (JString (js (exchange_role_literal r))) path = Inr r"
  by (cases r) (simp_all add: exchangeRole_def member_at_def js_inject del: js_simps)

lemma cli_kind_at [simp]:
  "validateExternalSessionProvider (JString (js (cli_kind_literal k))) path = Inr k"
  by (cases k) (simp_all add: validateExternalSessionProvider_def member_at_def js_inject del: js_simps)

lemma multiline_eq_Inr:
  "boundedMultilineText item path MAX_EXTERNAL_SESSION_TEXT_BYTES = Inr s \<longleftrightarrow> item = JString s \<and> exchange_text_ok s"
  by (auto simp: boundedMultilineText_def exchange_text_ok_def split: jsval.splits if_splits)

lemma session_id_eq_Inr:
  "validateExternalSessionId item path = Inr s \<longleftrightarrow> item = JString s \<and> external_session_id_pattern s"
  by (auto simp: validateExternalSessionId_def isExternalAgentSessionId_def split: jsval.splits if_splits)

lemma boundedCount_eq_Inr:
  "boundedCount item path maximum = Inr n \<longleftrightarrow> item = js_int n \<and> isSafeInteger n \<and> 0 \<le> n \<and> n \<le> maximum"
  by (auto simp: boundedCount_def safe_integer_at_eq_Inr)

lemma session_reads:
  "exchange_text_ok s \<Longrightarrow> boundedMultilineText (JString s) path MAX_EXTERNAL_SESSION_TEXT_BYTES = Inr s"
  "external_session_id_pattern s \<Longrightarrow> validateExternalSessionId (JString s) path = Inr s"
  "isSafeInteger n \<Longrightarrow> 0 \<le> n \<Longrightarrow> n \<le> maximum \<Longrightarrow> boundedCount (js_int n) path maximum = Inr n"
  by (simp_all add: multiline_eq_Inr session_id_eq_Inr boundedCount_eq_Inr)

lemma attachments_back:
  "pred_option (\<lambda>xs. xs \<noteq> [] \<and> length xs \<le> MAX_EXTERNAL_SESSION_EXCHANGE_ATTACHMENTS \<and>
      list_all exchange_attachment_ok xs) attachments \<Longrightarrow>
    parseExchangeAttachments (js_opt (\<lambda>xs. JArray (map exchange_attachment_value xs)) attachments) = attachments"
  by (cases attachments) (simp_all add: parseExchangeAttachments_def js_opt_def map_filter_values)

lemma parsed_exchange_attachments:
  assumes "parseExchangeAttachments item = Some xs"
  shows "xs \<noteq> [] \<and> length xs \<le> MAX_EXTERNAL_SESSION_EXCHANGE_ATTACHMENTS \<and> list_all exchange_attachment_ok xs"
proof -
  obtain candidates where xs: "xs = take MAX_EXTERNAL_SESSION_EXCHANGE_ATTACHMENTS
      (List.map_filter parseExchangeAttachment candidates)" "xs \<noteq> []"
    using assms by (auto simp: parseExchangeAttachments_def Let_def split: jsval.splits if_splits)
  have "x \<in> set (List.map_filter parseExchangeAttachment candidates) \<Longrightarrow> exchange_attachment_ok x" for x
    by (auto simp: List.map_filter_def dest: parsed_exchange_attachment)
  then have "list_all exchange_attachment_ok xs"
    unfolding xs(1) by (auto simp: list_all_iff dest: in_set_takeD)
  with xs show ?thesis by simp
qed

interpretation exchange: value_codec exchange_value parseExternalSessionExchange exchange_ok
proof unfold_locales
  fix x path
  assume "exchange_ok x"
  then show "parseExternalSessionExchange (exchange_value x) path = Inr x"
    by (simp add: exchange_value_def parseExternalSessionExchange_def exchange_ok_def written_keys read_back
        session_reads attachments_back del: js_simps)
next
  show "parseExternalSessionExchange item path = Inr x \<Longrightarrow> exchange_ok x" for item path x
    by (auto simp: parseExternalSessionExchange_def exchange_ok_def chk_eq_Inr multiline_eq_Inr pred_option_def
        dest!: parsed_exchange_attachments)
qed (simp_all add: exchange_value_def)

lemma history_back:
  assumes "history_ok history"
  shows "parseExternalAgentSessionHistory (history_value history) path = Inr history"
proof -
  have total: "0 \<le> eh_totalPreviewBytes history" "isSafeInteger (eh_totalPreviewBytes history)"
    using assms by (auto simp: history_ok_def isSafeInteger_def max_safe_integer_def HISTORY_TOTAL_BYTES_def)
  have "array_from 0 parseExternalSessionExchange (map exchange_value (eh_exchanges history)) p = Inr (eh_exchanges history)" for p
    using assms by (intro exchange.array_emit) (simp add: history_ok_def list_all_iff)
  then show ?thesis
    using assms total
    by (simp add: history_value_def parseExternalAgentSessionHistory_def parseSessionTranscript_def parseExchanges_def
        history_ok_def written_keys read_back session_reads
        flag.parse_emit Let_def del: js_simps)
qed

interpretation history: value_codec history_value parseExternalAgentSessionHistory history_ok
proof unfold_locales
  show "history_ok x \<Longrightarrow> parseExternalAgentSessionHistory (history_value x) path = Inr x" for x path
    by (rule history_back)
  show "parseExternalAgentSessionHistory item path = Inr x \<Longrightarrow> history_ok x" for item path x
    using exchange.array_good array_from_length
    by (fastforce simp: parseExternalAgentSessionHistory_def parseSessionTranscript_def parseExchanges_def
        history_ok_def chk_eq_Inr boundedCount_eq_Inr session_id_eq_Inr boundedArray_eq_Inr Let_def)
qed (simp_all add: history_value_def)

section \<open>Listings\<close>

lemma summaries_distinct:
  "summaries_from i seen items path = Inr xs \<Longrightarrow> distinct seen \<Longrightarrow> distinct (seen @ map session_identity xs)"
  by (induction items arbitrary: i seen xs) (fastforce simp: chk_eq_Inr)+

lemma session_identity_inject:
  assumes "session_identity a = session_identity b"
  shows "sx_provider a = sx_provider b \<and> sx_sessionId a = sx_sessionId b"
  using assms by (cases "sx_provider a"; cases "sx_provider b") (simp_all add: session_identity_def)

section \<open>Repositories\<close>

text \<open>The segments of a canonical path; the root has none.\<close>

definition path_segments :: "js_string \<Rightarrow> js_string list" where
  "path_segments p = (if p = js ''/'' then [] else drop 1 (js_split 47 p))"

lemma js_split_nonempty [simp]: "js_split sep u \<noteq> []"
  by (cases u) (auto split: list.splits)

lemma js_split_append: "js_split sep (u @ sep # v) = js_split sep u @ js_split sep v"
proof (induction u)
  case (Cons c u)
  obtain y ys where "js_split sep u = y # ys" by (cases "js_split sep u") simp_all
  with Cons show ?case by simp
qed simp

lemma js_split_join: "js_split sep u = x # xs \<Longrightarrow> u = x @ concat (map ((#) sep) xs)"
proof (induction u arbitrary: x xs)
  case (Cons c u)
  obtain y ys where split: "js_split sep u = y # ys" by (cases "js_split sep u") simp_all
  have "x # xs = (if c = sep then [] # y # ys else (c # y) # ys)"
    using Cons.prems split by (simp split: if_splits)
  moreover have "c # u = c # y @ concat (map ((#) sep) ys)" using Cons.IH [OF split] by simp
  ultimately show ?case by (simp split: if_splits)
qed simp

lemma canonical_segments:
  assumes "isLexicallyCanonicalAbsolutePath p" and "p \<noteq> js ''/''"
  shows "js_split 47 p = [] # path_segments p" and "path_segments p \<noteq> []" and "p = concat (map ((#) 47) (path_segments p))"
proof -
  obtain q where p: "p = 47 # q"
    using assms by (cases p) (auto simp: isLexicallyCanonicalAbsolutePath_def js_startsWith_def split: if_splits)
  then show split: "js_split 47 p = [] # path_segments p" and "path_segments p \<noteq> []"
    using assms(2) by (simp_all add: path_segments_def)
  show "p = concat (map ((#) 47) (path_segments p))" using js_split_join [OF split] by simp
qed

lemma canonical_root: "isLexicallyCanonicalAbsolutePath p \<Longrightarrow> js_startsWith p (js ''/'')"
  by (simp add: isLexicallyCanonicalAbsolutePath_def split: if_splits)

lemma inside_iff_prefix:
  assumes s: "isLexicallyCanonicalAbsolutePath s" "s \<noteq> js ''/''"
    and r: "isLexicallyCanonicalAbsolutePath r" "r \<noteq> js ''/''"
  shows "s = r \<or> js_startsWith s (r @ js ''/'') \<longleftrightarrow> prefix (path_segments r) (path_segments s)"
proof
  assume "s = r \<or> js_startsWith s (r @ js ''/'')"
  then consider "s = r" | v where "s = r @ 47 # v"
    by (auto simp: js_startsWith_def) (metis append_Cons append_take_drop_id append.assoc append_Nil)
  then show "prefix (path_segments r) (path_segments s)"
  proof cases
    case 2
    then have "js_split 47 s = js_split 47 r @ js_split 47 v" by (simp add: js_split_append)
    then show ?thesis using canonical_segments(1) [OF s] canonical_segments(1) [OF r] by simp
  qed simp
next
  assume "prefix (path_segments r) (path_segments s)"
  then obtain more where more: "path_segments s = path_segments r @ more" by (auto elim: prefixE)
  have s': "s = r @ concat (map ((#) 47) more)"
    using canonical_segments(3) [OF s] canonical_segments(3) [OF r] more by simp
  show "s = r \<or> js_startsWith s (r @ js ''/'')"
    by (cases more) (simp_all add: s' js_startsWith_def)
qed

text \<open>
  C32: A session is within a repository exactly when both roots are canonical absolute paths and the
  segments of the repository's are the first segments of the session's: a sibling whose name only
  starts with the repository's name is never taken for a part of it.
\<close>

theorem within_repository_iff_prefix:
  "isExternalSessionWithinRepository sessionRoot scopeRoot \<longleftrightarrow>
    isLexicallyCanonicalAbsolutePath sessionRoot \<and> isLexicallyCanonicalAbsolutePath scopeRoot \<and>
    prefix (path_segments scopeRoot) (path_segments sessionRoot)"
proof (cases "isLexicallyCanonicalAbsolutePath sessionRoot \<and> isLexicallyCanonicalAbsolutePath scopeRoot")
  case True
  then have canonical: "isLexicallyCanonicalAbsolutePath sessionRoot" "isLexicallyCanonicalAbsolutePath scopeRoot"
    by simp_all
  consider "scopeRoot = js ''/''" | "scopeRoot \<noteq> js ''/''" "sessionRoot = js ''/''"
    | "scopeRoot \<noteq> js ''/''" "sessionRoot \<noteq> js ''/''" by blast
  then show ?thesis
  proof cases
    case 1
    then show ?thesis using canonical canonical_root
      by (simp add: isExternalSessionWithinRepository_def path_segments_def)
  next
    case 2
    have "length (take (length (scopeRoot @ js ''/'')) (js ''/'')) < length (scopeRoot @ js ''/'')"
      using canonical_root [OF canonical(2)] by (cases scopeRoot) (simp_all add: js_startsWith_def)
    then have "\<not> js_startsWith (js ''/'') (scopeRoot @ js ''/'')"
      unfolding js_startsWith_def by (metis less_irrefl)
    then show ?thesis using 2 canonical canonical_segments(2) [OF canonical(2) 2(1)]
      by (simp add: isExternalSessionWithinRepository_def path_segments_def del: js_simps)
  next
    case 3
    then show ?thesis
      using canonical inside_iff_prefix [OF canonical(1) 3(2) canonical(2) 3(1)]
      by (cases "sessionRoot = scopeRoot") (simp_all add: isExternalSessionWithinRepository_def del: js_simps)
  qed
qed (auto simp: isExternalSessionWithinRepository_def)

end
