(* ===== verification/CliVersion.thy ===== *)
theory CliVersion
  imports ThreadData "HOL-Library.List_Lexorder" "HOL-Library.Product_Lexorder"
begin

text \<open>
  The version an agent's command line reports, \<open>src/domain/agentCliVersion.ts\<close>: its parser and the
  comparison of two versions, which is shown to be the lexicographic order of the four numbers and
  of the identifiers of the prerelease.
\<close>

section \<open>Parsing\<close>

definition MAX_AGENT_CLI_VERSION_BYTES :: nat where "MAX_AGENT_CLI_VERSION_BYTES = 64"
definition MAX_AGENT_CLI_VERSION_SEGMENTS :: nat where "MAX_AGENT_CLI_VERSION_SEGMENTS = 4"

definition digit_unit :: "js_unit \<Rightarrow> bool" where
  "digit_unit u \<longleftrightarrow> 48 \<le> unat u \<and> unat u \<le> 57"

text \<open>
  \<open>/^\d{1,6}(?:\.\d{1,6}){1,3}(?:-[0-9A-Za-z.]{1,32})?$/\<close>: a dash can only be the one before the
  prerelease.
\<close>

definition numeric_pattern :: "js_string \<Rightarrow> bool" where
  "numeric_pattern s \<longleftrightarrow>
     (let segments = js_split 46 s in
      2 \<le> length segments \<and> length segments \<le> 4 \<and>
      list_all (\<lambda>segment. 1 \<le> length segment \<and> length segment \<le> 6 \<and> list_all digit_unit segment) segments)"

definition prerelease_pattern :: "js_string \<Rightarrow> bool" where
  "prerelease_pattern s \<longleftrightarrow> 1 \<le> length s \<and> length s \<le> 32 \<and> list_all (\<lambda>u. alnum_unit u \<or> u = 46) s"

definition cli_version_pattern :: "js_string \<Rightarrow> bool" where
  "cli_version_pattern s \<longleftrightarrow>
     (case js_indexOf_unit 45 s of
        None \<Rightarrow> numeric_pattern s
      | Some i \<Rightarrow> numeric_pattern (take i s) \<and> prerelease_pattern (drop (Suc i) s))"

definition parseAgentCliVersion :: "jsval \<Rightarrow> js_string option" where
  "parseAgentCliVersion item =
     (case item of
        JString s \<Rightarrow>
          (let trimmed = js_trim s in
           if trimmed = [] \<or> utf8ByteLength trimmed > MAX_AGENT_CLI_VERSION_BYTES then None
           else if \<not> cli_version_pattern trimmed then None
           else Some trimmed)
      | _ \<Rightarrow> None)"

definition canonicalAgentCliVersion :: "jsval \<Rightarrow> js_string option" where
  "canonicalAgentCliVersion item =
     (case parseAgentCliVersion item of
        None \<Rightarrow> None
      | Some parsed \<Rightarrow> if JString parsed \<noteq> item then None else Some parsed)"

fun agentCliProductLabel :: "agent_cli_kind \<Rightarrow> string" where
  "agentCliProductLabel ClaudeCode = ''Claude''"
| "agentCliProductLabel Codex = ''Codex''"

definition agentCliBinaryUnavailableMessage :: "agent_cli_kind \<Rightarrow> js_string" where
  "agentCliBinaryUnavailableMessage kind = js (''The '' @ agentCliProductLabel kind @
     '' CLI binary is missing or not executable (it may be updating). Retry in a moment.'')"

section \<open>Comparing\<close>

definition compareNumbers :: "nat \<Rightarrow> nat \<Rightarrow> int" where
  "compareNumbers left right = (if left = right then 0 else if left < right then -1 else 1)"

definition compareDigits :: "js_string \<Rightarrow> js_string \<Rightarrow> int" where
  "compareDigits left right =
     (let leftTrimmed = dropWhile (\<lambda>u. u = 48) left;
          rightTrimmed = dropWhile (\<lambda>u. u = 48) right;
          byLength = compareNumbers (length leftTrimmed) (length rightTrimmed)
      in if byLength \<noteq> 0 then byLength
         else if leftTrimmed = rightTrimmed then 0
         else if js_less leftTrimmed rightTrimmed then -1 else 1)"

definition digits_pattern :: "js_string \<Rightarrow> bool" where
  "digits_pattern s \<longleftrightarrow> s \<noteq> [] \<and> list_all digit_unit s"

definition comparePrereleaseIdentifier :: "js_string \<Rightarrow> js_string \<Rightarrow> int" where
  "comparePrereleaseIdentifier left right =
     (let leftNumeric = digits_pattern left; rightNumeric = digits_pattern right in
      if leftNumeric \<and> rightNumeric then compareDigits left right
      else if leftNumeric then -1
      else if rightNumeric then 1
      else if left = right then 0
      else if js_less left right then -1 else 1)"

text \<open>The loop over the shared identifiers, then the lengths.\<close>

fun comparePrerelease :: "js_string list \<Rightarrow> js_string list \<Rightarrow> int" where
  "comparePrerelease (l # ls) (r # rs) =
     (let order = comparePrereleaseIdentifier l r in if order \<noteq> 0 then order else comparePrerelease ls rs)"
| "comparePrerelease ls rs = compareNumbers (length ls) (length rs)"

definition splitAgentCliVersion :: "js_string \<Rightarrow> js_string list \<times> js_string option" where
  "splitAgentCliVersion version =
     (case js_indexOf_unit 45 version of
        None \<Rightarrow> (js_split 46 version, None)
      | Some separator \<Rightarrow> (js_split 46 (js_slice version 0 separator), Some (drop (separator + 1) version)))"

definition segment_at :: "js_string list \<Rightarrow> nat \<Rightarrow> js_string" where
  "segment_at segments index = (if index < length segments then segments ! index else js ''0'')"

fun compare_segments :: "nat list \<Rightarrow> js_string list \<Rightarrow> js_string list \<Rightarrow> int" where
  "compare_segments [] left right = 0"
| "compare_segments (index # indices) left right =
     (let order = compareDigits (segment_at left index) (segment_at right index) in
      if order \<noteq> 0 then order else compare_segments indices left right)"

definition compareAgentCliVersions :: "jsval \<Rightarrow> jsval \<Rightarrow> int option" where
  "compareAgentCliVersions left right =
     (case canonicalAgentCliVersion left of
        None \<Rightarrow> None
      | Some parsedLeft \<Rightarrow>
          (case canonicalAgentCliVersion right of
             None \<Rightarrow> None
           | Some parsedRight \<Rightarrow>
               (let (leftNumeric, leftPrerelease) = splitAgentCliVersion parsedLeft;
                    (rightNumeric, rightPrerelease) = splitAgentCliVersion parsedRight;
                    order = compare_segments [0..<MAX_AGENT_CLI_VERSION_SEGMENTS] leftNumeric rightNumeric
                in if order \<noteq> 0 then Some order
                   else case (leftPrerelease, rightPrerelease) of
                     (None, None) \<Rightarrow> Some 0
                   | (None, Some _) \<Rightarrow> Some 1
                   | (Some _, None) \<Rightarrow> Some (-1)
                   | (Some l, Some r) \<Rightarrow> Some (comparePrerelease (js_split 46 l) (js_split 46 r)))))"

section \<open>The order the comparison decides\<close>

definition order_sign :: "'a::linorder \<Rightarrow> 'a \<Rightarrow> int" where
  "order_sign a b = (if a = b then 0 else if a < b then -1 else 1)"

text \<open>The number a string of digits denotes.\<close>

definition digits_value :: "js_string \<Rightarrow> nat" where
  "digits_value s = foldl (\<lambda>n u. 10 * n + (unat u - 48)) 0 s"

text \<open>A numeric identifier is below every other; a version without a prerelease is above its prereleases.\<close>

definition identifier_key :: "js_string \<Rightarrow> bool \<times> nat \<times> js_string" where
  "identifier_key s = (if digits_pattern s then (False, digits_value s, []) else (True, 0, s))"

definition version_key :: "js_string \<Rightarrow> nat list \<times> bool \<times> (bool \<times> nat \<times> js_string) list" where
  "version_key version =
     (let (segments, prerelease) = splitAgentCliVersion version in
      (map (\<lambda>i. digits_value (segment_at segments i)) [0..<MAX_AGENT_CLI_VERSION_SEGMENTS],
       prerelease = None,
       case prerelease of None \<Rightarrow> [] | Some s \<Rightarrow> map identifier_key (js_split 46 s)))"

lemma js_less_eq_less: "js_less a b \<longleftrightarrow> a < b"
  by (induction a b rule: js_less.induct) (auto simp: word_less_nat_alt)

lemma foldl_digits: "foldl (\<lambda>n u. 10 * n + (unat u - 48)) m s = m * 10 ^ length s + digits_value s"
proof (induction s arbitrary: m)
  case (Cons u s)
  have "digits_value (u # s) = (unat u - 48) * 10 ^ length s + digits_value s"
    using Cons [of "unat u - 48"] by (simp add: digits_value_def)
  moreover have "foldl (\<lambda>n u. 10 * n + (unat u - 48)) m (u # s) =
      (10 * m + (unat u - 48)) * 10 ^ length s + digits_value s"
    using Cons [of "10 * m + (unat u - 48)"] by simp
  ultimately show ?case by (simp add: distrib_right)
qed (simp add: digits_value_def)

lemma digits_value_Cons: "digits_value (u # s) = (unat u - 48) * 10 ^ length s + digits_value s"
  using foldl_digits [of "unat u - 48" s] by (simp add: digits_value_def)

lemma digits_value_less: "list_all digit_unit s \<Longrightarrow> digits_value s < 10 ^ length s"
proof (induction s)
  case (Cons u s)
  then have "(unat u - 48) * 10 ^ length s \<le> 9 * 10 ^ length s"
    by (intro mult_right_mono) (auto simp: digit_unit_def)
  moreover have "digits_value s < 10 ^ length s" using Cons by simp
  moreover have "10 ^ length (u # s) = 9 * 10 ^ length s + (10 ^ length s :: nat)" by simp
  ultimately show ?case unfolding digits_value_Cons by linarith
qed (simp add: digits_value_def)

lemma digits_value_dropWhile: "digits_value (dropWhile (\<lambda>u. u = 48) s) = digits_value s"
  by (induction s) (simp_all add: digits_value_Cons)

lemma digits_value_lower:
  assumes "list_all digit_unit (u # s)" and "u \<noteq> 48"
  shows "10 ^ length s \<le> digits_value (u # s)"
proof -
  have "unat u \<noteq> unat (48 :: js_unit)" using assms(2) unfolding word_unat_eq_iff .
  moreover have "unat (48 :: js_unit) = 48" by simp
  ultimately have "unat u \<noteq> 48" by (simp only: not_False_eq_True)
  then have "1 \<le> unat u - 48" using assms(1) by (auto simp: digit_unit_def)
  then have "1 * 10 ^ length s \<le> (unat u - 48) * 10 ^ length s" by (intro mult_right_mono) simp_all
  then show ?thesis unfolding digits_value_Cons by linarith
qed

lemma digits_same_length:
  assumes "length a = length b" and "list_all digit_unit a" and "list_all digit_unit b"
  shows "a < b \<longleftrightarrow> digits_value a < digits_value b"
  using assms
proof (induction a b rule: list_induct2)
  case (Cons x a y b)
  let ?p = "10 ^ length b :: nat"
  have bounds: "digits_value a < ?p" "digits_value b < ?p"
    using Cons digits_value_less [of a] digits_value_less [of b] by simp_all
  show ?case
  proof (cases "x = y")
    case True
    with Cons show ?thesis by (simp add: digits_value_Cons)
  next
    case False
    have units: "48 \<le> unat x" "48 \<le> unat y" using Cons.prems by (simp_all add: digit_unit_def)
    have step: "i < j \<Longrightarrow> a' < ?p \<Longrightarrow> i * ?p + a' < j * ?p + b'" for i j a' b' :: nat
      using mult_right_mono [of "Suc i" j ?p] by simp
    show ?thesis
    proof (cases "x < y")
      case True
      then have "unat x - 48 < unat y - 48" using units by (simp add: word_less_nat_alt)
      with True Cons.hyps bounds step show ?thesis by (simp add: digits_value_Cons)
    next
      case notless: False
      with False have "unat y - 48 < unat x - 48" using units by (simp add: word_less_nat_alt word_unat_eq_iff)
      then have "digits_value (y # b) < digits_value (x # a)"
        using Cons.hyps bounds step by (simp add: digits_value_Cons)
      with notless False show ?thesis by simp
    qed
  qed
qed simp

text \<open>Numeric segments are compared as numbers, whatever their leading zeros.\<close>

lemma trimmed_digits:
  assumes "list_all digit_unit s" and "dropWhile (\<lambda>u. u = 48) s = u # t"
  shows "list_all digit_unit (u # t)" and "10 ^ length t \<le> digits_value s" and "digits_value s < 10 ^ length (u # t)"
proof -
  have "set (dropWhile (\<lambda>u. u = 48) s) \<subseteq> set s" by (auto dest: set_dropWhileD)
  then show digits: "list_all digit_unit (u # t)" using assms by (auto simp: list_all_iff)
  have "u \<noteq> 48" using assms(2) by (simp add: dropWhile_eq_Cons_conv)
  then show "10 ^ length t \<le> digits_value s" "digits_value s < 10 ^ length (u # t)"
    using digits_value_lower [OF digits] digits_value_less [OF digits] digits_value_dropWhile [of s] assms(2)
    by simp_all
qed

lemma compareDigits_numbers:
  assumes l: "list_all digit_unit l" and r: "list_all digit_unit r"
  shows "compareDigits l r = order_sign (digits_value l) (digits_value r)"
proof -
  let ?l = "dropWhile (\<lambda>u. u = 48) l" and ?r = "dropWhile (\<lambda>u. u = 48) r"
  have shorter: "digits_value a < digits_value b"
    if a: "list_all digit_unit a" and b': "list_all digit_unit b"
      and len: "length (dropWhile (\<lambda>u. u = 48) a) < length (dropWhile (\<lambda>u. u = 48) b)" for a b
  proof -
    obtain u t where b: "dropWhile (\<lambda>u. u = 48) b = u # t" using len by (cases "dropWhile (\<lambda>u. u = 48) b") auto
    have "list_all digit_unit (dropWhile (\<lambda>u. u = 48) a)"
      using a by (auto simp: list_all_iff dest: set_dropWhileD)
    then have "digits_value a < 10 ^ length (dropWhile (\<lambda>u. u = 48) a)"
      using digits_value_less digits_value_dropWhile by metis
    also have "\<dots> \<le> 10 ^ length t" using len b by (intro power_increasing) simp_all
    also have "\<dots> \<le> digits_value b" using trimmed_digits(2) [OF b' b] .
    finally show ?thesis .
  qed
  consider "length ?l < length ?r" | "length ?r < length ?l" | "length ?l = length ?r" by linarith
  then show ?thesis
  proof cases
    case 1
    with shorter [OF l r] show ?thesis by (simp add: compareDigits_def compareNumbers_def order_sign_def Let_def)
  next
    case 2
    with shorter [OF r l] show ?thesis by (simp add: compareDigits_def compareNumbers_def order_sign_def Let_def)
  next
    case 3
    have "list_all digit_unit ?l" "list_all digit_unit ?r"
      using l r by (auto simp: list_all_iff dest: set_dropWhileD)
    then have "?l < ?r \<longleftrightarrow> digits_value l < digits_value r" "?r < ?l \<longleftrightarrow> digits_value r < digits_value l"
      using digits_same_length [of ?l ?r] digits_same_length [of ?r ?l] 3 by (simp_all add: digits_value_dropWhile)
    moreover from this have "?l = ?r \<longleftrightarrow> digits_value l = digits_value r" by (metis linorder_neq_iff)
    ultimately show ?thesis using 3
      by (simp add: compareDigits_def compareNumbers_def order_sign_def Let_def js_less_eq_less)
  qed
qed

lemma compareIdentifier_key:
  "comparePrereleaseIdentifier l r = order_sign (identifier_key l) (identifier_key r)"
  using compareDigits_numbers [of l r]
  by (auto simp: comparePrereleaseIdentifier_def identifier_key_def Let_def digits_pattern_def order_sign_def
      js_less_eq_less)

lemma order_sign_Cons:
  "order_sign (a # as) (b # bs) = (let order = order_sign a b in if order \<noteq> 0 then order else order_sign as bs)"
  by (auto simp: order_sign_def)

lemma order_sign_Pair:
  "order_sign (a, b) (c, d) = (let order = order_sign a c in if order \<noteq> 0 then order else order_sign b d)"
  by (auto simp: order_sign_def)

lemma Nil_less_map: "[] < map f xs \<longleftrightarrow> xs \<noteq> []"
  by (cases xs) simp_all

lemma comparePrerelease_key:
  "comparePrerelease ls rs = order_sign (map identifier_key ls) (map identifier_key rs)"
  by (induction ls rs rule: comparePrerelease.induct)
    (auto simp: order_sign_Cons compareIdentifier_key compareNumbers_def Nil_less_map Let_def order_sign_def [of "[]"]
      order_sign_def [of _ "[]"])

lemma compare_segments_key:
  assumes "list_all (list_all digit_unit) left" and "list_all (list_all digit_unit) right"
  shows "compare_segments indices left right =
    order_sign (map (\<lambda>i. digits_value (segment_at left i)) indices) (map (\<lambda>i. digits_value (segment_at right i)) indices)"
proof -
  have digits: "list_all digit_unit (segment_at segments i)" if "list_all (list_all digit_unit) segments" for segments i
    using that by (auto simp: segment_at_def list_all_length digit_unit_def)
  show ?thesis
    by (induction indices)
      (auto simp: order_sign_Cons compareDigits_numbers digits assms Let_def order_sign_def [of "[]"])
qed

lemma canonical_numeric:
  assumes "canonicalAgentCliVersion item = Some version"
  shows "list_all (list_all digit_unit) (fst (splitAgentCliVersion version))"
proof -
  have "cli_version_pattern version"
    using assms by (auto simp: canonicalAgentCliVersion_def parseAgentCliVersion_def Let_def
        split: jsval.splits option.splits if_splits)
  then show ?thesis
    by (auto simp: cli_version_pattern_def splitAgentCliVersion_def numeric_pattern_def js_slice_def list_all_iff Let_def
        split: option.splits)
qed

text \<open>
  C31: Two canonical versions compare by the order of their keys: the four numbers first, each as a
  number whatever its leading zeros and absent ones as zero, then a release above its prereleases,
  then the prerelease identifiers in order, numbers below words. Whatever is not a canonical
  version is not comparable.
\<close>

theorem compare_versions_by_key:
  "compareAgentCliVersions left right =
    (case (canonicalAgentCliVersion left, canonicalAgentCliVersion right) of
       (Some l, Some r) \<Rightarrow> Some (order_sign (version_key l) (version_key r))
     | _ \<Rightarrow> None)"
proof (cases "canonicalAgentCliVersion left = None \<or> canonicalAgentCliVersion right = None")
  case True
  then show ?thesis by (auto simp: compareAgentCliVersions_def split: option.split)
next
  case False
  then obtain l r where l: "canonicalAgentCliVersion left = Some l" and r: "canonicalAgentCliVersion right = Some r"
    by auto
  obtain ls lp where ls: "splitAgentCliVersion l = (ls, lp)" by (cases "splitAgentCliVersion l")
  obtain rs rp where rs: "splitAgentCliVersion r = (rs, rp)" by (cases "splitAgentCliVersion r")
  have "compare_segments indices ls rs = order_sign (map (\<lambda>i. digits_value (segment_at ls i)) indices)
      (map (\<lambda>i. digits_value (segment_at rs i)) indices)" for indices
    using compare_segments_key canonical_numeric [OF l] canonical_numeric [OF r] ls rs by simp
  then show ?thesis
    by (cases lp; cases rp)
      (simp_all add: compareAgentCliVersions_def l r ls rs version_key_def Let_def comparePrerelease_key
        order_sign_Pair order_sign_def [of True] order_sign_def [of False] order_sign_def [of "[]"])
qed

end
