(* ===== verification/WireThread.thy ===== *)
theory WireThread
  imports WireEventLaws ExternalSessionLaws CliVersion TurnRecovery ThreadOrder
begin

text \<open>
  The stored form of a thread, \<open>src/domain/agentThreadWire.ts\<close>: \<open>serializeThreadDocument\<close> writes the
  document of a thread and \<open>parseAgentThread\<close> reads it back, turn by turn. A parser that throws is
  \<open>Inl\<close> with the path its error names; a serializer that throws is \<open>Inl\<close> with its message.
\<close>

section \<open>Checked fields\<close>

definition MAX_PERSISTED_AGENT_EVENTS_PER_TURN :: nat where "MAX_PERSISTED_AGENT_EVENTS_PER_TURN = 512"
definition MAX_GIT_INTEGRATION_BRANCH_BYTES :: nat where "MAX_GIT_INTEGRATION_BRANCH_BYTES = 512"

text \<open>\<open>/^[0-9a-f]{40}$/\<close> and \<open>/^[A-Za-z0-9][A-Za-z0-9._-]{0,127}$/\<close>.\<close>

definition git_sha_pattern :: "js_string \<Rightarrow> bool" where
  "git_sha_pattern s \<longleftrightarrow> length s = 40 \<and> list_all hex_unit s"

definition git_remote_name_pattern :: "js_string \<Rightarrow> bool" where
  "git_remote_name_pattern s \<longleftrightarrow>
     (case s of [] \<Rightarrow> False
      | c # cs \<Rightarrow> alnum_unit c \<and> length cs \<le> 127 \<and>
          list_all (\<lambda>u. alnum_unit u \<or> u = 46 \<or> u = 95 \<or> u = 45) cs)"

definition gitSha :: "jsval \<Rightarrow> string \<Rightarrow> js_string checked" where
  "gitSha item path =
     (case item of JString s \<Rightarrow> if git_sha_pattern s then Inr s else Inl path | _ \<Rightarrow> Inl path)"

definition optionalGitSha :: "jsval \<Rightarrow> string \<Rightarrow> js_string option checked" where
  "optionalGitSha item path = nullable_at item (\<lambda>v. gitSha v path)"

definition gitRemoteName :: "jsval \<Rightarrow> string \<Rightarrow> js_string checked" where
  "gitRemoteName item path =
     (case item of JString s \<Rightarrow> if git_remote_name_pattern s then Inr s else Inl path | _ \<Rightarrow> Inl path)"

definition gitBranchName :: "jsval \<Rightarrow> string \<Rightarrow> js_string checked" where
  "gitBranchName item path =
     chk (boundedText item path MAX_GIT_INTEGRATION_BRANCH_BYTES False True) (\<lambda>branch.
     chk (reject (js_startsWith branch (js ''-'') \<or> js_includes branch (64 # js ''{'') \<or> js_includes branch (js ''..''))
       path) (\<lambda>_. Inr branch))"

fun integration_mode_literal :: "integration_mode \<Rightarrow> string" where
  "integration_mode_literal FastForward = ''fastForward''"
| "integration_mode_literal MergeMode = ''merge''"

definition gitIntegrationMode :: "jsval \<Rightarrow> string \<Rightarrow> integration_mode checked" where
  "gitIntegrationMode item path = member_at item integration_mode_literal [FastForward, MergeMode] path"

text \<open>The paths of a stored thread may hold control characters, those of a task may not.\<close>

definition stored_path :: "jsval \<Rightarrow> string \<Rightarrow> js_string checked" where
  "stored_path item path =
     chk (boundedText item path MAX_AGENT_TASK_PATH_BYTES False False) (\<lambda>candidate.
     chk (reject (js_trim candidate = []) path) (\<lambda>_. Inr candidate))"

definition stored_worktree_path :: "jsval \<Rightarrow> task_isolation \<Rightarrow> string \<Rightarrow> js_string option checked" where
  "stored_worktree_path item isolation path =
     (if isolation = InPlace then (if item \<noteq> JNull then Inl path else Inr None)
      else chk (stored_path item path) (\<lambda>p. Inr (Some p)))"

section \<open>Turns\<close>

datatype turn_status_kind = TKPending | TKRunning | TKExited | TKFailed | TKStopped | TKInterrupted

fun turn_status_literal :: "turn_status_kind \<Rightarrow> string" where
  "turn_status_literal TKPending = ''pending''"
| "turn_status_literal TKRunning = ''running''"
| "turn_status_literal TKExited = ''exited''"
| "turn_status_literal TKFailed = ''failed''"
| "turn_status_literal TKStopped = ''stopped''"
| "turn_status_literal TKInterrupted = ''interrupted''"

definition turnStatusKind :: "jsval \<Rightarrow> string \<Rightarrow> turn_status_kind checked" where
  "turnStatusKind item path =
     member_at item turn_status_literal [TKPending, TKRunning, TKExited, TKFailed, TKStopped, TKInterrupted] path"

definition status_object :: "turn_status_kind \<Rightarrow> (js_string \<times> jsval) list \<Rightarrow> jsval" where
  "status_object kind props =
     JObject (js_field ''kind'' (Some (JString (js (turn_status_literal kind)))) @ props)"

fun serializeTurnStatus :: "turn_status \<Rightarrow> jsval" where
  "serializeTurnStatus (TaskStatus (TaskExited exitCode)) =
     status_object TKExited (js_field ''exitCode'' (Some (js_int exitCode)))"
| "serializeTurnStatus (TaskStatus (TaskFailed message)) =
     status_object TKFailed (js_field ''message'' (Some (JString message)))"
| "serializeTurnStatus (TaskStatus TaskPending) = status_object TKPending []"
| "serializeTurnStatus (TaskStatus TaskRunning) = status_object TKRunning []"
| "serializeTurnStatus (TaskStatus TaskStopped) = status_object TKStopped []"
| "serializeTurnStatus TurnInterrupted = status_object TKInterrupted []"

definition parseTurnStatus :: "jsval \<Rightarrow> string \<Rightarrow> turn_status checked" where
  "parseTurnStatus item path =
     chk (record_at item path) (\<lambda>status.
     chk (turnStatusKind (js_get status (js ''kind'')) (path @ ''.kind'')) (\<lambda>kind.
       case kind of
         TKExited \<Rightarrow>
           chk (exactKeys status [''kind'', ''exitCode''] path) (\<lambda>_.
           chk (signedExitCode (js_get status (js ''exitCode'')) (path @ ''.exitCode''))
             (\<lambda>code. Inr (TaskStatus (TaskExited code))))
       | TKFailed \<Rightarrow>
           chk (exactKeys status [''kind'', ''message''] path) (\<lambda>_.
           chk (boundedText (js_get status (js ''message'')) (path @ ''.message'')
             MAX_AGENT_TASK_FAILURE_BYTES False False) (\<lambda>message. Inr (TaskStatus (TaskFailed message))))
       | TKPending \<Rightarrow> chk (exactKeys status [''kind''] path) (\<lambda>_. Inr (TaskStatus TaskPending))
       | TKRunning \<Rightarrow> chk (exactKeys status [''kind''] path) (\<lambda>_. Inr (TaskStatus TaskRunning))
       | TKStopped \<Rightarrow> chk (exactKeys status [''kind''] path) (\<lambda>_. Inr (TaskStatus TaskStopped))
       | TKInterrupted \<Rightarrow> chk (exactKeys status [''kind''] path) (\<lambda>_. Inr TurnInterrupted)))"

text \<open>The stream metrics are stored as the object they are.\<close>

definition metrics_value :: "stream_metrics \<Rightarrow> jsval" where
  "metrics_value metrics = JObject
     (js_field ''receivedUtf8Bytes'' (Some (js_int (sm_receivedUtf8Bytes metrics))) @
      js_field ''complete'' (Some (JBool (sm_complete metrics))))"

definition parse_metrics_record :: "jsval \<Rightarrow> string \<Rightarrow> stream_metrics checked" where
  "parse_metrics_record item path =
     chk (record_at item path) (\<lambda>metrics.
     chk (exactKeys metrics [''receivedUtf8Bytes'', ''complete''] path) (\<lambda>_.
     chk (unsignedSafeInteger (js_get metrics (js ''receivedUtf8Bytes'')) (path @ ''.receivedUtf8Bytes'')) (\<lambda>received.
     chk (boolean_at (js_get metrics (js ''complete'')) (path @ ''.complete'')) (\<lambda>complete.
     Inr \<lparr>sm_receivedUtf8Bytes = received, sm_complete = complete\<rparr>))))"

definition parseStreamMetrics :: "jsval \<Rightarrow> string \<Rightarrow> stream_metrics option checked" where
  "parseStreamMetrics item path = missing_at item (\<lambda>v. parse_metrics_record v path)"

fun codex_transport_literal :: "codex_transport \<Rightarrow> string" where
  "codex_transport_literal AppServerTransport = ''appServer''"
| "codex_transport_literal ExecTransport = ''exec''"

definition parseCodexTransport :: "jsval \<Rightarrow> string \<Rightarrow> codex_transport option checked" where
  "parseCodexTransport item path =
     optional_at item (\<lambda>v. member_at v codex_transport_literal [AppServerTransport, ExecTransport] path)"

definition cli_version_at :: "jsval \<Rightarrow> string \<Rightarrow> js_string checked" where
  "cli_version_at item path =
     (case parseAgentCliVersion item of
        None \<Rightarrow> Inl path
      | Some version \<Rightarrow> if JString version \<noteq> item then Inl path else Inr version)"

definition parseCliVersion :: "jsval \<Rightarrow> string \<Rightarrow> js_string option checked" where
  "parseCliVersion item path = missing_at item (\<lambda>v. cli_version_at v path)"

definition parseLaunch :: "jsval \<Rightarrow> string \<Rightarrow> launch_options option checked" where
  "parseLaunch item path = missing_at item (\<lambda>v. parseStoredAgentLaunchOptions v path)"

text \<open>The events in order, counting the subagent threads they name.\<close>

definition count_thread :: "js_string js_set \<Rightarrow> agent_turn_event \<Rightarrow> js_string js_set" where
  "count_thread seen event = (case event_agentThreadId event of None \<Rightarrow> seen | Some t \<Rightarrow> set_add t seen)"

fun events_from :: "nat \<Rightarrow> js_string js_set \<Rightarrow> jsval list \<Rightarrow> string \<Rightarrow> agent_turn_event list checked" where
  "events_from i seen [] path = Inr []"
| "events_from i seen (raw # raws) path =
     chk (parseTurnEvent raw (path @ ''['' @ decimal i @ '']'')) (\<lambda>event.
     chk (reject (length (count_thread seen event) > MAX_SUBAGENT_THREADS_PER_TURN) path) (\<lambda>_.
     chk (events_from (Suc i) (count_thread seen event) raws path) (\<lambda>rest. Inr (event # rest))))"

definition parseTurnEvents :: "jsval \<Rightarrow> string \<Rightarrow> agent_turn_event list checked" where
  "parseTurnEvents item path =
     chk (boundedArray item path MAX_PERSISTED_AGENT_EVENTS_PER_TURN) (\<lambda>raws. events_from 0 [] raws path)"

definition serializeTurn :: "agent_turn \<Rightarrow> jsval checked" where
  "serializeTurn turn =
     chk (emit_all serializeTurnEvent (filter isV1TurnEvent (tn_events turn))) (\<lambda>events.
     chk (serializeAttachments (tn_attachments turn)) (\<lambda>attachments.
     Inr (JObject
       (js_field ''turnId'' (Some (JString (tn_turnId turn))) @
        js_field ''prompt'' (Some (JString (tn_prompt turn))) @
        js_field ''status'' (Some (serializeTurnStatus (tn_status turn))) @
        js_field ''startedAtEpochMs'' (Some (js_int (tn_startedAtEpochMs turn))) @
        js_field ''endedAtEpochMs'' (Some (js_null js_int (tn_endedAtEpochMs turn))) @
        js_field ''events'' (Some (JArray events)) @
        js_field ''eventsTruncated'' (Some (JBool (tn_eventsTruncated turn))) @
        js_field ''lastStatusSequence'' (Some (js_int (tn_lastStatusSequence turn))) @
        js_field ''lastOutputSequence'' (Some (js_int (tn_lastOutputSequence turn))) @
        js_field ''streamMetrics'' (Some (js_null metrics_value (or_null (tn_streamMetrics turn)))) @
        js_field ''subagentLifecycle''
          (map_option lifecycle_value (persistedAgentSubagentLifecycle (tn_subagentLifecycle turn))) @
        js_field ''launch'' (Some (js_null serializeAgentLaunchOptions (tn_launch turn))) @
        js_field ''cliVersion'' (Some (js_null JString (tn_cliVersion turn))) @
        js_field ''codexTransport''
          (map_option (\<lambda>t. JString (js (codex_transport_literal t))) (tn_codexTransport turn)) @
        js_field ''attachments'' attachments))))"

definition turn_required_keys :: "string list" where
  "turn_required_keys =
     [''turnId'', ''prompt'', ''status'', ''startedAtEpochMs'', ''endedAtEpochMs'', ''events'', ''eventsTruncated'',
      ''lastStatusSequence'', ''lastOutputSequence'']"

definition turn_optional_keys :: "string list" where
  "turn_optional_keys =
     [''launch'', ''cliVersion'', ''streamMetrics'', ''attachments'', ''codexTransport'', ''subagentLifecycle'']"

definition parseTurnFields :: "jsval \<Rightarrow> string \<Rightarrow> agent_turn checked" where
  "parseTurnFields item path =
     chk (record_at item path) (\<lambda>turn.
     chk (boundedKeys turn turn_required_keys turn_optional_keys path) (\<lambda>_.
     chk (agentTaskId (js_get turn (js ''turnId'')) (path @ ''.turnId'')) (\<lambda>turnId.
     chk (boundedText (js_get turn (js ''prompt'')) (path @ ''.prompt'') MAX_AGENT_TASK_PROMPT_BYTES False False)
       (\<lambda>prompt.
     chk (parseTurnStatus (js_get turn (js ''status'')) (path @ ''.status'')) (\<lambda>status.
     chk (unsignedSafeInteger (js_get turn (js ''startedAtEpochMs'')) (path @ ''.startedAtEpochMs'')) (\<lambda>started.
     chk (optionalUnsignedSafeInteger (js_get turn (js ''endedAtEpochMs'')) (path @ ''.endedAtEpochMs'')) (\<lambda>ended.
     chk (parseTurnEvents (js_get turn (js ''events'')) (path @ ''.events'')) (\<lambda>events.
     chk (boolean_at (js_get turn (js ''eventsTruncated'')) (path @ ''.eventsTruncated'')) (\<lambda>trunc.
     chk (unsignedSafeInteger (js_get turn (js ''lastStatusSequence'')) (path @ ''.lastStatusSequence'')) (\<lambda>statusSeq.
     chk (unsignedSafeInteger (js_get turn (js ''lastOutputSequence'')) (path @ ''.lastOutputSequence'')) (\<lambda>outputSeq.
     chk (parseStreamMetrics (js_get turn (js ''streamMetrics'')) (path @ ''.streamMetrics'')) (\<lambda>metrics.
     chk (parseLaunch (js_get turn (js ''launch'')) (path @ ''.launch'')) (\<lambda>launch.
     chk (parseCliVersion (js_get turn (js ''cliVersion'')) (path @ ''.cliVersion'')) (\<lambda>version.
     chk (parseCodexTransport (js_get turn (js ''codexTransport'')) (path @ ''.codexTransport'')) (\<lambda>transport.
     chk (parseAttachments (js_get turn (js ''attachments'')) (path @ ''.attachments'')) (\<lambda>attachments.
     Inr \<lparr>tn_codexTransport = transport, tn_origin = None, tn_turnId = turnId, tn_prompt = prompt,
       tn_status = status, tn_startedAtEpochMs = started, tn_endedAtEpochMs = ended, tn_events = events,
       tn_eventsTruncated = trunc, tn_eventsRetention = None, tn_lastStatusSequence = statusSeq,
       tn_lastOutputSequence = outputSeq, tn_queueBoundarySequence = None, tn_promptRestored = None,
       tn_haltRequested = None, tn_haltRequest = None, tn_foregroundSettled = None, tn_firstEventOffset = None,
       tn_subagentLifecycle = readAgentSubagentLifecycle (js_get turn (js ''subagentLifecycle'')),
       tn_streamMetrics = Some metrics, tn_launch = launch, tn_cliVersion = version,
       tn_attachments = attachments\<rparr>))))))))))))))))"

definition parseTurn :: "jsval \<Rightarrow> string \<Rightarrow> agent_turn checked" where
  "parseTurn item path =
     chk (parseTurnFields item path) (\<lambda>parsed.
       case derivedAgentTurnOrigin (tn_prompt parsed) (tn_launch parsed) (tn_cliVersion parsed) of
         None \<Rightarrow> Inr parsed
       | Some origin \<Rightarrow> Inr (parsed\<lparr>tn_origin := Some origin\<rparr>))"

definition parseAgentHistoryTurn :: "jsval \<Rightarrow> string \<Rightarrow> agent_turn checked" where
  "parseAgentHistoryTurn item path = parseTurn item path"

text \<open>The first turn but the last that has not ended.\<close>

fun open_before_last :: "nat \<Rightarrow> agent_turn list \<Rightarrow> nat option" where
  "open_before_last i (turn # later # turns) =
     (if \<not> isTerminalAgentTurnStatus (tn_status turn) then Some i else open_before_last (Suc i) (later # turns))"
| "open_before_last i _ = None"

definition parseTurns :: "jsval \<Rightarrow> string \<Rightarrow> agent_turn list checked" where
  "parseTurns item path =
     chk (boundedArray item path MAX_AGENT_TURNS_PER_THREAD) (\<lambda>raws.
     chk (array_from 0 parseTurn raws path) (\<lambda>parsed.
     chk (reject (\<not> distinct (map tn_turnId parsed)) path) (\<lambda>_.
       case open_before_last 0 parsed of
         None \<Rightarrow> Inr parsed
       | Some i \<Rightarrow> Inl (path @ ''['' @ decimal i @ ''].status''))))"

section \<open>Threads\<close>

definition owner_value :: "thread_owner \<Rightarrow> jsval" where
  "owner_value owner = JObject
     (js_field ''rootKey'' (Some (JString (ow_rootKey owner))) @
      js_field ''ownerId'' (Some (JString (ow_ownerId owner))) @
      js_field ''repositoryRoot'' (Some (JString (ow_repositoryRoot owner))))"

definition target_value :: "thread_target \<Rightarrow> jsval" where
  "target_value target = JObject
     (js_field ''isolation'' (Some (JString (js (isolation_literal (tg_isolation target))))) @
      js_field ''worktreePath'' (Some (js_null JString (tg_worktreePath target))))"

definition provider_value :: "provider_session \<Rightarrow> jsval" where
  "provider_value provider = JObject
     (js_field ''kind'' (Some (JString (js (cli_kind_literal (ps_kind provider))))) @
      js_field ''sessionId'' (Some (js_null JString (ps_sessionId provider))))"

definition push_value :: "push_receipt \<Rightarrow> jsval" where
  "push_value receipt = JObject
     (js_field ''remote'' (Some (JString (pr_remote receipt))) @
      js_field ''branch'' (Some (JString (pr_branch receipt))))"

definition merge_value :: "integration_receipt \<Rightarrow> jsval" where
  "merge_value receipt = JObject
     (js_field ''intoBranch'' (Some (JString (ir_intoBranch receipt))) @
      js_field ''mergeSha'' (Some (JString (ir_mergeSha receipt))) @
      js_field ''mode'' (Some (JString (js (integration_mode_literal (ir_mode receipt))))))"

definition integration_value :: "thread_integration \<Rightarrow> jsval" where
  "integration_value integration = JObject
     (js_field ''lastCommitSha'' (Some (js_null JString (in_lastCommitSha integration))) @
      js_field ''pushed'' (Some (js_null push_value (in_pushed integration))) @
      js_field ''integrated'' (Some (js_null merge_value (in_integrated integration))) @
      js_field ''branchDeleted'' (Some (JBool (in_branchDeleted integration))))"

definition serializeIntegration :: "thread_integration option \<Rightarrow> jsval" where
  "serializeIntegration integration = js_null integration_value integration"

definition parseOriginHistory ::
  "jsval \<Rightarrow> agent_cli_kind \<Rightarrow> js_string \<Rightarrow> string \<Rightarrow> external_history option checked" where
  "parseOriginHistory item provider sessionId path =
     optional_at item (\<lambda>v.
       chk (parseExternalAgentSessionHistory v path) (\<lambda>history.
       chk (reject (eh_provider history \<noteq> provider \<or> eh_sessionId history \<noteq> sessionId) path) (\<lambda>_. Inr history)))"

definition serializeExternalOrigin :: "external_origin option \<Rightarrow> jsval checked" where
  "serializeExternalOrigin origin =
     (case origin of
        None \<Rightarrow> Inr JNull
      | Some origin \<Rightarrow>
          chk (parseOriginHistory (js_opt history_value (eo_history origin)) (eo_provider origin) (eo_sessionId origin)
            ''thread.externalOrigin.history'') (\<lambda>history.
          Inr (JObject
            (js_field ''provider'' (Some (JString (js (cli_kind_literal (eo_provider origin))))) @
             js_field ''sessionId'' (Some (JString (eo_sessionId origin))) @
             js_field ''importedAtEpochMs'' (Some (js_int (eo_importedAtEpochMs origin))) @
             js_field ''history'' (map_option history_value history)))))"

definition js_sort_order :: "rat \<Rightarrow> jsval" where
  "js_sort_order q = JNumber (Some q)"

definition serializeThreadDocument :: "agent_thread \<Rightarrow> jsval checked" where
  "serializeThreadDocument thread =
     chk (emit_all serializeTurn (th_turns thread)) (\<lambda>turns.
     chk (serializeExternalOrigin (th_externalOrigin thread)) (\<lambda>origin.
     Inr (JObject
       (js_field ''threadId'' (Some (JString (th_threadId thread))) @
        js_field ''owner'' (Some (owner_value (th_owner thread))) @
        js_field ''target'' (Some (target_value (th_target thread))) @
        js_field ''provider'' (Some (provider_value (th_provider thread))) @
        js_field ''title'' (Some (JString (th_title thread))) @
        js_field ''pinned'' (Some (JBool (th_pinned thread))) @
        js_field ''snoozedUntil'' (map_option (js_null js_int) (th_snoozedUntil thread)) @
        js_field ''settledAt'' (map_option (js_null js_int) (th_settledAt thread)) @
        js_field ''sortOrder'' (map_option (js_null js_sort_order) (th_sortOrder thread)) @
        js_field ''archived'' (Some (JBool (th_archived thread))) @
        js_field ''createdAtEpochMs'' (Some (js_int (th_createdAtEpochMs thread))) @
        js_field ''updatedAtEpochMs'' (Some (js_int (th_updatedAtEpochMs thread))) @
        js_field ''turns'' (Some (JArray turns)) @
        js_field ''turnsTruncated'' (Some (JBool (th_turnsTruncated thread))) @
        js_field ''integration'' (Some (serializeIntegration (th_integration thread))) @
        js_field ''viewedAtEpochMs'' (Some (js_null js_int (th_viewedAtEpochMs thread))) @
        js_field ''externalOrigin'' (Some origin)))))"

definition parseOwner :: "jsval \<Rightarrow> string \<Rightarrow> thread_owner checked" where
  "parseOwner item path =
     chk (record_at item path) (\<lambda>owner.
     chk (exactKeys owner [''rootKey'', ''ownerId'', ''repositoryRoot''] path) (\<lambda>_.
     chk (boundedText (js_get owner (js ''rootKey'')) (path @ ''.rootKey'') MAX_AGENT_TASK_PATH_BYTES False True) (\<lambda>rootKey.
     chk (boundedText (js_get owner (js ''ownerId'')) (path @ ''.ownerId'') MAX_AGENT_TASK_WORKSPACE_ID_BYTES False True)
       (\<lambda>ownerId.
     chk (stored_path (js_get owner (js ''repositoryRoot'')) (path @ ''.repositoryRoot'')) (\<lambda>repositoryRoot.
     Inr \<lparr>ow_rootKey = rootKey, ow_ownerId = ownerId, ow_repositoryRoot = repositoryRoot\<rparr>)))))"

definition parseTarget :: "jsval \<Rightarrow> string \<Rightarrow> thread_target checked" where
  "parseTarget item path =
     chk (record_at item path) (\<lambda>target.
     chk (exactKeys target [''isolation'', ''worktreePath''] path) (\<lambda>_.
     chk (agentTaskIsolation (js_get target (js ''isolation'')) (path @ ''.isolation'')) (\<lambda>isolation.
     chk (stored_worktree_path (js_get target (js ''worktreePath'')) isolation (path @ ''.worktreePath'')) (\<lambda>worktree.
     Inr \<lparr>tg_isolation = isolation, tg_worktreePath = worktree\<rparr>))))"

definition parseProvider :: "jsval \<Rightarrow> string \<Rightarrow> provider_session checked" where
  "parseProvider item path =
     chk (record_at item path) (\<lambda>provider.
     chk (exactKeys provider [''kind'', ''sessionId''] path) (\<lambda>_.
     chk (agentCliKind (js_get provider (js ''kind'')) (path @ ''.kind'')) (\<lambda>kind.
     chk (optionalAgentSessionId (js_get provider (js ''sessionId'')) (path @ ''.sessionId'')) (\<lambda>session.
     Inr \<lparr>ps_kind = kind, ps_sessionId = session\<rparr>))))"

definition parseIntegrationPush :: "jsval \<Rightarrow> string \<Rightarrow> push_receipt option checked" where
  "parseIntegrationPush item path =
     nullable_at item (\<lambda>v.
       chk (record_at v path) (\<lambda>pushed.
       chk (exactKeys pushed [''remote'', ''branch''] path) (\<lambda>_.
       chk (gitRemoteName (js_get pushed (js ''remote'')) (path @ ''.remote'')) (\<lambda>remote.
       chk (gitBranchName (js_get pushed (js ''branch'')) (path @ ''.branch'')) (\<lambda>branch.
       Inr \<lparr>pr_remote = remote, pr_branch = branch\<rparr>)))))"

definition parseIntegrationMerge :: "jsval \<Rightarrow> string \<Rightarrow> integration_receipt option checked" where
  "parseIntegrationMerge item path =
     nullable_at item (\<lambda>v.
       chk (record_at v path) (\<lambda>integrated.
       chk (exactKeys integrated [''intoBranch'', ''mergeSha'', ''mode''] path) (\<lambda>_.
       chk (gitBranchName (js_get integrated (js ''intoBranch'')) (path @ ''.intoBranch'')) (\<lambda>intoBranch.
       chk (gitSha (js_get integrated (js ''mergeSha'')) (path @ ''.mergeSha'')) (\<lambda>mergeSha.
       chk (gitIntegrationMode (js_get integrated (js ''mode'')) (path @ ''.mode'')) (\<lambda>mode.
       Inr \<lparr>ir_intoBranch = intoBranch, ir_mergeSha = mergeSha, ir_mode = mode\<rparr>))))))"

definition parseIntegration :: "jsval \<Rightarrow> string \<Rightarrow> thread_integration option checked" where
  "parseIntegration item path =
     missing_at item (\<lambda>v.
       chk (record_at v path) (\<lambda>integration.
       chk (exactKeys integration [''lastCommitSha'', ''pushed'', ''integrated'', ''branchDeleted''] path) (\<lambda>_.
       chk (optionalGitSha (js_get integration (js ''lastCommitSha'')) (path @ ''.lastCommitSha'')) (\<lambda>lastCommitSha.
       chk (parseIntegrationPush (js_get integration (js ''pushed'')) (path @ ''.pushed'')) (\<lambda>pushed.
       chk (parseIntegrationMerge (js_get integration (js ''integrated'')) (path @ ''.integrated'')) (\<lambda>integrated.
       chk (boolean_at (js_get integration (js ''branchDeleted'')) (path @ ''.branchDeleted'')) (\<lambda>deleted.
       Inr \<lparr>in_lastCommitSha = lastCommitSha, in_pushed = pushed, in_integrated = integrated,
         in_branchDeleted = deleted\<rparr>)))))))"

definition externalSessionId :: "jsval \<Rightarrow> string \<Rightarrow> js_string checked" where
  "externalSessionId item path =
     (case item of JString s \<Rightarrow> if isAgentSessionId s then Inr s else Inl path | _ \<Rightarrow> Inl path)"

definition parseExternalOrigin :: "jsval \<Rightarrow> string \<Rightarrow> agent_cli_kind \<Rightarrow> external_origin option checked" where
  "parseExternalOrigin item path providerKind =
     missing_at item (\<lambda>v.
       chk (record_at v path) (\<lambda>origin.
       chk (boundedKeys origin [''provider'', ''sessionId'', ''importedAtEpochMs''] [''history''] path) (\<lambda>_.
       chk (agentCliKind (js_get origin (js ''provider'')) (path @ ''.provider'')) (\<lambda>provider.
       chk (reject (provider \<noteq> providerKind) (path @ ''.provider'')) (\<lambda>_.
       chk (externalSessionId (js_get origin (js ''sessionId'')) (path @ ''.sessionId'')) (\<lambda>sessionId.
       chk (parseOriginHistory (js_get origin (js ''history'')) provider sessionId (path @ ''.history'')) (\<lambda>history.
       chk (unsignedSafeInteger (js_get origin (js ''importedAtEpochMs'')) (path @ ''.importedAtEpochMs'')) (\<lambda>imported.
       Inr \<lparr>eo_provider = provider, eo_sessionId = sessionId, eo_importedAtEpochMs = imported,
         eo_history = history\<rparr>))))))))"

definition parseViewedAt :: "jsval \<Rightarrow> string \<Rightarrow> int option checked" where
  "parseViewedAt item path =
     (if item = JUndefined then Inr None else optionalUnsignedSafeInteger item path)"

text \<open>\<open>Object.prototype.hasOwnProperty\<close> decides whether an organization field is there.\<close>

definition organization_value_at :: "jsval \<Rightarrow> string \<Rightarrow> int checked" where
  "organization_value_at item path = safe_integer_at item (\<lambda>n. validThreadOrganizationValue (Some n)) path"

definition sort_order_at :: "jsval \<Rightarrow> string \<Rightarrow> rat checked" where
  "sort_order_at item path =
     (case item of JNumber (Some q) \<Rightarrow> if validThreadSortOrder (Some q) then Inr q else Inl path | _ \<Rightarrow> Inl path)"

definition own_field :: "(js_string \<times> jsval) list \<Rightarrow> string \<Rightarrow> (jsval \<Rightarrow> 'a checked) \<Rightarrow> 'a option checked" where
  "own_field obj key parse =
     (if has_key obj key then chk (parse (js_get obj (js key))) (\<lambda>a. Inr (Some a)) else Inr None)"

definition parseOrganizationFields :: "(js_string \<times> jsval) list \<Rightarrow> organization_patch checked" where
  "parseOrganizationFields thread =
     chk (own_field thread ''snoozedUntil''
       (\<lambda>v. nullable_at v (\<lambda>w. organization_value_at w ''thread.snoozedUntil''))) (\<lambda>snoozed.
     chk (own_field thread ''settledAt''
       (\<lambda>v. nullable_at v (\<lambda>w. organization_value_at w ''thread.settledAt''))) (\<lambda>settled.
     chk (own_field thread ''sortOrder''
       (\<lambda>v. nullable_at v (\<lambda>w. sort_order_at w ''thread.sortOrder''))) (\<lambda>sort.
     chk (reject (present snoozed \<and> present settled) ''thread'') (\<lambda>_.
     Inr \<lparr>op_snoozedUntil = snoozed, op_settledAt = settled, op_sortOrder = sort\<rparr>))))"

definition thread_required_keys :: "string list" where
  "thread_required_keys =
     [''threadId'', ''owner'', ''target'', ''provider'', ''title'', ''pinned'', ''archived'', ''createdAtEpochMs'',
      ''updatedAtEpochMs'', ''turns'', ''turnsTruncated'']"

definition thread_optional_keys :: "string list" where
  "thread_optional_keys =
     [''integration'', ''viewedAtEpochMs'', ''externalOrigin'', ''snoozedUntil'', ''settledAt'', ''sortOrder'']"

definition parseAgentThread :: "jsval \<Rightarrow> agent_thread checked" where
  "parseAgentThread item =
     chk (record_at item ''thread'') (\<lambda>thread.
     chk (boundedKeys thread thread_required_keys thread_optional_keys ''thread'') (\<lambda>_.
     chk (parseProvider (js_get thread (js ''provider'')) ''thread.provider'') (\<lambda>provider.
     chk (agentTaskId (js_get thread (js ''threadId'')) ''thread.threadId'') (\<lambda>threadId.
     chk (parseOwner (js_get thread (js ''owner'')) ''thread.owner'') (\<lambda>owner.
     chk (parseTarget (js_get thread (js ''target'')) ''thread.target'') (\<lambda>target.
     chk (boundedText (js_get thread (js ''title'')) ''thread.title'' MAX_AGENT_THREAD_TITLE_BYTES False False) (\<lambda>title.
     chk (boolean_at (js_get thread (js ''pinned'')) ''thread.pinned'') (\<lambda>pinned.
     chk (parseOrganizationFields thread) (\<lambda>organization.
     chk (boolean_at (js_get thread (js ''archived'')) ''thread.archived'') (\<lambda>archived.
     chk (unsignedSafeInteger (js_get thread (js ''createdAtEpochMs'')) ''thread.createdAtEpochMs'') (\<lambda>created.
     chk (unsignedSafeInteger (js_get thread (js ''updatedAtEpochMs'')) ''thread.updatedAtEpochMs'') (\<lambda>updated.
     chk (parseTurns (js_get thread (js ''turns'')) ''thread.turns'') (\<lambda>turns.
     chk (boolean_at (js_get thread (js ''turnsTruncated'')) ''thread.turnsTruncated'') (\<lambda>trunc.
     chk (parseIntegration (js_get thread (js ''integration'')) ''thread.integration'') (\<lambda>integration.
     chk (parseViewedAt (js_get thread (js ''viewedAtEpochMs'')) ''thread.viewedAtEpochMs'') (\<lambda>viewed.
     chk (parseExternalOrigin (js_get thread (js ''externalOrigin'')) ''thread.externalOrigin'' (ps_kind provider))
       (\<lambda>origin.
     Inr \<lparr>th_historyRevision = None, th_snoozedUntil = op_snoozedUntil organization,
       th_settledAt = op_settledAt organization, th_sortOrder = op_sortOrder organization,
       th_threadId = threadId, th_owner = owner, th_target = target, th_provider = provider, th_title = title,
       th_pinned = pinned, th_archived = archived, th_createdAtEpochMs = created, th_updatedAtEpochMs = updated,
       th_turns = turns, th_turnsTruncated = trunc, th_integration = integration, th_viewedAtEpochMs = viewed,
       th_externalOrigin = origin\<rparr>)))))))))))))))))"

end
