(* ===== verification/WireThreadLaws.thy ===== *)
theory WireThreadLaws
  imports WireThread
begin

text \<open>
  A stored turn is read back as what \<open>stored_turn\<close> says, and what the parser of a turn returns is
  storable: the contracts on the parts of a turn and the \<open>saver\<close> contract on \<open>serializeTurn\<close> and
  \<open>parseTurn\<close>. A stored turn keeps its identity, prompt, status, times, sequences, transport and
  attachments; it loses what only the running editor knows, the spawn events and the detail of the
  subagent metadata, which the log keeps.
\<close>

section \<open>The parts of a turn\<close>

abbreviation "task_id_ok s \<equiv> text_ok MAX_AGENT_TASK_ID_BYTES False True s \<and> task_id_pattern s"

fun turn_status_ok :: "turn_status \<Rightarrow> bool" where
  "turn_status_ok (TaskStatus (TaskExited code)) = (-2147483648 \<le> code \<and> code \<le> 2147483647)"
| "turn_status_ok (TaskStatus (TaskFailed message)) = text_ok MAX_AGENT_TASK_FAILURE_BYTES False False message"
| "turn_status_ok _ = True"

lemma turn_id_eq_Inr: "agentTaskId item path = Inr s \<longleftrightarrow> item = JString s \<and> task_id_ok s"
  by (auto simp: agentTaskId_def boundedText_eq_Inr chk_eq_Inr)

interpretation taskId: value_codec JString agentTaskId "\<lambda>s. task_id_ok s"
  by unfold_locales (auto simp: turn_id_eq_Inr)

lemma turnStatusKind_literal [simp]: "turnStatusKind (JString (js (turn_status_literal k))) path = Inr k"
  by (cases k) (simp_all add: turnStatusKind_def member_at_def js_inject del: js_simps)

lemma exit_code_read: "-2147483648 \<le> n \<Longrightarrow> n \<le> 2147483647 \<Longrightarrow> signedExitCode (js_int n) path = Inr n"
  by (simp add: signedExitCode_eq_Inr)

lemma serialized_status:
  "turn_status_ok status \<Longrightarrow> parseTurnStatus (serializeTurnStatus status) path = Inr status"
  by (induction status rule: turn_status_ok.induct)
    (simp_all add: parseTurnStatus_def status_object_def written_keys read_back exit_code_read
      str.parse_emit del: js_simps turn_status_literal.simps)

lemma parsed_status_ok:
  assumes "parseTurnStatus item path = Inr status"
  shows "turn_status_ok status"
proof -
  from assms obtain obj kind where "record_at item path = Inr obj"
    and "turnStatusKind (js_get obj (js ''kind'')) (path @ ''.kind'') = Inr kind"
    by (auto simp: parseTurnStatus_def chk_eq_Inr)
  with assms show ?thesis
    by (cases kind) (auto simp: parseTurnStatus_def chk_eq_Inr signedExitCode_eq_Inr str.parse_good simp del: js_simps)
qed

interpretation status: value_codec serializeTurnStatus parseTurnStatus turn_status_ok
proof unfold_locales
  show "serializeTurnStatus x \<noteq> JUndefined" "serializeTurnStatus x \<noteq> JNull" for x
    by (cases x rule: serializeTurnStatus.cases; simp add: status_object_def)+
qed (simp_all add: serialized_status parsed_status_ok)

interpretation metrics: value_codec metrics_value parse_metrics_record "\<lambda>m. count_ok (sm_receivedUtf8Bytes m)"
proof unfold_locales
  show "count_ok (sm_receivedUtf8Bytes m) \<Longrightarrow> parse_metrics_record (metrics_value m) path = Inr m" for m path
    by (simp add: metrics_value_def parse_metrics_record_def written_keys read_back cnt.parse_emit flag.parse_emit
        del: js_simps)
  show "parse_metrics_record item path = Inr m \<Longrightarrow> count_ok (sm_receivedUtf8Bytes m)" for item path m
    by (auto simp: parse_metrics_record_def chk_eq_Inr cnt.parse_good)
qed (simp_all add: metrics_value_def)

definition cli_version_ok :: "js_string \<Rightarrow> bool" where
  "cli_version_ok v \<longleftrightarrow> canonicalAgentCliVersion (JString v) = Some v"

interpretation version: value_codec JString cli_version_at cli_version_ok
  by unfold_locales
    (auto simp: cli_version_at_def cli_version_ok_def canonicalAgentCliVersion_def split: option.splits if_splits)

lemma transport_read [simp]:
  "parseCodexTransport (js_opt (\<lambda>t. JString (js (codex_transport_literal t))) transport) path = Inr transport"
proof (cases transport)
  case (Some t)
  then show ?thesis
    by (cases t)
      (simp_all add: parseCodexTransport_def js_opt_def optional_at_def member_at_def js_inject del: js_simps)
qed (simp add: parseCodexTransport_def js_opt_def optional_at_def)

lemma stored_launch:
  "launch_ok options \<Longrightarrow>
    parseStoredAgentLaunchOptions (serializeAgentLaunchOptions options) path = Inr (stored_form options)"
  using parse_claude_serialized parse_codex_serialized
  by (cases options) (simp_all add: parseStoredAgentLaunchOptions_def launch_ok_def
      del: serializeAgentLaunchOptions.simps)

lemma stored_launch_ok: "parseStoredAgentLaunchOptions item path = Inr options \<Longrightarrow> launch_ok options"
  by (auto simp: parseStoredAgentLaunchOptions_def dest: parseLaunchOptions_ok)

lemma stored_form_idem [simp]: "stored_form (stored_form options) = stored_form options"
  by (cases options) simp_all

lemma serialized_launch_object [simp]:
  "serializeAgentLaunchOptions options \<noteq> JUndefined" "serializeAgentLaunchOptions options \<noteq> JNull"
  by (cases options; simp)+

interpretation launch: saver "\<lambda>x. Inr (serializeAgentLaunchOptions x)" parseStoredAgentLaunchOptions launch_ok stored_form
  by unfold_locales (simp_all add: stored_launch stored_launch_ok)

lemma launch_read:
  "pred_option launch_ok options \<Longrightarrow>
    parseLaunch (js_null serializeAgentLaunchOptions options) path = Inr (map_option stored_form options)"
  by (cases options) (simp_all add: parseLaunch_def missing_at_def nullable_at_def js_null_def stored_launch)

lemma launch_good: "parseLaunch item path = Inr options \<Longrightarrow> pred_option launch_ok options"
  by (auto simp: parseLaunch_def missing_at_def nullable_at_def chk_eq_Inr launch.parsed_good split: if_splits)

section \<open>The events of a turn\<close>

definition turn_events_ok :: "agent_turn_event list \<Rightarrow> bool" where
  "turn_events_ok events \<longleftrightarrow>
     list_all wire_event_ok events \<and> length events \<le> MAX_PERSISTED_AGENT_EVENTS_PER_TURN \<and>
     length (foldl count_thread [] events) \<le> MAX_SUBAGENT_THREADS_PER_TURN"

definition stored_events :: "agent_turn_event list \<Rightarrow> agent_turn_event list" where
  "stored_events events = map stored_event (filter isV1TurnEvent events)"

lemma count_thread_stored [simp]: "count_thread seen (stored_event e) = count_thread seen e"
  by (cases e) (simp_all add: count_thread_def)

lemma count_thread_grows: "length seen \<le> length (count_thread seen e)"
  by (auto simp: count_thread_def set_add_def split: option.split)

lemma counted_grows: "length seen \<le> length (foldl count_thread seen events)"
proof (induction events arbitrary: seen)
  case (Cons e events)
  show ?case using order_trans [OF count_thread_grows Cons.IH] by simp
qed simp

lemma counted_v1: "foldl count_thread seen (filter isV1TurnEvent events) = foldl count_thread seen events"
  by (induction events arbitrary: seen)
    (auto simp: isV1TurnEvent_def count_thread_def split: agent_turn_event.splits)

lemma events_ok_v1: "turn_events_ok events \<Longrightarrow> turn_events_ok (filter isV1TurnEvent events)"
  by (auto simp: turn_events_ok_def counted_v1 list_all_iff intro: order_trans [OF length_filter_le])

lemma events_saved:
  assumes "list_all wire_event_ok events"
    and "length (foldl count_thread seen events) \<le> MAX_SUBAGENT_THREADS_PER_TURN"
  shows "\<exists>items. emit_all serializeTurnEvent events = Inr items \<and>
    (\<forall>i path. events_from i seen items path = Inr (map stored_event events))"
  using assms
proof (induction events arbitrary: seen)
  case (Cons e events)
  from Cons.prems obtain item where item: "serializeTurnEvent e = Inr item" "\<And>path. parseTurnEvent item path = Inr (stored_event e)"
    using event.emit_good [of e] by auto
  from Cons obtain items where items: "emit_all serializeTurnEvent events = Inr items"
    "\<And>i path. events_from i (count_thread seen e) items path = Inr (map stored_event events)"
    by fastforce
  have "length (count_thread seen e) \<le> MAX_SUBAGENT_THREADS_PER_TURN"
    using Cons.prems(2) counted_grows [of "count_thread seen e" events] by simp
  with item items show ?case by (simp add: not_less)
qed simp

lemma parsed_events:
  assumes "events_from i seen items path = Inr events" and "length seen \<le> MAX_SUBAGENT_THREADS_PER_TURN"
  shows "list_all wire_event_ok events \<and> length events = length items \<and>
    length (foldl count_thread seen events) \<le> MAX_SUBAGENT_THREADS_PER_TURN"
  using assms
  by (induction items arbitrary: i seen events) (auto simp: chk_eq_Inr event.parsed_good not_less)

lemma turn_events_saved:
  assumes "turn_events_ok events"
  shows "\<exists>items. emit_all serializeTurnEvent (filter isV1TurnEvent events) = Inr items \<and>
    (\<forall>path. parseTurnEvents (JArray items) path = Inr (stored_events events))"
proof -
  have ok: "turn_events_ok (filter isV1TurnEvent events)" by (rule events_ok_v1 [OF assms])
  then obtain items where items: "emit_all serializeTurnEvent (filter isV1TurnEvent events) = Inr items"
    "\<And>i path. events_from i [] items path = Inr (stored_events events)"
    using events_saved [of "filter isV1TurnEvent events" "[]"] by (auto simp: turn_events_ok_def stored_events_def)
  with ok emit_all_length [OF items(1)] show ?thesis
    by (simp add: parseTurnEvents_def turn_events_ok_def)
qed

lemma parsed_turn_events: "parseTurnEvents item path = Inr events \<Longrightarrow> turn_events_ok events"
  using parsed_events [of 0 "[]"]
  by (fastforce simp: parseTurnEvents_def turn_events_ok_def chk_eq_Inr boundedArray_eq_Inr)

lemma stored_events_idem [simp]: "stored_events (stored_events events) = stored_events events"
proof -
  have "isV1TurnEvent e \<Longrightarrow> isV1TurnEvent (stored_event e)" for e
    by (cases e) (simp_all add: isV1TurnEvent_def)
  then have "filter isV1TurnEvent (stored_events events) = stored_events events"
    unfolding stored_events_def by (intro filter_True) auto
  then show ?thesis by (simp add: stored_events_def comp_def)
qed

section \<open>Turns\<close>

definition wire_turn_ok :: "agent_turn \<Rightarrow> bool" where
  "wire_turn_ok turn \<longleftrightarrow>
     task_id_ok (tn_turnId turn) \<and> text_ok MAX_AGENT_TASK_PROMPT_BYTES False False (tn_prompt turn) \<and>
     turn_status_ok (tn_status turn) \<and> count_ok (tn_startedAtEpochMs turn) \<and>
     pred_option count_ok (tn_endedAtEpochMs turn) \<and> turn_events_ok (tn_events turn) \<and>
     count_ok (tn_lastStatusSequence turn) \<and> count_ok (tn_lastOutputSequence turn) \<and>
     pred_option (\<lambda>m. count_ok (sm_receivedUtf8Bytes m)) (or_null (tn_streamMetrics turn)) \<and>
     pred_option lifecycle_ok (tn_subagentLifecycle turn) \<and> pred_option launch_ok (tn_launch turn) \<and>
     pred_option cli_version_ok (tn_cliVersion turn) \<and>
     pred_option attachments_ok (stored_attachments (tn_attachments turn))"

text \<open>What a turn is once it was stored and read back.\<close>

definition stored_turn :: "agent_turn \<Rightarrow> agent_turn" where
  "stored_turn turn = turn\<lparr>
     tn_origin := derivedAgentTurnOrigin (tn_prompt turn) (tn_launch turn) (tn_cliVersion turn),
     tn_events := stored_events (tn_events turn), tn_eventsRetention := None, tn_queueBoundarySequence := None,
     tn_promptRestored := None, tn_haltRequested := None, tn_haltRequest := None, tn_foregroundSettled := None,
     tn_firstEventOffset := None,
     tn_subagentLifecycle := map_option legacyAgentSubagentLifecycle (tn_subagentLifecycle turn),
     tn_streamMetrics := Some (or_null (tn_streamMetrics turn)),
     tn_launch := map_option stored_form (tn_launch turn),
     tn_attachments := stored_attachments (tn_attachments turn)\<rparr>"

definition turn_props :: "agent_turn \<Rightarrow> jsval list \<Rightarrow> jsval option \<Rightarrow> (js_string \<times> jsval) list" where
  "turn_props turn events attachments =
     js_field ''turnId'' (Some (JString (tn_turnId turn))) @
     js_field ''prompt'' (Some (JString (tn_prompt turn))) @
     js_field ''status'' (Some (serializeTurnStatus (tn_status turn))) @
     js_field ''startedAtEpochMs'' (Some (js_int (tn_startedAtEpochMs turn))) @
     js_field ''endedAtEpochMs'' (Some (js_null js_int (tn_endedAtEpochMs turn))) @
     js_field ''events'' (Some (JArray events)) @
     js_field ''eventsTruncated'' (Some (JBool (tn_eventsTruncated turn))) @
     js_field ''lastStatusSequence'' (Some (js_int (tn_lastStatusSequence turn))) @
     js_field ''lastOutputSequence'' (Some (js_int (tn_lastOutputSequence turn))) @
     js_field ''streamMetrics'' (Some (js_null metrics_value (or_null (tn_streamMetrics turn)))) @
     js_field ''subagentLifecycle''
       (map_option lifecycle_value (persistedAgentSubagentLifecycle (tn_subagentLifecycle turn))) @
     js_field ''launch'' (Some (js_null serializeAgentLaunchOptions (tn_launch turn))) @
     js_field ''cliVersion'' (Some (js_null JString (tn_cliVersion turn))) @
     js_field ''codexTransport''
       (map_option (\<lambda>t. JString (js (codex_transport_literal t))) (tn_codexTransport turn)) @
     js_field ''attachments'' attachments"

lemma turn_get:
  "js_get (turn_props turn events attachments) (js ''turnId'') = JString (tn_turnId turn)"
  "js_get (turn_props turn events attachments) (js ''prompt'') = JString (tn_prompt turn)"
  "js_get (turn_props turn events attachments) (js ''status'') = serializeTurnStatus (tn_status turn)"
  "js_get (turn_props turn events attachments) (js ''startedAtEpochMs'') = js_int (tn_startedAtEpochMs turn)"
  "js_get (turn_props turn events attachments) (js ''endedAtEpochMs'') = js_null js_int (tn_endedAtEpochMs turn)"
  "js_get (turn_props turn events attachments) (js ''events'') = JArray events"
  "js_get (turn_props turn events attachments) (js ''eventsTruncated'') = JBool (tn_eventsTruncated turn)"
  "js_get (turn_props turn events attachments) (js ''lastStatusSequence'') = js_int (tn_lastStatusSequence turn)"
  "js_get (turn_props turn events attachments) (js ''lastOutputSequence'') = js_int (tn_lastOutputSequence turn)"
  "js_get (turn_props turn events attachments) (js ''streamMetrics'') =
     js_null metrics_value (or_null (tn_streamMetrics turn))"
  "js_get (turn_props turn events attachments) (js ''subagentLifecycle'') =
     js_opt lifecycle_value (persistedAgentSubagentLifecycle (tn_subagentLifecycle turn))"
  "js_get (turn_props turn events attachments) (js ''launch'') =
     js_null serializeAgentLaunchOptions (tn_launch turn)"
  "js_get (turn_props turn events attachments) (js ''cliVersion'') = js_null JString (tn_cliVersion turn)"
  "js_get (turn_props turn events attachments) (js ''codexTransport'') =
     js_opt (\<lambda>t. JString (js (codex_transport_literal t))) (tn_codexTransport turn)"
  "js_get (turn_props turn events attachments) (js ''attachments'') = js_pick attachments JUndefined"
  unfolding turn_props_def by (simp_all add: read_back del: js_simps)

lemma turn_keys: "boundedKeys (turn_props turn events attachments) turn_required_keys turn_optional_keys path = Inr ()"
  unfolding turn_props_def turn_required_keys_def turn_optional_keys_def
  by (simp add: written_keys del: js_simps)

lemma lifecycle_read:
  assumes "pred_option lifecycle_ok lifecycle"
  shows "readAgentSubagentLifecycle (js_opt lifecycle_value (persistedAgentSubagentLifecycle lifecycle)) =
    map_option legacyAgentSubagentLifecycle lifecycle"
proof (cases lifecycle)
  case None
  then show ?thesis
    by (simp add: persistedAgentSubagentLifecycle_def js_opt_def readAgentSubagentLifecycle_def parseAgentSubagentLifecycle_def)
next
  case (Some lc)
  with assms have "lifecycle_ok lc" by simp
  then show ?thesis
    using parse_value [OF legacy_lifecycle_ok] persisted_legacy
    by (simp add: Some js_opt_def readAgentSubagentLifecycle_def)
qed

lemma derived_origin_stored [simp]:
  "derivedAgentTurnOrigin prompt (map_option stored_form launch) version = derivedAgentTurnOrigin prompt launch version"
  by (simp add: derivedAgentTurnOrigin_def)

lemma turn_saved:
  assumes "wire_turn_ok turn"
  shows "\<exists>item. serializeTurn turn = Inr item \<and> item \<noteq> JUndefined \<and> (\<forall>path. parseTurn item path = Inr (stored_turn turn))"
proof -
  obtain events where events: "emit_all serializeTurnEvent (filter isV1TurnEvent (tn_events turn)) = Inr events"
    "\<And>path. parseTurnEvents (JArray events) path = Inr (stored_events (tn_events turn))"
    using turn_events_saved assms by (auto simp: wire_turn_ok_def)
  obtain attachments where attachments: "serializeAttachments (tn_attachments turn) = Inr attachments"
    "\<And>path. parseAttachments (js_pick attachments JUndefined) path = Inr (stored_attachments (tn_attachments turn))"
    using serialized_attachments assms by (auto simp: wire_turn_ok_def)
  have written: "serializeTurn turn = Inr (JObject (turn_props turn events attachments))"
    by (simp add: serializeTurn_def events(1) attachments(1) turn_props_def del: js_simps)
  note reads = taskId.parse_emit str.parse_emit status.parse_emit cnt.parse_emit cnt.nullable_emit flag.parse_emit
    metrics.missing_emit launch_read version.missing_emit lifecycle_read
  have "parseTurnFields (JObject (turn_props turn events attachments)) path =
      Inr ((stored_turn turn)\<lparr>tn_origin := None\<rparr>)" for path
    using assms
    by (simp add: parseTurnFields_def turn_get turn_keys wire_turn_ok_def stored_turn_def reads events(2) attachments(2)
        optionalUnsignedSafeInteger_def parseStreamMetrics_def parseCliVersion_def del: js_simps)
  then have "parseTurn (JObject (turn_props turn events attachments)) path = Inr (stored_turn turn)" for path
    by (auto simp: parseTurn_def stored_turn_def split: option.split)
  with written show ?thesis by simp
qed

lemma parsed_fields_ok: "parseTurnFields item path = Inr turn \<Longrightarrow> wire_turn_ok turn"
  by (auto simp: parseTurnFields_def wire_turn_ok_def chk_eq_Inr or_null_def optionalUnsignedSafeInteger_def
      parseStreamMetrics_def parseCliVersion_def pred_option_def
      dest!: taskId.parse_good str.parse_good status.parse_good cnt.parse_good cnt.nullable_good
        metrics.missing_good launch_good version.missing_good parsed_attachments_ok parsed_turn_events read_sound)

lemma parsed_turn_ok: "parseTurn item path = Inr turn \<Longrightarrow> wire_turn_ok turn"
  by (auto simp: parseTurn_def chk_eq_Inr wire_turn_ok_def dest!: parsed_fields_ok split: option.splits)

lemma stored_turn_idem: "wire_turn_ok turn \<Longrightarrow> stored_turn (stored_turn turn) = stored_turn turn"
  by (cases "tn_subagentLifecycle turn"; cases "tn_launch turn")
    (auto simp: stored_turn_def wire_turn_ok_def or_null_def legacy_idem derivedAgentTurnOrigin_def)

interpretation turns: saver serializeTurn parseTurn wire_turn_ok stored_turn
  by unfold_locales (simp_all add: turn_saved parsed_turn_ok stored_turn_idem)

end
