(* ===== verification/WireStore.thy ===== *)
theory WireStore
  imports WireThreadLaws StoreRuns
begin

text \<open>
  The stored document of a thread and the store: a thread that was parsed is written and read back
  unchanged, saving twice stores the same, and what the parser returns is what the store may load.
\<close>

section \<open>The parts of a thread\<close>

abbreviation "stored_path_ok s \<equiv> text_ok MAX_AGENT_TASK_PATH_BYTES False False s \<and> js_trim s \<noteq> []"

definition branch_ok :: "js_string \<Rightarrow> bool" where
  "branch_ok s \<longleftrightarrow> text_ok MAX_GIT_INTEGRATION_BRANCH_BYTES False True s \<and> \<not> js_startsWith s (js ''-'') \<and>
     \<not> js_includes s (64 # js ''{'') \<and> \<not> js_includes s (js ''..'')"

interpretation path: value_codec JString stored_path "\<lambda>s. stored_path_ok s"
  by unfold_locales (auto simp: stored_path_def boundedText_eq_Inr chk_eq_Inr)

interpretation sha: value_codec JString gitSha git_sha_pattern
  by unfold_locales (auto simp: gitSha_def split: jsval.splits if_splits)

interpretation remote: value_codec JString gitRemoteName git_remote_name_pattern
  by unfold_locales (auto simp: gitRemoteName_def split: jsval.splits if_splits)

interpretation branch: value_codec JString gitBranchName branch_ok
  by unfold_locales (auto simp: gitBranchName_def branch_ok_def boundedText_eq_Inr chk_eq_Inr simp del: js_simps)

interpretation externalId: value_codec JString externalSessionId isAgentSessionId
  by unfold_locales (auto simp: externalSessionId_def split: jsval.splits if_splits)

lemma thread_literals [simp]:
  "gitIntegrationMode (JString (js (integration_mode_literal m))) path = Inr m"
  "agentTaskIsolation (JString (js (isolation_literal i))) path = Inr i"
  "agentCliKind (JString (js (cli_kind_literal k))) path = Inr k"
proof -
  show "gitIntegrationMode (JString (js (integration_mode_literal m))) path = Inr m"
    by (cases m) (simp_all add: gitIntegrationMode_def member_at_def js_inject del: js_simps)
  show "agentTaskIsolation (JString (js (isolation_literal i))) path = Inr i"
    by (cases i) (simp_all add: agentTaskIsolation_def member_at_def js_inject del: js_simps)
  show "agentCliKind (JString (js (cli_kind_literal k))) path = Inr k"
    by (cases k) (simp_all add: agentCliKind_def member_at_def js_inject del: js_simps)
qed

definition owner_ok :: "thread_owner \<Rightarrow> bool" where
  "owner_ok owner \<longleftrightarrow> text_ok MAX_AGENT_TASK_PATH_BYTES False True (ow_rootKey owner) \<and>
     text_ok MAX_AGENT_TASK_WORKSPACE_ID_BYTES False True (ow_ownerId owner) \<and> stored_path_ok (ow_repositoryRoot owner)"

definition target_ok :: "thread_target \<Rightarrow> bool" where
  "target_ok target \<longleftrightarrow>
     (case tg_isolation target of
        InPlace \<Rightarrow> tg_worktreePath target = None
      | Worktree \<Rightarrow> \<exists>p. tg_worktreePath target = Some p \<and> stored_path_ok p)"

definition integration_ok :: "thread_integration \<Rightarrow> bool" where
  "integration_ok integration \<longleftrightarrow>
     pred_option git_sha_pattern (in_lastCommitSha integration) \<and>
     pred_option (\<lambda>r. git_remote_name_pattern (pr_remote r) \<and> branch_ok (pr_branch r)) (in_pushed integration) \<and>
     pred_option (\<lambda>r. branch_ok (ir_intoBranch r) \<and> git_sha_pattern (ir_mergeSha r)) (in_integrated integration)"

definition origin_ok :: "agent_cli_kind \<Rightarrow> external_origin \<Rightarrow> bool" where
  "origin_ok kind origin \<longleftrightarrow>
     eo_provider origin = kind \<and> isAgentSessionId (eo_sessionId origin) \<and> count_ok (eo_importedAtEpochMs origin) \<and>
     pred_option (\<lambda>h. history_ok h \<and> eh_provider h = kind \<and> eh_sessionId h = eo_sessionId origin) (eo_history origin)"

interpretation owner: value_codec owner_value parseOwner owner_ok
proof unfold_locales
  show "owner_ok x \<Longrightarrow> parseOwner (owner_value x) p = Inr x" for x p
    by (simp add: owner_value_def parseOwner_def owner_ok_def written_keys read_back str.parse_emit path.parse_emit
        del: js_simps)
  show "parseOwner item p = Inr x \<Longrightarrow> owner_ok x" for item p x
    by (auto simp: parseOwner_def owner_ok_def chk_eq_Inr dest!: str.parse_good path.parse_good)
qed (simp_all add: owner_value_def)

lemma worktree_read:
  "target_ok target \<Longrightarrow>
    stored_worktree_path (js_null JString (tg_worktreePath target)) (tg_isolation target) p = Inr (tg_worktreePath target)"
  by (auto simp: target_ok_def stored_worktree_path_def js_null_def path.parse_emit split: task_isolation.splits)

interpretation target: value_codec target_value parseTarget target_ok
proof unfold_locales
  show "target_ok x \<Longrightarrow> parseTarget (target_value x) p = Inr x" for x p
    by (simp add: target_value_def parseTarget_def written_keys read_back worktree_read del: js_simps)
  show "parseTarget item p = Inr x \<Longrightarrow> target_ok x" for item p x
    by (auto simp: parseTarget_def target_ok_def chk_eq_Inr stored_worktree_path_def path.parse_good
        split: if_splits task_isolation.splits dest!: path.parse_good)
qed (simp_all add: target_value_def)

interpretation provider: value_codec provider_value parseProvider "\<lambda>x. pred_option isAgentSessionId (ps_sessionId x)"
proof unfold_locales
  show "pred_option isAgentSessionId (ps_sessionId x) \<Longrightarrow> parseProvider (provider_value x) p = Inr x" for x p
    by (simp add: provider_value_def parseProvider_def written_keys read_back del: js_simps)
  show "parseProvider item p = Inr x \<Longrightarrow> pred_option isAgentSessionId (ps_sessionId x)" for item p x
    by (auto simp: parseProvider_def chk_eq_Inr dest!: session_id_good)
qed (simp_all add: provider_value_def)

lemma push_read:
  "pred_option (\<lambda>r. git_remote_name_pattern (pr_remote r) \<and> branch_ok (pr_branch r)) receipt \<Longrightarrow>
    parseIntegrationPush (js_null push_value receipt) p = Inr receipt"
  by (cases receipt) (simp_all add: parseIntegrationPush_def nullable_at_def js_null_def push_value_def written_keys
      read_back remote.parse_emit branch.parse_emit del: js_simps)

lemma merge_read:
  "pred_option (\<lambda>r. branch_ok (ir_intoBranch r) \<and> git_sha_pattern (ir_mergeSha r)) receipt \<Longrightarrow>
    parseIntegrationMerge (js_null merge_value receipt) p = Inr receipt"
  by (cases receipt) (simp_all add: parseIntegrationMerge_def nullable_at_def js_null_def merge_value_def written_keys
      read_back sha.parse_emit branch.parse_emit del: js_simps)

lemma push_good: "parseIntegrationPush item p = Inr receipt \<Longrightarrow>
    pred_option (\<lambda>r. git_remote_name_pattern (pr_remote r) \<and> branch_ok (pr_branch r)) receipt"
  by (auto simp: parseIntegrationPush_def nullable_at_def chk_eq_Inr split: if_splits
      dest!: remote.parse_good branch.parse_good)

lemma merge_good: "parseIntegrationMerge item p = Inr receipt \<Longrightarrow>
    pred_option (\<lambda>r. branch_ok (ir_intoBranch r) \<and> git_sha_pattern (ir_mergeSha r)) receipt"
  by (auto simp: parseIntegrationMerge_def nullable_at_def chk_eq_Inr split: if_splits
      dest!: sha.parse_good branch.parse_good)

lemma missing_at_written:
  "missing_at (JObject props) parse = chk (parse (JObject props)) (\<lambda>a. Inr (Some a))"
  "missing_at JNull parse = Inr None"
  by (simp_all add: missing_at_def nullable_at_def)

lemma integration_read:
  "pred_option integration_ok integration \<Longrightarrow> parseIntegration (serializeIntegration integration) p = Inr integration"
  by (cases integration) (simp_all add: parseIntegration_def serializeIntegration_def missing_at_written
      js_null_def [of integration_value] integration_value_def integration_ok_def written_keys read_back
      optionalGitSha_def sha.nullable_emit push_read merge_read flag.parse_emit del: js_simps)

lemma integration_good: "parseIntegration item p = Inr integration \<Longrightarrow> pred_option integration_ok integration"
  by (auto simp: parseIntegration_def missing_at_def nullable_at_def [of item] chk_eq_Inr integration_ok_def
      optionalGitSha_def split: if_splits dest!: sha.nullable_good push_good merge_good)

lemma origin_history_read:
  assumes "pred_option (\<lambda>h. history_ok h \<and> eh_provider h = kind \<and> eh_sessionId h = ident) history"
  shows "parseOriginHistory (js_opt history_value history) kind ident p = Inr history"
  using assms history.emit_defined history.parse_emit
  by (cases history) (simp_all add: parseOriginHistory_def js_opt_def optional_at_def)

lemma origin_history_good: "parseOriginHistory item kind ident p = Inr history \<Longrightarrow>
    pred_option (\<lambda>h. history_ok h \<and> eh_provider h = kind \<and> eh_sessionId h = ident) history"
  by (auto simp: parseOriginHistory_def optional_at_def chk_eq_Inr split: if_splits dest!: history.parse_good)

lemma origin_saved:
  assumes "pred_option (origin_ok kind) origin"
  shows "\<exists>item. serializeExternalOrigin origin = Inr item \<and> (\<forall>p. parseExternalOrigin item p kind = Inr origin)"
proof (cases origin)
  case (Some eo)
  with assms have ok: "origin_ok kind eo" by simp
  then have "parseOriginHistory (js_opt history_value (eo_history eo)) (eo_provider eo) (eo_sessionId eo) p = Inr (eo_history eo)" for p
    by (intro origin_history_read) (simp add: origin_ok_def)
  with ok show ?thesis
    by (simp add: Some serializeExternalOrigin_def parseExternalOrigin_def missing_at_written written_keys
        read_back origin_ok_def externalId.parse_emit cnt.parse_emit del: js_simps)
qed (simp add: serializeExternalOrigin_def parseExternalOrigin_def missing_at_written)

lemma origin_good: "parseExternalOrigin item p kind = Inr origin \<Longrightarrow> pred_option (origin_ok kind) origin"
  by (auto simp: parseExternalOrigin_def missing_at_def nullable_at_def chk_eq_Inr origin_ok_def split: if_splits
      dest!: externalId.parse_good cnt.parse_good origin_history_good)

section \<open>Organization\<close>

interpretation organizationValue: value_codec js_int organization_value_at "\<lambda>n. validThreadOrganizationValue (Some n)"
  by unfold_locales
    (auto simp: organization_value_at_def safe_integer_at_eq_Inr validThreadOrganizationValue_def)

interpretation sortOrder: value_codec js_sort_order sort_order_at "\<lambda>q. validThreadSortOrder (Some q)"
  by unfold_locales
    (auto simp: sort_order_at_def js_sort_order_def split: jsval.splits option.splits if_splits)

definition organization_ok :: "agent_thread \<Rightarrow> bool" where
  "organization_ok thread \<longleftrightarrow>
     pred_option (pred_option (\<lambda>n. validThreadOrganizationValue (Some n))) (th_snoozedUntil thread) \<and>
     pred_option (pred_option (\<lambda>n. validThreadOrganizationValue (Some n))) (th_settledAt thread) \<and>
     pred_option (pred_option (\<lambda>q. validThreadSortOrder (Some q))) (th_sortOrder thread) \<and>
     \<not> (present (th_snoozedUntil thread) \<and> present (th_settledAt thread))"

text \<open>A field read with \<open>hasOwnProperty\<close>: written fields are never \<open>undefined\<close>.\<close>

lemma own_field_written:
  assumes "\<And>a. emit a \<noteq> JUndefined" and "has_key obj key \<longleftrightarrow> x \<noteq> None" and "js_get obj (js key) = js_opt emit x"
  shows "own_field obj key parse = optional_at (js_opt emit x) parse"
  using assms by (cases x) (simp_all add: own_field_def optional_at_def js_opt_def)

lemma own_field_good: "own_field obj key parse = Inr x \<Longrightarrow> (\<And>a. parse (js_get obj (js key)) = Inr a \<Longrightarrow> good a) \<Longrightarrow>
    pred_option good x"
  by (auto simp: own_field_def chk_eq_Inr split: if_splits)

section \<open>Threads\<close>

definition turns_ok :: "agent_turn list \<Rightarrow> bool" where
  "turns_ok turns \<longleftrightarrow> length turns \<le> MAX_AGENT_TURNS_PER_THREAD \<and> list_all wire_turn_ok turns \<and>
     distinct (map tn_turnId turns) \<and> list_all finished (butlast turns)"

definition wire_thread_ok :: "agent_thread \<Rightarrow> bool" where
  "wire_thread_ok thread \<longleftrightarrow>
     task_id_ok (th_threadId thread) \<and> owner_ok (th_owner thread) \<and> target_ok (th_target thread) \<and>
     pred_option isAgentSessionId (ps_sessionId (th_provider thread)) \<and>
     text_ok MAX_AGENT_THREAD_TITLE_BYTES False False (th_title thread) \<and> organization_ok thread \<and>
     count_ok (th_createdAtEpochMs thread) \<and> count_ok (th_updatedAtEpochMs thread) \<and> turns_ok (th_turns thread) \<and>
     pred_option integration_ok (th_integration thread) \<and> pred_option count_ok (th_viewedAtEpochMs thread) \<and>
     pred_option (origin_ok (ps_kind (th_provider thread))) (th_externalOrigin thread)"

definition stored_thread :: "agent_thread \<Rightarrow> agent_thread" where
  "stored_thread thread = thread\<lparr>th_historyRevision := None, th_turns := map stored_turn (th_turns thread)\<rparr>"

lemma open_before_last_None: "open_before_last i turns = None \<longleftrightarrow> list_all finished (butlast turns)"
  by (induction i turns rule: open_before_last.induct) simp_all

lemma stored_turn_frame [simp]:
  "tn_turnId (stored_turn t) = tn_turnId t" "finished (stored_turn t) = finished t"
  by (simp_all add: stored_turn_def)

lemma turns_saved:
  assumes "turns_ok turns"
  shows "\<exists>items. emit_all serializeTurn turns = Inr items \<and> (\<forall>p. parseTurns (JArray items) p = Inr (map stored_turn turns))"
proof -
  obtain items where items: "emit_all serializeTurn turns = Inr items"
    "\<And>i p. array_from i parseTurn items p = Inr (map stored_turn turns)"
    using turns.all_emit [of turns] assms by (auto simp: turns_ok_def)
  have "list_all finished (butlast (map stored_turn turns))"
    using assms by (simp add: turns_ok_def list_all_iff flip: map_butlast)
  then have "open_before_last 0 (map stored_turn turns) = None" by (simp add: open_before_last_None)
  with items assms emit_all_length [OF items(1)] show ?thesis
    by (simp add: parseTurns_def turns_ok_def comp_def)
qed

lemma parsed_turns_ok: "parseTurns item p = Inr turns \<Longrightarrow> turns_ok turns"
  by (auto simp: parseTurns_def turns_ok_def chk_eq_Inr boundedArray_eq_Inr turns.all_good open_before_last_None
      split: option.splits dest: array_from_length)

definition thread_props :: "agent_thread \<Rightarrow> jsval list \<Rightarrow> jsval \<Rightarrow> (js_string \<times> jsval) list" where
  "thread_props thread items origin =
     js_field ''threadId'' (Some (JString (th_threadId thread))) @
     js_field ''owner'' (Some (owner_value (th_owner thread))) @
     js_field ''target'' (Some (target_value (th_target thread))) @
     js_field ''provider'' (Some (provider_value (th_provider thread))) @
     js_field ''title'' (Some (JString (th_title thread))) @
     js_field ''pinned'' (Some (JBool (th_pinned thread))) @
     js_field ''snoozedUntil'' (map_option (js_null js_int) (th_snoozedUntil thread)) @
     js_field ''settledAt'' (map_option (js_null js_int) (th_settledAt thread)) @
     js_field ''sortOrder'' (map_option (js_null js_sort_order) (th_sortOrder thread)) @
     js_field ''archived'' (Some (JBool (th_archived thread))) @
     js_field ''createdAtEpochMs'' (Some (js_int (th_createdAtEpochMs thread))) @
     js_field ''updatedAtEpochMs'' (Some (js_int (th_updatedAtEpochMs thread))) @
     js_field ''turns'' (Some (JArray items)) @
     js_field ''turnsTruncated'' (Some (JBool (th_turnsTruncated thread))) @
     js_field ''integration'' (Some (serializeIntegration (th_integration thread))) @
     js_field ''viewedAtEpochMs'' (Some (js_null js_int (th_viewedAtEpochMs thread))) @
     js_field ''externalOrigin'' (Some origin)"

lemma thread_get:
  "js_get (thread_props thread items origin) (js ''threadId'') = JString (th_threadId thread)"
  "js_get (thread_props thread items origin) (js ''owner'') = owner_value (th_owner thread)"
  "js_get (thread_props thread items origin) (js ''target'') = target_value (th_target thread)"
  "js_get (thread_props thread items origin) (js ''provider'') = provider_value (th_provider thread)"
  "js_get (thread_props thread items origin) (js ''title'') = JString (th_title thread)"
  "js_get (thread_props thread items origin) (js ''pinned'') = JBool (th_pinned thread)"
  "js_get (thread_props thread items origin) (js ''snoozedUntil'') = js_opt (js_null js_int) (th_snoozedUntil thread)"
  "js_get (thread_props thread items origin) (js ''settledAt'') = js_opt (js_null js_int) (th_settledAt thread)"
  "js_get (thread_props thread items origin) (js ''sortOrder'') = js_opt (js_null js_sort_order) (th_sortOrder thread)"
  "js_get (thread_props thread items origin) (js ''archived'') = JBool (th_archived thread)"
  "js_get (thread_props thread items origin) (js ''createdAtEpochMs'') = js_int (th_createdAtEpochMs thread)"
  "js_get (thread_props thread items origin) (js ''updatedAtEpochMs'') = js_int (th_updatedAtEpochMs thread)"
  "js_get (thread_props thread items origin) (js ''turns'') = JArray items"
  "js_get (thread_props thread items origin) (js ''turnsTruncated'') = JBool (th_turnsTruncated thread)"
  "js_get (thread_props thread items origin) (js ''integration'') = serializeIntegration (th_integration thread)"
  "js_get (thread_props thread items origin) (js ''viewedAtEpochMs'') = js_null js_int (th_viewedAtEpochMs thread)"
  "js_get (thread_props thread items origin) (js ''externalOrigin'') = origin"
  unfolding thread_props_def by (simp_all add: read_back del: js_simps)

lemma thread_has:
  "has_key (thread_props thread items origin) ''snoozedUntil'' \<longleftrightarrow> th_snoozedUntil thread \<noteq> None"
  "has_key (thread_props thread items origin) ''settledAt'' \<longleftrightarrow> th_settledAt thread \<noteq> None"
  "has_key (thread_props thread items origin) ''sortOrder'' \<longleftrightarrow> th_sortOrder thread \<noteq> None"
  unfolding thread_props_def by simp_all

lemma thread_keys:
  "boundedKeys (thread_props thread items origin) thread_required_keys thread_optional_keys p = Inr ()"
  unfolding thread_props_def thread_required_keys_def thread_optional_keys_def
  by (simp add: written_keys del: js_simps)

lemma organization_read:
  assumes "organization_ok thread"
  shows "parseOrganizationFields (thread_props thread items origin) =
    Inr \<lparr>op_snoozedUntil = th_snoozedUntil thread, op_settledAt = th_settledAt thread, op_sortOrder = th_sortOrder thread\<rparr>"
proof -
  let ?obj = "thread_props thread items origin"
  have defined: "js_null js_int a \<noteq> JUndefined" "js_null js_sort_order b \<noteq> JUndefined" for a b
    by (rule organizationValue.nullable.emit_defined) (rule sortOrder.nullable.emit_defined)
  have "own_field ?obj ''snoozedUntil'' parse = optional_at (js_opt (js_null js_int) (th_snoozedUntil thread)) parse"
    "own_field ?obj ''settledAt'' parse = optional_at (js_opt (js_null js_int) (th_settledAt thread)) parse" for parse :: "jsval \<Rightarrow> int option checked"
    by (rule own_field_written [OF defined(1)]; simp add: thread_has thread_get del: js_simps)+
  moreover have "own_field ?obj ''sortOrder'' parse = optional_at (js_opt (js_null js_sort_order) (th_sortOrder thread)) parse"
    for parse :: "jsval \<Rightarrow> rat option checked"
    by (rule own_field_written [OF defined(2)]) (simp_all add: thread_has thread_get del: js_simps)
  ultimately show ?thesis
    using assms by (simp add: parseOrganizationFields_def organization_ok_def reject_def
        organizationValue.nullable.optional_emit sortOrder.nullable.optional_emit)
qed

lemma thread_saved:
  assumes "wire_thread_ok thread"
  shows "\<exists>item. serializeThreadDocument thread = Inr item \<and> parseAgentThread item = Inr (stored_thread thread)"
proof -
  obtain items where items: "emit_all serializeTurn (th_turns thread) = Inr items"
    "\<And>p. parseTurns (JArray items) p = Inr (map stored_turn (th_turns thread))"
    using turns_saved assms by (auto simp: wire_thread_ok_def)
  obtain origin where origin: "serializeExternalOrigin (th_externalOrigin thread) = Inr origin"
    "\<And>p. parseExternalOrigin origin p (ps_kind (th_provider thread)) = Inr (th_externalOrigin thread)"
    using origin_saved assms unfolding wire_thread_ok_def by blast
  have written: "serializeThreadDocument thread = Inr (JObject (thread_props thread items origin))"
    by (simp add: serializeThreadDocument_def items(1) origin(1) thread_props_def del: js_simps)
  have viewed: "parseViewedAt (js_null js_int (th_viewedAtEpochMs thread)) p = Inr (th_viewedAtEpochMs thread)" for p
    using assms cnt.nullable.emit_defined
    by (simp add: parseViewedAt_def optionalUnsignedSafeInteger_def cnt.nullable_emit wire_thread_ok_def)
  have "parseAgentThread (JObject (thread_props thread items origin)) = Inr (stored_thread thread)"
    using assms
    by (simp add: parseAgentThread_def thread_get thread_keys wire_thread_ok_def stored_thread_def provider.parse_emit
        taskId.parse_emit owner.parse_emit target.parse_emit str.parse_emit flag.parse_emit organization_read cnt.parse_emit
        items(2) integration_read viewed origin(2) del: js_simps)
  with written show ?thesis by blast
qed

lemma own_organization_good:
  "own_field obj key (\<lambda>v. nullable_at v (\<lambda>w. organization_value_at w p)) = Inr x \<Longrightarrow>
    pred_option (pred_option (\<lambda>n. validThreadOrganizationValue (Some n))) x"
  "own_field obj key (\<lambda>v. nullable_at v (\<lambda>w. sort_order_at w p)) = Inr y \<Longrightarrow>
    pred_option (pred_option (\<lambda>q. validThreadSortOrder (Some q))) y"
  by (erule own_field_good, erule organizationValue.nullable_good) (erule own_field_good, erule sortOrder.nullable_good)

lemma parsed_organization_ok:
  assumes "parseOrganizationFields obj = Inr patch"
  shows "pred_option (pred_option (\<lambda>n. validThreadOrganizationValue (Some n))) (op_snoozedUntil patch) \<and>
    pred_option (pred_option (\<lambda>n. validThreadOrganizationValue (Some n))) (op_settledAt patch) \<and>
    pred_option (pred_option (\<lambda>q. validThreadSortOrder (Some q))) (op_sortOrder patch) \<and>
    \<not> (present (op_snoozedUntil patch) \<and> present (op_settledAt patch))"
  using assms by (auto simp: parseOrganizationFields_def chk_eq_Inr
      dest!: own_organization_good)

lemma parsed_thread_ok:
  assumes "parseAgentThread item = Inr thread"
  shows "wire_thread_ok thread \<and> th_historyRevision thread = None"
  using assms
  by (auto simp: parseAgentThread_def wire_thread_ok_def organization_ok_def chk_eq_Inr parseViewedAt_def
      optionalUnsignedSafeInteger_def split: if_splits
      dest!: provider.parse_good taskId.parse_good owner.parse_good target.parse_good str.parse_good
        parsed_organization_ok cnt.parse_good cnt.nullable_good parsed_turns_ok integration_good origin_good)

lemma stored_thread_idem: "wire_thread_ok thread \<Longrightarrow> stored_thread (stored_thread thread) = stored_thread thread"
  by (auto simp: stored_thread_def wire_thread_ok_def turns_ok_def list_all_iff stored_turn_idem)

interpretation document: saver serializeThreadDocument "\<lambda>item _. parseAgentThread item" wire_thread_ok stored_thread
proof unfold_locales
  fix thread
  assume "wire_thread_ok thread"
  then obtain item where "serializeThreadDocument thread = Inr item" "parseAgentThread item = Inr (stored_thread thread)"
    using thread_saved by blast
  moreover from this have "item \<noteq> JUndefined" by (auto simp: parseAgentThread_def record_at_def)
  ultimately show "\<exists>item. serializeThreadDocument thread = Inr item \<and> item \<noteq> JUndefined \<and>
      (\<forall>path :: string. parseAgentThread item = Inr (stored_thread thread))" by blast
qed (use parsed_thread_ok stored_thread_idem in blast)+

section \<open>Saving and loading\<close>

text \<open>What storing a turn keeps for the reader.\<close>

definition said :: "agent_turn_event list \<Rightarrow> js_string list" where
  "said events = List.map_filter (\<lambda>e. case e of UserMessage m \<Rightarrow> Some (um_text m) | _ \<Rightarrow> None) events"

definition kept_turn :: "agent_turn \<Rightarrow> agent_turn \<Rightarrow> bool" where
  "kept_turn t t' \<longleftrightarrow>
     tn_turnId t' = tn_turnId t \<and> tn_prompt t' = tn_prompt t \<and> tn_status t' = tn_status t \<and>
     tn_startedAtEpochMs t' = tn_startedAtEpochMs t \<and> tn_endedAtEpochMs t' = tn_endedAtEpochMs t \<and>
     tn_eventsTruncated t' = tn_eventsTruncated t \<and> tn_lastStatusSequence t' = tn_lastStatusSequence t \<and>
     tn_lastOutputSequence t' = tn_lastOutputSequence t \<and> tn_codexTransport t' = tn_codexTransport t \<and>
     tn_cliVersion t' = tn_cliVersion t \<and> said (tn_events t') = said (tn_events t) \<and>
     filter (\<lambda>e. \<not> is_user_message e) (tn_events t') =
       filter (\<lambda>e. \<not> is_user_message e \<and> isV1TurnEvent e) (tn_events t)"

lemma stored_turn_kept: "kept_turn t (stored_turn t)"
proof -
  have "filter (\<lambda>e. \<not> is_user_message e) (stored_events events) =
      filter (\<lambda>e. \<not> is_user_message e \<and> isV1TurnEvent e) events \<and> said (stored_events events) = said events" for events
  proof (induction events)
    case (Cons e events)
    then show ?case by (cases e) (simp_all add: stored_events_def isV1TurnEvent_def said_def List.map_filter_def)
  qed (simp add: stored_events_def said_def List.map_filter_def)
  then show ?thesis by (simp add: kept_turn_def stored_turn_def)
qed


text \<open>
  C16: Saving is stable. A thread that was read from a document is saved again, whatever the document
  was; what is saved reads back as the thread's stored form, and saving that form stores the same
  thing again: repeated saves do not drift.
\<close>

theorem saves_do_not_drift:
  assumes "parseAgentThread item = Inr thread"
  shows "\<exists>saved again. serializeThreadDocument thread = Inr saved \<and> parseAgentThread saved = Inr (stored_thread thread) \<and>
    serializeThreadDocument (stored_thread thread) = Inr again \<and> parseAgentThread again = Inr (stored_thread thread)"
  using document.save_twice [OF assms] .

lemma parsed_stored_ok: "parseAgentThread item = Inr thread \<Longrightarrow> stored_ok thread"
  using parsed_thread_ok [of item thread]
  by (auto simp: wire_thread_ok_def turns_ok_def organization_ok_def stored_ok_def MAX_AGENT_TURNS_PER_THREAD_def)

text \<open>
  C17: A document that parses is a well-formed thread: its turns are bounded in number and have
  distinct identifiers, only the last may be unfinished, each holds at most 512 storable events
  that name at most 32 subagent threads, its subagent metadata is well formed, and the thread is
  not settled and snoozed at once.
\<close>

theorem parsed_thread_well_formed:
  assumes "parseAgentThread item = Inr thread"
  shows "length (th_turns thread) \<le> 64 \<and> distinct (map tn_turnId (th_turns thread)) \<and>
    list_all finished (butlast (th_turns thread)) \<and>
    (\<forall>t \<in> set (th_turns thread). list_all wire_event_ok (tn_events t) \<and> length (tn_events t) \<le> 512 \<and>
      length (foldl count_thread [] (tn_events t)) \<le> 32 \<and> pred_option lifecycle_ok (tn_subagentLifecycle t)) \<and>
    \<not> (present (th_snoozedUntil thread) \<and> present (th_settledAt thread))"
  using parsed_thread_ok [OF assms]
  by (auto simp: wire_thread_ok_def turns_ok_def organization_ok_def MAX_AGENT_TURNS_PER_THREAD_def list_all_iff
      wire_turn_ok_def turn_events_ok_def MAX_PERSISTED_AGENT_EVENTS_PER_TURN_def MAX_SUBAGENT_THREADS_PER_TURN_def)

text \<open>
  C8: What the boundary lets in, the store can take. Loading any threads that were parsed from
  documents into a reachable store succeeds, leads to a reachable and so well-formed store, and
  leaves every running thread as it was.
\<close>

theorem parsed_threads_load:
  assumes "reachable lc s" and "\<And>thread. thread \<in> set threads \<Longrightarrow> \<exists>item. parseAgentThread item = Inr thread"
  shows "\<exists>s'. agentThreadsReducer lc s (Loaded owner threads ids) = Some s' \<and> reachable lc s' \<and> threads_ok s' \<and>
    (\<forall>k th. map_of s k = Some th \<longrightarrow> runningTurn th \<noteq> None \<longrightarrow> map_of s' k = Some th)"
proof -
  have stored: "\<forall>th \<in> set threads. stored_ok th" using assms(2) parsed_stored_ok by blast
  obtain s' where s': "loadThreads s owner threads ids = Some s'" "grown s s'"
    using load_effect [OF reachable_ok [OF assms(1)] stored] by blast
  then have step: "agentThreadsReducer lc s (Loaded owner threads ids) = Some s'" by simp
  have "reachable lc s'" using reachable.after [OF assms(1) _ step] stored by simp
  with reachable_ok step s'(2) show ?thesis by (auto simp: grown_def)
qed

section \<open>Examples\<close>

text \<open>A thread with one finished turn and its stored form.\<close>

definition said_turn :: agent_turn where
  "said_turn = (plain_turn (js ''agt-2'') (TaskStatus (TaskExited 0)))
     \<lparr>tn_prompt := js ''hi'', tn_events := [UserMessage greeting, AssistantText (js ''yes'') None]\<rparr>"

definition said_thread :: agent_thread where
  "said_thread = (plain_thread (js ''agt-1'') [said_turn])
     \<lparr>th_owner := \<lparr>ow_rootKey = js ''r'', ow_ownerId = js ''o'', ow_repositoryRoot = js ''/r''\<rparr>, th_title := js ''hi''\<rparr>"

lemma said_turn_ok: "wire_turn_ok said_turn"
  by (simp add: wire_turn_ok_def said_turn_def plain_turn_def text_ok_def task_limits task_id_pattern_def lower_alnum_def
      control_unit_def count_ok_def isSafeInteger_def max_safe_integer_def turn_events_ok_def count_thread_def
      MAX_AGENT_EVENT_TEXT_BYTES_def or_null_def stored_attachments_def MAX_PERSISTED_AGENT_EVENTS_PER_TURN_def)

lemma said_thread_ok: "wire_thread_ok said_thread"
  by (simp add: wire_thread_ok_def said_thread_def plain_thread_def said_turn_ok turns_ok_def owner_ok_def target_ok_def
      organization_ok_def present_def text_ok_def task_limits task_id_pattern_def lower_alnum_def control_unit_def
      count_ok_def isSafeInteger_def max_safe_integer_def MAX_AGENT_TURNS_PER_THREAD_def MAX_AGENT_THREAD_TITLE_BYTES_def)
    (simp add: js_trim_def js_trimStart_def js_trimEnd_def is_js_space_def)

lemma said_document: "\<exists>item. parseAgentThread item = Inr (stored_thread said_thread)"
  using thread_saved [OF said_thread_ok] by blast


lemma saves_do_not_drift_witness:
  "\<exists>again. serializeThreadDocument (stored_thread (stored_thread said_thread)) = Inr again \<and>
    parseAgentThread again = Inr (stored_thread (stored_thread said_thread))"
proof -
  obtain item where "parseAgentThread item = Inr (stored_thread said_thread)" using said_document by blast
  from saves_do_not_drift [OF this] show ?thesis by blast
qed

lemma parsed_thread_well_formed_witness: "length (th_turns (stored_thread said_thread)) \<le> 64"
proof -
  obtain item where "parseAgentThread item = Inr (stored_thread said_thread)" using said_document by blast
  from parsed_thread_well_formed [OF this] show ?thesis by blast
qed

lemma parsed_threads_load_witness:
  "\<exists>s'. agentThreadsReducer unit_compare live_store (Loaded \<lparr>lo_rootKey = [], lo_ownerId = []\<rparr> [stored_thread said_thread] None) = Some s' \<and>
    map_of s' [1] = Some live_thread"
proof -
  have "\<exists>s'. agentThreadsReducer unit_compare live_store (Loaded \<lparr>lo_rootKey = [], lo_ownerId = []\<rparr> [stored_thread said_thread] None) = Some s' \<and>
      reachable unit_compare s' \<and> threads_ok s' \<and>
      (\<forall>k th. map_of live_store k = Some th \<longrightarrow> runningTurn th \<noteq> None \<longrightarrow> map_of s' k = Some th)"
    by (rule parsed_threads_load [OF live_reachable]) (use said_document in simp)
  then show ?thesis using live_lookup live_running(1) by auto
qed

end
