(* ===== verification/PromptClip.thy ===== *)
theory PromptClip
  imports Utf8
begin

text \<open>
  Clipping the prompt of a stored turn, \<open>src/domain/agentPromptClipping.ts\<close>: text is cut between
  characters, a clipped prompt carries a marker, and the log of the turn gives the prompt back.
\<close>

section \<open>Clipping text\<close>

text \<open>The \<open>utf8ByteLength\<close> of this file measures the encoded text.\<close>

definition encodedUtf8ByteLength :: "js_string \<Rightarrow> nat" where
  "encodedUtf8ByteLength content = length (utf8_encode content)"

lemma encodedUtf8ByteLength_eq [simp]: "encodedUtf8ByteLength content = utf8ByteLength content"
  by (simp add: encodedUtf8ByteLength_def length_utf8_encode)

text \<open>\<open>String.prototype.codePointAt\<close>.\<close>

definition js_codePointAt :: "js_string \<Rightarrow> nat \<Rightarrow> nat option" where
  "js_codePointAt content i =
     (if i \<ge> length content then None
      else if is_high (content ! i) \<and> isLowSurrogateAt content (Suc i)
      then Some (point_scalar [content ! i, content ! Suc i])
      else Some (unat (content ! i)))"

definition utf8Width :: "nat \<Rightarrow> nat" where
  "utf8Width codePoint =
     (if codePoint < 128 then 1 else if codePoint < 2048 then 2 else if codePoint < 65536 then 3 else 4)"

text \<open>
  The loop of \<open>clipUtf8Text\<close>: the first argument is the text from the loop's index on, the result
  is how many code units the index still advances.
\<close>

function clip_units :: "js_string \<Rightarrow> nat \<Rightarrow> nat \<Rightarrow> nat" where
  "clip_units rest bytes limitBytes =
     (case js_codePointAt rest 0 of
        None \<Rightarrow> 0
      | Some codePoint \<Rightarrow>
          let width = utf8Width codePoint; step = (if codePoint > 65535 then 2 else 1) in
          if bytes + width > limitBytes then 0
          else step + clip_units (drop step rest) (bytes + width) limitBytes)"
  by pat_completeness auto
termination
  by (relation "measure (\<lambda>(rest, _). length rest)") (auto simp: js_codePointAt_def split: if_splits)

declare clip_units.simps [simp del]

definition clipUtf8Text :: "js_string \<Rightarrow> nat \<Rightarrow> js_string" where
  "clipUtf8Text content limitBytes =
     (if limitBytes \<le> 0 then [] else take (clip_units content 0 limitBytes) content)"

section \<open>Prompts\<close>

definition CLIPPED_AGENT_PROMPT_PREFIX_BYTES :: nat where "CLIPPED_AGENT_PROMPT_PREFIX_BYTES = 512"

definition CLIPPED_AGENT_PROMPT_MARKER :: js_string where
  "CLIPPED_AGENT_PROMPT_MARKER = 8230 # js ''[prompt clipped; the full prompt is in this turn's log]''"

definition CLIPPED_AGENT_PROMPT_MARKER_BYTES :: nat where
  "CLIPPED_AGENT_PROMPT_MARKER_BYTES = encodedUtf8ByteLength CLIPPED_AGENT_PROMPT_MARKER"

definition CLIPPED_AGENT_PROMPT_MIN_SOURCE_BYTES :: nat where
  "CLIPPED_AGENT_PROMPT_MIN_SOURCE_BYTES =
     CLIPPED_AGENT_PROMPT_PREFIX_BYTES + CLIPPED_AGENT_PROMPT_MARKER_BYTES"

definition clipAgentPromptForPersistence :: "js_string \<Rightarrow> js_string option" where
  "clipAgentPromptForPersistence prompt =
     (if encodedUtf8ByteLength prompt \<le> CLIPPED_AGENT_PROMPT_MIN_SOURCE_BYTES then None
      else Some (clipUtf8Text prompt CLIPPED_AGENT_PROMPT_PREFIX_BYTES @ CLIPPED_AGENT_PROMPT_MARKER))"

definition js_endsWith :: "js_string \<Rightarrow> js_string \<Rightarrow> bool" where
  "js_endsWith s p \<longleftrightarrow> length p \<le> length s \<and> drop (length s - length p) s = p"

definition agentPromptLooksClipped :: "js_string \<Rightarrow> bool" where
  "agentPromptLooksClipped prompt \<longleftrightarrow> js_endsWith prompt CLIPPED_AGENT_PROMPT_MARKER"

definition restoreAgentPromptFromLog :: "js_string \<Rightarrow> js_string \<Rightarrow> js_string option" where
  "restoreAgentPromptFromLog jsonPrompt logPrompt =
     (if \<not> agentPromptLooksClipped jsonPrompt then None
      else
        let body = js_slice jsonPrompt 0 (length jsonPrompt - length CLIPPED_AGENT_PROMPT_MARKER) in
        if \<not> js_startsWith logPrompt body then None
        else if encodedUtf8ByteLength logPrompt \<le> encodedUtf8ByteLength jsonPrompt then None
        else Some logPrompt)"

section \<open>What a clip keeps\<close>

text \<open>The longest run of whole characters within a budget.\<close>

fun fitting_points :: "js_string list \<Rightarrow> nat \<Rightarrow> js_string list" where
  "fitting_points [] limit = []"
| "fitting_points (p # ps) limit =
     (if utf8ByteLength p \<le> limit then p # fitting_points ps (limit - utf8ByteLength p) else [])"

lemma pair_point:
  "is_high h \<Longrightarrow> is_low l \<Longrightarrow> 65536 \<le> point_scalar [h, l]"
  by (rule point_scalar_pair(2))

lemma clip_units_points:
  "bytes \<le> limit \<Longrightarrow> take (clip_units s bytes limit) s = concat (fitting_points (js_points s) (limit - bytes))"
proof (induction s arbitrary: bytes rule: js_points.induct)
  case 1
  show ?case by (simp add: clip_units.simps [of "[]"] js_codePointAt_def)
next
  case (2 u us)
  show ?case
  proof (cases "is_high u \<and> isLowSurrogateAt us 0")
    case True
    then obtain l r where us: "us = l # r" and l: "is_low l" by (cases us) auto
    have point: "js_codePointAt (u # us) 0 = Some (point_scalar [u, l])"
      using True us l by (simp add: js_codePointAt_def isLowSurrogateAt_def)
    have wide: "65536 \<le> point_scalar [u, l]" using True l by (simp add: pair_point)
    have "\<not> unat u < 128" "\<not> unat u < 2048" using True by (simp_all add: is_high_def surrogate_defs)
    then have four: "utf8ByteLength [u, l] = 4" using True l by simp
    have "take (clip_units r (bytes + 4) limit) r = concat (fitting_points (js_points r) (limit - (bytes + 4)))"
      if "bytes + 4 \<le> limit" using 2(1) [of "bytes + 4"] True us that by simp
    then show ?thesis
      using True l 2(3) four wide point unfolding us clip_units.simps [of "u # l # r"]
      by (auto simp: utf8Width_def Let_def simp del: point_scalar.simps utf8ByteLength.simps)
  next
    case False
    have point: "js_codePointAt (u # us) 0 = Some (unat u)"
      using False by (cases us) (auto simp: js_codePointAt_def isLowSurrogateAt_def)
    have width: "utf8ByteLength [u] = utf8Width (unat u)"
      using unit_bound [of u] by (auto simp: utf8Width_def)
    have narrow: "\<not> 65535 < unat u" using unit_bound [of u] by simp
    have "take (clip_units us (bytes + utf8Width (unat u)) limit) us =
        concat (fitting_points (js_points us) (limit - (bytes + utf8Width (unat u))))"
      if "bytes + utf8Width (unat u) \<le> limit" using 2(2) [OF False that] .
    then show ?thesis
      using False 2(3) narrow unfolding clip_units.simps [of "u # us"] point
      by (auto simp: Let_def width simp del: utf8ByteLength.simps)
  qed
qed

lemma clipUtf8Text_points: "clipUtf8Text content limit = concat (fitting_points (js_points content) limit)"
proof (cases "limit = 0")
  case True
  have "utf8ByteLength p \<noteq> 0" if "p \<in> set (js_points content)" for p
    using that by (induction content rule: js_points.induct) (auto split: if_splits)
  then have "fitting_points (js_points content) 0 = []" by (cases "js_points content") auto
  with True show ?thesis by (simp add: clipUtf8Text_def)
next
  case False
  then show ?thesis using clip_units_points [of 0 limit content] by (simp add: clipUtf8Text_def)
qed

text \<open>Bytes add up over whole characters.\<close>

lemma utf8ByteLength_points:
  "utf8ByteLength (concat (take k (js_points s))) = sum_list (map utf8ByteLength (take k (js_points s)))"
proof (induction s arbitrary: k rule: js_points.induct)
  case (2 u us)
  show ?case
  proof (cases k)
    case (Suc m)
    show ?thesis
    proof (cases "is_high u \<and> isLowSurrogateAt us 0")
      case True
      then obtain l r where us: "us = l # r" and l: "is_low l" by (cases us) auto
      have "\<not> unat u < 128" "\<not> unat u < 2048" using True by (simp_all add: is_high_def surrogate_defs)
      with 2(1) [OF True, of m] True l show ?thesis by (simp add: us Suc)
    next
      case False
      have next_low: "isLowSurrogateAt (concat (take m (js_points us))) 0 \<Longrightarrow> isLowSurrogateAt us 0"
        by (cases us; cases m) (auto simp: isLowSurrogateAt_def split: if_splits)
      with 2(2) [OF False, of m] False show ?thesis by (auto simp: Suc)
    qed
  qed simp
qed simp

lemma fitting_points_prefix:
  "\<exists>k \<le> length ps. fitting_points ps limit = take k ps \<and> sum_list (map utf8ByteLength (take k ps)) \<le> limit \<and>
     (k = length ps \<or> limit < sum_list (map utf8ByteLength (take (Suc k) ps)))"
proof (induction ps arbitrary: limit)
  case (Cons p ps)
  show ?case
  proof (cases "utf8ByteLength p \<le> limit")
    case True
    obtain k where "k \<le> length ps" "fitting_points ps (limit - utf8ByteLength p) = take k ps"
      "sum_list (map utf8ByteLength (take k ps)) \<le> limit - utf8ByteLength p"
      "k = length ps \<or> limit - utf8ByteLength p < sum_list (map utf8ByteLength (take (Suc k) ps))"
      using Cons.IH by blast
    with True show ?thesis by (intro exI [of _ "Suc k"]) auto
  next
    case False
    then show ?thesis by (intro exI [of _ 0]) simp
  qed
qed simp

text \<open>
  Clipping keeps the longest prefix of whole characters that fits the budget, on every text,
  unpaired surrogates included: no character is cut and one more would pass the limit.
\<close>

theorem clipUtf8Text_longest_prefix:
  "\<exists>k \<le> length (js_points content).
     clipUtf8Text content limit = concat (take k (js_points content)) \<and>
     utf8ByteLength (clipUtf8Text content limit) \<le> limit \<and>
     (k = length (js_points content) \<or> limit < utf8ByteLength (concat (take (Suc k) (js_points content))))"
  using fitting_points_prefix [of "js_points content" limit]
  unfolding clipUtf8Text_points by (metis utf8ByteLength_points)

lemma clip_bytes: "utf8ByteLength (clipUtf8Text content limit) \<le> limit"
  using fitting_points_prefix [of "js_points content" limit]
  unfolding clipUtf8Text_points by (metis utf8ByteLength_points)

lemma clip_prefix: "\<exists>rest. content = clipUtf8Text content limit @ rest"
  using fitting_points_prefix [of "js_points content" limit]
  unfolding clipUtf8Text_points by (metis append_take_drop_id concat_append concat_js_points)

lemma clipped_prompt_facts:
  assumes "clipAgentPromptForPersistence prompt = Some stored"
  shows "agentPromptLooksClipped stored \<and> utf8ByteLength stored < utf8ByteLength prompt \<and>
    clipAgentPromptForPersistence stored = None \<and> restoreAgentPromptFromLog stored prompt = Some prompt"
proof -
  let ?body = "clipUtf8Text prompt CLIPPED_AGENT_PROMPT_PREFIX_BYTES"
  have stored: "stored = ?body @ CLIPPED_AGENT_PROMPT_MARKER"
    and long: "CLIPPED_AGENT_PROMPT_PREFIX_BYTES + utf8ByteLength CLIPPED_AGENT_PROMPT_MARKER < utf8ByteLength prompt"
    using assms by (auto simp: clipAgentPromptForPersistence_def CLIPPED_AGENT_PROMPT_MIN_SOURCE_BYTES_def
        CLIPPED_AGENT_PROMPT_MARKER_BYTES_def split: if_splits)
  have bytes: "utf8ByteLength stored \<le> CLIPPED_AGENT_PROMPT_MIN_SOURCE_BYTES"
    using utf8ByteLength_append_le [of ?body CLIPPED_AGENT_PROMPT_MARKER]
      clip_bytes [of prompt CLIPPED_AGENT_PROMPT_PREFIX_BYTES]
    unfolding stored CLIPPED_AGENT_PROMPT_MIN_SOURCE_BYTES_def CLIPPED_AGENT_PROMPT_MARKER_BYTES_def by simp
  with long have shorter: "utf8ByteLength stored < utf8ByteLength prompt"
    by (simp add: CLIPPED_AGENT_PROMPT_MIN_SOURCE_BYTES_def CLIPPED_AGENT_PROMPT_MARKER_BYTES_def)
  have "js_startsWith prompt ?body"
    using clip_prefix [of prompt CLIPPED_AGENT_PROMPT_PREFIX_BYTES]
    by (metis append_eq_conv_conj js_startsWith_def)
  moreover have "js_slice stored 0 (length stored - length CLIPPED_AGENT_PROMPT_MARKER) = ?body"
    by (simp add: stored js_slice_def)
  moreover have clipped: "agentPromptLooksClipped stored"
    by (simp add: agentPromptLooksClipped_def js_endsWith_def stored)
  ultimately show ?thesis
    using bytes shorter by (simp add: restoreAgentPromptFromLog_def clipAgentPromptForPersistence_def)
qed

text \<open>
  C21: A clipped prompt is restored from the log. The stored prompt is
  shorter; the stored prompt is recognised as clipped, is not clipped again, and comparing it with the logged prompt
  gives the whole prompt back.
\<close>

theorem clipped_prompt_restored:
  assumes "clipAgentPromptForPersistence prompt = Some stored"
  shows "agentPromptLooksClipped stored \<and> utf8ByteLength stored < utf8ByteLength prompt \<and>
    clipAgentPromptForPersistence stored = None \<and> restoreAgentPromptFromLog stored prompt = Some prompt"
  using clipped_prompt_facts [OF assms] .

lemma clipped_prompt_restored_witness:
  "restoreAgentPromptFromLog (clipUtf8Text (replicate 600 113) 512 @ CLIPPED_AGENT_PROMPT_MARKER) (replicate 600 113) =
     Some (replicate 600 113)"
proof -
  have bytes: "utf8ByteLength (replicate n 113) = n" for n by (induction n) simp_all
  have "utf8ByteLength CLIPPED_AGENT_PROMPT_MARKER = 58"
    by (simp add: CLIPPED_AGENT_PROMPT_MARKER_def)
  then have "clipAgentPromptForPersistence (replicate 600 113) =
      Some (clipUtf8Text (replicate 600 113) 512 @ CLIPPED_AGENT_PROMPT_MARKER)"
    by (simp add: clipAgentPromptForPersistence_def CLIPPED_AGENT_PROMPT_MIN_SOURCE_BYTES_def
        CLIPPED_AGENT_PROMPT_MARKER_BYTES_def CLIPPED_AGENT_PROMPT_PREFIX_BYTES_def bytes)
  then show ?thesis using clipped_prompt_restored by blast
qed

end
