(* ===== verification/JsonText.thy ===== *)
theory JsonText
  imports Json JsNumber Utf8
begin

text \<open>
  \<open>JSON.stringify\<close> on the values the thread store writes, from the ECMAScript standard: numbers in
  their shortest decimal form, strings with control characters and unpaired surrogates escaped,
  objects without their undefined properties. A value that has no text (\<open>undefined\<close>, a function) is
  \<open>None\<close>.
\<close>

section \<open>Numbers\<close>

fun decimal_int :: "int \<Rightarrow> string" where
  "decimal_int n = (if n < 10 then [char_of (48 + n)] else decimal_int (n div 10) @ [char_of (48 + n mod 10)])"

declare decimal_int.simps [simp del]

text \<open>The exponent \<open>n\<close> with \<open>10 ^ (n - 1) \<le> x < 10 ^ n\<close>, for positive \<open>x\<close>.\<close>

definition decimal_exponent :: "rat \<Rightarrow> int" where
  "decimal_exponent x =
     (if 1 \<le> x then int (length (decimal_int \<lfloor>x\<rfloor>))
      else 1 - int (length (decimal_int (\<lceil>1 / x\<rceil> - 1))))"

text \<open>
  The candidates with \<open>k\<close> digits, the nearer first: the integers on both sides of
  \<open>x / 10 ^ (n - k)\<close> that are read back as \<open>x\<close>.
\<close>

definition shortest_with :: "rat \<Rightarrow> nat \<Rightarrow> int option" where
  "shortest_with x k =
     (let scale = 10 powi (decimal_exponent x - int k); low = \<lfloor>x / scale\<rfloor>; high = low + 1;
        ordered = (if x / scale - of_int low \<le> 1 / 2 then [low, high] else [high, low]) in
      List.find (\<lambda>s. 0 < s \<and> fl (of_int s * scale) = x) ordered)"

fun shortest_from :: "rat \<Rightarrow> nat \<Rightarrow> nat \<Rightarrow> nat \<times> int" where
  "shortest_from x k fuel =
     (case shortest_with x k of
        Some s \<Rightarrow> (k, s)
      | None \<Rightarrow> (case fuel of 0 \<Rightarrow> (k, \<lfloor>x / 10 powi (decimal_exponent x - int k)\<rfloor>)
                  | Suc f \<Rightarrow> shortest_from x (Suc k) f))"

declare shortest_from.simps [simp del]

definition strip_zeros :: "string \<Rightarrow> string" where
  "strip_zeros digits = rev (dropWhile (\<lambda>c. c = CHR ''0'') (rev digits))"

text \<open>Seventeen digits determine a double, so the search ends within them.\<close>

definition number_digits :: "rat \<Rightarrow> string \<times> int" where
  "number_digits x =
     (let (k, s) = shortest_from x 1 16; digits = decimal_int s in
      (strip_zeros digits, decimal_exponent x - int k + int (length digits)))"

text \<open>\<open>Number::toString\<close> of a positive finite double, by the place of the decimal point.\<close>

definition positive_text :: "rat \<Rightarrow> string" where
  "positive_text x =
     (let (digits, n) = number_digits x; k = int (length digits) in
      if k \<le> n \<and> n \<le> 21 then digits @ replicate (nat (n - k)) (CHR ''0'')
      else if 0 < n \<and> n \<le> 21 then take (nat n) digits @ ''.'' @ drop (nat n) digits
      else if -6 < n \<and> n \<le> 0 then ''0.'' @ replicate (nat (- n)) (CHR ''0'') @ digits
      else
        let e = n - 1; suffix = (if e < 0 then ''e-'' else ''e+'') @ decimal_int \<bar>e\<bar> in
        if length digits = 1 then digits @ suffix
        else take 1 digits @ ''.'' @ drop 1 digits @ suffix)"

definition number_text :: "rat \<Rightarrow> js_string" where
  "number_text q =
     (let x = fl q in
      js (if x = 0 then ''0'' else if x < 0 then ''-'' @ positive_text (- x) else positive_text x))"

section \<open>Strings\<close>

definition hex_digit :: "nat \<Rightarrow> js_unit" where
  "hex_digit d = word_of_nat (if d < 10 then 48 + d else 87 + d)"

definition unicode_escape :: "js_unit \<Rightarrow> js_string" where
  "unicode_escape u =
     (let c = unat u in
      [92, 117, hex_digit (c div 4096), hex_digit (c div 256 mod 16), hex_digit (c div 16 mod 16), hex_digit (c mod 16)])"

definition quoted_unit :: "js_unit \<Rightarrow> js_string" where
  "quoted_unit u =
     (if u = 8 then [92, 98] else if u = 9 then [92, 116] else if u = 10 then [92, 110]
      else if u = 12 then [92, 102] else if u = 13 then [92, 114]
      else if u = 34 \<or> u = 92 then [92, u]
      else if unat u < 32 \<or> is_high u \<or> is_low u then unicode_escape u
      else [u])"

definition quoted_point :: "js_string \<Rightarrow> js_string" where
  "quoted_point p = (case p of [u] \<Rightarrow> quoted_unit u | _ \<Rightarrow> p)"

definition quote :: "js_string \<Rightarrow> js_string" where
  "quote s = [34] @ concat (map quoted_point (js_points s)) @ [34]"

section \<open>Values\<close>

fun separated :: "js_string list \<Rightarrow> js_string" where
  "separated [] = []"
| "separated [x] = x"
| "separated (x # xs) = x @ [44] @ separated xs"

fun member_texts :: "(js_string \<times> js_string option) list \<Rightarrow> js_string list" where
  "member_texts [] = []"
| "member_texts ((key, Some t) # rest) = (quote key @ [58] @ t) # member_texts rest"
| "member_texts ((key, None) # rest) = member_texts rest"

primrec stringify :: "jsval \<Rightarrow> js_string option" where
  "stringify JUndefined = None"
| "stringify JNull = Some (js ''null'')"
| "stringify (JBool b) = Some (js (if b then ''true'' else ''false''))"
| "stringify (JNumber n) = Some (case n of None \<Rightarrow> js ''null'' | Some q \<Rightarrow> number_text q)"
| "stringify (JString s) = Some (quote s)"
| "stringify (JArray items) =
     Some ([91] @ separated (map (\<lambda>t. case t of None \<Rightarrow> js ''null'' | Some t \<Rightarrow> t) (map stringify items)) @ [93])"
| "stringify (JObject props) = Some ([123] @ separated (member_texts (map (map_prod id stringify) props)) @ [125])"
| "stringify JOther = None"

text \<open>The text of a value that has one, and its size as a file.\<close>

definition json_text :: "jsval \<Rightarrow> js_string" where
  "json_text item = (case stringify item of None \<Rightarrow> js ''undefined'' | Some t \<Rightarrow> t)"

definition json_bytes :: "jsval \<Rightarrow> nat" where
  "json_bytes item = length (utf8_encode (json_text item))"

lemma json_bytes_text: "json_bytes item = utf8ByteLength (json_text item)"
  by (simp add: json_bytes_def length_utf8_encode)

end
