(* ===== verification/JsonBytes.thy ===== *)
theory JsonBytes
  imports JsonText
begin

text \<open>
  The size of a JSON text is the sum of the sizes of its parts: every part of an array or an object
  is delimited by ASCII characters, so no surrogate pair can form across a boundary. What a store
  saves by replacing one property is the difference of the two properties.
\<close>

lemma json_ascii_bytes [simp]:
  "unat (c :: js_unit) < 128 \<Longrightarrow> utf8ByteLength (c # s) = 1 + utf8ByteLength s"
  by simp

lemma bytes_ascii_last: "unat c < 128 \<Longrightarrow> utf8ByteLength (s @ [c]) = utf8ByteLength s + 1"
  using utf8ByteLength_append_ascii [of c s "[]"] by simp

fun separated_bytes :: "js_string list \<Rightarrow> nat" where
  "separated_bytes [] = 0"
| "separated_bytes [x] = utf8ByteLength x"
| "separated_bytes (x # xs) = utf8ByteLength x + 1 + separated_bytes xs"

lemma separated_bytes_eq: "utf8ByteLength (separated xs) = separated_bytes xs"
  by (induction xs rule: separated.induct) (simp_all add: utf8ByteLength_append_ascii)

lemma separated_bytes_sum:
  "xs \<noteq> [] \<Longrightarrow> separated_bytes xs + 1 = sum_list (map (\<lambda>x. utf8ByteLength x + 1) xs)"
  by (induction xs rule: separated_bytes.induct) simp_all

lemma separated_bytes_count:
  "int (separated_bytes xs) = sum_list (map (\<lambda>x. int (utf8ByteLength x) + 1) xs) - (if xs = [] then 0 else 1)"
  by (induction xs rule: separated_bytes.induct) simp_all

definition element_text :: "jsval \<Rightarrow> js_string" where
  "element_text item = (case stringify item of None \<Rightarrow> js ''null'' | Some t \<Rightarrow> t)"

lemma array_bytes: "json_bytes (JArray items) = 2 + separated_bytes (map element_text items)"
proof -
  have "json_text (JArray items) = 91 # separated (map element_text items) @ [93]"
    by (simp add: json_text_def element_text_def [abs_def] comp_def)
  then show ?thesis by (simp add: json_bytes_text bytes_ascii_last separated_bytes_eq)
qed

lemma object_bytes:
  "json_bytes (JObject props) = 2 + separated_bytes (member_texts (map (map_prod id stringify) props))"
  by (simp add: json_bytes_text json_text_def bytes_ascii_last separated_bytes_eq)

lemma member_texts_append: "member_texts (as @ bs) = member_texts as @ member_texts bs"
  by (induction as rule: member_texts.induct) simp_all

lemma member_bytes:
  "utf8ByteLength (quote key @ [58] @ t) = utf8ByteLength (quote key) + 1 + utf8ByteLength t"
  using utf8ByteLength_append_ascii [of 58 "quote key" t] by simp

text \<open>Replacing one property, or one element, changes the size by the difference.\<close>

lemma object_replace:
  assumes "stringify old \<noteq> None" and "stringify new \<noteq> None"
  shows "int (json_bytes (JObject (as @ (key, new) # bs))) =
    int (json_bytes (JObject (as @ (key, old) # bs))) + (int (json_bytes new) - int (json_bytes old))"
proof -
  obtain t u where t: "stringify old = Some t" "stringify new = Some u" using assms by auto
  then have sizes: "json_bytes old = utf8ByteLength t" "json_bytes new = utf8ByteLength u"
    by (simp_all add: json_bytes_text json_text_def)
  show ?thesis
    by (simp add: object_bytes member_texts_append t sizes separated_bytes_count member_bytes del: append.simps)
qed

lemma array_count:
  "int (json_bytes (JArray items)) =
     2 + sum_list (map (\<lambda>item. int (utf8ByteLength (element_text item)) + 1) items) - (if items = [] then 0 else 1)"
  by (simp add: array_bytes separated_bytes_count comp_def)

lemma element_bytes: "stringify item \<noteq> None \<Longrightarrow> utf8ByteLength (element_text item) = json_bytes item"
  by (auto simp: element_text_def json_bytes_text json_text_def)

end
