(* ===== verification/TailSelection.thy ===== *)
theory TailSelection
  imports Merge "HOL-Library.Extended_Nat"
begin

text \<open>
  Choosing the part of a turn that is stored, \<open>src/domain/agentTurnTailSelection.ts\<close>: the closing
  result and the last reply first, then the user's messages, the other replies and everything else,
  each from the newest back, as long as the budget of events, bytes and subagent threads allows. The
  selection is a set of indices into the turn's events. \<open>Number.POSITIVE_INFINITY\<close> is \<open>\<infinity>\<close>.
\<close>

section \<open>Budgets\<close>

record tail_budget =
  bg_maxEvents :: nat
  bg_maxBytes :: enat
  bg_eventBytes :: "agent_turn_event \<Rightarrow> nat"

fun isAgentMainReply :: "agent_turn_event \<Rightarrow> bool" where
  "isAgentMainReply (AssistantText _ None) = True"
| "isAgentMainReply _ = False"

fun is_result :: "agent_turn_event \<Rightarrow> bool" where
  "is_result (Result _) = True"
| "is_result _ = False"

definition distinctSubagentThreads :: "agent_turn_event list \<Rightarrow> nat" where
  "distinctSubagentThreads events =
     length (foldl (\<lambda>threads event.
       case event_agentThreadId event of None \<Rightarrow> threads | Some thread \<Rightarrow> set_add thread threads) [] events)"

definition agentTurnTailFits :: "agent_turn_event list \<Rightarrow> tail_budget \<Rightarrow> bool" where
  "agentTurnTailFits events budget \<longleftrightarrow>
     (if length events > bg_maxEvents budget then False
      else if distinctSubagentThreads events > MAX_SUBAGENT_THREADS_PER_TURN then False
      else enat (sum_list (map (bg_eventBytes budget) events)) \<le> bg_maxBytes budget)"

section \<open>The selection\<close>

record tail_selection =
  sel_kept :: "nat js_set"
  sel_threads :: "(js_string, int) js_map"
  sel_bytes :: int

definition empty_selection :: tail_selection where
  "empty_selection = \<lparr>sel_kept = [], sel_threads = [], sel_bytes = 0\<rparr>"

definition sel_has :: "tail_selection \<Rightarrow> nat \<Rightarrow> bool" where
  "sel_has sel index \<longleftrightarrow> index \<in> set (sel_kept sel)"

definition sel_full :: "tail_budget \<Rightarrow> tail_selection \<Rightarrow> bool" where
  "sel_full budget sel \<longleftrightarrow> length (sel_kept sel) \<ge> bg_maxEvents budget"

text \<open>\<open>new Set(indices)\<close>.\<close>

definition js_set_of :: "'a list \<Rightarrow> 'a js_set" where
  "js_set_of xs = foldl (\<lambda>s x. set_add x s) [] xs"

definition fresh_threads :: "agent_turn_event list \<Rightarrow> tail_selection \<Rightarrow> nat list \<Rightarrow> js_string js_set" where
  "fresh_threads events sel added =
     foldl (\<lambda>fresh index.
       case event_agentThreadId (events ! index) of
         None \<Rightarrow> fresh
       | Some thread \<Rightarrow>
           if map_of (sel_threads sel) thread = None then set_add thread fresh else fresh) [] added"

definition threadsFit :: "agent_turn_event list \<Rightarrow> tail_selection \<Rightarrow> nat list \<Rightarrow> bool" where
  "threadsFit events sel added \<longleftrightarrow>
     length (sel_threads sel) + length (fresh_threads events sel added) \<le> MAX_SUBAGENT_THREADS_PER_TURN"

definition sel_adopt :: "agent_turn_event list \<Rightarrow> tail_selection \<Rightarrow> nat \<Rightarrow> tail_selection" where
  "sel_adopt events sel index =
     (let sel = sel\<lparr>sel_kept := set_add index (sel_kept sel)\<rparr> in
      case event_agentThreadId (events ! index) of
        None \<Rightarrow> sel
      | Some thread \<Rightarrow>
          sel\<lparr>sel_threads := AList.update thread
            ((case map_of (sel_threads sel) thread of None \<Rightarrow> 0 | Some n \<Rightarrow> n) + 1) (sel_threads sel)\<rparr>)"

definition sel_take ::
  "agent_turn_event list \<Rightarrow> tail_budget \<Rightarrow> tail_selection \<Rightarrow> nat list \<Rightarrow> bool \<times> tail_selection" where
  "sel_take events budget sel indices =
     (let added = filter (\<lambda>index. \<not> sel_has sel index) (js_set_of indices);
        size = sum_list (map (\<lambda>index. int (bg_eventBytes budget (events ! index))) added) in
      if length (sel_kept sel) + length added > bg_maxEvents budget then (False, sel)
      else if enat (nat (sel_bytes sel + size)) > bg_maxBytes budget then (False, sel)
      else if \<not> threadsFit events sel added then (False, sel)
      else
        let adopted = foldl (sel_adopt events) sel added in
        (True, adopted\<lparr>sel_bytes := sel_bytes adopted + size\<rparr>))"

definition sel_release ::
  "agent_turn_event list \<Rightarrow> tail_budget \<Rightarrow> tail_selection \<Rightarrow> nat \<Rightarrow> tail_selection" where
  "sel_release events budget sel index =
     (if \<not> sel_has sel index then sel
      else
        let sel = sel\<lparr>sel_kept := set_delete index (sel_kept sel),
              sel_bytes := sel_bytes sel - int (bg_eventBytes budget (events ! index))\<rparr> in
        case event_agentThreadId (events ! index) of
          None \<Rightarrow> sel
        | Some thread \<Rightarrow>
            let remaining = (case map_of (sel_threads sel) thread of None \<Rightarrow> 0 | Some n \<Rightarrow> n) - 1 in
            if remaining > 0 then sel\<lparr>sel_threads := AList.update thread remaining (sel_threads sel)\<rparr>
            else sel\<lparr>sel_threads := AList.delete thread (sel_threads sel)\<rparr>)"

section \<open>The order of choosing\<close>

definition wouldFuse :: "agent_turn_event list \<Rightarrow> nat \<Rightarrow> nat \<Rightarrow> bool" where
  "wouldFuse events previous later =
     (if later \<le> previous + 1 then False
      else coalesceAgentTextEvents (Some (events ! previous)) (events ! later) \<noteq> None)"

text \<open>The loops run the index down from the end; the number is the index plus one.\<close>

fun lastIndex_from :: "(agent_turn_event \<Rightarrow> bool) \<Rightarrow> agent_turn_event list \<Rightarrow> nat \<Rightarrow> nat option" where
  "lastIndex_from matches events 0 = None"
| "lastIndex_from matches events (Suc index) =
     (if matches (events ! index) then Some index else lastIndex_from matches events index)"

definition lastIndexWhere :: "agent_turn_event list \<Rightarrow> (agent_turn_event \<Rightarrow> bool) \<Rightarrow> nat option" where
  "lastIndexWhere events matches = lastIndex_from matches events (length events)"

fun newest_first ::
  "agent_turn_event list \<Rightarrow> tail_budget \<Rightarrow> (agent_turn_event \<Rightarrow> bool) \<Rightarrow> nat \<Rightarrow> tail_selection \<Rightarrow> tail_selection" where
  "newest_first events budget selected 0 sel = sel"
| "newest_first events budget selected (Suc index) sel =
     (if sel_full budget sel then sel
      else newest_first events budget selected index
        (if selected (events ! index) then snd (sel_take events budget sel [index]) else sel))"

definition takeNewestFirst ::
  "agent_turn_event list \<Rightarrow> tail_budget \<Rightarrow> tail_selection \<Rightarrow> (agent_turn_event \<Rightarrow> bool) \<Rightarrow> tail_selection" where
  "takeNewestFirst events budget sel selected = newest_first events budget selected (length events) sel"

fun replies_newest_first ::
  "agent_turn_event list \<Rightarrow> tail_budget \<Rightarrow> nat \<Rightarrow> nat option \<Rightarrow> tail_selection \<Rightarrow> tail_selection" where
  "replies_newest_first events budget 0 nearest sel = sel"
| "replies_newest_first events budget (Suc index) nearest sel =
     (if sel_has sel index then replies_newest_first events budget index (Some index) sel
      else if \<not> isAgentMainReply (events ! index) then replies_newest_first events budget index nearest sel
      else
        let unit = (case nearest of
              None \<Rightarrow> [index]
            | Some later \<Rightarrow> if wouldFuse events index later then [index, later - 1] else [index]);
          (taken, sel) = sel_take events budget sel unit in
        if \<not> taken then sel else replies_newest_first events budget index (Some index) sel)"

definition takeRepliesNewestFirst ::
  "agent_turn_event list \<Rightarrow> tail_budget \<Rightarrow> tail_selection \<Rightarrow> tail_selection" where
  "takeRepliesNewestFirst events budget sel = replies_newest_first events budget (length events) None sel"

text \<open>
  The inner loop of \<open>keepTextBoundaries\<close>; the stack of retained indices has its top in front.
\<close>

fun settle_boundary ::
  "agent_turn_event list \<Rightarrow> tail_budget \<Rightarrow> nat \<Rightarrow> nat list \<Rightarrow> tail_selection \<Rightarrow> nat list \<times> tail_selection" where
  "settle_boundary events budget index [] sel = ([], sel)"
| "settle_boundary events budget index (previous # retained) sel =
     (if \<not> wouldFuse events previous index then (previous # retained, sel)
      else if \<not> wouldFuse events previous (index - 1) \<and> fst (sel_take events budget sel [index - 1])
      then ((index - 1) # previous # retained, snd (sel_take events budget sel [index - 1]))
      else settle_boundary events budget index retained (sel_release events budget sel previous))"

definition keep_boundary ::
  "agent_turn_event list \<Rightarrow> tail_budget \<Rightarrow> nat list \<times> tail_selection \<Rightarrow> nat \<Rightarrow> nat list \<times> tail_selection" where
  "keep_boundary events budget state index =
     (let (retained, sel) = settle_boundary events budget index (fst state) (snd state) in (index # retained, sel))"

definition keepTextBoundaries :: "agent_turn_event list \<Rightarrow> tail_budget \<Rightarrow> tail_selection \<Rightarrow> tail_selection" where
  "keepTextBoundaries events budget sel =
     snd (foldl (keep_boundary events budget) ([], sel) (sort (sel_kept sel)))"

definition take_last ::
  "agent_turn_event list \<Rightarrow> tail_budget \<Rightarrow> (agent_turn_event \<Rightarrow> bool) \<Rightarrow> tail_selection \<Rightarrow> tail_selection" where
  "take_last events budget matches sel =
     (case lastIndexWhere events matches of None \<Rightarrow> sel | Some index \<Rightarrow> snd (sel_take events budget sel [index]))"

definition selectAgentTurnTail :: "agent_turn_event list \<Rightarrow> tail_budget \<Rightarrow> nat js_set" where
  "selectAgentTurnTail events budget =
     (let sel = take_last events budget is_result empty_selection;
        sel = take_last events budget isAgentMainReply sel;
        sel = takeNewestFirst events budget sel is_user_message;
        sel = takeRepliesNewestFirst events budget sel;
        sel = takeNewestFirst events budget sel (\<lambda>_. True);
        sel = keepTextBoundaries events budget sel in
      sel_kept sel)"

text \<open>\<open>events.filter((_event, index) => kept.has(index))\<close>.\<close>

definition kept_events :: "agent_turn_event list \<Rightarrow> nat js_set \<Rightarrow> agent_turn_event list" where
  "kept_events events kept = nths events (set kept)"

end
