(* ===== verification/TailLaws.thy ===== *)
theory TailLaws
  imports TailSelection "HOL-Library.Sublist" "HOL-Library.Multiset"
begin

text \<open>
  What the selection of \<open>TailSelection\<close> promises: it stays within its budget, its tables agree with
  the indices it holds, the closing result and the last reply are in it when they fit, and no two
  events that become neighbours are pieces of one text.
\<close>

section \<open>The tables of a selection\<close>

definition selection_ok :: "agent_turn_event list \<Rightarrow> tail_budget \<Rightarrow> tail_selection \<Rightarrow> bool" where
  "selection_ok events budget sel \<longleftrightarrow>
     distinct (sel_kept sel) \<and> (\<forall>i \<in> set (sel_kept sel). i < length events) \<and>
     sel_bytes sel = (\<Sum>i\<leftarrow>sel_kept sel. int (bg_eventBytes budget (events ! i))) \<and>
     thread_table (sel_threads sel) (map ((!) events) (sel_kept sel)) \<and>
     length (sel_kept sel) \<le> bg_maxEvents budget \<and> enat (nat (sel_bytes sel)) \<le> bg_maxBytes budget \<and>
     length (sel_threads sel) \<le> MAX_SUBAGENT_THREADS_PER_TURN"

lemma empty_selection_ok: "selection_ok events budget empty_selection"
  by (simp add: selection_ok_def empty_selection_def thread_table_def zero_enat_def [symmetric])

lemma js_set_of_spec: "distinct (js_set_of xs)" "set (js_set_of xs) = set xs"
proof -
  have "distinct (foldl (\<lambda>s x. set_add x s) acc xs) = distinct acc \<and>
      set (foldl (\<lambda>s x. set_add x s) acc xs) = set acc \<union> set xs" for acc
    by (induction xs arbitrary: acc) auto
  from this [of "[]"] show "distinct (js_set_of xs)" "set (js_set_of xs) = set xs"
    by (simp_all add: js_set_of_def)
qed

lemma fresh_threads_spec:
  "distinct (fresh_threads events sel added) \<and>
   set (fresh_threads events sel added) = threads_of (map ((!) events) added) - dom (map_of (sel_threads sel))"
proof -
  let ?step = "\<lambda>fresh index. case event_agentThreadId (events ! index) of
         None \<Rightarrow> fresh
       | Some thread \<Rightarrow> if map_of (sel_threads sel) thread = None then set_add thread fresh else fresh"
  have "distinct acc \<Longrightarrow> distinct (foldl ?step acc added) \<and> set (foldl ?step acc added) =
      set acc \<union> (threads_of (map ((!) events) added) - dom (map_of (sel_threads sel)))" for acc
  proof (induction added arbitrary: acc)
    case (Cons i added)
    have "distinct (?step acc i)" using Cons.prems by (simp split: option.split)
    from Cons.IH [OF this] show ?case by (auto simp: threads_of_def split: option.splits)
  qed (simp add: threads_of_def)
  from this [of "[]"] show ?thesis by (simp add: fresh_threads_def)
qed

lemma sel_adopt_frame:
  "sel_bytes (sel_adopt events sel i) = sel_bytes sel"
  "sel_kept (sel_adopt events sel i) = set_add i (sel_kept sel)"
  by (simp_all add: sel_adopt_def Let_def split: option.split)

lemma thread_table_adopt:
  assumes "thread_table (sel_threads sel) (map ((!) events) (sel_kept sel))" and "i \<notin> set (sel_kept sel)"
  shows "thread_table (sel_threads (sel_adopt events sel i)) (map ((!) events) (sel_kept (sel_adopt events sel i)))"
  using assms by (auto simp: sel_adopt_def thread_table_def Let_def set_add_def split: option.split)

lemma adopt_all:
  assumes "thread_table (sel_threads sel) (map ((!) events) (sel_kept sel))"
    and "distinct added" and "set added \<inter> set (sel_kept sel) = {}"
  shows "sel_kept (foldl (sel_adopt events) sel added) = sel_kept sel @ added \<and>
    sel_bytes (foldl (sel_adopt events) sel added) = sel_bytes sel \<and>
    thread_table (sel_threads (foldl (sel_adopt events) sel added)) (map ((!) events) (sel_kept sel @ added))"
  using assms
proof (induction added arbitrary: sel)
  case (Cons i added)
  have "sel_kept (sel_adopt events sel i) = sel_kept sel @ [i]"
    using Cons.prems by (simp add: sel_adopt_frame set_add_def)
  with Cons.IH [of "sel_adopt events sel i"] thread_table_adopt [OF Cons.prems(1), of i] Cons.prems
  show ?case by (simp add: sel_adopt_frame)
qed simp

lemma sel_take_spec:
  assumes "selection_ok events budget sel" and "\<forall>i \<in> set indices. i < length events"
    and "sel_take events budget sel indices = (taken, sel')"
  shows "selection_ok events budget sel' \<and> (if taken then set (sel_kept sel') = set (sel_kept sel) \<union> set indices else sel' = sel)"
proof (cases taken)
  case True
  define added where "added = filter (\<lambda>i. \<not> sel_has sel i) (js_set_of indices)"
  have added: "distinct added" "set added = set indices - set (sel_kept sel)"
    by (auto simp: added_def js_set_of_spec sel_has_def)
  have ok: "thread_table (sel_threads sel) (map ((!) events) (sel_kept sel))"
    using assms(1) by (simp add: selection_ok_def)
  have "set added \<inter> set (sel_kept sel) = {}" using added(2) by auto
  note adopted = adopt_all [OF ok added(1) this]
  have fits: "length (sel_kept sel) + length added \<le> bg_maxEvents budget" "threadsFit events sel added"
    "enat (nat (sel_bytes sel + (\<Sum>i\<leftarrow>added. int (bg_eventBytes budget (events ! i))))) \<le> bg_maxBytes budget"
    and sel': "sel' = (foldl (sel_adopt events) sel added)
      \<lparr>sel_bytes := sel_bytes (foldl (sel_adopt events) sel added) + (\<Sum>i\<leftarrow>added. int (bg_eventBytes budget (events ! i)))\<rparr>"
    using assms(3) True unfolding sel_take_def added_def [symmetric] Let_def by (auto split: if_splits)
  have table: "thread_table (sel_threads sel') (map ((!) events) (sel_kept sel @ added))"
    using adopted added(2) by (auto simp: sel')
  have "length (sel_threads sel') = card (threads_of (map ((!) events) (sel_kept sel)) \<union> threads_of (map ((!) events) added))"
    using thread_table_size [OF table] by simp
  also have "\<dots> \<le> length (sel_threads sel) + length (fresh_threads events sel added)"
  proof -
    have "dom (map_of (sel_threads sel)) = threads_of (map ((!) events) (sel_kept sel))"
      using ok by (auto simp: thread_table_def simp flip: thread_count_pos split: if_splits)
    then have "threads_of (map ((!) events) (sel_kept sel)) \<union> threads_of (map ((!) events) added) =
        threads_of (map ((!) events) (sel_kept sel)) \<union> set (fresh_threads events sel added)"
      using fresh_threads_spec [of events sel added] by blast
    moreover have "card (set (fresh_threads events sel added)) = length (fresh_threads events sel added)"
      using fresh_threads_spec distinct_card by blast
    ultimately show ?thesis
      using card_Un_le [of "threads_of (map ((!) events) (sel_kept sel))" "set (fresh_threads events sel added)"]
      by (simp add: thread_table_size [OF ok])
  qed
  finally have "length (sel_threads sel') \<le> MAX_SUBAGENT_THREADS_PER_TURN"
    using fits(2) by (simp add: threadsFit_def)
  moreover have "sel_kept sel' = sel_kept sel @ added" using adopted added(2) by (auto simp: sel')
  ultimately show ?thesis
    using assms(1,2) True added adopted table fits by (auto simp: selection_ok_def sel')
next
  case False
  with assms show ?thesis by (auto simp: sel_take_def Let_def split: if_splits)
qed

lemma sel_release_spec:
  assumes "selection_ok events budget sel"
  shows "selection_ok events budget (sel_release events budget sel i) \<and>
    set (sel_kept (sel_release events budget sel i)) = set (sel_kept sel) - {i}"
proof (cases "sel_has sel i")
  case False
  with assms show ?thesis by (simp add: sel_release_def sel_has_def)
next
  case True
  then obtain as bs where kept: "sel_kept sel = as @ i # bs" "i \<notin> set as" "i \<notin> set bs"
    using assms by (auto simp: sel_has_def selection_ok_def dest!: split_list)
  let ?sel = "sel_release events budget sel i"
  have kept': "sel_kept ?sel = as @ bs"
  proof -
    have "filter (\<lambda>y. y \<noteq> i) as = as" "filter (\<lambda>y. y \<noteq> i) bs = bs"
      using kept by (auto simp: filter_id_conv)
    with True kept show ?thesis by (simp add: sel_release_def set_delete_def Let_def split: option.split)
  qed
  have table: "thread_table (sel_threads ?sel) (map ((!) events) (as @ bs))"
    using assms True kept unfolding selection_ok_def
    by (auto simp: sel_release_def thread_table_def Let_def split: option.split)
  have bytes: "sel_bytes ?sel = sel_bytes sel - int (bg_eventBytes budget (events ! i))"
    using True by (simp add: sel_release_def Let_def split: option.split)
  have "length (sel_threads ?sel) \<le> length (sel_threads sel)"
    using True by (auto simp: sel_release_def Let_def length_map_delete_le length_update_present
        split: option.split)
  moreover have "enat (nat (sel_bytes ?sel)) \<le> bg_maxBytes budget"
    using assms bytes order_trans [of "enat (nat (sel_bytes ?sel))" "enat (nat (sel_bytes sel))"]
    by (auto simp: selection_ok_def)
  ultimately show ?thesis using assms kept kept' table bytes by (auto simp: selection_ok_def)
qed

section \<open>Growing a selection\<close>

definition extends :: "agent_turn_event list \<Rightarrow> tail_budget \<Rightarrow> tail_selection \<Rightarrow> tail_selection \<Rightarrow> bool" where
  "extends events budget sel sel' \<longleftrightarrow> selection_ok events budget sel' \<and> set (sel_kept sel) \<subseteq> set (sel_kept sel')"

lemma extends_trans [trans]:
  "extends events budget a b \<Longrightarrow> extends events budget b c \<Longrightarrow> extends events budget a c"
  by (auto simp: extends_def)

lemma sel_take_extends:
  assumes "selection_ok events budget sel" and "\<forall>i \<in> set indices. i < length events"
  shows "extends events budget sel (snd (sel_take events budget sel indices))"
  using sel_take_spec [OF assms, of "fst (sel_take events budget sel indices)" "snd (sel_take events budget sel indices)"]
  by (auto simp: extends_def split: if_splits)

lemma lastIndex_Some:
  "lastIndex_from matches events n = Some i \<longleftrightarrow> i < n \<and> matches (events ! i) \<and> (\<forall>j. i < j \<and> j < n \<longrightarrow> \<not> matches (events ! j))"
  by (induction n) (auto simp: less_Suc_eq)

lemma lastIndexWhere_Some:
  "lastIndexWhere events matches = Some i \<longleftrightarrow>
     i < length events \<and> matches (events ! i) \<and> (\<forall>j. i < j \<and> j < length events \<longrightarrow> \<not> matches (events ! j))"
  by (simp add: lastIndexWhere_def lastIndex_Some)

lemma take_last_extends: "selection_ok events budget sel \<Longrightarrow> extends events budget sel (take_last events budget matches sel)"
  by (auto simp: take_last_def lastIndexWhere_Some extends_def split: option.split
      dest!: sel_take_extends [where indices = "[_]"])

lemma newest_first_extends:
  "selection_ok events budget sel \<Longrightarrow> n \<le> length events \<Longrightarrow>
     extends events budget sel (newest_first events budget selected n sel)"
proof (induction n arbitrary: sel)
  case (Suc index)
  let ?next = "if selected (events ! index) then snd (sel_take events budget sel [index]) else sel"
  have step: "extends events budget sel ?next"
    using sel_take_extends [OF Suc.prems(1), of "[index]"] Suc.prems by (simp add: extends_def)
  also have "extends events budget ?next (newest_first events budget selected index ?next)"
    using Suc.IH [of ?next] step Suc.prems(2) by (simp add: extends_def)
  finally show ?case using Suc.prems by (simp add: extends_def)
qed (simp add: extends_def)

lemma replies_extends:
  "selection_ok events budget sel \<Longrightarrow> n \<le> length events \<Longrightarrow> pred_option (\<lambda>later. later < length events) nearest \<Longrightarrow>
     extends events budget sel (replies_newest_first events budget n nearest sel)"
proof (induction n arbitrary: sel nearest)
  case (Suc index)
  define unit where "unit = (case nearest of None \<Rightarrow> [index]
      | Some later \<Rightarrow> if wouldFuse events index later then [index, later - 1] else [index])"
  have unit: "\<forall>i \<in> set unit. i < length events"
    using Suc.prems by (auto simp: unit_def split: option.split)
  let ?took = "sel_take events budget sel unit"
  have step: "extends events budget sel (snd ?took)" using sel_take_extends [OF Suc.prems(1) unit] .
  have more: "extends events budget sel (replies_newest_first events budget index (Some index) (snd ?took))"
    using step extends_trans [OF step] Suc.IH [of "snd ?took" "Some index"] Suc.prems(2) by (simp add: extends_def)
  have skip: "extends events budget sel (replies_newest_first events budget index nearest' sel)"
    if "nearest' = nearest \<or> nearest' = Some index" for nearest'
    using that Suc.IH [of sel nearest'] Suc.prems by auto
  show ?case
    using step more skip by (auto simp: unit_def [symmetric] Let_def split: prod.split)
qed (simp add: extends_def)

section \<open>Boundaries between texts\<close>

text \<open>The stack of retained indices, its top in front: descending, and no neighbours fuse.\<close>

definition unfused :: "agent_turn_event list \<Rightarrow> nat list \<Rightarrow> bool" where
  "unfused events retained \<longleftrightarrow>
     sorted_wrt (>) retained \<and> successively (\<lambda>later previous. \<not> wouldFuse events previous later) retained"

text \<open>An index no later event fuses with.\<close>

definition firm :: "agent_turn_event list \<Rightarrow> nat \<Rightarrow> bool" where
  "firm events i \<longleftrightarrow> (\<forall>j < length events. \<not> wouldFuse events i j)"

definition boundary_ok ::
  "agent_turn_event list \<Rightarrow> tail_budget \<Rightarrow> nat set \<Rightarrow> nat list \<times> tail_selection \<Rightarrow> bool" where
  "boundary_ok events budget remaining state \<longleftrightarrow>
     selection_ok events budget (snd state) \<and> unfused events (fst state) \<and>
     set (sel_kept (snd state)) = set (fst state) \<union> remaining \<and>
     (\<forall>r \<in> set (fst state). \<forall>i \<in> remaining. r < i)"

lemma unfused_Cons:
  "unfused events (i # retained) \<longleftrightarrow>
     unfused events retained \<and> (\<forall>r \<in> set retained. r < i) \<and> (retained \<noteq> [] \<longrightarrow> \<not> wouldFuse events (hd retained) i)"
  by (cases retained) (auto simp: unfused_def)

lemma settle_boundary_spec:
  assumes "boundary_ok events budget remaining (retained, sel)" and "index \<in> remaining" and "\<forall>i \<in> remaining. index \<le> i"
    and "index < length events"
  shows "boundary_ok events budget remaining (settle_boundary events budget index retained sel) \<and>
    unfused events (index # fst (settle_boundary events budget index retained sel)) \<and>
    {i \<in> set retained. firm events i} \<subseteq> set (fst (settle_boundary events budget index retained sel))"
  using assms(1)
proof (induction retained arbitrary: sel)
  case Nil
  then show ?case by (simp add: unfused_def)
next
  case (Cons previous retained)
  have below: "previous < index" "\<forall>r \<in> set retained. r < previous"
    using Cons.prems assms(2) by (auto simp: boundary_ok_def unfused_Cons)
  show ?case
  proof (cases "wouldFuse events previous index")
    case False
    with Cons.prems assms(2) show ?thesis by (auto simp: boundary_ok_def unfused_Cons)
  next
    case fuses: True
    then have far: "previous + 1 < index" by (auto simp: wouldFuse_def split: if_splits)
    let ?took = "sel_take events budget sel [index - 1]"
    show ?thesis
    proof (cases "\<not> wouldFuse events previous (index - 1) \<and> fst ?took")
      case True
      have "selection_ok events budget (snd ?took) \<and> set (sel_kept (snd ?took)) = set (sel_kept sel) \<union> {index - 1}"
        using sel_take_spec [of events budget sel "[index - 1]" "fst ?took" "snd ?took"] Cons.prems assms(4) True
        by (auto simp: boundary_ok_def)
      moreover have "\<not> wouldFuse events (index - 1) index" by (cases index) (simp_all add: wouldFuse_def)
      ultimately show ?thesis
        using Cons.prems assms far fuses True below by (auto simp: boundary_ok_def unfused_Cons)
    next
      case False
      let ?sel = "sel_release events budget sel previous"
      have "boundary_ok events budget remaining (retained, ?sel)"
        using Cons.prems sel_release_spec [of events budget sel previous] below assms(2,3)
        by (auto simp: boundary_ok_def unfused_Cons)
      from Cons.IH [OF this] fuses False assms(4) show ?thesis by (auto simp: firm_def)
    qed
  qed
qed

lemma keep_boundaries_spec:
  assumes "boundary_ok events budget (set is) state" and "sorted is" and "distinct is" and "\<forall>i \<in> set is. i < length events"
  shows "boundary_ok events budget {} (foldl (keep_boundary events budget) state is) \<and>
    {i \<in> set (fst state) \<union> set is. firm events i} \<subseteq> set (fst (foldl (keep_boundary events budget) state is))"
  using assms
proof (induction "is" arbitrary: state)
  case (Cons index rest)
  obtain retained sel where state: "state = (retained, sel)" by fastforce
  obtain retained' sel' where settled: "settle_boundary events budget index retained sel = (retained', sel')" by fastforce
  have least: "\<forall>i \<in> set (index # rest). index \<le> i" using Cons.prems(2) by simp
  have spec: "boundary_ok events budget (set (index # rest)) (retained', sel')" "unfused events (index # retained')"
    "{i \<in> set retained. firm events i} \<subseteq> set retained'"
    using settle_boundary_spec [of events budget "set (index # rest)" retained sel index] Cons.prems least
    by (auto simp: state settled)
  have "\<forall>i \<in> set rest. index < i" using Cons.prems(2,3) by (auto simp: less_le)
  then have "boundary_ok events budget (set rest) (index # retained', sel')"
    using spec by (auto simp: boundary_ok_def)
  from Cons.IH [OF this] Cons.prems spec(3) show ?case
    by (auto simp: state keep_boundary_def settled)
qed simp

section \<open>The selected tail\<close>

lemma selection_stages:
  fixes events budget
  defines "s1 \<equiv> take_last events budget is_result empty_selection"
  defines "s2 \<equiv> take_last events budget isAgentMainReply s1"
  defines "s5 \<equiv> takeNewestFirst events budget
    (takeRepliesNewestFirst events budget (takeNewestFirst events budget s2 is_user_message)) (\<lambda>_. True)"
  shows "selectAgentTurnTail events budget = sel_kept (keepTextBoundaries events budget s5)"
    and "selection_ok events budget s1" and "extends events budget s1 s2" and "extends events budget s2 s5"
proof -
  show "selectAgentTurnTail events budget = sel_kept (keepTextBoundaries events budget s5)"
    by (simp add: selectAgentTurnTail_def s1_def s2_def s5_def Let_def)
  show s1: "selection_ok events budget s1"
    using take_last_extends [OF empty_selection_ok] by (simp add: s1_def extends_def)
  then show s2: "extends events budget s1 s2" by (simp add: s2_def take_last_extends)
  have newest: "extends events budget s (takeNewestFirst events budget s selected)"
    if "selection_ok events budget s" for s selected
    using that by (simp add: takeNewestFirst_def newest_first_extends)
  have replies: "extends events budget s (takeRepliesNewestFirst events budget s)"
    if "selection_ok events budget s" for s
    using that by (simp add: takeRepliesNewestFirst_def replies_extends)
  have "extends events budget s2 (takeNewestFirst events budget s2 is_user_message)"
    using s2 newest by (simp add: extends_def)
  also have "extends events budget (takeNewestFirst events budget s2 is_user_message)
      (takeRepliesNewestFirst events budget (takeNewestFirst events budget s2 is_user_message))"
    using calculation replies by (simp add: extends_def)
  finally have "extends events budget s2
      (takeRepliesNewestFirst events budget (takeNewestFirst events budget s2 is_user_message))" .
  then show "extends events budget s2 s5"
    using extends_trans newest unfolding s5_def by (meson extends_def)
qed

lemma keepTextBoundaries_spec:
  assumes "selection_ok events budget sel"
  obtains retained where "unfused events retained" and "set (sel_kept (keepTextBoundaries events budget sel)) = set retained"
    and "selection_ok events budget (keepTextBoundaries events budget sel)"
    and "{i \<in> set (sel_kept sel). firm events i} \<subseteq> set retained"
proof -
  let ?is = "sort (sel_kept sel)"
  have "boundary_ok events budget (set ?is) ([], sel)"
    using assms by (simp add: boundary_ok_def unfused_def)
  then have "boundary_ok events budget {} (foldl (keep_boundary events budget) ([], sel) ?is) \<and>
      {i \<in> set ?is. firm events i} \<subseteq> set (fst (foldl (keep_boundary events budget) ([], sel) ?is))"
    using keep_boundaries_spec [of events budget ?is "([], sel)"] assms by (auto simp: selection_ok_def)
  then show ?thesis
    by (intro that [of "fst (foldl (keep_boundary events budget) ([], sel) ?is)"])
      (auto simp: keepTextBoundaries_def boundary_ok_def)
qed

lemma kept_events_sorted:
  assumes "sorted_wrt (>) retained" and "set kept = set retained" and "\<forall>i \<in> set retained. i < length events"
  shows "kept_events events kept = map ((!) events) (rev retained)"
proof -
  have nths: "nths events A = map ((!) events) (filter (\<lambda>i. i \<in> A) [0..<length events])" for A
    by (induction events arbitrary: A rule: rev_induct)
      (auto simp: nths_append nth_append intro!: map_cong filter_cong)
  have "sorted_wrt (<) (rev retained)" using assms(1) by (simp add: sorted_wrt_rev)
  moreover have "sorted_wrt (<) (filter (\<lambda>i. i \<in> set retained) [0..<length events])"
    by (simp add: sorted_wrt_filter)
  moreover have "set (filter (\<lambda>i. i \<in> set retained) [0..<length events]) = set (rev retained)"
    using assms(3) by auto
  ultimately have "filter (\<lambda>i. i \<in> set retained) [0..<length events] = rev retained"
    using strict_sorted_equal by blast
  then show ?thesis using assms(2) by (simp add: kept_events_def nths)
qed

lemma distinctSubagentThreads_card: "distinctSubagentThreads events = card (threads_of events)"
proof -
  let ?step = "\<lambda>threads event. case event_agentThreadId event of None \<Rightarrow> threads | Some thread \<Rightarrow> set_add thread threads"
  have "distinct acc \<Longrightarrow> distinct (foldl ?step acc events) \<and> set (foldl ?step acc events) = set acc \<union> threads_of events" for acc
  proof (induction events arbitrary: acc)
    case (Cons e events)
    have "distinct (?step acc e)" using Cons.prems by (simp split: option.split)
    from Cons.IH [OF this] show ?case by (auto simp: threads_of_def split: option.splits)
  qed (simp add: threads_of_def)
  from this [of "[]"] show ?thesis
    using distinct_card [of "foldl ?step [] events"] by (simp add: distinctSubagentThreads_def)
qed

lemma extends_ok: "extends events budget sel sel' \<Longrightarrow> selection_ok events budget sel'"
  by (simp add: extends_def)

lemma selected_tail:
  obtains sel retained where "selectAgentTurnTail events budget = sel_kept sel" and "selection_ok events budget sel"
    and "unfused events retained" and "set (sel_kept sel) = set retained"
    and "kept_events events (selectAgentTurnTail events budget) = map ((!) events) (rev retained)"
proof -
  note stages = selection_stages [of events budget]
  show ?thesis
  proof (rule keepTextBoundaries_spec [OF extends_ok [OF stages(4)]])
    fix retained
    let ?sel = "keepTextBoundaries events budget (takeNewestFirst events budget
      (takeRepliesNewestFirst events budget (takeNewestFirst events budget
        (take_last events budget isAgentMainReply (take_last events budget is_result empty_selection))
        is_user_message)) (\<lambda>_. True))"
    assume retained: "unfused events retained" "set (sel_kept ?sel) = set retained" "selection_ok events budget ?sel"
    have "kept_events events (sel_kept ?sel) = map ((!) events) (rev retained)"
      using retained by (intro kept_events_sorted) (simp_all add: unfused_def selection_ok_def)
    then show thesis using that [OF stages(1) retained(3) retained(1) retained(2)] stages(1) by simp
  qed
qed

lemma tail_within_budget:
  "agentTurnTailFits (kept_events events (selectAgentTurnTail events budget)) budget"
proof -
  obtain sel retained where sel: "selection_ok events budget sel" "set (sel_kept sel) = set retained"
    and retained: "unfused events retained"
    and kept: "kept_events events (selectAgentTurnTail events budget) = map ((!) events) (rev retained)"
    by (rule selected_tail [of events budget])
  have "sorted_wrt (<) (rev retained)" using retained by (simp add: unfused_def sorted_wrt_rev)
  then have "distinct retained" by (simp add: strict_sorted_iff)
  then have perm: "mset retained = mset (sel_kept sel)"
    using sel by (metis selection_ok_def set_eq_iff_mset_eq_distinct)
  have events: "mset (map ((!) events) (rev retained)) = mset (map ((!) events) (sel_kept sel))"
    using perm by simp
  have "length (sel_kept sel) = length retained" using perm by (metis size_mset)
  moreover have "sum_list (map (bg_eventBytes budget) (map ((!) events) (rev retained))) =
      (\<Sum>i\<leftarrow>sel_kept sel. bg_eventBytes budget (events ! i))"
    using arg_cong [OF events, of "\<lambda>m. sum_mset (image_mset (bg_eventBytes budget) m)"]
    by (simp add: sum_mset_sum_list [symmetric] image_mset.compositionality comp_def)
  moreover have "threads_of (map ((!) events) (rev retained)) = threads_of (map ((!) events) (sel_kept sel))"
    using arg_cong [OF events, of set_mset] by (simp add: threads_of_def)
  moreover have "(\<Sum>i\<leftarrow>sel_kept sel. int (bg_eventBytes budget (events ! i))) =
      int (\<Sum>i\<leftarrow>sel_kept sel. bg_eventBytes budget (events ! i))"
    by (simp add: sum_list_int comp_def)
  moreover have "length (sel_threads sel) = card (threads_of (map ((!) events) (sel_kept sel)))"
    using sel(1) thread_table_size by (auto simp: selection_ok_def)
  ultimately show ?thesis
    using sel(1) unfolding agentTurnTailFits_def kept distinctSubagentThreads_card selection_ok_def
    by (auto simp: not_less)
qed

text \<open>
  C10: The selected tail of a turn always fits its budget: the events, the bytes and the number of
  subagent threads, whatever the turn and whatever the size of an event.
\<close>

theorem selected_tail_fits:
  "agentTurnTailFits (kept_events events (selectAgentTurnTail events budget)) budget"
  by (rule tail_within_budget)

text \<open>
  C18: Cutting a turn glues no texts together. Neighbours of the selected tail that were not neighbours
  in the turn are never pieces the reader would coalesce into one text.
\<close>

theorem selected_tail_keeps_texts_apart:
  "\<exists>indices. sorted_wrt (<) indices \<and> set indices = set (selectAgentTurnTail events budget) \<and>
     kept_events events (selectAgentTurnTail events budget) = map ((!) events) indices \<and>
     successively (\<lambda>i j. j = i + 1 \<or> coalesceAgentTextEvents (Some (events ! i)) (events ! j) = None) indices"
proof -
  obtain sel :: tail_selection and retained where sel: "selectAgentTurnTail events budget = sel_kept sel" "set (sel_kept sel) = set retained"
    and retained: "unfused events retained"
    and kept: "kept_events events (selectAgentTurnTail events budget) = map ((!) events) (rev retained)"
    by (rule selected_tail [of events budget])
  have "successively (\<lambda>i j. \<not> wouldFuse events i j) (rev retained)"
    using retained by (simp add: unfused_def)
  moreover have sorted: "sorted_wrt (<) (rev retained)" using retained by (simp add: unfused_def sorted_wrt_rev)
  then have "successively (<) (rev retained)" by (simp only: successively_conv_sorted_wrt [OF transp_on_less])
  ultimately have "successively (\<lambda>i j. i < j \<and> \<not> wouldFuse events i j) (rev retained)"
    by (simp add: successively_conv_nth)
  then have "successively (\<lambda>i j. j = i + 1 \<or> coalesceAgentTextEvents (Some (events ! i)) (events ! j) = None) (rev retained)"
    by (rule successively_mono) (auto simp: wouldFuse_def split: if_splits)
  with sorted kept sel show ?thesis by (intro exI [of _ "rev retained"]) simp
qed

lemma not_fused_kinds: "is_result (events ! i) \<Longrightarrow> \<not> wouldFuse events i j"
  by (cases "events ! i") (auto simp: wouldFuse_def coalesceAgentTextEvents_def)

lemma result_no_thread: "is_result e \<Longrightarrow> event_agentThreadId e = None"
  by (cases e) simp_all

lemma reply_no_thread: "isAgentMainReply e \<Longrightarrow> event_agentThreadId e = None"
  by (cases e rule: isAgentMainReply.cases) simp_all

lemma reply_fuses_reply:
  assumes "isAgentMainReply (events ! i)" and "wouldFuse events i j"
  shows "isAgentMainReply (events ! j)"
  using assms by (cases "events ! i" rule: isAgentMainReply.cases; cases "events ! j" rule: isAgentMainReply.cases)
    (auto simp: wouldFuse_def coalesceAgentTextEvents_def split: if_splits)

lemma sel_take_single:
  assumes "selection_ok events budget sel" and "i < length events" and "event_agentThreadId (events ! i) = None"
    and "i \<notin> set (sel_kept sel)" and "length (sel_kept sel) < bg_maxEvents budget"
    and "enat (nat (sel_bytes sel) + bg_eventBytes budget (events ! i)) \<le> bg_maxBytes budget"
  shows "i \<in> set (sel_kept (snd (sel_take events budget sel [i])))"
    and "sel_kept (snd (sel_take events budget sel [i])) = sel_kept sel @ [i]"
    and "sel_bytes (snd (sel_take events budget sel [i])) = sel_bytes sel + int (bg_eventBytes budget (events ! i))"
proof -
  have single: "filter (\<lambda>index. \<not> sel_has sel index) (js_set_of [i]) = [i]"
    using assms(4) by (simp add: js_set_of_def set_add_def sel_has_def)
  have pos: "0 \<le> sel_bytes sel"
    using assms(1) by (auto simp: selection_ok_def intro!: sum_list_nonneg)
  have "threadsFit events sel [i]"
    using assms(1,3) by (simp add: threadsFit_def fresh_threads_def selection_ok_def)
  moreover have "enat (nat (sel_bytes sel + int (bg_eventBytes budget (events ! i)))) \<le> bg_maxBytes budget"
    using assms(6) pos by (simp add: nat_add_distrib)
  ultimately show "sel_kept (snd (sel_take events budget sel [i])) = sel_kept sel @ [i]"
    "sel_bytes (snd (sel_take events budget sel [i])) = sel_bytes sel + int (bg_eventBytes budget (events ! i))"
    using assms(4,5) unfolding sel_take_def Let_def single
    by (simp_all add: sel_adopt_frame set_add_def not_less [symmetric])
  then show "i \<in> set (sel_kept (snd (sel_take events budget sel [i])))" by simp
qed

lemma stages_kept:
  assumes "i \<in> set (sel_kept (take_last events budget isAgentMainReply (take_last events budget is_result empty_selection)))"
    and "firm events i"
  shows "i \<in> set (selectAgentTurnTail events budget)"
proof -
  note stages = selection_stages [of events budget]
  show ?thesis
    by (rule keepTextBoundaries_spec [OF extends_ok [OF stages(4)]])
      (use assms stages(1,4) in \<open>auto simp: extends_def\<close>)
qed

text \<open>
  C20: The turn's closing result and its last reply survive every cut they can survive: when the two
  fit the budget by themselves they are in the selected tail, however much else the turn holds.
\<close>

theorem closing_result_and_answer_kept:
  assumes "lastIndexWhere events is_result = Some closing" and "lastIndexWhere events isAgentMainReply = Some answer"
    and "2 \<le> bg_maxEvents budget"
    and "enat (bg_eventBytes budget (events ! closing) + bg_eventBytes budget (events ! answer)) \<le> bg_maxBytes budget"
  shows "closing \<in> set (selectAgentTurnTail events budget) \<and> answer \<in> set (selectAgentTurnTail events budget)"
proof -
  let ?s1 = "take_last events budget is_result empty_selection"
  have closing: "closing < length events" "is_result (events ! closing)"
    and answer: "answer < length events" "isAgentMainReply (events ! answer)"
    and last: "\<And>j. answer < j \<Longrightarrow> j < length events \<Longrightarrow> \<not> isAgentMainReply (events ! j)"
    using assms(1,2) by (auto simp: lastIndexWhere_Some)
  have differ: "closing \<noteq> answer" using closing(2) answer(2) by (cases "events ! closing") auto
  have small: "enat (bg_eventBytes budget (events ! closing)) \<le> bg_maxBytes budget"
    by (rule order_trans [OF _ assms(4)]) simp
  have first: "sel_kept ?s1 = [closing]" "sel_bytes ?s1 = int (bg_eventBytes budget (events ! closing))"
    using sel_take_single(2,3) [OF empty_selection_ok [of events budget] closing(1) result_no_thread [OF closing(2)]]
      assms(3) small
    by (auto simp: take_last_def assms(1) empty_selection_def)
  have ok: "selection_ok events budget ?s1" using take_last_extends [OF empty_selection_ok] by (simp add: extends_def)
  have "sel_kept (take_last events budget isAgentMainReply ?s1) = [closing, answer]"
    using sel_take_single(2) [OF ok answer(1) reply_no_thread [OF answer(2)]] assms(3,4) differ
    by (simp add: take_last_def [of events budget isAgentMainReply] assms(2) first)
  moreover have "firm events closing" using closing(2) not_fused_kinds by (simp add: firm_def)
  moreover have "firm events answer"
  proof -
    have "answer < j" if "wouldFuse events answer j" for j using that by (simp add: wouldFuse_def split: if_splits)
    then show ?thesis using reply_fuses_reply [OF answer(2)] last by (auto simp: firm_def)
  qed
  ultimately show ?thesis using stages_kept [of _ events budget] by simp
qed

definition said_result :: result_event where
  "said_result = \<lparr>res_durationMs = None, res_text = [111, 107], res_isError = False, res_usage = None\<rparr>"

definition said_events :: "agent_turn_event list" where
  "said_events = [AssistantText [97] None, Reasoning [98] None, AssistantText [99] None, Result said_result, ErrorEvent [100]]"

definition small_budget :: tail_budget where
  "small_budget = \<lparr>bg_maxEvents = 3, bg_maxBytes = enat 20, bg_eventBytes = (\<lambda>_. 5)\<rparr>"

lemma closing_result_and_answer_kept_witness:
  "3 \<in> set (selectAgentTurnTail said_events small_budget) \<and> 2 \<in> set (selectAgentTurnTail said_events small_budget)"
  by (rule closing_result_and_answer_kept)
    (simp_all add: said_events_def small_budget_def lastIndexWhere_def numeral_eq_Suc
      del: One_nat_def flip: numeral_eq_enat)

end
