(* ===== verification/MemoryValue.thy ===== *)
theory MemoryValue
  imports WireThread JsonText
begin

text \<open>
  The objects the runtime holds, as values \<open>JSON.stringify\<close> walks: turn events
  (\<open>packages/agent-events/src/agentTurnEvent.ts\<close>), turns and threads (\<open>src/domain/agentThread.ts\<close>).
  They differ from the documents of \<open>WireThread\<close> where a serializer leaves a field out or throws. The
  properties come in the order of the type, an absent optional field has none.
\<close>

section \<open>Events\<close>

fun location_props :: "attachment_location \<Rightarrow> (js_string \<times> jsval) list" where
  "location_props (StoredPath stored) = js_field ''storedPath'' (Some (JString stored))"
| "location_props (RemoteAttachment server ident) = js_field ''remote'' (Some (JObject
     (js_field ''serverId'' (Some (JString server)) @ js_field ''attachmentId'' (Some (JString ident)))))"

fun attachment_value :: "agent_attachment \<Rightarrow> jsval" where
  "attachment_value (ImageAttachment ident name mime bytes width height location) = JObject
     (js_field ''kind'' (Some (JString (js ''image''))) @
      js_field ''attachmentId'' (Some (JString ident)) @
      js_field ''name'' (Some (JString name)) @
      js_field ''mime'' (Some (JString (js (image_mime_literal mime)))) @
      js_field ''bytes'' (Some (js_int bytes)) @
      js_field ''width'' (Some (js_int width)) @
      js_field ''height'' (Some (js_int height)) @
      location_props location)"
| "attachment_value (FileAttachment ident name bytes location) = JObject
     (js_field ''kind'' (Some (JString (js ''file''))) @
      js_field ''attachmentId'' (Some (JString ident)) @
      js_field ''name'' (Some (JString name)) @
      js_field ''bytes'' (Some (js_int bytes)) @
      location_props location)"
| "attachment_value (ReferenceAttachment name path bytes) = JObject
     (js_field ''kind'' (Some (JString (js ''reference''))) @
      js_field ''name'' (Some (JString name)) @
      js_field ''path'' (Some (JString path)) @
      js_field ''bytes'' (Some (js_int bytes)))"

definition attachments_value :: "agent_attachment list \<Rightarrow> jsval" where
  "attachments_value attachments = JArray (map attachment_value attachments)"

text \<open>
  Of a message the document leaves the remote identifier out and rejects remote attachments; every
  other kind is written with all of its fields.
\<close>

fun event_value :: "agent_turn_event \<Rightarrow> jsval" where
  "event_value (UserMessage message) = event_object KUserMessage
     (js_field ''remoteMessageId'' (map_option JString (um_remoteMessageId message)) @
      js_field ''text'' (Some (JString (um_text message))) @
      js_field ''attachments'' (map_option attachments_value (um_attachments message)))"
| "event_value (SubagentEvent agentThreadId event) = event_object KSubagentEvent
     (js_field ''agentThreadId'' (Some (JString agentThreadId)) @
      js_field ''event'' (Some (event_value event)))"
| "event_value event = (case serializeTurnEvent event of Inr written \<Rightarrow> written | Inl _ \<Rightarrow> JUndefined)"

section \<open>Turns\<close>

fun escalation_value :: "halt_escalation \<Rightarrow> jsval" where
  "escalation_value escalation = JObject
     (js_field ''source'' (Some (JString (js (escalation_source_literal (he_source escalation))))) @
      js_field ''requestedAtEpochMs'' (Some (js_int (he_requestedAtEpochMs escalation))))"

definition halt_value :: "halt_record \<Rightarrow> jsval" where
  "halt_value halt = JObject
     (js_field ''source'' (Some (JString (js (halt_source_literal (hr_source halt))))) @
      js_field ''mode'' (Some (JString (js (halt_mode_literal (hr_mode halt))))) @
      js_field ''requestedAtEpochMs'' (Some (js_int (hr_requestedAtEpochMs halt))) @
      js_field ''escalation'' (map_option escalation_value (hr_escalation halt)))"

fun launch_value :: "launch_options \<Rightarrow> jsval" where
  "launch_value (ClaudeLaunch opts) = serializeAgentLaunchOptions (ClaudeLaunch opts)"
| "launch_value (CodexLaunch opts) = JObject
     (js_field ''provider'' (Some (JString (js ''codex''))) @
      js_field ''model'' (Some (JString (cx_model opts))) @
      js_field ''mode'' (Some (JString (js (codex_mode_literal (cx_mode opts))))) @
      js_field ''effort'' (map_option (\<lambda>e. JString (js (codex_effort_literal e))) (cx_effort opts)))"

fun turn_origin_literal :: "turn_origin \<Rightarrow> string" where
  "turn_origin_literal BackgroundOrigin = ''background''"

fun retention_literal :: "events_retention \<Rightarrow> string" where
  "retention_literal ServerGap = ''serverGap''"
| "retention_literal ClientWindow = ''clientWindow''"

definition turn_value :: "agent_turn \<Rightarrow> jsval" where
  "turn_value turn = JObject
     (js_field ''codexTransport'' (map_option (\<lambda>t. JString (js (codex_transport_literal t))) (tn_codexTransport turn)) @
      js_field ''origin'' (map_option (\<lambda>x. JString (js (turn_origin_literal x))) (tn_origin turn)) @
      js_field ''turnId'' (Some (JString (tn_turnId turn))) @
      js_field ''prompt'' (Some (JString (tn_prompt turn))) @
      js_field ''status'' (Some (serializeTurnStatus (tn_status turn))) @
      js_field ''startedAtEpochMs'' (Some (js_int (tn_startedAtEpochMs turn))) @
      js_field ''endedAtEpochMs'' (Some (js_null js_int (tn_endedAtEpochMs turn))) @
      js_field ''events'' (Some (JArray (map event_value (tn_events turn)))) @
      js_field ''eventsTruncated'' (Some (JBool (tn_eventsTruncated turn))) @
      js_field ''eventsRetention'' (map_option (\<lambda>r. JString (js (retention_literal r))) (tn_eventsRetention turn)) @
      js_field ''lastStatusSequence'' (Some (js_int (tn_lastStatusSequence turn))) @
      js_field ''lastOutputSequence'' (Some (js_int (tn_lastOutputSequence turn))) @
      js_field ''queueBoundarySequence'' (map_option js_int (tn_queueBoundarySequence turn)) @
      js_field ''promptRestored'' (map_option JBool (tn_promptRestored turn)) @
      js_field ''haltRequested'' (map_option JBool (tn_haltRequested turn)) @
      js_field ''haltRequest'' (map_option halt_value (tn_haltRequest turn)) @
      js_field ''foregroundSettled'' (map_option JBool (tn_foregroundSettled turn)) @
      js_field ''firstEventOffset'' (map_option js_int (tn_firstEventOffset turn)) @
      js_field ''subagentLifecycle'' (map_option lifecycle_value (tn_subagentLifecycle turn)) @
      js_field ''streamMetrics'' (map_option (js_null metrics_value) (tn_streamMetrics turn)) @
      js_field ''launch'' (Some (js_null launch_value (tn_launch turn))) @
      js_field ''cliVersion'' (Some (js_null JString (tn_cliVersion turn))) @
      js_field ''attachments'' (map_option attachments_value (tn_attachments turn)))"

section \<open>Threads\<close>

definition origin_value :: "external_origin \<Rightarrow> jsval" where
  "origin_value origin = JObject
     (js_field ''provider'' (Some (JString (js (cli_kind_literal (eo_provider origin))))) @
      js_field ''sessionId'' (Some (JString (eo_sessionId origin))) @
      js_field ''importedAtEpochMs'' (Some (js_int (eo_importedAtEpochMs origin))) @
      js_field ''history'' (map_option history_value (eo_history origin)))"

definition thread_value :: "agent_thread \<Rightarrow> jsval" where
  "thread_value thread = JObject
     (js_field ''historyRevision'' (map_option js_int (th_historyRevision thread)) @
      js_field ''snoozedUntil'' (map_option (js_null js_int) (th_snoozedUntil thread)) @
      js_field ''settledAt'' (map_option (js_null js_int) (th_settledAt thread)) @
      js_field ''sortOrder'' (map_option (js_null js_sort_order) (th_sortOrder thread)) @
      js_field ''threadId'' (Some (JString (th_threadId thread))) @
      js_field ''owner'' (Some (owner_value (th_owner thread))) @
      js_field ''target'' (Some (target_value (th_target thread))) @
      js_field ''provider'' (Some (provider_value (th_provider thread))) @
      js_field ''title'' (Some (JString (th_title thread))) @
      js_field ''pinned'' (Some (JBool (th_pinned thread))) @
      js_field ''archived'' (Some (JBool (th_archived thread))) @
      js_field ''createdAtEpochMs'' (Some (js_int (th_createdAtEpochMs thread))) @
      js_field ''updatedAtEpochMs'' (Some (js_int (th_updatedAtEpochMs thread))) @
      js_field ''turns'' (Some (JArray (map turn_value (th_turns thread)))) @
      js_field ''turnsTruncated'' (Some (JBool (th_turnsTruncated thread))) @
      js_field ''integration'' (Some (serializeIntegration (th_integration thread))) @
      js_field ''viewedAtEpochMs'' (Some (js_null js_int (th_viewedAtEpochMs thread))) @
      js_field ''externalOrigin'' (Some (js_null origin_value (th_externalOrigin thread))))"

end
