(* ===== verification/TailCap.thy ===== *)
theory TailCap
  imports MemoryValue TailSelection PromptClip
begin

text \<open>
  Fitting a thread into its file, \<open>src/domain/agentThreadTailCap.ts\<close>: subagent metadata and prompts
  the log keeps are compacted first, every turn is cut to its tail, and the events that are left are
  dropped or clipped, oldest and least important first, until they fit. A \<open>TailSlot\<close> is mutable in
  the source; here an operation returns it, and a candidate names its slot by its position.
\<close>

section \<open>Sizes\<close>

definition MAX_PERSISTED_HISTORY_TURN_EVENT_BYTES :: nat where
  "MAX_PERSISTED_HISTORY_TURN_EVENT_BYTES = 512 * 1024"
definition MAX_PERSISTED_AGENT_THREAD_FILE_BYTES :: nat where
  "MAX_PERSISTED_AGENT_THREAD_FILE_BYTES = 1024 * 1024"
definition PERSISTED_AGENT_THREAD_FILE_MARGIN_BYTES :: nat where
  "PERSISTED_AGENT_THREAD_FILE_MARGIN_BYTES = 64 * 1024"
definition PERSISTED_AGENT_THREAD_FIT_SLACK_BYTES :: nat where
  "PERSISTED_AGENT_THREAD_FIT_SLACK_BYTES = 32 * 1024"
definition MAX_PERSISTED_THREAD_EVENT_BYTES :: int where
  "MAX_PERSISTED_THREAD_EVENT_BYTES =
     int MAX_PERSISTED_AGENT_THREAD_FILE_BYTES - int PERSISTED_AGENT_THREAD_FILE_MARGIN_BYTES -
     int PERSISTED_AGENT_THREAD_FIT_SLACK_BYTES"
definition PERSISTED_EVENT_SEPARATOR_BYTES :: nat where "PERSISTED_EVENT_SEPARATOR_BYTES = 1"

text \<open>Events are immutable, so the cache by identity of \<open>persistedAgentEventBytes\<close> changes no answer.\<close>

definition persistedAgentEventBytes :: "agent_turn_event \<Rightarrow> nat" where
  "persistedAgentEventBytes event = json_bytes (event_value event) + PERSISTED_EVENT_SEPARATOR_BYTES"

definition persistedAgentEventsBytes :: "agent_turn_event list \<Rightarrow> int" where
  "persistedAgentEventsBytes events = foldl (\<lambda>bytesLeft event. bytesLeft + int (persistedAgentEventBytes event)) 0 events"

definition persistedAgentThreadScaffoldBytes :: "agent_thread \<Rightarrow> int" where
  "persistedAgentThreadScaffoldBytes thread =
     int (json_bytes (thread_value (thread\<lparr>th_turns := map (\<lambda>turn. turn\<lparr>tn_events := []\<rparr>) (th_turns thread)\<rparr>)))"

section \<open>Metadata and prompts the log keeps\<close>

fun compact_turns ::
  "int \<Rightarrow> (js_string, lifecycle) js_map \<Rightarrow> agent_turn list \<Rightarrow> int \<Rightarrow> agent_turn list" where
  "compact_turns budgetBytes loggedLifecycles [] scaffold = []"
| "compact_turns budgetBytes loggedLifecycles (turn # turns) scaffold =
     (if scaffold \<le> budgetBytes then turn # turns
      else if \<not> isTerminalAgentTurnStatus (tn_status turn)
      then turn # compact_turns budgetBytes loggedLifecycles turns scaffold
      else
        case (tn_subagentLifecycle turn, map_of loggedLifecycles (tn_turnId turn)) of
          (Some lifecycle, Some logged) \<Rightarrow>
            let original = json_text (lifecycle_value lifecycle) in
            if original \<noteq> json_text (lifecycle_value logged)
            then turn # compact_turns budgetBytes loggedLifecycles turns scaffold
            else
              (case compactPersistedAgentSubagentLifecycle lifecycle of
                 None \<Rightarrow> turn # compact_turns budgetBytes loggedLifecycles turns scaffold
               | Some compacted \<Rightarrow>
                   let released = int (encodedUtf8ByteLength original) - int (json_bytes (lifecycle_value compacted)) in
                   if released \<le> 0 then turn # compact_turns budgetBytes loggedLifecycles turns scaffold
                   else turn\<lparr>tn_subagentLifecycle := Some compacted\<rparr> #
                     compact_turns budgetBytes loggedLifecycles turns (scaffold - released))
        | _ \<Rightarrow> turn # compact_turns budgetBytes loggedLifecycles turns scaffold)"

definition compactLoggedLifecycles ::
  "agent_thread \<Rightarrow> int \<Rightarrow> (js_string, lifecycle) js_map \<Rightarrow> agent_thread" where
  "compactLoggedLifecycles thread budgetBytes loggedLifecycles =
     (if length loggedLifecycles = 0 then thread
      else
        let scaffold = persistedAgentThreadScaffoldBytes thread in
        if scaffold \<le> budgetBytes then thread
        else thread\<lparr>th_turns := compact_turns budgetBytes loggedLifecycles (th_turns thread) scaffold\<rparr>)"

record prompt_projection =
  pj_thread :: agent_thread
  pj_scaffoldBytes :: int

definition isClippablePromptTurn :: "agent_turn \<Rightarrow> js_string js_set \<Rightarrow> bool" where
  "isClippablePromptTurn turn loggedPromptTurnIds \<longleftrightarrow>
     (if \<not> isTerminalAgentTurnStatus (tn_status turn) then False
      else if tn_turnId turn \<notin> set loggedPromptTurnIds then False
      else \<not> agentPromptLooksClipped (tn_prompt turn))"

definition jsonTextBytes :: "js_string \<Rightarrow> int" where
  "jsonTextBytes content = int (encodedUtf8ByteLength (json_text (JString content)))"

text \<open>The loop stops before the newest turn.\<close>

fun clip_prompts ::
  "int \<Rightarrow> js_string js_set \<Rightarrow> agent_turn list \<Rightarrow> int \<Rightarrow> agent_turn list \<times> int" where
  "clip_prompts budgetBytes logged (turn # later # turns) scaffold =
     (if scaffold \<le> budgetBytes then (turn # later # turns, scaffold)
      else
        let keep = (\<lambda>turn scaffold.
              case clip_prompts budgetBytes logged (later # turns) scaffold of (rest, left) \<Rightarrow> (turn # rest, left)) in
        if \<not> isClippablePromptTurn turn logged then keep turn scaffold
        else
          case clipAgentPromptForPersistence (tn_prompt turn) of
            None \<Rightarrow> keep turn scaffold
          | Some prompt \<Rightarrow>
              keep (turn\<lparr>tn_prompt := prompt\<rparr>)
                (scaffold - (jsonTextBytes (tn_prompt turn) - jsonTextBytes prompt)))"
| "clip_prompts budgetBytes logged turns scaffold = (turns, scaffold)"

definition clipLoggedPrompts :: "agent_thread \<Rightarrow> int \<Rightarrow> js_string js_set \<Rightarrow> prompt_projection" where
  "clipLoggedPrompts thread budgetBytes loggedPromptTurnIds =
     (let scaffold = persistedAgentThreadScaffoldBytes thread in
      if length loggedPromptTurnIds = 0 then \<lparr>pj_thread = thread, pj_scaffoldBytes = scaffold\<rparr>
      else if scaffold \<le> budgetBytes then \<lparr>pj_thread = thread, pj_scaffoldBytes = scaffold\<rparr>
      else
        let (turns, left) = clip_prompts budgetBytes loggedPromptTurnIds (th_turns thread) scaffold in
        \<lparr>pj_thread = thread\<lparr>th_turns := turns\<rparr>, pj_scaffoldBytes = left\<rparr>)"

section \<open>The tail of a turn\<close>

definition persisted_budget :: "nat \<Rightarrow> enat \<Rightarrow> tail_budget" where
  "persisted_budget eventLimit byteLimit =
     \<lparr>bg_maxEvents = eventLimit, bg_maxBytes = byteLimit, bg_eventBytes = persistedAgentEventBytes\<rparr>"

definition capTurnTail :: "agent_turn_event list \<Rightarrow> nat \<Rightarrow> enat \<Rightarrow> agent_turn_event list" where
  "capTurnTail events eventLimit byteLimit =
     (let budget = persisted_budget eventLimit byteLimit in
      if agentTurnTailFits events budget then events
      else kept_events events (selectAgentTurnTail events budget))"

fun is_assistantText :: "agent_turn_event \<Rightarrow> bool" where
  "is_assistantText (AssistantText _ _) = True"
| "is_assistantText _ = False"

fun user_message_indices :: "nat \<Rightarrow> agent_turn_event list \<Rightarrow> nat list" where
  "user_message_indices i [] = []"
| "user_message_indices i (event # events) =
     (if is_user_message event then i # user_message_indices (Suc i) events
      else user_message_indices (Suc i) events)"

definition add_last :: "agent_turn_event list \<Rightarrow> (agent_turn_event \<Rightarrow> bool) \<Rightarrow> nat js_set \<Rightarrow> nat js_set" where
  "add_last events of_kind kept =
     (case lastIndexWhere events of_kind of None \<Rightarrow> kept | Some index \<Rightarrow> set_add index kept)"

definition agentTurnSkeletonEvents :: "agent_turn_event list \<Rightarrow> agent_turn_event list" where
  "agentTurnSkeletonEvents events =
     kept_events events
       (add_last events is_assistantText (add_last events is_result (user_message_indices 0 events)))"

definition finalAnswerIndices :: "agent_turn_event list \<Rightarrow> nat js_set" where
  "finalAnswerIndices events = add_last events is_result (add_last events is_assistantText [])"

section \<open>Slots\<close>

record tail_slot =
  sl_source :: agent_turn
  sl_settled :: bool
  sl_events :: "agent_turn_event list"
  sl_draft :: "agent_turn_event list option"
  sl_bytes :: int
  sl_clipped :: bool

definition openSlot :: "agent_turn \<Rightarrow> tail_slot" where
  "openSlot turn =
     (let events = capTurnTail (tn_events turn) MAX_PERSISTED_AGENT_EVENTS_PER_TURN \<infinity> in
      \<lparr>sl_source = turn, sl_settled = isTerminalAgentTurnStatus (tn_status turn), sl_events = events,
       sl_draft = None, sl_bytes = persistedAgentEventsBytes events, sl_clipped = False\<rparr>)"

definition closeSlot :: "tail_slot \<Rightarrow> agent_turn" where
  "closeSlot slot =
     (let source = sl_source slot;
        trunc = (tn_eventsTruncated source \<or> sl_clipped slot \<or> length (sl_events slot) < length (tn_events source));
        intact = (\<not> sl_clipped slot \<and> length (sl_events slot) = length (tn_events source) \<and>
          trunc = tn_eventsTruncated source) in
      if intact then source else source\<lparr>tn_events := sl_events slot, tn_eventsTruncated := trunc\<rparr>)"

definition replaceEvents :: "tail_slot \<Rightarrow> agent_turn_event list \<Rightarrow> tail_slot \<times> int" where
  "replaceEvents slot events =
     (let bytes = persistedAgentEventsBytes events in
      (slot\<lparr>sl_events := events, sl_draft := None, sl_bytes := bytes\<rparr>, sl_bytes slot - bytes))"

definition shrinkToSkeleton :: "tail_slot \<Rightarrow> tail_slot \<times> int" where
  "shrinkToSkeleton slot = replaceEvents slot (agentTurnSkeletonEvents (sl_events slot))"

text \<open>The draft is the slot's own copy of its events, and \<open>events\<close> is that copy from then on.\<close>

definition draftEvents :: "tail_slot \<Rightarrow> agent_turn_event list \<times> tail_slot" where
  "draftEvents slot =
     (case sl_draft slot of
        Some draft \<Rightarrow> (draft, slot)
      | None \<Rightarrow> (sl_events slot, slot\<lparr>sl_draft := Some (sl_events slot)\<rparr>))"

definition write_draft :: "tail_slot \<Rightarrow> nat \<Rightarrow> agent_turn_event \<Rightarrow> tail_slot" where
  "write_draft slot index event =
     (let (draft, slot) = draftEvents slot in
      slot\<lparr>sl_draft := Some (draft[index := event]), sl_events := draft[index := event]\<rparr>)"

section \<open>Dropping and clipping\<close>

fun shrink_settled :: "int \<Rightarrow> tail_slot list \<Rightarrow> int \<Rightarrow> tail_slot list \<times> int" where
  "shrink_settled budgetBytes [] bytesLeft = ([], bytesLeft)"
| "shrink_settled budgetBytes (slot # slotList) bytesLeft =
     (if bytesLeft \<le> budgetBytes then (slot # slotList, bytesLeft)
      else if \<not> sl_settled slot
      then (case shrink_settled budgetBytes slotList bytesLeft of (rest, left) \<Rightarrow> (slot # rest, left))
      else
        case shrinkToSkeleton slot of (slot, released) \<Rightarrow>
          (case shrink_settled budgetBytes slotList (bytesLeft - released) of (rest, left) \<Rightarrow> (slot # rest, left)))"

text \<open>The inner loop of \<open>dropOldestEvents\<close>: \<open>index\<close> is the place of the first event in its slot of \<open>slotSize\<close> events.\<close>

fun drop_events ::
  "int \<Rightarrow> bool \<Rightarrow> nat js_set \<Rightarrow> nat \<Rightarrow> nat \<Rightarrow> agent_turn_event list \<Rightarrow> int \<Rightarrow> agent_turn_event list \<times> int" where
  "drop_events budgetBytes sacrificePinned guarded slotSize index [] bytesLeft = ([], bytesLeft)"
| "drop_events budgetBytes sacrificePinned guarded slotSize index (event # events) bytesLeft =
     (let droppable = (bytesLeft > budgetBytes \<and> index < slotSize - 1 \<and> index \<notin> set guarded \<and>
            (sacrificePinned \<or> \<not> is_user_message event)) in
      if \<not> droppable
      then (case drop_events budgetBytes sacrificePinned guarded slotSize (Suc index) events bytesLeft of
              (retained, left) \<Rightarrow> (event # retained, left))
      else drop_events budgetBytes sacrificePinned guarded slotSize (Suc index) events
             (bytesLeft - int (persistedAgentEventBytes event)))"

fun dropOldestEvents :: "int \<Rightarrow> bool \<Rightarrow> tail_slot list \<Rightarrow> int \<Rightarrow> tail_slot list \<times> int" where
  "dropOldestEvents budgetBytes sacrificePinned [] bytesLeft = ([], bytesLeft)"
| "dropOldestEvents budgetBytes sacrificePinned (slot # slotList) bytesLeft =
     (if bytesLeft \<le> budgetBytes then (slot # slotList, bytesLeft)
      else
        let guarded = (if slotList = [] then finalAnswerIndices (sl_events slot) else []);
          (retained, left) =
            drop_events budgetBytes sacrificePinned guarded (length (sl_events slot)) 0 (sl_events slot) bytesLeft;
          slot = (if length retained = length (sl_events slot) then slot else fst (replaceEvents slot retained));
          (rest, left) = dropOldestEvents budgetBytes sacrificePinned slotList left in
        (slot # rest, left))"

definition SETTLED_OUTPUT_TIER :: nat where "SETTLED_OUTPUT_TIER = 0"
definition SETTLED_STEER_TIER :: nat where "SETTLED_STEER_TIER = 1"
definition LIVE_OUTPUT_TIER :: nat where "LIVE_OUTPUT_TIER = 2"
definition LIVE_STEER_TIER :: nat where "LIVE_STEER_TIER = 3"
definition FINAL_ANSWER_TIER :: nat where "FINAL_ANSWER_TIER = 4"

definition SACRIFICE_TIERS :: "nat list" where
  "SACRIFICE_TIERS =
     [SETTLED_OUTPUT_TIER, SETTLED_STEER_TIER, LIVE_OUTPUT_TIER, LIVE_STEER_TIER, FINAL_ANSWER_TIER]"

definition CLIPPED_EVENT_TEXT_STEPS :: "nat list" where
  "CLIPPED_EVENT_TEXT_STEPS = [4096, 1024, 256, 0]"

record sacrifice_candidate =
  ca_position :: nat
  ca_index :: nat
  ca_tier :: nat
  ca_bytes :: nat

definition sacrificeTier :: "tail_slot \<Rightarrow> agent_turn_event \<Rightarrow> bool \<Rightarrow> nat" where
  "sacrificeTier slot event guarded =
     (if guarded then FINAL_ANSWER_TIER
      else if sl_settled slot \<and> \<not> is_user_message event then SETTLED_OUTPUT_TIER
      else if sl_settled slot then SETTLED_STEER_TIER
      else if \<not> is_user_message event then LIVE_OUTPUT_TIER
      else LIVE_STEER_TIER)"

definition compareSacrifice :: "sacrifice_candidate \<Rightarrow> sacrifice_candidate \<Rightarrow> int" where
  "compareSacrifice left right =
     (if ca_tier left \<noteq> ca_tier right then int (ca_tier left) - int (ca_tier right)
      else if ca_position left \<noteq> ca_position right then int (ca_position left) - int (ca_position right)
      else if ca_bytes left \<noteq> ca_bytes right then int (ca_bytes right) - int (ca_bytes left)
      else int (ca_index left) - int (ca_index right))"

definition slot_candidates :: "nat \<Rightarrow> nat js_set \<Rightarrow> tail_slot \<Rightarrow> sacrifice_candidate list" where
  "slot_candidates position guarded slot =
     map (\<lambda>(index, event).
       \<lparr>ca_position = position, ca_index = index, ca_tier = sacrificeTier slot event (index \<in> set guarded),
        ca_bytes = persistedAgentEventBytes event\<rparr>) (zip [0..<length (sl_events slot)] (sl_events slot))"

definition rankSacrifice :: "tail_slot list \<Rightarrow> sacrifice_candidate list" where
  "rankSacrifice slotList =
     js_sort compareSacrifice (concat (map (\<lambda>(position, slot).
       let guarded = (if position = length slotList - 1 then finalAnswerIndices (sl_events slot) else []) in
       slot_candidates position guarded slot) (zip [0..<length slotList] slotList)))"

fun isSubagentContentEvent :: "agent_turn_event \<Rightarrow> bool" where
  "isSubagentContentEvent (AssistantText _ _) = True"
| "isSubagentContentEvent (Reasoning _ _) = True"
| "isSubagentContentEvent (ToolCall _) = True"
| "isSubagentContentEvent (ToolResult _) = True"
| "isSubagentContentEvent _ = False"

text \<open>The shape of every case: the clipped field in a new event, nothing when the clip changes nothing.\<close>

definition clipped_field :: "js_string \<Rightarrow> nat \<Rightarrow> (js_string \<Rightarrow> agent_turn_event) \<Rightarrow> agent_turn_event option" where
  "clipped_field content limitBytes rebuilt =
     (let clipped = clipUtf8Text content limitBytes in if clipped = content then None else Some (rebuilt clipped))"

fun clipEventText :: "agent_turn_event \<Rightarrow> nat \<Rightarrow> agent_turn_event option" where
  "clipEventText (AssistantText content parent) limitBytes = clipped_field content limitBytes (\<lambda>t. AssistantText t parent)"
| "clipEventText (Reasoning content parent) limitBytes = clipped_field content limitBytes (\<lambda>t. Reasoning t parent)"
| "clipEventText (UserMessage message) limitBytes =
     clipped_field (um_text message) limitBytes (\<lambda>t. UserMessage (message\<lparr>um_text := t\<rparr>))"
| "clipEventText (Result result) limitBytes =
     clipped_field (res_text result) limitBytes (\<lambda>t. Result (result\<lparr>res_text := t\<rparr>))"
| "clipEventText (ErrorEvent message) limitBytes = clipped_field message limitBytes ErrorEvent"
| "clipEventText (ContextCompactionStatus status message) limitBytes =
     (case message of
        None \<Rightarrow> None
      | Some message \<Rightarrow> clipped_field message limitBytes (\<lambda>t. ContextCompactionStatus status (Some t)))"
| "clipEventText (UnknownLine stream raw clipped) limitBytes =
     clipped_field raw limitBytes (\<lambda>t. UnknownLine stream t True)"
| "clipEventText (ToolCall call) limitBytes =
     clipped_field (tc_inputSummary call) limitBytes (\<lambda>t. ToolCall (call\<lparr>tc_inputSummary := t\<rparr>))"
| "clipEventText (ToolResult result) limitBytes =
     clipped_field (tr_outputSummary result) limitBytes (\<lambda>t. ToolResult (result\<lparr>tr_outputSummary := t\<rparr>))"
| "clipEventText (SubagentEvent agentThreadId event) limitBytes =
     (case clipEventText event limitBytes of
        None \<Rightarrow> None
      | Some inner \<Rightarrow> if \<not> isSubagentContentEvent inner then None else Some (SubagentEvent agentThreadId inner))"
| "clipEventText _ limitBytes = None"

definition clipCandidate :: "tail_slot list \<Rightarrow> sacrifice_candidate \<Rightarrow> nat \<Rightarrow> tail_slot list \<times> int" where
  "clipCandidate slotList candidate limitBytes =
     (let slot = slotList ! ca_position candidate in
      case nth_opt (sl_events slot) (ca_index candidate) of
        None \<Rightarrow> (slotList, 0)
      | Some event \<Rightarrow>
          let size = persistedAgentEventBytes event in
          if size \<le> limitBytes then (slotList, 0)
          else
            case clipEventText event limitBytes of
              None \<Rightarrow> (slotList, 0)
            | Some clipped \<Rightarrow>
                let after = persistedAgentEventBytes clipped in
                if after \<ge> size then (slotList, 0)
                else
                  let released = int size - int after;
                    slot = write_draft slot (ca_index candidate) clipped;
                    slot = slot\<lparr>sl_bytes := sl_bytes slot - released, sl_clipped := True\<rparr> in
                  (slotList[ca_position candidate := slot], released))"

fun clip_candidates ::
  "int \<Rightarrow> nat \<Rightarrow> sacrifice_candidate list \<Rightarrow> tail_slot list \<times> int \<Rightarrow> tail_slot list \<times> int" where
  "clip_candidates budgetBytes limitBytes [] (slotList, bytesLeft) = (slotList, bytesLeft)"
| "clip_candidates budgetBytes limitBytes (candidate # ranked) (slotList, bytesLeft) =
     (if bytesLeft \<le> budgetBytes then (slotList, bytesLeft)
      else
        case clipCandidate slotList candidate limitBytes of (slotList, released) \<Rightarrow>
          clip_candidates budgetBytes limitBytes ranked (slotList, bytesLeft - released))"

definition clipRetainedText ::
  "int \<Rightarrow> sacrifice_candidate list \<Rightarrow> tail_slot list \<times> int \<Rightarrow> tail_slot list \<times> int" where
  "clipRetainedText budgetBytes candidates state =
     foldl (\<lambda>state tier.
       foldl (\<lambda>state limitBytes.
         clip_candidates budgetBytes limitBytes (filter (\<lambda>candidate. ca_tier candidate = tier) candidates) state)
         state CLIPPED_EVENT_TEXT_STEPS)
       state SACRIFICE_TIERS"

text \<open>The indices to drop, by the position of their slot.\<close>

fun sacrificed_indices ::
  "int \<Rightarrow> tail_slot list \<Rightarrow> sacrifice_candidate list \<Rightarrow> (nat, nat js_set) js_map \<Rightarrow> int \<Rightarrow> (nat, nat js_set) js_map" where
  "sacrificed_indices budgetBytes slotList [] sacrificed bytesLeft = sacrificed"
| "sacrificed_indices budgetBytes slotList (candidate # candidates) sacrificed bytesLeft =
     (if bytesLeft \<le> budgetBytes then sacrificed
      else
        case nth_opt (sl_events (slotList ! ca_position candidate)) (ca_index candidate) of
          None \<Rightarrow> sacrificed_indices budgetBytes slotList candidates sacrificed bytesLeft
        | Some event \<Rightarrow>
            let indices = (case map_of sacrificed (ca_position candidate) of None \<Rightarrow> [] | Some kept \<Rightarrow> kept) in
            sacrificed_indices budgetBytes slotList candidates
              (AList.update (ca_position candidate) (set_add (ca_index candidate) indices) sacrificed)
              (bytesLeft - int (persistedAgentEventBytes event)))"

definition without_indices :: "'a list \<Rightarrow> nat js_set \<Rightarrow> 'a list" where
  "without_indices xs indices = nths xs (- set indices)"

definition dropSacrificedEvents :: "int \<Rightarrow> sacrifice_candidate list \<Rightarrow> tail_slot list \<times> int \<Rightarrow> tail_slot list" where
  "dropSacrificedEvents budgetBytes candidates state =
     (case state of (slotList, bytesLeft) \<Rightarrow>
        foldl (\<lambda>slotList (position, indices).
          slotList[position := fst (replaceEvents (slotList ! position)
            (without_indices (sl_events (slotList ! position)) indices))])
          slotList (sacrificed_indices budgetBytes slotList candidates [] bytesLeft))"

definition fitThreadBudget :: "tail_slot list \<Rightarrow> int \<Rightarrow> tail_slot list" where
  "fitThreadBudget slotList budgetBytes =
     (let bytesLeft = foldl (\<lambda>sum slot. sum + sl_bytes slot) 0 slotList in
      if bytesLeft \<le> budgetBytes then slotList
      else
        let (slotList, bytesLeft) = shrink_settled budgetBytes slotList bytesLeft;
          (slotList, bytesLeft) = dropOldestEvents budgetBytes False slotList bytesLeft;
          (slotList, bytesLeft) = dropOldestEvents budgetBytes True slotList bytesLeft in
        if bytesLeft \<le> budgetBytes then slotList
        else
          let candidates = rankSacrifice slotList;
            (slotList, bytesLeft) = clipRetainedText budgetBytes candidates (slotList, bytesLeft) in
          if bytesLeft \<le> budgetBytes then slotList else dropSacrificedEvents budgetBytes candidates (slotList, bytesLeft))"

definition capAgentThreadForPersistence ::
  "agent_thread \<Rightarrow> int \<Rightarrow> js_string js_set \<Rightarrow> (js_string, lifecycle) js_map \<Rightarrow> agent_thread" where
  "capAgentThreadForPersistence thread eventBudgetBytes loggedPromptTurnIds loggedLifecycles =
     (let compacted = compactLoggedLifecycles thread eventBudgetBytes loggedLifecycles;
        projection = clipLoggedPrompts compacted eventBudgetBytes loggedPromptTurnIds;
        projected = pj_thread projection;
        slotList = fitThreadBudget (map openSlot (th_turns projected))
          (max (eventBudgetBytes - pj_scaffoldBytes projection) 0);
        turns = map closeSlot slotList in
      if turns = map sl_source slotList then projected else projected\<lparr>th_turns := turns\<rparr>)"

end
