(* ===== verification/TailCapLaws.thy ===== *)
theory TailCapLaws
  imports TailCap TailLaws JsonBytes
begin

text \<open>
  The cap of \<open>TailCap\<close> keeps its accounts: the running total is the size of the events still held,
  what a slot holds comes from the events of its turn, shortened at most, and what is left at the
  end fits the budget.
\<close>

section \<open>Byte sums\<close>

abbreviation event_sum :: "agent_turn_event list \<Rightarrow> int" where
  "event_sum events \<equiv> (\<Sum>e\<leftarrow>events. int (persistedAgentEventBytes e))"

lemma persistedAgentEventsBytes_sum: "persistedAgentEventsBytes events = event_sum events"
proof -
  have "foldl (\<lambda>total event. total + int (persistedAgentEventBytes event)) n events = n + event_sum events" for n
    by (induction events arbitrary: n) (simp_all add: algebra_simps)
  then show ?thesis by (simp add: persistedAgentEventsBytes_def)
qed

lemma event_sum_nonneg [simp]: "0 \<le> event_sum events"
  by (induction events) simp_all

lemma event_sum_pos: "event_sum events \<le> 0 \<Longrightarrow> events = []"
proof (cases events)
  case (Cons e es)
  have "0 < persistedAgentEventBytes e" by (simp add: persistedAgentEventBytes_def PERSISTED_EVENT_SEPARATOR_BYTES_def)
  moreover assume "event_sum events \<le> 0"
  ultimately show ?thesis using event_sum_nonneg [of es] Cons by simp
qed simp

section \<open>Where the events of a slot come from\<close>

definition shortened :: "agent_turn_event \<Rightarrow> agent_turn_event \<Rightarrow> bool" where
  "shortened event original \<longleftrightarrow> (\<lambda>e e'. \<exists>limit. clipEventText e limit = Some e')\<^sup>*\<^sup>* original event"

lemma shortened_refl [simp]: "shortened e e"
  by (simp add: shortened_def)

lemma shortened_trans: "shortened a b \<Longrightarrow> shortened b c \<Longrightarrow> shortened a c"
  by (auto simp: shortened_def)

lemma shortened_clip: "clipEventText e limit = Some e' \<Longrightarrow> shortened e' e"
  by (auto simp: shortened_def)

text \<open>Some of the original events in their order, each possibly shortened.\<close>

abbreviation drawn_from :: "agent_turn_event list \<Rightarrow> agent_turn_event list \<Rightarrow> bool" where
  "drawn_from events original \<equiv> list_emb shortened events original"

lemma drawn_from_trans: "drawn_from xs ys \<Longrightarrow> drawn_from ys zs \<Longrightarrow> drawn_from xs zs"
  by (rule list_emb_trans) (auto intro: shortened_trans)

lemma drawn_from_subseq: "subseq xs ys \<Longrightarrow> drawn_from xs ys"
  using list_emb_mono [of "(=)" shortened xs ys] by auto

lemma drawn_from_refl [simp]: "drawn_from xs xs"
  by (simp add: drawn_from_subseq)

lemma drawn_from_update:
  "i < length xs \<Longrightarrow> shortened e (xs ! i) \<Longrightarrow> drawn_from (xs[i := e]) xs"
proof (induction xs arbitrary: i)
  case (Cons x xs)
  then show ?case by (cases i) auto
qed simp

lemma subseq_kept_events: "subseq (kept_events events kept) events"
  by (auto simp: kept_events_def subseq_conv_nths)

lemma subseq_without: "subseq (without_indices xs indices) xs"
  by (auto simp: without_indices_def subseq_conv_nths)

section \<open>Accounts\<close>

abbreviation tail_of :: "agent_turn \<Rightarrow> agent_turn_event list" where
  "tail_of turn \<equiv> capTurnTail (tn_events turn) MAX_PERSISTED_AGENT_EVENTS_PER_TURN \<infinity>"

lemma subseq_tail: "subseq (capTurnTail events n limit) events"
  by (simp add: capTurnTail_def Let_def subseq_kept_events)

definition slot_ok :: "tail_slot \<Rightarrow> bool" where
  "slot_ok slot \<longleftrightarrow>
     sl_bytes slot = event_sum (sl_events slot) \<and> pred_option ((=) (sl_events slot)) (sl_draft slot) \<and>
     drawn_from (sl_events slot) (tail_of (sl_source slot)) \<and>
     (sl_clipped slot \<or> subseq (sl_events slot) (tail_of (sl_source slot)))"

abbreviation slot_sum :: "tail_slot list \<Rightarrow> int" where
  "slot_sum tails \<equiv> sum_list (map sl_bytes tails)"

text \<open>The running total also covers what the loop has passed, \<open>base\<close>.\<close>

definition accounted :: "int \<Rightarrow> agent_turn list \<Rightarrow> tail_slot list \<Rightarrow> int \<Rightarrow> bool" where
  "accounted base sources tails held \<longleftrightarrow>
     list_all slot_ok tails \<and> map sl_source tails = sources \<and> held = base + slot_sum tails"

lemma accounted_Nil [simp]: "accounted base sources [] held \<longleftrightarrow> sources = [] \<and> held = base"
  by (auto simp: accounted_def)

lemma accounted_Cons [simp]:
  "accounted base sources (slot # tails) held \<longleftrightarrow>
     slot_ok slot \<and> (\<exists>rest. sources = sl_source slot # rest \<and> accounted (base + sl_bytes slot) rest tails held)"
  by (auto simp: accounted_def)

lemma accounted_shift: "accounted (base + d) sources tails (held + d) \<longleftrightarrow> accounted base sources tails held"
  by (auto simp: accounted_def)

lemma openSlot_ok: "slot_ok (openSlot turn)" "sl_source (openSlot turn) = turn"
  by (simp_all add: openSlot_def Let_def slot_ok_def persistedAgentEventsBytes_sum)

lemma replaceEvents_ok:
  assumes "slot_ok slot" and "subseq events (sl_events slot)"
  shows "slot_ok (fst (replaceEvents slot events))"
    and "sl_bytes (fst (replaceEvents slot events)) = sl_bytes slot - snd (replaceEvents slot events)"
    and "sl_source (fst (replaceEvents slot events)) = sl_source slot"
    and "sl_events (fst (replaceEvents slot events)) = events"
    and "sl_bytes (fst (replaceEvents slot events)) = event_sum events"
  using assms drawn_from_trans [OF drawn_from_subseq [OF assms(2)]]
  by (auto simp: replaceEvents_def Let_def slot_ok_def persistedAgentEventsBytes_sum intro: subseq_order.trans)

lemma shrinkToSkeleton_ok:
  assumes "slot_ok slot"
  shows "slot_ok (fst (shrinkToSkeleton slot))" "sl_source (fst (shrinkToSkeleton slot)) = sl_source slot"
    "sl_bytes (fst (shrinkToSkeleton slot)) = sl_bytes slot - snd (shrinkToSkeleton slot)"
  using replaceEvents_ok [OF assms, of "agentTurnSkeletonEvents (sl_events slot)"]
  by (simp_all add: shrinkToSkeleton_def agentTurnSkeletonEvents_def subseq_kept_events)

lemma shrink_settled_accounted:
  "accounted base sources tails held \<Longrightarrow>
     accounted base sources (fst (shrink_settled budget tails held)) (snd (shrink_settled budget tails held))"
proof (induction tails arbitrary: base sources held)
  case (Cons slot tails)
  then obtain rest where ok: "slot_ok slot" "sources = sl_source slot # rest"
    "accounted (base + sl_bytes slot) rest tails held" by auto
  let ?released = "snd (shrinkToSkeleton slot)"
  note shrunk = shrinkToSkeleton_ok [OF ok(1)]
  have "accounted (base + sl_bytes (fst (shrinkToSkeleton slot))) rest tails (held - ?released)"
    using ok(3) accounted_shift [of "base + sl_bytes slot" "- ?released" rest tails held]
    by (simp add: shrunk(3) add_diff_eq)
  from Cons.IH [OF this] Cons.IH [OF ok(3)] ok shrunk(1,2)
  show ?case by (simp add: case_prod_beta)
qed simp

lemma drop_events_spec:
  "subseq (fst (drop_events budget pinned guarded n i events held)) events \<and>
   snd (drop_events budget pinned guarded n i events held) =
     held - event_sum events + event_sum (fst (drop_events budget pinned guarded n i events held))"
  by (induction events arbitrary: i held) (auto simp: Let_def case_prod_beta)

lemma dropOldestEvents_accounted:
  "accounted base sources tails held \<Longrightarrow>
     accounted base sources (fst (dropOldestEvents budget pinned tails held)) (snd (dropOldestEvents budget pinned tails held))"
proof (induction tails arbitrary: base sources held)
  case (Cons slot tails)
  then obtain rest where ok: "slot_ok slot" "sources = sl_source slot # rest"
    "accounted (base + sl_bytes slot) rest tails held" by auto
  define guarded where "guarded = (if tails = [] then finalAnswerIndices (sl_events slot) else [])"
  define dropped where
    "dropped = drop_events budget pinned guarded (length (sl_events slot)) 0 (sl_events slot) held"
  define slot' where
    "slot' = (if length (fst dropped) = length (sl_events slot) then slot else fst (replaceEvents slot (fst dropped)))"
  have sub: "subseq (fst dropped) (sl_events slot)"
    and left: "snd dropped = held - event_sum (sl_events slot) + event_sum (fst dropped)"
    using drop_events_spec [of budget pinned guarded "length (sl_events slot)" 0 "sl_events slot" held]
    by (simp_all add: dropped_def)
  have slot': "slot_ok slot'" "sl_source slot' = sl_source slot" "sl_bytes slot' = event_sum (fst dropped)"
    using ok(1) sub replaceEvents_ok [OF ok(1) sub] subseq_same_length [OF sub]
    by (auto simp: slot'_def slot_ok_def)
  have "accounted (base + sl_bytes slot') rest tails (snd dropped)"
    using ok accounted_shift [of "base + sl_bytes slot" "sl_bytes slot' - sl_bytes slot" rest tails held]
    by (simp add: left slot'(3) slot_ok_def algebra_simps)
  note rest' = Cons.IH [OF this]
  have step: "dropOldestEvents budget pinned (slot # tails) held =
      (if held \<le> budget then (slot # tails, held)
       else (slot' # fst (dropOldestEvents budget pinned tails (snd dropped)),
         snd (dropOldestEvents budget pinned tails (snd dropped))))"
    by (simp add: Let_def case_prod_beta guarded_def dropped_def slot'_def)
  show ?case unfolding step using rest' ok slot' Cons.prems by simp
qed simp

section \<open>Clipping\<close>

text \<open>The places of the events, which no clip changes.\<close>

abbreviation places :: "tail_slot list \<Rightarrow> nat list" where
  "places tails \<equiv> map (\<lambda>slot. length (sl_events slot)) tails"

lemma int_sum_update:
  "i < length xs \<Longrightarrow> (\<Sum>x\<leftarrow>xs[i := y]. f x) = (\<Sum>x\<leftarrow>xs. f x) - f (xs ! i) + (f y :: int)"
proof (induction xs arbitrary: i)
  case (Cons x xs)
  then show ?case by (cases i) simp_all
qed simp

lemma event_sum_update:
  "i < length events \<Longrightarrow>
     event_sum (events[i := e]) = event_sum events - int (persistedAgentEventBytes (events ! i)) + int (persistedAgentEventBytes e)"
  by (rule int_sum_update)

lemma slot_sum_update:
  "p < length tails \<Longrightarrow> slot_sum (tails[p := slot]) = slot_sum tails - sl_bytes (tails ! p) + sl_bytes slot"
  by (rule int_sum_update)

lemma write_draft_ok:
  assumes "slot_ok slot" and "i < length (sl_events slot)" and "shortened e (sl_events slot ! i)"
  shows "sl_events (write_draft slot i e) = (sl_events slot)[i := e]"
    and "slot_ok (write_draft slot i e\<lparr>sl_bytes := sl_bytes slot - (int (persistedAgentEventBytes (sl_events slot ! i)) -
      int (persistedAgentEventBytes e)), sl_clipped := True\<rparr>)"
    and "sl_source (write_draft slot i e) = sl_source slot" and "sl_bytes (write_draft slot i e) = sl_bytes slot"
proof -
  have same: "fst (draftEvents slot) = sl_events slot" and frame: "sl_source (snd (draftEvents slot)) = sl_source slot"
    "sl_bytes (snd (draftEvents slot)) = sl_bytes slot"
    using assms(1) by (auto simp: draftEvents_def slot_ok_def split: option.split)
  then show events: "sl_events (write_draft slot i e) = (sl_events slot)[i := e]"
    and source: "sl_source (write_draft slot i e) = sl_source slot" and "sl_bytes (write_draft slot i e) = sl_bytes slot"
    by (simp_all add: write_draft_def case_prod_beta)
  have "sl_draft (write_draft slot i e) = Some ((sl_events slot)[i := e])"
    by (simp add: write_draft_def case_prod_beta same)
  then show "slot_ok (write_draft slot i e\<lparr>sl_bytes := sl_bytes slot - (int (persistedAgentEventBytes (sl_events slot ! i)) -
      int (persistedAgentEventBytes e)), sl_clipped := True\<rparr>)"
    using assms drawn_from_trans [OF drawn_from_update [OF assms(2,3)]]
    by (auto simp: slot_ok_def events source event_sum_update)
qed

lemma list_all_update: "list_all P xs \<Longrightarrow> P x \<Longrightarrow> list_all P (xs[i := x])"
  by (auto simp: list_all_iff dest: set_update_subset_insert [THEN subsetD])

lemma clipCandidate_accounted:
  assumes "accounted base sources tails held" and "ca_position candidate < length tails"
  shows "accounted base sources (fst (clipCandidate tails candidate limit)) (held - snd (clipCandidate tails candidate limit)) \<and>
    places (fst (clipCandidate tails candidate limit)) = places tails"
proof -
  let ?slot = "tails ! ca_position candidate"
  have ok: "slot_ok ?slot" using assms by (simp add: accounted_def list_all_length)
  have sources: "map sl_source tails ! ca_position candidate = sl_source ?slot"
    "places tails ! ca_position candidate = length (sl_events ?slot)" using assms(2) by simp_all
  show ?thesis
  proof (cases "snd (clipCandidate tails candidate limit) = 0")
    case True
    then have "fst (clipCandidate tails candidate limit) = tails"
      by (auto simp: clipCandidate_def Let_def split: option.splits if_splits)
    with True assms show ?thesis by simp
  next
    case False
    then obtain e where i: "ca_index candidate < length (sl_events ?slot)"
      and clip: "clipEventText (sl_events ?slot ! ca_index candidate) limit = Some e"
      and result: "clipCandidate tails candidate limit =
        (let released = int (persistedAgentEventBytes (sl_events ?slot ! ca_index candidate)) - int (persistedAgentEventBytes e) in
         (tails[ca_position candidate := (write_draft ?slot (ca_index candidate) e)
            \<lparr>sl_bytes := sl_bytes ?slot - released, sl_clipped := True\<rparr>], released))"
      using write_draft_ok(4) [OF ok]
      by (auto simp: clipCandidate_def Let_def nth_opt_def dest: shortened_clip split: option.splits if_splits)
    note written = write_draft_ok [OF ok i shortened_clip [OF clip]]
    have "map sl_source (tails[ca_position candidate := s]) = map sl_source tails" if "sl_source s = sl_source ?slot" for s
      using that sources(1) by (simp add: map_update list_update_same_conv assms(2))
    moreover have "places (tails[ca_position candidate := s]) = places tails" if "length (sl_events s) = length (sl_events ?slot)" for s
      using that sources(2) by (simp add: map_update list_update_same_conv assms(2))
    ultimately show ?thesis
      using assms written unfolding result
      by (auto simp: accounted_def Let_def slot_sum_update intro!: list_all_update)
  qed
qed

lemma clip_candidates_accounted:
  "accounted base sources tails held \<Longrightarrow> \<forall>c \<in> set candidates. ca_position c < length tails \<Longrightarrow>
     clip_candidates budget limit candidates (tails, held) = (tails', held') \<Longrightarrow>
     accounted base sources tails' held' \<and> places tails' = places tails"
proof (induction candidates arbitrary: tails held)
  case (Cons c candidates)
  show ?case
  proof (cases "held \<le> budget")
    case False
    let ?next = "clipCandidate tails c limit"
    have "accounted base sources (fst ?next) (held - snd ?next)" "places (fst ?next) = places tails"
      using clipCandidate_accounted [OF Cons.prems(1)] Cons.prems(2) by simp_all
    moreover have "length (fst ?next) = length tails"
      using arg_cong [OF \<open>places (fst ?next) = places tails\<close>, of length] by simp
    ultimately show ?thesis
      using Cons.IH [of "fst ?next" "held - snd ?next"] Cons.prems False by (simp add: case_prod_beta)
  qed (use Cons.prems in auto)
qed simp

lemma foldl_invariant:
  "P s \<Longrightarrow> (\<And>s x. P s \<Longrightarrow> x \<in> set xs \<Longrightarrow> P (f s x)) \<Longrightarrow> P (foldl f s xs)"
  by (induction xs arbitrary: s) auto

lemma clipRetainedText_accounted:
  assumes "accounted base sources tails held" and "\<forall>c \<in> set candidates. ca_position c < length tails"
    and "clipRetainedText budget candidates (tails, held) = (tails', held')"
  shows "accounted base sources tails' held' \<and> places tails' = places tails"
proof -
  define holds where "holds = (\<lambda>state. accounted base sources (fst state) (snd state) \<and> places (fst state) = places tails)"
  have step: "holds (clip_candidates budget limit (filter P candidates) state)" if state: "holds state" for state limit P
  proof -
    have "length (fst state) = length tails" using state by (metis holds_def length_map)
    then show ?thesis
      using clip_candidates_accounted [of base sources "fst state" "snd state" "filter P candidates" budget limit]
        state assms(2) by (cases "clip_candidates budget limit (filter P candidates) (fst state, snd state)")
          (auto simp: holds_def)
  qed
  have steps: "holds (foldl (\<lambda>state limit. clip_candidates budget limit (filter P candidates) state) state limits)"
    if "holds state" for state limits P
    by (rule foldl_invariant [where P = holds]) (use that step in blast)+
  have "holds (clipRetainedText budget candidates (tails, held))"
    unfolding clipRetainedText_def
  proof (rule foldl_invariant [where P = holds])
    show "holds (tails, held)" using assms(1) by (simp add: holds_def)
  qed (rule steps)
  then show ?thesis by (simp add: holds_def assms(3))
qed

section \<open>Sacrificing whole events\<close>

abbreviation place_of :: "sacrifice_candidate \<Rightarrow> nat \<times> nat" where
  "place_of c \<equiv> (ca_position c, ca_index c)"

definition marked :: "(nat, nat js_set) js_map \<Rightarrow> nat \<Rightarrow> nat set" where
  "marked sacrificed position = (case map_of sacrificed position of None \<Rightarrow> {} | Some indices \<Rightarrow> set indices)"

definition unmarked_sum :: "tail_slot list \<Rightarrow> (nat, nat js_set) js_map \<Rightarrow> int" where
  "unmarked_sum tails sacrificed =
     (\<Sum>p<length tails. event_sum (nths (sl_events (tails ! p)) (- marked sacrificed p)))"

lemma sum_nths_remove:
  "i < length xs \<Longrightarrow> i \<notin> A \<Longrightarrow> (\<Sum>x\<leftarrow>nths xs (- insert i A). f x) = (\<Sum>x\<leftarrow>nths xs (- A). f x) - (f (xs ! i) :: int)"
proof (induction xs arbitrary: i A)
  case (Cons x xs)
  show ?case
  proof (cases i)
    case 0
    have "{j. Suc j \<in> - insert 0 A} = {j. Suc j \<in> - A}" by auto
    with 0 Cons.prems show ?thesis by (simp add: nths_Cons)
  next
    case (Suc k)
    have "{j. Suc j \<in> - insert (Suc k) A} = - insert k {j. Suc j \<in> A}" "{j. Suc j \<in> - A} = - {j. Suc j \<in> A}" by auto
    with Suc Cons.IH [of k "{j. Suc j \<in> A}"] Cons.prems show ?thesis by (simp add: nths_Cons)
  qed
qed simp

lemma unmarked_sum_mark:
  assumes "p < length tails" and "i < length (sl_events (tails ! p))" and "i \<notin> marked sacrificed p"
    and "\<And>q. marked sacrificed' q = (if q = p then insert i (marked sacrificed p) else marked sacrificed q)"
  shows "unmarked_sum tails sacrificed' = unmarked_sum tails sacrificed - int (persistedAgentEventBytes (sl_events (tails ! p) ! i))"
proof -
  have "unmarked_sum tails s =
      event_sum (nths (sl_events (tails ! p)) (- marked s p)) +
      (\<Sum>q \<in> {..<length tails} - {p}. event_sum (nths (sl_events (tails ! q)) (- marked s q)))" for s
    using assms(1) by (simp add: unmarked_sum_def sum.remove [of _ p])
  then show ?thesis using sum_nths_remove [OF assms(2,3)] by (simp add: assms(4))
qed

definition marks_all ::
  "(nat, nat js_set) js_map \<Rightarrow> sacrifice_candidate list \<Rightarrow> (nat, nat js_set) js_map \<Rightarrow> bool" where
  "marks_all sacrificed candidates result \<longleftrightarrow>
     (\<forall>p. marked sacrificed p \<subseteq> marked result p) \<and> (\<forall>c \<in> set candidates. ca_index c \<in> marked result (ca_position c))"

lemma sacrificed_spec:
  assumes "\<forall>c \<in> set candidates. ca_position c < length tails \<and> ca_index c < length (sl_events (tails ! ca_position c))"
    and "distinct (map place_of candidates)"
    and "\<forall>c \<in> set candidates. ca_index c \<notin> marked sacrificed (ca_position c)"
    and "map_wf sacrificed" and "\<forall>p \<in> fst ` set sacrificed. p < length tails"
    and "held = unmarked_sum tails sacrificed"
  shows "map_wf (sacrificed_indices budget tails candidates sacrificed held) \<and>
    (\<forall>p \<in> fst ` set (sacrificed_indices budget tails candidates sacrificed held). p < length tails) \<and>
    (unmarked_sum tails (sacrificed_indices budget tails candidates sacrificed held) \<le> budget \<or>
     marks_all sacrificed candidates (sacrificed_indices budget tails candidates sacrificed held))"
  using assms
proof (induction candidates arbitrary: sacrificed held)
  case (Cons c candidates)
  show ?case
  proof (cases "held \<le> budget")
    case True
    with Cons.prems show ?thesis by simp
  next
    case False
    define indices where "indices = (case map_of sacrificed (ca_position c) of None \<Rightarrow> [] | Some kept \<Rightarrow> kept)"
    define sacrificed' where "sacrificed' = AList.update (ca_position c) (set_add (ca_index c) indices) sacrificed"
    define event where "event = sl_events (tails ! ca_position c) ! ca_index c"
    have valid: "ca_position c < length tails" "ca_index c < length (sl_events (tails ! ca_position c))"
      and fresh: "ca_index c \<notin> marked sacrificed (ca_position c)" using Cons.prems by auto
    have mark: "marked sacrificed' q =
        (if q = ca_position c then insert (ca_index c) (marked sacrificed (ca_position c)) else marked sacrificed q)" for q
      by (simp add: sacrificed'_def marked_def update_conv' indices_def split: option.split)
    have step: "sacrificed_indices budget tails (c # candidates) sacrificed held =
        sacrificed_indices budget tails candidates sacrificed' (held - int (persistedAgentEventBytes event))"
      using False valid by (simp add: nth_opt_def sacrificed'_def indices_def event_def)
    have "held - int (persistedAgentEventBytes event) = unmarked_sum tails sacrificed'"
      using unmarked_sum_mark [OF valid fresh mark] Cons.prems by (simp add: event_def)
    moreover have "\<forall>d \<in> set candidates. ca_index d \<notin> marked sacrificed' (ca_position d)"
      using Cons.prems(2,3) by (auto simp: mark image_iff)
    moreover have "map_wf sacrificed'" "\<forall>p \<in> fst ` set sacrificed'. p < length tails"
      using Cons.prems valid by (auto simp: sacrificed'_def dom_update)
    ultimately have rest: "map_wf (sacrificed_indices budget tails (c # candidates) sacrificed held) \<and>
      (\<forall>p \<in> fst ` set (sacrificed_indices budget tails (c # candidates) sacrificed held). p < length tails) \<and>
      (unmarked_sum tails (sacrificed_indices budget tails (c # candidates) sacrificed held) \<le> budget \<or>
       marks_all sacrificed' candidates (sacrificed_indices budget tails (c # candidates) sacrificed held))"
      using Cons.IH [of sacrificed' "held - int (persistedAgentEventBytes event)"] Cons.prems unfolding step by simp
    have "\<forall>q. marked sacrificed q \<subseteq> marked sacrificed' q" "ca_index c \<in> marked sacrificed' (ca_position c)"
      by (auto simp: mark)
    then have "marks_all sacrificed' candidates result \<Longrightarrow> marks_all sacrificed (c # candidates) result" for result
      unfolding marks_all_def by (metis set_ConsD subset_iff)
    with rest show ?thesis by blast
  qed
qed (simp add: marks_all_def)

lemma dropping_accounted:
  assumes "list_all slot_ok tails" and "map_wf sacrificed" and "\<forall>p \<in> fst ` set sacrificed. p < length tails"
  defines "drop_at \<equiv> \<lambda>tails (position, indices).
    tails[position := fst (replaceEvents (tails ! position) (without_indices (sl_events (tails ! position)) indices))]"
  shows "list_all slot_ok (foldl drop_at tails sacrificed) \<and>
    map sl_source (foldl drop_at tails sacrificed) = map sl_source tails \<and>
    slot_sum (foldl drop_at tails sacrificed) = unmarked_sum tails sacrificed"
  using assms(1-3)
proof (induction sacrificed arbitrary: tails)
  case Nil
  have "slot_sum tails = (\<Sum>p<length tails. sl_bytes (tails ! p))"
    by (simp add: sum_list_sum_nth atLeast0LessThan)
  also have "\<dots> = unmarked_sum tails []"
    using Nil by (auto simp: unmarked_sum_def marked_def nths_all list_all_length slot_ok_def intro!: sum.cong)
  finally show ?case using Nil by simp
next
  case (Cons entry sacrificed)
  obtain p indices where entry: "entry = (p, indices)" by fastforce
  have p: "p < length tails" "map_of sacrificed p = None"
    using Cons.prems by (auto simp: entry map_wf_def map_of_eq_None_iff)
  let ?slot = "fst (replaceEvents (tails ! p) (without_indices (sl_events (tails ! p)) indices))"
  have ok: "slot_ok (tails ! p)" using Cons.prems(1) p(1) by (simp add: list_all_length)
  note replaced = replaceEvents_ok [OF ok subseq_without [of "sl_events (tails ! p)" indices]]
  have ok': "list_all slot_ok (tails[p := ?slot])" using Cons.prems(1) replaced(1) by (rule list_all_update)
  have sources: "map sl_source (tails[p := ?slot]) = map sl_source tails"
    using p(1) replaced(3) by (simp add: map_update list_update_same_conv)
  have "unmarked_sum (tails[p := ?slot]) sacrificed = unmarked_sum tails (entry # sacrificed)"
    unfolding unmarked_sum_def length_list_update
  proof (rule sum.cong)
    fix q
    assume "q \<in> {..<length tails}"
    then show "event_sum (nths (sl_events (tails[p := ?slot] ! q)) (- marked sacrificed q)) =
        event_sum (nths (sl_events (tails ! q)) (- marked (entry # sacrificed) q))"
      using p replaced(4) by (cases "q = p") (simp_all add: entry marked_def nths_all without_indices_def)
  qed simp
  then show ?case
    using Cons.IH [OF ok'] Cons.prems sources by (simp add: entry drop_at_def map_wf_def)
qed

text \<open>The candidates are the places of all events, each once.\<close>

lemma rank_places:
  "distinct (map place_of (rankSacrifice tails))"
  "set (map place_of (rankSacrifice tails)) = {(p, i). p < length tails \<and> i < length (sl_events (tails ! p))}"
proof -
  define unranked where "unranked = concat (map (\<lambda>(position, slot).
     let guarded = (if position = length tails - 1 then finalAnswerIndices (sl_events slot) else []) in
     slot_candidates position guarded slot) (zip [0..<length tails] tails))"
  have slot_places: "map place_of (slot_candidates p guarded slot) = map (Pair p) [0..<length (sl_events slot)]" for p guarded slot
    by (rule nth_equalityI) (simp_all add: slot_candidates_def)
  have "map place_of unranked = concat (map (\<lambda>x. map (Pair (fst x)) [0..<length (sl_events (snd x))]) (zip [0..<length tails] tails))"
    by (simp add: unranked_def map_concat comp_def case_prod_beta Let_def slot_places)
  also have "\<dots> = concat (map (\<lambda>p. map (Pair p) [0..<length (sl_events (tails ! p))]) [0..<length tails])"
    by (rule arg_cong [of _ _ concat], rule nth_equalityI) simp_all
  finally have places: "map place_of unranked = concat (map (\<lambda>p. map (Pair p) [0..<length (sl_events (tails ! p))]) [0..<length tails])" .
  have perm: "mset (map place_of (rankSacrifice tails)) = mset (map place_of unranked)"
    by (simp add: rankSacrifice_def unranked_def)
  have "distinct (concat (map (\<lambda>p. map (Pair p) [0..<f p]) [0..<n]))" for f :: "nat \<Rightarrow> nat" and n :: nat
    by (induction n) (auto simp: distinct_map inj_on_def)
  then have "distinct (map place_of unranked)" unfolding places .
  then show "distinct (map place_of (rankSacrifice tails))" using perm by (metis mset_eq_imp_distinct_iff)
  show "set (map place_of (rankSacrifice tails)) = {(p, i). p < length tails \<and> i < length (sl_events (tails ! p))}"
    using arg_cong [OF perm, of set_mset] unfolding places set_mset_mset by auto
qed

lemma same_places:
  "places tails' = places tails \<Longrightarrow> length tails' = length tails \<and>
     (\<forall>p < length tails. length (sl_events (tails' ! p)) = length (sl_events (tails ! p)))"
  by (metis length_map nth_map)

lemma dropSacrificedEvents_fits:
  assumes "accounted 0 sources tails' held" and "places tails' = places tails" and "0 \<le> budget"
  shows "list_all slot_ok (dropSacrificedEvents budget (rankSacrifice tails) (tails', held)) \<and>
    map sl_source (dropSacrificedEvents budget (rankSacrifice tails) (tails', held)) = sources \<and>
    slot_sum (dropSacrificedEvents budget (rankSacrifice tails) (tails', held)) \<le> budget"
proof -
  let ?sacrificed = "sacrificed_indices budget tails' (rankSacrifice tails) [] held"
  have same: "length tails' = length tails" "\<And>p. p < length tails \<Longrightarrow> length (sl_events (tails' ! p)) = length (sl_events (tails ! p))"
    using same_places [OF assms(2)] by auto
  have valid: "(p, i) \<in> set (map place_of (rankSacrifice tails)) \<longleftrightarrow> p < length tails' \<and> i < length (sl_events (tails' ! p))" for p i
    using same unfolding rank_places(2) by auto
  have "held = unmarked_sum tails' []"
    using dropping_accounted [of tails' "[]"] assms(1) by (simp add: accounted_def)
  moreover have "\<forall>c \<in> set (rankSacrifice tails). ca_position c < length tails' \<and> ca_index c < length (sl_events (tails' ! ca_position c))"
    using valid by fastforce
  ultimately have spec: "map_wf ?sacrificed" "\<forall>p \<in> fst ` set ?sacrificed. p < length tails'"
    "unmarked_sum tails' ?sacrificed \<le> budget \<or> marks_all [] (rankSacrifice tails) ?sacrificed"
    using sacrificed_spec [of "rankSacrifice tails" tails' "[]" held budget] rank_places(1) by (auto simp: marked_def)
  have "unmarked_sum tails' ?sacrificed = 0" if all: "marks_all [] (rankSacrifice tails) ?sacrificed"
    unfolding unmarked_sum_def
  proof (rule sum.neutral, rule ballI)
    fix p
    assume "p \<in> {..<length tails'}"
    have "i \<in> marked ?sacrificed p" if i: "i < length (sl_events (tails' ! p))" for i
    proof -
      obtain c where "c \<in> set (rankSacrifice tails)" "(p, i) = place_of c"
        using valid [of p i] i \<open>p \<in> {..<length tails'}\<close> by auto
      then show ?thesis using all by (auto simp: marks_all_def)
    qed
    then have "nths (sl_events (tails' ! p)) (- marked ?sacrificed p) = []"
      by (auto simp: nths_def filter_empty_conv dest: set_zip_rightD)
    then show "event_sum (nths (sl_events (tails' ! p)) (- marked ?sacrificed p)) = 0" by simp
  qed
  then have "unmarked_sum tails' ?sacrificed \<le> budget" using spec(3) assms(3) by auto
  then show ?thesis
    using dropping_accounted [OF _ spec(1,2)] assms(1) by (simp add: dropSacrificedEvents_def accounted_def)
qed

text \<open>The budget is met, whatever the slots hold.\<close>

lemma fitThreadBudget_fits:
  assumes "list_all slot_ok tails" and "0 \<le> budget"
  shows "list_all slot_ok (fitThreadBudget tails budget) \<and>
    map sl_source (fitThreadBudget tails budget) = map sl_source tails \<and> slot_sum (fitThreadBudget tails budget) \<le> budget"
proof -
  have "foldl (\<lambda>held slot. held + sl_bytes slot) n tails = n + slot_sum tails" for n
    by (induction tails arbitrary: n) simp_all
  then have start: "accounted 0 (map sl_source tails) tails (foldl (\<lambda>held slot. held + sl_bytes slot) 0 tails)"
    using assms(1) by (simp add: accounted_def)
  obtain t1 h1 where s1: "shrink_settled budget tails (foldl (\<lambda>held slot. held + sl_bytes slot) 0 tails) = (t1, h1)" by fastforce
  obtain t2 h2 where s2: "dropOldestEvents budget False t1 h1 = (t2, h2)" by fastforce
  obtain t3 h3 where s3: "dropOldestEvents budget True t2 h2 = (t3, h3)" by fastforce
  obtain t4 h4 where s4: "clipRetainedText budget (rankSacrifice t3) (t3, h3) = (t4, h4)" by fastforce
  have a3: "accounted 0 (map sl_source tails) t3 h3"
    using shrink_settled_accounted [OF start, of budget] dropOldestEvents_accounted s1 s2 s3 by (metis fst_conv snd_conv)
  have "\<forall>c \<in> set (rankSacrifice t3). ca_position c < length t3"
    using rank_places(2) [of t3] by fastforce
  then have a4: "accounted 0 (map sl_source tails) t4 h4" "places t4 = places t3"
    using clipRetainedText_accounted [OF a3 _ s4] by simp_all
  note final = dropSacrificedEvents_fits [OF a4 assms(2)]
  show ?thesis
    using start a3 a4 final unfolding fitThreadBudget_def Let_def s1 s2 s3 s4 prod.case
    by (auto simp: accounted_def)
qed

end
