(* ===== verification/TailCapBytes.thy ===== *)
theory TailCapBytes
  imports TailCapLaws
begin

text \<open>
  The size of a capped thread: the incremental accounts of \<open>TailCap\<close> (scaffold, released bytes,
  event bytes with their separators) agree with a recount of the whole JSON text, and the capped
  thread fits its budget.
\<close>

section \<open>The size of an object\<close>

definition props_cost :: "(js_string \<times> jsval) list \<Rightarrow> int" where
  "props_cost props = (\<Sum>(key, item)\<leftarrow>props.
     case stringify item of None \<Rightarrow> 0 | Some t \<Rightarrow> int (utf8ByteLength (quote key)) + 2 + int (utf8ByteLength t))"

lemma props_cost_simps [simp]:
  "props_cost [] = 0" "props_cost (as @ bs) = props_cost as + props_cost bs"
  "props_cost (js_field key None) = 0"
  by (simp_all add: props_cost_def js_field_def)

lemma props_cost_field [simp]:
  "stringify item \<noteq> None \<Longrightarrow>
     props_cost (js_field key (Some item)) = int (utf8ByteLength (quote (js key))) + 2 + int (json_bytes item)"
  by (auto simp: props_cost_def js_field_def json_bytes_text json_text_def)

lemma member_texts_cost:
  "(\<Sum>x\<leftarrow>member_texts (map (map_prod id stringify) props). int (utf8ByteLength x) + 1) = props_cost props"
proof (induction props)
  case (Cons p props)
  obtain key item where "p = (key, item)" by fastforce
  with Cons show ?case by (cases "stringify item") (simp_all add: props_cost_def member_bytes del: append.simps)
qed (simp add: props_cost_def)

lemma member_texts_Nil:
  "member_texts (map (map_prod id stringify) props) = [] \<longleftrightarrow> (\<forall>p \<in> set props. stringify (snd p) = None)"
proof (induction props)
  case (Cons p props)
  obtain key item where "p = (key, item)" by fastforce
  with Cons show ?case by (cases "stringify item") simp_all
qed simp

lemma object_cost:
  "\<exists>p \<in> set props. stringify (snd p) \<noteq> None \<Longrightarrow> int (json_bytes (JObject props)) = 1 + props_cost props"
  using member_texts_Nil [of props]
  by (auto simp: object_bytes separated_bytes_count member_texts_cost)

lemma field_text: "stringify item \<noteq> None \<Longrightarrow> \<exists>p \<in> set (js_field key (Some item)). stringify (snd p) \<noteq> None"
  by (simp add: js_field_def)

section \<open>The size of a turn and of a thread\<close>

lemma event_value_object: "\<exists>props. event_value event = JObject props"
  by (cases event) (simp_all add: event_object_def)

lemma event_value_text [simp]: "stringify (event_value event) \<noteq> None"
  using event_value_object [of event] by auto

lemma events_array_bytes:
  "int (json_bytes (JArray (map event_value events))) = 2 + event_sum events - (if events = [] then 0 else 1)"
  by (simp add: array_count comp_def element_bytes persistedAgentEventBytes_def PERSISTED_EVENT_SEPARATOR_BYTES_def
      add.commute)

definition turn_bytes :: "agent_turn \<Rightarrow> int" where
  "turn_bytes turn = int (json_bytes (turn_value (turn\<lparr>tn_events := []\<rparr>)))"

lemma turn_value_text [simp]: "stringify (turn_value turn) \<noteq> None"
  by (simp add: turn_value_def)

lemma turn_object:
  "int (json_bytes (turn_value turn)) = 1 + props_cost (case turn_value turn of JObject props \<Rightarrow> props | _ \<Rightarrow> [])"
proof -
  obtain props where props: "turn_value turn = JObject props" "(js ''turnId'', JString (tn_turnId turn)) \<in> set props"
    by (simp add: turn_value_def js_field_def del: js_simps)
  then have "\<exists>p \<in> set props. stringify (snd p) \<noteq> None" by force
  with props(1) show ?thesis by (simp add: object_cost)
qed

lemma turn_bytes_events:
  "int (json_bytes (turn_value (turn\<lparr>tn_events := events\<rparr>))) =
     turn_bytes turn + event_sum events - (if events = [] then 0 else 1)"
  using events_array_bytes [of events] events_array_bytes [of "[]"]
  unfolding turn_bytes_def turn_object by (simp add: turn_value_def del: js_simps)

lemma bool_bytes: "json_bytes (JBool b) = (if b then 4 else 5)"
  by (simp add: json_bytes_text json_text_def)

lemma turn_bytes_truncated: "turn_bytes (turn\<lparr>tn_eventsTruncated := tn_eventsTruncated turn \<or> b\<rparr>) \<le> turn_bytes turn"
  unfolding turn_bytes_def turn_object by (simp add: turn_value_def bool_bytes del: js_simps)

lemma jsonTextBytes_eq: "jsonTextBytes content = int (json_bytes (JString content))"
  by (simp add: jsonTextBytes_def json_bytes_def length_utf8_encode)

lemma turn_bytes_prompt:
  "turn_bytes (turn\<lparr>tn_prompt := prompt\<rparr>) = turn_bytes turn + (jsonTextBytes prompt - jsonTextBytes (tn_prompt turn))"
  unfolding turn_bytes_def turn_object by (simp add: turn_value_def jsonTextBytes_eq del: js_simps)

lemma thread_object:
  "int (json_bytes (thread_value thread)) = 1 + props_cost (case thread_value thread of JObject props \<Rightarrow> props | _ \<Rightarrow> [])"
proof -
  obtain props where props: "thread_value thread = JObject props" "(js ''threadId'', JString (th_threadId thread)) \<in> set props"
    by (simp add: thread_value_def js_field_def del: js_simps)
  then have "\<exists>p \<in> set props. stringify (snd p) \<noteq> None" by force
  with props(1) show ?thesis by (simp add: object_cost)
qed

definition thread_base :: "agent_thread \<Rightarrow> int" where
  "thread_base thread = int (json_bytes (thread_value (thread\<lparr>th_turns := []\<rparr>)))"

lemma thread_bytes_turns:
  "int (json_bytes (thread_value (thread\<lparr>th_turns := turns\<rparr>))) =
     thread_base thread + (\<Sum>turn\<leftarrow>turns. int (json_bytes (turn_value turn)) + 1) - (if turns = [] then 0 else 1)"
  using array_count [of "map turn_value turns"] array_count [of "[]"]
  unfolding thread_base_def thread_object
  by (simp add: thread_value_def comp_def element_bytes del: js_simps)

lemma scaffold_bytes:
  "persistedAgentThreadScaffoldBytes (thread\<lparr>th_turns := turns\<rparr>) =
     thread_base thread + (\<Sum>turn\<leftarrow>turns. turn_bytes turn + 1) - (if turns = [] then 0 else 1)"
  by (simp add: persistedAgentThreadScaffoldBytes_def thread_bytes_turns turn_bytes_def comp_def)

section \<open>The scaffold is accounted for\<close>

lemma clip_prompts_bytes:
  "length (fst (clip_prompts budget logged turns scaffold)) = length turns \<and>
   snd (clip_prompts budget logged turns scaffold) = scaffold +
     (\<Sum>turn\<leftarrow>fst (clip_prompts budget logged turns scaffold). turn_bytes turn) - (\<Sum>turn\<leftarrow>turns. turn_bytes turn)"
proof (induction budget logged turns scaffold rule: clip_prompts.induct)
  case (1 budget logged turn later turns scaffold)
  then show ?case by (simp add: Let_def turn_bytes_prompt case_prod_beta split: option.split)
qed simp_all

lemma projected_scaffold:
  "pj_scaffoldBytes (clipLoggedPrompts thread budget logged) =
     persistedAgentThreadScaffoldBytes (pj_thread (clipLoggedPrompts thread budget logged))"
proof -
  let ?clip = "clip_prompts budget logged (th_turns thread) (persistedAgentThreadScaffoldBytes thread)"
  have whole: "persistedAgentThreadScaffoldBytes thread = thread_base thread +
      (\<Sum>turn\<leftarrow>th_turns thread. turn_bytes turn + 1) - (if th_turns thread = [] then 0 else 1)"
    using scaffold_bytes [of "th_turns thread" thread] by simp
  have clip: "length (fst ?clip) = length (th_turns thread)" "snd ?clip = persistedAgentThreadScaffoldBytes thread +
      (\<Sum>turn\<leftarrow>fst ?clip. turn_bytes turn) - (\<Sum>turn\<leftarrow>th_turns thread. turn_bytes turn)"
    using clip_prompts_bytes by blast+
  have "fst ?clip = [] \<longleftrightarrow> th_turns thread = []" using clip(1) by auto
  then have "snd ?clip = persistedAgentThreadScaffoldBytes (thread\<lparr>th_turns := fst ?clip\<rparr>)"
    using clip whole unfolding scaffold_bytes by (simp add: sum_list_addf sum_list_triv)
  then show ?thesis by (simp add: clipLoggedPrompts_def Let_def case_prod_beta)
qed

section \<open>Closing the slots\<close>

lemma closeSlot_form:
  assumes "slot_ok slot"
  shows "\<exists>b. closeSlot slot = (sl_source slot)\<lparr>tn_events := sl_events slot,
      tn_eventsTruncated := tn_eventsTruncated (sl_source slot) \<or> b\<rparr> \<and>
    (b \<or> sl_events slot = tn_events (sl_source slot))"
proof (cases "sl_clipped slot \<or> length (sl_events slot) < length (tn_events (sl_source slot))")
  case True
  then show ?thesis by (intro exI [of _ True]) (auto simp: closeSlot_def Let_def)
next
  case False
  then have sub: "subseq (sl_events slot) (tn_events (sl_source slot))"
    using assms subseq_tail by (auto simp: slot_ok_def intro: subseq_order.trans)
  then have "length (sl_events slot) = length (tn_events (sl_source slot))"
    using False list_emb_length [OF sub] by simp
  then have "sl_events slot = tn_events (sl_source slot)" using sub subseq_same_length by blast
  with False show ?thesis by (intro exI [of _ False]) (simp add: closeSlot_def Let_def)
qed

lemma closeSlot_bytes:
  assumes "slot_ok slot"
  shows "int (json_bytes (turn_value (closeSlot slot))) \<le> turn_bytes (sl_source slot) + sl_bytes slot"
proof -
  obtain b where "closeSlot slot = (sl_source slot)\<lparr>tn_events := sl_events slot,
      tn_eventsTruncated := tn_eventsTruncated (sl_source slot) \<or> b\<rparr>"
    using closeSlot_form [OF assms] by blast
  then have form: "closeSlot slot = (sl_source slot)\<lparr>tn_eventsTruncated := tn_eventsTruncated (sl_source slot) \<or> b,
      tn_events := sl_events slot\<rparr>" by simp
  show ?thesis
    using turn_bytes_truncated [of "sl_source slot" b] assms
    by (simp add: form turn_bytes_events slot_ok_def)
qed

lemma capped_form:
  fixes thread budget logged lifecycles
  defines "projection \<equiv> clipLoggedPrompts (compactLoggedLifecycles thread budget lifecycles) budget logged"
  defines "tails \<equiv> fitThreadBudget (map openSlot (th_turns (pj_thread projection))) (max (budget - pj_scaffoldBytes projection) 0)"
  shows "capAgentThreadForPersistence thread budget logged lifecycles = (pj_thread projection)\<lparr>th_turns := map closeSlot tails\<rparr>"
    and "list_all slot_ok tails" and "map sl_source tails = th_turns (pj_thread projection)"
    and "slot_sum tails \<le> max (budget - pj_scaffoldBytes projection) 0"
proof -
  have opened: "list_all slot_ok (map openSlot (th_turns (pj_thread projection)))"
    "map sl_source (map openSlot (th_turns (pj_thread projection))) = th_turns (pj_thread projection)"
    using openSlot_ok by (simp_all add: list_all_iff map_idI)
  show "list_all slot_ok tails" and sources: "map sl_source tails = th_turns (pj_thread projection)"
    and "slot_sum tails \<le> max (budget - pj_scaffoldBytes projection) 0"
    using fitThreadBudget_fits [OF opened(1), of "max (budget - pj_scaffoldBytes projection) 0"] opened(2)
    by (simp_all add: tails_def)
  show "capAgentThreadForPersistence thread budget logged lifecycles = (pj_thread projection)\<lparr>th_turns := map closeSlot tails\<rparr>"
  proof (cases "map closeSlot tails = map sl_source tails")
    case True
    then have "(pj_thread projection)\<lparr>th_turns := map closeSlot tails\<rparr> = pj_thread projection" by (simp add: sources)
    with True show ?thesis
      by (simp only: capAgentThreadForPersistence_def Let_def projection_def [symmetric] tails_def [symmetric] if_cancel)
  next
    case False
    then show ?thesis
      by (simp only: capAgentThreadForPersistence_def Let_def projection_def [symmetric] tails_def [symmetric] if_False)
  qed
qed

lemma slot_sum_nonneg: "list_all slot_ok tails \<Longrightarrow> 0 \<le> slot_sum tails"
  by (induction tails) (auto simp: slot_ok_def)

lemma no_bytes_no_events:
  "list_all slot_ok tails \<Longrightarrow> slot_sum tails \<le> 0 \<Longrightarrow> list_all (\<lambda>slot. sl_events slot = []) tails"
proof (induction tails)
  case (Cons slot tails)
  have rest: "0 \<le> slot_sum tails" using Cons.prems(1) slot_sum_nonneg by simp
  have bytes: "sl_bytes slot = event_sum (sl_events slot)" using Cons.prems(1) by (simp add: slot_ok_def)
  have held: "event_sum (sl_events slot) + slot_sum tails \<le> 0" using Cons.prems bytes by simp
  have "event_sum (sl_events slot) \<le> 0" using held rest by linarith
  moreover have "slot_sum tails \<le> 0" using held event_sum_nonneg [of "sl_events slot"] by linarith
  ultimately show ?case using Cons event_sum_pos by simp
qed simp

text \<open>
  C6: A capped thread fits. The JSON text of the whole thread is within the budget, or its prompts
  and metadata alone exceed the budget and then no turn has an event left; this holds for every
  thread, every budget and whatever the log keeps.
\<close>

theorem capped_thread_fits:
  fixes thread budget logged lifecycles
  defines "capped \<equiv> capAgentThreadForPersistence thread budget logged lifecycles"
  shows "int (json_bytes (thread_value capped)) \<le> budget \<or> list_all (\<lambda>turn. tn_events turn = []) (th_turns capped)"
proof -
  define projection where "projection = clipLoggedPrompts (compactLoggedLifecycles thread budget lifecycles) budget logged"
  define tails where "tails = fitThreadBudget (map openSlot (th_turns (pj_thread projection))) (max (budget - pj_scaffoldBytes projection) 0)"
  note form = capped_form [where thread = thread and budget = budget and logged = logged and lifecycles = lifecycles,
      folded projection_def, folded tails_def]
  have slots_bytes: "(\<Sum>slot\<leftarrow>tails. int (json_bytes (turn_value (closeSlot slot))) + 1) \<le>
      (\<Sum>slot\<leftarrow>tails. turn_bytes (sl_source slot) + 1) + slot_sum tails"
    using form(2) by (induction tails) (auto dest: closeSlot_bytes)
  have "persistedAgentThreadScaffoldBytes (pj_thread projection) =
      thread_base (pj_thread projection) + (\<Sum>slot\<leftarrow>tails. turn_bytes (sl_source slot) + 1) - (if tails = [] then 0 else 1)"
  proof -
    have "(pj_thread projection)\<lparr>th_turns := map sl_source tails\<rparr> = pj_thread projection" by (simp add: form(3))
    with scaffold_bytes [of "map sl_source tails" "pj_thread projection"] show ?thesis by (simp add: comp_def)
  qed
  then have size: "int (json_bytes (thread_value capped)) \<le> pj_scaffoldBytes projection + slot_sum tails"
    using slots_bytes projected_scaffold [of "compactLoggedLifecycles thread budget lifecycles" budget logged]
    by (simp add: capped_def form(1) thread_bytes_turns comp_def projection_def [symmetric])
  show ?thesis
  proof (cases "pj_scaffoldBytes projection \<le> budget")
    case True
    with size form(4) show ?thesis by simp
  next
    case False
    then have "list_all (\<lambda>slot. sl_events slot = []) tails"
      using form(2,4) no_bytes_no_events by simp
    moreover have "tn_events (closeSlot slot) = sl_events slot" if "slot_ok slot" for slot
      using closeSlot_form [OF that] by auto
    ultimately show ?thesis using form(2) by (simp add: capped_def form(1) list_all_iff)
  qed
qed

section \<open>What a capped thread keeps\<close>

text \<open>
  What the log keeps of a turn: its prompt, when a clip is stored that the log restores, and its
  subagent metadata, when the compact form is stored.
\<close>

definition logged_part :: "agent_turn \<Rightarrow> agent_turn \<Rightarrow> bool" where
  "logged_part turn kept \<longleftrightarrow>
     (tn_prompt kept = tn_prompt turn \<or>
      restoreAgentPromptFromLog (tn_prompt kept) (tn_prompt turn) = Some (tn_prompt turn)) \<and>
     (tn_subagentLifecycle kept = tn_subagentLifecycle turn \<or>
      tn_subagentLifecycle kept = Option.bind (tn_subagentLifecycle turn) compactPersistedAgentSubagentLifecycle)"

text \<open>
  A turn and its capped form: some of the events of its tail in their order, each shortened at most;
  the truncation flag says so; a clipped prompt is one the log restores.
\<close>

definition capped_turn :: "agent_turn \<Rightarrow> agent_turn \<Rightarrow> bool" where
  "capped_turn turn capped \<longleftrightarrow>
     capped = turn\<lparr>tn_prompt := tn_prompt capped, tn_subagentLifecycle := tn_subagentLifecycle capped,
       tn_events := tn_events capped, tn_eventsTruncated := tn_eventsTruncated capped\<rparr> \<and>
     logged_part turn capped \<and> drawn_from (tn_events capped) (tail_of turn) \<and>
     (if tn_eventsTruncated capped then True
      else tn_events capped = tn_events turn \<and> \<not> tn_eventsTruncated turn)"

definition projected_turn :: "agent_turn \<Rightarrow> agent_turn \<Rightarrow> bool" where
  "projected_turn turn kept \<longleftrightarrow>
     kept = turn\<lparr>tn_prompt := tn_prompt kept, tn_subagentLifecycle := tn_subagentLifecycle kept\<rparr> \<and> logged_part turn kept"

lemma compact_turns_kept:
  "list_all2 (\<lambda>turn compacted. projected_turn turn compacted \<and> tn_prompt compacted = tn_prompt turn)
     turns (compact_turns budget logged turns scaffold)"
proof (induction turns arbitrary: scaffold)
  case (Cons turn turns)
  then show ?case
    by (auto simp: Let_def list.rel_refl projected_turn_def logged_part_def split: option.split)
qed simp

lemma clip_prompts_kept:
  "list_all2 (\<lambda>turn clipped. projected_turn turn clipped \<and> tn_subagentLifecycle clipped = tn_subagentLifecycle turn)
     turns (fst (clip_prompts budget logged turns scaffold))"
proof (induction budget logged turns scaffold rule: clip_prompts.induct)
  case (1 budget logged turn later turns scaffold)
  then show ?case
    by (auto simp: Let_def case_prod_beta list.rel_refl projected_turn_def logged_part_def
        dest: clipped_prompt_facts split: option.split)
qed (simp_all add: projected_turn_def logged_part_def)

lemma projected_kept:
  assumes "clipLoggedPrompts (compactLoggedLifecycles thread budget lifecycles) budget logged = projection"
  shows "pj_thread projection = thread\<lparr>th_turns := th_turns (pj_thread projection)\<rparr>"
    and "list_all2 projected_turn (th_turns thread) (th_turns (pj_thread projection))"
proof -
  let ?compacted = "compactLoggedLifecycles thread budget lifecycles"
  have same: "projected_turn turn turn" for turn by (simp add: projected_turn_def logged_part_def)
  have compacted: "?compacted = thread\<lparr>th_turns := th_turns ?compacted\<rparr>"
    "list_all2 (\<lambda>turn kept. projected_turn turn kept \<and> tn_prompt kept = tn_prompt turn)
       (th_turns thread) (th_turns ?compacted)"
    using compact_turns_kept by (auto simp: compactLoggedLifecycles_def Let_def same list.rel_refl)
  have clipped: "pj_thread projection = ?compacted\<lparr>th_turns := th_turns (pj_thread projection)\<rparr>"
    "list_all2 (\<lambda>turn clipped. projected_turn turn clipped \<and> tn_subagentLifecycle clipped = tn_subagentLifecycle turn)
       (th_turns ?compacted) (th_turns (pj_thread projection))"
    using clip_prompts_kept unfolding assms [symmetric]
    by (auto simp: clipLoggedPrompts_def Let_def case_prod_beta same list.rel_refl)
  show "list_all2 projected_turn (th_turns thread) (th_turns (pj_thread projection))"
  proof (rule list_all2_trans [OF _ compacted(2) clipped(2)])
    fix turn mid kept :: agent_turn
    assume "projected_turn turn mid \<and> tn_prompt mid = tn_prompt turn"
      and "projected_turn mid kept \<and> tn_subagentLifecycle kept = tn_subagentLifecycle mid"
    then show "projected_turn turn kept"
      unfolding projected_turn_def logged_part_def by (cases turn; cases mid; cases kept) simp
  qed
  show "pj_thread projection = thread\<lparr>th_turns := th_turns (pj_thread projection)\<rparr>"
    using clipped(1) compacted(1) by (cases thread; cases "pj_thread projection"; cases ?compacted) simp
qed

lemma capped_turns:
  fixes thread budget logged lifecycles
  defines "capped \<equiv> capAgentThreadForPersistence thread budget logged lifecycles"
  shows "capped = thread\<lparr>th_turns := th_turns capped\<rparr> \<and> list_all2 capped_turn (th_turns thread) (th_turns capped)"
proof -
  define projection where "projection = clipLoggedPrompts (compactLoggedLifecycles thread budget lifecycles) budget logged"
  define tails where "tails = fitThreadBudget (map openSlot (th_turns (pj_thread projection))) (max (budget - pj_scaffoldBytes projection) 0)"
  note form = capped_form [where thread = thread and budget = budget and logged = logged and lifecycles = lifecycles,
      folded projection_def, folded tails_def]
  note kept = projected_kept [OF projection_def [symmetric]]
  define closes where "closes = (\<lambda>(turn :: agent_turn) closed. closed = turn\<lparr>tn_events := tn_events closed, tn_eventsTruncated := tn_eventsTruncated closed\<rparr> \<and>
    drawn_from (tn_events closed) (tail_of turn) \<and>
    (if tn_eventsTruncated closed then True else tn_events closed = tn_events turn \<and> \<not> tn_eventsTruncated turn))"
  have closed: "closes (sl_source slot) (closeSlot slot)" if ok: "slot_ok slot" for slot
  proof -
    obtain b where b: "closeSlot slot = (sl_source slot)\<lparr>tn_events := sl_events slot,
        tn_eventsTruncated := tn_eventsTruncated (sl_source slot) \<or> b\<rparr>" "b \<or> sl_events slot = tn_events (sl_source slot)"
      using closeSlot_form [OF ok] by blast
    with ok show ?thesis by (auto simp: closes_def slot_ok_def)
  qed
  have turns: "list_all2 closes (th_turns (pj_thread projection)) (map closeSlot tails)"
    using form(2) closed unfolding form(3) [symmetric]
    by (auto simp: list_all2_map1 list_all2_map2 list_all_iff intro!: list.rel_refl_strong)
  have "list_all2 capped_turn (th_turns thread) (map closeSlot tails)"
  proof (rule list_all2_trans [OF _ kept(2) turns])
    fix turn mid closed :: agent_turn
    assume "projected_turn turn mid" and "closes mid closed"
    then show "capped_turn turn closed"
      unfolding closes_def capped_turn_def projected_turn_def logged_part_def
      by (cases turn; cases mid; cases closed) (simp split: if_splits)
  qed
  moreover have "capped = thread\<lparr>th_turns := th_turns (pj_thread projection)\<rparr>\<lparr>th_turns := map closeSlot tails\<rparr>"
    using kept(1) form(1) unfolding capped_def by metis
  ultimately show ?thesis by simp
qed


section \<open>Reading a capped turn back\<close>

lemma bounded_window_subseq:
  assumes "subseq es' es" and "bounded_window es"
  shows "bounded_window es'"
proof -
  obtain N where N: "es' = nths es N" using assms(1) by (auto simp: subseq_conv_nths)
  have "sum_list (map f (nths xs A)) \<le> sum_list (map f xs)" for f :: "agent_turn_event \<Rightarrow> nat" and xs A
    by (induction xs arbitrary: A) (auto simp: nths_Cons intro: le_SucI trans_le_add2)
  moreover have "threads_of es' \<subseteq> threads_of es"
    using set_nths_subset [of es N] by (auto simp: N threads_of_def)
  moreover have "finite (threads_of es)"
  proof (rule finite_subset)
    show "threads_of es \<subseteq> (\<lambda>e. the (event_agentThreadId e)) ` set es" by (force simp: threads_of_def)
  qed simp
  ultimately show ?thesis
    using assms list_emb_length [OF assms(1)] card_mono [of "threads_of es" "threads_of es'"]
    by (auto simp: bounded_window_def N intro: order_trans)
qed

text \<open>
  C19: What the cap of a turn stores, the reader keeps. The tail of a window that merging produced
  comes back from the loader's own cap unchanged and not truncated: nothing that was selected is
  merged, dropped or reordered when it is read.
\<close>

theorem capped_tail_reloads:
  assumes "bounded_window events"
    and "successively (\<lambda>a b. coalesceAgentTextEvents (Some a) b = None) events"
  shows "capPersistedTurnEvents (capTurnTail events eventLimit byteLimit) =
    Some \<lparr>retained_events = capTurnTail events eventLimit byteLimit, retained_truncated = False\<rparr>"
proof -
  let ?tail = "capTurnTail events eventLimit byteLimit"
  let ?apart = "\<lambda>a b. coalesceAgentTextEvents (Some a) b = None"
  have sub: "subseq ?tail events" by (rule subseq_tail)
  have "successively ?apart (kept_events events (selectAgentTurnTail events budget))" for budget
  proof -
    obtain sel :: tail_selection and retained where kept: "selection_ok events budget sel" "set (sel_kept sel) = set retained"
      "unfused events retained"
      "kept_events events (selectAgentTurnTail events budget) = map ((!) events) (rev retained)"
      by (rule selected_tail [of events budget])
    have "?apart (events ! i) (events ! j)" if "i < j" "j < length events" "\<not> wouldFuse events i j" for i j
    proof (cases "j = Suc i")
      case True
      with assms(2) that show ?thesis by (simp add: successively_conv_nth)
    next
      case False
      with that show ?thesis by (simp add: wouldFuse_def split: if_splits)
    qed
    moreover have "successively (\<lambda>i j. i < j \<and> j < length events \<and> \<not> wouldFuse events i j) (rev retained)"
    proof -
      have "sorted_wrt (<) (rev retained)" using kept(3) by (simp add: unfused_def sorted_wrt_rev)
      then have "successively (<) (rev retained)" by (simp only: successively_conv_sorted_wrt [OF transp_on_less])
      moreover have "\<forall>i < length (rev retained). rev retained ! i < length events"
        using kept(1,2) nth_mem [of _ "rev retained"] by (auto simp: selection_ok_def)
      moreover have "successively (\<lambda>i j. \<not> wouldFuse events i j) (rev retained)" using kept(3) by (simp add: unfused_def)
      ultimately show ?thesis by (simp add: successively_conv_nth)
    qed
    ultimately show ?thesis unfolding kept(4) successively_map by (rule successively_mono [rotated]) auto
  qed
  then have "successively ?apart ?tail" using assms(2) by (simp add: capTurnTail_def Let_def)
  with bounded_window_subseq [OF sub assms(1)] have "turn.settled_window ([] @ ?tail)" by (simp add: settled_window_turn)
  from turn.retain_settled_window [OF this] show ?thesis
    by (simp add: capPersistedTurnEvents_def capAgentTurnEvents_def)
qed

lemma capped_tail_reloads_witness:
  "capPersistedTurnEvents (capTurnTail [ErrorEvent [120], AssistantText [121] None] 1 \<infinity>) =
     Some \<lparr>retained_events = capTurnTail [ErrorEvent [120], AssistantText [121] None] 1 \<infinity>, retained_truncated = False\<rparr>"
  by (rule capped_tail_reloads)
    (simp_all add: bounded_window_def threads_of_def event_bytes_simps coalesceAgentTextEvents_def)

end
