(* ===== verification/WireSave.thy ===== *)
theory WireSave
  imports WireStore TailCapBytes
begin

text \<open>
  Saving a thread, the entry points of \<open>src/domain/agentThreadWire.ts\<close>: \<open>serializeAgentThread\<close>
  shrinks the budget of the cap until the document fits the file, and the history serializers write
  the turns one by one. A serializer that throws is \<open>Inl\<close>.
\<close>

section \<open>Fitting the file\<close>

definition PERSISTED_THREAD_FIT_ATTEMPTS :: nat where "PERSISTED_THREAD_FIT_ATTEMPTS = 3"

definition serializedThreadBytes :: "jsval \<Rightarrow> nat" where
  "serializedThreadBytes document =
     (let content = json_text document in
      if length content \<le> MAX_PERSISTED_AGENT_THREAD_FILE_BYTES div 4 then length content
      else length (utf8_encode content))"

definition persisted_ceiling :: nat where
  "persisted_ceiling = MAX_PERSISTED_AGENT_THREAD_FILE_BYTES - PERSISTED_AGENT_THREAD_FILE_MARGIN_BYTES"

definition capped_document ::
  "agent_thread \<Rightarrow> js_string js_set \<Rightarrow> (js_string, lifecycle) js_map \<Rightarrow> int \<Rightarrow> jsval checked" where
  "capped_document thread loggedPromptTurnIds loggedLifecycles budget =
     serializeThreadDocument (capAgentThreadForPersistence thread budget loggedPromptTurnIds loggedLifecycles)"

fun fit_attempts ::
  "agent_thread \<Rightarrow> js_string js_set \<Rightarrow> (js_string, lifecycle) js_map \<Rightarrow> nat \<Rightarrow> int \<Rightarrow> jsval \<Rightarrow> jsval checked" where
  "fit_attempts thread loggedPromptTurnIds loggedLifecycles 0 budget document = Inr document"
| "fit_attempts thread loggedPromptTurnIds loggedLifecycles (Suc attempts) budget document =
     (if serializedThreadBytes document \<le> persisted_ceiling then Inr document
      else
        chk (capped_document thread loggedPromptTurnIds loggedLifecycles (budget div 4)) (\<lambda>smaller.
        fit_attempts thread loggedPromptTurnIds loggedLifecycles attempts (budget div 4) smaller))"

definition serializeAgentThread ::
  "agent_thread \<Rightarrow> js_string js_set \<Rightarrow> (js_string, lifecycle) js_map \<Rightarrow> jsval checked" where
  "serializeAgentThread thread loggedPromptTurnIds loggedLifecycles =
     chk (capped_document thread loggedPromptTurnIds loggedLifecycles MAX_PERSISTED_THREAD_EVENT_BYTES) (\<lambda>document.
     fit_attempts thread loggedPromptTurnIds loggedLifecycles PERSISTED_THREAD_FIT_ATTEMPTS
       MAX_PERSISTED_THREAD_EVENT_BYTES document)"

section \<open>History\<close>

definition HISTORY_EVENT_ARRAY_BRACKET_BYTES :: nat where "HISTORY_EVENT_ARRAY_BRACKET_BYTES = 2"

text \<open>The cap returns its argument itself exactly when it returns an array with the same events.\<close>

definition capAgentHistoryTurn :: "agent_turn \<Rightarrow> agent_turn" where
  "capAgentHistoryTurn turn =
     (let events = capTurnTail (tn_events turn) MAX_PERSISTED_AGENT_EVENTS_PER_TURN
            (enat (MAX_PERSISTED_HISTORY_TURN_EVENT_BYTES - HISTORY_EVENT_ARRAY_BRACKET_BYTES)) in
      if events = tn_events turn then turn else turn\<lparr>tn_events := events, tn_eventsTruncated := True\<rparr>)"

definition agentHistoryTurnProjection :: "agent_turn \<Rightarrow> agent_turn" where
  "agentHistoryTurnProjection turn = capAgentHistoryTurn turn"

fun object_props :: "jsval \<Rightarrow> (js_string \<times> jsval) list" where
  "object_props (JObject props) = props"
| "object_props _ = []"

definition serializeHistoryTurn :: "agent_turn \<Rightarrow> agent_turn_event list \<Rightarrow> jsval checked" where
  "serializeHistoryTurn turn events =
     chk (serializeTurn (turn\<lparr>tn_events := []\<rparr>)) (\<lambda>written.
     chk (emit_all serializeTurnEvent events) (\<lambda>items.
       let props = AList.update (js ''events'') (JArray items) (object_props written) in
       Inr (JObject (case tn_subagentLifecycle turn of
           None \<Rightarrow> props
         | Some lifecycle \<Rightarrow> AList.update (js ''subagentLifecycle'') (lifecycle_value lifecycle) props))))"

definition with_turns :: "jsval \<Rightarrow> jsval list \<Rightarrow> jsval" where
  "with_turns document turns = JObject (AList.update (js ''turns'') (JArray turns) (object_props document))"

definition serializeAgentHistoryThread :: "agent_thread \<Rightarrow> jsval checked" where
  "serializeAgentHistoryThread thread =
     (let bounded = map capAgentHistoryTurn (th_turns thread) in
      chk (serializeThreadDocument (thread\<lparr>th_turns := []\<rparr>)) (\<lambda>document.
      chk (emit_all (\<lambda>turn. serializeHistoryTurn turn (tn_events turn)) bounded) (\<lambda>turns.
      Inr (with_turns document turns))))"

definition serializeAgentHistoryTurnHeader :: "agent_thread \<Rightarrow> agent_turn \<Rightarrow> jsval checked" where
  "serializeAgentHistoryTurnHeader thread projected =
     chk (serializeThreadDocument (thread\<lparr>th_turns := []\<rparr>)) (\<lambda>document.
     chk (serializeHistoryTurn projected []) (\<lambda>turn.
     Inr (with_turns document [turn])))"

section \<open>The size test\<close>

lemma utf8ByteLength_le: "utf8ByteLength s \<le> 3 * length s"
proof (induction s rule: utf8ByteLength.induct)
  case (2 u us)
  then show ?case by (cases us) auto
qed simp

lemma size_test: "serializedThreadBytes document \<le> persisted_ceiling \<longleftrightarrow> json_bytes document \<le> persisted_ceiling"
proof -
  have "json_bytes document \<le> 3 * length (json_text document)"
    by (simp add: json_bytes_text utf8ByteLength_le)
  then show ?thesis
    by (auto simp: serializedThreadBytes_def Let_def json_bytes_def persisted_ceiling_def
        MAX_PERSISTED_AGENT_THREAD_FILE_BYTES_def PERSISTED_AGENT_THREAD_FILE_MARGIN_BYTES_def)
qed

end
