(* ===== verification/SaveLaws.thy ===== *)
theory SaveLaws
  imports WireSave
begin

text \<open>
  Saving always works: whatever a turn holds, the cap of a storable thread can be written and read
  back, and the document fits the file unless the smallest budget has been tried.
\<close>

section \<open>Shortened events stay storable\<close>

lemma clip_bytes_le: "utf8ByteLength (clipUtf8Text content limit) \<le> utf8ByteLength content"
proof -
  obtain k where k: "fitting_points (js_points content) limit = take k (js_points content)"
    using fitting_points_prefix by blast
  have "sum_list (map utf8ByteLength (take k (js_points content))) \<le> sum_list (map utf8ByteLength (js_points content))"
    by (metis append_take_drop_id le_add1 map_append sum_list_append)
  then show ?thesis
    using utf8ByteLength_points [of k content] utf8ByteLength_points [of "length (js_points content)" content]
    by (simp add: clipUtf8Text_points k)
qed

lemma clip_text_ok: "text_ok n True c content \<Longrightarrow> text_ok n True c (clipUtf8Text content limit)"
proof -
  assume ok: "text_ok n True c content"
  obtain rest where "content = clipUtf8Text content limit @ rest" using clip_prefix by blast
  then have "set (clipUtf8Text content limit) \<subseteq> set content" by (metis set_append Un_upper1)
  with ok clip_bytes_le [of content limit] show ?thesis by (auto simp: text_ok_def)
qed

lemma clip_event:
  "clipEventText event limit = Some clipped \<Longrightarrow>
     event_kind_of clipped = event_kind_of event \<and> event_agentThreadId clipped = event_agentThreadId event \<and>
     (wire_event_ok event \<longrightarrow> wire_event_ok clipped)"
proof (induction event limit arbitrary: clipped rule: clipEventText.induct)
  case (10 thread event limit)
  then show ?case by (auto split: option.splits if_splits)
qed (auto simp: clipped_field_def Let_def clip_text_ok split: option.splits if_splits)

lemma shortened_event:
  assumes "shortened event original"
  shows "event_agentThreadId event = event_agentThreadId original" and "wire_event_ok original \<Longrightarrow> wire_event_ok event"
proof -
  have "event_agentThreadId event = event_agentThreadId original \<and> (wire_event_ok original \<longrightarrow> wire_event_ok event)"
    using assms unfolding shortened_def
    by (induction rule: rtranclp_induct) (auto dest: clip_event)
  then show "event_agentThreadId event = event_agentThreadId original" "wire_event_ok original \<Longrightarrow> wire_event_ok event"
    by simp_all
qed

lemma drawn_from_facts:
  "drawn_from events original \<Longrightarrow>
     length events \<le> length original \<and> threads_of events \<subseteq> threads_of original \<and>
     (list_all wire_event_ok original \<longrightarrow> list_all wire_event_ok events)"
  by (induction rule: list_emb.induct) (auto simp: threads_of_def shortened_event)

lemma finite_threads [simp]: "finite (threads_of events)"
proof (rule finite_subset)
  show "threads_of events \<subseteq> (\<lambda>e. the (event_agentThreadId e)) ` set events" by (force simp: threads_of_def)
qed simp

lemma counted_threads: "length (foldl count_thread [] events) = card (threads_of events)"
  using distinctSubagentThreads_card [of events]
  by (simp add: distinctSubagentThreads_def count_thread_def [abs_def])

lemma tail_of_fits: "agentTurnTailFits (capTurnTail events n limit) (persisted_budget n limit)"
  by (simp add: capTurnTail_def Let_def tail_within_budget)

lemma tail_of_events_ok:
  assumes "list_all wire_event_ok (tn_events turn)" and "drawn_from events (tail_of turn)"
  shows "turn_events_ok events"
proof -
  have fits: "length (tail_of turn) \<le> MAX_PERSISTED_AGENT_EVENTS_PER_TURN"
    "card (threads_of (tail_of turn)) \<le> MAX_SUBAGENT_THREADS_PER_TURN"
    using tail_of_fits [of "tn_events turn" MAX_PERSISTED_AGENT_EVENTS_PER_TURN \<infinity>]
    by (simp_all add: agentTurnTailFits_def persisted_budget_def distinctSubagentThreads_card split: if_splits)
  have "list_all wire_event_ok (tail_of turn)"
    using assms(1) list_emb_set [OF subseq_tail] by (fastforce simp: list_all_iff)
  with drawn_from_facts [OF assms(2)] fits card_mono [OF finite_threads, of "threads_of events" "tail_of turn"]
  show ?thesis by (auto simp: turn_events_ok_def counted_threads)
qed

section \<open>Capped threads are storable\<close>

text \<open>A thread whose turns may hold any number of events, each of which can be stored.\<close>

definition storable_thread :: "agent_thread \<Rightarrow> bool" where
  "storable_thread thread \<longleftrightarrow>
     wire_thread_ok (thread\<lparr>th_turns := map (\<lambda>turn. turn\<lparr>tn_events := []\<rparr>) (th_turns thread)\<rparr>) \<and>
     list_all (\<lambda>turn. list_all wire_event_ok (tn_events turn)) (th_turns thread)"

lemma turn_without_events: "wire_turn_ok turn \<Longrightarrow> wire_turn_ok (turn\<lparr>tn_events := []\<rparr>)"
  by (simp add: wire_turn_ok_def turn_events_ok_def)

text \<open>Whatever the codec can store, the cap can store: the limits on the number of events are its own doing.\<close>

lemma wire_thread_storable:
  assumes "wire_thread_ok (thread\<lparr>th_turns := map (\<lambda>turn. turn\<lparr>tn_events := short turn\<rparr>) (th_turns thread)\<rparr>)"
    and "list_all (\<lambda>turn. list_all wire_event_ok (tn_events turn)) (th_turns thread)"
  shows "storable_thread thread"
proof -
  let ?short = "map (\<lambda>turn. turn\<lparr>tn_events := short turn\<rparr>) (th_turns thread)"
  let ?bare = "map (\<lambda>turn. turn\<lparr>tn_events := []\<rparr>) (th_turns thread)"
  have bare: "wire_turn_ok (turn\<lparr>tn_events := short turn\<rparr>) \<Longrightarrow> wire_turn_ok (turn\<lparr>tn_events := []\<rparr>)" for turn
    using turn_without_events [of "turn\<lparr>tn_events := short turn\<rparr>"] by simp
  have "turns_ok ?short" using assms(1) by (simp add: wire_thread_ok_def)
  then have "turns_ok ?bare"
    by (auto simp: turns_ok_def map_butlast [symmetric] list_all_iff comp_def intro: bare)
  then show ?thesis using assms by (simp add: storable_thread_def wire_thread_ok_def organization_ok_def)
qed

lemma restored_prompt_ok:
  assumes "restoreAgentPromptFromLog stored prompt = Some prompt" and "text_ok n False False prompt"
  shows "text_ok n False False stored"
proof -
  let ?body = "js_slice stored 0 (length stored - length CLIPPED_AGENT_PROMPT_MARKER)"
  have looks: "drop (length stored - length CLIPPED_AGENT_PROMPT_MARKER) stored = CLIPPED_AGENT_PROMPT_MARKER"
    and body: "take (length ?body) prompt = ?body" and shorter: "utf8ByteLength stored < utf8ByteLength prompt"
    using assms(1) by (auto simp: restoreAgentPromptFromLog_def Let_def agentPromptLooksClipped_def js_endsWith_def
        js_startsWith_def split: if_splits)
  have stored: "stored = ?body @ CLIPPED_AGENT_PROMPT_MARKER"
    using looks append_take_drop_id [of "length stored - length CLIPPED_AGENT_PROMPT_MARKER" stored]
    by (simp add: js_slice_def)
  have inside: "set ?body \<subseteq> set prompt" using body set_take_subset by metis
  have marker: "0 \<notin> set CLIPPED_AGENT_PROMPT_MARKER" "CLIPPED_AGENT_PROMPT_MARKER \<noteq> []"
    by (simp_all add: CLIPPED_AGENT_PROMPT_MARKER_def)
  have "set stored = set (?body @ CLIPPED_AGENT_PROMPT_MARKER)" using arg_cong [OF stored, of set] .
  moreover have "stored \<noteq> []" using stored marker(2) by (cases stored) simp_all
  ultimately show ?thesis using assms(2) shorter inside marker(1) by (auto simp: text_ok_def)
qed

lemma compacted_lifecycle_ok:
  assumes "compactPersistedAgentSubagentLifecycle lifecycle = Some compacted"
  shows "lifecycle_ok compacted"
proof -
  obtain legacy where "persistedAgentSubagentLifecycle (Some lifecycle) = Some legacy" "lc_entries legacy \<noteq> []"
    and compacted: "compacted = \<lparr>lc_entries = [last (lc_entries legacy)], lc_truncated = True,
      lc_openBatchKey = None, lc_countedNestedToolIds = None\<rparr>"
    using assms by (auto simp: compactPersistedAgentSubagentLifecycle_def split: option.splits if_splits)
  then have "readAgentSubagentLifecycle (lifecycle_value (legacyAgentSubagentLifecycle lifecycle)) = Some legacy"
    "last (lc_entries legacy) \<in> set (lc_entries legacy)"
    by (simp_all add: persistedAgentSubagentLifecycle_def split: option.splits if_splits)
  then have "lifecycle_ok legacy" "last (lc_entries legacy) \<in> set (lc_entries legacy)"
    using read_sound by blast+
  then have "entry_core (last (lc_entries legacy)) \<and> has_identity (last (lc_entries legacy)) \<and>
      state_ok (last (lc_entries legacy))"
    unfolding lifecycle_ok_def by blast
  then show ?thesis by (simp add: lifecycle_ok_def compacted)
qed

lemma capped_turn_ok:
  assumes "capped_turn turn capped" and "wire_turn_ok (turn\<lparr>tn_events := []\<rparr>)" and "list_all wire_event_ok (tn_events turn)"
  shows "wire_turn_ok capped" and "tn_turnId capped = tn_turnId turn" and "tn_status capped = tn_status turn"
proof -
  have form: "capped = turn\<lparr>tn_prompt := tn_prompt capped, tn_subagentLifecycle := tn_subagentLifecycle capped,
       tn_events := tn_events capped, tn_eventsTruncated := tn_eventsTruncated capped\<rparr>"
    and logged: "logged_part turn capped" and drawn: "drawn_from (tn_events capped) (tail_of turn)"
    using assms(1) by (simp_all add: capped_turn_def)
  have prompt: "text_ok MAX_AGENT_TASK_PROMPT_BYTES False False (tn_prompt capped)"
    using logged assms(2) by (auto simp: logged_part_def wire_turn_ok_def intro: restored_prompt_ok)
  have lifecycle: "pred_option lifecycle_ok (tn_subagentLifecycle capped)"
    using logged assms(2) compacted_lifecycle_ok
    by (cases "tn_subagentLifecycle turn"; cases "tn_subagentLifecycle capped")
      (auto simp: logged_part_def wire_turn_ok_def)
  show "wire_turn_ok capped"
    using assms(2) prompt lifecycle tail_of_events_ok [OF assms(3) drawn]
    by (subst form) (simp add: wire_turn_ok_def)
  show "tn_turnId capped = tn_turnId turn" "tn_status capped = tn_status turn"
    by (subst form, simp)+
qed

lemma capped_thread_ok:
  assumes "storable_thread thread"
  shows "wire_thread_ok (capAgentThreadForPersistence thread budget logged lifecycles)"
proof -
  let ?capped = "capAgentThreadForPersistence thread budget logged lifecycles"
  let ?bare = "map (\<lambda>turn. turn\<lparr>tn_events := []\<rparr>) (th_turns thread)"
  have form: "?capped = thread\<lparr>th_turns := th_turns ?capped\<rparr>"
    and turns: "list_all2 capped_turn (th_turns thread) (th_turns ?capped)"
    using capped_turns by blast+
  have bare: "turns_ok ?bare" using assms by (simp add: storable_thread_def wire_thread_ok_def)
  have storable: "wire_turn_ok (turn\<lparr>tn_events := []\<rparr>)" "list_all wire_event_ok (tn_events turn)"
    if "turn \<in> set (th_turns thread)" for turn
    using that assms bare by (auto simp: storable_thread_def turns_ok_def list_all_iff)
  have each: "list_all2 (\<lambda>turn capped. wire_turn_ok capped \<and> tn_turnId capped = tn_turnId turn \<and> tn_status capped = tn_status turn)
      (th_turns thread) (th_turns ?capped)"
    using turns by (rule list.rel_mono_strong) (use storable capped_turn_ok in blast)
  then have same: "map tn_turnId (th_turns ?capped) = map tn_turnId (th_turns thread)"
      "map tn_status (th_turns ?capped) = map tn_status (th_turns thread)"
    and ok: "list_all wire_turn_ok (th_turns ?capped)"
    by (auto simp: list_all_length list_all2_conv_all_nth intro!: nth_equalityI)
  have "length (th_turns ?capped) = length (th_turns thread)" using turns by (simp add: list_all2_lengthD)
  moreover have "list_all isTerminalAgentTurnStatus (butlast (map tn_status (th_turns ?capped)))"
  proof -
    have "list_all isTerminalAgentTurnStatus (map tn_status (butlast ?bare))"
      using bare by (simp add: turns_ok_def list.pred_map comp_def)
    moreover have "map tn_status (butlast ?bare) = butlast (map tn_status (th_turns thread))"
      by (simp add: map_butlast comp_def)
    ultimately show ?thesis using same(2) by metis
  qed
  then have "list_all (\<lambda>turn. isTerminalAgentTurnStatus (tn_status turn)) (butlast (th_turns ?capped))"
    by (simp add: map_butlast [symmetric] list.pred_map comp_def)
  ultimately have "turns_ok (th_turns ?capped)"
    using bare same(1) ok by (simp add: turns_ok_def comp_def)
  then show ?thesis
    using assms by (subst form) (simp add: storable_thread_def wire_thread_ok_def organization_ok_def)
qed

section \<open>Saving\<close>

definition capped_at :: "agent_thread \<Rightarrow> js_string js_set \<Rightarrow> (js_string, lifecycle) js_map \<Rightarrow> nat \<Rightarrow> agent_thread" where
  "capped_at thread logged lifecycles k =
     capAgentThreadForPersistence thread (((\<lambda>budget. budget div 4) ^^ k) MAX_PERSISTED_THREAD_EVENT_BYTES) logged lifecycles"

lemma fit_attempts_capped:
  assumes "storable_thread thread"
    and "serializeThreadDocument (capped_at thread logged lifecycles k) = Inr document"
  shows "\<exists>n saved. n \<le> attempts \<and>
    fit_attempts thread logged lifecycles attempts (((\<lambda>budget. budget div 4) ^^ k) MAX_PERSISTED_THREAD_EVENT_BYTES) document =
      Inr saved \<and>
    serializeThreadDocument (capped_at thread logged lifecycles (k + n)) = Inr saved \<and>
    (json_bytes saved \<le> persisted_ceiling \<or> n = attempts)"
  using assms(2)
proof (induction attempts arbitrary: k document)
  case 0
  then show ?case by (intro exI [of _ 0] exI [of _ document]) simp
next
  case (Suc attempts)
  show ?case
  proof (cases "json_bytes document \<le> persisted_ceiling")
    case True
    with Suc.prems show ?thesis by (intro exI [of _ 0] exI [of _ document]) (simp add: size_test)
  next
    case False
    obtain smaller where smaller: "serializeThreadDocument (capped_at thread logged lifecycles (Suc k)) = Inr smaller"
      using thread_saved [OF capped_thread_ok [OF assms(1)]] unfolding capped_at_def by blast
    from Suc.IH [OF this] obtain n saved where "n \<le> attempts"
      "fit_attempts thread logged lifecycles attempts
         (((\<lambda>budget. budget div 4) ^^ Suc k) MAX_PERSISTED_THREAD_EVENT_BYTES) smaller = Inr saved"
      "serializeThreadDocument (capped_at thread logged lifecycles (Suc k + n)) = Inr saved"
      "json_bytes saved \<le> persisted_ceiling \<or> n = attempts"
      by blast
    with False smaller show ?thesis
      by (intro exI [of _ "Suc n"] exI [of _ saved])
        (simp add: size_test capped_document_def capped_at_def del: MAX_PERSISTED_THREAD_EVENT_BYTES_def)
  qed
qed

text \<open>
  C7: A thread whose turns hold any number of storable events is always saved, in a document that is
  the cap of the thread under the budget divided by 4 at most three times: the document is within
  the ceiling of the file unless the last budget was reached, and parsing it gives the capped
  thread, in which each turn is a capped turn of the original, up to what the reader normalizes.
\<close>

theorem saved_thread_fits_and_reads_back:
  assumes "storable_thread thread"
  shows "\<exists>attempts saved. serializeAgentThread thread logged lifecycles = Inr saved \<and>
    attempts \<le> PERSISTED_THREAD_FIT_ATTEMPTS \<and>
    parseAgentThread saved = Inr (stored_thread (capped_at thread logged lifecycles attempts)) \<and>
    list_all2 capped_turn (th_turns thread) (th_turns (capped_at thread logged lifecycles attempts)) \<and>
    (json_bytes saved \<le> persisted_ceiling \<or> attempts = PERSISTED_THREAD_FIT_ATTEMPTS)"
proof -
  have readable: "\<exists>item. serializeThreadDocument (capped_at thread logged lifecycles k) = Inr item \<and>
      parseAgentThread item = Inr (stored_thread (capped_at thread logged lifecycles k))" for k
    using thread_saved [OF capped_thread_ok [OF assms]] unfolding capped_at_def by blast
  obtain document where document: "serializeThreadDocument (capped_at thread logged lifecycles 0) = Inr document"
    using readable by blast
  obtain n saved where "n \<le> PERSISTED_THREAD_FIT_ATTEMPTS"
    "fit_attempts thread logged lifecycles PERSISTED_THREAD_FIT_ATTEMPTS MAX_PERSISTED_THREAD_EVENT_BYTES document = Inr saved"
    "serializeThreadDocument (capped_at thread logged lifecycles n) = Inr saved"
    "json_bytes saved \<le> persisted_ceiling \<or> n = PERSISTED_THREAD_FIT_ATTEMPTS"
    using fit_attempts_capped [OF assms document, of PERSISTED_THREAD_FIT_ATTEMPTS] by auto
  moreover have "serializeAgentThread thread logged lifecycles = Inr saved"
    using calculation(2) document by (simp add: serializeAgentThread_def capped_document_def capped_at_def)
  moreover have "list_all2 capped_turn (th_turns thread) (th_turns (capped_at thread logged lifecycles n))"
    using capped_turns unfolding capped_at_def by blast
  ultimately show ?thesis using readable [of n] by (metis Inr_inject)
qed

definition long_thread :: agent_thread where
  "long_thread = said_thread\<lparr>th_turns := [said_turn\<lparr>tn_events := replicate 5000 (AssistantText (js ''yes'') None)\<rparr>]\<rparr>"

lemma long_thread_storable: "storable_thread long_thread"
proof (rule wire_thread_storable)
  have "long_thread\<lparr>th_turns := map (\<lambda>turn. turn\<lparr>tn_events := tn_events said_turn\<rparr>) (th_turns long_thread)\<rparr> = said_thread"
    by (simp add: long_thread_def said_thread_def plain_thread_def)
  then show "wire_thread_ok (long_thread\<lparr>th_turns :=
      map (\<lambda>turn. turn\<lparr>tn_events := tn_events said_turn\<rparr>) (th_turns long_thread)\<rparr>)"
    using said_thread_ok by simp
  show "list_all (\<lambda>turn. list_all wire_event_ok (tn_events turn)) (th_turns long_thread)"
    using said_turn_ok
    by (simp add: long_thread_def wire_turn_ok_def turn_events_ok_def said_turn_def list_all_iff)
qed

lemma saved_thread_fits_and_reads_back_witness:
  "\<exists>attempts saved. serializeAgentThread long_thread [] [] = Inr saved \<and> attempts \<le> 3 \<and>
    parseAgentThread saved = Inr (stored_thread (capped_at long_thread [] [] attempts))"
  using saved_thread_fits_and_reads_back [OF long_thread_storable, of "[]" "[]"]
  by (auto simp: PERSISTED_THREAD_FIT_ATTEMPTS_def)

end
