(* ===== verification/ContextWindow.thy ===== *)
theory ContextWindow
  imports ThreadData
begin

text \<open>
  How full the model's context is. \<open>src/domain/agentContextWindow.ts\<close> scans the events of a turn;
  \<open>src/domain/agentTurnDigest.ts\<close> keeps the same answer up to date batch by batch, in the digest that
  the log of a turn stores. The capacity of a model is remembered for at most 16 models.
\<close>

section \<open>Scanning a turn\<close>

record context_window =
  cw_observedAtEpochMs :: "int option"
  cw_usedTokens :: int
  cw_contextWindow :: int

record occupancy =
  oc_observedAtEpochMs :: "int option"
  oc_model :: js_string
  oc_inputTokens :: int

definition nonnegative_number :: "int option \<Rightarrow> bool" where
  "nonnegative_number item \<longleftrightarrow> (case item of None \<Rightarrow> False | Some n \<Rightarrow> isSafeInteger n \<and> n \<ge> 0)"

definition positive_number :: "int option \<Rightarrow> bool" where
  "positive_number item \<longleftrightarrow> nonnegative_number item \<and> the item > 0"

definition observationTimestamp :: "int option \<Rightarrow> int option" where
  "observationTimestamp observed = (if nonnegative_number observed then observed else None)"

fun invalidatesContext :: "agent_cli_kind \<Rightarrow> agent_turn_event \<Rightarrow> bool" where
  "invalidatesContext provider (ContextCompaction _ _) = True"
| "invalidatesContext provider (ErrorEvent _) = True"
| "invalidatesContext provider (Result result) = (res_isError result \<and> provider \<noteq> Codex)"
| "invalidatesContext provider (ContextCompactionStatus status _) = (status \<noteq> CompactionIdle)"
| "invalidatesContext provider _ = False"

record context_scan =
  sc_current :: "context_window option"
  sc_primary :: "occupancy option"
  sc_capacities :: "(js_string, int) js_map"

definition scan_usage :: "context_scan \<Rightarrow> context_usage \<Rightarrow> context_scan" where
  "scan_usage scan usage =
     (let capacities =
        (if positive_number (cu_contextWindow usage) then
           AList.update (cu_model usage) (the (cu_contextWindow usage))
             (if map_of (sc_capacities scan) (cu_model usage) = None \<and> length (sc_capacities scan) \<ge> 16
              then AList.delete (fst (hd (sc_capacities scan))) (sc_capacities scan) else sc_capacities scan)
         else sc_capacities scan);
        primary =
        (if nonnegative_number (cu_inputTokens usage) then
           Some \<lparr>oc_observedAtEpochMs = observationTimestamp (cu_observedAtEpochMs usage), oc_model = cu_model usage,
             oc_inputTokens = the (cu_inputTokens usage)\<rparr>
         else sc_primary scan);
        capacity = (case primary of None \<Rightarrow> None | Some p \<Rightarrow> map_of capacities (oc_model p)) in
      \<lparr>sc_current =
         (case (primary, capacity) of
            (Some p, Some n) \<Rightarrow>
              Some \<lparr>cw_observedAtEpochMs = observationTimestamp (oc_observedAtEpochMs p), cw_usedTokens = oc_inputTokens p,
                cw_contextWindow = n\<rparr>
          | _ \<Rightarrow> None),
       sc_primary = primary, sc_capacities = capacities\<rparr>)"

definition scan_result :: "context_scan \<Rightarrow> result_event \<Rightarrow> context_scan" where
  "scan_result scan result =
     (case (case res_usage result of None \<Rightarrow> None | Some usage \<Rightarrow> us_appServerUsage usage) of
        None \<Rightarrow> scan
      | Some usage \<Rightarrow>
          scan\<lparr>sc_current :=
            if positive_number (asu_contextWindow usage) \<and>
               nonnegative_number (Some (tb_totalTokens (asu_last usage)))
            then Some \<lparr>cw_observedAtEpochMs = None, cw_usedTokens = tb_totalTokens (asu_last usage),
              cw_contextWindow = the (asu_contextWindow usage)\<rparr>
            else None\<rparr>)"

definition scan_event :: "agent_cli_kind \<Rightarrow> context_scan \<Rightarrow> agent_turn_event \<Rightarrow> context_scan" where
  "scan_event provider scan event =
     (if invalidatesContext provider event
      then \<lparr>sc_current = None, sc_primary = None, sc_capacities = []\<rparr>
      else
        case event of
          ContextUsage usage \<Rightarrow> scan_usage scan usage
        | Result result \<Rightarrow> if provider = Codex then scan_result scan result else scan
        | _ \<Rightarrow> scan)"

definition settledContextWindow ::
  "agent_cli_kind \<Rightarrow> turn_status \<Rightarrow> context_window option \<Rightarrow> context_window option" where
  "settledContextWindow provider status current =
     (if provider = Codex then current
      else
        case status of
          TaskStatus (TaskFailed _) \<Rightarrow> None
        | TurnInterrupted \<Rightarrow> None
        | TaskStatus TaskStopped \<Rightarrow> None
        | TaskStatus (TaskExited exitCode) \<Rightarrow> if exitCode \<noteq> 0 then None else current
        | _ \<Rightarrow> current)"

definition agentContextWindow :: "agent_thread option \<Rightarrow> context_window option \<Rightarrow> context_window option" where
  "agentContextWindow thread loggedWindow =
     (case thread of
        None \<Rightarrow> None
      | Some thread \<Rightarrow>
          let provider = ps_kind (th_provider thread) in
          if th_turns thread = [] then None
          else
            let turn = last (th_turns thread) in
            if tn_eventsTruncated turn then settledContextWindow provider (tn_status turn) loggedWindow
            else settledContextWindow provider (tn_status turn)
              (sc_current (foldl (scan_event provider)
                \<lparr>sc_current = None, sc_primary = None, sc_capacities = []\<rparr> (tn_events turn))))"

section \<open>The digest\<close>

definition AGENT_TURN_DIGEST_VERSION :: nat where "AGENT_TURN_DIGEST_VERSION = 1"
definition MAX_AGENT_TURN_DIGEST_CAPACITIES :: nat where "MAX_AGENT_TURN_DIGEST_CAPACITIES = 16"
definition MAX_AGENT_TURN_DIGEST_MODEL_BYTES :: nat where "MAX_AGENT_TURN_DIGEST_MODEL_BYTES = 256"

record digest_capacity =
  dc_model :: js_string
  dc_contextWindow :: int

record digest_context =
  dx_provider :: agent_cli_kind
  dx_capacities :: "digest_capacity list"
  dx_primary :: "occupancy option"
  dx_current :: "context_window option"
  dx_bounded :: bool

record turn_digest =
  td_version :: nat
  td_context :: digest_context

record digest_fold =
  df_provider :: agent_cli_kind
  df_capacities :: "(js_string, int) js_map"
  df_primary :: "occupancy option"
  df_current :: "context_window option"
  df_bounded :: bool

definition emptyAgentTurnDigest :: "agent_cli_kind \<Rightarrow> turn_digest" where
  "emptyAgentTurnDigest provider =
     \<lparr>td_version = AGENT_TURN_DIGEST_VERSION,
      td_context = \<lparr>dx_provider = provider, dx_capacities = [], dx_primary = None, dx_current = None,
        dx_bounded = False\<rparr>\<rparr>"

definition agentTurnDigestContextWindow :: "turn_digest option \<Rightarrow> context_window option" where
  "agentTurnDigestContextWindow digest =
     (case digest of None \<Rightarrow> None | Some digest \<Rightarrow> dx_current (td_context digest))"

definition oversizedModel :: "js_string \<Rightarrow> bool" where
  "oversizedModel model \<longleftrightarrow> length (utf8_encode model) > MAX_AGENT_TURN_DIGEST_MODEL_BYTES"

definition openFold :: "turn_digest \<Rightarrow> digest_fold" where
  "openFold digest =
     (let context = td_context digest in
      \<lparr>df_provider = dx_provider context,
       df_capacities = foldl (\<lambda>m entry. AList.update (dc_model entry) (dc_contextWindow entry) m) [] (dx_capacities context),
       df_primary = dx_primary context, df_current = dx_current context, df_bounded = dx_bounded context\<rparr>)"

fun close_capacities :: "(js_string \<times> int) list \<Rightarrow> bool \<Rightarrow> digest_capacity list \<times> bool" where
  "close_capacities [] bounded = ([], bounded)"
| "close_capacities ((model, contextWindow) # entries) bounded =
     (if oversizedModel model then close_capacities entries True
      else
        case close_capacities entries bounded of
          (capacities, bounded) \<Rightarrow> (\<lparr>dc_model = model, dc_contextWindow = contextWindow\<rparr> # capacities, bounded))"

definition closeFold :: "digest_fold \<Rightarrow> turn_digest" where
  "closeFold acc =
     (let (capacities, bounded) = close_capacities (df_capacities acc) (df_bounded acc);
        primary = (case df_primary acc of None \<Rightarrow> None | Some p \<Rightarrow> if \<not> oversizedModel (oc_model p) then Some p else None);
        bounded = (if primary = None \<and> df_primary acc \<noteq> None then True else bounded) in
      \<lparr>td_version = AGENT_TURN_DIGEST_VERSION,
       td_context = \<lparr>dx_provider = df_provider acc, dx_capacities = capacities, dx_primary = primary,
         dx_current = df_current acc, dx_bounded = bounded\<rparr>\<rparr>)"

definition retainCapacity :: "digest_fold \<Rightarrow> js_string \<Rightarrow> int \<Rightarrow> digest_fold" where
  "retainCapacity acc model contextWindow =
     (let full = (map_of (df_capacities acc) model = None \<and>
            length (df_capacities acc) \<ge> MAX_AGENT_TURN_DIGEST_CAPACITIES);
        capacities = (if full then
            (case df_capacities acc of [] \<Rightarrow> [] | (oldest, _) # _ \<Rightarrow> AList.delete oldest (df_capacities acc))
          else df_capacities acc) in
      acc\<lparr>df_capacities := AList.update model contextWindow capacities, df_bounded := (df_bounded acc \<or> full)\<rparr>)"

definition acceptContextUsage :: "digest_fold \<Rightarrow> context_usage \<Rightarrow> digest_fold" where
  "acceptContextUsage acc usage =
     (let acc = (if positive_number (cu_contextWindow usage)
            then retainCapacity acc (cu_model usage) (the (cu_contextWindow usage)) else acc);
        acc = (if nonnegative_number (cu_inputTokens usage)
            then acc\<lparr>df_primary := Some \<lparr>oc_observedAtEpochMs = observationTimestamp (cu_observedAtEpochMs usage),
              oc_model = cu_model usage, oc_inputTokens = the (cu_inputTokens usage)\<rparr>\<rparr>
            else acc);
        capacity = (case df_primary acc of None \<Rightarrow> None | Some p \<Rightarrow> map_of (df_capacities acc) (oc_model p)) in
      acc\<lparr>df_current :=
        (case (df_primary acc, capacity) of
           (Some p, Some n) \<Rightarrow>
             Some \<lparr>cw_observedAtEpochMs = observationTimestamp (oc_observedAtEpochMs p), cw_usedTokens = oc_inputTokens p,
               cw_contextWindow = n\<rparr>
         | _ \<Rightarrow> None)\<rparr>)"

definition acceptResult :: "digest_fold \<Rightarrow> result_event \<Rightarrow> digest_fold" where
  "acceptResult acc result =
     (case (case res_usage result of None \<Rightarrow> None | Some usage \<Rightarrow> us_appServerUsage usage) of
        None \<Rightarrow> acc
      | Some usage \<Rightarrow>
          acc\<lparr>df_current :=
            if positive_number (asu_contextWindow usage) \<and>
               nonnegative_number (Some (tb_totalTokens (asu_last usage)))
            then Some \<lparr>cw_observedAtEpochMs = None, cw_usedTokens = tb_totalTokens (asu_last usage),
              cw_contextWindow = the (asu_contextWindow usage)\<rparr>
            else None\<rparr>)"

definition acceptDigestEvent :: "digest_fold \<Rightarrow> agent_turn_event \<Rightarrow> digest_fold" where
  "acceptDigestEvent acc event =
     (if invalidatesContext (df_provider acc) event
      then acc\<lparr>df_current := None, df_primary := None, df_capacities := []\<rparr>
      else
        case event of
          ContextUsage usage \<Rightarrow> acceptContextUsage acc usage
        | Result result \<Rightarrow> if df_provider acc = Codex then acceptResult acc result else acc
        | _ \<Rightarrow> acc)"

definition foldAgentTurnDigest :: "turn_digest \<Rightarrow> agent_turn_event list \<Rightarrow> turn_digest" where
  "foldAgentTurnDigest digest events =
     (if length events = 0 then digest else closeFold (foldl acceptDigestEvent (openFold digest) events))"

section \<open>A digest is the scan\<close>

text \<open>The models that fit a digest.\<close>

fun small_model :: "agent_turn_event \<Rightarrow> bool" where
  "small_model (ContextUsage usage) = (\<not> oversizedModel (cu_model usage))"
| "small_model _ = True"

definition fold_ok :: "digest_fold \<Rightarrow> bool" where
  "fold_ok acc \<longleftrightarrow> map_wf (df_capacities acc) \<and> length (df_capacities acc) \<le> MAX_AGENT_TURN_DIGEST_CAPACITIES \<and>
     (\<forall>model \<in> fst ` set (df_capacities acc). \<not> oversizedModel model) \<and>
     (\<forall>p. df_primary acc = Some p \<longrightarrow> \<not> oversizedModel (oc_model p))"

definition scan_of :: "digest_fold \<Rightarrow> context_scan" where
  "scan_of acc = \<lparr>sc_current = df_current acc, sc_primary = df_primary acc, sc_capacities = df_capacities acc\<rparr>"

lemma retainCapacity_scan:
  "df_capacities (retainCapacity acc model n) =
     AList.update model n
       (if map_of (df_capacities acc) model = None \<and> length (df_capacities acc) \<ge> 16
        then AList.delete (fst (hd (df_capacities acc))) (df_capacities acc) else df_capacities acc)"
  "df_primary (retainCapacity acc model n) = df_primary acc"
  "df_provider (retainCapacity acc model n) = df_provider acc"
  by (auto simp: retainCapacity_def Let_def MAX_AGENT_TURN_DIGEST_CAPACITIES_def split: list.split)

lemma accept_scan:
  "scan_of (acceptDigestEvent acc event) = scan_event (df_provider acc) (scan_of acc) event \<and>
   df_provider (acceptDigestEvent acc event) = df_provider acc"
proof (cases "invalidatesContext (df_provider acc) event")
  case True
  then show ?thesis by (simp add: acceptDigestEvent_def scan_event_def scan_of_def)
next
  case False
  then show ?thesis
    by (cases event)
      (simp_all add: acceptDigestEvent_def scan_event_def scan_of_def acceptContextUsage_def scan_usage_def
        acceptResult_def scan_result_def Let_def retainCapacity_scan split: option.split)
qed

lemma fold_scan:
  "scan_of (foldl acceptDigestEvent acc events) = foldl (scan_event (df_provider acc)) (scan_of acc) events \<and>
   df_provider (foldl acceptDigestEvent acc events) = df_provider acc"
  by (induction events arbitrary: acc) (simp_all add: accept_scan)

lemma length_delete_head: "m \<noteq> [] \<Longrightarrow> length (AList.delete (fst (hd m)) m) < length m"
  by (cases m) (auto simp: AList.delete_eq less_Suc_eq_le)

lemma retainCapacity_ok:
  assumes "fold_ok acc" and "\<not> oversizedModel model"
  shows "fold_ok (retainCapacity acc model n)"
proof -
  define kept where "kept = (if map_of (df_capacities acc) model = None \<and> length (df_capacities acc) \<ge> 16
      then AList.delete (fst (hd (df_capacities acc))) (df_capacities acc) else df_capacities acc)"
  have sub: "set kept \<subseteq> set (df_capacities acc)" "map_wf kept"
    using assms(1) by (auto simp: kept_def fold_ok_def AList.delete_eq map_wf_def intro: distinct_map_filter)
  have "length (AList.update model n kept) \<le> 16"
  proof (cases "map_of kept model = None")
    case True
    have "length kept < 16"
    proof (cases "map_of (df_capacities acc) model = None \<and> length (df_capacities acc) \<ge> 16")
      case full: True
      then have "df_capacities acc \<noteq> []" by auto
      with full assms(1) length_delete_head [of "df_capacities acc"] show ?thesis
        by (simp add: kept_def fold_ok_def MAX_AGENT_TURN_DIGEST_CAPACITIES_def)
    qed (use True in \<open>auto simp: kept_def\<close>)
    with True show ?thesis by (simp add: length_update_absent)
  next
    case False
    then have "length (AList.update model n kept) = length kept" by (rule length_update_present)
    also have "\<dots> \<le> length (df_capacities acc)" by (simp add: kept_def length_map_delete_le)
    finally show ?thesis using assms(1) by (simp add: fold_ok_def MAX_AGENT_TURN_DIGEST_CAPACITIES_def)
  qed
  moreover have "\<forall>m \<in> fst ` set (AList.update model n kept). \<not> oversizedModel m"
  proof
    fix m assume "m \<in> fst ` set (AList.update model n kept)"
    then have "m = model \<or> m \<in> fst ` set kept" unfolding dom_update by simp
    then have "m = model \<or> m \<in> fst ` set (df_capacities acc)" using image_mono [OF sub(1), of fst] by blast
    moreover have "\<forall>m \<in> fst ` set (df_capacities acc). \<not> oversizedModel m"
      using assms(1) unfolding fold_ok_def by blast
    ultimately show "\<not> oversizedModel m" using assms(2) by blast
  qed
  moreover have "df_capacities (retainCapacity acc model n) = AList.update model n kept"
    by (simp add: retainCapacity_scan kept_def)
  moreover have "map_wf (AList.update model n kept)" using sub(2) by simp
  ultimately show ?thesis
    using assms(1) by (simp add: fold_ok_def retainCapacity_scan(2) MAX_AGENT_TURN_DIGEST_CAPACITIES_def)
qed

lemma accept_ok:
  assumes "fold_ok acc" and "small_model event"
  shows "fold_ok (acceptDigestEvent acc event)"
proof (cases "invalidatesContext (df_provider acc) event")
  case True
  then show ?thesis by (simp add: acceptDigestEvent_def fold_ok_def)
next
  case False
  show ?thesis
  proof (cases event)
    case (ContextUsage usage)
    have "fold_ok (if positive_number (cu_contextWindow usage)
        then retainCapacity acc (cu_model usage) (the (cu_contextWindow usage)) else acc)" (is "fold_ok ?acc")
      using assms ContextUsage by (simp add: retainCapacity_ok)
    moreover have "acceptDigestEvent acc event = acceptContextUsage acc usage" using False ContextUsage
      by (simp add: acceptDigestEvent_def)
    ultimately show ?thesis
      using assms(2) ContextUsage by (simp add: acceptContextUsage_def Let_def fold_ok_def)
  qed (use False assms in \<open>auto simp: acceptDigestEvent_def acceptResult_def fold_ok_def split: option.split\<close>)
qed

lemma fold_ok_events: "fold_ok acc \<Longrightarrow> list_all small_model events \<Longrightarrow> fold_ok (foldl acceptDigestEvent acc events)"
  by (induction events arbitrary: acc) (simp_all add: accept_ok)

lemma close_capacities_small:
  "\<forall>model \<in> fst ` set entries. \<not> oversizedModel model \<Longrightarrow>
     close_capacities entries b = (map (\<lambda>(model, n). \<lparr>dc_model = model, dc_contextWindow = n\<rparr>) entries, b)"
  by (induction entries b rule: close_capacities.induct) auto

lemma update_new_entry: "map_of m k = None \<Longrightarrow> AList.update k v m = m @ [(k, v)]"
  by (induction m) (auto split: if_splits)

lemma open_capacities:
  "map_wf (m @ entries) \<Longrightarrow>
     foldl (\<lambda>m entry. AList.update (dc_model entry) (dc_contextWindow entry) m) m
       (map (\<lambda>(model, n). \<lparr>dc_model = model, dc_contextWindow = n\<rparr>) entries) = m @ entries"
proof (induction entries arbitrary: m)
  case (Cons entry entries)
  obtain model n where entry: "entry = (model, n)" by (cases entry)
  have "map_of m model = None"
    using Cons.prems by (auto simp: entry map_wf_def map_of_eq_None_iff)
  then have "AList.update model n m = m @ [(model, n)]" by (rule update_new_entry)
  with Cons.IH [of "m @ [entry]"] Cons.prems show ?case by (simp add: entry)
qed simp

lemma open_close: "fold_ok acc \<Longrightarrow> openFold (closeFold acc) = acc"
  using open_capacities [of "[]" "df_capacities acc"]
  by (cases "df_primary acc")
    (simp_all add: fold_ok_def openFold_def closeFold_def Let_def close_capacities_small)

text \<open>A digest that the fold can continue from.\<close>

definition digest_ok :: "turn_digest \<Rightarrow> bool" where
  "digest_ok digest \<longleftrightarrow> fold_ok (openFold digest) \<and> closeFold (openFold digest) = digest"

lemma empty_digest_ok: "digest_ok (emptyAgentTurnDigest provider)"
  by (simp add: digest_ok_def openFold_def closeFold_def emptyAgentTurnDigest_def fold_ok_def Let_def
      AGENT_TURN_DIGEST_VERSION_def)

lemma fold_digest:
  assumes "digest_ok digest" and "list_all small_model events"
  shows "foldAgentTurnDigest digest events = closeFold (foldl acceptDigestEvent (openFold digest) events)"
    and "digest_ok (foldAgentTurnDigest digest events)"
proof -
  show form: "foldAgentTurnDigest digest events = closeFold (foldl acceptDigestEvent (openFold digest) events)"
    using assms(1) by (simp add: foldAgentTurnDigest_def digest_ok_def)
  have "fold_ok (foldl acceptDigestEvent (openFold digest) events)"
    using assms by (simp add: digest_ok_def fold_ok_events)
  then show "digest_ok (foldAgentTurnDigest digest events)" by (simp add: form digest_ok_def open_close)
qed

lemma fold_batches:
  assumes "digest_ok digest" and "list_all (list_all small_model) batches"
  shows "foldl foldAgentTurnDigest digest batches = closeFold (foldl acceptDigestEvent (openFold digest) (concat batches))"
  using assms
proof (induction batches arbitrary: digest)
  case Nil
  then show ?case by (simp add: digest_ok_def)
next
  case (Cons batch batches)
  have events: "list_all small_model batch" "list_all (list_all small_model) batches" using Cons.prems(2) by simp_all
  have "fold_ok (foldl acceptDigestEvent (openFold digest) batch)"
    using Cons.prems(1) events(1) by (simp add: digest_ok_def fold_ok_events)
  with Cons.IH [OF fold_digest(2) [OF Cons.prems(1) events(1)] events(2)] fold_digest(1) [OF Cons.prems(1) events(1)]
  show ?case by (simp add: open_close)
qed

text \<open>
  C22: The digest the log keeps is the answer the scan of the events gives. However the events of a
  turn arrive in batches, the context window of the digest folded over them is the one a scan of the
  whole turn finds, before its status is considered; model names are within the 256 bytes a digest
  stores.
\<close>

theorem digest_is_context_scan:
  assumes "list_all (list_all small_model) batches" and "th_turns thread \<noteq> []"
    and "tn_events (last (th_turns thread)) = concat batches" and "\<not> tn_eventsTruncated (last (th_turns thread))"
    and "provider = ps_kind (th_provider thread)"
  shows "agentContextWindow (Some thread) logged =
    settledContextWindow provider (tn_status (last (th_turns thread)))
      (agentTurnDigestContextWindow (Some (foldl foldAgentTurnDigest (emptyAgentTurnDigest provider) batches)))"
proof -
  let ?empty = "openFold (emptyAgentTurnDigest provider)"
  let ?acc = "foldl acceptDigestEvent ?empty (concat batches)"
  have "dx_current (td_context (closeFold acc)) = df_current acc" for acc
    by (simp add: closeFold_def Let_def case_prod_beta)
  then have "agentTurnDigestContextWindow (Some (foldl foldAgentTurnDigest (emptyAgentTurnDigest provider) batches)) =
      sc_current (scan_of ?acc)"
    by (simp add: agentTurnDigestContextWindow_def fold_batches [OF empty_digest_ok assms(1)] scan_of_def)
  also have "\<dots> = sc_current (foldl (scan_event provider)
      \<lparr>sc_current = None, sc_primary = None, sc_capacities = []\<rparr> (concat batches))"
    using fold_scan [of ?empty "concat batches"]
    by (simp add: scan_of_def openFold_def emptyAgentTurnDigest_def Let_def)
  finally show ?thesis using assms(2-5) by (simp add: agentContextWindow_def Let_def)
qed

definition measured_usage :: agent_turn_event where
  "measured_usage = ContextUsage \<lparr>cu_observedAtEpochMs = None, cu_model = js ''opus'', cu_inputTokens = Some 10,
     cu_contextWindow = Some 200\<rparr>"

lemma digest_is_context_scan_witness:
  "agentContextWindow (Some (plain_thread [] [(plain_turn [] (TaskStatus TaskRunning))\<lparr>tn_events := [measured_usage]\<rparr>])) None =
     Some \<lparr>cw_observedAtEpochMs = None, cw_usedTokens = 10, cw_contextWindow = 200\<rparr>"
proof -
  let ?thread = "plain_thread [] [(plain_turn [] (TaskStatus TaskRunning))\<lparr>tn_events := [measured_usage]\<rparr>]"
  have small: "\<not> oversizedModel [111, 112, 117, 115]"
    by (simp add: oversizedModel_def MAX_AGENT_TURN_DIGEST_MODEL_BYTES_def length_utf8_encode)
  have digest: "dx_current (td_context (foldAgentTurnDigest (emptyAgentTurnDigest ClaudeCode) [measured_usage])) =
      Some \<lparr>cw_observedAtEpochMs = None, cw_usedTokens = 10, cw_contextWindow = 200\<rparr>"
    by (simp add: foldAgentTurnDigest_def emptyAgentTurnDigest_def openFold_def closeFold_def acceptDigestEvent_def
        measured_usage_def acceptContextUsage_def retainCapacity_def positive_number_def nonnegative_number_def
        observationTimestamp_def isSafeInteger_def max_safe_integer_def Let_def case_prod_beta
        MAX_AGENT_TURN_DIGEST_CAPACITIES_def)
  have "agentContextWindow (Some ?thread) None =
      settledContextWindow ClaudeCode (tn_status (last (th_turns ?thread)))
        (agentTurnDigestContextWindow (Some (foldl foldAgentTurnDigest (emptyAgentTurnDigest ClaudeCode) [[measured_usage]])))"
    by (rule digest_is_context_scan) (simp_all add: small measured_usage_def plain_thread_def plain_turn_def)
  then show ?thesis
    by (simp add: digest agentTurnDigestContextWindow_def settledContextWindow_def plain_thread_def plain_turn_def)
qed

end
