(* ===== verification/TurnLog.thy ===== *)
theory TurnLog
  imports Merge ContextWindow
begin

text \<open>
  The log of a turn, \<open>src/domain/agentTurnLog.ts\<close>: its entries, what may have been lost from it, and
  the errors its store answers with. An error a gateway call rejects with is a \<open>gateway_error\<close>.
\<close>

definition AGENT_TURN_LOG_FIRST_SEQ :: nat where "AGENT_TURN_LOG_FIRST_SEQ = 1"

definition log_limit_appendOps :: nat where "log_limit_appendOps = 256"

datatype turn_log_loss =
    LossNone
  | LossLegacyWindow
  | LossBackgroundBuffer
  | LossSupervisorGap
  | LossWriteFailure
  | LossDiskBudget int
  | LossTurnCeiling
  | LossUnreadable

record log_entry =
  ent_seq :: nat
  ent_event :: agent_turn_event

datatype turn_log_error =
    SupersededWriter
  | SequenceGap
  | SealedLog
  | OwnerMismatch
  | BudgetExhausted
  | DiskFull
  | ForeignLog
  | UnreadableLog
  | BusyLog

datatype gateway_error =
    TurnLogFailure turn_log_error "nat option"
  | BatchTooLarge
  | OtherError

fun agentTurnLogLossSeverity :: "turn_log_loss \<Rightarrow> nat" where
  "agentTurnLogLossSeverity LossNone = 0"
| "agentTurnLogLossSeverity LossLegacyWindow = 1"
| "agentTurnLogLossSeverity LossBackgroundBuffer = 2"
| "agentTurnLogLossSeverity LossSupervisorGap = 3"
| "agentTurnLogLossSeverity LossWriteFailure = 4"
| "agentTurnLogLossSeverity LossTurnCeiling = 5"
| "agentTurnLogLossSeverity (LossDiskBudget _) = 6"
| "agentTurnLogLossSeverity LossUnreadable = 7"

definition mergeAgentTurnLogLoss :: "turn_log_loss \<Rightarrow> turn_log_loss \<Rightarrow> turn_log_loss" where
  "mergeAgentTurnLogLoss current later =
     (if agentTurnLogLossSeverity later > agentTurnLogLossSeverity current then later else current)"

fun agentTurnLogFailureCode :: "gateway_error \<Rightarrow> turn_log_error option" where
  "agentTurnLogFailureCode (TurnLogFailure code _) = Some code"
| "agentTurnLogFailureCode _ = None"

fun agentTurnLogFailureNextSeq :: "gateway_error \<Rightarrow> nat option" where
  "agentTurnLogFailureNextSeq (TurnLogFailure _ nextSeq) = nextSeq"
| "agentTurnLogFailureNextSeq _ = None"

fun isAgentTurnLogBatchTooLarge :: "gateway_error \<Rightarrow> bool" where
  "isAgentTurnLogBatchTooLarge BatchTooLarge = True"
| "isAgentTurnLogBatchTooLarge _ = False"

lemma merge_loss_none [simp]:
  "mergeAgentTurnLogLoss LossNone loss = loss" "mergeAgentTurnLogLoss loss LossNone = loss"
  by (cases loss; simp add: mergeAgentTurnLogLoss_def)+

lemma merge_loss_eq_none: "mergeAgentTurnLogLoss a b = LossNone \<longleftrightarrow> a = LossNone \<and> b = LossNone"
  by (cases a; cases b) (simp_all add: mergeAgentTurnLogLoss_def)

end
