(* ===== verification/TurnWindow.thy ===== *)
theory TurnWindow
  imports TurnLog
begin

text \<open>
  The window of a turn's log, \<open>src/domain/agentTurnWindow.ts\<close>: events become rows with sequence
  numbers, streamed text grows the last row, a snapshot replaces the row it supersedes, and the rows
  that changed since they were written are dirty. The policy is an argument. The object
  \<open>CLIPPED_AGENT_TURN_LOG_ROW\<close> is told apart by identity in the source, so a row is a datatype here;
  where \<open>commit\<close> compares a row with the one of the batch by identity, the answer is an argument. The
  \<open>probe\<close> only counts work for a test and is left out.
\<close>

section \<open>Rows and state\<close>

definition MAX_AGENT_TURN_LOG_EVENT_BYTES :: nat where "MAX_AGENT_TURN_LOG_EVENT_BYTES = 262144"
definition MAX_AGENT_TURN_LOG_OP_BYTES :: nat where "MAX_AGENT_TURN_LOG_OP_BYTES = 262144"
definition MAX_AGENT_TURN_WINDOW_LIVE_SNAPSHOTS :: nat where "MAX_AGENT_TURN_WINDOW_LIVE_SNAPSHOTS = 512"
definition MAX_AGENT_TURN_WINDOW_IDENTITIES :: nat where "MAX_AGENT_TURN_WINDOW_IDENTITIES = 4096"
definition EMPTY_BATCH_BYTES :: nat where "EMPTY_BATCH_BYTES = 2"
definition OP_SEPARATOR_BYTES :: nat where "OP_SEPARATOR_BYTES = 1"

datatype row_object = EventObject agent_turn_event | ClippedRow

definition CLIPPED_AGENT_TURN_LOG_ROW :: agent_turn_event where
  "CLIPPED_AGENT_TURN_LOG_ROW = UnknownLine Stdout [] True"

fun row_event :: "row_object \<Rightarrow> agent_turn_event" where
  "row_event (EventObject event) = event"
| "row_event ClippedRow = CLIPPED_AGENT_TURN_LOG_ROW"

record window_policy =
  wp_eventBytes :: "agent_turn_event \<Rightarrow> nat"
  wp_opBytes :: "log_entry \<Rightarrow> nat"
  wp_coalesceText :: "agent_turn_event option \<Rightarrow> agent_turn_event \<Rightarrow> agent_turn_event option"
  wp_maxEventBytes :: nat
  wp_maxOpBytes :: nat
  wp_maxLiveSnapshots :: "nat option"
  wp_maxIdentities :: "nat option"

definition live_limit :: "window_policy \<Rightarrow> nat" where
  "live_limit policy =
     (case wp_maxLiveSnapshots policy of None \<Rightarrow> MAX_AGENT_TURN_WINDOW_LIVE_SNAPSHOTS | Some n \<Rightarrow> n)"

definition identity_limit :: "window_policy \<Rightarrow> nat" where
  "identity_limit policy =
     (case wp_maxIdentities policy of None \<Rightarrow> MAX_AGENT_TURN_WINDOW_IDENTITIES | Some n \<Rightarrow> n)"

record window_state =
  wn_live :: "(nat, agent_turn_event) js_map"
  wn_dirty :: "(nat, row_object) js_map"
  wn_identities :: "js_string js_set"
  wn_snapshots :: snapshot_index
  wn_tail :: "(nat \<times> row_object) option"
  wn_nextSeq :: nat
  wn_totalBytes :: int
  wn_pendingBytes :: int
  wn_bounded :: bool
  wn_loss :: turn_log_loss
  wn_digest :: turn_digest

record window_pending =
  pn_ops :: nat
  pn_bytes :: int

record window_acceptance =
  ac_urgent :: bool
  ac_pending :: window_pending

record window_batch =
  wb_ops :: "log_entry list"
  wb_digest :: "turn_digest option"
  wb_complete :: bool

definition createAgentTurnWindow :: "nat option \<Rightarrow> turn_digest \<Rightarrow> window_state" where
  "createAgentTurnWindow firstSeq digest =
     \<lparr>wn_live = [], wn_dirty = [], wn_identities = [], wn_snapshots = createAgentTurnSnapshotIndex,
      wn_tail = None, wn_nextSeq = (case firstSeq of None \<Rightarrow> AGENT_TURN_LOG_FIRST_SEQ | Some n \<Rightarrow> n),
      wn_totalBytes = 0, wn_pendingBytes = 0, wn_bounded = False, wn_loss = LossNone, wn_digest = digest\<rparr>"

fun urgentAgentTurnLogEvent :: "agent_turn_event \<Rightarrow> bool" where
  "urgentAgentTurnLogEvent (UserMessage _) = True"
| "urgentAgentTurnLogEvent (Result _) = True"
| "urgentAgentTurnLogEvent (ErrorEvent _) = True"
| "urgentAgentTurnLogEvent _ = False"

section \<open>Accepting events\<close>

definition op_bytes :: "window_policy \<Rightarrow> nat \<Rightarrow> row_object \<Rightarrow> nat" where
  "op_bytes policy seq row = wp_opBytes policy \<lparr>ent_seq = seq, ent_event = row_event row\<rparr>"

definition overOpBound :: "window_policy \<Rightarrow> nat \<Rightarrow> agent_turn_event \<Rightarrow> bool" where
  "overOpBound policy seq event \<longleftrightarrow> op_bytes policy seq (EventObject event) > wp_maxOpBytes policy"

definition pendingOf :: "window_state \<Rightarrow> window_pending" where
  "pendingOf state = \<lparr>pn_ops = length (wn_dirty state), pn_bytes = wn_pendingBytes state\<rparr>"

definition markDirty :: "window_policy \<Rightarrow> window_state \<Rightarrow> nat \<Rightarrow> row_object \<Rightarrow> window_state" where
  "markDirty policy state seq row =
     (let previousBytes = (case map_of (wn_dirty state) seq of None \<Rightarrow> 0 | Some replaced \<Rightarrow> op_bytes policy seq replaced) in
      state\<lparr>wn_pendingBytes := wn_pendingBytes state + (int (op_bytes policy seq row) - int previousBytes),
        wn_dirty := AList.update seq row (wn_dirty state)\<rparr>)"

fun trim_live :: "nat \<Rightarrow> (nat, agent_turn_event) js_map \<Rightarrow> bool \<Rightarrow> (nat, agent_turn_event) js_map \<times> bool" where
  "trim_live limit [] bounded = ([], bounded)"
| "trim_live limit (entry # entries) bounded =
     (if length (entry # entries) > limit then trim_live limit entries True else (entry # entries, bounded))"

definition retainLiveSnapshot :: "window_policy \<Rightarrow> window_state \<Rightarrow> nat \<Rightarrow> agent_turn_event \<Rightarrow> window_state" where
  "retainLiveSnapshot policy state seq event =
     (let (entries, bounded) =
        trim_live (live_limit policy) (AList.update seq event (AList.delete seq (wn_live state))) (wn_bounded state) in
      state\<lparr>wn_live := entries, wn_bounded := bounded\<rparr>)"

fun event_toolId :: "agent_turn_event \<Rightarrow> js_string option" where
  "event_toolId (ToolCall call) = Some (tc_toolId call)"
| "event_toolId (ToolResult result) = Some (tr_toolId result)"
| "event_toolId (Subagent event) = sub_toolId event"
| "event_toolId _ = None"

fun event_taskId :: "agent_turn_event \<Rightarrow> js_string option" where
  "event_taskId (BackgroundTask task) = Some (bt_taskId task)"
| "event_taskId (Subagent event) = sub_taskId event"
| "event_taskId _ = None"

definition add_identity :: "js_string option \<Rightarrow> js_string js_set \<Rightarrow> js_string js_set" where
  "add_identity ident identities = (case ident of None \<Rightarrow> identities | Some i \<Rightarrow> set_add i identities)"

definition trackIdentities :: "window_policy \<Rightarrow> window_state \<Rightarrow> agent_turn_event \<Rightarrow> window_state" where
  "trackIdentities policy state event =
     (let identities = add_identity (event_agentThreadId event)
            (add_identity (event_taskId event) (add_identity (event_toolId event) (wn_identities state))) in
      if length identities \<le> identity_limit policy then state\<lparr>wn_identities := identities\<rparr>
      else state\<lparr>wn_identities := [], wn_live := [], wn_snapshots := createAgentTurnSnapshotIndex, wn_bounded := True\<rparr>)"

definition appendRow :: "window_policy \<Rightarrow> window_state \<Rightarrow> agent_turn_event \<Rightarrow> window_state" where
  "appendRow policy state event =
     (let seq = wn_nextSeq state;
        state = state\<lparr>wn_nextSeq := seq + 1, wn_tail := Some (seq, EventObject event),
          wn_totalBytes := wn_totalBytes state + int (wp_eventBytes policy event)\<rparr>;
        state = markDirty policy state seq (EventObject event);
        state = state\<lparr>wn_snapshots := index_adopt (wn_snapshots state) event seq\<rparr>;
        state = (if isAgentTurnSnapshotEvent event then retainLiveSnapshot policy state seq event else state) in
      trackIdentities policy state event)"

definition replaceRow ::
  "window_policy \<Rightarrow> window_state \<Rightarrow> nat \<Rightarrow> agent_turn_event \<Rightarrow> agent_turn_event \<Rightarrow> window_state" where
  "replaceRow policy state seq previous event =
     markDirty policy
       (state\<lparr>wn_totalBytes := wn_totalBytes state + (int (wp_eventBytes policy event) - int (wp_eventBytes policy previous))\<rparr>)
       seq (EventObject event)"

text \<open>\<open>None\<close> is the answer false: the event is still to be placed.\<close>

definition window_coalesceIntoTail :: "window_policy \<Rightarrow> window_state \<Rightarrow> agent_turn_event \<Rightarrow> window_state option" where
  "window_coalesceIntoTail policy state event =
     (case wn_tail state of
        None \<Rightarrow> None
      | Some (seq, row) \<Rightarrow>
          (case wp_coalesceText policy (Some (row_event row)) event of
             None \<Rightarrow> None
           | Some coalesced \<Rightarrow>
               if overOpBound policy seq coalesced then None
               else Some ((replaceRow policy state seq (row_event row) coalesced)
                 \<lparr>wn_tail := Some (seq, EventObject coalesced)\<rparr>)))"

text \<open>The answer and the state: a snapshot whose row is no longer live only marks the window bounded.\<close>

definition window_supersedeInPlace :: "window_policy \<Rightarrow> window_state \<Rightarrow> placement \<Rightarrow> bool \<times> window_state" where
  "window_supersedeInPlace policy state place =
     (case placed_slot place of
        None \<Rightarrow> (False, state)
      | Some seq \<Rightarrow>
          if (case wn_tail state of None \<Rightarrow> False | Some (_, row) \<Rightarrow> isAgentTurnCoalescibleTextEvent (row_event row))
          then (False, state)
          else
            (case map_of (wn_live state) seq of
               None \<Rightarrow> (False, state\<lparr>wn_bounded := True\<rparr>)
             | Some previous \<Rightarrow>
                 (case mergeSupersededAgentTurnEvent previous (placed_event place) of
                    None \<Rightarrow> (False, state)
                  | Some merged \<Rightarrow>
                      if overOpBound policy seq merged then (False, state)
                      else (True, retainLiveSnapshot policy (replaceRow policy state seq previous merged) seq merged))))"

definition window_placeEvent :: "window_policy \<Rightarrow> window_state \<Rightarrow> placement \<Rightarrow> window_state" where
  "window_placeEvent policy state place =
     (let (superseded, state) = window_supersedeInPlace policy state place in
      if superseded then state else appendRow policy state (placed_event place))"

definition window_acceptEvent :: "window_policy \<Rightarrow> window_state \<Rightarrow> agent_turn_event \<Rightarrow> window_state" where
  "window_acceptEvent policy state event =
     (if wp_eventBytes policy event > wp_maxEventBytes policy then state\<lparr>wn_loss := LossSupervisorGap\<rparr>
      else if overOpBound policy (wn_nextSeq state) event then state\<lparr>wn_loss := LossSupervisorGap\<rparr>
      else
        case window_coalesceIntoTail policy state event of
          Some state \<Rightarrow> state
        | None \<Rightarrow> window_placeEvent policy state (index_place (wn_snapshots state) event))"

definition window_accept ::
  "window_policy \<Rightarrow> window_state \<Rightarrow> agent_turn_event list \<Rightarrow> window_acceptance \<times> window_state" where
  "window_accept policy state events =
     (let urgent = list_ex urgentAgentTurnLogEvent events;
        state = foldl (window_acceptEvent policy) state events;
        state = state\<lparr>wn_digest := foldAgentTurnDigest (wn_digest state) events\<rparr> in
      (\<lparr>ac_urgent = urgent, ac_pending = pendingOf state\<rparr>, state))"

section \<open>Batches\<close>

definition sortedSeqs :: "window_state \<Rightarrow> nat list" where
  "sortedSeqs state = sort (map fst (wn_dirty state))"

fun take_ops ::
  "window_policy \<Rightarrow> (nat, row_object) js_map \<Rightarrow> nat \<Rightarrow> nat \<Rightarrow> nat list \<Rightarrow> nat \<Rightarrow> nat \<Rightarrow> log_entry list" where
  "take_ops policy dirty maxOps maxBytes' [] taken bytes = []"
| "take_ops policy dirty maxOps maxBytes' (seq # seqs) taken bytes =
     (case map_of dirty seq of
        None \<Rightarrow> take_ops policy dirty maxOps maxBytes' seqs taken bytes
      | Some row \<Rightarrow>
          if taken \<ge> maxOps then []
          else
            let size = op_bytes policy seq row + OP_SEPARATOR_BYTES in
            if taken > 0 \<and> bytes + size > maxBytes' then []
            else \<lparr>ent_seq = seq, ent_event = row_event row\<rparr> #
              take_ops policy dirty maxOps maxBytes' seqs (Suc taken) (bytes + size))"

definition takeBatch :: "window_policy \<Rightarrow> window_state \<Rightarrow> nat \<Rightarrow> nat \<Rightarrow> window_batch" where
  "takeBatch policy state maxOps maxBytes' =
     (let seqs = sortedSeqs state;
        ops = take_ops policy (wn_dirty state) maxOps maxBytes' seqs 0 EMPTY_BATCH_BYTES;
        complete = (length ops = length seqs) in
      \<lparr>wb_ops = ops, wb_digest = (if complete then Some (wn_digest state) else None), wb_complete = complete\<rparr>)"

text \<open>\<open>same seq\<close> tells that the dirty row is still the object of the batch.\<close>

definition commit_op :: "window_policy \<Rightarrow> (nat \<Rightarrow> bool) \<Rightarrow> window_state \<Rightarrow> log_entry \<Rightarrow> window_state" where
  "commit_op policy same state entry =
     (case map_of (wn_dirty state) (ent_seq entry) of
        None \<Rightarrow> state
      | Some row \<Rightarrow>
          if \<not> same (ent_seq entry) then state
          else state\<lparr>wn_dirty := AList.delete (ent_seq entry) (wn_dirty state),
            wn_pendingBytes := wn_pendingBytes state - int (op_bytes policy (ent_seq entry) row)\<rparr>)"

definition commitBatch :: "window_policy \<Rightarrow> (nat \<Rightarrow> bool) \<Rightarrow> window_state \<Rightarrow> window_batch \<Rightarrow> window_state" where
  "commitBatch policy same state batch =
     (let state = foldl (commit_op policy same) state (wb_ops batch) in
      if length (wn_dirty state) = 0 then state\<lparr>wn_pendingBytes := 0\<rparr> else state)"

definition clipRow :: "window_policy \<Rightarrow> window_state \<Rightarrow> nat \<Rightarrow> bool \<times> window_state" where
  "clipRow policy state seq =
     (case map_of (wn_dirty state) seq of
        None \<Rightarrow> (False, state)
      | Some ClippedRow \<Rightarrow> (False, state)
      | Some (EventObject current) \<Rightarrow>
          let state = state\<lparr>wn_loss := LossSupervisorGap,
                wn_totalBytes := wn_totalBytes state +
                  (int (wp_eventBytes policy CLIPPED_AGENT_TURN_LOG_ROW) - int (wp_eventBytes policy current))\<rparr>;
            state = markDirty policy state seq ClippedRow in
          (True,
           case wn_tail state of
             None \<Rightarrow> state
           | Some (tailSeq, _) \<Rightarrow> if tailSeq = seq then state\<lparr>wn_tail := Some (seq, ClippedRow)\<rparr> else state))"

end
