(* ===== verification/TurnWindowLaws.thy ===== *)
theory TurnWindowLaws
  imports TurnWindow
begin

text \<open>
  What the window of \<open>TurnWindow\<close> promises whatever it is given: the rows the log will hold are the
  rows already written, overridden by the dirty ones; without a loss their text is the text of the
  events, and a batch is the beginning of the dirty rows in order.
\<close>

section \<open>The text of events\<close>

text \<open>
  Streamed text as its code units, each with its stream; a snapshot, which a later one may replace,
  counts for nothing; any other event is one token.
\<close>

datatype transcript_token = TextUnit agent_turn_event js_unit | WholeEvent agent_turn_event

definition event_tokens :: "agent_turn_event \<Rightarrow> transcript_token list" where
  "event_tokens event =
     (if isAgentTurnSnapshotEvent event then []
      else if same_stream event event then map (TextUnit (with_text event [])) (event_text event)
      else [WholeEvent event])"

definition transcript :: "agent_turn_event list \<Rightarrow> transcript_token list" where
  "transcript events = concat (map event_tokens events)"

lemma transcript_simps [simp]:
  "transcript [] = []" "transcript (event # events) = event_tokens event @ transcript events"
  "transcript (xs @ ys) = transcript xs @ transcript ys"
  by (simp_all add: transcript_def)

lemma snapshot_not_text: "isAgentTurnSnapshotEvent event \<Longrightarrow> \<not> isAgentTurnCoalescibleTextEvent event"
  by (cases event) (simp_all add: isAgentTurnSnapshotEvent_def)

lemma same_stream_refl: "same_stream a b \<Longrightarrow> same_stream a a \<and> same_stream b b \<and> with_text a s = with_text b s"
proof (induction a arbitrary: b)
  case (SubagentEvent thread a)
  then obtain n where b: "b = SubagentEvent thread n" and n: "same_stream a n"
    by (cases b) auto
  from SubagentEvent.IH [OF n] SubagentEvent.prems same_stream_kinds [OF n] show ?case
    unfolding b by (cases a; cases n) auto
next
  case (AssistantText body parent)
  then show ?case by (cases b) simp_all
next
  case (Reasoning body parent)
  then show ?case by (cases b) simp_all
qed simp_all

lemma with_text_twice: "with_text (with_text e s) t = with_text e t"
  by (induction e) simp_all

lemma coalesced_tokens:
  assumes "coalesceAgentTextEvents (Some a) b = Some c"
  shows "event_tokens c = event_tokens a @ event_tokens b"
    and "\<not> isAgentTurnSnapshotEvent a" and "\<not> isAgentTurnSnapshotEvent c"
proof -
  have stream: "same_stream a b" and c: "c = with_text b (event_text a @ event_text b)"
    using assms by (auto simp: coalesceAgentTextEvents_def coalesce_events_eq split: if_splits)
  have kinds: "isAgentTurnCoalescibleTextEvent a" "isAgentTurnCoalescibleTextEvent b" "isAgentTurnCoalescibleTextEvent c"
    using same_stream_kinds [OF stream] by (simp_all add: c with_text_simps)
  then show "\<not> isAgentTurnSnapshotEvent a" "\<not> isAgentTurnSnapshotEvent c" using snapshot_not_text by blast+
  have b: "\<not> isAgentTurnSnapshotEvent b" using kinds snapshot_not_text by blast
  have "same_stream a c" unfolding c using stream by (rule with_text_simps)
  then have refl: "same_stream a a" "same_stream b b" "same_stream c c" "with_text a [] = with_text b []"
    using same_stream_refl [OF stream, of "[]"] same_stream_refl by blast+
  have "event_text c = event_text a @ event_text b" unfolding c using stream by (rule with_text_simps)
  then show "event_tokens c = event_tokens a @ event_tokens b"
    using refl b \<open>\<not> isAgentTurnSnapshotEvent a\<close> \<open>\<not> isAgentTurnSnapshotEvent c\<close>
    by (simp add: event_tokens_def c with_text_twice)
qed

lemma merged_snapshots:
  assumes "mergeSupersededAgentTurnEvent previous later = Some merged" and "isAgentTurnSnapshotEvent later"
  shows "isAgentTurnSnapshotEvent merged" and "isAgentTurnSnapshotEvent previous"
  using assms
  by (elim merge_SomeE; auto simp: isAgentTurnSnapshotEvent_def supersession_defs subagentIds_def Let_def split: if_splits
      dest: mergeSubagent_SomeD mergeBackgroundTask_SomeD)+

lemma placed_tokens:
  "event_tokens (placed_event (index_place ix event)) = event_tokens event \<and>
   isAgentTurnSnapshotEvent (placed_event (index_place ix event)) = isAgentTurnSnapshotEvent event"
proof -
  obtain ids where "placed_event (index_place ix event) = withAgentTurnSubagentIds event ids"
    using ix.place_ids by blast
  moreover have "placed_event (index_place ix event) = event" if "\<not> isAgentTurnSnapshotEvent event"
    using that by (cases ix) (auto simp: placeEvent_ix_def isAgentTurnSnapshotEvent_def split: supersession.splits)
  moreover have "isAgentTurnSnapshotEvent (withAgentTurnSubagentIds event ids)" if "isAgentTurnSnapshotEvent event"
    using that by (cases event) (auto simp: isAgentTurnSnapshotEvent_def supersession_defs Let_def
        split: if_splits option.split)
  ultimately show ?thesis by (cases "isAgentTurnSnapshotEvent event") (simp_all add: event_tokens_def)
qed

section \<open>The rows of the log\<close>

text \<open>The rows the log holds once every dirty row is written over the rows it has.\<close>

definition window_view :: "window_state \<Rightarrow> (nat \<rightharpoonup> agent_turn_event) \<Rightarrow> nat \<rightharpoonup> agent_turn_event" where
  "window_view state written =
     (\<lambda>seq. case map_of (wn_dirty state) seq of None \<Rightarrow> written seq | Some row \<Rightarrow> Some (row_event row))"

definition rows_between :: "nat \<Rightarrow> nat \<Rightarrow> (nat \<rightharpoonup> agent_turn_event) \<Rightarrow> agent_turn_event list" where
  "rows_between first next' rows = map (\<lambda>seq. the (rows seq)) [first..<next']"

definition dirty_bytes :: "window_policy \<Rightarrow> (nat, row_object) js_map \<Rightarrow> int" where
  "dirty_bytes policy dirty = (\<Sum>(seq, row)\<leftarrow>dirty. int (op_bytes policy seq row))"

definition window_wf :: "window_policy \<Rightarrow> nat \<Rightarrow> (nat \<rightharpoonup> agent_turn_event) \<Rightarrow> window_state \<Rightarrow> bool" where
  "window_wf policy first written state \<longleftrightarrow>
     map_wf (wn_dirty state) \<and> map_wf (wn_live state) \<and>
     first \<le> wn_nextSeq state \<and>
     (\<forall>seq \<in> fst ` set (wn_dirty state). first \<le> seq \<and> seq < wn_nextSeq state) \<and>
     (\<forall>seq \<in> fst ` set (wn_live state). first \<le> seq \<and> seq < wn_nextSeq state) \<and>
     (\<forall>seq row. wn_tail state = Some (seq, row) \<longrightarrow> first \<le> seq \<and> Suc seq = wn_nextSeq state) \<and>
     wn_pendingBytes state = dirty_bytes policy (wn_dirty state) \<and>
     length (wn_live state) \<le> live_limit policy \<and> length (wn_identities state) \<le> identity_limit policy"

text \<open>
  What holds as long as no loss was noted: the tail and the live snapshots are the rows they stand
  for, and the rows have the text of the events. A tail that was superseded in place is a snapshot.
\<close>

definition window_faithful ::
  "nat \<Rightarrow> (nat \<rightharpoonup> agent_turn_event) \<Rightarrow> agent_turn_event list \<Rightarrow> window_state \<Rightarrow> bool" where
  "window_faithful first written accepted state \<longleftrightarrow>
     (\<forall>seq row. wn_tail state = Some (seq, row) \<longrightarrow>
        window_view state written seq = Some (row_event row) \<or> isAgentTurnSnapshotEvent (row_event row)) \<and>
     (\<forall>(seq, event) \<in> set (wn_live state).
        window_view state written seq = Some event \<and> isAgentTurnSnapshotEvent event) \<and>
     transcript (rows_between first (wn_nextSeq state) (window_view state written)) = transcript accepted"

lemma rows_between_append: "first \<le> n \<Longrightarrow> rows_between first (Suc n) rows = rows_between first n rows @ [the (rows n)]"
  by (simp add: rows_between_def)

lemma rows_between_update:
  "first \<le> seq \<Longrightarrow> seq < n \<Longrightarrow> rows_between first n (rows(seq \<mapsto> event)) = (rows_between first n rows)[seq - first := event]"
  by (rule nth_equalityI) (auto simp: rows_between_def nth_list_update)

lemma rows_between_beyond: "n \<le> seq \<Longrightarrow> rows_between first n (rows(seq \<mapsto> event)) = rows_between first n rows"
  by (simp add: rows_between_def)

lemma transcript_update:
  assumes "i < length events" and "event_tokens (events ! i) = event_tokens event"
  shows "transcript (events[i := event]) = transcript events"
proof -
  have "map event_tokens (events[i := event]) = map event_tokens events"
    using assms by (simp add: map_update list_update_same_conv [symmetric] nth_map)
      (metis list_update_id nth_map)
  then show ?thesis by (simp add: transcript_def)
qed

lemma trim_live_spec:
  "fst (trim_live limit m b) = drop (length m - limit) m"
  by (induction limit m b rule: trim_live.induct) (auto simp: Suc_diff_le)

lemma trim_live_subset: "set (fst (trim_live limit m b)) \<subseteq> set m"
  by (simp add: trim_live_spec set_drop_subset)

lemma dirty_bytes_update:
  "map_wf dirty \<Longrightarrow> dirty_bytes policy (AList.update seq row dirty) =
     dirty_bytes policy dirty + (int (op_bytes policy seq row) -
       int (case map_of dirty seq of None \<Rightarrow> 0 | Some replaced \<Rightarrow> op_bytes policy seq replaced))"
  by (induction dirty) (auto simp: dirty_bytes_def map_wf_def)

lemma dirty_bytes_delete:
  "map_wf dirty \<Longrightarrow> map_of dirty seq = Some row \<Longrightarrow>
     dirty_bytes policy (AList.delete seq dirty) = dirty_bytes policy dirty - int (op_bytes policy seq row)"
proof (induction dirty)
  case (Cons entry dirty)
  obtain s r where entry: "entry = (s, r)" by (cases entry)
  show ?case
  proof (cases "s = seq")
    case True
    then have "AList.delete seq dirty = dirty"
      using Cons.prems(1) by (force simp: entry map_wf_def AList.delete_eq filter_id_conv)
    with True Cons.prems show ?thesis by (simp add: entry dirty_bytes_def)
  next
    case False
    with Cons show ?thesis by (simp add: entry dirty_bytes_def map_wf_def)
  qed
qed simp

text \<open>The frame of each piece: what it leaves alone.\<close>

lemma markDirty_simps [simp]:
  "wn_live (markDirty policy state seq row) = wn_live state"
  "wn_dirty (markDirty policy state seq row) = AList.update seq row (wn_dirty state)"
  "wn_identities (markDirty policy state seq row) = wn_identities state"
  "wn_snapshots (markDirty policy state seq row) = wn_snapshots state"
  "wn_tail (markDirty policy state seq row) = wn_tail state"
  "wn_nextSeq (markDirty policy state seq row) = wn_nextSeq state"
  "wn_loss (markDirty policy state seq row) = wn_loss state"
  by (simp_all add: markDirty_def Let_def)

lemma retainLive_simps [simp]:
  "wn_dirty (retainLiveSnapshot policy state seq event) = wn_dirty state"
  "wn_identities (retainLiveSnapshot policy state seq event) = wn_identities state"
  "wn_snapshots (retainLiveSnapshot policy state seq event) = wn_snapshots state"
  "wn_tail (retainLiveSnapshot policy state seq event) = wn_tail state"
  "wn_nextSeq (retainLiveSnapshot policy state seq event) = wn_nextSeq state"
  "wn_pendingBytes (retainLiveSnapshot policy state seq event) = wn_pendingBytes state"
  "wn_loss (retainLiveSnapshot policy state seq event) = wn_loss state"
  by (simp_all add: retainLiveSnapshot_def case_prod_beta)

lemma retainLive_live:
  assumes "map_wf (wn_live state)"
  shows "set (wn_live (retainLiveSnapshot policy state seq event)) \<subseteq> insert (seq, event) {entry \<in> set (wn_live state). fst entry \<noteq> seq}"
    and "map_wf (wn_live (retainLiveSnapshot policy state seq event))"
    and "length (wn_live (retainLiveSnapshot policy state seq event)) \<le> live_limit policy"
proof -
  let ?m = "AList.update seq event (AList.delete seq (wn_live state))"
  have "?m = AList.delete seq (wn_live state) @ [(seq, event)]"
    by (rule update_new_entry) simp
  moreover have live: "wn_live (retainLiveSnapshot policy state seq event) = fst (trim_live (live_limit policy) ?m (wn_bounded state))"
    by (simp add: retainLiveSnapshot_def case_prod_beta)
  ultimately show "set (wn_live (retainLiveSnapshot policy state seq event)) \<subseteq>
      insert (seq, event) {entry \<in> set (wn_live state). fst entry \<noteq> seq}"
    using trim_live_subset [of "live_limit policy" ?m "wn_bounded state"] by (auto simp: AList.delete_eq)
  have "map_wf ?m" using assms by simp
  then show "map_wf (wn_live (retainLiveSnapshot policy state seq event))"
    unfolding live trim_live_spec map_wf_def by (simp add: drop_map [symmetric] distinct_drop)
  show "length (wn_live (retainLiveSnapshot policy state seq event)) \<le> live_limit policy"
    unfolding live trim_live_spec by simp
qed

lemma track_simps [simp]:
  "wn_dirty (trackIdentities policy state event) = wn_dirty state"
  "wn_tail (trackIdentities policy state event) = wn_tail state"
  "wn_nextSeq (trackIdentities policy state event) = wn_nextSeq state"
  "wn_pendingBytes (trackIdentities policy state event) = wn_pendingBytes state"
  "wn_loss (trackIdentities policy state event) = wn_loss state"
  "length (wn_identities (trackIdentities policy state event)) \<le> identity_limit policy"
  by (simp_all add: trackIdentities_def Let_def)

lemma track_live: "wn_live (trackIdentities policy state event) = wn_live state \<or> wn_live (trackIdentities policy state event) = []"
  by (simp add: trackIdentities_def Let_def)

lemma replaceRow_simps [simp]:
  "wn_live (replaceRow policy state seq previous event) = wn_live state"
  "wn_dirty (replaceRow policy state seq previous event) = AList.update seq (EventObject event) (wn_dirty state)"
  "wn_identities (replaceRow policy state seq previous event) = wn_identities state"
  "wn_tail (replaceRow policy state seq previous event) = wn_tail state"
  "wn_nextSeq (replaceRow policy state seq previous event) = wn_nextSeq state"
  "wn_loss (replaceRow policy state seq previous event) = wn_loss state"
  by (simp_all add: replaceRow_def)

lemma mark_pending:
  "map_wf (wn_dirty state) \<Longrightarrow> wn_pendingBytes state = dirty_bytes policy (wn_dirty state) \<Longrightarrow>
     wn_pendingBytes (markDirty policy state seq row) = dirty_bytes policy (AList.update seq row (wn_dirty state))"
  by (simp add: markDirty_def Let_def dirty_bytes_update)

lemma replace_pending:
  "map_wf (wn_dirty state) \<Longrightarrow> wn_pendingBytes state = dirty_bytes policy (wn_dirty state) \<Longrightarrow>
     wn_pendingBytes (replaceRow policy state seq previous event) =
       dirty_bytes policy (AList.update seq (EventObject event) (wn_dirty state))"
  unfolding replaceRow_def by (subst mark_pending) simp_all

lemma view_update:
  "wn_dirty state' = AList.update seq row (wn_dirty state) \<Longrightarrow>
     window_view state' written = (window_view state written)(seq \<mapsto> row_event row)"
  by (auto simp: window_view_def fun_eq_iff)

lemma view_same: "wn_dirty state' = wn_dirty state \<Longrightarrow> window_view state' written = window_view state written"
  by (simp add: window_view_def)

text \<open>Appending a row.\<close>

lemma append_simps [simp]:
  "wn_dirty (appendRow policy state event) = AList.update (wn_nextSeq state) (EventObject event) (wn_dirty state)"
  "wn_tail (appendRow policy state event) = Some (wn_nextSeq state, EventObject event)"
  "wn_nextSeq (appendRow policy state event) = Suc (wn_nextSeq state)"
  "wn_loss (appendRow policy state event) = wn_loss state"
  "length (wn_identities (appendRow policy state event)) \<le> identity_limit policy"
  by (simp_all add: appendRow_def Let_def)

lemma append_pending:
  "map_wf (wn_dirty state) \<Longrightarrow> wn_pendingBytes state = dirty_bytes policy (wn_dirty state) \<Longrightarrow>
     wn_pendingBytes (appendRow policy state event) = dirty_bytes policy (wn_dirty (appendRow policy state event))"
  by (simp add: appendRow_def Let_def mark_pending)

lemma append_live:
  assumes "map_wf (wn_live state)" and "length (wn_live state) \<le> live_limit policy"
  shows "set (wn_live (appendRow policy state event)) \<subseteq>
      {entry \<in> set (wn_live state). fst entry \<noteq> wn_nextSeq state \<or> \<not> isAgentTurnSnapshotEvent event} \<union>
      (if isAgentTurnSnapshotEvent event then {(wn_nextSeq state, event)} else {})"
    and "map_wf (wn_live (appendRow policy state event))"
    and "length (wn_live (appendRow policy state event)) \<le> live_limit policy"
proof -
  define before where "before = (markDirty policy (state\<lparr>wn_nextSeq := wn_nextSeq state + 1,
      wn_tail := Some (wn_nextSeq state, EventObject event),
      wn_totalBytes := wn_totalBytes state + int (wp_eventBytes policy event)\<rparr>) (wn_nextSeq state) (EventObject event))
    \<lparr>wn_snapshots := index_adopt (wn_snapshots state) event (wn_nextSeq state)\<rparr>"
  have live: "wn_live before = wn_live state" by (simp add: before_def)
  have form: "appendRow policy state event = trackIdentities policy
      (if isAgentTurnSnapshotEvent event then retainLiveSnapshot policy before (wn_nextSeq state) event else before) event"
    by (simp add: appendRow_def Let_def before_def)
  note retained = retainLive_live [of before policy "wn_nextSeq state" event, unfolded live, OF assms(1)]
  show "set (wn_live (appendRow policy state event)) \<subseteq>
      {entry \<in> set (wn_live state). fst entry \<noteq> wn_nextSeq state \<or> \<not> isAgentTurnSnapshotEvent event} \<union>
      (if isAgentTurnSnapshotEvent event then {(wn_nextSeq state, event)} else {})"
    using track_live [of policy "if isAgentTurnSnapshotEvent event then retainLiveSnapshot policy before (wn_nextSeq state) event else before" event]
      retained(1) unfolding form by (auto simp: live)
  show "map_wf (wn_live (appendRow policy state event))" "length (wn_live (appendRow policy state event)) \<le> live_limit policy"
    using track_live [of policy "if isAgentTurnSnapshotEvent event then retainLiveSnapshot policy before (wn_nextSeq state) event else before" event]
      retained(2,3) assms unfolding form by (auto simp: live)
qed

lemma append_wf:
  assumes "window_wf policy first written state"
  shows "window_wf policy first written (appendRow policy state event)"
proof -
  note wf = assms [unfolded window_wf_def]
  have live: "map_wf (wn_live state)" "length (wn_live state) \<le> live_limit policy" using wf by blast+
  note appended = append_live [OF live, of event]
  have "\<forall>seq \<in> fst ` set (wn_live (appendRow policy state event)). first \<le> seq \<and> seq < Suc (wn_nextSeq state)"
    using appended(1) wf by (fastforce split: if_splits)
  moreover have "\<forall>seq \<in> fst ` set (AList.update (wn_nextSeq state) (EventObject event) (wn_dirty state)).
      first \<le> seq \<and> seq < Suc (wn_nextSeq state)"
    using wf unfolding dom_update by auto
  ultimately show ?thesis using wf appended(2,3) append_pending by (simp add: window_wf_def)
qed

lemma append_faithful:
  assumes "window_wf policy first written state" and "window_faithful first written accepted state"
    and "event_tokens placed = event_tokens event" and "isAgentTurnSnapshotEvent placed = isAgentTurnSnapshotEvent event"
  shows "window_faithful first written (accepted @ [event]) (appendRow policy state placed)"
proof -
  let ?n = "wn_nextSeq state"
  note wf = assms(1) [unfolded window_wf_def] and faithful = assms(2) [unfolded window_faithful_def]
  have live: "map_wf (wn_live state)" "length (wn_live state) \<le> live_limit policy" using wf by blast+
  have view: "window_view (appendRow policy state placed) written = (window_view state written)(?n \<mapsto> placed)"
    using view_update [of "appendRow policy state placed" ?n "EventObject placed" state written] by simp
  have "\<forall>(seq, e) \<in> set (wn_live (appendRow policy state placed)).
      window_view (appendRow policy state placed) written seq = Some e \<and> isAgentTurnSnapshotEvent e"
  proof (rule ballI, clarify)
    fix seq e assume "(seq, e) \<in> set (wn_live (appendRow policy state placed))"
    then consider "(seq, e) \<in> set (wn_live state)" | "seq = ?n" "e = placed" "isAgentTurnSnapshotEvent placed"
      using append_live(1) [OF live, of placed] by (auto split: if_splits)
    then show "window_view (appendRow policy state placed) written seq = Some e \<and> isAgentTurnSnapshotEvent e"
    proof cases
      case 1
      then have "seq < ?n" using wf by force
      with 1 faithful show ?thesis unfolding view by auto
    qed (simp add: view)
  qed
  moreover have "transcript (rows_between first (Suc ?n) ((window_view state written)(?n \<mapsto> placed))) =
      transcript (accepted @ [event])"
    using wf faithful assms(3) by (simp add: rows_between_append rows_between_beyond)
  ultimately show ?thesis by (simp add: window_faithful_def view)
qed

text \<open>Growing the tail.\<close>

lemma coalesce_window:
  assumes "window_coalesceIntoTail policy state event = Some state'"
  obtains seq row c where "wn_tail state = Some (seq, row)" and "wp_coalesceText policy (Some (row_event row)) event = Some c"
    and "state' = (replaceRow policy state seq (row_event row) c)\<lparr>wn_tail := Some (seq, EventObject c)\<rparr>"
  using assms by (auto simp: window_coalesceIntoTail_def split: option.splits if_splits)

lemma coalesce_wf:
  assumes "window_wf policy first written state" and "window_coalesceIntoTail policy state event = Some state'"
  shows "window_wf policy first written state'"
proof -
  obtain seq row c where step: "wn_tail state = Some (seq, row)"
    "state' = (replaceRow policy state seq (row_event row) c)\<lparr>wn_tail := Some (seq, EventObject c)\<rparr>"
    using coalesce_window [OF assms(2)] by metis
  note wf = assms(1) [unfolded window_wf_def]
  have "first \<le> seq" "Suc seq = wn_nextSeq state" using wf step(1) by blast+
  then have "\<forall>s \<in> fst ` set (AList.update seq (EventObject c) (wn_dirty state)). first \<le> s \<and> s < wn_nextSeq state"
    using wf unfolding dom_update by auto
  with wf step show ?thesis by (simp add: window_wf_def replace_pending)
qed

lemma coalesce_faithful:
  assumes "window_wf policy first written state" and "window_faithful first written accepted state"
    and "window_coalesceIntoTail policy state event = Some state'" and "wp_coalesceText policy = coalesceAgentTextEvents"
  shows "window_faithful first written (accepted @ [event]) state' \<and> wn_loss state' = wn_loss state"
proof -
  obtain seq row c where step: "wn_tail state = Some (seq, row)"
    "coalesceAgentTextEvents (Some (row_event row)) event = Some c"
    "state' = (replaceRow policy state seq (row_event row) c)\<lparr>wn_tail := Some (seq, EventObject c)\<rparr>"
    using coalesce_window [OF assms(3)] assms(4) by metis
  note wf = assms(1) [unfolded window_wf_def] and faithful = assms(2) [unfolded window_faithful_def]
  note tokens = coalesced_tokens [OF step(2)]
  have seq: "first \<le> seq" "Suc seq = wn_nextSeq state" using wf step(1) by blast+
  have now: "window_view state written seq = Some (row_event row)" using faithful step(1) tokens(2) by blast
  have view: "window_view state' written = (window_view state written)(seq \<mapsto> c)"
    using view_update [of state' seq "EventObject c" state written] by (simp add: step(3))
  have "s \<noteq> seq" if "(s, e) \<in> set (wn_live state)" for s e
    using that faithful now tokens(2) by auto
  then have live: "\<forall>(s, e) \<in> set (wn_live state). window_view state' written s = Some e \<and> isAgentTurnSnapshotEvent e"
    using faithful by (auto simp: view)
  have old: "rows_between first (Suc seq) (window_view state written) =
      rows_between first seq (window_view state written) @ [row_event row]"
    using seq(1) now by (simp add: rows_between_append)
  have "rows_between first (Suc seq) ((window_view state written)(seq \<mapsto> c)) =
      rows_between first seq (window_view state written) @ [c]"
    using seq(1) by (simp add: rows_between_append rows_between_beyond)
  then have "transcript (rows_between first (Suc seq) (window_view state' written)) = transcript (accepted @ [event])"
    using faithful tokens(1) unfolding view seq(2) [symmetric] old by simp
  moreover have "wn_tail state' = Some (seq, EventObject c)" "wn_live state' = wn_live state"
    "wn_nextSeq state' = Suc seq" "wn_loss state' = wn_loss state"
    using seq(2) by (simp_all add: step(3))
  moreover have "window_view state' written seq = Some c" by (simp add: view)
  ultimately show ?thesis using live by (simp add: window_faithful_def)
qed

text \<open>Superseding a row in place.\<close>

lemma supersede_window:
  assumes "window_supersedeInPlace policy state place = (hit, state')"
  shows "if hit then \<exists>seq previous merged. placed_slot place = Some seq \<and> map_of (wn_live state) seq = Some previous \<and>
      mergeSupersededAgentTurnEvent previous (placed_event place) = Some merged \<and>
      state' = retainLiveSnapshot policy (replaceRow policy state seq previous merged) seq merged
    else \<exists>b. state' = state\<lparr>wn_bounded := b\<rparr>"
  using assms by (auto simp: window_supersedeInPlace_def split: option.splits if_splits intro: exI [of _ "wn_bounded state"])

lemma bounded_wf [simp]: "window_wf policy first written (state\<lparr>wn_bounded := b\<rparr>) = window_wf policy first written state"
  by (simp add: window_wf_def)

lemma bounded_faithful [simp]:
  "window_faithful first written accepted (state\<lparr>wn_bounded := b\<rparr>) = window_faithful first written accepted state"
  by (simp add: window_faithful_def window_view_def)

lemma superseded_wf:
  assumes "window_wf policy first written state" and "map_of (wn_live state) seq = Some previous"
  shows "window_wf policy first written (retainLiveSnapshot policy (replaceRow policy state seq previous merged) seq merged)"
proof -
  note wf = assms(1) [unfolded window_wf_def]
  have seq: "first \<le> seq" "seq < wn_nextSeq state" using wf map_of_SomeD [OF assms(2)] by force+
  have wfl: "map_wf (wn_live (replaceRow policy state seq previous merged))" using wf by simp
  note retained = retainLive_live [OF wfl, of policy seq merged]
  have "\<forall>s \<in> fst ` set (wn_live (retainLiveSnapshot policy (replaceRow policy state seq previous merged) seq merged)).
      first \<le> s \<and> s < wn_nextSeq state"
    using retained(1) seq wf by fastforce
  moreover have "\<forall>s \<in> fst ` set (AList.update seq (EventObject merged) (wn_dirty state)). first \<le> s \<and> s < wn_nextSeq state"
    using wf seq unfolding dom_update by auto
  ultimately show ?thesis using wf retained(2,3) by (simp add: window_wf_def replace_pending)
qed

lemma superseded_faithful:
  assumes "window_wf policy first written state" and "window_faithful first written accepted state"
    and "map_of (wn_live state) seq = Some previous" and "mergeSupersededAgentTurnEvent previous placed = Some merged"
    and "isAgentTurnSnapshotEvent placed" and "isAgentTurnSnapshotEvent event"
  shows "window_faithful first written (accepted @ [event])
    (retainLiveSnapshot policy (replaceRow policy state seq previous merged) seq merged)"
    (is "window_faithful _ _ _ ?new")
proof -
  note wf = assms(1) [unfolded window_wf_def] and faithful = assms(2) [unfolded window_faithful_def]
  note snapshots = merged_snapshots [OF assms(4,5)]
  have seq: "first \<le> seq" "seq < wn_nextSeq state" using wf map_of_SomeD [OF assms(3)] by force+
  have now: "window_view state written seq = Some previous" using faithful map_of_SomeD [OF assms(3)] by fast
  have view: "window_view ?new written = (window_view state written)(seq \<mapsto> merged)"
    using view_update [of ?new seq "EventObject merged" state written] by simp
  have wfl: "map_wf (wn_live (replaceRow policy state seq previous merged))" using wf by simp
  have "\<forall>(s, e) \<in> set (wn_live ?new). window_view ?new written s = Some e \<and> isAgentTurnSnapshotEvent e"
    using retainLive_live(1) [OF wfl, of policy seq merged] faithful snapshots(1) unfolding view by fastforce
  moreover have "window_view ?new written s = Some (row_event row) \<or> isAgentTurnSnapshotEvent (row_event row)"
    if "wn_tail state = Some (s, row)" for s row
  proof (cases "s = seq")
    case True
    then show ?thesis using that faithful now snapshots(2) by auto
  next
    case False
    then show ?thesis using that faithful unfolding view by auto
  qed
  moreover have "transcript (rows_between first (wn_nextSeq state) (window_view ?new written)) =
      transcript (rows_between first (wn_nextSeq state) (window_view state written))"
  proof -
    have "rows_between first (wn_nextSeq state) (window_view state written) ! (seq - first) = previous"
      using seq now nth_upt [of first "seq - first" "wn_nextSeq state"] by (simp add: rows_between_def)
    then show ?thesis
      unfolding view rows_between_update [OF seq] using seq snapshots
      by (intro transcript_update) (simp_all add: event_tokens_def rows_between_def)
  qed
  ultimately show ?thesis using faithful assms(6) by (simp add: window_faithful_def event_tokens_def)
qed

section \<open>Accepting\<close>

lemma loss_only [simp]:
  "window_wf policy first written (state\<lparr>wn_loss := loss\<rparr>) = window_wf policy first written state"
  "window_wf policy first written (state\<lparr>wn_digest := digest\<rparr>) = window_wf policy first written state"
  "window_faithful first written accepted (state\<lparr>wn_digest := digest\<rparr>) = window_faithful first written accepted state"
  by (simp_all add: window_wf_def window_faithful_def window_view_def)

lemma place_event_ok:
  assumes "window_wf policy first written state"
    and "isAgentTurnSnapshotEvent event \<or> placed_slot place = None"
    and "event_tokens (placed_event place) = event_tokens event"
    and "isAgentTurnSnapshotEvent (placed_event place) = isAgentTurnSnapshotEvent event"
  shows "window_wf policy first written (window_placeEvent policy state place) \<and>
    wn_loss (window_placeEvent policy state place) = wn_loss state \<and>
    (window_faithful first written accepted state \<longrightarrow>
       window_faithful first written (accepted @ [event]) (window_placeEvent policy state place))"
proof -
  obtain hit state' where tried: "window_supersedeInPlace policy state place = (hit, state')"
    by (cases "window_supersedeInPlace policy state place")
  show ?thesis
  proof (cases "hit")
    case True
    then obtain seq previous merged where step: "placed_slot place = Some seq" "map_of (wn_live state) seq = Some previous"
      "mergeSupersededAgentTurnEvent previous (placed_event place) = Some merged"
      "state' = retainLiveSnapshot policy (replaceRow policy state seq previous merged) seq merged"
      using supersede_window [OF tried] by auto
    have snapshot: "isAgentTurnSnapshotEvent event" using assms(2) step(1) by auto
    have form: "window_placeEvent policy state place = state'" using True tried by (simp add: window_placeEvent_def)
    show ?thesis
      using superseded_wf [OF assms(1) step(2)] superseded_faithful [OF assms(1) _ step(2,3)] snapshot assms(4)
      by (simp add: form step(4))
  next
    case False
    then obtain b where "state' = state\<lparr>wn_bounded := b\<rparr>" using supersede_window [OF tried] by auto
    with False tried have form: "window_placeEvent policy state place =
        appendRow policy (state\<lparr>wn_bounded := b\<rparr>) (placed_event place)"
      by (simp add: window_placeEvent_def)
    show ?thesis
      using append_wf [of policy first written "state\<lparr>wn_bounded := b\<rparr>"] assms(1)
        append_faithful [of policy first written "state\<lparr>wn_bounded := b\<rparr>", OF _ _ assms(3,4)]
      by (simp add: form)
  qed
qed

lemma accept_event_ok:
  assumes "window_wf policy first written state" and "wp_coalesceText policy = coalesceAgentTextEvents"
  shows "window_wf policy first written (window_acceptEvent policy state event)"
    and "wn_loss (window_acceptEvent policy state event) = LossNone \<Longrightarrow>
      wn_loss state = LossNone \<and> (window_faithful first written accepted state \<longrightarrow>
        window_faithful first written (accepted @ [event]) (window_acceptEvent policy state event))"
proof -
  have offers: "isAgentTurnSnapshotEvent event \<or> placed_slot (index_place (wn_snapshots state) event) = None"
    using ix.place_offers by blast
  note placed = place_event_ok [OF assms(1) offers placed_tokens [THEN conjunct1] placed_tokens [THEN conjunct2]]
  show "window_wf policy first written (window_acceptEvent policy state event)"
    using assms(1) placed coalesce_wf [OF assms(1)]
    by (auto simp: window_acceptEvent_def split: option.split)
  show "wn_loss state = LossNone \<and> (window_faithful first written accepted state \<longrightarrow>
        window_faithful first written (accepted @ [event]) (window_acceptEvent policy state event))"
    if "wn_loss (window_acceptEvent policy state event) = LossNone"
  proof (cases "wp_eventBytes policy event > wp_maxEventBytes policy \<or> overOpBound policy (wn_nextSeq state) event")
    case True
    with that show ?thesis by (auto simp: window_acceptEvent_def split: if_splits)
  next
    case False
    show ?thesis
    proof (cases "window_coalesceIntoTail policy state event")
      case None
      with False that placed show ?thesis by (simp add: window_acceptEvent_def)
    next
      case (Some state')
      then have "wn_loss state' = wn_loss state" by (elim coalesce_window) simp
      with False that Some coalesce_faithful [OF assms(1) _ Some assms(2)] show ?thesis
        by (simp add: window_acceptEvent_def)
    qed
  qed
qed

lemma window_accept_ok:
  assumes "window_wf policy first written state" and "wp_coalesceText policy = coalesceAgentTextEvents"
  shows "window_wf policy first written (snd (window_accept policy state events))"
    and "wn_loss (snd (window_accept policy state events)) = LossNone \<Longrightarrow>
      wn_loss state = LossNone \<and> (window_faithful first written accepted state \<longrightarrow>
        window_faithful first written (accepted @ events) (snd (window_accept policy state events)))"
proof -
  have folded: "window_wf policy first written (foldl (window_acceptEvent policy) state events) \<and>
      (wn_loss (foldl (window_acceptEvent policy) state events) = LossNone \<longrightarrow>
        wn_loss state = LossNone \<and> (window_faithful first written accepted state \<longrightarrow>
        window_faithful first written (accepted @ events) (foldl (window_acceptEvent policy) state events)))"
    using assms(1)
  proof (induction events arbitrary: state accepted)
    case (Cons event events)
    note step = accept_event_ok [OF Cons.prems assms(2)]
    from Cons.IH [OF step(1), of event "accepted @ [event]"] step(2) [of event accepted] show ?case by auto
  qed simp
  then show "window_wf policy first written (snd (window_accept policy state events))"
    by (simp add: window_accept_def Let_def)
  show "wn_loss state = LossNone \<and> (window_faithful first written accepted state \<longrightarrow>
        window_faithful first written (accepted @ events) (snd (window_accept policy state events)))"
    if "wn_loss (snd (window_accept policy state events)) = LossNone"
    using folded that by (simp add: window_accept_def Let_def)
qed

section \<open>Batches\<close>

lemma take_ops_prefix: "\<exists>k. map ent_seq (take_ops policy dirty n m seqs taken bytes) = take k seqs"
  if "set seqs \<subseteq> dom (map_of dirty)"
  using that
proof (induction seqs arbitrary: taken bytes)
  case (Cons seq seqs)
  obtain row where row: "map_of dirty seq = Some row" using Cons.prems by auto
  obtain k where "map ent_seq (take_ops policy dirty n m seqs (Suc taken)
      (bytes + (op_bytes policy seq row + OP_SEPARATOR_BYTES))) = take k seqs"
    using Cons.IH [of "Suc taken" "bytes + (op_bytes policy seq row + OP_SEPARATOR_BYTES)"] Cons.prems
    by auto
  then have "map ent_seq (take_ops policy dirty n m (seq # seqs) taken bytes) \<in> {take 0 (seq # seqs), take (Suc k) (seq # seqs)}"
    by (auto simp: row Let_def)
  then show ?case by blast
qed simp

lemma take_ops_rows:
  "op \<in> set (take_ops policy dirty n m seqs taken bytes) \<Longrightarrow>
     \<exists>row. map_of dirty (ent_seq op) = Some row \<and> ent_event op = row_event row"
  by (induction seqs arbitrary: taken bytes) (auto simp: Let_def split: option.splits if_splits)

lemma take_ops_length: "length (take_ops policy dirty n m seqs taken bytes) \<le> n - taken"
proof (induction seqs arbitrary: taken bytes)
  case (Cons seq seqs)
  show ?case
  proof (cases "map_of dirty seq")
    case (Some row)
    then show ?thesis
      using Cons.IH [of "Suc taken" "bytes + (op_bytes policy seq row + OP_SEPARATOR_BYTES)"] by (auto simp: Let_def)
  qed (use Cons.IH in simp)
qed simp

lemma take_ops_first:
  "set seqs \<subseteq> dom (map_of dirty) \<Longrightarrow> seqs \<noteq> [] \<Longrightarrow> 0 < n \<Longrightarrow> take_ops policy dirty n m seqs 0 bytes \<noteq> []"
  by (cases seqs) (auto simp: Let_def)

lemma take_ops_bytes:
  "taken > 0 \<Longrightarrow> bytes \<le> m \<Longrightarrow>
     bytes + (\<Sum>op\<leftarrow>take_ops policy dirty n m seqs taken bytes. wp_opBytes policy op + OP_SEPARATOR_BYTES) \<le> m"
proof (induction seqs arbitrary: taken bytes)
  case (Cons seq seqs)
  show ?case
  proof (cases "map_of dirty seq")
    case (Some row)
    let ?size = "op_bytes policy seq row + OP_SEPARATOR_BYTES"
    show ?thesis
    proof (cases "taken \<ge> n \<or> bytes + ?size > m")
      case False
      then show ?thesis using Cons.IH [of "Suc taken" "bytes + ?size"] Some by (simp add: Let_def op_bytes_def)
    qed (use Cons.prems Some in \<open>auto simp: Let_def\<close>)
  qed (use Cons in simp)
qed simp

lemma sortedSeqs_keys: "map_wf (wn_dirty state) \<Longrightarrow> set (sortedSeqs state) = dom (map_of (wn_dirty state))"
  by (simp add: sortedSeqs_def dom_map_of_conv_image_fst)

lemma sortedSeqs_sorted: "map_wf (wn_dirty state) \<Longrightarrow> sorted_wrt (<) (sortedSeqs state)"
  by (simp add: sortedSeqs_def map_wf_def strict_sorted_iff)

text \<open>What a batch is: the first dirty rows in order, within the limits unless it is a single row.\<close>

lemma batch_spec:
  fixes policy state n m
  assumes "map_wf (wn_dirty state)"
  defines "batch \<equiv> takeBatch policy state n m"
  obtains k where "map ent_seq (wb_ops batch) = take k (sortedSeqs state)"
    and "\<And>op. op \<in> set (wb_ops batch) \<Longrightarrow> \<exists>row. map_of (wn_dirty state) (ent_seq op) = Some row \<and> ent_event op = row_event row"
    and "length (wb_ops batch) \<le> n" and "0 < n \<Longrightarrow> wn_dirty state \<noteq> [] \<Longrightarrow> wb_ops batch \<noteq> []"
proof -
  have keys: "set (sortedSeqs state) \<subseteq> dom (map_of (wn_dirty state))" using sortedSeqs_keys [OF assms(1)] by simp
  have ops: "wb_ops batch = take_ops policy (wn_dirty state) n m (sortedSeqs state) 0 EMPTY_BATCH_BYTES"
    by (simp add: batch_def takeBatch_def Let_def)
  have "wn_dirty state \<noteq> [] \<Longrightarrow> sortedSeqs state \<noteq> []"
    by (metis length_0_conv length_map length_sort sortedSeqs_def)
  then show thesis
    using that take_ops_prefix [OF keys] take_ops_rows take_ops_length [of policy "wn_dirty state" n m "sortedSeqs state" 0]
      take_ops_first [OF keys]
    by (metis minus_nat.diff_0 ops)
qed

text \<open>Writing a batch over the rows of the log.\<close>

definition write_ops :: "log_entry list \<Rightarrow> (nat \<rightharpoonup> agent_turn_event) \<Rightarrow> nat \<rightharpoonup> agent_turn_event" where
  "write_ops ops written = foldl (\<lambda>rows op. rows(ent_seq op \<mapsto> ent_event op)) written ops"

lemma write_ops_outside: "seq \<notin> ent_seq ` set ops \<Longrightarrow> write_ops ops written seq = written seq"
  by (induction ops arbitrary: written) (simp_all add: write_ops_def)

lemma write_ops_inside:
  "distinct (map ent_seq ops) \<Longrightarrow> op \<in> set ops \<Longrightarrow> write_ops ops written (ent_seq op) = Some (ent_event op)"
proof (induction ops arbitrary: written)
  case (Cons first' ops)
  then show ?case
    using write_ops_outside [of "ent_seq first'" ops "written(ent_seq first' \<mapsto> ent_event first')"]
    by (auto simp: write_ops_def)
qed simp

lemma write_view:
  assumes "\<And>op. op \<in> set ops \<Longrightarrow> map_of (wn_dirty state) (ent_seq op) \<noteq> None"
  shows "window_view state (write_ops ops written) = window_view state written"
proof
  fix seq
  show "window_view state (write_ops ops written) seq = window_view state written seq"
  proof (cases "map_of (wn_dirty state) seq")
    case None
    then have "seq \<notin> ent_seq ` set ops" using assms by (metis imageE)
    then show ?thesis using None by (simp add: window_view_def write_ops_outside)
  qed (simp add: window_view_def)
qed

text \<open>Committing a batch that is written forgets rows whose content the log has.\<close>

lemma commit_op_ok:
  assumes "window_wf policy first written state"
    and "\<And>row. same (ent_seq op) \<Longrightarrow> map_of (wn_dirty state) (ent_seq op) = Some row \<Longrightarrow>
      written (ent_seq op) = Some (row_event row)"
  shows "window_wf policy first written (commit_op policy same state op)"
    and "window_view (commit_op policy same state op) written = window_view state written"
    and "window_faithful first written accepted (commit_op policy same state op) = window_faithful first written accepted state"
proof -
  have dirty: "wn_dirty (commit_op policy same state op) = wn_dirty state \<or>
      same (ent_seq op) \<and> wn_dirty (commit_op policy same state op) = AList.delete (ent_seq op) (wn_dirty state)"
    by (auto simp: commit_op_def split: option.split)
  show view: "window_view (commit_op policy same state op) written = window_view state written"
  proof
    fix seq
    show "window_view (commit_op policy same state op) written seq = window_view state written seq"
      using dirty assms(2) by (cases "seq = ent_seq op") (auto simp: window_view_def split: option.splits)
  qed
  show "window_wf policy first written (commit_op policy same state op)"
  proof (cases "map_of (wn_dirty state) (ent_seq op)")
    case (Some row)
    have "set (AList.delete (ent_seq op) (wn_dirty state)) \<subseteq> set (wn_dirty state)" by (auto simp: AList.delete_eq)
    then have "\<forall>s \<in> fst ` set (AList.delete (ent_seq op) (wn_dirty state)). first \<le> s \<and> s < wn_nextSeq state"
      using assms(1) unfolding window_wf_def by (meson image_mono subsetD)
    with assms(1) Some show ?thesis by (simp add: window_wf_def commit_op_def dirty_bytes_delete)
  qed (use assms(1) in \<open>simp add: commit_op_def\<close>)
  have "wn_tail (commit_op policy same state op) = wn_tail state" "wn_live (commit_op policy same state op) = wn_live state"
    "wn_nextSeq (commit_op policy same state op) = wn_nextSeq state"
    by (simp_all add: commit_op_def split: option.split)
  then show "window_faithful first written accepted (commit_op policy same state op) = window_faithful first written accepted state"
    by (simp add: window_faithful_def view)
qed

lemma commit_op_dirty:
  "map_of (wn_dirty (commit_op policy same state op)) =
     (if same (ent_seq op) then (map_of (wn_dirty state))(ent_seq op := None) else map_of (wn_dirty state))"
  by (auto simp: commit_op_def split: option.split)

lemma commit_op_frame [simp]:
  "wn_nextSeq (commit_op policy same state op) = wn_nextSeq state" "wn_loss (commit_op policy same state op) = wn_loss state"
  by (simp_all add: commit_op_def split: option.split)

lemma commit_ok:
  assumes "window_wf policy first written state"
    and "\<And>op row. op \<in> set (wb_ops batch) \<Longrightarrow> same (ent_seq op) \<Longrightarrow>
      map_of (wn_dirty state) (ent_seq op) = Some row \<Longrightarrow> written (ent_seq op) = Some (row_event row)"
  defines "state' \<equiv> commitBatch policy same state batch"
  shows "window_wf policy first written state'" and "window_view state' written = window_view state written"
    and "window_faithful first written accepted state' = window_faithful first written accepted state"
    and "map_of (wn_dirty state') seq = (if \<exists>op \<in> set (wb_ops batch). ent_seq op = seq \<and> same seq then None
      else map_of (wn_dirty state) seq)"
    and "wn_nextSeq state' = wn_nextSeq state" and "wn_loss state' = wn_loss state"
proof -
  have folded: "window_wf policy first written (foldl (commit_op policy same) state ops) \<and>
      window_view (foldl (commit_op policy same) state ops) written = window_view state written \<and>
      window_faithful first written accepted (foldl (commit_op policy same) state ops) = window_faithful first written accepted state \<and>
      map_of (wn_dirty (foldl (commit_op policy same) state ops)) =
        (\<lambda>seq. if \<exists>op \<in> set ops. ent_seq op = seq \<and> same seq then None else map_of (wn_dirty state) seq) \<and>
      wn_nextSeq (foldl (commit_op policy same) state ops) = wn_nextSeq state \<and>
      wn_loss (foldl (commit_op policy same) state ops) = wn_loss state"
    if "set ops \<subseteq> set (wb_ops batch)" for ops
    using that
  proof (induction ops rule: rev_induct)
    case (snoc op ops)
    let ?s = "foldl (commit_op policy same) state ops"
    have ih: "window_wf policy first written ?s" "window_view ?s written = window_view state written"
      "window_faithful first written accepted ?s = window_faithful first written accepted state"
      "map_of (wn_dirty ?s) = (\<lambda>seq. if \<exists>op \<in> set ops. ent_seq op = seq \<and> same seq then None else map_of (wn_dirty state) seq)"
      "wn_nextSeq ?s = wn_nextSeq state" "wn_loss ?s = wn_loss state"
      using snoc by simp_all
    have "written (ent_seq op) = Some (row_event row)"
      if "same (ent_seq op)" "map_of (wn_dirty ?s) (ent_seq op) = Some row" for row
      using that assms(2) [of op row] snoc.prems by (auto simp: ih(4) split: if_splits)
    note step = commit_op_ok [OF ih(1) this]
    have "map_of (wn_dirty (commit_op policy same ?s op)) =
        (\<lambda>seq. if \<exists>o' \<in> set (ops @ [op]). ent_seq o' = seq \<and> same seq then None else map_of (wn_dirty state) seq)"
      unfolding commit_op_dirty ih(4) by (auto simp: fun_eq_iff)
    with step ih show ?case by simp
  qed (use assms(1) in simp)
  let ?s = "foldl (commit_op policy same) state (wb_ops batch)"
  have "window_wf policy first written ?s" using folded by blast
  then have "wn_pendingBytes ?s = dirty_bytes policy (wn_dirty ?s)" unfolding window_wf_def by blast
  then have "state' = ?s" by (simp add: state'_def commitBatch_def Let_def dirty_bytes_def)
  with folded [OF order_refl]
  show "window_wf policy first written state'" "window_view state' written = window_view state written"
    "window_faithful first written accepted state' = window_faithful first written accepted state"
    "map_of (wn_dirty state') seq = (if \<exists>op \<in> set (wb_ops batch). ent_seq op = seq \<and> same seq then None
      else map_of (wn_dirty state) seq)"
    "wn_nextSeq state' = wn_nextSeq state" "wn_loss state' = wn_loss state"
    by simp_all
qed

lemma clip_wf:
  assumes "window_wf policy first written state"
  shows "window_wf policy first written (snd (clipRow policy state seq))"
    and "fst (clipRow policy state seq) \<Longrightarrow> wn_loss (snd (clipRow policy state seq)) = LossSupervisorGap"
    and "\<not> fst (clipRow policy state seq) \<Longrightarrow> snd (clipRow policy state seq) = state"
proof -
  note wf = assms [unfolded window_wf_def]
  show "window_wf policy first written (snd (clipRow policy state seq))"
  proof (cases "map_of (wn_dirty state) seq")
    case None
    then show ?thesis using assms by (simp add: clipRow_def)
  next
    case (Some row)
    then have seq: "first \<le> seq" "seq < wn_nextSeq state" using wf map_of_SomeD by force+
    then have "\<forall>s \<in> fst ` set (AList.update seq ClippedRow (wn_dirty state)). first \<le> s \<and> s < wn_nextSeq state"
      using wf unfolding dom_update by auto
    with wf Some show ?thesis
      by (cases row) (auto simp: clipRow_def Let_def window_wf_def mark_pending split: option.split)
  qed
  show "fst (clipRow policy state seq) \<Longrightarrow> wn_loss (snd (clipRow policy state seq)) = LossSupervisorGap"
    "\<not> fst (clipRow policy state seq) \<Longrightarrow> snd (clipRow policy state seq) = state"
    by (auto simp: clipRow_def Let_def split: option.split row_object.split prod.split)
qed

end
