(* ===== verification/LogWriter.thy ===== *)
theory LogWriter
  imports TurnWindowLaws
begin

text \<open>
  Writing the log of a turn, the slot of \<open>src/application/agentTurnLogWriter.ts\<close>: events are buffered
  until the log is opened, then go through the window; a flush takes a batch, and its answer settles
  the batch or is handled as a failure. Each handler is one definition: it returns the slot and, where
  the code goes on to call the gateway again or to plan a flush, that plan. The clock, the authority
  that owns the project and the size of an entry (the \<open>agentTurnLogOpBytes\<close> of the source) are
  arguments. The lifecycle snapshot, the published status, the timer objects and the final drain when
  the application quits are left out.
\<close>

section \<open>The slot\<close>

definition AGENT_TURN_LOG_RETRY_DELAYS_MS :: "int list" where
  "AGENT_TURN_LOG_RETRY_DELAYS_MS = [1000, 2000, 4000, 8000, 16000, 30000]"
definition MAX_AGENT_TURN_LOG_TRANSPORT_ATTEMPTS :: nat where "MAX_AGENT_TURN_LOG_TRANSPORT_ATTEMPTS = 8"
definition MAX_AGENT_TURN_LOG_RETRY_WINDOW_MS :: int where "MAX_AGENT_TURN_LOG_RETRY_WINDOW_MS = 600000"
definition AGENT_TURN_LOG_APPEND_TARGET_BYTES :: nat where "AGENT_TURN_LOG_APPEND_TARGET_BYTES = 524288"
definition backpressure_ops :: nat where "backpressure_ops = 4096"
definition backpressure_bytes :: int where "backpressure_bytes = 4194304"
definition backpressure_releaseOps :: nat where "backpressure_releaseOps = 2048"
definition backpressure_releaseBytes :: int where "backpressure_releaseBytes = 2097152"

datatype retry_error = RetryDiskFull | RetryUnreadable | RetryBusy | RetryUnavailable

datatype stop_reason =
    StopSealed
  | StopSupersededWriter
  | StopOwnerMismatch
  | StopSequenceGap
  | StopBudgetExhausted
  | StopForeign
  | StopTurnCeiling
  | StopFailed

datatype slot_state =
    SlotOpening
  | SlotWriting
  | SlotRetrying retry_error nat int
  | SlotStopped stop_reason

record writer_slot =
  sw_generation :: nat
  sw_provider :: agent_cli_kind
  sw_priorLoss :: turn_log_loss
  sw_buffered :: "agent_turn_event list"
  sw_bufferedBytes :: nat
  sw_window :: "window_state option"
  sw_writerEpoch :: nat
  sw_expectedNextSeq :: nat
  sw_persistedThroughSeq :: int
  sw_maxBatchOps :: nat
  sw_flushing :: bool
  sw_flushRequested :: bool
  sw_sealRequested :: bool
  sw_reopenPending :: bool
  sw_attempts :: nat
  sw_retryWindowStartMs :: "int option"
  sw_backpressure :: bool
  sw_reportedLoss :: turn_log_loss
  sw_state :: slot_state
  sw_recordedLoss :: "turn_log_loss option"

definition agentTurnLogWindowPolicy :: "(log_entry \<Rightarrow> nat) \<Rightarrow> window_policy" where
  "agentTurnLogWindowPolicy entryBytes =
     \<lparr>wp_eventBytes = agentTurnEventUtf8Bytes, wp_opBytes = entryBytes, wp_coalesceText = coalesceAgentTextEvents,
      wp_maxEventBytes = MAX_AGENT_TURN_LOG_EVENT_BYTES, wp_maxOpBytes = MAX_AGENT_TURN_LOG_OP_BYTES,
      wp_maxLiveSnapshots = None, wp_maxIdentities = None\<rparr>"

text \<open>The slot \<open>openTurn\<close> puts into the table.\<close>

definition new_slot :: "nat \<Rightarrow> agent_cli_kind \<Rightarrow> turn_log_loss \<Rightarrow> writer_slot" where
  "new_slot generation provider priorLoss =
     \<lparr>sw_generation = generation, sw_provider = provider, sw_priorLoss = priorLoss, sw_buffered = [],
      sw_bufferedBytes = 0, sw_window = None, sw_writerEpoch = 0, sw_expectedNextSeq = 0,
      sw_persistedThroughSeq = 0, sw_maxBatchOps = log_limit_appendOps, sw_flushing = False,
      sw_flushRequested = False, sw_sealRequested = False, sw_reopenPending = False, sw_attempts = 0,
      sw_retryWindowStartMs = None, sw_backpressure = False, sw_reportedLoss = LossNone,
      sw_state = SlotOpening, sw_recordedLoss = None\<rparr>"

definition slotLoss :: "writer_slot \<Rightarrow> turn_log_loss" where
  "slotLoss slot =
     mergeAgentTurnLogLoss (mergeAgentTurnLogLoss (sw_priorLoss slot) (sw_reportedLoss slot))
       (case sw_window slot of None \<Rightarrow> LossNone | Some state \<Rightarrow> wn_loss state)"

definition slot_stopped :: "writer_slot \<Rightarrow> bool" where
  "slot_stopped slot \<longleftrightarrow> (case sw_state slot of SlotStopped _ \<Rightarrow> True | _ \<Rightarrow> False)"

definition applyBackpressure :: "writer_slot \<Rightarrow> window_pending \<Rightarrow> writer_slot" where
  "applyBackpressure slot pending' =
     (let raised = (pn_ops pending' \<ge> backpressure_ops \<or> pn_bytes pending' \<ge> backpressure_bytes);
        released = (pn_ops pending' \<le> backpressure_releaseOps \<and> pn_bytes pending' \<le> backpressure_releaseBytes) in
      if \<not> sw_backpressure slot \<and> raised then slot\<lparr>sw_backpressure := True\<rparr>
      else if sw_backpressure slot \<and> released then slot\<lparr>sw_backpressure := False\<rparr>
      else slot)"

section \<open>Stopping and retrying\<close>

text \<open>
  A stop keeps only what a note of the loss needs: unless the log is sealed, and once it was opened, an
  empty request with that loss follows (\<open>recordIncomplete\<close>).
\<close>

definition stop_slot :: "writer_slot \<Rightarrow> stop_reason \<Rightarrow> turn_log_loss \<Rightarrow> writer_slot" where
  "stop_slot slot reason loss =
     slot\<lparr>sw_state := SlotStopped reason, sw_window := None, sw_buffered := [], sw_bufferedBytes := 0,
       sw_backpressure := False, sw_flushing := False,
       sw_recordedLoss := (if reason = StopSealed \<or> sw_writerEpoch slot = 0 then None
         else Some (mergeAgentTurnLogLoss (slotLoss slot) loss))\<rparr>"

text \<open>Who owns the project now: whether a generation does, and the current one.\<close>

record owner_authority =
  oa_ownsTurn :: "nat \<Rightarrow> bool"
  oa_currentGeneration :: "nat option"

definition adoptGeneration :: "owner_authority \<Rightarrow> writer_slot \<Rightarrow> bool \<times> writer_slot" where
  "adoptGeneration authority slot =
     (case oa_currentGeneration authority of
        None \<Rightarrow> (False, stop_slot slot StopOwnerMismatch LossWriteFailure)
      | Some generation \<Rightarrow>
          if generation = sw_generation slot \<or> \<not> oa_ownsTurn authority generation
          then (False, stop_slot slot StopOwnerMismatch LossWriteFailure)
          else (True, slot\<lparr>sw_generation := generation, sw_reopenPending := True\<rparr>))"

definition slot_alive :: "owner_authority \<Rightarrow> writer_slot \<Rightarrow> bool \<times> writer_slot" where
  "slot_alive authority slot =
     (if slot_stopped slot then (False, slot)
      else if oa_ownsTurn authority (sw_generation slot) then (True, slot)
      else adoptGeneration authority slot)"

datatype flush_plan = NoFlush | FlushSoon | FlushNow

definition scheduleFlush :: "writer_slot \<Rightarrow> bool \<Rightarrow> flush_plan" where
  "scheduleFlush slot immediate =
     (case sw_state slot of
        SlotStopped _ \<Rightarrow> NoFlush
      | SlotRetrying _ _ _ \<Rightarrow> NoFlush
      | _ \<Rightarrow> if sw_window slot = None then NoFlush else if immediate then FlushNow else FlushSoon)"

definition retryDelayMs :: "nat \<Rightarrow> int" where
  "retryDelayMs attempts =
     (let index = min (int attempts) (int (length AGENT_TURN_LOG_RETRY_DELAYS_MS)) - 1 in
      case nth_opt AGENT_TURN_LOG_RETRY_DELAYS_MS (nat (max index 0)) of None \<Rightarrow> 1000 | Some delay \<Rightarrow> delay)"

fun retryLoss :: "retry_error \<Rightarrow> int \<Rightarrow> turn_log_loss" where
  "retryLoss RetryDiskFull atEpochMs = LossDiskBudget atEpochMs"
| "retryLoss RetryUnreadable atEpochMs = LossUnreadable"
| "retryLoss RetryBusy atEpochMs = LossWriteFailure"
| "retryLoss RetryUnavailable atEpochMs = LossWriteFailure"

fun stopReasonFor :: "turn_log_error \<Rightarrow> stop_reason" where
  "stopReasonFor SupersededWriter = StopSupersededWriter"
| "stopReasonFor SequenceGap = StopSequenceGap"
| "stopReasonFor SealedLog = StopSealed"
| "stopReasonFor OwnerMismatch = StopOwnerMismatch"
| "stopReasonFor BudgetExhausted = StopBudgetExhausted"
| "stopReasonFor ForeignLog = StopForeign"
| "stopReasonFor _ = StopFailed"

definition stopRetries :: "writer_slot \<Rightarrow> retry_error \<Rightarrow> int \<Rightarrow> writer_slot" where
  "stopRetries slot error nowMs =
     (let loss = retryLoss error nowMs in
      stop_slot (slot\<lparr>sw_reportedLoss := mergeAgentTurnLogLoss (sw_reportedLoss slot) loss\<rparr>) StopFailed loss)"

definition retryLater :: "writer_slot \<Rightarrow> retry_error \<Rightarrow> int \<Rightarrow> writer_slot" where
  "retryLater slot error nowMs =
     (let slot = slot\<lparr>sw_attempts := sw_attempts slot + 1\<rparr> in
      if error = RetryUnavailable \<and> sw_attempts slot > MAX_AGENT_TURN_LOG_TRANSPORT_ATTEMPTS
      then stopRetries slot error nowMs
      else
        let startedAtMs = (case sw_retryWindowStartMs slot of None \<Rightarrow> nowMs | Some t \<Rightarrow> t);
          slot = slot\<lparr>sw_retryWindowStartMs := Some startedAtMs\<rparr>;
          nextAttemptAtMs = nowMs + retryDelayMs (sw_attempts slot) in
        if nextAttemptAtMs - startedAtMs > MAX_AGENT_TURN_LOG_RETRY_WINDOW_MS then stopRetries slot error nowMs
        else slot\<lparr>sw_state := SlotRetrying error (sw_attempts slot) nextAttemptAtMs\<rparr>)"

text \<open>The timer of a retry: whether the request is sent again.\<close>

definition wake_slot :: "owner_authority \<Rightarrow> writer_slot \<Rightarrow> bool \<times> writer_slot" where
  "wake_slot authority slot =
     (let (live', slot) = slot_alive authority slot in
      if \<not> live' then (False, slot)
      else (True, slot\<lparr>sw_state := (if sw_window slot = None then SlotOpening else SlotWriting)\<rparr>))"

section \<open>Flushing\<close>

text \<open>A batch on its way: the entries, whether it seals the log, and what the request says of the log.\<close>

record in_flight =
  if_batch :: window_batch
  if_seal :: bool
  if_epoch :: nat
  if_expected :: nat
  if_loss :: turn_log_loss

text \<open>The note of a stopped slot, \<open>recordIncomplete\<close>.\<close>

definition incomplete_request :: "writer_slot \<Rightarrow> turn_log_loss \<Rightarrow> in_flight" where
  "incomplete_request slot loss =
     \<lparr>if_batch = \<lparr>wb_ops = [], wb_digest = None, wb_complete = False\<rparr>, if_seal = False,
      if_epoch = sw_writerEpoch slot, if_expected = sw_expectedNextSeq slot, if_loss = loss\<rparr>"

datatype gateway_call = AppendCall in_flight | ReopenCall

definition flushOnce :: "(log_entry \<Rightarrow> nat) \<Rightarrow> writer_slot \<Rightarrow> window_state \<Rightarrow> writer_slot \<times> gateway_call option" where
  "flushOnce entryBytes slot state =
     (if sw_reopenPending slot then (slot, Some ReopenCall)
      else
        let batch = takeBatch (agentTurnLogWindowPolicy entryBytes) state (sw_maxBatchOps slot)
              AGENT_TURN_LOG_APPEND_TARGET_BYTES;
          seal = (sw_sealRequested slot \<and> wb_complete batch) in
        if length (wb_ops batch) = 0 \<and> \<not> seal then (slot\<lparr>sw_flushing := False\<rparr>, None)
        else (slot, Some (AppendCall \<lparr>if_batch = batch, if_seal = seal, if_epoch = sw_writerEpoch slot,
          if_expected = sw_expectedNextSeq slot, if_loss = slotLoss slot\<rparr>)))"

definition runFlush ::
  "(log_entry \<Rightarrow> nat) \<Rightarrow> owner_authority \<Rightarrow> writer_slot \<Rightarrow> writer_slot \<times> gateway_call option" where
  "runFlush entryBytes authority slot =
     (let (live', slot) = slot_alive authority slot in
      if \<not> live' then (slot, None)
      else
        case sw_window slot of
          None \<Rightarrow> (slot, None)
        | Some state \<Rightarrow>
            if sw_flushing slot then (slot\<lparr>sw_flushRequested := True\<rparr>, None)
            else flushOnce entryBytes (slot\<lparr>sw_flushing := True\<rparr>) state)"

text \<open>
  The handlers of an answer also tell whether the request is repeated at once. \<open>settleFlush\<close> goes on
  when a flush was asked for meanwhile, a seal is still due or rows are left.
\<close>

definition settleFlush ::
  "(log_entry \<Rightarrow> nat) \<Rightarrow> (nat \<Rightarrow> bool) \<Rightarrow> writer_slot \<Rightarrow> in_flight \<Rightarrow> nat \<Rightarrow> int \<Rightarrow> bool \<times> writer_slot" where
  "settleFlush entryBytes same slot inflight nextSeq persistedThroughSeq =
     (case sw_window slot of
        None \<Rightarrow> (False, slot)
      | Some state \<Rightarrow>
          let state = commitBatch (agentTurnLogWindowPolicy entryBytes) same state (if_batch inflight);
            slot = slot\<lparr>sw_window := Some state, sw_attempts := 0, sw_retryWindowStartMs := None,
              sw_expectedNextSeq := nextSeq, sw_persistedThroughSeq := persistedThroughSeq, sw_state := SlotWriting\<rparr>;
            slot = applyBackpressure slot (pendingOf state) in
          if if_seal inflight then (False, stop_slot slot StopSealed LossWriteFailure)
          else (sw_flushRequested slot \<or> sw_sealRequested slot \<or> pn_ops (pendingOf state) > 0,
            slot\<lparr>sw_flushRequested := False\<rparr>))"

definition shrinkBatch :: "(log_entry \<Rightarrow> nat) \<Rightarrow> writer_slot \<Rightarrow> in_flight option \<Rightarrow> bool \<times> writer_slot" where
  "shrinkBatch entryBytes slot inflight =
     (case (inflight, sw_window slot) of
        (Some inflight, Some state) \<Rightarrow>
          (case wb_ops (if_batch inflight) of
             [] \<Rightarrow> (False, stop_slot slot StopFailed LossWriteFailure)
           | only # rest \<Rightarrow>
               if length (wb_ops (if_batch inflight)) > 1
               then (True, slot\<lparr>sw_maxBatchOps := length (wb_ops (if_batch inflight)) div 2\<rparr>)
               else
                 case clipRow (agentTurnLogWindowPolicy entryBytes) state (ent_seq only) of
                   (clipped, state) \<Rightarrow>
                     if \<not> clipped then (False, stop_slot slot StopFailed LossWriteFailure)
                     else (True, slot\<lparr>sw_window := Some state\<rparr>))
      | _ \<Rightarrow> (False, stop_slot slot StopFailed LossWriteFailure))"

definition reconcileSequenceGap ::
  "(log_entry \<Rightarrow> nat) \<Rightarrow> (nat \<Rightarrow> bool) \<Rightarrow> writer_slot \<Rightarrow> gateway_error \<Rightarrow> in_flight option \<Rightarrow> bool \<times> writer_slot" where
  "reconcileSequenceGap entryBytes same slot error inflight =
     (case (agentTurnLogFailureNextSeq error, inflight) of
        (Some reported, Some inflight) \<Rightarrow>
          if wb_ops (if_batch inflight) = [] then (False, stop_slot slot StopSequenceGap LossWriteFailure)
          else if reported \<noteq> max (sw_expectedNextSeq slot) (ent_seq (last (wb_ops (if_batch inflight))) + 1)
          then (False, stop_slot slot StopSequenceGap LossWriteFailure)
          else settleFlush entryBytes same slot (inflight\<lparr>if_seal := False\<rparr>) reported (int reported - 1)
      | _ \<Rightarrow> (False, stop_slot slot StopSequenceGap LossWriteFailure))"

definition handleFailure ::
  "(log_entry \<Rightarrow> nat) \<Rightarrow> (nat \<Rightarrow> bool) \<Rightarrow> writer_slot \<Rightarrow> gateway_error \<Rightarrow> in_flight option \<Rightarrow> int \<Rightarrow> bool \<times> writer_slot" where
  "handleFailure entryBytes same slot error inflight nowMs =
     (if isAgentTurnLogBatchTooLarge error then shrinkBatch entryBytes slot inflight
      else
        case agentTurnLogFailureCode error of
          Some SequenceGap \<Rightarrow> reconcileSequenceGap entryBytes same slot error inflight
        | Some DiskFull \<Rightarrow> (False, retryLater slot RetryDiskFull nowMs)
        | Some UnreadableLog \<Rightarrow> (False, retryLater slot RetryUnreadable nowMs)
        | Some BusyLog \<Rightarrow> (False, retryLater slot RetryBusy nowMs)
        | Some code \<Rightarrow> (False, stop_slot slot (stopReasonFor code) LossWriteFailure)
        | None \<Rightarrow> (False, retryLater slot RetryUnavailable nowMs))"

text \<open>The receipt of an append, and the lease of an open.\<close>

record append_receipt =
  ap_nextSeq :: nat
  ap_persistedThroughSeq :: int

record log_lease =
  le_writerEpoch :: nat
  le_nextSeq :: nat
  le_digest :: "turn_digest option"

definition answer_append ::
  "(log_entry \<Rightarrow> nat) \<Rightarrow> (nat \<Rightarrow> bool) \<Rightarrow> owner_authority \<Rightarrow> writer_slot \<Rightarrow> in_flight \<Rightarrow>
     gateway_error + append_receipt \<Rightarrow> int \<Rightarrow> bool \<times> writer_slot" where
  "answer_append entryBytes same authority slot inflight answer nowMs =
     (let (live', slot) = slot_alive authority (slot\<lparr>sw_flushing := False\<rparr>) in
      if \<not> live' then (False, slot)
      else
        case answer of
          Inl error \<Rightarrow> handleFailure entryBytes same slot error (Some inflight) nowMs
        | Inr receipt \<Rightarrow>
            settleFlush entryBytes same (slot\<lparr>sw_maxBatchOps := log_limit_appendOps\<rparr>) inflight
              (ap_nextSeq receipt) (ap_persistedThroughSeq receipt))"

text \<open>The answer to \<open>reopenLease\<close>, with the rest of \<open>flushOnce\<close>.\<close>

definition answer_reopen ::
  "(log_entry \<Rightarrow> nat) \<Rightarrow> owner_authority \<Rightarrow> writer_slot \<Rightarrow> gateway_error + log_lease \<Rightarrow> int \<Rightarrow> bool \<times> writer_slot" where
  "answer_reopen entryBytes authority slot answer nowMs =
     (let (live', slot) = slot_alive authority slot in
      if \<not> live' then (False, slot\<lparr>sw_flushing := False\<rparr>)
      else
        case answer of
          Inl error \<Rightarrow>
            (let (again, slot) = handleFailure entryBytes (\<lambda>_. False) slot error None nowMs in
             (again, slot\<lparr>sw_flushing := False\<rparr>))
        | Inr lease \<Rightarrow>
            if le_nextSeq lease \<noteq> sw_expectedNextSeq slot
            then (False, stop_slot slot StopSequenceGap LossWriteFailure)
            else (True, slot\<lparr>sw_writerEpoch := le_writerEpoch lease, sw_attempts := 0,
              sw_retryWindowStartMs := None, sw_flushing := False, sw_reopenPending := False\<rparr>))"

section \<open>Opening and recording\<close>

definition resumedDigest :: "writer_slot \<Rightarrow> turn_digest option \<Rightarrow> turn_digest" where
  "resumedDigest slot digest =
     (case digest of
        None \<Rightarrow> emptyAgentTurnDigest (sw_provider slot)
      | Some digest \<Rightarrow>
          if dx_provider (td_context digest) \<noteq> sw_provider slot then emptyAgentTurnDigest (sw_provider slot) else digest)"

definition adoptLease :: "writer_slot \<Rightarrow> log_lease \<Rightarrow> writer_slot" where
  "adoptLease slot lease =
     slot\<lparr>sw_writerEpoch := le_writerEpoch lease, sw_expectedNextSeq := le_nextSeq lease,
       sw_persistedThroughSeq := int (le_nextSeq lease) - 1, sw_attempts := 0, sw_retryWindowStartMs := None,
       sw_state := SlotWriting,
       sw_window := Some (createAgentTurnWindow (Some (le_nextSeq lease)) (resumedDigest slot (le_digest lease)))\<rparr>"

text \<open>The answer to \<open>runOpen\<close>: on a failure, whether the log is opened again at once.\<close>

definition answer_open ::
  "(log_entry \<Rightarrow> nat) \<Rightarrow> owner_authority \<Rightarrow> writer_slot \<Rightarrow> gateway_error + log_lease \<Rightarrow> int \<Rightarrow>
     (bool + flush_plan) \<times> writer_slot" where
  "answer_open entryBytes authority slot answer nowMs =
     (let (live', slot) = slot_alive authority slot in
      if \<not> live' then (Inl False, slot)
      else
        case answer of
          Inl error \<Rightarrow>
            (let (again, slot) = handleFailure entryBytes (\<lambda>_. False) slot error None nowMs in (Inl again, slot))
        | Inr lease \<Rightarrow>
            let buffered = sw_buffered slot;
              slot = (adoptLease slot lease)\<lparr>sw_buffered := [], sw_bufferedBytes := 0\<rparr> in
            case sw_window slot of
              None \<Rightarrow> (Inr (scheduleFlush slot (sw_sealRequested slot)), slot)
            | Some state \<Rightarrow>
                let (acceptance, state) = window_accept (agentTurnLogWindowPolicy entryBytes) state buffered;
                  slot = applyBackpressure (slot\<lparr>sw_window := Some state\<rparr>) (ac_pending acceptance) in
                (Inr (scheduleFlush slot (ac_urgent acceptance \<or> sw_sealRequested slot)), slot))"

definition recordEvents ::
  "(log_entry \<Rightarrow> nat) \<Rightarrow> writer_slot \<Rightarrow> agent_turn_event list \<Rightarrow> flush_plan \<times> writer_slot" where
  "recordEvents entryBytes slot events =
     (if length events = 0 then (NoFlush, slot)
      else if slot_stopped slot then (NoFlush, slot)
      else
        case sw_window slot of
          None \<Rightarrow>
            let slot = slot\<lparr>sw_buffered := sw_buffered slot @ events,
                  sw_bufferedBytes := sw_bufferedBytes slot + sum_list (map agentTurnEventUtf8Bytes events)\<rparr> in
            (NoFlush, applyBackpressure slot
              \<lparr>pn_ops = length (sw_buffered slot), pn_bytes = int (sw_bufferedBytes slot)\<rparr>)
        | Some state \<Rightarrow>
            let (acceptance, state) = window_accept (agentTurnLogWindowPolicy entryBytes) state events;
              slot = applyBackpressure (slot\<lparr>sw_window := Some state\<rparr>) (ac_pending acceptance) in
            (scheduleFlush slot (ac_urgent acceptance), slot))"

definition reportLoss :: "writer_slot \<Rightarrow> turn_log_loss \<Rightarrow> flush_plan \<times> writer_slot" where
  "reportLoss slot loss =
     (if loss = LossNone then (NoFlush, slot)
      else if slot_stopped slot then (NoFlush, slot)
      else
        let merged = mergeAgentTurnLogLoss (sw_reportedLoss slot) loss in
        if merged = sw_reportedLoss slot then (NoFlush, slot)
        else (scheduleFlush slot False, slot\<lparr>sw_reportedLoss := merged\<rparr>))"

definition sealTurn :: "writer_slot \<Rightarrow> flush_plan \<times> writer_slot" where
  "sealTurn slot =
     (if slot_stopped slot then (NoFlush, slot)
      else (scheduleFlush slot True, slot\<lparr>sw_sealRequested := True\<rparr>))"

end
