(* ===== verification/Spec2Isabelle.thy ===== *)
theory Spec2Isabelle
  imports Prelude Utf8 TurnEvent Supersession Aliases SnapshotIndex Retention Merge
    Lifecycle LifecycleInv LifecycleRetain Json LifecycleParse LifecycleRoundTrip LifecycleStates
    LineSplitter Launch AgentTask TaskMessages HaltRecord SessionIdentity ThreadData JsNumber ThreadOrder
    ThreadOrderPlan TurnRecovery ThreadStore ThreadReducer CapWindow TurnMachine StoreSteps StoreInv
    Eviction StoreAdmit StoreProps StoreRuns
    Codec WireFields WireFieldLaws WireEvents WireEventLaws ExternalSession ExternalSessionLaws CliVersion
    WireThread WireThreadLaws WireStore
    PromptClip JsonText JsonBytes TailSelection TailLaws MemoryValue TailCap TailCapLaws TailCapBytes WireSave SaveLaws
    ContextWindow TurnLog TurnWindow TurnWindowLaws LogWriter
begin

text \<open>
  Codevo, the agent threads of the editor. A \<^emph>\<open>thread\<close> is a conversation with a command line agent
  (Claude or Codex) about one repository; it is a list of \<^emph>\<open>turns\<close>, and a turn is what the user asked
  and the \<^emph>\<open>events\<close> the agent streamed back. This development models the code that holds, bounds,
  orders, stores and reloads them: the package \<open>src/packages/agent-events/src\<close> and the agent modules
  of \<open>src/src/domain\<close> (paths below are relative to these two, the package first).

  \<^bold>\<open>How the parts interact.\<close> The native host sends a task's status and output. The output is split
  into lines (\<open>LineSplitter\<close>), a provider parser turns lines into events (not modelled: any list of
  events is allowed), and the reducer (\<open>ThreadStore\<close>, \<open>ThreadReducer\<close>) appends them to the turn: the
  events merge into the turn's bounded window (\<open>Merge\<close> instantiates \<open>Retention\<close> with the supersession
  rules of \<open>Supersession\<close>, the live rows of \<open>SnapshotIndex\<close> and the names of \<open>Aliases\<close>), and update the
  metadata of the turn's subagents (\<open>Lifecycle\<close>), which outlives the window. Saving a thread cuts it
  to the size of its file (\<open>TailSelection\<close>, \<open>TailCap\<close>) and writes it as JSON (\<open>WireThread\<close>,
  \<open>WireSave\<close>); loading parses it strictly, repairs what a restart interrupted (\<open>TurnRecovery\<close>) and
  hands it to the reducer again.

  \<^bold>\<open>Conventions.\<close> A JavaScript string is a list of 16-bit code units (\<open>js_string\<close>, a \<open>16 word list\<close>),
  unpaired surrogates included; \<open>js\<close> makes one from an ASCII literal. A \<open>Map\<close> or \<open>Set\<close> is a list in
  insertion order (\<open>js_map\<close>, \<open>js_set\<close>). An absent or null field is \<open>None\<close>, a field that can be either an
  option of an option. An integer the code validates as a safe integer is an \<open>int\<close>; a finite double that is
  computed with is the rational it denotes, rounded after every operation (\<open>fl\<close> in \<open>JsNumber\<close>). A
  function that throws returns \<open>Inl\<close> with the path its message names, or \<open>None\<close> where there is only one
  way to fail. An in-place update of an object returns the new value; where two references could
  share it (the slots of the tail cap, the rows of the snapshot index) the object is named by its
  place. A \<open>WeakMap\<close> cache is left out after a lemma, or the remark that its keys are immutable,
  showed that it changes no answer.

  \<^bold>\<open>Shared theories.\<close> \<open>Prelude\<close>: strings, maps and sets, named collections, generic lemmas. \<open>Utf8\<close>
  (\<open>agentOutput/utf8Text.ts\<close>): \<open>boundUtf8Text\<close> and its platform services, the UTF-8 encoder and decoder
  of the WHATWG standard; the clip is a prefix of whole characters. \<open>Json\<close>: the values a parser of \<open>unknown\<close> is
  handed. \<open>JsNumber\<close>: binary64 rounding and \<open>Array.prototype.sort\<close>. \<open>JsonText\<close>, \<open>JsonBytes\<close>:
  \<open>JSON.stringify\<close> of the ECMAScript standard and the additivity of its sizes.

  \<^bold>\<open>The window of a turn.\<close>
  \<^item> \<open>TurnEvent\<close> (\<open>agentTurnEvent.ts\<close>, \<open>agentTurnEventLimits.ts\<close>, \<open>agentAttachment.ts\<close>): the events as a
    datatype with the source's kinds, and the limits.
  \<^item> \<open>Supersession\<close> (\<open>agentTurnEventSupersession.ts\<close>), \<open>Aliases\<close> (\<open>agentTurnSubagentAliases.ts\<close>),
    \<open>SnapshotIndex\<close> (\<open>agentTurnSnapshotIndex.ts\<close>): which event replaces which. Lemmas: a merge
    stays within its target; an alias resolves exactly when its links are one to one; a row is
    offered until a barrier ends it.
  \<^item> \<open>Retention\<close> (\<open>agentTurnEventRetention.ts\<close>), \<open>Merge\<close> (\<open>agentTurnEventMerge.ts\<close>), \<open>CapWindow\<close>: the
    algorithm with its lazy slots, pruning and aliases. The locale \<open>retention_laws\<close> states what a policy
    must promise; it is interpreted on the policy of \<open>Merge\<close>. Lemmas: merging returns, the result is within
    1024 events, 2 MiB and 32 subagent threads, user messages survive, a merge that does not
    report truncation lost nothing.

  \<^bold>\<open>Subagents.\<close> \<open>Lifecycle\<close>, \<open>LifecycleParse\<close> (\<open>agentSubagentLifecycle.ts\<close>): at most 32 entries, found
    by tool, task or thread id, merged when they turn out to be one agent. \<open>LifecycleInv\<close>,
    \<open>LifecycleRetain\<close>, \<open>LifecycleRoundTrip\<close>, \<open>LifecycleStates\<close>: every step keeps the invariant, the
    strict parser accepts exactly what the runtime retains and gives it back, terminal telemetry is a
    tombstone; and the collision of a reused tool id, a defect of the code.

  \<^bold>\<open>Tasks and sessions.\<close> \<open>LineSplitter\<close> (\<open>agentOutput/lineSplitter.ts\<close>), \<open>Launch\<close> (\<open>agentLaunch.ts\<close>),
    \<open>AgentTask\<close>, \<open>TaskMessages\<close> (\<open>agentTask.ts\<close>), \<open>HaltRecord\<close> (\<open>agentTurnHaltRecord.ts\<close>),
    \<open>SessionIdentity\<close> (\<open>agentSessionIdentity.ts\<close>), \<open>ExternalSession\<close>, \<open>ExternalSessionLaws\<close>
    (\<open>externalAgentSession.ts\<close>), \<open>CliVersion\<close> (\<open>agentCliVersion.ts\<close>): splitting does not depend on the
    chunks, the protocol parsers accept exactly the well-formed messages, the history of halts equals
    its summary, a lost session is replaced, versions are ordered by explicit keys.

  \<^bold>\<open>The store.\<close>
  \<^item> \<open>ThreadData\<close>, \<open>ThreadStore\<close>, \<open>ThreadReducer\<close> (\<open>agentThread.ts\<close>, \<open>agentTurnHaltRequest.ts\<close>,
    \<open>agentTurnOrigin.ts\<close>): turns, threads and the store as records, one definition per handler and
    \<open>agentThreadsReducer\<close> over the datatype of actions. \<open>ThreadOrder\<close>, \<open>ThreadOrderPlan\<close>
    (\<open>agentThreadOrganization.ts\<close>): snoozing, settling and the drag and drop order. \<open>TurnRecovery\<close>
    (\<open>agentTurnRestartRecovery.ts\<close>, \<open>agentTurnLifecycleRestore.ts\<close>, \<open>agentSubagentLifecycleLegacy.ts\<close>,
    \<open>agentLifecyclePersistence.ts\<close>).
  \<^item> \<open>TurnMachine\<close> is the abstract specification: an inductive step relation of one turn. \<open>StoreSteps\<close>,
    \<open>StoreInv\<close>, \<open>Eviction\<close>, \<open>StoreAdmit\<close>, \<open>StoreProps\<close>, \<open>StoreRuns\<close>: every action of the reducer is,
    for every turn that stays, no step or one step of the machine; reachable stores are well
    formed; running turns are never lost; eviction is exact; deliveries count once.

  \<^bold>\<open>Storage.\<close>
  \<^item> \<open>Codec\<close>, \<open>WireFields\<close>, \<open>WireFieldLaws\<close>, \<open>WireEvents\<close>, \<open>WireEventLaws\<close>, \<open>WireThread\<close>, \<open>WireThreadLaws\<close>,
    \<open>WireStore\<close> (\<open>agentThreadWire.ts\<close>, \<open>agentAttachment.ts\<close>, \<open>agentSubagentSpawn.ts\<close>): serializers and strict
    parsers in both directions. The locales \<open>field_codec\<close>, \<open>value_codec\<close> and \<open>saver\<close> state the
    contract of such a pair; each pair of the file is an interpretation, up to the
    document of a thread. Lemmas: what is saved reads back, what is read is well formed and loads,
    repeated saves do not drift.
  \<^item> \<open>PromptClip\<close> (\<open>agentPromptClipping.ts\<close>), \<open>TailSelection\<close>, \<open>TailLaws\<close>
    (\<open>agentTurnTailSelection.ts\<close>), \<open>MemoryValue\<close>, \<open>TailCap\<close>, \<open>TailCapLaws\<close>, \<open>TailCapBytes\<close>
    (\<open>agentThreadTailCap.ts\<close>), \<open>WireSave\<close>, \<open>SaveLaws\<close> (the entry points of \<open>agentThreadWire.ts\<close>): what a
    thread keeps when it is too large. Lemmas: the selection fits its budget, keeps the closing result
    and the last reply and joins no texts; the sizes the cap keeps incrementally are exact; a capped
    thread fits or has no event left; nothing is invented and every loss is flagged; what is stored
    is not cut again when it is loaded; saving never fails on storable content.

  \<^item> \<open>ContextWindow\<close> (\<open>agentContextWindow.ts\<close>, \<open>agentTurnDigest.ts\<close>): how full the model's context
    is, scanned from the events of a turn and kept incrementally in the digest of its log. Lemmas: both
    give the same answer however the events are batched.

  \<^item> \<open>TurnLog\<close> (\<open>agentTurnLog.ts\<close>), \<open>TurnWindow\<close>, \<open>TurnWindowLaws\<close> (\<open>agentTurnWindow.ts\<close>), \<open>LogWriter\<close>
    (\<open>src/application/agentTurnLogWriter.ts\<close>): the log of a turn. The window turns events into rows
    and hands out the changed ones in batches; the writer's slot opens the log, flushes batches and
    handles every answer of the store. Lemmas: the rows written, overridden by the changed ones, have
    the text of the events as long as no loss is noted; a batch is a prefix of the changed rows.

  \<^bold>\<open>Bounds and fuel.\<close> The limits are those of the source, as named constants. Recursion is structural or has a
  measure, with two exceptions. The eviction loop of \<open>Retention\<close> is a \<open>partial_function\<close> in the option
  monad, so a loop that never ended would be \<open>None\<close>; that it ends is a theorem (under the
  promise of the policy that it names a victim, which holds for the policy of \<open>Merge\<close>), and the
  reducer, which is in the same monad, is shown to return in every state. The search for the
  shortest decimal of a double in \<open>JsonText\<close> tries 17 digits, which determine a double. The fit loop
  of \<open>serializeAgentThread\<close> makes the three attempts of the source.

  \<^bold>\<open>Parameters.\<close> \<open>lc\<close> is \<open>localeCompare\<close> of the host, with the laws of a total preorder where a theorem
  needs them. The clock and fresh identifiers are fields of the actions, as in the source.

  \<^bold>\<open>Not modelled.\<close> The parsers of the providers' streams (\<open>agentOutput/claudeStreamJson.ts\<close>,
  \<open>codexJsonl.ts\<close>, \<open>codexAppServer.ts\<close> and their helpers): field by field translations of vendor
  JSON whose output the model covers as an arbitrary list of events. Of the turn log its
  table of slots, the lifecycle snapshot it also stores, its timers and the pages read back from it; the
  scroll positions of the transcript (\<open>agentTranscriptPosition.ts\<close>). React components and hooks, gateways and browser
  storage, and the native host in Rust: rendering, asynchronous effects and input and output around the
  modelled functions. Step probes, which count work for tests, and the sentences of error messages.
\<close>

end
